(* ===== verification/Prelude.thy ===== *)
theory Prelude
  imports Complex_Main "HOL-Library.Char_ord" "HOL-Library.List_Lexorder" "HOL-Library.AList"
begin

text \<open>
  Shared vocabulary of the development: the exceptions the Python code raises, as values;
  the operations on Python text the code uses (\<open>strip\<close>, the whitespace test, the SHA-256
  digest pattern, decimal rendering of integers); the tables the SQLite stores are made of
  (a list of rows looked up by a key) and the generic lemmas about them; and the collections
  of facts the component proofs draw on.

  Text is a list of characters, each read as one Unicode code point below 256.  Timestamps and
  other floats are rationals: rounding of floating-point operations is not modelled.
\<close>

named_theorems op_defs \<open>definitions of the operations of a component\<close>
named_theorems inv_intros \<open>introduction rules for component invariants\<close>
named_theorems inv_dests \<open>destruction rules for component invariants\<close>

section \<open>Exceptions as values\<close>

text \<open>
  One constructor per exception class of the modelled modules; the string is the fixed part
  of the message (values interpolated into a message are dropped).  Subclassing is written out
  where a handler catches a base class (see the worker).
\<close>

datatype py_exn =
    ValueError string
  | TypeError string
  | KeyError string
  | RuntimeError string
  | EventValidationError string
  | GraphInvariantError string
  | LedgerIntegrityError string
  | LedgerIdempotencyConflict string
  | JobStoreError string
  | JobIdempotencyConflict string
  | IllegalTransition string
  | LeaseConflict string
  | BudgetExceeded "string list"
  | SqlIntegrityError string
  | RetryableStageError string
  | FatalStageError string
  | BaselineContractError string
  | CircuitOpenError string
  | IndeterminateModelOperation string
  | IndeterminateRetrievalOperation string
  | AttributeError string
  | OperationRecoveryError string
  | BudgetExhausted string
  | PolicyStoreError string
  | CreditConflict string
  | ArtifactError string
  | ArtifactConflict string
  | ArtifactIntegrityError string
  | SurveyContractError string
  | StatisticsError string
  | FileNotFoundError string
  | RetentionError string
  | CrossValidationError string
  | EvidenceDriftError string
  | SLOError string
  | BenchmarkError string
  | OverflowError string
  | RouteConfigurationError string
  | ExtractionError string
  | GapError string
  | BackupError string
  | MigrationError string
  | SciverseError string
  | SciverseEmptyResult string
  | SciverseNotFound string
  | SciverseScopeTooLarge string
  | ZeroDivisionError string
  | IndexError string

text \<open>\<open>str(exc)\<close>, of the fixed part of the message.\<close>

fun exn_text :: "py_exn \<Rightarrow> string" where
  "exn_text (ValueError m) = m"
| "exn_text (TypeError m) = m"
| "exn_text (KeyError m) = m"
| "exn_text (RuntimeError m) = m"
| "exn_text (EventValidationError m) = m"
| "exn_text (GraphInvariantError m) = m"
| "exn_text (LedgerIntegrityError m) = m"
| "exn_text (LedgerIdempotencyConflict m) = m"
| "exn_text (JobStoreError m) = m"
| "exn_text (JobIdempotencyConflict m) = m"
| "exn_text (IllegalTransition m) = m"
| "exn_text (LeaseConflict m) = m"
| "exn_text (BudgetExceeded names) = ''budget exceeded''"
| "exn_text (SqlIntegrityError m) = m"
| "exn_text (RetryableStageError m) = m"
| "exn_text (FatalStageError m) = m"
| "exn_text (BaselineContractError m) = m"
| "exn_text (CircuitOpenError m) = m"
| "exn_text (IndeterminateModelOperation m) = m"
| "exn_text (IndeterminateRetrievalOperation m) = m"
| "exn_text (AttributeError m) = m"
| "exn_text (OperationRecoveryError m) = m"
| "exn_text (BudgetExhausted m) = m"
| "exn_text (PolicyStoreError m) = m"
| "exn_text (CreditConflict m) = m"
| "exn_text (ArtifactError m) = m"
| "exn_text (ArtifactConflict m) = m"
| "exn_text (ArtifactIntegrityError m) = m"
| "exn_text (SurveyContractError m) = m"
| "exn_text (StatisticsError m) = m"
| "exn_text (FileNotFoundError m) = m"
| "exn_text (RetentionError m) = m"
| "exn_text (CrossValidationError m) = m"
| "exn_text (EvidenceDriftError m) = m"
| "exn_text (SLOError m) = m"
| "exn_text (BenchmarkError m) = m"
| "exn_text (OverflowError m) = m"
| "exn_text (RouteConfigurationError m) = m"
| "exn_text (ExtractionError m) = m"
| "exn_text (GapError m) = m"
| "exn_text (BackupError m) = m"
| "exn_text (MigrationError m) = m"
| "exn_text (SciverseError m) = m"
| "exn_text (SciverseEmptyResult m) = m"
| "exn_text (SciverseNotFound m) = m"
| "exn_text (SciverseScopeTooLarge m) = m"
| "exn_text (ZeroDivisionError m) = m"
| "exn_text (IndexError m) = m"

text \<open>\<open>isinstance(exc, ValueError)\<close>\<close>

fun is_value_error :: "py_exn \<Rightarrow> bool" where
  "is_value_error (ValueError m) = True"
| "is_value_error (EventValidationError m) = True"
| "is_value_error (GraphInvariantError m) = True"
| "is_value_error (BaselineContractError m) = True"
| "is_value_error (CircuitOpenError m) = True"
| "is_value_error (IndeterminateModelOperation m) = True"
| "is_value_error (IndeterminateRetrievalOperation m) = True"
| "is_value_error (OperationRecoveryError m) = True"
| "is_value_error (SurveyContractError m) = True"
| "is_value_error (StatisticsError m) = True"
| "is_value_error (CrossValidationError m) = True"
| "is_value_error (EvidenceDriftError m) = True"
| "is_value_error (SLOError m) = True"
| "is_value_error (BenchmarkError m) = True"
| "is_value_error (RouteConfigurationError m) = True"
| "is_value_error (ExtractionError m) = True"
| "is_value_error (GapError m) = True"
| "is_value_error e = False"

type_synonym 'a result = "py_exn + 'a"
type_synonym time = rat

text \<open>Sequencing of computations that may raise.\<close>

definition bind_result :: "'a result \<Rightarrow> ('a \<Rightarrow> 'b result) \<Rightarrow> 'b result" where
  "bind_result r k = (case r of Inl e \<Rightarrow> Inl e | Inr x \<Rightarrow> k x)"

lemma bind_result_simps [simp]:
  "bind_result (Inl e) k = Inl e"
  "bind_result (Inr x) k = k x"
  by (simp_all add: bind_result_def)

lemma bind_result_Inr_iff:
  "bind_result r k = Inr y \<longleftrightarrow> (\<exists>x. r = Inr x \<and> k x = Inr y)"
  by (cases r) simp_all

lemma bind_result_InrE [elim!]:
  assumes "bind_result r k = Inr y"
  obtains x where "r = Inr x" and "k x = Inr y"
  using assms by (auto simp: bind_result_Inr_iff)

lemma if_Inl_eq_Inr [simp]:
  "(if c then Inl e else r) = Inr y \<longleftrightarrow> \<not> c \<and> r = Inr y"
  by simp

section \<open>Python text\<close>

definition py_space :: "char \<Rightarrow> bool" where
  "py_space c \<longleftrightarrow> (let n = (of_char c :: nat) in
     (9 \<le> n \<and> n \<le> 13) \<or> (28 \<le> n \<and> n \<le> 32) \<or> n = 133 \<or> n = 160)"

definition strip :: "string \<Rightarrow> string" where
  "strip s = rev (dropWhile py_space (rev (dropWhile py_space s)))"

definition blank :: "string \<Rightarrow> bool" where
  "blank s \<longleftrightarrow> strip s = []"

lemma blank_iff: "blank s \<longleftrightarrow> (\<forall>c \<in> set s. py_space c)"
proof -
  have "dropWhile py_space s = [] \<longleftrightarrow> (\<forall>c \<in> set s. py_space c)"
    by (simp add: dropWhile_eq_Nil_conv)
  moreover have "(\<forall>c \<in> set (dropWhile py_space s). py_space c) \<longleftrightarrow> dropWhile py_space s = []"
    by (metis dropWhile_eq_Nil_conv dropWhile_idem list.set(1) empty_iff)
  ultimately show ?thesis
    by (simp add: blank_def strip_def dropWhile_eq_Nil_conv)
qed

lemma blank_Nil [simp]: "blank []"
  by (simp add: blank_def strip_def)

definition hex_digits :: string where
  "hex_digits = ''0123456789abcdef''"

text \<open>The pattern \<open>[0-9a-f]{64}\<close> under \<open>fullmatch\<close>.\<close>

definition is_hex64 :: "string \<Rightarrow> bool" where
  "is_hex64 s \<longleftrightarrow> length s = 64 \<and> list_all (\<lambda>c. c \<in> set hex_digits) s"

lemma is_hex64_nonempty: "is_hex64 s \<Longrightarrow> s \<noteq> []"
  by (auto simp: is_hex64_def)

definition lower_char :: "char \<Rightarrow> char" where
  "lower_char c = (let n = (of_char c :: nat) in if 65 \<le> n \<and> n \<le> 90 then char_of (n + 32) else c)"

subsection \<open>Evaluation of the character tests\<close>

text \<open>Equations on the bits of a character, by which concrete texts are evaluated.\<close>

lemma lower_char_code [code]:
  "lower_char (Char b0 b1 b2 b3 b4 b5 b6 b7) =
   Char b0 b1 b2 b3 b4 (b5 \<or> (b6 \<and> \<not> b7 \<and> (b0 \<or> b1 \<or> b2 \<or> b3 \<or> b4) \<and> \<not> (b4 \<and> b3 \<and> (b2 \<or> (b1 \<and> b0))))) b6 b7"
proof -
  have "\<forall>b0 b1 b2 b3 b4 b5 b6 b7. lower_char (Char b0 b1 b2 b3 b4 b5 b6 b7) =
   Char b0 b1 b2 b3 b4 (b5 \<or> (b6 \<and> \<not> b7 \<and> (b0 \<or> b1 \<or> b2 \<or> b3 \<or> b4) \<and> \<not> (b4 \<and> b3 \<and> (b2 \<or> (b1 \<and> b0))))) b6 b7"
    by code_simp
  then show ?thesis by blast
qed

lemma py_space_code [code]:
  "py_space c \<longleftrightarrow> c \<in> set [CHR 0x09, CHR 0x0A, CHR 0x0B, CHR 0x0C, CHR 0x0D, CHR 0x1C, CHR 0x1D, CHR 0x1E, CHR 0x1F,
     CHR 0x20, CHR 0x85, CHR 0xA0]"
proof -
  have "\<forall>b0 b1 b2 b3 b4 b5 b6 b7. py_space (Char b0 b1 b2 b3 b4 b5 b6 b7) \<longleftrightarrow> (Char b0 b1 b2 b3 b4 b5 b6 b7) \<in> set [CHR 0x09, CHR 0x0A, CHR 0x0B, CHR 0x0C, CHR 0x0D, CHR 0x1C, CHR 0x1D, CHR 0x1E, CHR 0x1F,
     CHR 0x20, CHR 0x85, CHR 0xA0]"
    by code_simp
  then show ?thesis by (cases c) blast
qed

fun join :: "string \<Rightarrow> string list \<Rightarrow> string" where
  "join sep [] = []"
| "join sep [x] = x"
| "join sep (x # y # xs) = x @ sep @ join sep (y # xs)"

lemma join_Cons: "join sep (x # xs) = (if xs = [] then x else x @ sep @ join sep xs)"
  by (cases xs) simp_all

subsection \<open>Decimal rendering of integers\<close>

definition digit_char :: "nat \<Rightarrow> char" where
  "digit_char d = char_of (48 + d)"

fun show_nat :: "nat \<Rightarrow> string" where
  "show_nat n = (if n < 10 then [digit_char n]
     else show_nat (n div 10) @ [digit_char (n mod 10)])"

declare show_nat.simps [simp del]

definition show_int :: "int \<Rightarrow> string" where
  "show_int i = (if i < 0 then CHR ''-'' # show_nat (nat (- i)) else show_nat (nat i))"

definition nat_value :: "string \<Rightarrow> nat" where
  "nat_value s = foldl (\<lambda>a c. 10 * a + (of_char c - 48)) 0 s"

lemma of_char_digit_char [simp]: "d < 10 \<Longrightarrow> (of_char (digit_char d) :: nat) = 48 + d"
  by (simp add: digit_char_def)

lemma nat_value_show_nat [simp]: "nat_value (show_nat n) = n"
proof (induction n rule: show_nat.induct)
  case (1 n)
  show ?case
  proof (cases "n < 10")
    case True
    then show ?thesis by (subst show_nat.simps) (simp add: nat_value_def)
  next
    case False
    have "nat_value (show_nat (n div 10) @ [digit_char (n mod 10)])
        = 10 * nat_value (show_nat (n div 10)) + n mod 10"
      by (simp add: nat_value_def)
    with False "1.IH" show ?thesis by (subst show_nat.simps) simp
  qed
qed

lemma show_nat_inj: "show_nat m = show_nat n \<Longrightarrow> m = n"
  by (metis nat_value_show_nat)

lemma show_nat_nonempty [simp]: "show_nat n \<noteq> []"
  by (subst show_nat.simps) simp

definition py_digit :: "char \<Rightarrow> bool" where
  "py_digit c \<longleftrightarrow> (let n = (of_char c :: nat) in 48 \<le> n \<and> n \<le> 57)"

lemma py_digit_code [code]:
  "py_digit c \<longleftrightarrow> c \<in> set ''0123456789''"
proof -
  have "\<forall>b0 b1 b2 b3 b4 b5 b6 b7. py_digit (Char b0 b1 b2 b3 b4 b5 b6 b7) \<longleftrightarrow> (Char b0 b1 b2 b3 b4 b5 b6 b7) \<in> set ''0123456789''"
    by code_simp
  then show ?thesis by (cases c) blast
qed

lemma show_nat_digits: "list_all py_digit (show_nat n)"
proof (induction n rule: show_nat.induct)
  case (1 n)
  have d: "py_digit (digit_char d)" if "d < 10" for d
    using that by (simp add: py_digit_def)
  show ?case
  proof (cases "n < 10")
    case True
    then show ?thesis by (subst show_nat.simps) (simp add: d)
  next
    case False
    with "1.IH" show ?thesis by (subst show_nat.simps) (simp add: d)
  qed
qed

lemma not_digit_minus [simp]: "\<not> py_digit (CHR ''-'')"
  by (simp add: py_digit_def)

lemma show_int_inj: "show_int i = show_int j \<Longrightarrow> i = j"
proof -
  have minus: "show_nat n \<noteq> CHR ''-'' # s" for n s
    using show_nat_digits [of n] by auto
  assume "show_int i = show_int j"
  then show "i = j"
    by (auto simp: show_int_def minus minus [symmetric] dest!: show_nat_inj split: if_splits)
qed

lemma find_SomeD: "find P xs = Some x \<Longrightarrow> x \<in> set xs \<and> P x"
  by (induction xs) (auto split: if_splits)

lemma find_append_None: "find P xs = None \<Longrightarrow> find P (xs @ ys) = find P ys"
  by (induction xs) (auto split: if_splits)

section \<open>Tables: lists of rows looked up by a key\<close>

definition row_by :: "('r \<Rightarrow> 'k) \<Rightarrow> 'k \<Rightarrow> 'r list \<Rightarrow> 'r option" where
  "row_by key k rows = find (\<lambda>r. key r = k) rows"

lemma row_by_Nil [simp]: "row_by key k [] = None"
  by (simp add: row_by_def)

lemma row_by_Cons: "row_by key k (r # rs) = (if key r = k then Some r else row_by key k rs)"
  by (simp add: row_by_def)

lemma row_by_SomeD: "row_by key k rows = Some r \<Longrightarrow> r \<in> set rows \<and> key r = k"
  by (induction rows) (auto simp: row_by_Cons split: if_splits)

lemma row_by_None_iff: "row_by key k rows = None \<longleftrightarrow> k \<notin> key ` set rows"
  by (induction rows) (auto simp: row_by_Cons)

lemma row_by_append:
  "row_by key k (xs @ ys) = (case row_by key k xs of None \<Rightarrow> row_by key k ys | Some r \<Rightarrow> Some r)"
  by (induction xs) (auto simp: row_by_Cons)

lemma row_by_distinct:
  "distinct (map key rows) \<Longrightarrow> r \<in> set rows \<Longrightarrow> row_by key (key r) rows = Some r"
  by (induction rows) (auto simp: row_by_Cons rev_image_eqI)

text \<open>\<open>UPDATE ... WHERE key = k\<close>: every row with that key is rewritten.\<close>

definition update_rows :: "('r \<Rightarrow> 'k) \<Rightarrow> 'k \<Rightarrow> ('r \<Rightarrow> 'r) \<Rightarrow> 'r list \<Rightarrow> 'r list" where
  "update_rows key k f rows = map (\<lambda>r. if key r = k then f r else r) rows"

lemma update_rows_Nil [simp]: "update_rows key k f [] = []"
  by (simp add: update_rows_def)

lemma length_update_rows [simp]: "length (update_rows key k f rows) = length rows"
  by (simp add: update_rows_def)

lemma map_update_rows:
  "(\<And>r. g (f r) = g r) \<Longrightarrow> map g (update_rows key k f rows) = map g rows"
  by (simp add: update_rows_def)

lemma set_update_rowsD:
  "x \<in> set (update_rows key k f rows) \<Longrightarrow>
    (x \<in> set rows \<and> key x \<noteq> k) \<or> (\<exists>r \<in> set rows. key r = k \<and> x = f r)"
  by (auto simp: update_rows_def)

lemma row_by_update_rows:
  assumes "\<And>r. key (f r) = key r"
  shows "row_by key j (update_rows key k f rows)
    = (if j = k then map_option f (row_by key k rows) else row_by key j rows)"
  using assms by (induction rows) (auto simp: update_rows_def row_by_Cons)

lemma list_all_update_rows:
  "(\<And>r. r \<in> set rows \<Longrightarrow> P r) \<Longrightarrow>
   (\<And>r. r \<in> set rows \<Longrightarrow> key r = k \<Longrightarrow> P r \<Longrightarrow> P (f r)) \<Longrightarrow>
   x \<in> set (update_rows key k f rows) \<Longrightarrow> P x"
  by (auto simp: update_rows_def)

lemma distinct_snoc_key:
  "distinct (map key rows) \<Longrightarrow> row_by key (key r) rows = None \<Longrightarrow> distinct (map key (rows @ [r]))"
  by (auto simp: row_by_None_iff)

section \<open>Dictionaries kept in insertion order\<close>

text \<open>
  A Python dictionary is an association list with distinct keys: \<open>map_of\<close> reads it and
  \<open>AList.update\<close> assigns, replacing in place or appending at the end as Python does.
\<close>

lemma map_of_update_Some [simp]: "map_of (AList.update k v al) k = Some v"
  by (simp add: update_conv')

lemma set_updateD: "(k', v') \<in> set (AList.update k v al) \<Longrightarrow> (k', v') = (k, v) \<or> (k', v') \<in> set al"
  by (induction al) (auto split: if_splits)

lemma map_of_distinct: "distinct (map fst al) \<Longrightarrow> (k, v) \<in> set al \<longleftrightarrow> map_of al k = Some v"
  by (auto intro: map_of_is_SomeI dest: map_of_SomeD)

end
