(* ===== verification/Json.thy ===== *)
theory Json
  imports Prelude
begin

text \<open>
  JSON values as the durable stores see them (\<open>src/core/events.py\<close>, lines 18 to 55): the
  canonical rendering whose SHA-256 digest links the ledger, the search for secret-bearing
  keys, and the check every durable payload passes.  \<open>json.dumps\<close> is modelled for the
  arguments \<open>canonical_json\<close> gives it (sorted keys, no spaces, no ASCII escaping, NaN
  refused).  A finite float is represented by its \<open>repr\<close> text, which is what
  \<open>json.dumps\<close> writes; a dictionary is an association list in insertion order.

  The main result is that the canonical rendering determines the value up to the order of
  dictionary keys, so that equal digests mean equal contents unless SHA-256 collides.
\<close>

section \<open>Values\<close>

datatype json =
    JNull
  | JBool bool
  | JInt int
  | JFloat string
  | JNonFinite string
  | JStr string
  | JList "json list"
  | JObj "(string \<times> json) list"

fun is_dict :: "json \<Rightarrow> bool" where
  "is_dict (JObj kvs) = True"
| "is_dict v = False"

fun jget :: "json \<Rightarrow> string \<Rightarrow> json option" where
  "jget (JObj kvs) k = map_of kvs k"
| "jget v k = None"

text \<open>\<open>{**payload, k: v}\<close>\<close>

fun jput :: "json \<Rightarrow> string \<Rightarrow> json \<Rightarrow> json" where
  "jput (JObj kvs) k v = JObj (AList.update k v kvs)"
| "jput x k v = x"

lemma jget_jput: "is_dict d \<Longrightarrow> jget (jput d k v) j = (if j = k then Some v else jget d j)"
  by (cases d) (auto simp: update_conv')

lemma is_dict_jput [simp]: "is_dict (jput d k v) = is_dict d"
  by (cases d) simp_all

section \<open>Python's \<open>str\<close> and \<open>repr\<close> of a value\<close>

definition printable :: "char \<Rightarrow> bool" where
  "printable c \<longleftrightarrow> (let n = (of_char c :: nat) in
     (32 \<le> n \<and> n \<le> 126) \<or> (161 \<le> n \<and> n \<noteq> 173))"

definition hex_char :: "nat \<Rightarrow> char" where
  "hex_char n = hex_digits ! n"

definition repr_char :: "char \<Rightarrow> char \<Rightarrow> string" where
  "repr_char q c = (let n = (of_char c :: nat) in
     if c = q \<or> c = CHR 0x5C then [CHR 0x5C, c]
     else if n = 10 then [CHR 0x5C, CHR ''n'']
     else if n = 13 then [CHR 0x5C, CHR ''r'']
     else if n = 9 then [CHR 0x5C, CHR ''t'']
     else if printable c then [c]
     else [CHR 0x5C, CHR ''x'', hex_char (n div 16), hex_char (n mod 16)])"

definition repr_string :: "string \<Rightarrow> string" where
  "repr_string s =
     (let q = (if CHR 0x27 \<in> set s \<and> CHR 0x22 \<notin> set s then CHR 0x22 else CHR 0x27)
      in q # concat (map (repr_char q) s) @ [q])"

primrec py_repr :: "json \<Rightarrow> string" where
  "py_repr JNull = ''None''"
| "py_repr (JBool b) = (if b then ''True'' else ''False'')"
| "py_repr (JInt i) = show_int i"
| "py_repr (JFloat s) = s"
| "py_repr (JNonFinite s) = s"
| "py_repr (JStr s) = repr_string s"
| "py_repr (JList xs) = ''['' @ join '', '' (map py_repr xs) @ '']''"
| "py_repr (JObj kvs) = ''{'' @ join '', ''
     (map (\<lambda>(k, r). repr_string k @ '': '' @ r) (map (map_prod id py_repr) kvs)) @ ''}''"

fun py_str :: "json \<Rightarrow> string" where
  "py_str (JStr s) = s"
| "py_str v = py_repr v"

text \<open>\<open>isinstance(v, int)\<close> holds of booleans too, which count as 0 and 1.\<close>

fun as_int :: "json \<Rightarrow> int option" where
  "as_int (JInt i) = Some i"
| "as_int (JBool b) = Some (if b then 1 else 0)"
| "as_int v = None"

section \<open>Canonical rendering\<close>

definition esc_char :: "char \<Rightarrow> string" where
  "esc_char c = (let n = (of_char c :: nat) in
     if c = CHR 0x22 then [CHR 0x5C, CHR 0x22]
     else if c = CHR 0x5C then [CHR 0x5C, CHR 0x5C]
     else if n = 8 then [CHR 0x5C, CHR ''b'']
     else if n = 9 then [CHR 0x5C, CHR ''t'']
     else if n = 10 then [CHR 0x5C, CHR ''n'']
     else if n = 12 then [CHR 0x5C, CHR ''f'']
     else if n = 13 then [CHR 0x5C, CHR ''r'']
     else if n < 32 then
       [CHR 0x5C, CHR ''u'', CHR ''0'', CHR ''0'', hex_char (n div 16), hex_char (n mod 16)]
     else [c])"

lemma esc_char_code [code]:
  "esc_char c = (if c = CHR 0x22 then [CHR 0x5C, CHR 0x22]
     else if c = CHR 0x5C then [CHR 0x5C, CHR 0x5C]
     else if digit5 c \<or> digit6 c \<or> digit7 c then [c]
     else let n = (of_char c :: nat) in
       if n = 8 then [CHR 0x5C, CHR ''b'']
       else if n = 9 then [CHR 0x5C, CHR ''t'']
       else if n = 10 then [CHR 0x5C, CHR ''n'']
       else if n = 12 then [CHR 0x5C, CHR ''f'']
       else if n = 13 then [CHR 0x5C, CHR ''r'']
       else [CHR 0x5C, CHR ''u'', CHR ''0'', CHR ''0'', hex_char (n div 16), hex_char (n mod 16)])"
proof -
  have "\<forall>b0 b1 b2 b3 b4 b5 b6 b7. esc_char (Char b0 b1 b2 b3 b4 b5 b6 b7) = (if (Char b0 b1 b2 b3 b4 b5 b6 b7) = CHR 0x22 then [CHR 0x5C, CHR 0x22]
     else if (Char b0 b1 b2 b3 b4 b5 b6 b7) = CHR 0x5C then [CHR 0x5C, CHR 0x5C]
     else if digit5 (Char b0 b1 b2 b3 b4 b5 b6 b7) \<or> digit6 (Char b0 b1 b2 b3 b4 b5 b6 b7) \<or> digit7 (Char b0 b1 b2 b3 b4 b5 b6 b7) then [(Char b0 b1 b2 b3 b4 b5 b6 b7)]
     else let n = (of_char (Char b0 b1 b2 b3 b4 b5 b6 b7) :: nat) in
       if n = 8 then [CHR 0x5C, CHR ''b'']
       else if n = 9 then [CHR 0x5C, CHR ''t'']
       else if n = 10 then [CHR 0x5C, CHR ''n'']
       else if n = 12 then [CHR 0x5C, CHR ''f'']
       else if n = 13 then [CHR 0x5C, CHR ''r'']
       else [CHR 0x5C, CHR ''u'', CHR ''0'', CHR ''0'', hex_char (n div 16), hex_char (n mod 16)])"
    by code_simp
  then show ?thesis by (cases c) blast
qed

definition quote_string :: "string \<Rightarrow> string" where
  "quote_string s = CHR 0x22 # concat (map esc_char s) @ [CHR 0x22]"

primrec sort_keys :: "json \<Rightarrow> json" where
  "sort_keys JNull = JNull"
| "sort_keys (JBool b) = JBool b"
| "sort_keys (JInt i) = JInt i"
| "sort_keys (JFloat s) = JFloat s"
| "sort_keys (JNonFinite s) = JNonFinite s"
| "sort_keys (JStr s) = JStr s"
| "sort_keys (JList xs) = JList (map sort_keys xs)"
| "sort_keys (JObj kvs) = JObj (sort_key fst (map (map_prod id sort_keys) kvs))"

primrec render :: "json \<Rightarrow> string" where
  "render JNull = ''null''"
| "render (JBool b) = (if b then ''true'' else ''false'')"
| "render (JInt i) = show_int i"
| "render (JFloat s) = s"
| "render (JNonFinite s) = s"
| "render (JStr s) = quote_string s"
| "render (JList xs) = ''['' @ join '','' (map render xs) @ '']''"
| "render (JObj kvs) = ''{'' @ join '',''
     (map (\<lambda>(k, r). quote_string k @ '':'' @ r) (map (map_prod id render) kvs)) @ ''}''"

primrec finite_json :: "json \<Rightarrow> bool" where
  "finite_json JNull = True"
| "finite_json (JBool b) = True"
| "finite_json (JInt i) = True"
| "finite_json (JFloat s) = True"
| "finite_json (JNonFinite s) = False"
| "finite_json (JStr s) = True"
| "finite_json (JList xs) = list_all (\<lambda>b. b) (map finite_json xs)"
| "finite_json (JObj kvs) = list_all snd (map (map_prod id finite_json) kvs)"

definition canonical_json :: "json \<Rightarrow> string result" where
  "canonical_json v = (if finite_json v then Inr (render (sort_keys v))
     else Inl (ValueError ''Out of range float values are not JSON compliant''))"

section \<open>Secret-bearing keys\<close>

definition sensitive_words :: "string list" where
  "sensitive_words = [''apikey'', ''api_key'', ''authorization'', ''cookie'', ''credential'',
     ''password'', ''secret'', ''token'']"

text \<open>The end of the pattern: end of text, an underscore, or a final line feed.\<close>

definition word_end :: "string \<Rightarrow> bool" where
  "word_end r \<longleftrightarrow> r = [] \<or> r = [CHR 0x0A] \<or> hd r = CHR ''_''"

definition word_at :: "string \<Rightarrow> bool" where
  "word_at s \<longleftrightarrow> list_ex (\<lambda>w. take (length w) s = w \<and> word_end (drop (length w) s)) sensitive_words"

fun word_after_underscore :: "string \<Rightarrow> bool" where
  "word_after_underscore [] = False"
| "word_after_underscore (c # cs) = ((c = CHR ''_'' \<and> word_at cs) \<or> word_after_underscore cs)"

definition sensitive_key :: "string \<Rightarrow> bool" where
  "sensitive_key k \<longleftrightarrow> (let s = map lower_char k in word_at s \<or> word_after_underscore s)"

primrec sensitive_paths :: "json \<Rightarrow> string \<Rightarrow> string list" where
  "sensitive_paths JNull = (\<lambda>prefix. [])"
| "sensitive_paths (JBool b) = (\<lambda>prefix. [])"
| "sensitive_paths (JInt i) = (\<lambda>prefix. [])"
| "sensitive_paths (JFloat s) = (\<lambda>prefix. [])"
| "sensitive_paths (JNonFinite s) = (\<lambda>prefix. [])"
| "sensitive_paths (JStr s) = (\<lambda>prefix. [])"
| "sensitive_paths (JList xs) = (\<lambda>prefix. concat
     (map (\<lambda>(i, f). f (prefix @ ''['' @ show_nat i @ '']''))
        (enumerate 0 (map sensitive_paths xs))))"
| "sensitive_paths (JObj kvs) = (\<lambda>prefix. concat
     (map (\<lambda>(k, f). let path = prefix @ ''.'' @ k in
             (if sensitive_key k then [path] else []) @ f path)
        (map (map_prod id sensitive_paths) kvs)))"

definition validate_durable_payload :: "json \<Rightarrow> string \<Rightarrow> unit result" where
  "validate_durable_payload v prefix =
     (if \<not> is_dict v then Inl (EventValidationError (prefix @ '' must be an object''))
      else let sensitive = sensitive_paths v prefix in
        if sensitive \<noteq> []
        then Inl (EventValidationError (''sensitive fields are forbidden in durable data: ''
                    @ join '', '' sensitive))
        else (case canonical_json v of
                Inl e \<Rightarrow> Inl (EventValidationError (prefix @ '' must be finite JSON data''))
              | Inr s \<Rightarrow> Inr ()))"

section \<open>What a durable payload may hold\<close>

text \<open>All dictionary keys of a value, at every depth.\<close>

primrec all_keys :: "json \<Rightarrow> string set" where
  "all_keys JNull = {}"
| "all_keys (JBool b) = {}"
| "all_keys (JInt i) = {}"
| "all_keys (JFloat s) = {}"
| "all_keys (JNonFinite s) = {}"
| "all_keys (JStr s) = {}"
| "all_keys (JList xs) = \<Union> (set (map all_keys xs))"
| "all_keys (JObj kvs) = fst ` set kvs \<union> \<Union> (snd ` set (map (map_prod id all_keys) kvs))"

lemma ball_all_keys_List:
  "(\<forall>k \<in> all_keys (JList xs). P k) \<longleftrightarrow> (\<forall>x \<in> set xs. \<forall>k \<in> all_keys x. P k)"
  by auto

lemma ball_all_keys_Obj:
  "(\<forall>k \<in> all_keys (JObj kvs). P k) \<longleftrightarrow>
     (\<forall>p \<in> set kvs. P (fst p) \<and> (\<forall>k \<in> all_keys (snd p). P k))"
  by (simp add: ball_Un ball_conj_distrib)

lemma sensitive_paths_List_iff:
  "sensitive_paths (JList xs) prefix = [] \<longleftrightarrow>
     (\<forall>i < length xs. sensitive_paths (xs ! i) (prefix @ ''['' @ show_nat i @ '']'') = [])"
proof -
  have "sensitive_paths (JList xs) prefix = [] \<longleftrightarrow>
      (\<forall>p \<in> set (enumerate 0 (map sensitive_paths xs)).
         snd p (prefix @ ''['' @ show_nat (fst p) @ '']'') = [])"
    by (simp add: case_prod_unfold)
  also have "\<dots> \<longleftrightarrow> (\<forall>i < length xs. sensitive_paths (xs ! i) (prefix @ ''['' @ show_nat i @ '']'') = [])"
    by (simp add: all_set_conv_all_nth nth_enumerate_eq)
  finally show ?thesis .
qed

lemma sensitive_paths_Obj_iff:
  "sensitive_paths (JObj kvs) prefix = [] \<longleftrightarrow>
     (\<forall>p \<in> set kvs. \<not> sensitive_key (fst p) \<and> sensitive_paths (snd p) (prefix @ ''.'' @ fst p) = [])"
  by (simp add: case_prod_unfold Let_def) blast

lemma sensitive_paths_empty_iff:
  "sensitive_paths v prefix = [] \<longleftrightarrow> (\<forall>k \<in> all_keys v. \<not> sensitive_key k)"
proof (induction v arbitrary: prefix)
  case (JList xs)
  then show ?case
    unfolding sensitive_paths_List_iff ball_all_keys_List by (simp add: all_set_conv_all_nth)
next
  case (JObj kvs)
  have "sensitive_paths (snd p) q = [] \<longleftrightarrow> (\<forall>k \<in> all_keys (snd p). \<not> sensitive_key k)"
    if "p \<in> set kvs" for p q
    using JObj [OF that] by (cases p) simp
  then show ?case
    unfolding sensitive_paths_Obj_iff ball_all_keys_Obj by blast
qed simp_all

lemma validate_durable_payload_iff:
  "validate_durable_payload v prefix = Inr () \<longleftrightarrow>
     is_dict v \<and> finite_json v \<and> (\<forall>k \<in> all_keys v. \<not> sensitive_key k)"
  by (simp add: validate_durable_payload_def canonical_json_def Let_def
      sensitive_paths_empty_iff)

lemma validate_durable_payload_error:
  "validate_durable_payload v prefix = Inl e \<Longrightarrow> \<exists>m. e = EventValidationError m"
  by (auto simp: validate_durable_payload_def Let_def split: if_splits sum.splits)

section \<open>The canonical rendering determines the value\<close>

definition num_char :: "char \<Rightarrow> bool" where
  "num_char c \<longleftrightarrow> py_digit c \<or> c = CHR ''-'' \<or> c = CHR ''+'' \<or> c = CHR ''.'' \<or> c = CHR ''e''"

text \<open>The shape of a float's \<open>repr\<close>: number characters, with a point or an exponent.\<close>

definition float_text :: "string \<Rightarrow> bool" where
  "float_text s \<longleftrightarrow> s \<noteq> [] \<and> (py_digit (hd s) \<or> hd s = CHR ''-'') \<and> list_all num_char s
     \<and> (CHR ''.'' \<in> set s \<or> CHR ''e'' \<in> set s)"

primrec wf_json :: "json \<Rightarrow> bool" where
  "wf_json JNull = True"
| "wf_json (JBool b) = True"
| "wf_json (JInt i) = True"
| "wf_json (JFloat s) = float_text s"
| "wf_json (JNonFinite s) = False"
| "wf_json (JStr s) = True"
| "wf_json (JList xs) = list_all (\<lambda>b. b) (map wf_json xs)"
| "wf_json (JObj kvs) = list_all snd (map (map_prod id wf_json) kvs)"

lemma wf_json_List [simp]: "wf_json (JList xs) \<longleftrightarrow> (\<forall>x \<in> set xs. wf_json x)"
  by (simp add: list_all_iff)

lemma wf_json_Obj [simp]: "wf_json (JObj kvs) \<longleftrightarrow> (\<forall>(k, v) \<in> set kvs. wf_json v)"
  by (auto simp: list_all_iff)

declare wf_json.simps(7,8) [simp del]

lemma finite_json_List [simp]: "finite_json (JList xs) \<longleftrightarrow> (\<forall>x \<in> set xs. finite_json x)"
  by (simp add: list_all_iff)

lemma finite_json_Obj [simp]: "finite_json (JObj kvs) \<longleftrightarrow> (\<forall>(k, v) \<in> set kvs. finite_json v)"
  by (auto simp: list_all_iff)

declare finite_json.simps(7,8) [simp del]

lemma wf_json_finite: "wf_json v \<Longrightarrow> finite_json v"
  by (induction v) fastforce+

lemma wf_json_sort_keys: "wf_json v \<Longrightarrow> wf_json (sort_keys v)"
  by (induction v) fastforce+

lemma finite_json_sort_keys: "finite_json (sort_keys v) = finite_json v"
  by (induction v) fastforce+

subsection \<open>Strings\<close>

definition hex_value :: "char \<Rightarrow> nat" where
  "hex_value c = (let n = of_char c in if n < 58 then n - 48 else n - 87)"

lemma hex_value_hex_char: "k < 16 \<Longrightarrow> hex_value (hex_char k) = k"
proof -
  have "\<forall>k \<in> set [0..<16]. hex_value (hex_char k) = k" by code_simp
  then show "k < 16 \<Longrightarrow> hex_value (hex_char k) = k" by simp
qed

text \<open>The reading of one escaped character, as the inverse of the escape.\<close>

definition unescape :: "string \<Rightarrow> char \<times> string" where
  "unescape s = (if hd s \<noteq> CHR 0x5C then (hd s, tl s)
     else let b = s ! 1; ys = drop 2 s in
       if b = CHR ''b'' then (char_of (8::nat), ys)
       else if b = CHR ''t'' then (char_of (9::nat), ys)
       else if b = CHR ''n'' then (char_of (10::nat), ys)
       else if b = CHR ''f'' then (char_of (12::nat), ys)
       else if b = CHR ''r'' then (char_of (13::nat), ys)
       else if b = CHR ''u'' then (char_of (16 * hex_value (s ! 4) + hex_value (s ! 5)), drop 6 s)
       else (b, ys))"

lemma unescape_esc_char: "unescape (esc_char c @ u) = (c, u)"
proof -
  have c: "char_of n = c" if "(of_char c :: nat) = n" for n
    using that by auto
  define n where "n = (of_char c :: nat)"
  have hex: "16 * hex_value (hex_char (n div 16)) + hex_value (hex_char (n mod 16)) = n" if "n < 32"
    using that by (simp add: hex_value_hex_char)
  show ?thesis
    using c [of 8] c [of 9] c [of 10] c [of 12] c [of 13] c [of n] hex unfolding n_def
    by (simp add: unescape_def esc_char_def Let_def)
qed

lemma esc_char_not_quote: "esc_char c \<noteq> [] \<and> hd (esc_char c @ u) \<noteq> CHR 0x22"
  by (simp add: esc_char_def Let_def)

lemma escape_inj:
  "concat (map esc_char x) @ CHR 0x22 # s = concat (map esc_char y) @ CHR 0x22 # t \<Longrightarrow> x = y \<and> s = t"
proof (induction x arbitrary: y)
  case Nil
  show ?case
  proof (cases y)
    case Nil
    with Nil.prems show ?thesis by simp
  next
    case (Cons d ds)
    with Nil.prems esc_char_not_quote [of d "concat (map esc_char ds) @ CHR 0x22 # t"]
    show ?thesis by (metis append.assoc append_Nil concat.simps(1,2) list.map(1,2) list.sel(1))
  qed
next
  case (Cons c cs)
  show ?case
  proof (cases y)
    case Nil
    with Cons.prems esc_char_not_quote [of c "concat (map esc_char cs) @ CHR 0x22 # s"]
    show ?thesis by (metis append.assoc append_Nil concat.simps(1,2) list.map(1,2) list.sel(1))
  next
    case (Cons d ds)
    let ?u = "concat (map esc_char cs) @ CHR 0x22 # s"
    let ?v = "concat (map esc_char ds) @ CHR 0x22 # t"
    have "esc_char c @ ?u = esc_char d @ ?v" using Cons.prems Cons by simp
    then have "(c, ?u) = (d, ?v)" by (metis unescape_esc_char)
    then show ?thesis using Cons.IH [of ds] Cons by simp
  qed
qed

lemma quote_string_inj: "quote_string x @ s = quote_string y @ t \<Longrightarrow> x = y \<and> s = t"
  by (rule escape_inj) (simp add: quote_string_def)

subsection \<open>Numbers\<close>

text \<open>What may follow a value in the rendering: the end, a comma or a closing bracket.\<close>

definition value_end :: "string \<Rightarrow> bool" where
  "value_end s \<longleftrightarrow> s = [] \<or> hd s \<in> {CHR '','', CHR '']'', CHR ''}''}"

lemma value_end_num: "value_end s \<Longrightarrow> takeWhile num_char s = []"
  by (cases s) (auto simp: value_end_def num_char_def py_digit_def)

lemma number_inj:
  assumes "list_all num_char x" "list_all num_char y" "value_end s" "value_end t"
    and "x @ s = y @ t"
  shows "x = y \<and> s = t"
proof -
  have "takeWhile num_char (x @ s) = x" "takeWhile num_char (y @ t) = y"
    using assms(1-4) by (simp_all add: list_all_iff takeWhile_append value_end_num)
  with assms(5) show ?thesis by (metis same_append_eq)
qed

lemma show_int_num: "list_all num_char (show_int i)"
  using show_nat_digits by (auto simp: show_int_def list_all_iff num_char_def)

lemma show_int_not_float: "\<not> float_text (show_int i)"
proof -
  have "\<forall>c \<in> set (show_int i). py_digit c \<or> c = CHR ''-''"
    using show_nat_digits by (auto simp: show_int_def list_all_iff)
  then show ?thesis by (auto simp: float_text_def py_digit_def)
qed

lemma show_int_hd: "show_int i \<noteq> [] \<and> (py_digit (hd (show_int i)) \<or> hd (show_int i) = CHR ''-'')"
proof -
  have "py_digit (hd (show_nat n))" for n
    using show_nat_digits [of n] hd_in_set [OF show_nat_nonempty [of n]] by (simp add: list_all_iff)
  then show ?thesis by (simp add: show_int_def)
qed

subsection \<open>Values\<close>

text \<open>The first character of a rendering tells which kind of value follows.\<close>

definition first_kind :: "char \<Rightarrow> nat" where
  "first_kind c = (if c = CHR ''n'' then 0 else if c = CHR ''t'' then 1 else if c = CHR ''f'' then 2
     else if c = CHR 0x22 then 3 else if c = CHR ''['' then 4 else if c = CHR ''{'' then 5
     else if py_digit c \<or> c = CHR ''-'' then 6 else 7)"

fun json_kind :: "json \<Rightarrow> nat" where
  "json_kind JNull = 0"
| "json_kind (JBool b) = (if b then 1 else 2)"
| "json_kind (JInt i) = 6"
| "json_kind (JFloat s) = 6"
| "json_kind (JNonFinite s) = 7"
| "json_kind (JStr s) = 3"
| "json_kind (JList xs) = 4"
| "json_kind (JObj kvs) = 5"

lemma first_kind_num: "py_digit c \<or> c = CHR ''-'' \<Longrightarrow> first_kind c = 6"
  by (auto simp: first_kind_def py_digit_def)

lemma render_first:
  assumes "wf_json v"
  shows "render v \<noteq> [] \<and> first_kind (hd (render v)) = json_kind v"
proof (cases v)
  case (JInt i)
  then show ?thesis using show_int_hd [of i] first_kind_num by simp
next
  case (JFloat s)
  then show ?thesis using assms first_kind_num by (auto simp: float_text_def)
qed (use assms in \<open>auto simp: first_kind_def quote_string_def\<close>)

lemma render_kind_eq:
  assumes "wf_json a" "wf_json b" "render a @ s = render b @ t"
  shows "json_kind a = json_kind b"
  using render_first [OF assms(1)] render_first [OF assms(2)] assms(3)
  by (metis hd_append2)

lemma render_not_bracket: "wf_json v \<Longrightarrow> \<exists>c r. render v = c # r \<and> c \<noteq> CHR '']'' \<and> c \<noteq> CHR ''}''"
proof -
  assume v: "wf_json v"
  then obtain c r where c: "render v = c # r" using render_first by (cases "render v") auto
  have "json_kind v \<noteq> 7" using v by (cases v) simp_all
  then have "first_kind c \<noteq> 7" using render_first [OF v] c by simp
  then show ?thesis using c by (auto simp: first_kind_def py_digit_def)
qed

lemma join_elements_inj:
  assumes "\<And>x y s t. x \<in> set xs \<Longrightarrow> y \<in> set ys \<Longrightarrow> value_end s \<Longrightarrow> value_end t \<Longrightarrow>
      f x @ s = g y @ t \<Longrightarrow> x = y \<and> s = t"
    and "\<And>x. x \<in> set xs \<Longrightarrow> \<exists>c r. f x = c # r \<and> c \<noteq> z"
    and "\<And>y. y \<in> set ys \<Longrightarrow> \<exists>c r. g y = c # r \<and> c \<noteq> z"
    and z: "z \<in> {CHR '']'', CHR ''}''}"
    and "join '','' (map f xs) @ z # s = join '','' (map g ys) @ z # t"
  shows "xs = ys \<and> s = t"
  using assms(1,2,3,5)
proof (induction xs arbitrary: ys)
  case Nil
  show ?case
  proof (cases ys)
    case Nil
    with Nil.prems show ?thesis by simp
  next
    case (Cons y ys')
    with Nil.prems(3) [of y] Nil.prems(4) show ?thesis by (auto simp: join_Cons split: if_splits)
  qed
next
  case (Cons x xs)
  show ?case
  proof (cases ys)
    case Nil
    with Cons.prems(2) [of x] Cons.prems(4) show ?thesis by (auto simp: join_Cons split: if_splits)
  next
    case (Cons y ys')
    define s' where "s' = (if xs = [] then z # s else CHR '','' # join '','' (map f xs) @ z # s)"
    define t' where "t' = (if ys' = [] then z # t else CHR '','' # join '','' (map g ys') @ z # t)"
    have "f x @ s' = g y @ t'"
      using Cons.prems(4) Cons by (simp add: join_Cons s'_def t'_def split: if_splits)
    moreover have "value_end s'" "value_end t'" using z by (auto simp: value_end_def s'_def t'_def)
    ultimately have xy: "x = y" "s' = t'" using Cons.prems(1) [of x y s' t'] Cons by auto
    have comma: "z \<noteq> CHR '',''" using z by auto
    show ?thesis
    proof (cases "xs = [] \<or> ys' = []")
      case True
      then show ?thesis using xy Cons comma by (auto simp: s'_def t'_def split: if_splits)
    next
      case False
      then have "join '','' (map f xs) @ z # s = join '','' (map g ys') @ z # t"
        using xy(2) by (simp add: s'_def t'_def)
      moreover have "a = b \<and> u = v" if "a \<in> set xs" "b \<in> set ys'" "value_end u" "value_end v"
          "f a @ u = g b @ v" for a b u v
        using Cons.prems(1) [of a b u v] that Cons by simp
      moreover have "\<exists>c r. f a = c # r \<and> c \<noteq> z" if "a \<in> set xs" for a
        using Cons.prems(2) that by simp
      moreover have "\<exists>c r. g b = c # r \<and> c \<noteq> z" if "b \<in> set ys'" for b
        using Cons.prems(3) that Cons by simp
      ultimately have "xs = ys' \<and> s = t" by (intro Cons.IH) blast+
      then show ?thesis using xy Cons by simp
    qed
  qed
qed

lemma render_inj:
  "wf_json a \<Longrightarrow> wf_json b \<Longrightarrow> value_end s \<Longrightarrow> value_end t \<Longrightarrow>
   render a @ s = render b @ t \<Longrightarrow> a = b \<and> s = t"
proof (induction a arbitrary: b s t)
  case (JInt i)
  have k: "json_kind b = 6" using render_kind_eq [OF JInt.prems(1,2,5)] by simp
  show ?case
  proof (cases b)
    case (JInt j)
    with JInt.prems number_inj [OF show_int_num show_int_num, of s t i j] show ?thesis
      by (auto dest: show_int_inj)
  next
    case (JFloat y)
    with JInt.prems number_inj [OF show_int_num, of y s t i] show_int_not_float [of i]
    show ?thesis by (auto simp: float_text_def)
  qed (use k in \<open>auto split: if_splits\<close>)
next
  case (JFloat x)
  have k: "json_kind b = 6" using render_kind_eq [OF JFloat.prems(1,2,5)] by simp
  show ?case
  proof (cases b)
    case (JInt j)
    with JFloat.prems number_inj [OF _ show_int_num, of x s t j] show_int_not_float [of j]
    show ?thesis by (auto simp: float_text_def)
  next
    case (JFloat y)
    with JFloat.prems number_inj [of x y s t] show ?thesis by (auto simp: float_text_def)
  qed (use k in \<open>auto split: if_splits\<close>)
next
  case (JStr x)
  have "json_kind b = 3" using render_kind_eq [OF JStr.prems(1,2,5)] by simp
  then obtain y where "b = JStr y" by (cases b) (auto split: if_splits)
  with JStr.prems(5) show ?case by (auto dest: quote_string_inj)
next
  case (JList xs)
  have "json_kind b = 4" using render_kind_eq [OF JList.prems(1,2,5)] by simp
  then obtain ys where b: "b = JList ys" by (cases b) (auto split: if_splits)
  have "join '','' (map render xs) @ CHR '']'' # s = join '','' (map render ys) @ CHR '']'' # t"
    using JList.prems(5) b by simp
  moreover have "x = y \<and> s = t" if "x \<in> set xs" "y \<in> set ys" "value_end s" "value_end t"
      "render x @ s = render y @ t" for x y s t
    using JList.IH [OF that(1) _ _ that(3-5)] JList.prems(1,2) that(1,2) b by simp
  ultimately have "xs = ys \<and> s = t"
    using JList.prems(1,2) b render_not_bracket
    by (intro join_elements_inj [where f = render and g = render and z = "CHR '']''"]) (auto, metis+)
  with b show ?case by simp
next
  case (JObj kvs)
  have "json_kind b = 5" using render_kind_eq [OF JObj.prems(1,2,5)] by simp
  then obtain lvs where b: "b = JObj lvs" by (cases b) (auto split: if_splits)
  let ?f = "\<lambda>(k, v). quote_string k @ '':'' @ render v"
  have r: "render (JObj ms) = ''{'' @ join '','' (map ?f ms) @ ''}''" for ms
    by (simp add: comp_def case_prod_unfold)
  have "join '','' (map ?f kvs) @ CHR ''}'' # s = join '','' (map ?f lvs) @ CHR ''}'' # t"
    using JObj.prems(5) unfolding b r by simp
  moreover have "p = q \<and> s = t" if "p \<in> set kvs" "q \<in> set lvs" "value_end s" "value_end t"
      "?f p @ s = ?f q @ t" for p q s t
  proof -
    obtain k v l w where pq: "p = (k, v)" "q = (l, w)" by (cases p, cases q)
    from that(5) have "k = l \<and> '':'' @ render v @ s = '':'' @ render w @ t"
      unfolding pq by (auto dest: quote_string_inj)
    then have "render v @ s = render w @ t" "k = l" by simp_all
    moreover have "wf_json v" "wf_json w" using JObj.prems(1,2) b that(1,2) pq by auto
    ultimately show ?thesis
      using JObj.IH [of p v w s t] that pq by auto
  qed
  ultimately have "kvs = lvs \<and> s = t"
    by (intro join_elements_inj [where f = ?f and g = ?f and z = "CHR ''}''"])
      (auto simp: quote_string_def)
  with b show ?case by simp
next
  case JNull
  then show ?case using render_kind_eq [OF JNull(1,2,5)] by (cases b) (auto split: if_splits)
next
  case (JBool c)
  then show ?case using render_kind_eq [OF JBool(1,2,5)] by (cases b) (auto split: if_splits)
next
  case (JNonFinite x)
  then show ?case by simp
qed

lemma canonical_json_inj:
  assumes "wf_json a" and "wf_json b" and "canonical_json a = canonical_json b"
  shows "sort_keys a = sort_keys b"
proof -
  have "render (sort_keys a) @ [] = render (sort_keys b) @ []"
    using assms by (simp add: canonical_json_def wf_json_finite)
  then show ?thesis
    using render_inj [of "sort_keys a" "sort_keys b" "[]" "[]"] assms
    by (simp add: wf_json_sort_keys value_end_def)
qed

end
