(* ===== verification/Contracts.thy ===== *)
theory Contracts
  imports Prelude
begin

text \<open>
  The contracts several components of the program share, as locales that each component
  interprets on its own operations:
  \<^item> \<open>invariant_machine\<close>: a machine whose every operation keeps an invariant, so that
    every run of operations does (an operation that raises leaves what it leaves);
  \<^item> \<open>progress_machine\<close>: such a machine whose operations only move a state forward in
    a preorder (nothing durable is taken back);
  \<^item> \<open>idempotent_store\<close>: an operation guarded by an idempotency key: a fresh key is
    recorded with its meaning, a known key with the same meaning changes nothing, a known
    key with another meaning is refused;
  \<^item> \<open>status_table\<close>: a table of legal status changes with terminal statuses.
\<close>

section \<open>Runs of operations\<close>

text \<open>
  A transaction that raises is rolled back: the state is unchanged and the exception is the
  result.
\<close>

definition transact :: "('st \<Rightarrow> ('a \<times> 'st) result) \<Rightarrow> 'st \<Rightarrow> 'a result \<times> 'st" where
  "transact f s = (case f s of Inl e \<Rightarrow> (Inl e, s) | Inr (x, s') \<Rightarrow> (Inr x, s'))"

lemma snd_transact: "snd (transact f s) = (case f s of Inl e \<Rightarrow> s | Inr (x, s') \<Rightarrow> s')"
  by (simp add: transact_def split: sum.splits prod.splits)

lemma transact_cases:
  assumes "\<And>e. f s = Inl e \<Longrightarrow> P s" and "\<And>x s'. f s = Inr (x, s') \<Longrightarrow> P s'"
  shows "P (snd (transact f s))"
  using assms by (auto simp: snd_transact split: sum.splits prod.splits)

primrec run_ops :: "('op \<Rightarrow> 'st \<Rightarrow> 'res \<times> 'st) \<Rightarrow> 'op list \<Rightarrow> 'st \<Rightarrow> 'st" where
  "run_ops step [] s = s"
| "run_ops step (op # ops) s = run_ops step ops (snd (step op s))"

lemma run_ops_append: "run_ops step (xs @ ys) s = run_ops step ys (run_ops step xs s)"
  by (induction xs arbitrary: s) simp_all

locale invariant_machine =
  fixes step :: "'op \<Rightarrow> 'st \<Rightarrow> 'res \<times> 'st"
    and inv :: "'st \<Rightarrow> bool"
  assumes step_inv: "inv s \<Longrightarrow> inv (snd (step op s))"
begin

lemma run_inv: "inv s \<Longrightarrow> inv (run_ops step ops s)"
  by (induction ops arbitrary: s) (simp_all add: step_inv)

end

locale progress_machine = invariant_machine step inv
  for step :: "'op \<Rightarrow> 'st \<Rightarrow> 'res \<times> 'st" and inv :: "'st \<Rightarrow> bool" +
  fixes le :: "'st \<Rightarrow> 'st \<Rightarrow> bool"
  assumes le_refl: "le s s"
    and le_trans: "le s t \<Longrightarrow> le t u \<Longrightarrow> le s u"
    and step_le: "inv s \<Longrightarrow> le s (snd (step op s))"
begin

lemma run_le: "inv s \<Longrightarrow> le s (run_ops step ops s)"
proof (induction ops arbitrary: s)
  case Nil
  show ?case by (simp add: le_refl)
next
  case (Cons op ops)
  from Cons.prems have "le s (snd (step op s))" by (rule step_le)
  moreover have "le (snd (step op s)) (run_ops step ops (snd (step op s)))"
    using Cons by (simp add: step_inv)
  ultimately show ?case by (auto intro: le_trans)
qed

lemma run_prefix_le: "inv s \<Longrightarrow> le (run_ops step xs s) (run_ops step (xs @ ys) s)"
  by (simp add: run_ops_append run_le run_inv)

end

section \<open>Idempotency keys\<close>

text \<open>
  Delivery of a list of requests, one after the other; the first refusal stops it.
  \<open>deliveries_fresh\<close> says that the identifiers the system generates along the way (row ids,
  event ids) are unused when they are generated.
\<close>

primrec deliver :: "('req \<Rightarrow> 'st \<Rightarrow> ('res \<times> 'st) result) \<Rightarrow> 'req list \<Rightarrow> 'st \<Rightarrow> 'st result" where
  "deliver exec [] s = Inr s"
| "deliver exec (r # rs) s = (case exec r s of Inl e \<Rightarrow> Inl e | Inr (x, s') \<Rightarrow> deliver exec rs s')"

primrec deliveries_fresh ::
  "('req \<Rightarrow> 'st \<Rightarrow> bool) \<Rightarrow> ('req \<Rightarrow> 'st \<Rightarrow> ('res \<times> 'st) result) \<Rightarrow> 'req list \<Rightarrow> 'st \<Rightarrow> bool" where
  "deliveries_fresh fresh exec [] s = True"
| "deliveries_fresh fresh exec (r # rs) s = (fresh r s \<and>
     (case exec r s of Inl e \<Rightarrow> True | Inr (x, s') \<Rightarrow> deliveries_fresh fresh exec rs s'))"

locale idempotent_store =
  fixes exec :: "'req \<Rightarrow> 'st \<Rightarrow> ('res \<times> 'st) result"
    and key :: "'req \<Rightarrow> 'k"
    and sem :: "'req \<Rightarrow> 'm"
    and stored :: "'st \<Rightarrow> 'k \<Rightarrow> 'm option"
    and inv :: "'st \<Rightarrow> bool"
    and fresh :: "'req \<Rightarrow> 'st \<Rightarrow> bool"
  assumes exec_inv: "inv s \<Longrightarrow> fresh r s \<Longrightarrow> exec r s = Inr (x, s') \<Longrightarrow> inv s'"
    and exec_new: "inv s \<Longrightarrow> fresh r s \<Longrightarrow> stored s (key r) = None \<Longrightarrow> exec r s = Inr (x, s') \<Longrightarrow>
      stored s' = (stored s)(key r \<mapsto> sem r)"
    and exec_replay: "inv s \<Longrightarrow> stored s (key r) = Some (sem r) \<Longrightarrow> exec r s = Inr (x, s') \<Longrightarrow>
      stored s' = stored s"
    and exec_conflict: "inv s \<Longrightarrow> stored s (key r) = Some m \<Longrightarrow> m \<noteq> sem r \<Longrightarrow> \<exists>e. exec r s = Inl e"
begin

lemma exec_stored:
  assumes "inv s" and "fresh r s" and "exec r s = Inr (x, s')"
  shows "stored s' = (stored s)(key r \<mapsto> sem r)"
proof (cases "stored s (key r)")
  case None
  then show ?thesis by (rule exec_new [OF assms(1,2) _ assms(3)])
next
  case (Some m)
  with assms exec_conflict [of s r m] have m: "m = sem r" by auto
  with Some assms have "stored s' = stored s" by (auto intro: exec_replay)
  with Some m show ?thesis by (auto simp: fun_eq_iff)
qed

lemma exec_keeps:
  assumes "inv s" and "fresh r s" and "exec r s = Inr (x, s')" and "stored s k = Some m"
  shows "stored s' k = Some m"
proof (cases "k = key r")
  case True
  with assms exec_conflict [of s r m] have "m = sem r" by auto
  with True assms show ?thesis by (simp add: exec_stored)
next
  case False
  with assms show ?thesis by (simp add: exec_stored)
qed

lemma exec_twice:
  assumes "inv s" and "fresh r s" and "exec r s = Inr (x, s')" and "exec r s' = Inr (y, s'')"
  shows "stored s'' = stored s'"
proof -
  have "stored s' (key r) = Some (sem r)" using assms by (simp add: exec_stored)
  moreover have "inv s'" using assms by (blast intro: exec_inv)
  ultimately show ?thesis using assms(4) by (blast intro: exec_replay)
qed

lemma deliver_stored:
  "inv s \<Longrightarrow> deliveries_fresh fresh exec rs s \<Longrightarrow> deliver exec rs s = Inr s' \<Longrightarrow>
   inv s' \<and> (\<forall>k m. stored s k = Some m \<longrightarrow> stored s' k = Some m) \<and>
   (\<forall>r \<in> set rs. stored s' (key r) = Some (sem r)) \<and>
   dom (stored s') = dom (stored s) \<union> key ` set rs"
proof (induction rs arbitrary: s)
  case Nil
  then show ?case by simp
next
  case (Cons r rs)
  from Cons.prems obtain x t where t: "exec r s = Inr (x, t)" and rest: "deliver exec rs t = Inr s'"
    by (auto split: sum.splits)
  have fresh: "fresh r s" "deliveries_fresh fresh exec rs t" using Cons.prems t by simp_all
  have inv: "inv t" using Cons.prems(1) fresh(1) t by (rule exec_inv)
  note IH = Cons.IH [OF inv fresh(2) rest]
  have st: "stored t = (stored s)(key r \<mapsto> sem r)"
    using Cons.prems(1) fresh(1) t by (rule exec_stored)
  have keep: "stored t k = Some m" if "stored s k = Some m" for k m
    using exec_keeps [OF Cons.prems(1) fresh(1) t that] .
  show ?case
  proof (intro conjI allI impI ballI)
    show "inv s'" using IH by simp
    show "stored s' k = Some m" if "stored s k = Some m" for k m
      using IH keep [OF that] by simp
    show "stored s' (key q) = Some (sem q)" if "q \<in> set (r # rs)" for q
      using IH st that by auto
    show "dom (stored s') = dom (stored s) \<union> key ` set (r # rs)"
      using IH st by auto
  qed
qed

text \<open>
  At-least-once delivery has an exactly-once effect: two successful deliveries of the same
  set of requests, in any order and with any repetitions, record the same meanings.
\<close>

lemma deliver_exactly_once:
  assumes "inv s" and "set rs = set qs"
    and "deliveries_fresh fresh exec rs s" and "deliver exec rs s = Inr t"
    and "deliveries_fresh fresh exec qs s" and "deliver exec qs s = Inr u"
  shows "stored t = stored u"
proof
  fix k
  note T = deliver_stored [OF assms(1,3,4)] and U = deliver_stored [OF assms(1,5,6)]
  show "stored t k = stored u k"
  proof (cases "k \<in> key ` set rs")
    case True
    then obtain r where "r \<in> set rs" "k = key r" by auto
    then show ?thesis using T U assms(2) by simp
  next
    case False
    show ?thesis
    proof (cases "stored s k")
      case None
      with False T U assms(2) have "k \<notin> dom (stored t)" "k \<notin> dom (stored u)" by auto
      then show ?thesis by (simp add: domIff)
    next
      case (Some m)
      then show ?thesis using T U by simp
    qed
  qed
qed

end

section \<open>Status tables\<close>

inductive status_path :: "('s \<Rightarrow> 's list) \<Rightarrow> 's \<Rightarrow> 's \<Rightarrow> bool" for allowed where
  here: "status_path allowed s s"
| move: "t \<in> set (allowed s) \<Longrightarrow> status_path allowed t u \<Longrightarrow> status_path allowed s u"

lemma status_path_trans:
  "status_path allowed s t \<Longrightarrow> status_path allowed t u \<Longrightarrow> status_path allowed s u"
  by (induction rule: status_path.induct) (auto intro: status_path.intros)

lemma status_path_step: "t \<in> set (allowed s) \<Longrightarrow> status_path allowed s t"
  by (blast intro: status_path.intros)

locale status_table =
  fixes allowed :: "'s \<Rightarrow> 's list"
    and terminal :: "'s list"
  assumes terminal_stuck: "t \<in> set terminal \<Longrightarrow> allowed t = []"
    and live: "s \<notin> set terminal \<Longrightarrow> allowed s \<noteq> []"
begin

lemma terminal_path: "status_path allowed s t \<Longrightarrow> s \<in> set terminal \<Longrightarrow> t = s"
  by (induction rule: status_path.induct) (auto simp: terminal_stuck)

lemma terminal_iff: "s \<in> set terminal \<longleftrightarrow> allowed s = []"
  using terminal_stuck live by blast

end

end
