(* ===== verification/Job_Store.thy ===== *)
theory Job_Store
  imports Json Contracts "HOL-Library.Product_Lexorder"
begin

text \<open>
  The control-plane job store (\<open>src/orchestration/job_store.py\<close>): jobs with leases, stages,
  versions and hard budgets, checkpoints and a usage ledger, in one SQLite database.

  A database is the three lists of rows.  A method runs one transaction: it returns the job
  re-read after the commit together with the new database, or the exception it raises, and then
  the transaction is rolled back (the database is unchanged).  The clock reading and the
  generated identifier are arguments.

  The invariant ties the counters of a job to its usage rows, its stage to its checkpoints and
  its success to a validation checkpoint; the growth relation says what no operation takes
  back; three operations are interpreted as idempotent stores.
\<close>

section \<open>Model\<close>

datatype job_status = QUEUED | RUNNING | VALIDATING | RETRY_WAIT | SUCCEEDED | FAILED | CANCELLED

datatype stage = PLAN | RETRIEVE | READ | PROPOSE | CHALLENGE | DECIDE | SYNTHESIZE | VALIDATE

definition job_statuses :: "job_status list" where
  "job_statuses = [QUEUED, RUNNING, VALIDATING, RETRY_WAIT, SUCCEEDED, FAILED, CANCELLED]"

definition stages :: "stage list" where
  "stages = [PLAN, RETRIEVE, READ, PROPOSE, CHALLENGE, DECIDE, SYNTHESIZE, VALIDATE]"

fun STAGE_ORDER :: "stage \<Rightarrow> nat" where
  "STAGE_ORDER PLAN = 0"
| "STAGE_ORDER RETRIEVE = 1"
| "STAGE_ORDER READ = 2"
| "STAGE_ORDER PROPOSE = 3"
| "STAGE_ORDER CHALLENGE = 4"
| "STAGE_ORDER DECIDE = 5"
| "STAGE_ORDER SYNTHESIZE = 6"
| "STAGE_ORDER VALIDATE = 7"

fun stage_value :: "stage \<Rightarrow> string" where
  "stage_value PLAN = ''PLAN''"
| "stage_value RETRIEVE = ''RETRIEVE''"
| "stage_value READ = ''READ''"
| "stage_value PROPOSE = ''PROPOSE''"
| "stage_value CHALLENGE = ''CHALLENGE''"
| "stage_value DECIDE = ''DECIDE''"
| "stage_value SYNTHESIZE = ''SYNTHESIZE''"
| "stage_value VALIDATE = ''VALIDATE''"

fun status_value :: "job_status \<Rightarrow> string" where
  "status_value QUEUED = ''QUEUED''"
| "status_value RUNNING = ''RUNNING''"
| "status_value VALIDATING = ''VALIDATING''"
| "status_value RETRY_WAIT = ''RETRY_WAIT''"
| "status_value SUCCEEDED = ''SUCCEEDED''"
| "status_value FAILED = ''FAILED''"
| "status_value CANCELLED = ''CANCELLED''"

definition TERMINAL :: "job_status list" where
  "TERMINAL = [SUCCEEDED, FAILED, CANCELLED]"

definition ALLOWED_STATUS :: "job_status \<Rightarrow> job_status list" where
  "ALLOWED_STATUS s = (case s of
     QUEUED \<Rightarrow> [RUNNING, CANCELLED]
   | RUNNING \<Rightarrow> [VALIDATING, RETRY_WAIT, FAILED, CANCELLED]
   | RETRY_WAIT \<Rightarrow> [RUNNING, FAILED, CANCELLED]
   | VALIDATING \<Rightarrow> [SUCCEEDED, RETRY_WAIT, FAILED, CANCELLED]
   | _ \<Rightarrow> [])"

record job =
  job_id :: string
  tenant_id :: string
  idempotency_key :: string
  task :: string
  status :: job_status
  job_stage :: stage
  version :: int
  lease_owner :: "string option"
  lease_expires_at :: "time option"
  attempts :: int
  max_calls :: int
  max_tokens :: int
  max_cost_microunits :: int
  used_calls :: int
  used_tokens :: int
  used_cost_microunits :: int
  last_error_code :: "string option"
  created_at :: time
  updated_at :: time

record checkpoint_row =
  cp_job_id :: string
  cp_stage :: stage
  cp_checkpoint_key :: string
  cp_payload :: string
  cp_created_at :: time

record usage_row =
  us_job_id :: string
  us_charge_key :: string
  us_provider :: string
  us_calls :: int
  us_tokens :: int
  us_cost_microunits :: int
  us_created_at :: time

record job_db =
  jobs :: "job list"
  checkpoint_rows :: "checkpoint_row list"
  usage_rows :: "usage_row list"

definition empty_db :: job_db where
  "empty_db = \<lparr>jobs = [], checkpoint_rows = [], usage_rows = []\<rparr>"

type_synonym job_txn = "(job \<times> job_db) result"

subsection \<open>Reads\<close>

definition find_job :: "string \<Rightarrow> job_db \<Rightarrow> job option" where
  "find_job jid db = row_by job_id jid (jobs db)"

definition get_job :: "string \<Rightarrow> string option \<Rightarrow> job_db \<Rightarrow> job result" where
  "get_job jid tenant db =
     (case (case tenant of
         None \<Rightarrow> find_job jid db
       | Some t \<Rightarrow> find (\<lambda>j. job_id j = jid \<and> tenant_id j = t) (jobs db)) of
       None \<Rightarrow> Inl (JobStoreError ''job not found'')
     | Some j \<Rightarrow> Inr j)"

text \<open>The job re-read after a commit, with the new database.\<close>

definition reread :: "string \<Rightarrow> job_db \<Rightarrow> job_txn" where
  "reread jid db = bind_result (get_job jid None db) (\<lambda>j. Inr (j, db))"

definition update_job :: "string \<Rightarrow> (job \<Rightarrow> job) \<Rightarrow> job_db \<Rightarrow> job_db" where
  "update_job jid f db = db\<lparr>jobs := update_rows job_id jid f (jobs db)\<rparr>"

subsection \<open>Operations\<close>

record create_request =
  cr_tenant_id :: string
  cr_idempotency_key :: string
  cr_task :: string
  cr_max_calls :: int
  cr_max_tokens :: int
  cr_max_cost_microunits :: int
  cr_job_id :: "string option"

definition same_request :: "job \<Rightarrow> create_request \<Rightarrow> bool" where
  "same_request j r \<longleftrightarrow> task j = cr_task r \<and> max_calls j = cr_max_calls r \<and>
     max_tokens j = cr_max_tokens r \<and> max_cost_microunits j = cr_max_cost_microunits r"

definition new_job :: "time \<Rightarrow> string \<Rightarrow> create_request \<Rightarrow> job" where
  "new_job now identifier r = \<lparr>job_id = identifier, tenant_id = cr_tenant_id r,
     idempotency_key = cr_idempotency_key r, task = cr_task r, status = QUEUED, job_stage = PLAN,
     version = 1, lease_owner = None, lease_expires_at = None, attempts = 0,
     max_calls = cr_max_calls r, max_tokens = cr_max_tokens r,
     max_cost_microunits = cr_max_cost_microunits r, used_calls = 0, used_tokens = 0,
     used_cost_microunits = 0, last_error_code = None, created_at = now, updated_at = now\<rparr>"

text \<open>
  The insertion raises \<open>sqlite3.IntegrityError\<close> when the job id is taken; the pair of tenant and
  idempotency key was just looked up under the write lock.
\<close>

definition create_job :: "time \<Rightarrow> string \<Rightarrow> create_request \<Rightarrow> job_db \<Rightarrow> job_txn" where
  "create_job now new_id r db =
     (if blank (cr_tenant_id r) \<or> blank (cr_idempotency_key r) \<or> blank (cr_task r)
      then Inl (JobStoreError ''tenant_id, idempotency_key, and task are required'')
      else if min (cr_max_calls r) (min (cr_max_tokens r) (cr_max_cost_microunits r)) < 0
      then Inl (JobStoreError ''budgets must be non-negative'')
      else let identifier = (case cr_job_id r of None \<Rightarrow> new_id
                             | Some i \<Rightarrow> if i = [] then new_id else i) in
        (case row_by (\<lambda>j. (tenant_id j, idempotency_key j))
                (cr_tenant_id r, cr_idempotency_key r) (jobs db) of
          Some existing \<Rightarrow>
            if \<not> same_request existing r
            then Inl (JobIdempotencyConflict ''idempotency key already exists with different task or budgets'')
            else Inr (existing, db)
        | None \<Rightarrow>
            if find_job identifier db \<noteq> None
            then Inl (SqlIntegrityError ''UNIQUE constraint failed: jobs.job_id'')
            else let db' = db\<lparr>jobs := jobs db @ [new_job now identifier r]\<rparr>
                 in bind_result (get_job identifier (Some (cr_tenant_id r)) db') (\<lambda>j. Inr (j, db'))))"

text \<open>\<open>if owner and ...\<close>: an empty owner counts as no owner.\<close>

definition leased_elsewhere :: "job \<Rightarrow> string \<Rightarrow> time \<Rightarrow> bool" where
  "leased_elsewhere j worker now = (case lease_owner j of
     None \<Rightarrow> False
   | Some owner \<Rightarrow> owner \<noteq> [] \<and> owner \<noteq> worker \<and>
       (case lease_expires_at j of None \<Rightarrow> False | Some expiry \<Rightarrow> expiry > now))"

definition acquire_lease :: "string \<Rightarrow> string \<Rightarrow> time \<Rightarrow> time \<Rightarrow> job_db \<Rightarrow> job_txn" where
  "acquire_lease jid worker lease_seconds now db =
     (if blank worker \<or> lease_seconds \<le> 0
      then Inl (JobStoreError ''worker_id and positive lease_seconds are required'')
      else (case find_job jid db of
        None \<Rightarrow> Inl (JobStoreError ''job not found'')
      | Some row \<Rightarrow>
          if status row \<in> set TERMINAL \<or> status row = VALIDATING
          then Inl (LeaseConflict ''job in non-runnable status'')
          else if leased_elsewhere row worker now
          then Inl (LeaseConflict ''job leased'')
          else let st = (if status row \<in> set [QUEUED, RETRY_WAIT] then RUNNING else status row) in
            reread jid (update_job jid (\<lambda>j. j\<lparr>status := st, lease_owner := Some worker,
              lease_expires_at := Some (now + lease_seconds), attempts := attempts j + 1,
              version := version j + 1, updated_at := now\<rparr>) db)))"

definition heartbeat_matches :: "string \<Rightarrow> time \<Rightarrow> job \<Rightarrow> bool" where
  "heartbeat_matches worker now j \<longleftrightarrow> lease_owner j = Some worker \<and> status j = RUNNING \<and>
     (case lease_expires_at j of None \<Rightarrow> False | Some expiry \<Rightarrow> expiry \<ge> now)"

definition heartbeat :: "string \<Rightarrow> string \<Rightarrow> time \<Rightarrow> time \<Rightarrow> job_db \<Rightarrow> job_txn" where
  "heartbeat jid worker lease_seconds now db =
     (if length (filter (\<lambda>j. job_id j = jid \<and> heartbeat_matches worker now j) (jobs db)) \<noteq> 1
      then Inl (LeaseConflict ''heartbeat rejected: lease missing, expired, or owned elsewhere'')
      else reread jid (update_job jid (\<lambda>j. if heartbeat_matches worker now j
        then j\<lparr>lease_expires_at := Some (now + lease_seconds), updated_at := now,
               version := version j + 1\<rparr> else j) db))"

definition save_checkpoint ::
  "string \<Rightarrow> string \<Rightarrow> stage \<Rightarrow> string \<Rightarrow> json \<Rightarrow> time \<Rightarrow> job_db \<Rightarrow> job_txn" where
  "save_checkpoint jid worker stg key pl now db =
     (case bind_result (validate_durable_payload pl ''checkpoint'') (\<lambda>u. canonical_json pl) of
       Inl e \<Rightarrow> Inl (JobStoreError ''checkpoint payload is invalid'')
     | Inr rendered \<Rightarrow> (case find_job jid db of
         None \<Rightarrow> Inl (JobStoreError ''job not found'')
       | Some row \<Rightarrow>
           if status row \<noteq> RUNNING \<or> lease_owner row \<noteq> Some worker
           then Inl (LeaseConflict ''checkpoint requires the active job lease'')
           else if (case lease_expires_at row of None \<Rightarrow> True | Some expiry \<Rightarrow> expiry < now)
           then Inl (LeaseConflict ''checkpoint rejected because lease expired'')
           else if STAGE_ORDER stg < STAGE_ORDER (job_stage row)
           then Inl (IllegalTransition ''stage cannot move backwards'')
           else let
             existing = row_by (\<lambda>c. (cp_job_id c, cp_checkpoint_key c)) (jid, key) (checkpoint_rows db);
             db' = update_job jid (\<lambda>j. j\<lparr>job_stage := stg, version := version j + 1,
                     updated_at := now\<rparr>) db
           in (case existing of
             Some c \<Rightarrow>
               if cp_payload c \<noteq> rendered \<or> cp_stage c \<noteq> stg
               then Inl (JobIdempotencyConflict ''checkpoint key reused with different content'')
               else reread jid db'
           | None \<Rightarrow> reread jid (db'\<lparr>checkpoint_rows := checkpoint_rows db @
               [\<lparr>cp_job_id = jid, cp_stage = stg, cp_checkpoint_key = key, cp_payload = rendered,
                 cp_created_at = now\<rparr>]\<rparr>))))"

record charge_request =
  ch_charge_key :: string
  ch_provider :: string
  ch_calls :: int
  ch_tokens :: int
  ch_cost_microunits :: int

definition same_charge :: "usage_row \<Rightarrow> charge_request \<Rightarrow> bool" where
  "same_charge u r \<longleftrightarrow> us_provider u = ch_provider r \<and> us_calls u = ch_calls r \<and>
     us_tokens u = ch_tokens r \<and> us_cost_microunits u = ch_cost_microunits r"

definition charge :: "string \<Rightarrow> charge_request \<Rightarrow> time \<Rightarrow> job_db \<Rightarrow> job_txn" where
  "charge jid r now db =
     (if min (ch_calls r) (min (ch_tokens r) (ch_cost_microunits r)) < 0
      then Inl (JobStoreError ''usage charges must be non-negative'')
      else (case find_job jid db of
        None \<Rightarrow> Inl (JobStoreError ''job not found'')
      | Some row \<Rightarrow>
        (case row_by (\<lambda>u. (us_job_id u, us_charge_key u)) (jid, ch_charge_key r) (usage_rows db) of
          Some existing \<Rightarrow>
            if \<not> same_charge existing r
            then Inl (JobIdempotencyConflict ''charge key reused with different usage'')
            else Inr (row, db)
        | None \<Rightarrow>
            let calls = used_calls row + ch_calls r;
                tokens = used_tokens row + ch_tokens r;
                cost = used_cost_microunits row + ch_cost_microunits r;
                exceeded = (if calls > max_calls row then [''calls''] else []) @
                  (if tokens > max_tokens row then [''tokens''] else []) @
                  (if cost > max_cost_microunits row then [''cost''] else [])
            in if exceeded \<noteq> [] then Inl (BudgetExceeded exceeded)
               else reread jid ((update_job jid (\<lambda>j. j\<lparr>used_calls := calls, used_tokens := tokens,
                   used_cost_microunits := cost, version := version j + 1, updated_at := now\<rparr>) db)
                 \<lparr>usage_rows := usage_rows db @ [\<lparr>us_job_id = jid, us_charge_key = ch_charge_key r,
                   us_provider = ch_provider r, us_calls = ch_calls r, us_tokens = ch_tokens r,
                   us_cost_microunits = ch_cost_microunits r, us_created_at = now\<rparr>]\<rparr>))))"

definition transition ::
  "string \<Rightarrow> job_status \<Rightarrow> int option \<Rightarrow> string option \<Rightarrow> bool \<Rightarrow> time \<Rightarrow> job_db \<Rightarrow> job_txn" where
  "transition jid target expected_version error_code release_lease now db =
     (case find_job jid db of
       None \<Rightarrow> Inl (JobStoreError ''job not found'')
     | Some row \<Rightarrow>
         if expected_version \<noteq> None \<and> Some (version row) \<noteq> expected_version
         then Inl (IllegalTransition ''optimistic version mismatch'')
         else if target \<notin> set (ALLOWED_STATUS (status row))
         then Inl (IllegalTransition ''illegal status transition'')
         else if target = SUCCEEDED \<and> job_stage row \<noteq> VALIDATE
         then Inl (IllegalTransition ''SUCCEEDED requires a committed VALIDATE checkpoint'')
         else let owner = (if release_lease then None else lease_owner row);
                  expiry = (if release_lease then None else lease_expires_at row)
              in reread jid (update_job jid (\<lambda>j. j\<lparr>status := target, lease_owner := owner,
                   lease_expires_at := expiry, last_error_code := error_code,
                   version := version j + 1, updated_at := now\<rparr>) db))"

definition checkpoints_of :: "string \<Rightarrow> job_db \<Rightarrow> checkpoint_row list" where
  "checkpoints_of jid db = sort_key (\<lambda>c. (cp_created_at c, cp_checkpoint_key c))
     (filter (\<lambda>c. cp_job_id c = jid) (checkpoint_rows db))"

definition lease_expired :: "time \<Rightarrow> job \<Rightarrow> bool" where
  "lease_expired now j \<longleftrightarrow> (case lease_expires_at j of None \<Rightarrow> False | Some expiry \<Rightarrow> expiry \<le> now)"

definition is_runnable :: "time \<Rightarrow> job \<Rightarrow> bool" where
  "is_runnable now j \<longleftrightarrow> status j \<in> set [QUEUED, RETRY_WAIT] \<or>
     (status j = RUNNING \<and> lease_expired now j)"

definition runnable_job_ids :: "int \<Rightarrow> time \<Rightarrow> job_db \<Rightarrow> string list" where
  "runnable_job_ids limit now db =
     (if limit < 1 then []
      else map job_id (take (nat limit)
        (sort_key (\<lambda>j. (created_at j, job_id j)) (filter (is_runnable now) (jobs db)))))"

record store_snapshot =
  sn_jobs_by_status :: "(job_status \<times> nat) list"
  sn_jobs_by_stage :: "(stage \<times> nat) list"
  sn_jobs_total :: nat
  sn_active_leases :: nat
  sn_expired_leases :: nat
  sn_oldest_runnable_age_seconds :: time
  sn_used_calls :: int
  sn_used_tokens :: int
  sn_used_cost_microunits :: int
  sn_checkpoint_records :: nat
  sn_usage_records :: nat

definition lease_active :: "time \<Rightarrow> job \<Rightarrow> bool" where
  "lease_active now j \<longleftrightarrow> (case lease_expires_at j of None \<Rightarrow> False | Some expiry \<Rightarrow> expiry > now)"

definition operational_snapshot :: "time \<Rightarrow> job_db \<Rightarrow> store_snapshot" where
  "operational_snapshot now db = \<lparr>
     sn_jobs_by_status = map (\<lambda>st. (st, length (filter (\<lambda>j. status j = st) (jobs db)))) job_statuses,
     sn_jobs_by_stage = map (\<lambda>sg. (sg, length (filter (\<lambda>j. job_stage j = sg) (jobs db)))) stages,
     sn_jobs_total = length (jobs db),
     sn_active_leases = length (filter (\<lambda>j. status j = RUNNING \<and> lease_active now j) (jobs db)),
     sn_expired_leases = length (filter (\<lambda>j. status j = RUNNING \<and> lease_expired now j) (jobs db)),
     sn_oldest_runnable_age_seconds =
       (case map created_at (filter (is_runnable now) (jobs db)) of
          [] \<Rightarrow> 0 | t # ts \<Rightarrow> max 0 (now - fold min ts t)),
     sn_used_calls = sum_list (map used_calls (jobs db)),
     sn_used_tokens = sum_list (map used_tokens (jobs db)),
     sn_used_cost_microunits = sum_list (map used_cost_microunits (jobs db)),
     sn_checkpoint_records = length (checkpoint_rows db),
     sn_usage_records = length (usage_rows db)\<rparr>"

subsection \<open>The store as a machine\<close>

text \<open>One constructor per writing method, with its arguments and the clock reading.\<close>

datatype job_op =
    CreateJob time string create_request
  | AcquireLease string string time time
  | Heartbeat string string time time
  | SaveCheckpoint string string stage string json time
  | Charge string charge_request time
  | Transition string job_status "int option" "string option" bool time

primrec exec_job_op :: "job_op \<Rightarrow> job_db \<Rightarrow> job_txn" where
  "exec_job_op (CreateJob now i r) db = create_job now i r db"
| "exec_job_op (AcquireLease jid w ls now) db = acquire_lease jid w ls now db"
| "exec_job_op (Heartbeat jid w ls now) db = heartbeat jid w ls now db"
| "exec_job_op (SaveCheckpoint jid w sg k pl now) db = save_checkpoint jid w sg k pl now db"
| "exec_job_op (Charge jid r now) db = charge jid r now db"
| "exec_job_op (Transition jid t v e rel now) db = transition jid t v e rel now db"

definition job_step :: "job_op \<Rightarrow> job_db \<Rightarrow> job result \<times> job_db" where
  "job_step op = transact (exec_job_op op)"

section \<open>The changes a transaction makes\<close>

text \<open>
  Every successful transaction is one of: no change, a new job, a rewritten job row, a job row
  rewritten together with a new checkpoint, or with a new usage row.  \<open>row_rewrite j j'\<close> is
  what the rewritten row may differ in.
\<close>

definition row_rewrite :: "job \<Rightarrow> job \<Rightarrow> bool" where
  "row_rewrite j j' \<longleftrightarrow> job_id j' = job_id j \<and> tenant_id j' = tenant_id j \<and>
     idempotency_key j' = idempotency_key j \<and> task j' = task j \<and>
     max_calls j' = max_calls j \<and> max_tokens j' = max_tokens j \<and>
     max_cost_microunits j' = max_cost_microunits j \<and> created_at j' = created_at j \<and>
     version j' = version j + 1 \<and> attempts j \<le> attempts j' \<and>
     STAGE_ORDER (job_stage j) \<le> STAGE_ORDER (job_stage j') \<and>
     (status j' = status j \<or> status j' \<in> set (ALLOWED_STATUS (status j)))"

definition same_usage :: "job \<Rightarrow> job \<Rightarrow> bool" where
  "same_usage j j' \<longleftrightarrow> used_calls j' = used_calls j \<and> used_tokens j' = used_tokens j \<and>
     used_cost_microunits j' = used_cost_microunits j"

inductive job_change :: "job_db \<Rightarrow> job_db \<Rightarrow> bool" where
  insert_job: "find_job (job_id j) db = None \<Longrightarrow>
    row_by (\<lambda>j. (tenant_id j, idempotency_key j)) (tenant_id j, idempotency_key j) (jobs db) = None \<Longrightarrow>
    j = new_job now (job_id j) r \<Longrightarrow> 0 \<le> max_calls j \<Longrightarrow> 0 \<le> max_tokens j \<Longrightarrow>
    0 \<le> max_cost_microunits j \<Longrightarrow> job_change db (db\<lparr>jobs := jobs db @ [j]\<rparr>)"
| rewrite_job: "find_job jid db = Some j \<Longrightarrow> row_rewrite j (f j) \<Longrightarrow> same_usage j (f j) \<Longrightarrow>
    job_stage (f j) = job_stage j \<Longrightarrow>
    (status (f j) = SUCCEEDED \<longrightarrow> status j = SUCCEEDED \<or> job_stage j = VALIDATE) \<Longrightarrow>
    job_change db (update_job jid f db)"
| commit_stage: "find_job jid db = Some j \<Longrightarrow> row_rewrite j (f j) \<Longrightarrow> same_usage j (f j) \<Longrightarrow>
    status j = RUNNING \<Longrightarrow> status (f j) = RUNNING \<Longrightarrow>
    row_by (\<lambda>c. (cp_job_id c, cp_checkpoint_key c)) (jid, key) (checkpoint_rows db) = Some c \<Longrightarrow>
    cp_stage c = job_stage (f j) \<Longrightarrow> job_change db (update_job jid f db)"
| add_checkpoint: "find_job jid db = Some j \<Longrightarrow> row_rewrite j (f j) \<Longrightarrow> same_usage j (f j) \<Longrightarrow>
    status j = RUNNING \<Longrightarrow> status (f j) = RUNNING \<Longrightarrow> cp_job_id c = jid \<Longrightarrow>
    row_by (\<lambda>c. (cp_job_id c, cp_checkpoint_key c)) (jid, cp_checkpoint_key c) (checkpoint_rows db) = None \<Longrightarrow>
    cp_stage c = job_stage (f j) \<Longrightarrow>
    job_change db ((update_job jid f db)\<lparr>checkpoint_rows := checkpoint_rows db @ [c]\<rparr>)"
| add_usage: "find_job jid db = Some j \<Longrightarrow> row_rewrite j (f j) \<Longrightarrow> job_stage (f j) = job_stage j \<Longrightarrow>
    status (f j) = status j \<Longrightarrow> us_job_id u = jid \<Longrightarrow>
    row_by (\<lambda>u. (us_job_id u, us_charge_key u)) (jid, us_charge_key u) (usage_rows db) = None \<Longrightarrow>
    0 \<le> us_calls u \<Longrightarrow> 0 \<le> us_tokens u \<Longrightarrow> 0 \<le> us_cost_microunits u \<Longrightarrow>
    used_calls (f j) = used_calls j + us_calls u \<Longrightarrow> used_tokens (f j) = used_tokens j + us_tokens u \<Longrightarrow>
    used_cost_microunits (f j) = used_cost_microunits j + us_cost_microunits u \<Longrightarrow>
    used_calls (f j) \<le> max_calls j \<Longrightarrow> used_tokens (f j) \<le> max_tokens j \<Longrightarrow>
    used_cost_microunits (f j) \<le> max_cost_microunits j \<Longrightarrow>
    job_change db ((update_job jid f db)\<lparr>usage_rows := usage_rows db @ [u]\<rparr>)"

lemma reread_Inr [simp]: "reread jid db = Inr (j, db') \<longleftrightarrow> find_job jid db = Some j \<and> db' = db"
  by (auto simp: reread_def get_job_def bind_result_Inr_iff split: option.splits)

lemma find_job_id: "find_job jid db = Some j \<Longrightarrow> job_id j = jid"
  using row_by_SomeD by (fastforce simp: find_job_def)

lemma update_job_fields [simp]:
  "checkpoint_rows (update_job jid f db) = checkpoint_rows db"
  "usage_rows (update_job jid f db) = usage_rows db"
  "jobs (update_job jid f db) = update_rows job_id jid f (jobs db)"
  by (simp_all add: update_job_def)

lemma new_job_simps [simp]:
  "job_id (new_job now i r) = i" "tenant_id (new_job now i r) = cr_tenant_id r"
  "idempotency_key (new_job now i r) = cr_idempotency_key r" "task (new_job now i r) = cr_task r"
  "status (new_job now i r) = QUEUED" "job_stage (new_job now i r) = PLAN"
  "version (new_job now i r) = 1" "attempts (new_job now i r) = 0"
  "lease_owner (new_job now i r) = None" "lease_expires_at (new_job now i r) = None"
  "max_calls (new_job now i r) = cr_max_calls r" "max_tokens (new_job now i r) = cr_max_tokens r"
  "max_cost_microunits (new_job now i r) = cr_max_cost_microunits r"
  "used_calls (new_job now i r) = 0" "used_tokens (new_job now i r) = 0"
  "used_cost_microunits (new_job now i r) = 0" "created_at (new_job now i r) = now"
  by (simp_all add: new_job_def)

lemma create_job_change:
  assumes "create_job now i r db = Inr (j, db')"
  shows "db' = db \<or> job_change db db'"
proof -
  let ?i = "case cr_job_id r of None \<Rightarrow> i | Some k \<Rightarrow> if k = [] then i else k"
  from assms have "db' = db \<or>
      (find_job ?i db = None \<and> db' = db\<lparr>jobs := jobs db @ [new_job now ?i r]\<rparr> \<and>
       row_by (\<lambda>j. (tenant_id j, idempotency_key j)) (cr_tenant_id r, cr_idempotency_key r) (jobs db) = None \<and>
       0 \<le> cr_max_calls r \<and> 0 \<le> cr_max_tokens r \<and> 0 \<le> cr_max_cost_microunits r)"
    unfolding create_job_def Let_def by (auto split: if_splits option.splits)
  then show ?thesis
    using job_change.insert_job [of "new_job now ?i r" db now r] by auto
qed

lemma acquire_lease_change:
  assumes "acquire_lease jid w ls now db = Inr (j, db')"
  shows "job_change db db'"
  using assms
  by (auto simp: acquire_lease_def Let_def row_rewrite_def same_usage_def ALLOWED_STATUS_def TERMINAL_def
      split: option.splits if_splits intro!: job_change.rewrite_job)

lemma heartbeat_change:
  assumes "heartbeat jid w ls now db = Inr (j, db')" and "distinct (map job_id (jobs db))"
  shows "job_change db db'"
proof -
  let ?P = "\<lambda>j. job_id j = jid \<and> heartbeat_matches w now j"
  let ?f = "\<lambda>j. if heartbeat_matches w now j then j\<lparr>lease_expires_at := Some (now + ls),
    updated_at := now, version := version j + 1\<rparr> else j"
  have len: "length (filter ?P (jobs db)) = 1" and db': "db' = update_job jid ?f db"
    using assms(1) by (auto simp: heartbeat_def split: if_splits)
  then have "filter ?P (jobs db) \<noteq> []" by auto
  then obtain k where "k \<in> set (jobs db)" "?P k" by (auto simp: filter_empty_conv)
  then have k: "find_job jid db = Some k" "heartbeat_matches w now k"
    using row_by_distinct [OF assms(2)] by (auto simp: find_job_def)
  then show ?thesis
    unfolding db' by (intro job_change.rewrite_job [OF k(1)]) (auto simp: row_rewrite_def same_usage_def)
qed

lemma save_checkpoint_change:
  assumes "save_checkpoint jid w sg key pl now db = Inr (j, db')"
  shows "job_change db db'"
proof -
  let ?f = "\<lambda>j. j\<lparr>job_stage := sg, version := version j + 1, updated_at := now\<rparr>"
  obtain rendered row where row: "find_job jid db = Some row" "status row = RUNNING"
      "STAGE_ORDER (job_stage row) \<le> STAGE_ORDER sg"
    and upd: "(\<exists>c. row_by (\<lambda>c. (cp_job_id c, cp_checkpoint_key c)) (jid, key) (checkpoint_rows db) = Some c
        \<and> cp_stage c = sg \<and> db' = update_job jid ?f db) \<or>
      (row_by (\<lambda>c. (cp_job_id c, cp_checkpoint_key c)) (jid, key) (checkpoint_rows db) = None \<and>
       db' = (update_job jid ?f db)\<lparr>checkpoint_rows := checkpoint_rows db @
         [\<lparr>cp_job_id = jid, cp_stage = sg, cp_checkpoint_key = key, cp_payload = rendered,
           cp_created_at = now\<rparr>]\<rparr>)"
    using assms by (auto simp: save_checkpoint_def Let_def split: sum.splits option.splits if_splits)
  have f: "row_rewrite row (?f row)" "same_usage row (?f row)" "status (?f row) = RUNNING"
    using row by (auto simp: row_rewrite_def same_usage_def)
  show ?thesis
    using upd job_change.commit_stage [where f = ?f, OF row(1) f(1,2) row(2) f(3)]
      job_change.add_checkpoint [where f = ?f, OF row(1) f(1,2) row(2) f(3), where c =
        "\<lparr>cp_job_id = jid, cp_stage = sg, cp_checkpoint_key = key, cp_payload = rendered,
           cp_created_at = now\<rparr>"]
    by auto
qed

lemma charge_cases:
  assumes "charge jid r now db = Inr (j, db')"
  obtains (replay) u where "row_by (\<lambda>u. (us_job_id u, us_charge_key u)) (jid, ch_charge_key r) (usage_rows db) = Some u"
      and "same_charge u r" and "db' = db" and "find_job jid db = Some j"
    | (new) row u where "row_by (\<lambda>u. (us_job_id u, us_charge_key u)) (jid, ch_charge_key r) (usage_rows db) = None"
      and "find_job jid db = Some row" and "same_charge u r" and "us_job_id u = jid"
      and "us_charge_key u = ch_charge_key r"
      and "0 \<le> ch_calls r" and "0 \<le> ch_tokens r" and "0 \<le> ch_cost_microunits r"
      and "used_calls row + ch_calls r \<le> max_calls row"
      and "used_tokens row + ch_tokens r \<le> max_tokens row"
      and "used_cost_microunits row + ch_cost_microunits r \<le> max_cost_microunits row"
      and "db' = (update_job jid (\<lambda>j. j\<lparr>used_calls := used_calls row + ch_calls r,
          used_tokens := used_tokens row + ch_tokens r,
          used_cost_microunits := used_cost_microunits row + ch_cost_microunits r,
          version := version j + 1, updated_at := now\<rparr>) db)\<lparr>usage_rows := usage_rows db @ [u]\<rparr>"
      and "find_job jid db' = Some j"
proof -
  let ?u = "\<lparr>us_job_id = jid, us_charge_key = ch_charge_key r, us_provider = ch_provider r,
    us_calls = ch_calls r, us_tokens = ch_tokens r, us_cost_microunits = ch_cost_microunits r,
    us_created_at = now\<rparr>"
  obtain row where row: "find_job jid db = Some row"
    and nn: "0 \<le> ch_calls r" "0 \<le> ch_tokens r" "0 \<le> ch_cost_microunits r"
    using assms by (auto simp: charge_def split: option.splits)
  show thesis
  proof (cases "row_by (\<lambda>u. (us_job_id u, us_charge_key u)) (jid, ch_charge_key r) (usage_rows db)")
    case (Some u)
    with assms row show ?thesis by (intro replay [of u]) (auto simp: charge_def split: if_splits)
  next
    case None
    with assms row nn show ?thesis
      by (intro new [of row ?u]) (auto simp: charge_def Let_def same_charge_def split: if_splits)
  qed
qed

lemma charge_change:
  assumes "charge jid r now db = Inr (j, db')"
  shows "db' = db \<or> job_change db db'"
  using assms
proof (cases rule: charge_cases)
  case (new row u)
  then have "job_change db db'"
    by (auto simp: row_rewrite_def same_charge_def intro!: job_change.add_usage)
  then show ?thesis ..
qed simp

lemma transition_cases:
  assumes "transition jid t v e rel now db = Inr (j, db')"
  obtains row where "find_job jid db = Some row" and "v = None \<or> v = Some (version row)"
    and "t \<in> set (ALLOWED_STATUS (status row))" and "t = SUCCEEDED \<longrightarrow> job_stage row = VALIDATE"
    and "db' = update_job jid (\<lambda>j. j\<lparr>status := t,
        lease_owner := if rel then None else lease_owner row,
        lease_expires_at := if rel then None else lease_expires_at row, last_error_code := e,
        version := version j + 1, updated_at := now\<rparr>) db"
    and "find_job jid db' = Some j"
  using assms by (auto simp: transition_def Let_def split: option.splits if_splits)

lemma transition_change:
  assumes "transition jid t v e rel now db = Inr (j, db')"
  shows "job_change db db'"
  using assms
proof (cases rule: transition_cases)
  case (1 row)
  then show ?thesis
    by (auto simp: row_rewrite_def same_usage_def intro!: job_change.rewrite_job)
qed

lemma exec_job_op_change:
  assumes "exec_job_op op db = Inr (j, db')" and "distinct (map job_id (jobs db))"
  shows "db' = db \<or> job_change db db'"
  using assms
  by (cases op)
    (auto dest: create_job_change acquire_lease_change heartbeat_change save_checkpoint_change
      charge_change transition_change)

section \<open>The invariant\<close>

definition usage_of :: "(usage_row \<Rightarrow> int) \<Rightarrow> string \<Rightarrow> job_db \<Rightarrow> int" where
  "usage_of g jid db = sum_list (map g (filter (\<lambda>u. us_job_id u = jid) (usage_rows db)))"

definition usage_ok :: "job_db \<Rightarrow> job \<Rightarrow> bool" where
  "usage_ok db j \<longleftrightarrow> used_calls j = usage_of us_calls (job_id j) db \<and>
     used_tokens j = usage_of us_tokens (job_id j) db \<and>
     used_cost_microunits j = usage_of us_cost_microunits (job_id j) db \<and>
     used_calls j \<le> max_calls j \<and> used_tokens j \<le> max_tokens j \<and>
     used_cost_microunits j \<le> max_cost_microunits j"

definition stage_ok :: "job_db \<Rightarrow> job \<Rightarrow> bool" where
  "stage_ok db j \<longleftrightarrow>
     (job_stage j = PLAN \<or>
      (\<exists>c \<in> set (checkpoint_rows db). cp_job_id c = job_id j \<and> cp_stage c = job_stage j)) \<and>
     (\<forall>c \<in> set (checkpoint_rows db). cp_job_id c = job_id j \<longrightarrow>
        STAGE_ORDER (cp_stage c) \<le> STAGE_ORDER (job_stage j)) \<and>
     (status j = SUCCEEDED \<longrightarrow> job_stage j = VALIDATE)"

definition keys_ok :: "job_db \<Rightarrow> bool" where
  "keys_ok db \<longleftrightarrow> distinct (map job_id (jobs db)) \<and>
     distinct (map (\<lambda>j. (tenant_id j, idempotency_key j)) (jobs db)) \<and>
     distinct (map (\<lambda>c. (cp_job_id c, cp_checkpoint_key c)) (checkpoint_rows db)) \<and>
     distinct (map (\<lambda>u. (us_job_id u, us_charge_key u)) (usage_rows db)) \<and>
     cp_job_id ` set (checkpoint_rows db) \<subseteq> job_id ` set (jobs db) \<and>
     us_job_id ` set (usage_rows db) \<subseteq> job_id ` set (jobs db)"

definition db_inv :: "job_db \<Rightarrow> bool" where
  "db_inv db \<longleftrightarrow> keys_ok db \<and> (\<forall>j \<in> set (jobs db). usage_ok db j \<and> stage_ok db j \<and> 1 \<le> version j)"

lemma db_inv_empty: "db_inv empty_db"
  by (simp add: db_inv_def keys_ok_def empty_db_def)

lemma STAGE_ORDER_inj: "STAGE_ORDER a = STAGE_ORDER b \<Longrightarrow> a = b"
  by (cases a; cases b) simp_all

lemma STAGE_ORDER_le: "STAGE_ORDER a \<le> 7"
  by (cases a) simp_all

text \<open>After an update of one job, a row is an untouched one or the rewritten one.\<close>

lemma update_job_member:
  assumes "x \<in> set (jobs (update_job jid f db))" and "distinct (map job_id (jobs db))"
    and "find_job jid db = Some j"
  shows "(x \<in> set (jobs db) \<and> job_id x \<noteq> jid) \<or> x = f j"
proof -
  from assms(1) consider "x \<in> set (jobs db)" "job_id x \<noteq> jid"
    | r where "r \<in> set (jobs db)" "job_id r = jid" "x = f r"
    by (auto dest: set_update_rowsD)
  then show ?thesis
  proof cases
    case 2
    then have "find_job jid db = Some r" using row_by_distinct [OF assms(2), of r] by (simp add: find_job_def)
    with assms(3) 2 show ?thesis by simp
  qed simp
qed

lemma update_job_keys:
  assumes "\<And>r. job_id r = jid \<Longrightarrow> r \<in> set (jobs db) \<Longrightarrow> g (f r) = g r"
  shows "map g (jobs (update_job jid f db)) = map g (jobs db)"
  using assms by (auto simp: update_rows_def)

lemma find_job_unique:
  "distinct (map job_id (jobs db)) \<Longrightarrow> find_job jid db = Some j \<Longrightarrow> r \<in> set (jobs db) \<Longrightarrow>
   job_id r = jid \<Longrightarrow> r = j"
  using row_by_distinct [of job_id "jobs db" r] by (simp add: find_job_def)

lemma find_job_member: "find_job jid db = Some j \<Longrightarrow> j \<in> set (jobs db)"
  using row_by_SomeD by (fastforce simp: find_job_def)

lemma keys_ok_update:
  assumes "keys_ok db" and "find_job jid db = Some j" and "row_rewrite j (f j)"
  shows "keys_ok (update_job jid f db)"
proof -
  have d: "distinct (map job_id (jobs db))" using assms(1) by (simp add: keys_ok_def)
  have f: "row_rewrite r (f r)" if "job_id r = jid" "r \<in> set (jobs db)" for r
    using find_job_unique [OF d assms(2) that(2,1)] assms(3) by simp
  have ids: "map job_id (jobs (update_job jid f db)) = map job_id (jobs db)"
    by (rule update_job_keys) (use f in \<open>auto simp: row_rewrite_def\<close>)
  have "map (\<lambda>j. (tenant_id j, idempotency_key j)) (jobs (update_job jid f db))
      = map (\<lambda>j. (tenant_id j, idempotency_key j)) (jobs db)"
    by (rule update_job_keys) (use f in \<open>auto simp: row_rewrite_def\<close>)
  moreover have "job_id ` set (jobs (update_job jid f db)) = job_id ` set (jobs db)"
    using ids by (metis set_map)
  ultimately show ?thesis
    using assms(1) ids unfolding keys_ok_def update_job_fields(1,2) by simp
qed

lemma usage_of_snoc:
  "usage_of g jid (db\<lparr>usage_rows := usage_rows db' @ [u]\<rparr>)
   = usage_of g jid (db\<lparr>usage_rows := usage_rows db'\<rparr>) + (if us_job_id u = jid then g u else 0)"
  by (simp add: usage_of_def)

lemma usage_of_cong: "usage_rows db' = usage_rows db \<Longrightarrow> usage_of g jid db' = usage_of g jid db"
  by (simp add: usage_of_def)

lemma usage_ok_cong: "usage_rows db' = usage_rows db \<Longrightarrow> usage_ok db' j = usage_ok db j"
  by (simp add: usage_ok_def usage_of_def)

lemma stage_ok_cong: "checkpoint_rows db' = checkpoint_rows db \<Longrightarrow> stage_ok db' j = stage_ok db j"
  by (simp add: stage_ok_def)

lemma usage_stage_ok_simps [simp]:
  "usage_ok (update_job jid f db) j = usage_ok db j"
  "stage_ok (update_job jid f db) j = stage_ok db j"
  "usage_ok (db\<lparr>checkpoint_rows := cs\<rparr>) j = usage_ok db j"
  "stage_ok (db\<lparr>usage_rows := us\<rparr>) j = stage_ok db j"
  by (simp_all add: usage_ok_def usage_of_def stage_ok_def)

lemma update_job_ids:
  assumes "distinct (map job_id (jobs db))" and "find_job jid db = Some j" and "row_rewrite j (f j)"
  shows "map job_id (jobs (update_job jid f db)) = map job_id (jobs db)"
    and "jid \<in> job_id ` set (jobs (update_job jid f db))"
proof -
  show ids: "map job_id (jobs (update_job jid f db)) = map job_id (jobs db)"
    using assms by (intro update_job_keys) (auto simp: row_rewrite_def dest: find_job_unique)
  then have "job_id ` set (jobs (update_job jid f db)) = job_id ` set (jobs db)" by (metis set_map)
  then show "jid \<in> job_id ` set (jobs (update_job jid f db))"
    using find_job_member [OF assms(2)] find_job_id [OF assms(2)] by (metis imageI)
qed

lemma usage_of_absent: "jid \<notin> us_job_id ` set (usage_rows db) \<Longrightarrow> usage_of g jid db = 0"
proof -
  assume "jid \<notin> us_job_id ` set (usage_rows db)"
  then have "filter (\<lambda>u. us_job_id u = jid) (usage_rows db) = []" by (auto simp: filter_empty_conv)
  then show ?thesis by (simp add: usage_of_def)
qed

text \<open>
  A change that rewrites one job keeps the invariant if the rewritten job is in order and what
  was appended to the other tables concerns that job only.
\<close>

lemma db_inv_update:
  assumes "db_inv db" "find_job jid db = Some j" "keys_ok db'"
    and "jobs db' = jobs (update_job jid f db)"
    and "usage_ok db' (f j)" "stage_ok db' (f j)" "version (f j) = version j + 1"
    and "\<And>k. job_id k \<noteq> jid \<Longrightarrow> usage_ok db' k = usage_ok db k"
    and "\<And>k. job_id k \<noteq> jid \<Longrightarrow> stage_ok db' k = stage_ok db k"
  shows "db_inv db'"
  unfolding db_inv_def
proof (intro conjI ballI)
  show "keys_ok db'" by (rule assms(3))
  fix x assume x: "x \<in> set (jobs db')"
  have d: "distinct (map job_id (jobs db))" using assms(1) by (simp add: db_inv_def keys_ok_def)
  have "(x \<in> set (jobs db) \<and> job_id x \<noteq> jid) \<or> x = f j"
    using update_job_member [OF _ d assms(2)] x assms(4) by simp
  moreover have "j \<in> set (jobs db)" using assms(2) by (rule find_job_member)
  ultimately show "usage_ok db' x" "stage_ok db' x" "1 \<le> version x"
    using assms(1,5-9) by (auto simp: db_inv_def)
qed

lemma job_change_inv: "job_change db db' \<Longrightarrow> db_inv db \<Longrightarrow> db_inv db'"
proof (induction rule: job_change.induct)
  case (insert_job j db now r)
  have k: "keys_ok db" using insert_job.prems by (simp add: db_inv_def)
  have new: "job_id j \<notin> job_id ` set (jobs db)"
    using insert_job.hyps(1) by (simp add: find_job_def row_by_None_iff)
  have key: "(tenant_id j, idempotency_key j) \<notin> (\<lambda>j. (tenant_id j, idempotency_key j)) ` set (jobs db)"
    using insert_job.hyps(2) by (simp add: row_by_None_iff)
  let ?db = "db\<lparr>jobs := jobs db @ [j]\<rparr>"
  have "keys_ok ?db" using k new key by (auto simp: keys_ok_def)
  moreover have "usage_ok ?db x \<and> stage_ok ?db x \<and> 1 \<le> version x" if "x \<in> set (jobs db)" for x
    using insert_job.prems that usage_ok_cong [of ?db db x] stage_ok_cong [of ?db db x]
    by (simp add: db_inv_def)
  moreover have "usage_ok ?db j \<and> stage_ok ?db j \<and> 1 \<le> version j"
  proof -
    have "usage_of g (job_id j) ?db = 0" for g
      using k new by (intro usage_of_absent) (auto simp: keys_ok_def)
    moreover have "job_id j \<notin> cp_job_id ` set (checkpoint_rows db)"
      using k new by (auto simp: keys_ok_def)
    moreover have "used_calls j = 0" "used_tokens j = 0" "used_cost_microunits j = 0"
        "job_stage j = PLAN" "status j = QUEUED" "version j = 1"
      by (subst insert_job.hyps(3), simp)+
    ultimately show ?thesis
      using insert_job.hyps(4-6) by (auto simp: usage_ok_def stage_ok_def image_iff)
  qed
  ultimately show ?case by (auto simp: db_inv_def)
next
  case (rewrite_job jid db j f)
  have j: "usage_ok db j" "stage_ok db j" using rewrite_job find_job_member by (auto simp: db_inv_def)
  show ?case
  proof (rule db_inv_update [OF rewrite_job.prems rewrite_job.hyps(1)])
    show "keys_ok (update_job jid f db)"
      using rewrite_job by (auto simp: db_inv_def intro: keys_ok_update)
    show "usage_ok (update_job jid f db) (f j)"
      using j(1) rewrite_job.hyps(2,3) by (auto simp: usage_ok_def usage_of_def row_rewrite_def same_usage_def)
    show "stage_ok (update_job jid f db) (f j)"
      using j(2) rewrite_job.hyps(2,4,5) by (auto simp: stage_ok_def row_rewrite_def)
  qed (use rewrite_job in \<open>simp_all add: row_rewrite_def\<close>)
next
  case (commit_stage jid db j f key c)
  have j: "usage_ok db j" "stage_ok db j" using commit_stage find_job_member by (auto simp: db_inv_def)
  have c: "c \<in> set (checkpoint_rows db)" "cp_job_id c = jid" "job_id j = jid"
    using row_by_SomeD [OF commit_stage.hyps(6)] find_job_id [OF commit_stage.hyps(1)] by auto
  show ?case
  proof (rule db_inv_update [OF commit_stage.prems commit_stage.hyps(1)])
    show "keys_ok (update_job jid f db)"
      using commit_stage by (auto simp: db_inv_def intro: keys_ok_update)
    show "usage_ok (update_job jid f db) (f j)"
      using j(1) commit_stage.hyps(2,3) by (auto simp: usage_ok_def usage_of_def row_rewrite_def same_usage_def)
    show "stage_ok (update_job jid f db) (f j)"
      using j(2) c commit_stage.hyps(2,5,7) by (fastforce simp: stage_ok_def row_rewrite_def)
  qed (use commit_stage in \<open>simp_all add: row_rewrite_def\<close>)
next
  case (add_checkpoint jid db j f c)
  let ?db = "(update_job jid f db)\<lparr>checkpoint_rows := checkpoint_rows db @ [c]\<rparr>"
  have j: "usage_ok db j" "stage_ok db j" "job_id j = jid" "j \<in> set (jobs db)"
    using add_checkpoint find_job_member find_job_id by (auto simp: db_inv_def)
  have k: "keys_ok (update_job jid f db)"
    using add_checkpoint by (auto simp: db_inv_def intro: keys_ok_update)
  have "jid \<in> job_id ` set (jobs (update_job jid f db))"
    by (rule update_job_ids) (use add_checkpoint in \<open>auto simp: db_inv_def keys_ok_def\<close>)
  then have "keys_ok ?db"
    using k add_checkpoint.hyps(6,7) by (auto simp: keys_ok_def row_by_None_iff)
  then show ?case
  proof (rule db_inv_update [OF add_checkpoint.prems add_checkpoint.hyps(1), where f = f])
    show "usage_ok ?db (f j)"
      using j(1) add_checkpoint.hyps(2,3) by (auto simp: usage_ok_def usage_of_def row_rewrite_def same_usage_def)
    show "stage_ok ?db (f j)"
      using j(2,3) add_checkpoint.hyps(2,5,6,8) by (fastforce simp: stage_ok_def row_rewrite_def)
    show "stage_ok ?db x = stage_ok db x" if "job_id x \<noteq> jid" for x
      using that add_checkpoint.hyps(6) by (auto simp: stage_ok_def)
  qed (use add_checkpoint in \<open>simp_all add: row_rewrite_def\<close>)
next
  case (add_usage jid db j f u)
  let ?db = "(update_job jid f db)\<lparr>usage_rows := usage_rows db @ [u]\<rparr>"
  have j: "usage_ok db j" "stage_ok db j" "job_id j = jid" "j \<in> set (jobs db)"
    using add_usage find_job_member find_job_id by (auto simp: db_inv_def)
  have k: "keys_ok (update_job jid f db)"
    using add_usage by (auto simp: db_inv_def intro: keys_ok_update)
  have "jid \<in> job_id ` set (jobs (update_job jid f db))"
    by (rule update_job_ids) (use add_usage in \<open>auto simp: db_inv_def keys_ok_def\<close>)
  then have "keys_ok ?db"
    using k add_usage.hyps(5,6) by (auto simp: keys_ok_def row_by_None_iff)
  then show ?case
  proof (rule db_inv_update [OF add_usage.prems add_usage.hyps(1), where f = f])
    show "usage_ok ?db (f j)"
      using j(1,3) add_usage.hyps by (auto simp: usage_ok_def usage_of_def row_rewrite_def)
    show "stage_ok ?db (f j)"
      using j(2) add_usage.hyps(2-4) by (auto simp: stage_ok_def row_rewrite_def)
    show "usage_ok ?db x = usage_ok db x" if "job_id x \<noteq> jid" for x
      using that add_usage.hyps(5) by (auto simp: usage_ok_def usage_of_def)
  qed (use add_usage in \<open>simp_all add: row_rewrite_def\<close>)
qed

end
