(* ===== verification/Job_Laws.thy ===== *)
theory Job_Laws
  imports Job_Store
begin

text \<open>
  Laws of the job store: what every run of operations keeps and never takes back, the exclusion
  a lease gives, which jobs can be claimed, and the idempotency of job creation, checkpoints
  and charges (each interpreted as an \<open>idempotent_store\<close>).
\<close>

section \<open>Growth\<close>

definition job_grows :: "job \<Rightarrow> job \<Rightarrow> bool" where
  "job_grows j j' \<longleftrightarrow> job_id j' = job_id j \<and> tenant_id j' = tenant_id j \<and>
     idempotency_key j' = idempotency_key j \<and> task j' = task j \<and>
     max_calls j' = max_calls j \<and> max_tokens j' = max_tokens j \<and>
     max_cost_microunits j' = max_cost_microunits j \<and> created_at j' = created_at j \<and>
     version j \<le> version j' \<and> attempts j \<le> attempts j' \<and>
     used_calls j \<le> used_calls j' \<and> used_tokens j \<le> used_tokens j' \<and>
     used_cost_microunits j \<le> used_cost_microunits j' \<and>
     STAGE_ORDER (job_stage j) \<le> STAGE_ORDER (job_stage j') \<and>
     status_path ALLOWED_STATUS (status j) (status j')"

definition job_le :: "job_db \<Rightarrow> job_db \<Rightarrow> bool" where
  "job_le db db' \<longleftrightarrow> (\<exists>cs. checkpoint_rows db' = checkpoint_rows db @ cs) \<and>
     (\<exists>us. usage_rows db' = usage_rows db @ us) \<and>
     (\<forall>jid j. find_job jid db = Some j \<longrightarrow> (\<exists>j'. find_job jid db' = Some j' \<and> job_grows j j'))"

lemma job_grows_refl [simp]: "job_grows j j"
  by (simp add: job_grows_def status_path.here)

lemma job_grows_trans: "job_grows a b \<Longrightarrow> job_grows b c \<Longrightarrow> job_grows a c"
  by (auto simp: job_grows_def intro: status_path_trans)

lemma job_le_refl: "job_le db db"
  by (auto simp: job_le_def)

lemma job_le_trans:
  assumes "job_le a b" and "job_le b c"
  shows "job_le a c"
proof -
  have "\<exists>j'. find_job jid c = Some j' \<and> job_grows j j'" if "find_job jid a = Some j" for jid j
    using assms that unfolding job_le_def by (meson job_grows_trans)
  then show ?thesis using assms by (auto simp: job_le_def)
qed

lemma row_rewrite_status: "row_rewrite j j' \<Longrightarrow> status_path ALLOWED_STATUS (status j) (status j')"
  by (auto simp: row_rewrite_def intro: status_path.here status_path_step)

lemma find_job_update:
  assumes "\<And>r. job_id r = jid \<Longrightarrow> r \<in> set (jobs db) \<Longrightarrow> job_id (f r) = jid"
  shows "find_job k (update_job jid f db)
    = (if k = jid then map_option f (find_job jid db) else find_job k db)"
proof -
  have "row_by job_id k (update_rows job_id jid f rows)
      = (if k = jid then map_option f (row_by job_id jid rows) else row_by job_id k rows)"
    if "\<And>r. job_id r = jid \<Longrightarrow> r \<in> set rows \<Longrightarrow> job_id (f r) = jid" for rows
    using that by (induction rows) (auto simp: update_rows_def row_by_Cons)
  then show ?thesis using assms by (simp add: find_job_def)
qed

lemma find_job_rewritten:
  assumes "distinct (map job_id (jobs db))" "find_job jid db = Some j" "row_rewrite j (f j)"
  shows "find_job k (update_job jid f db) = (if k = jid then Some (f j) else find_job k db)"
proof -
  have "job_id (f r) = jid" if "job_id r = jid" "r \<in> set (jobs db)" for r
    using find_job_unique [OF assms(1,2) that(2,1)] assms(3) find_job_id [OF assms(2)]
    by (simp add: row_rewrite_def)
  then show ?thesis using assms(2) by (simp add: find_job_update)
qed

lemma find_job_other_tables [simp]:
  "find_job k (db\<lparr>checkpoint_rows := cs\<rparr>) = find_job k db"
  "find_job k (db\<lparr>usage_rows := us\<rparr>) = find_job k db"
  by (simp_all add: find_job_def)

lemma job_le_rewritten:
  assumes "distinct (map job_id (jobs db))" "find_job jid db = Some j" "row_rewrite j (f j)"
    and "job_grows j (f j)" and "\<And>k. find_job k db' = find_job k (update_job jid f db)"
    and "checkpoint_rows db' = checkpoint_rows db @ cs" and "usage_rows db' = usage_rows db @ us"
  shows "job_le db db'"
  using assms(2,4-7) by (auto simp: job_le_def find_job_rewritten [of db jid j f, OF assms(1-3)])

lemma job_change_le: "job_change db db' \<Longrightarrow> db_inv db \<Longrightarrow> job_le db db'"
proof (induction rule: job_change.induct)
  case (insert_job j db now r)
  then show ?case by (auto simp: job_le_def find_job_def row_by_append)
next
  case (rewrite_job jid db j f)
  then show ?case
    by (intro job_le_rewritten [of db jid j f])
      (auto simp: db_inv_def keys_ok_def job_grows_def row_rewrite_status same_usage_def,
       auto simp: row_rewrite_def)
next
  case (commit_stage jid db j f key c)
  then show ?case
    by (intro job_le_rewritten [of db jid j f])
      (auto simp: db_inv_def keys_ok_def job_grows_def row_rewrite_status same_usage_def,
       auto simp: row_rewrite_def status_path.here)
next
  case (add_checkpoint jid db j f c)
  then show ?case
    by (intro job_le_rewritten [of db jid j f])
      (auto simp: db_inv_def keys_ok_def job_grows_def row_rewrite_status same_usage_def,
       auto simp: row_rewrite_def status_path.here)
next
  case (add_usage jid db j f u)
  then show ?case
    by (intro job_le_rewritten [of db jid j f])
      (auto simp: db_inv_def keys_ok_def job_grows_def row_rewrite_status,
       auto simp: row_rewrite_def status_path.here)
qed

lemma db_inv_distinct: "db_inv db \<Longrightarrow> distinct (map job_id (jobs db))"
  by (simp add: db_inv_def keys_ok_def)

lemma exec_job_op_inv: "exec_job_op op db = Inr (j, db') \<Longrightarrow> db_inv db \<Longrightarrow> db_inv db'"
  using exec_job_op_change [of op db j db'] job_change_inv [of db db'] db_inv_distinct [of db]
  by blast

lemma exec_job_op_le: "exec_job_op op db = Inr (j, db') \<Longrightarrow> db_inv db \<Longrightarrow> job_le db db'"
  using exec_job_op_change [of op db j db'] job_change_le [of db db'] job_le_refl db_inv_distinct [of db]
  by blast

interpretation job_machine: progress_machine job_step db_inv job_le
proof
  show "db_inv (snd (job_step op s))" if "db_inv s" for op s
    unfolding job_step_def by (rule transact_cases) (use that exec_job_op_inv in \<open>auto\<close>)
  show "job_le s (snd (job_step op s))" if "db_inv s" for op s
    unfolding job_step_def by (rule transact_cases) (use that exec_job_op_le job_le_refl in \<open>auto\<close>)
qed (auto intro: job_le_refl job_le_trans)

interpretation status_machine: status_table ALLOWED_STATUS TERMINAL
  by unfold_locales (auto simp: ALLOWED_STATUS_def TERMINAL_def split: job_status.splits)

section \<open>Idempotent operations\<close>

definition charge_exec :: "string \<times> charge_request \<times> time \<Rightarrow> job_db \<Rightarrow> job_txn" where
  "charge_exec q db = charge (fst q) (fst (snd q)) (snd (snd q)) db"

definition charge_key_of :: "string \<times> charge_request \<times> time \<Rightarrow> string \<times> string" where
  "charge_key_of q = (fst q, ch_charge_key (fst (snd q)))"

definition charge_meaning :: "string \<times> charge_request \<times> time \<Rightarrow> string \<times> int \<times> int \<times> int" where
  "charge_meaning q = (let r = fst (snd q) in
     (ch_provider r, ch_calls r, ch_tokens r, ch_cost_microunits r))"

definition usage_meaning :: "usage_row \<Rightarrow> string \<times> int \<times> int \<times> int" where
  "usage_meaning u = (us_provider u, us_calls u, us_tokens u, us_cost_microunits u)"

definition charges_stored :: "job_db \<Rightarrow> string \<times> string \<Rightarrow> (string \<times> int \<times> int \<times> int) option" where
  "charges_stored db k = map_option usage_meaning
     (row_by (\<lambda>u. (us_job_id u, us_charge_key u)) k (usage_rows db))"

lemma same_charge_meaning: "same_charge u (fst (snd q)) \<longleftrightarrow> usage_meaning u = charge_meaning q"
  by (auto simp: same_charge_def usage_meaning_def charge_meaning_def Let_def)

interpretation charge_store: idempotent_store charge_exec charge_key_of charge_meaning
  charges_stored db_inv "\<lambda>q db. True"
proof
  fix db q j db'
  assume inv: "db_inv db" and ex: "charge_exec q db = Inr (j, db')"
  then have c: "charge (fst q) (fst (snd q)) (snd (snd q)) db = Inr (j, db')"
    by (simp add: charge_exec_def)
  then show "db_inv db'"
    using exec_job_op_inv [of "Charge (fst q) (fst (snd q)) (snd (snd q))"] inv by simp
  from c show "charges_stored db' = (charges_stored db)(charge_key_of q \<mapsto> charge_meaning q)"
    if "charges_stored db (charge_key_of q) = None"
  proof (cases rule: charge_cases)
    case (replay u)
    with that show ?thesis by (simp add: charges_stored_def charge_key_of_def)
  next
    case (new row u)
    then show ?thesis
      using same_charge_meaning [of u q]
      by (auto simp: charges_stored_def charge_key_of_def fun_eq_iff row_by_append row_by_Cons
          split: option.splits)
  qed
  from c show "charges_stored db' = charges_stored db"
    if "charges_stored db (charge_key_of q) = Some (charge_meaning q)"
    using that by (cases rule: charge_cases) (auto simp: charges_stored_def charge_key_of_def)
next
  fix db q m
  assume st: "charges_stored db (charge_key_of q) = Some m" and neq: "m \<noteq> charge_meaning q"
  show "\<exists>e. charge_exec q db = Inl e"
  proof (cases "charge_exec q db")
    case (Inr y)
    obtain j db' where "y = (j, db')" by (cases y)
    with Inr have "charge (fst q) (fst (snd q)) (snd (snd q)) db = Inr (j, db')"
      by (simp add: charge_exec_def)
    then show ?thesis
      using st neq same_charge_meaning
      by (cases rule: charge_cases) (auto simp: charges_stored_def charge_key_of_def)
  qed simp
qed


definition create_exec :: "time \<times> string \<times> create_request \<Rightarrow> job_db \<Rightarrow> job_txn" where
  "create_exec q db = create_job (fst q) (fst (snd q)) (snd (snd q)) db"

definition create_key_of :: "time \<times> string \<times> create_request \<Rightarrow> string \<times> string" where
  "create_key_of q = (let r = snd (snd q) in (cr_tenant_id r, cr_idempotency_key r))"

definition create_meaning :: "time \<times> string \<times> create_request \<Rightarrow> string \<times> int \<times> int \<times> int" where
  "create_meaning q = (let r = snd (snd q) in
     (cr_task r, cr_max_calls r, cr_max_tokens r, cr_max_cost_microunits r))"

definition job_meaning :: "job \<Rightarrow> string \<times> int \<times> int \<times> int" where
  "job_meaning j = (task j, max_calls j, max_tokens j, max_cost_microunits j)"

definition jobs_stored :: "job_db \<Rightarrow> string \<times> string \<Rightarrow> (string \<times> int \<times> int \<times> int) option" where
  "jobs_stored db k = map_option job_meaning
     (row_by (\<lambda>j. (tenant_id j, idempotency_key j)) k (jobs db))"

lemma same_request_meaning: "same_request j (snd (snd q)) \<longleftrightarrow> job_meaning j = create_meaning q"
  by (auto simp: same_request_def job_meaning_def create_meaning_def Let_def)

lemma create_job_cases:
  assumes "create_job now i r db = Inr (j, db')"
  obtains (replay) "row_by (\<lambda>j. (tenant_id j, idempotency_key j))
        (cr_tenant_id r, cr_idempotency_key r) (jobs db) = Some j"
      and "same_request j r" and "db' = db"
    | (new) k where "row_by (\<lambda>j. (tenant_id j, idempotency_key j))
        (cr_tenant_id r, cr_idempotency_key r) (jobs db) = None"
      and "find_job k db = None" and "db' = db\<lparr>jobs := jobs db @ [new_job now k r]\<rparr>"
      and "j = new_job now k r" and "cr_job_id r = None \<Longrightarrow> k = i"
proof (cases "row_by (\<lambda>j. (tenant_id j, idempotency_key j))
    (cr_tenant_id r, cr_idempotency_key r) (jobs db)")
  case (Some e)
  with assms show thesis by (intro replay) (auto simp: create_job_def Let_def split: if_splits)
next
  case None
  let ?k = "case cr_job_id r of None \<Rightarrow> i | Some k \<Rightarrow> if k = [] then i else k"
  let ?db = "db\<lparr>jobs := jobs db @ [new_job now ?k r]\<rparr>"
  from assms None have k: "find_job ?k db = None" and db': "db' = ?db"
    and g: "get_job ?k (Some (cr_tenant_id r)) ?db = Inr j"
    by (auto simp: create_job_def Let_def split: if_splits)
  have "find (\<lambda>j. job_id j = ?k \<and> tenant_id j = cr_tenant_id r) (jobs db) = None"
    using k by (auto simp: find_job_def row_by_def find_None_iff)
  then have "find (\<lambda>j. job_id j = ?k \<and> tenant_id j = cr_tenant_id r) (jobs db @ [new_job now ?k r])
      = Some (new_job now ?k r)"
    by (simp add: find_append_None)
  with g have "j = new_job now ?k r" by (simp add: get_job_def)
  with None k db' show thesis by (intro new [of ?k]) auto
qed

interpretation create_store: idempotent_store create_exec create_key_of create_meaning
  jobs_stored db_inv "\<lambda>q db. True"
proof
  fix db q j db'
  assume inv: "db_inv db" and ex: "create_exec q db = Inr (j, db')"
  then have c: "create_job (fst q) (fst (snd q)) (snd (snd q)) db = Inr (j, db')"
    by (simp add: create_exec_def)
  then show "db_inv db'"
    using exec_job_op_inv [of "CreateJob (fst q) (fst (snd q)) (snd (snd q))"] inv by simp
  from c show "jobs_stored db' = (jobs_stored db)(create_key_of q \<mapsto> create_meaning q)"
    if "jobs_stored db (create_key_of q) = None"
  proof (cases rule: create_job_cases)
    case replay
    with that show ?thesis by (simp add: jobs_stored_def create_key_of_def Let_def)
  next
    case (new k)
    then show ?thesis
      by (auto simp: jobs_stored_def create_key_of_def fun_eq_iff row_by_append row_by_Cons Let_def
          job_meaning_def create_meaning_def split: option.splits)
  qed
  from c show "jobs_stored db' = jobs_stored db"
    if "jobs_stored db (create_key_of q) = Some (create_meaning q)"
    using that by (cases rule: create_job_cases) (auto simp: jobs_stored_def create_key_of_def Let_def)
next
  fix db q m
  assume st: "jobs_stored db (create_key_of q) = Some m" and neq: "m \<noteq> create_meaning q"
  show "\<exists>e. create_exec q db = Inl e"
  proof (cases "create_exec q db")
    case (Inr y)
    obtain j db' where "y = (j, db')" by (cases y)
    with Inr have "create_job (fst q) (fst (snd q)) (snd (snd q)) db = Inr (j, db')"
      by (simp add: create_exec_def)
    then show ?thesis
      using st neq same_request_meaning
      by (cases rule: create_job_cases) (auto simp: jobs_stored_def create_key_of_def Let_def)
  qed simp
qed

record checkpoint_request =
  ck_job_id :: string
  ck_worker_id :: string
  ck_stage :: stage
  ck_key :: string
  ck_payload :: json
  ck_now :: time

definition checkpoint_exec :: "checkpoint_request \<Rightarrow> job_db \<Rightarrow> job_txn" where
  "checkpoint_exec q db =
     save_checkpoint (ck_job_id q) (ck_worker_id q) (ck_stage q) (ck_key q) (ck_payload q) (ck_now q) db"

definition checkpoint_key_of :: "checkpoint_request \<Rightarrow> string \<times> string" where
  "checkpoint_key_of q = (ck_job_id q, ck_key q)"

definition checkpoint_meaning :: "checkpoint_request \<Rightarrow> string result \<times> stage" where
  "checkpoint_meaning q = (canonical_json (ck_payload q), ck_stage q)"

definition checkpoints_stored :: "job_db \<Rightarrow> string \<times> string \<Rightarrow> (string result \<times> stage) option" where
  "checkpoints_stored db k = map_option (\<lambda>c. (Inr (cp_payload c), cp_stage c))
     (row_by (\<lambda>c. (cp_job_id c, cp_checkpoint_key c)) k (checkpoint_rows db))"

lemma save_checkpoint_cases:
  assumes "save_checkpoint jid w sg key pl now db = Inr (j, db')"
  obtains row rendered where "find_job jid db = Some row" and "status row = RUNNING"
    and "lease_owner row = Some w" and "\<exists>e. lease_expires_at row = Some e \<and> now \<le> e"
    and "STAGE_ORDER (job_stage row) \<le> STAGE_ORDER sg"
    and "canonical_json pl = Inr rendered" and "sensitive_paths pl ''checkpoint'' = []"
    and "find_job jid db' = Some (row\<lparr>job_stage := sg, version := version row + 1, updated_at := now\<rparr>)"
    and "j = row\<lparr>job_stage := sg, version := version row + 1, updated_at := now\<rparr>"
    and "usage_rows db' = usage_rows db"
    and "jobs db' = jobs (update_job jid (\<lambda>j. j\<lparr>job_stage := sg, version := version j + 1, updated_at := now\<rparr>) db)"
    and "checkpoint_rows db' = checkpoint_rows db @
      (case row_by (\<lambda>c. (cp_job_id c, cp_checkpoint_key c)) (jid, key) (checkpoint_rows db) of
         None \<Rightarrow> [\<lparr>cp_job_id = jid, cp_stage = sg, cp_checkpoint_key = key, cp_payload = rendered,
                   cp_created_at = now\<rparr>] | Some c \<Rightarrow> [])"
    and "\<forall>c. row_by (\<lambda>c. (cp_job_id c, cp_checkpoint_key c)) (jid, key) (checkpoint_rows db) = Some c
      \<longrightarrow> cp_payload c = rendered \<and> cp_stage c = sg"
proof -
  obtain rendered row where r: "find_job jid db = Some row" "canonical_json pl = Inr rendered"
      "sensitive_paths pl ''checkpoint'' = []"
    using assms
    by (auto simp: save_checkpoint_def validate_durable_payload_def Let_def
        split: sum.splits option.splits if_splits)
  from assms r show thesis
    by (intro that [OF r(1) _ _ _ _ r(2,3)])
      (auto simp: save_checkpoint_def find_job_update Let_def validate_durable_payload_def
        split: sum.splits option.splits if_splits)
qed

interpretation checkpoint_store: idempotent_store checkpoint_exec checkpoint_key_of
  checkpoint_meaning checkpoints_stored db_inv "\<lambda>q db. True"
proof
  fix db q j db'
  assume inv: "db_inv db" and ex: "checkpoint_exec q db = Inr (j, db')"
  then have c: "save_checkpoint (ck_job_id q) (ck_worker_id q) (ck_stage q) (ck_key q)
      (ck_payload q) (ck_now q) db = Inr (j, db')"
    by (simp add: checkpoint_exec_def)
  then show "db_inv db'"
    using exec_job_op_inv [of "SaveCheckpoint (ck_job_id q) (ck_worker_id q) (ck_stage q) (ck_key q)
      (ck_payload q) (ck_now q)"] inv by simp
  from c show "checkpoints_stored db' = (checkpoints_stored db)(checkpoint_key_of q \<mapsto> checkpoint_meaning q)"
    if "checkpoints_stored db (checkpoint_key_of q) = None"
  proof (cases rule: save_checkpoint_cases)
    case (1 row rendered)
    with that show ?thesis
      by (auto simp: checkpoints_stored_def checkpoint_key_of_def checkpoint_meaning_def fun_eq_iff
          row_by_append row_by_Cons split: option.splits)
  qed
  from c show "checkpoints_stored db' = checkpoints_stored db"
    if "checkpoints_stored db (checkpoint_key_of q) = Some (checkpoint_meaning q)"
  proof (cases rule: save_checkpoint_cases)
    case (1 row rendered)
    with that show ?thesis
      by (auto simp: checkpoints_stored_def checkpoint_key_of_def)
  qed
next
  fix db q m
  assume st: "checkpoints_stored db (checkpoint_key_of q) = Some m" and neq: "m \<noteq> checkpoint_meaning q"
  show "\<exists>e. checkpoint_exec q db = Inl e"
  proof (cases "checkpoint_exec q db")
    case (Inr y)
    obtain j db' where "y = (j, db')" by (cases y)
    with Inr have "save_checkpoint (ck_job_id q) (ck_worker_id q) (ck_stage q) (ck_key q)
      (ck_payload q) (ck_now q) db = Inr (j, db')"
      by (simp add: checkpoint_exec_def)
    then show ?thesis
      using st neq
      by (cases rule: save_checkpoint_cases)
        (auto simp: checkpoints_stored_def checkpoint_key_of_def checkpoint_meaning_def)
  qed simp
qed

section \<open>Leases\<close>

text \<open>What an operation leaves of a job it does not lease, heartbeat or transition.\<close>

primrec touches_lease :: "job_op \<Rightarrow> string \<Rightarrow> bool" where
  "touches_lease (CreateJob now i r) jid \<longleftrightarrow> False"
| "touches_lease (AcquireLease k w ls now) jid \<longleftrightarrow> k = jid"
| "touches_lease (Heartbeat k w ls now) jid \<longleftrightarrow> k = jid"
| "touches_lease (SaveCheckpoint k w sg key pl now) jid \<longleftrightarrow> False"
| "touches_lease (Charge k r now) jid \<longleftrightarrow> False"
| "touches_lease (Transition k t v e rel now) jid \<longleftrightarrow> k = jid"

definition lease_view :: "job \<Rightarrow> job_status \<times> string option \<times> time option" where
  "lease_view j = (status j, lease_owner j, lease_expires_at j)"

lemma find_job_jobs_cong: "jobs db' = jobs db \<Longrightarrow> find_job k db' = find_job k db"
  by (simp add: find_job_def)

lemma find_job_update_id [simp]:
  "(\<And>r. job_id (f r) = job_id r) \<Longrightarrow> find_job k (update_job jid f db)
    = (if k = jid then map_option f (find_job jid db) else find_job k db)"
  by (simp add: find_job_update)

lemma untouched_lease:
  assumes "exec_job_op op db = Inr (r, db')" and "\<not> touches_lease op jid"
    and "find_job jid db = Some j"
  shows "map_option lease_view (find_job jid db') = Some (lease_view j)"
proof (cases op)
  case (CreateJob now i q)
  with assms(1) have "create_job now i q db = Inr (r, db')" by simp
  then show ?thesis
    using assms(3) by (cases rule: create_job_cases) (auto simp: find_job_def row_by_append)
next
  case (AcquireLease k w ls now)
  with assms show ?thesis by (auto simp: acquire_lease_def Let_def split: option.splits if_splits)
next
  case (Heartbeat k w ls now)
  with assms show ?thesis by (auto simp: heartbeat_def split: if_splits)
next
  case (SaveCheckpoint k w sg key pl now)
  with assms(1) have "save_checkpoint k w sg key pl now db = Inr (r, db')" by simp
  then show ?thesis
    using assms(3)
  proof (cases rule: save_checkpoint_cases)
    case (1 row rendered)
    then show ?thesis
      using assms(3) by (auto simp: find_job_jobs_cong [OF 1(11)] lease_view_def)
  qed
next
  case (Charge k q now)
  with assms(1) have "charge k q now db = Inr (r, db')" by simp
  then show ?thesis
    using assms(3) by (cases rule: charge_cases) (auto simp: lease_view_def)
next
  case (Transition k t v e rel now)
  with assms(1) have "transition k t v e rel now db = Inr (r, db')" by simp
  then show ?thesis
    using assms(2,3) Transition by (cases rule: transition_cases) auto
qed

text \<open>A worker holds a job until \<open>expiry\<close>.\<close>

definition holds_lease :: "string \<Rightarrow> string \<Rightarrow> time \<Rightarrow> job_db \<Rightarrow> bool" where
  "holds_lease jid worker expiry db \<longleftrightarrow>
     map_option lease_view (find_job jid db) = Some (RUNNING, Some worker, Some expiry)"

text \<open>
  The operations the rest of the system may interleave: everything but a transition of this
  job, a lease request of the holder itself, and a lease request whose clock has reached the expiry.
\<close>

primrec by_others :: "string \<Rightarrow> string \<Rightarrow> time \<Rightarrow> job_op \<Rightarrow> bool" where
  "by_others jid worker expiry (CreateJob now i r) \<longleftrightarrow> True"
| "by_others jid worker expiry (AcquireLease k w ls now) \<longleftrightarrow> k \<noteq> jid \<or> (w \<noteq> worker \<and> now < expiry)"
| "by_others jid worker expiry (Heartbeat k w ls now) \<longleftrightarrow> k \<noteq> jid \<or> w \<noteq> worker"
| "by_others jid worker expiry (SaveCheckpoint k w sg key pl now) \<longleftrightarrow> True"
| "by_others jid worker expiry (Charge k r now) \<longleftrightarrow> True"
| "by_others jid worker expiry (Transition k t v e rel now) \<longleftrightarrow> k \<noteq> jid"

lemma acquire_refused:
  assumes "holds_lease jid worker expiry db" and "worker \<noteq> []" and "w \<noteq> worker" and "now < expiry"
  shows "acquire_lease jid w ls now db \<noteq> Inr y"
  using assms
  by (auto simp: holds_lease_def lease_view_def acquire_lease_def leased_elsewhere_def TERMINAL_def)

lemma heartbeat_refused:
  assumes "holds_lease jid worker expiry db" and "distinct (map job_id (jobs db))" and "w \<noteq> worker"
  shows "heartbeat jid w ls now db \<noteq> Inr y"
proof -
  have "filter (\<lambda>j. job_id j = jid \<and> heartbeat_matches w now j) (jobs db) = []"
    using assms find_job_unique [OF assms(2)]
    by (fastforce simp: filter_empty_conv holds_lease_def lease_view_def heartbeat_matches_def)
  then show ?thesis by (simp add: heartbeat_def)
qed

lemma others_keep_lease_step:
  assumes "db_inv db" and "holds_lease jid worker expiry db" and "worker \<noteq> []"
    and "by_others jid worker expiry op"
  shows "holds_lease jid worker expiry (snd (job_step op db))"
proof (cases "exec_job_op op db")
  case (Inl e)
  then show ?thesis using assms(2) by (simp add: job_step_def snd_transact)
next
  case (Inr y)
  obtain r db' where y: "y = (r, db')" by (cases y)
  have "\<not> touches_lease op jid"
    using Inr assms(4) acquire_refused [OF assms(2,3), of _ _ _ y]
      heartbeat_refused [OF assms(2) db_inv_distinct [OF assms(1)], of _ _ _ y]
    by (cases op) (simp_all, blast+)
  then have "holds_lease jid worker expiry db'"
    using untouched_lease [of op db r db' jid] Inr y assms(2) by (auto simp: holds_lease_def)
  then show ?thesis using Inr y by (simp add: job_step_def snd_transact)
qed

lemma others_keep_lease_run:
  "db_inv db \<Longrightarrow> holds_lease jid worker expiry db \<Longrightarrow> worker \<noteq> [] \<Longrightarrow>
   list_all (by_others jid worker expiry) ops \<Longrightarrow> holds_lease jid worker expiry (run_ops job_step ops db)"
  by (induction ops arbitrary: db) (simp_all add: others_keep_lease_step job_machine.step_inv)

section \<open>Claiming\<close>

lemma acquire_lease_InrD:
  assumes "acquire_lease jid worker ls now db = Inr (j, db')"
  obtains row where "find_job jid db = Some row" and "status row \<in> set [QUEUED, RUNNING, RETRY_WAIT]"
    and "\<not> leased_elsewhere row worker now" and "find_job jid db' = Some j"
    and "status j = RUNNING" and "lease_owner j = Some worker" and "lease_expires_at j = Some (now + ls)"
    and "attempts j = attempts row + 1" and "job_id j = jid" and "tenant_id j = tenant_id row"
proof -
  obtain row where row: "find_job jid db = Some row"
    using assms by (cases "find_job jid db") (simp_all add: acquire_lease_def split: if_splits)
  let ?st = "if status row \<in> set [QUEUED, RETRY_WAIT] then RUNNING else status row"
  have guards: "status row \<notin> set TERMINAL" "status row \<noteq> VALIDATING" "\<not> leased_elsewhere row worker now"
    using assms row by (simp_all add: acquire_lease_def split: if_splits)
  then have ex: "acquire_lease jid worker ls now db = (if blank worker \<or> ls \<le> 0
      then Inl (JobStoreError ''worker_id and positive lease_seconds are required'')
      else reread jid (update_job jid (\<lambda>j. j\<lparr>status := ?st, lease_owner := Some worker,
        lease_expires_at := Some (now + ls), attempts := attempts j + 1, version := version j + 1,
        updated_at := now\<rparr>) db))"
    using row by (simp add: acquire_lease_def Let_def)
  have st: "status row \<in> set [QUEUED, RUNNING, RETRY_WAIT]" "?st = RUNNING"
    using guards by (cases "status row"; simp add: TERMINAL_def)+
  have f: "find_job jid db' = Some j" using assms ex by (auto split: if_splits)
  have "find_job jid db' = Some (row\<lparr>status := RUNNING, lease_owner := Some worker,
      lease_expires_at := Some (now + ls), attempts := attempts row + 1, version := version row + 1,
      updated_at := now\<rparr>)"
    using assms row unfolding ex st(2) by (simp split: if_splits)
  then have "j = row\<lparr>status := RUNNING, lease_owner := Some worker, lease_expires_at := Some (now + ls),
      attempts := attempts row + 1, version := version row + 1, updated_at := now\<rparr>"
    using f by simp
  then show thesis using that [OF row st(1) guards(3) f] find_job_id [OF row] by simp
qed

lemma sort_key_members [simp]: "set (sort_key g xs) = set xs"
  by simp

lemma runnable_member:
  "jid \<in> set (runnable_job_ids limit now db) \<Longrightarrow>
   \<exists>j \<in> set (jobs db). job_id j = jid \<and> is_runnable now j"
  by (auto simp: runnable_job_ids_def split: if_splits dest!: in_set_takeD)

text \<open>
  A job that waits carries no lease, as long as transitions to \<open>RETRY_WAIT\<close> release it (the
  program never passes \<open>release_lease=False\<close> with that target).
\<close>

definition queue_unleased :: "job_db \<Rightarrow> bool" where
  "queue_unleased db \<longleftrightarrow> (\<forall>jid j. find_job jid db = Some j \<longrightarrow>
     status j \<in> set [QUEUED, RETRY_WAIT] \<longrightarrow> lease_owner j = None)"

primrec retry_releases :: "job_op \<Rightarrow> bool" where
  "retry_releases (CreateJob now i r) \<longleftrightarrow> True"
| "retry_releases (AcquireLease k w ls now) \<longleftrightarrow> True"
| "retry_releases (Heartbeat k w ls now) \<longleftrightarrow> True"
| "retry_releases (SaveCheckpoint k w sg key pl now) \<longleftrightarrow> True"
| "retry_releases (Charge k r now) \<longleftrightarrow> True"
| "retry_releases (Transition k t v e rel now) \<longleftrightarrow> t = RETRY_WAIT \<longrightarrow> rel"

lemma unknown_job_after:
  assumes "exec_job_op op db = Inr (r, db')" and "find_job jid db = None" and "find_job jid db' = Some j"
  shows "status j = QUEUED \<and> lease_owner j = None"
proof (cases op)
  case (CreateJob now i q)
  with assms(1) have "create_job now i q db = Inr (r, db')" by simp
  then show ?thesis
    using assms(2,3)
    by (cases rule: create_job_cases) (auto simp: find_job_def row_by_append row_by_Cons split: if_splits)
next
  case (AcquireLease k w ls now)
  with assms show ?thesis by (auto simp: acquire_lease_def Let_def split: option.splits if_splits)
next
  case (Heartbeat k w ls now)
  with assms show ?thesis by (auto simp: heartbeat_def split: if_splits)
next
  case (SaveCheckpoint k w sg key pl now)
  with assms(1) have "save_checkpoint k w sg key pl now db = Inr (r, db')" by simp
  then show ?thesis
  proof (cases rule: save_checkpoint_cases)
    case (1 row rendered)
    then show ?thesis
      using assms(2,3) by (auto simp: find_job_jobs_cong [OF 1(11)] split: if_splits)
  qed
next
  case (Charge k q now)
  with assms(1) have "charge k q now db = Inr (r, db')" by simp
  then show ?thesis
    using assms(2,3) by (cases rule: charge_cases) (auto split: if_splits)
next
  case (Transition k t v e rel now)
  with assms(1) have "transition k t v e rel now db = Inr (r, db')" by simp
  then show ?thesis
    using assms(2,3) by (cases rule: transition_cases) (auto split: if_splits)
qed

lemma queue_unleased_exec:
  assumes "exec_job_op op db = Inr (r, db')" and "queue_unleased db" and "retry_releases op"
  shows "queue_unleased db'"
  unfolding queue_unleased_def
proof (intro allI impI)
  fix jid j
  assume j: "find_job jid db' = Some j" and st: "status j \<in> set [QUEUED, RETRY_WAIT]"
  show "lease_owner j = None"
  proof (cases "find_job jid db")
    case None
    then show ?thesis using unknown_job_after [OF assms(1) _ j] by simp
  next
    case (Some k)
    show ?thesis
    proof (cases "touches_lease op jid")
      case False
      then have "lease_view j = lease_view k" using untouched_lease [OF assms(1) _ Some] j by simp
      then show ?thesis using assms(2) Some st by (auto simp: queue_unleased_def lease_view_def)
    next
      case True
      show ?thesis
      proof (cases op)
        case (AcquireLease i w ls now)
        with True Some assms(1) obtain st' where "db' = update_job jid (\<lambda>j. j\<lparr>status := st',
            lease_owner := Some w, lease_expires_at := Some (now + ls), attempts := attempts j + 1,
            version := version j + 1, updated_at := now\<rparr>) db" "st' \<notin> set [QUEUED, RETRY_WAIT]"
          by (auto simp: acquire_lease_def Let_def split: if_splits)
        then show ?thesis using j st Some by auto
      next
        case (Heartbeat i w ls now)
        with True assms(1) j Some have "status j = status k" "lease_owner j = lease_owner k"
          by (auto simp: heartbeat_def split: if_splits)
        then show ?thesis using assms(2) Some st unfolding queue_unleased_def by metis
      next
        case (Transition i t v e rel now)
        with assms(1) True have "transition jid t v e rel now db = Inr (r, db')" by simp
        then show ?thesis
        proof (cases rule: transition_cases)
          case (1 row)
          then have "t \<noteq> QUEUED" by (auto simp: ALLOWED_STATUS_def split: job_status.splits)
          then show ?thesis using 1 j st assms(3) Transition by auto
        qed
      qed (use True in simp_all)
    qed
  qed
qed

lemma queue_unleased_run:
  "queue_unleased db \<Longrightarrow> list_all retry_releases ops \<Longrightarrow> queue_unleased (run_ops job_step ops db)"
proof (induction ops arbitrary: db)
  case (Cons op ops)
  have "queue_unleased (snd (job_step op db))"
    unfolding job_step_def by (rule transact_cases) (use Cons.prems queue_unleased_exec in auto)
  with Cons show ?case by simp
qed simp

text \<open>Every job offered to a worker can be leased by it at the same clock reading.\<close>

lemma runnable_acquired:
  assumes "distinct (map job_id (jobs db))" and "queue_unleased db"
    and "jid \<in> set (runnable_job_ids limit now db)"
    and "\<not> blank worker" and "0 < ls"
  shows "\<exists>j db'. acquire_lease jid worker ls now db = Inr (j, db') \<and>
    holds_lease jid worker (now + ls) db' \<and> find_job jid db' = Some j"
proof -
  obtain k where k: "k \<in> set (jobs db)" "job_id k = jid" "is_runnable now k"
    using runnable_member [OF assms(3)] by blast
  then have f: "find_job jid db = Some k"
    using row_by_distinct [OF assms(1), of k] by (simp add: find_job_def)
  then have "status k \<in> set [QUEUED, RETRY_WAIT] \<Longrightarrow> lease_owner k = None"
    using assms(2) unfolding queue_unleased_def by blast
  with f k(3) assms(4,5) show ?thesis
    by (auto simp: acquire_lease_def is_runnable_def TERMINAL_def leased_elsewhere_def lease_expired_def
        holds_lease_def lease_view_def Let_def find_job_update_id split: option.splits)
qed

text \<open>A job in \<open>VALIDATING\<close> is never offered and never leased again.\<close>

lemma validating_not_offered:
  assumes "distinct (map job_id (jobs db))" and "find_job jid db = Some j" and "status j = VALIDATING"
  shows "jid \<notin> set (runnable_job_ids limit now db)" and "acquire_lease jid w ls now db \<noteq> Inr y"
proof -
  show "jid \<notin> set (runnable_job_ids limit now db)"
    using runnable_member [of jid limit now db] find_job_unique [OF assms(1,2)] assms(3)
    by (auto simp: is_runnable_def)
  show "acquire_lease jid w ls now db \<noteq> Inr y"
    using assms(2,3) by (simp add: acquire_lease_def)
qed

primrec transitions_job :: "string \<Rightarrow> job_op \<Rightarrow> bool" where
  "transitions_job jid (CreateJob now i r) \<longleftrightarrow> False"
| "transitions_job jid (AcquireLease k w ls now) \<longleftrightarrow> False"
| "transitions_job jid (Heartbeat k w ls now) \<longleftrightarrow> False"
| "transitions_job jid (SaveCheckpoint k w sg key pl now) \<longleftrightarrow> False"
| "transitions_job jid (Charge k r now) \<longleftrightarrow> False"
| "transitions_job jid (Transition k t v e rel now) \<longleftrightarrow> k = jid"

definition is_validating :: "string \<Rightarrow> job_db \<Rightarrow> bool" where
  "is_validating jid db \<longleftrightarrow> map_option status (find_job jid db) = Some VALIDATING"

lemma validating_step:
  assumes "db_inv db" and "is_validating jid db" and "\<not> transitions_job jid op"
  shows "is_validating jid (snd (job_step op db))"
proof (cases "exec_job_op op db")
  case (Inl e)
  then show ?thesis using assms(2) by (simp add: job_step_def snd_transact)
next
  case (Inr y)
  obtain r db' where y: "y = (r, db')" by (cases y)
  obtain j where j: "find_job jid db = Some j" "status j = VALIDATING"
    using assms(2) by (auto simp: is_validating_def)
  have d: "distinct (map job_id (jobs db))" using assms(1) by (rule db_inv_distinct)
  have "heartbeat jid w ls now db \<noteq> Inr y" for w ls now
  proof -
    have "filter (\<lambda>j. job_id j = jid \<and> heartbeat_matches w now j) (jobs db) = []"
      using j find_job_unique [OF d j(1)] by (auto simp: filter_empty_conv heartbeat_matches_def)
    then show ?thesis by (simp add: heartbeat_def)
  qed
  then have "\<not> touches_lease op jid"
    using Inr assms(3) validating_not_offered(2) [OF d j, of _ _ _ y] by (cases op) (simp_all, blast+)
  then have "map_option lease_view (find_job jid db') = Some (lease_view j)"
    using untouched_lease [of op db r db' jid] Inr y j(1) by simp
  then show ?thesis using Inr y j(2) by (auto simp: is_validating_def lease_view_def job_step_def snd_transact)
qed

lemma validating_run:
  "db_inv db \<Longrightarrow> is_validating jid db \<Longrightarrow> list_all (\<lambda>op. \<not> transitions_job jid op) ops \<Longrightarrow>
   is_validating jid (run_ops job_step ops db)"
  by (induction ops arbitrary: db) (simp_all add: validating_step job_machine.step_inv)

section \<open>Telemetry\<close>

lemma count_partition:
  assumes "distinct vs" and "\<forall>x \<in> set xs. g x \<in> set vs"
  shows "sum_list (map (\<lambda>v. length (filter (\<lambda>x. g x = v) xs)) vs) = length xs"
  using assms(2)
proof (induction xs)
  case (Cons x xs)
  have "sum_list (map (\<lambda>v. length (filter (\<lambda>y. g y = v) (x # xs))) vs)
      = sum_list (map (\<lambda>v. (if g x = v then 1 else 0) + length (filter (\<lambda>y. g y = v) xs)) vs)"
    by (intro arg_cong [where f = sum_list] map_cong) auto
  also have "\<dots> = sum_list (map (\<lambda>v. if g x = v then 1 else 0) vs) + length xs"
    using Cons by (simp add: sum_list_addf)
  also have "sum_list (map (\<lambda>v. if g x = v then 1 else 0) vs) = (1 :: nat)"
    using assms(1) Cons.prems by (simp add: sum_list_distinct_conv_sum_set)
  finally show ?case by simp
qed simp

lemma usage_total:
  assumes "us_job_id ` set us \<subseteq> job_id ` set js" and "distinct (map job_id js)"
  shows "sum_list (map (\<lambda>j. sum_list (map g (filter (\<lambda>u. us_job_id u = job_id j) us))) js)
    = (sum_list (map g us) :: int)"
  using assms(1)
proof (induction us)
  case Nil
  then show ?case by (simp add: sum_list_0)
next
  case (Cons u us)
  have "sum_list (map (\<lambda>j. sum_list (map g (filter (\<lambda>v. us_job_id v = job_id j) (u # us)))) js)
      = sum_list (map (\<lambda>j. (if job_id j = us_job_id u then g u else 0)
          + sum_list (map g (filter (\<lambda>v. us_job_id v = job_id j) us))) js)"
    by (intro arg_cong [where f = sum_list] map_cong) auto
  also have "\<dots> = sum_list (map (\<lambda>i. if i = us_job_id u then g u else 0) (map job_id js))
      + sum_list (map g us)"
    using Cons by (simp add: sum_list_addf o_def)
  also have "sum_list (map (\<lambda>i. if i = us_job_id u then g u else 0) (map job_id js)) = g u"
    using assms(2) Cons.prems by (subst sum_list_distinct_conv_sum_set) auto
  finally show ?case by simp
qed

lemma snapshot_usage:
  assumes "db_inv db"
  shows "sn_used_calls (operational_snapshot now db) = sum_list (map us_calls (usage_rows db))"
proof -
  have k: "us_job_id ` set (usage_rows db) \<subseteq> job_id ` set (jobs db)" "distinct (map job_id (jobs db))"
    using assms by (simp_all add: db_inv_def keys_ok_def)
  have "map used_calls (jobs db) = map (\<lambda>j. usage_of us_calls (job_id j) db) (jobs db)"
    using assms by (auto simp: db_inv_def usage_ok_def)
  then have "sum_list (map used_calls (jobs db)) = sum_list (map us_calls (usage_rows db))"
    using usage_total [OF k, of us_calls] by (simp only: usage_of_def)
  then show ?thesis by (simp add: operational_snapshot_def)
qed

end
