(* ===== verification/Events.thy ===== *)
theory Events
  imports Json
begin

text \<open>
  The event envelope of the append-only ledger (\<open>src/core/events.py\<close>, lines 58 to 163): its
  fields, the hash over everything but the hash, validation in the code's order of checks,
  construction, and decoding from a ledger line.

  Parameters of the model, in the record \<open>py_env\<close>: \<open>hashlib.sha256\<close> with the hexadecimal
  digest of a text's UTF-8 encoding, and \<open>datetime.fromisoformat\<close>, of which the code uses
  whether it raises and whether the result carries a timezone.
\<close>

record py_env =
  sha256 :: "string \<Rightarrow> string"
  fromisoformat :: "string \<Rightarrow> bool option"

record event =
  schema_version :: int
  sequence :: int
  event_id :: string
  occurred_at :: string
  ev_tenant_id :: string
  ev_job_id :: string
  aggregate_type :: string
  aggregate_id :: string
  event_type :: string
  payload :: json
  ev_idempotency_key :: string
  previous_hash :: string
  event_hash :: string

definition unsigned_dict :: "event \<Rightarrow> json" where
  "unsigned_dict e = JObj [
     (''schema_version'', JInt (schema_version e)),
     (''sequence'', JInt (sequence e)),
     (''event_id'', JStr (event_id e)),
     (''occurred_at'', JStr (occurred_at e)),
     (''tenant_id'', JStr (ev_tenant_id e)),
     (''job_id'', JStr (ev_job_id e)),
     (''aggregate_type'', JStr (aggregate_type e)),
     (''aggregate_id'', JStr (aggregate_id e)),
     (''event_type'', JStr (event_type e)),
     (''payload'', payload e),
     (''idempotency_key'', JStr (ev_idempotency_key e)),
     (''previous_hash'', JStr (previous_hash e))]"

definition event_dict :: "event \<Rightarrow> json" where
  "event_dict e = (case unsigned_dict e of
     JObj kvs \<Rightarrow> JObj (kvs @ [(''event_hash'', JStr (event_hash e))]) | v \<Rightarrow> v)"

definition calculated_hash :: "py_env \<Rightarrow> event \<Rightarrow> string result" where
  "calculated_hash env e =
     bind_result (canonical_json (unsigned_dict e)) (\<lambda>t. Inr (sha256 env t))"

definition required_fields :: "event \<Rightarrow> (string \<times> string) list" where
  "required_fields e = [
     (''event_id'', event_id e), (''occurred_at'', occurred_at e),
     (''tenant_id'', ev_tenant_id e), (''job_id'', ev_job_id e),
     (''aggregate_type'', aggregate_type e), (''aggregate_id'', aggregate_id e),
     (''event_type'', event_type e), (''idempotency_key'', ev_idempotency_key e)]"

text \<open>\<open>occurred_at.replace("Z", "+00:00")\<close>\<close>

definition replace_z :: "string \<Rightarrow> string" where
  "replace_z s = concat (map (\<lambda>c. if c = CHR ''Z'' then ''+00:00'' else [c]) s)"

definition validate_event :: "py_env \<Rightarrow> event \<Rightarrow> unit result" where
  "validate_event env e =
     (if schema_version e \<noteq> 1 then Inl (EventValidationError ''unsupported schema_version'')
      else if sequence e < 1 then Inl (EventValidationError ''sequence must be >= 1'')
      else (case find (\<lambda>(n, v). blank v) (required_fields e) of
        Some (n, v) \<Rightarrow> Inl (EventValidationError (n @ '' must not be empty''))
      | None \<Rightarrow> (case fromisoformat env (replace_z (occurred_at e)) of
        None \<Rightarrow> Inl (EventValidationError ''occurred_at must be ISO-8601'')
      | Some has_tz \<Rightarrow>
          if \<not> has_tz then Inl (EventValidationError ''occurred_at must include a timezone'')
          else bind_result (validate_durable_payload (payload e) ''payload'') (\<lambda>u.
            if previous_hash e \<noteq> [] \<and> \<not> is_hex64 (previous_hash e)
            then Inl (EventValidationError ''previous_hash must be empty or a SHA-256 hex digest'')
            else if \<not> is_hex64 (event_hash e)
            then Inl (EventValidationError ''event_hash must be a SHA-256 hex digest'')
            else bind_result (calculated_hash env e) (\<lambda>h.
              if h \<noteq> event_hash e
              then Inl (EventValidationError ''event_hash does not match event content'')
              else Inr ())))))"

definition to_json :: "py_env \<Rightarrow> event \<Rightarrow> string result" where
  "to_json env e = bind_result (validate_event env e) (\<lambda>u. canonical_json (event_dict e))"

text \<open>\<open>x or default\<close> for an optional text: an empty text counts as missing.\<close>

definition or_else :: "string option \<Rightarrow> string \<Rightarrow> string" where
  "or_else x d = (case x of None \<Rightarrow> d | Some s \<Rightarrow> if s = [] then d else s)"

definition build_event ::
  "py_env \<Rightarrow> string \<Rightarrow> int \<Rightarrow> string \<Rightarrow> string \<Rightarrow> string \<Rightarrow> string \<Rightarrow> string \<Rightarrow> string \<Rightarrow> json \<Rightarrow>
   string \<Rightarrow> string \<Rightarrow> string option \<Rightarrow> event result" where
  "build_event env now_iso seq eid tenant job atype aid etype pl key prev occurred =
     (let provisional = \<lparr>schema_version = 1, sequence = seq, event_id = eid,
            occurred_at = or_else occurred now_iso, ev_tenant_id = tenant, ev_job_id = job,
            aggregate_type = atype, aggregate_id = aid, event_type = etype, payload = pl,
            ev_idempotency_key = key, previous_hash = prev,
            event_hash = replicate 64 (CHR ''0'')\<rparr>
      in bind_result (calculated_hash env provisional) (\<lambda>h.
           let envelope = provisional\<lparr>event_hash := h\<rparr>
           in bind_result (validate_event env envelope) (\<lambda>u. Inr envelope)))"

section \<open>Ledger lines\<close>

text \<open>
  A line of the ledger file, as \<open>json.loads\<close> sees it: blank, not JSON, or a value.
\<close>

datatype raw_line = Blank | Undecodable | Decoded json

definition get_int :: "json \<Rightarrow> string \<Rightarrow> int result" where
  "get_int v k = (case jget v k of Some (JInt i) \<Rightarrow> Inr i | _ \<Rightarrow> Inl (TypeError k))"

definition get_str :: "json \<Rightarrow> string \<Rightarrow> string result" where
  "get_str v k = (case jget v k of Some (JStr s) \<Rightarrow> Inr s | _ \<Rightarrow> Inl (TypeError k))"

definition get_any :: "json \<Rightarrow> string \<Rightarrow> json result" where
  "get_any v k = (case jget v k of Some w \<Rightarrow> Inr w | None \<Rightarrow> Inl (TypeError k))"

definition event_field_names :: "string list" where
  "event_field_names = [''schema_version'', ''sequence'', ''event_id'', ''occurred_at'',
     ''tenant_id'', ''job_id'', ''aggregate_type'', ''aggregate_id'', ''event_type'',
     ''payload'', ''idempotency_key'', ''previous_hash'', ''event_hash'']"

definition has_exact_fields :: "json \<Rightarrow> string list \<Rightarrow> bool" where
  "has_exact_fields v names = (case v of
     JObj kvs \<Rightarrow> list_all (\<lambda>k. k \<in> set names) (map fst kvs) \<and> list_all (\<lambda>n. n \<in> fst ` set kvs) names
   | _ \<Rightarrow> False)"

definition decode_event :: "json \<Rightarrow> event result" where
  "decode_event v =
     (if \<not> has_exact_fields v event_field_names
      then Inl (EventValidationError ''invalid event JSON'')
      else
        bind_result (get_int v ''schema_version'') (\<lambda>ver.
        bind_result (get_int v ''sequence'') (\<lambda>seq.
        bind_result (get_str v ''event_id'') (\<lambda>eid.
        bind_result (get_str v ''occurred_at'') (\<lambda>occ.
        bind_result (get_str v ''tenant_id'') (\<lambda>tenant.
        bind_result (get_str v ''job_id'') (\<lambda>job.
        bind_result (get_str v ''aggregate_type'') (\<lambda>atype.
        bind_result (get_str v ''aggregate_id'') (\<lambda>aid.
        bind_result (get_str v ''event_type'') (\<lambda>etype.
        bind_result (get_any v ''payload'') (\<lambda>pl.
        bind_result (get_str v ''idempotency_key'') (\<lambda>key.
        bind_result (get_str v ''previous_hash'') (\<lambda>prev.
        bind_result (get_str v ''event_hash'') (\<lambda>h.
          Inr \<lparr>schema_version = ver, sequence = seq, event_id = eid, occurred_at = occ,
            ev_tenant_id = tenant, ev_job_id = job, aggregate_type = atype, aggregate_id = aid,
            event_type = etype, payload = pl, ev_idempotency_key = key, previous_hash = prev,
            event_hash = h\<rparr>))))))))))))))"

definition from_json :: "py_env \<Rightarrow> raw_line \<Rightarrow> event result" where
  "from_json env raw = (case raw of
     Decoded v \<Rightarrow> bind_result (decode_event v) (\<lambda>e.
       bind_result (validate_event env e) (\<lambda>u. Inr e))
   | _ \<Rightarrow> Inl (EventValidationError ''invalid event JSON''))"

text \<open>
  The line \<open>to_json\<close> writes: reading it back gives the dictionary with its keys sorted.
\<close>

definition event_line :: "event \<Rightarrow> raw_line" where
  "event_line e = Decoded (sort_keys (event_dict e))"

text \<open>Dictionaries compare without regard to key order: the representative with sorted keys.\<close>

definition norm_event :: "event \<Rightarrow> event" where
  "norm_event e = e\<lparr>payload := sort_keys (payload e)\<rparr>"

section \<open>Facts about sorting keys\<close>

lemma map_insort_key_fst:
  "map (map_prod id h) (insort_key fst x xs) = insort_key fst (map_prod id h x) (map (map_prod id h) xs)"
  by (induction xs) simp_all

lemma map_sort_key_fst:
  "map (map_prod id h) (sort_key fst xs) = sort_key fst (map (map_prod id h) xs)"
  by (induction xs) (simp_all add: map_insort_key_fst [unfolded id_def])

lemma sort_key_idem: "sort_key f (sort_key f xs) = sort_key f xs"
  by (rule sort_key_id_if_sorted) simp

lemma sort_keys_idem [simp]: "sort_keys (sort_keys v) = sort_keys v"
proof (induction v)
  case (JObj kvs)
  have "map_prod id sort_keys (map_prod id sort_keys p) = map_prod id sort_keys p" if "p \<in> set kvs" for p
    using JObj [OF that] by (cases p) simp
  then show ?case by (simp add: map_sort_key_fst sort_key_idem comp_def cong: map_cong)
qed simp_all

lemma is_dict_sort_keys [simp]: "is_dict (sort_keys v) = is_dict v"
  by (cases v) simp_all

lemma all_keys_sort_keys [simp]: "all_keys (sort_keys v) = all_keys v"
proof (induction v)
  case (JList xs)
  then show ?case by simp
next
  case (JObj kvs)
  have "all_keys (sort_keys (snd p)) = all_keys (snd p)" if "p \<in> set kvs" for p
    using JObj [OF that] by (cases p) simp
  then show ?case by (simp add: image_image cong: image_cong)
qed simp_all

lemma canonical_json_sort_keys [simp]: "canonical_json (sort_keys v) = canonical_json v"
  by (simp add: canonical_json_def finite_json_sort_keys)

lemma validate_durable_payload_sort_keys:
  "validate_durable_payload (sort_keys v) p = Inr () \<longleftrightarrow> validate_durable_payload v p = Inr ()"
  by (simp add: validate_durable_payload_iff finite_json_sort_keys)

lemma map_of_sort_key: "distinct (map fst xs) \<Longrightarrow> map_of (sort_key fst xs) = map_of xs"
  by (subst map_of_inject_set) (auto simp: distinct_map)

lemma map_of_map_prod: "map_of (map (map_prod id h) xs) k = map_option h (map_of xs k)"
  by (induction xs) auto

lemma jget_sort_keys:
  assumes "distinct (map fst kvs)"
  shows "jget (sort_keys (JObj kvs)) k = map_option sort_keys (map_of kvs k)"
proof -
  have "map fst (map (map_prod id sort_keys) kvs) = map fst kvs" by simp
  then have "distinct (map fst (map (map_prod id sort_keys) kvs))" using assms by simp
  then show ?thesis by (simp only: sort_keys.simps jget.simps map_of_sort_key map_of_map_prod)
qed

section \<open>Envelopes and their lines\<close>

lemma event_dict_eq:
  "event_dict e = JObj (case unsigned_dict e of JObj kvs \<Rightarrow> kvs @ [(''event_hash'', JStr (event_hash e))])"
  by (simp add: event_dict_def unsigned_dict_def)

lemma event_dict_keys:
  obtains kvs where "event_dict e = JObj kvs" and "map fst kvs = event_field_names"
  by (simp add: event_dict_def unsigned_dict_def event_field_names_def)

lemma distinct_event_field_names: "distinct event_field_names"
  by (simp add: event_field_names_def)

lemma jget_event_dict:
  "jget (sort_keys (event_dict e)) k = map_option sort_keys (jget (event_dict e) k)"
proof -
  obtain kvs where kvs: "event_dict e = JObj kvs" "map fst kvs = event_field_names"
    by (rule event_dict_keys)
  then show ?thesis using jget_sort_keys [of kvs k] distinct_event_field_names by simp
qed

lemma has_exact_fields_event_dict: "has_exact_fields (sort_keys (event_dict e)) event_field_names"
proof -
  obtain kvs where kvs: "event_dict e = JObj kvs" "map fst kvs = event_field_names"
    by (rule event_dict_keys)
  have "fst ` set kvs = set event_field_names" by (metis kvs(2) set_map)
  then have "fst ` set (sort_key fst (map (map_prod id sort_keys) kvs)) = set event_field_names"
    by (simp add: image_image)
  then show ?thesis
    unfolding kvs(1) by (simp add: has_exact_fields_def list_all_iff del: set_sort)
qed

lemma decode_event_dict: "decode_event (sort_keys (event_dict e)) = Inr (norm_event e)"
  unfolding decode_event_def get_int_def get_str_def get_any_def jget_event_dict
  using has_exact_fields_event_dict [of e]
  by (simp add: event_dict_def unsigned_dict_def norm_event_def)

lemma canonical_unsigned_norm:
  "canonical_json (unsigned_dict (norm_event e)) = canonical_json (unsigned_dict e)"
proof -
  have "sort_keys (unsigned_dict (norm_event e)) = sort_keys (unsigned_dict e)"
    by (simp add: unsigned_dict_def norm_event_def del: sort_key_simps)
  then show ?thesis by (metis canonical_json_sort_keys)
qed

lemma calculated_hash_norm: "calculated_hash env (norm_event e) = calculated_hash env e"
  by (simp add: calculated_hash_def canonical_unsigned_norm)

lemma validate_event_iff:
  "validate_event env e = Inr () \<longleftrightarrow>
     schema_version e = 1 \<and> 1 \<le> sequence e \<and> (\<forall>(n, v) \<in> set (required_fields e). \<not> blank v) \<and>
     fromisoformat env (replace_z (occurred_at e)) = Some True \<and>
     validate_durable_payload (payload e) ''payload'' = Inr () \<and>
     (previous_hash e = [] \<or> is_hex64 (previous_hash e)) \<and> is_hex64 (event_hash e) \<and>
     calculated_hash env e = Inr (event_hash e)"
proof (cases "find (\<lambda>(n, v). blank v) (required_fields e)")
  case None
  then have "\<forall>(n, v) \<in> set (required_fields e). \<not> blank v" by (auto simp: find_None_iff)
  then show ?thesis
    by (auto simp: validate_event_def bind_result_Inr_iff None split: option.splits)
next
  case (Some p)
  then show ?thesis
    using find_SomeD [OF Some] by (cases p) (auto simp: validate_event_def)
qed

lemma validate_event_norm: "validate_event env (norm_event e) = Inr () \<longleftrightarrow> validate_event env e = Inr ()"
  unfolding validate_event_iff calculated_hash_norm
  by (simp add: norm_event_def required_fields_def validate_durable_payload_sort_keys)

lemma from_json_event_line:
  "validate_event env e = Inr () \<Longrightarrow> from_json env (event_line e) = Inr (norm_event e)"
  using validate_event_norm [of env e]
  by (simp add: from_json_def event_line_def decode_event_dict)

lemma from_json_InrD: "from_json env raw = Inr e \<Longrightarrow> raw \<noteq> Blank \<and> validate_event env e = Inr ()"
  by (auto simp: from_json_def split: raw_line.splits)

lemma build_event_InrD:
  assumes "build_event env now_iso seq eid tenant job atype aid etype pl key prev occurred = Inr e"
  shows "validate_event env e = Inr ()" and "sequence e = seq" and "event_id e = eid"
    and "ev_tenant_id e = tenant" and "ev_job_id e = job" and "aggregate_type e = atype"
    and "aggregate_id e = aid" and "event_type e = etype" and "payload e = pl"
    and "ev_idempotency_key e = key" and "previous_hash e = prev"
  using assms by (auto simp: build_event_def Let_def)

lemma norm_event_simps [simp]:
  "schema_version (norm_event e) = schema_version e" "sequence (norm_event e) = sequence e"
  "event_id (norm_event e) = event_id e" "occurred_at (norm_event e) = occurred_at e"
  "ev_tenant_id (norm_event e) = ev_tenant_id e" "ev_job_id (norm_event e) = ev_job_id e"
  "aggregate_type (norm_event e) = aggregate_type e" "aggregate_id (norm_event e) = aggregate_id e"
  "event_type (norm_event e) = event_type e" "payload (norm_event e) = sort_keys (payload e)"
  "ev_idempotency_key (norm_event e) = ev_idempotency_key e"
  "previous_hash (norm_event e) = previous_hash e" "event_hash (norm_event e) = event_hash e"
  by (simp_all add: norm_event_def)

subsection \<open>The hash determines the envelope\<close>

text \<open>The text the hash of an envelope is taken of.\<close>

definition hashed_text :: "event \<Rightarrow> string" where
  "hashed_text e = render (sort_keys (unsigned_dict e))"

lemma calculated_hash_valid:
  assumes "validate_event env e = Inr ()"
  shows "event_hash e = sha256 env (hashed_text e)"
proof -
  have "finite_json (payload e)"
    using assms by (simp add: validate_event_iff validate_durable_payload_iff)
  then have "finite_json (unsigned_dict e)" by (simp add: unsigned_dict_def)
  then show ?thesis
    using assms by (simp add: validate_event_iff calculated_hash_def canonical_json_def hashed_text_def)
qed

lemma unsigned_dict_keys:
  obtains kvs where "unsigned_dict e = JObj kvs" and "distinct (map fst kvs)"
  by (simp add: unsigned_dict_def)

lemma jget_unsigned_sorted:
  "jget (sort_keys (unsigned_dict e)) k = map_option sort_keys (jget (unsigned_dict e) k)"
proof -
  obtain kvs where "unsigned_dict e = JObj kvs" "distinct (map fst kvs)"
    by (rule unsigned_dict_keys)
  then show ?thesis using jget_sort_keys [of kvs k] by simp
qed

lemma unsigned_dict_inj:
  assumes "sort_keys (unsigned_dict e) = sort_keys (unsigned_dict f)" and "event_hash e = event_hash f"
  shows "norm_event e = norm_event f"
proof -
  have get: "map_option sort_keys (jget (unsigned_dict e) k) = map_option sort_keys (jget (unsigned_dict f) k)" for k
    using assms(1) by (metis jget_unsigned_sorted)
  show ?thesis
    using get [of "''schema_version''"] get [of "''sequence''"] get [of "''event_id''"]
      get [of "''occurred_at''"] get [of "''tenant_id''"] get [of "''job_id''"]
      get [of "''aggregate_type''"] get [of "''aggregate_id''"] get [of "''event_type''"]
      get [of "''payload''"] get [of "''idempotency_key''"] get [of "''previous_hash''"] assms(2)
    by (simp add: unsigned_dict_def norm_event_def)
qed

lemma wf_json_unsigned [simp]: "wf_json (unsigned_dict e) = wf_json (payload e)"
  by (simp add: unsigned_dict_def)

lemma hashed_text_inj:
  assumes "wf_json (payload e)" and "wf_json (payload f)" and "event_hash e = event_hash f"
    and "hashed_text e = hashed_text f"
  shows "norm_event e = norm_event f"
proof (rule unsigned_dict_inj [OF _ assms(3)])
  show "sort_keys (unsigned_dict e) = sort_keys (unsigned_dict f)"
    using assms by (intro canonical_json_inj)
      (simp_all add: canonical_json_def wf_json_finite hashed_text_def)
qed

end
