(* ===== verification/Ledger.thy ===== *)
theory Ledger
  imports Events Contracts
begin

text \<open>
  The append-only, hash-chained event ledger (\<open>src/evidence/ledger.py\<close>): loading with
  verification, idempotent append, and the verification report.  The file is the list of its
  lines; the file lock makes each operation one step on that list.

  The lemmas show that what loads is a chain (dense sequence numbers, each line linked to the
  hash of the line before, no event id and no idempotency key twice), that append extends a
  loadable ledger by exactly one event and leaves it loadable when the event id is unused, that
  retries have no further effect, and that the head hash determines the whole history.
\<close>

section \<open>Model\<close>

record append_request =
  req_tenant_id :: string
  req_job_id :: string
  req_aggregate_type :: string
  req_aggregate_id :: string
  req_event_type :: string
  req_payload :: json
  req_idempotency_key :: string
  req_event_id :: "string option"
  req_occurred_at :: "string option"
  req_expected_head :: "string option"

text \<open>The timestamp and the \<open>uuid4\<close> an append draws on when the caller gives none.\<close>

record draw =
  now_iso :: string
  new_uuid :: string

definition semantic_fingerprint ::
  "string \<Rightarrow> string \<Rightarrow> string \<Rightarrow> string \<Rightarrow> string \<Rightarrow> json \<Rightarrow> string result" where
  "semantic_fingerprint tenant job atype aid etype pl = canonical_json (JObj [
     (''tenant_id'', JStr tenant), (''job_id'', JStr job), (''aggregate_type'', JStr atype),
     (''aggregate_id'', JStr aid), (''event_type'', JStr etype), (''payload'', pl)])"

definition as_integrity_error :: "py_exn \<Rightarrow> py_exn" where
  "as_integrity_error e = (case e of EventValidationError m \<Rightarrow> LedgerIntegrityError m | _ \<Rightarrow> e)"

fun load_from ::
  "py_env \<Rightarrow> raw_line list \<Rightarrow> event list \<Rightarrow> string \<Rightarrow> string set \<Rightarrow> string set \<Rightarrow> event list result" where
  "load_from env [] events previous ids keys = Inr events"
| "load_from env (raw # rest) events previous ids keys =
     (if raw = Blank then load_from env rest events previous ids keys
      else (case from_json env raw of
        Inl e \<Rightarrow> Inl (as_integrity_error e)
      | Inr ev \<Rightarrow>
          if sequence ev \<noteq> int (length events) + 1
          then Inl (LedgerIntegrityError ''expected sequence'')
          else if previous_hash ev \<noteq> previous
          then Inl (LedgerIntegrityError ''previous_hash does not match ledger head'')
          else if event_id ev \<in> ids
          then Inl (LedgerIntegrityError ''duplicate event_id'')
          else if ev_idempotency_key ev \<in> keys
          then Inl (LedgerIntegrityError ''duplicate idempotency_key'')
          else load_from env rest (events @ [ev]) (event_hash ev)
                 (insert (event_id ev) ids) (insert (ev_idempotency_key ev) keys)))"

definition load_locked :: "py_env \<Rightarrow> raw_line list \<Rightarrow> event list result" where
  "load_locked env lines = load_from env lines [] [] {} {}"

definition head_hash :: "event list \<Rightarrow> string" where
  "head_hash events = (if events = [] then [] else event_hash (last events))"

definition fingerprint_of :: "event \<Rightarrow> string result" where
  "fingerprint_of e = semantic_fingerprint (ev_tenant_id e) (ev_job_id e) (aggregate_type e)
     (aggregate_id e) (event_type e) (payload e)"

definition request_fingerprint :: "append_request \<Rightarrow> string result" where
  "request_fingerprint r = semantic_fingerprint (req_tenant_id r) (req_job_id r)
     (req_aggregate_type r) (req_aggregate_id r) (req_event_type r) (req_payload r)"

definition ledger_append ::
  "py_env \<Rightarrow> draw \<Rightarrow> append_request \<Rightarrow> raw_line list \<Rightarrow> (event \<times> raw_line list) result" where
  "ledger_append env d r lines =
     bind_result (load_locked env lines) (\<lambda>events.
     bind_result (request_fingerprint r) (\<lambda>semantic.
       case row_by ev_idempotency_key (req_idempotency_key r) events of
         Some existing \<Rightarrow>
           bind_result (fingerprint_of existing) (\<lambda>existing_semantic.
             if existing_semantic \<noteq> semantic
             then Inl (LedgerIdempotencyConflict ''idempotency key already has different semantics'')
             else Inr (existing, lines))
       | None \<Rightarrow>
           let head = head_hash events in
           if req_expected_head r \<noteq> None \<and> req_expected_head r \<noteq> Some head
           then Inl (LedgerIntegrityError ''optimistic append failed'')
           else bind_result
             (build_event env (now_iso d) (int (length events) + 1)
                (or_else (req_event_id r) (new_uuid d)) (req_tenant_id r) (req_job_id r)
                (req_aggregate_type r) (req_aggregate_id r) (req_event_type r) (req_payload r)
                (req_idempotency_key r) head (req_occurred_at r)) (\<lambda>envelope.
             bind_result (to_json env envelope) (\<lambda>text.
               Inr (envelope, lines @ [event_line envelope])))))"

record verification_report =
  report_ok :: bool
  report_event_count :: nat
  report_head_hash :: string
  report_error :: string

definition is_integrity_error :: "py_exn \<Rightarrow> bool" where
  "is_integrity_error e = (case e of LedgerIntegrityError m \<Rightarrow> True
     | LedgerIdempotencyConflict m \<Rightarrow> True | _ \<Rightarrow> False)"

text \<open>A ledger that was never written (no file) verifies as empty, as an empty file does.\<close>

definition ledger_verify :: "py_env \<Rightarrow> raw_line list \<Rightarrow> verification_report result" where
  "ledger_verify env lines = (case load_locked env lines of
     Inl e \<Rightarrow> if is_integrity_error e
       then Inr \<lparr>report_ok = False, report_event_count = 0, report_head_hash = [],
                report_error = exn_text e\<rparr>
       else Inl e
   | Inr events \<Rightarrow> Inr \<lparr>report_ok = True, report_event_count = length events,
       report_head_hash = head_hash events, report_error = []\<rparr>)"

section \<open>What loads is a chain\<close>

definition link_ok :: "py_env \<Rightarrow> event list \<Rightarrow> event \<Rightarrow> bool" where
  "link_ok env pre e \<longleftrightarrow> validate_event env e = Inr () \<and> sequence e = int (length pre) + 1 \<and>
     previous_hash e = head_hash pre \<and> event_id e \<notin> event_id ` set pre \<and>
     ev_idempotency_key e \<notin> ev_idempotency_key ` set pre"

fun chain_from :: "py_env \<Rightarrow> event list \<Rightarrow> event list \<Rightarrow> bool" where
  "chain_from env pre [] = True"
| "chain_from env pre (e # es) = (link_ok env pre e \<and> chain_from env (pre @ [e]) es)"

lemma chain_from_append:
  "chain_from env pre (xs @ ys) \<longleftrightarrow> chain_from env pre xs \<and> chain_from env (pre @ xs) ys"
  by (induction xs arbitrary: pre) auto

lemma head_hash_snoc [simp]: "head_hash (es @ [e]) = event_hash e"
  by (simp add: head_hash_def)

lemma head_hash_Nil [simp]: "head_hash [] = []"
  by (simp add: head_hash_def)

lemma load_from_iff:
  "load_from env lines pre (head_hash pre) (event_id ` set pre) (ev_idempotency_key ` set pre) = Inr es
   \<longleftrightarrow> (\<exists>new. es = pre @ new \<and> chain_from env pre new \<and>
        list_all2 (\<lambda>raw e. from_json env raw = Inr e) (filter (\<lambda>raw. raw \<noteq> Blank) lines) new)"
proof (induction lines arbitrary: pre)
  case Nil
  show ?case by auto
next
  case (Cons raw rest)
  show ?case
  proof (cases "raw = Blank")
    case True
    then show ?thesis using Cons.IH [of pre] by simp
  next
    case False
    show ?thesis
    proof (cases "from_json env raw")
      case (Inl x)
      with False show ?thesis by (auto simp: list_all2_Cons1)
    next
      case (Inr e)
      have step: "load_from env (raw # rest) pre (head_hash pre) (event_id ` set pre)
            (ev_idempotency_key ` set pre) = Inr es \<longleftrightarrow> link_ok env pre e \<and>
          load_from env rest (pre @ [e]) (head_hash (pre @ [e])) (event_id ` set (pre @ [e]))
            (ev_idempotency_key ` set (pre @ [e])) = Inr es"
        using False Inr from_json_InrD [OF Inr] by (simp add: link_ok_def)
      show ?thesis
        unfolding step Cons.IH using False Inr by (auto simp: list_all2_Cons1)
    qed
  qed
qed

lemma load_locked_iff:
  "load_locked env lines = Inr es \<longleftrightarrow> chain_from env [] es \<and>
     list_all2 (\<lambda>raw e. from_json env raw = Inr e) (filter (\<lambda>raw. raw \<noteq> Blank) lines) es"
  using load_from_iff [of env lines "[]" es] by (simp add: load_locked_def)

lemma chain_member_valid: "chain_from env pre es \<Longrightarrow> e \<in> set es \<Longrightarrow> validate_event env e = Inr ()"
  by (induction es arbitrary: pre) (auto simp: link_ok_def)

lemma chain_distinct:
  assumes "\<And>pre e. link_ok env pre e \<Longrightarrow> g e \<notin> g ` set pre"
  shows "chain_from env pre es \<Longrightarrow> distinct (map g es) \<and> (\<forall>e \<in> set es. g e \<notin> g ` set pre)"
proof (induction es arbitrary: pre)
  case Nil
  show ?case by simp
next
  case (Cons e es)
  then have "link_ok env pre e" "chain_from env (pre @ [e]) es" by simp_all
  with assms [of pre e] Cons.IH [of "pre @ [e]"] show ?case by (auto simp: image_iff)
qed

lemma chain_distinct_keys: "chain_from env [] es \<Longrightarrow> distinct (map ev_idempotency_key es)"
  using chain_distinct [of env ev_idempotency_key "[]" es] by (simp add: link_ok_def)

lemma chain_distinct_ids: "chain_from env [] es \<Longrightarrow> distinct (map event_id es)"
  using chain_distinct [of env event_id "[]" es] by (simp add: link_ok_def)

lemma chain_nth:
  assumes "chain_from env [] es" and "i < length es"
  shows "link_ok env (take i es) (es ! i)"
proof -
  have "es = take i es @ es ! i # drop (Suc i) es" using assms(2) by (rule id_take_nth_drop)
  then have "chain_from env [] (take i es @ es ! i # drop (Suc i) es)" using assms(1) by simp
  then show ?thesis by (simp add: chain_from_append)
qed

lemma chain_sequence: "chain_from env [] es \<Longrightarrow> i < length es \<Longrightarrow> sequence (es ! i) = int i + 1"
  using chain_nth [of env es i] by (simp add: link_ok_def)

lemma chain_previous:
  "chain_from env [] es \<Longrightarrow> i < length es \<Longrightarrow>
   previous_hash (es ! i) = (if i = 0 then [] else event_hash (es ! (i - 1)))"
  using chain_nth [of env es i] by (auto simp: link_ok_def head_hash_def last_conv_nth)

section \<open>Append\<close>

lemma fingerprint_norm [simp]: "fingerprint_of (norm_event e) = fingerprint_of e"
proof -
  have "sort_keys (JObj [(''tenant_id'', JStr t), (''job_id'', JStr j), (''aggregate_type'', JStr a),
      (''aggregate_id'', JStr b), (''event_type'', JStr c), (''payload'', sort_keys p)])
    = sort_keys (JObj [(''tenant_id'', JStr t), (''job_id'', JStr j), (''aggregate_type'', JStr a),
      (''aggregate_id'', JStr b), (''event_type'', JStr c), (''payload'', p)])" for t j a b c p
    by (simp del: sort_key_simps)
  then show ?thesis
    unfolding fingerprint_of_def semantic_fingerprint_def norm_event_simps
    by (metis canonical_json_sort_keys)
qed

lemma ledger_append_cases [consumes 1, case_names replay new]:
  assumes "ledger_append env d r lines = Inr (e, lines')"
  obtains (replay) es semantic where "load_locked env lines = Inr es"
      and "row_by ev_idempotency_key (req_idempotency_key r) es = Some e" and "lines' = lines"
      and "fingerprint_of e = Inr semantic" and "request_fingerprint r = Inr semantic"
    | (new) es where "load_locked env lines = Inr es"
      and "row_by ev_idempotency_key (req_idempotency_key r) es = None"
      and "lines' = lines @ [event_line e]" and "validate_event env e = Inr ()"
      and "sequence e = int (length es) + 1" and "previous_hash e = head_hash es"
      and "event_id e = or_else (req_event_id r) (new_uuid d)"
      and "ev_idempotency_key e = req_idempotency_key r"
      and "fingerprint_of e = request_fingerprint r"
      and "req_expected_head r = None \<or> req_expected_head r = Some (head_hash es)"
proof -
  obtain es semantic where L: "load_locked env lines = Inr es" "request_fingerprint r = Inr semantic"
    using assms by (auto simp: ledger_append_def)
  show thesis
  proof (cases "row_by ev_idempotency_key (req_idempotency_key r) es")
    case (Some x)
    with assms L show ?thesis by (intro replay) (auto simp: ledger_append_def)
  next
    case None
    obtain b where b: "build_event env (now_iso d) (int (length es) + 1)
                (or_else (req_event_id r) (new_uuid d)) (req_tenant_id r) (req_job_id r)
                (req_aggregate_type r) (req_aggregate_id r) (req_event_type r) (req_payload r)
                (req_idempotency_key r) (head_hash es) (req_occurred_at r) = Inr b"
      and "b = e" "lines' = lines @ [event_line e]"
      and "req_expected_head r = None \<or> req_expected_head r = Some (head_hash es)"
      using assms L None by (auto simp: ledger_append_def Let_def split: if_splits)
    then show ?thesis
      using L None build_event_InrD [OF b]
      by (intro new) (auto simp: fingerprint_of_def request_fingerprint_def)
  qed
qed

text \<open>Appending a fresh event to a loadable ledger: it loads again, one event longer.\<close>

lemma load_append_line:
  assumes "load_locked env lines = Inr es" and "link_ok env es e"
  shows "load_locked env (lines @ [event_line e]) = Inr (es @ [norm_event e])"
proof -
  have e: "validate_event env e = Inr ()" using assms(2) by (simp add: link_ok_def)
  have "link_ok env es (norm_event e)"
    using assms(2) validate_event_norm [of env e] by (simp add: link_ok_def)
  moreover have "event_line e \<noteq> Blank" by (simp add: event_line_def)
  ultimately show ?thesis
    using assms(1) from_json_event_line [OF e]
    by (simp add: load_locked_iff chain_from_append list_all2_appendI)
qed

lemma new_link_ok:
  assumes "row_by ev_idempotency_key (req_idempotency_key r) es = None"
    and "ev_idempotency_key e = req_idempotency_key r" and "event_id e \<notin> event_id ` set es"
    and "validate_event env e = Inr ()" and "sequence e = int (length es) + 1"
    and "previous_hash e = head_hash es"
  shows "link_ok env es e"
  using assms by (simp add: link_ok_def row_by_None_iff)

lemma load_from_append:
  "load_from env (xs @ ys) pre (head_hash pre) (event_id ` set pre) (ev_idempotency_key ` set pre) =
   bind_result (load_from env xs pre (head_hash pre) (event_id ` set pre) (ev_idempotency_key ` set pre))
     (\<lambda>es. load_from env ys es (head_hash es) (event_id ` set es) (ev_idempotency_key ` set es))"
proof (induction xs arbitrary: pre)
  case Nil
  show ?case by simp
next
  case (Cons raw xs)
  show ?case
  proof (cases "from_json env raw")
    case (Inl e)
    then show ?thesis using Cons.IH [of pre] by simp
  next
    case (Inr e)
    then show ?thesis using Cons.IH [of pre] Cons.IH [of "pre @ [e]"] by simp
  qed
qed

lemma load_locked_append:
  "load_locked env (xs @ ys) = bind_result (load_locked env xs)
     (\<lambda>es. load_from env ys es (head_hash es) (event_id ` set es) (ev_idempotency_key ` set es))"
  using load_from_append [of env xs ys "[]"] by (simp add: load_locked_def)

section \<open>The ledger as an idempotent store\<close>

definition ledger_exec ::
  "py_env \<Rightarrow> draw \<times> append_request \<Rightarrow> raw_line list \<Rightarrow> (event \<times> raw_line list) result" where
  "ledger_exec env q lines = ledger_append env (fst q) (snd q) lines"

definition ledger_stored :: "py_env \<Rightarrow> raw_line list \<Rightarrow> string \<Rightarrow> string result option" where
  "ledger_stored env lines k = (case load_locked env lines of
     Inl e \<Rightarrow> None | Inr es \<Rightarrow> map_option fingerprint_of (row_by ev_idempotency_key k es))"

definition ledger_ok :: "py_env \<Rightarrow> raw_line list \<Rightarrow> bool" where
  "ledger_ok env lines = (case load_locked env lines of Inl e \<Rightarrow> False | Inr es \<Rightarrow> True)"

text \<open>The event id an append would use is not in the ledger.\<close>

definition id_unused :: "py_env \<Rightarrow> draw \<times> append_request \<Rightarrow> raw_line list \<Rightarrow> bool" where
  "id_unused env q lines = (case load_locked env lines of
     Inl e \<Rightarrow> True
   | Inr es \<Rightarrow> or_else (req_event_id (snd q)) (new_uuid (fst q)) \<notin> event_id ` set es)"

lemma append_loads:
  assumes "ledger_append env d r lines = Inr (e, lines')" and "load_locked env lines = Inr es"
    and "id_unused env (d, r) lines"
  shows "(lines' = lines \<and> e \<in> set es) \<or>
     (lines' = lines @ [event_line e] \<and> load_locked env lines' = Inr (es @ [norm_event e]) \<and>
      ev_idempotency_key e = req_idempotency_key r \<and>
      row_by ev_idempotency_key (req_idempotency_key r) es = None \<and>
      fingerprint_of e = request_fingerprint r)"
  using assms(1)
proof (cases rule: ledger_append_cases)
  case (replay es' semantic)
  then show ?thesis using assms(2) row_by_SomeD by fastforce
next
  case (new es')
  then have "es' = es" using assms(2) by simp
  with new assms(3) have "link_ok env es e" by (intro new_link_ok) (auto simp: id_unused_def)
  with new \<open>es' = es\<close> show ?thesis using load_append_line [OF assms(2)] by simp
qed

interpretation ledger_store: idempotent_store "ledger_exec env"
  "\<lambda>q. req_idempotency_key (snd q)" "\<lambda>q. request_fingerprint (snd q)" "ledger_stored env"
  "ledger_ok env" "id_unused env" for env
proof
  fix s and q :: "draw \<times> append_request" and x s'
  assume A: "ledger_ok env s" "id_unused env q s" "ledger_exec env q s = Inr (x, s')"
  then obtain es where es: "load_locked env s = Inr es" by (auto simp: ledger_ok_def split: sum.splits)
  have ap: "ledger_append env (fst q) (snd q) s = Inr (x, s')" "id_unused env (fst q, snd q) s"
    using A by (simp_all add: ledger_exec_def)
  note cases = append_loads [OF ap(1) es ap(2)]
  show "ledger_ok env s'" using cases es by (auto simp: ledger_ok_def)
  assume "ledger_stored env s (req_idempotency_key (snd q)) = None"
  then have none: "row_by ev_idempotency_key (req_idempotency_key (snd q)) es = None"
    by (simp add: ledger_stored_def es)
  have "\<not> (s' = s \<and> x \<in> set es)"
    using ap(1) none es by (cases rule: ledger_append_cases) (auto simp: event_line_def)
  with cases have new: "load_locked env s' = Inr (es @ [norm_event x])"
      "ev_idempotency_key x = req_idempotency_key (snd q)"
      "fingerprint_of x = request_fingerprint (snd q)" by auto
  show "ledger_stored env s' = (ledger_stored env s)
      (req_idempotency_key (snd q) \<mapsto> request_fingerprint (snd q))"
    using new none es
    by (auto simp: ledger_stored_def fun_eq_iff row_by_append row_by_Cons split: option.splits)
next
  fix s and q :: "draw \<times> append_request" and x s'
  assume "ledger_ok env s" "ledger_exec env q s = Inr (x, s')"
    and st: "ledger_stored env s (req_idempotency_key (snd q)) = Some (request_fingerprint (snd q))"
  then have ap: "ledger_append env (fst q) (snd q) s = Inr (x, s')" by (simp add: ledger_exec_def)
  then show "ledger_stored env s' = ledger_stored env s"
    using st by (cases rule: ledger_append_cases) (auto simp: ledger_stored_def)
next
  fix s and q :: "draw \<times> append_request" and m
  assume st: "ledger_stored env s (req_idempotency_key (snd q)) = Some m"
    and neq: "m \<noteq> request_fingerprint (snd q)"
  show "\<exists>e. ledger_exec env q s = Inl e"
  proof (cases "ledger_exec env q s")
    case (Inr y)
    obtain x s' where y: "y = (x, s')" by (cases y)
    with Inr have "ledger_append env (fst q) (snd q) s = Inr (x, s')" by (simp add: ledger_exec_def)
    then show ?thesis
      using st neq by (cases rule: ledger_append_cases) (auto simp: ledger_stored_def)
  qed simp
qed

section \<open>The head hash determines the history\<close>

lemma chain_head_determines:
  assumes "\<And>e f. e \<in> set es \<Longrightarrow> f \<in> set fs \<Longrightarrow>
      sha256 env (hashed_text e) = sha256 env (hashed_text f) \<Longrightarrow> hashed_text e = hashed_text f"
    and "chain_from env [] es" and "chain_from env [] fs" and "head_hash es = head_hash fs"
    and "\<forall>e \<in> set es \<union> set fs. wf_json (payload e)"
  shows "map norm_event es = map norm_event fs"
  using assms
proof (induction es arbitrary: fs rule: rev_induct)
  case Nil
  show ?case
  proof (cases fs rule: rev_cases)
    case (snoc fs' f)
    then have "event_hash f \<noteq> []"
      using Nil.prems(3) is_hex64_nonempty by (auto simp: chain_from_append link_ok_def validate_event_iff)
    with Nil.prems(4) snoc show ?thesis by simp
  qed simp
next
  case (snoc e es)
  have e: "link_ok env es e" "chain_from env [] es"
    using snoc.prems(2) by (simp_all add: chain_from_append)
  then have he: "event_hash e \<noteq> []" using is_hex64_nonempty by (auto simp: link_ok_def validate_event_iff)
  show ?case
  proof (cases fs rule: rev_cases)
    case Nil
    with snoc.prems(4) he show ?thesis by simp
  next
    case fs: (snoc fs' f)
    have f: "link_ok env fs' f" "chain_from env [] fs'"
      using snoc.prems(3) fs by (simp_all add: chain_from_append)
    have eq: "event_hash e = event_hash f" using snoc.prems(4) fs by simp
    have "sha256 env (hashed_text e) = sha256 env (hashed_text f)"
      using e(1) f(1) eq calculated_hash_valid [of env e] calculated_hash_valid [of env f]
      by (simp add: link_ok_def)
    then have "hashed_text e = hashed_text f" using snoc.prems(1) [of e f] fs by simp
    then have ef: "norm_event e = norm_event f"
      using snoc.prems(5) eq fs by (intro hashed_text_inj) auto
    then have "head_hash es = head_hash fs'"
      using e(1) f(1) norm_event_simps(12) by (metis link_ok_def)
    moreover have "hashed_text a = hashed_text b" if "a \<in> set es" "b \<in> set fs'"
        "sha256 env (hashed_text a) = sha256 env (hashed_text b)" for a b
      using snoc.prems(1) [of a b] that fs by simp
    moreover have "\<forall>e \<in> set es \<union> set fs'. wf_json (payload e)" using snoc.prems(5) fs by auto
    ultimately have "map norm_event es = map norm_event fs'"
      using e(2) f(2) by (intro snoc.IH) auto
    with ef fs show ?thesis by simp
  qed
qed

end
