(* ===== verification/Graph.thy ===== *)
theory Graph
  imports Events Contracts
begin

text \<open>
  The Claim-Evidence Decision Graph (\<open>src/evidence/graph.py\<close>): the deterministic projection of
  ledger events into claims, queries, passages and typed evidence edges, with the guards on
  every transition of a claim.

  The invariant says that the graph is closed under its own references, that every edge comes
  from a query of the right intent for the same claim, and that every decided claim carries the
  evidence its state asserts.  Every event keeps it, accepted or refused, and claims only move
  along the transition table.
\<close>

section \<open>Model\<close>

datatype claim_state = PROPOSED | SUPPORTED | CHALLENGED | SURVIVED | NARROWED | REFUTED | UNRESOLVED

datatype evidence_relation = SUPPORTS | CONTRADICTS | BOUNDS | PRECEDENT_FOR | CHECKED

definition claim_states :: "claim_state list" where
  "claim_states = [PROPOSED, SUPPORTED, CHALLENGED, SURVIVED, NARROWED, REFUTED, UNRESOLVED]"

fun state_value :: "claim_state \<Rightarrow> string" where
  "state_value PROPOSED = ''PROPOSED''"
| "state_value SUPPORTED = ''SUPPORTED''"
| "state_value CHALLENGED = ''CHALLENGED''"
| "state_value SURVIVED = ''SURVIVED''"
| "state_value NARROWED = ''NARROWED''"
| "state_value REFUTED = ''REFUTED''"
| "state_value UNRESOLVED = ''UNRESOLVED''"

fun relation_value :: "evidence_relation \<Rightarrow> string" where
  "relation_value SUPPORTS = ''SUPPORTS''"
| "relation_value CONTRADICTS = ''CONTRADICTS''"
| "relation_value BOUNDS = ''BOUNDS''"
| "relation_value PRECEDENT_FOR = ''PRECEDENT_FOR''"
| "relation_value CHECKED = ''CHECKED''"

text \<open>\<open>ClaimState(s)\<close> and \<open>EvidenceRelation(s)\<close>: \<open>None\<close> is the \<open>ValueError\<close>.\<close>

definition parse_state :: "string \<Rightarrow> claim_state option" where
  "parse_state s = find (\<lambda>c. state_value c = s) claim_states"

definition parse_relation :: "string \<Rightarrow> evidence_relation option" where
  "parse_relation s = find (\<lambda>r. relation_value r = s)
     [SUPPORTS, CONTRADICTS, BOUNDS, PRECEDENT_FOR, CHECKED]"

definition TERMINAL_STATES :: "claim_state list" where
  "TERMINAL_STATES = [SURVIVED, NARROWED, REFUTED, UNRESOLVED]"

definition ALLOWED_TRANSITIONS :: "claim_state \<Rightarrow> claim_state list" where
  "ALLOWED_TRANSITIONS s = (case s of
     PROPOSED \<Rightarrow> [SUPPORTED, CHALLENGED, UNRESOLVED]
   | SUPPORTED \<Rightarrow> [CHALLENGED, UNRESOLVED]
   | CHALLENGED \<Rightarrow> TERMINAL_STATES
   | _ \<Rightarrow> [])"

record passage =
  pa_passage_id :: string
  pa_doc_id :: string
  pa_query_id :: string
  pa_content_sha256 :: string
  pa_offset :: "int option"
  pa_page_no :: "int option"

record graph_query =
  qu_query_id :: string
  qu_claim_id :: string
  qu_text :: string
  qu_intent :: string
  qu_n_hits :: int

record claim =
  cl_claim_id :: string
  cl_text :: string
  cl_scope :: string
  cl_state :: claim_state
  cl_boundary :: string
  cl_reason :: string
  cl_version :: nat

record evidence_edge =
  ed_claim_id :: string
  ed_passage_id :: string
  ed_relation :: evidence_relation

record decision_graph =
  claims :: "(string \<times> claim) list"
  queries :: "(string \<times> graph_query) list"
  passages :: "(string \<times> passage) list"
  edges :: "evidence_edge list"
  applied_event_ids :: "string set"

definition empty_graph :: decision_graph where
  "empty_graph = \<lparr>claims = [], queries = [], passages = [], edges = [], applied_event_ids = {}\<rparr>"

text \<open>\<open>str(payload[k])\<close>, with the default of \<open>str(payload.get(k, d))\<close>.\<close>

definition payload_str :: "json \<Rightarrow> string \<Rightarrow> string \<Rightarrow> string" where
  "payload_str p k d = (case jget p k of None \<Rightarrow> d | Some v \<Rightarrow> py_str v)"

definition field_missing :: "json \<Rightarrow> string \<Rightarrow> bool" where
  "field_missing p k \<longleftrightarrow> (case jget p k of None \<Rightarrow> True | Some v \<Rightarrow> v = JNull \<or> v = JStr [])"

definition required :: "json \<Rightarrow> string list \<Rightarrow> decision_graph result \<Rightarrow> decision_graph result" where
  "required p ks k = (let missing = filter (field_missing p) ks in
     if missing \<noteq> [] then Inl (GraphInvariantError (''missing payload fields: '' @ join '', '' missing))
     else k)"

definition claim_proposed :: "json \<Rightarrow> decision_graph \<Rightarrow> decision_graph result" where
  "claim_proposed p g = required p [''claim_id'', ''text'', ''scope'']
     (let cid = payload_str p ''claim_id'' [] in
      if map_of (claims g) cid \<noteq> None then Inl (GraphInvariantError ''claim already exists'')
      else Inr (g\<lparr>claims := AList.update cid
        \<lparr>cl_claim_id = cid, cl_text = payload_str p ''text'' [], cl_scope = payload_str p ''scope'' [],
         cl_state = PROPOSED, cl_boundary = [], cl_reason = [], cl_version = 1\<rparr> (claims g)\<rparr>))"

definition query_executed :: "json \<Rightarrow> decision_graph \<Rightarrow> decision_graph result" where
  "query_executed p g = required p [''query_id'', ''claim_id'', ''text'', ''intent'']
     (let qid = payload_str p ''query_id'' []; cid = payload_str p ''claim_id'' [];
          intent = payload_str p ''intent'' [] in
      if map_of (claims g) cid = None then Inl (GraphInvariantError ''query references unknown claim'')
      else if map_of (queries g) qid \<noteq> None then Inl (GraphInvariantError ''query already exists'')
      else if intent \<notin> set [''support'', ''counterevidence'']
      then Inl (GraphInvariantError ''query intent must be support or counterevidence'')
      else (case as_int (case jget p ''n_hits'' of None \<Rightarrow> JInt 0 | Some v \<Rightarrow> v) of
        None \<Rightarrow> Inl (GraphInvariantError ''n_hits must be a non-negative integer'')
      | Some n \<Rightarrow>
          if n < 0 then Inl (GraphInvariantError ''n_hits must be a non-negative integer'')
          else Inr (g\<lparr>queries := AList.update qid
            \<lparr>qu_query_id = qid, qu_claim_id = cid, qu_text = payload_str p ''text'' [],
             qu_intent = intent, qu_n_hits = n\<rparr> (queries g)\<rparr>)))"

text \<open>
  An optional non-negative integer of the payload: missing or null is \<open>Inr None\<close>.
\<close>

definition optional_nat :: "json \<Rightarrow> string \<Rightarrow> int option result" where
  "optional_nat p k = (case jget p k of
     None \<Rightarrow> Inr None
   | Some JNull \<Rightarrow> Inr None
   | Some v \<Rightarrow> (case as_int v of
       None \<Rightarrow> Inl (GraphInvariantError (k @ '' must be a non-negative integer''))
     | Some n \<Rightarrow> if n < 0 then Inl (GraphInvariantError (k @ '' must be a non-negative integer''))
                 else Inr (Some n)))"

definition is_absent :: "json \<Rightarrow> string \<Rightarrow> bool" where
  "is_absent p k \<longleftrightarrow> jget p k = None \<or> jget p k = Some JNull"

definition passage_observed :: "json \<Rightarrow> decision_graph \<Rightarrow> decision_graph result" where
  "passage_observed p g =
     required p [''passage_id'', ''doc_id'', ''query_id'', ''content_sha256'']
     (let pid = payload_str p ''passage_id'' []; qid = payload_str p ''query_id'' [] in
      if map_of (queries g) qid = None
      then Inl (GraphInvariantError ''passage references unknown query'')
      else if map_of (passages g) pid \<noteq> None then Inl (GraphInvariantError ''passage already exists'')
      else if is_absent p ''offset'' \<and> is_absent p ''page_no''
      then Inl (GraphInvariantError ''passage requires offset or page_no'')
      else bind_result (optional_nat p ''offset'') (\<lambda>offset.
           bind_result (optional_nat p ''page_no'') (\<lambda>page_no.
             let content_hash = payload_str p ''content_sha256'' [] in
             if \<not> is_hex64 content_hash
             then Inl (GraphInvariantError ''content_sha256 must be a SHA-256 hex digest'')
             else Inr (g\<lparr>passages := AList.update pid
               \<lparr>pa_passage_id = pid, pa_doc_id = payload_str p ''doc_id'' [], pa_query_id = qid,
                pa_content_sha256 = content_hash, pa_offset = offset, pa_page_no = page_no\<rparr>
               (passages g)\<rparr>))))"

definition evidence_linked :: "json \<Rightarrow> decision_graph \<Rightarrow> decision_graph result" where
  "evidence_linked p g = required p [''claim_id'', ''passage_id'', ''relation'']
     (let cid = payload_str p ''claim_id'' []; pid = payload_str p ''passage_id'' [] in
      if map_of (claims g) cid = None then Inl (GraphInvariantError ''edge references unknown claim'')
      else (case map_of (passages g) pid of
        None \<Rightarrow> Inl (GraphInvariantError ''edge references unknown passage'')
      | Some psg \<Rightarrow> (case map_of (queries g) (pa_query_id psg) of
        None \<Rightarrow> Inl (KeyError (pa_query_id psg))
      | Some q \<Rightarrow>
          if qu_claim_id q \<noteq> cid
          then Inl (GraphInvariantError ''passage query belongs to a different claim'')
          else (case parse_relation (payload_str p ''relation'' []) of
            None \<Rightarrow> Inl (GraphInvariantError ''unknown evidence relation'')
          | Some relation \<Rightarrow>
              let edge = \<lparr>ed_claim_id = cid, ed_passage_id = pid, ed_relation = relation\<rparr> in
              if relation = SUPPORTS \<and> qu_intent q \<noteq> ''support''
              then Inl (GraphInvariantError ''SUPPORTS evidence must originate from a support query'')
              else if relation \<in> set [CONTRADICTS, BOUNDS, PRECEDENT_FOR]
                      \<and> qu_intent q \<noteq> ''counterevidence''
              then Inl (GraphInvariantError ''evidence must originate from a counterevidence query'')
              else if edge \<in> set (edges g) then Inl (GraphInvariantError ''duplicate evidence edge'')
              else Inr (g\<lparr>edges := edges g @ [edge]\<rparr>)))))"

definition relations_of :: "decision_graph \<Rightarrow> string \<Rightarrow> evidence_relation set" where
  "relations_of g cid = set (map ed_relation (filter (\<lambda>e. ed_claim_id e = cid) (edges g)))"

definition has_counter_query :: "decision_graph \<Rightarrow> string \<Rightarrow> bool" where
  "has_counter_query g cid \<longleftrightarrow>
     list_ex (\<lambda>(k, q). qu_claim_id q = cid \<and> qu_intent q = ''counterevidence'') (queries g)"

definition transition_guard :: "decision_graph \<Rightarrow> string \<Rightarrow> claim_state \<Rightarrow> json \<Rightarrow> string option" where
  "transition_guard g cid target p =
     (let relations = relations_of g cid in
      if target = SUPPORTED \<and> SUPPORTS \<notin> relations
      then Some ''SUPPORTED requires at least one SUPPORTS edge''
      else if target = CHALLENGED \<and> \<not> has_counter_query g cid
      then Some ''CHALLENGED requires an executed counterevidence query''
      else if target = SURVIVED \<and> (SUPPORTS \<notin> relations \<or> \<not> has_counter_query g cid)
      then Some ''SURVIVED requires support and a counterevidence query''
      else if target = SURVIVED \<and> blank (payload_str p ''boundary'' [])
      then Some ''SURVIVED requires a non-empty boundary''
      else if target = NARROWED \<and> BOUNDS \<notin> relations
      then Some ''NARROWED requires a BOUNDS edge''
      else if target = NARROWED \<and> blank (payload_str p ''boundary'' [])
      then Some ''NARROWED requires a non-empty boundary''
      else if target = REFUTED \<and> CONTRADICTS \<notin> relations \<and> PRECEDENT_FOR \<notin> relations
      then Some ''REFUTED requires CONTRADICTS or PRECEDENT_FOR evidence''
      else None)"

definition claim_transitioned :: "json \<Rightarrow> decision_graph \<Rightarrow> decision_graph result" where
  "claim_transitioned p g = required p [''claim_id'', ''to_state'', ''reason'']
     (let cid = payload_str p ''claim_id'' [] in
      (case map_of (claims g) cid of
        None \<Rightarrow> Inl (GraphInvariantError ''transition references unknown claim'')
      | Some c \<Rightarrow> (case parse_state (payload_str p ''to_state'' []) of
        None \<Rightarrow> Inl (GraphInvariantError ''unknown claim state'')
      | Some target \<Rightarrow>
          if target \<notin> set (ALLOWED_TRANSITIONS (cl_state c))
          then Inl (GraphInvariantError ''illegal transition'')
          else (case transition_guard g cid target p of
            Some m \<Rightarrow> Inl (GraphInvariantError m)
          | None \<Rightarrow> Inr (g\<lparr>claims := AList.update cid
              (c\<lparr>cl_state := target, cl_reason := payload_str p ''reason'' [],
                 cl_boundary := payload_str p ''boundary'' (cl_boundary c),
                 cl_version := cl_version c + 1\<rparr>) (claims g)\<rparr>)))))"

definition handle_payload :: "string \<Rightarrow> json \<Rightarrow> decision_graph \<Rightarrow> decision_graph result" where
  "handle_payload etype p g =
     (if etype = ''claim.proposed'' then claim_proposed p g
      else if etype = ''query.executed'' then query_executed p g
      else if etype = ''passage.observed'' then passage_observed p g
      else if etype = ''evidence.linked'' then evidence_linked p g
      else if etype = ''claim.transitioned'' then claim_transitioned p g
      else Inr g)"

definition apply_event :: "event \<Rightarrow> decision_graph \<Rightarrow> decision_graph result" where
  "apply_event ev g =
     (if event_id ev \<in> applied_event_ids g then Inr g
      else bind_result (handle_payload (event_type ev) (payload ev) g) (\<lambda>g'.
        Inr (g'\<lparr>applied_event_ids := insert (event_id ev) (applied_event_ids g')\<rparr>)))"

fun apply_events :: "event list \<Rightarrow> decision_graph \<Rightarrow> decision_graph result" where
  "apply_events [] g = Inr g"
| "apply_events (ev # evs) g = bind_result (apply_event ev g) (apply_events evs)"

definition project :: "event list \<Rightarrow> decision_graph result" where
  "project evs = apply_events evs empty_graph"

definition publication_issues :: "string \<times> claim \<Rightarrow> string list" where
  "publication_issues kc = (let c = snd kc in
     (if cl_state c \<notin> set TERMINAL_STATES
      then [cl_claim_id c @ '': non-terminal state '' @ state_value (cl_state c)] else []) @
     (if cl_state c \<in> set [SURVIVED, NARROWED] \<and> cl_boundary c = []
      then [cl_claim_id c @ '': surviving decision has no boundary''] else []))"

definition validate_for_publication :: "decision_graph \<Rightarrow> string list" where
  "validate_for_publication g =
     (if claims g = [] then [''graph contains no claims''] else []) @
     concat (map publication_issues (claims g))"

definition graph_metrics :: "decision_graph \<Rightarrow> (string \<times> nat) list" where
  "graph_metrics g = [
     (''claims'', length (claims g)), (''queries'', length (queries g)),
     (''passages'', length (passages g)), (''evidence_edges'', length (edges g))] @
     map (\<lambda>s. (''claims_'' @ map lower_char (state_value s),
               length (filter (\<lambda>(k, c). cl_state c = s) (claims g)))) claim_states"

text \<open>A graph as a machine: a refused event leaves the graph as it was.\<close>

definition graph_step :: "event \<Rightarrow> decision_graph \<Rightarrow> unit result \<times> decision_graph" where
  "graph_step ev = transact (\<lambda>g. bind_result (apply_event ev g) (\<lambda>g'. Inr ((), g')))"

section \<open>The moves of a graph\<close>

text \<open>What an accepted event does, one rule per event type with the guards that matter.\<close>

inductive graph_move :: "decision_graph \<Rightarrow> decision_graph \<Rightarrow> bool" where
  propose: "map_of (claims g) (cl_claim_id c) = None \<Longrightarrow> cl_state c = PROPOSED \<Longrightarrow>
    graph_move g (g\<lparr>claims := claims g @ [(cl_claim_id c, c)]\<rparr>)"
| run_query: "map_of (queries g) (qu_query_id q) = None \<Longrightarrow> map_of (claims g) (qu_claim_id q) = Some c \<Longrightarrow>
    qu_intent q = ''support'' \<or> qu_intent q = ''counterevidence'' \<Longrightarrow> 0 \<le> qu_n_hits q \<Longrightarrow>
    graph_move g (g\<lparr>queries := queries g @ [(qu_query_id q, q)]\<rparr>)"
| observe: "map_of (passages g) (pa_passage_id x) = None \<Longrightarrow> map_of (queries g) (pa_query_id x) \<noteq> None \<Longrightarrow>
    pa_offset x \<noteq> None \<or> pa_page_no x \<noteq> None \<Longrightarrow> is_hex64 (pa_content_sha256 x) \<Longrightarrow>
    graph_move g (g\<lparr>passages := passages g @ [(pa_passage_id x, x)]\<rparr>)"
| link: "map_of (claims g) (ed_claim_id e) = Some c \<Longrightarrow> map_of (passages g) (ed_passage_id e) = Some x \<Longrightarrow>
    map_of (queries g) (pa_query_id x) = Some q \<Longrightarrow> qu_claim_id q = ed_claim_id e \<Longrightarrow>
    (ed_relation e = SUPPORTS \<longrightarrow> qu_intent q = ''support'') \<Longrightarrow>
    (ed_relation e \<in> {CONTRADICTS, BOUNDS, PRECEDENT_FOR} \<longrightarrow> qu_intent q = ''counterevidence'') \<Longrightarrow>
    e \<notin> set (edges g) \<Longrightarrow> graph_move g (g\<lparr>edges := edges g @ [e]\<rparr>)"
| decide: "map_of (claims g) cid = Some c \<Longrightarrow> t \<in> set (ALLOWED_TRANSITIONS (cl_state c)) \<Longrightarrow>
    transition_guard g cid t p = None \<Longrightarrow>
    graph_move g (g\<lparr>claims := AList.update cid
      (c\<lparr>cl_state := t, cl_reason := r, cl_boundary := payload_str p ''boundary'' (cl_boundary c),
         cl_version := Suc (cl_version c)\<rparr>) (claims g)\<rparr>)"

inductive_cases graph_moveE: "graph_move g h"

lemma update_absent: "map_of al k = None \<Longrightarrow> AList.update k v al = al @ [(k, v)]"
  by (induction al) (auto split: if_splits)

lemma required_Inr [simp]: "required p ks k = Inr g \<longleftrightarrow> filter (field_missing p) ks = [] \<and> k = Inr g"
  by (simp add: required_def Let_def)

lemma claim_proposed_move: "claim_proposed p g = Inr h \<Longrightarrow> graph_move g h"
  unfolding claim_proposed_def
  using graph_move.propose
    [of g "\<lparr>cl_claim_id = payload_str p ''claim_id'' [], cl_text = payload_str p ''text'' [],
      cl_scope = payload_str p ''scope'' [], cl_state = PROPOSED, cl_boundary = [], cl_reason = [],
      cl_version = 1\<rparr>"]
  by (auto simp: Let_def update_absent)

lemma query_executed_move: "query_executed p g = Inr h \<Longrightarrow> graph_move g h"
  unfolding query_executed_def
  by (auto simp: Let_def update_absent split: option.splits if_splits
      intro!: graph_move.run_query [of g "\<lparr>qu_query_id = _, qu_claim_id = _, qu_text = _,
        qu_intent = _, qu_n_hits = _\<rparr>", simplified])

lemma optional_nat_absent: "optional_nat p k = Inr x \<Longrightarrow> is_absent p k \<longleftrightarrow> x = None"
  by (auto simp: optional_nat_def is_absent_def split: option.splits json.splits if_splits)

lemma passage_observed_move: "passage_observed p g = Inr h \<Longrightarrow> graph_move g h"
  unfolding passage_observed_def
  by (auto simp: Let_def update_absent dest: optional_nat_absent
      intro!: graph_move.observe [of g "\<lparr>pa_passage_id = _, pa_doc_id = _, pa_query_id = _,
        pa_content_sha256 = _, pa_offset = _, pa_page_no = _\<rparr>", simplified])

lemma evidence_linked_move: "evidence_linked p g = Inr h \<Longrightarrow> graph_move g h"
  unfolding evidence_linked_def
  by (auto simp: Let_def split: option.splits if_splits intro!: graph_move.link)

lemma claim_transitioned_move: "claim_transitioned p g = Inr h \<Longrightarrow> graph_move g h"
  unfolding claim_transitioned_def
  by (auto simp: Let_def split: option.splits if_splits intro!: graph_move.decide)

lemma handle_payload_move: "handle_payload etype p g = Inr h \<Longrightarrow> h = g \<or> graph_move g h"
  by (auto simp: handle_payload_def split: if_splits
      dest: claim_proposed_move query_executed_move passage_observed_move evidence_linked_move
        claim_transitioned_move)

section \<open>Growth: nothing recorded is taken back\<close>

definition claim_grows :: "claim \<Rightarrow> claim \<Rightarrow> bool" where
  "claim_grows c d \<longleftrightarrow> cl_claim_id d = cl_claim_id c \<and> cl_text d = cl_text c \<and>
     cl_scope d = cl_scope c \<and> cl_version c \<le> cl_version d \<and>
     status_path ALLOWED_TRANSITIONS (cl_state c) (cl_state d)"

definition graph_le :: "decision_graph \<Rightarrow> decision_graph \<Rightarrow> bool" where
  "graph_le g h \<longleftrightarrow> map_of (queries g) \<subseteq>\<^sub>m map_of (queries h) \<and>
     map_of (passages g) \<subseteq>\<^sub>m map_of (passages h) \<and> set (edges g) \<subseteq> set (edges h) \<and>
     applied_event_ids g \<subseteq> applied_event_ids h \<and>
     (\<forall>k c. map_of (claims g) k = Some c \<longrightarrow>
        (\<exists>d. map_of (claims h) k = Some d \<and> claim_grows c d))"

lemma claim_grows_refl [simp]: "claim_grows c c"
  by (simp add: claim_grows_def status_path.here)

lemma claim_grows_trans: "claim_grows a b \<Longrightarrow> claim_grows b c \<Longrightarrow> claim_grows a c"
  by (auto simp: claim_grows_def intro: status_path_trans)

lemma graph_le_refl: "graph_le g g"
  by (auto simp: graph_le_def)

lemma graph_le_trans:
  assumes "graph_le f g" and "graph_le g h"
  shows "graph_le f h"
proof -
  have "map_of (queries f) \<subseteq>\<^sub>m map_of (queries h)" "map_of (passages f) \<subseteq>\<^sub>m map_of (passages h)"
    using assms by (auto simp: graph_le_def intro: map_le_trans)
  moreover have "\<exists>d. map_of (claims h) k = Some d \<and> claim_grows c d"
    if "map_of (claims f) k = Some c" for k c
    using assms that unfolding graph_le_def by (meson claim_grows_trans)
  ultimately show ?thesis using assms by (auto simp: graph_le_def)
qed

lemma move_le: "graph_move g h \<Longrightarrow> graph_le g h"
proof (induction rule: graph_move.induct)
  case (decide g cid c t p r)
  let ?d = "c\<lparr>cl_state := t, cl_reason := r,
    cl_boundary := payload_str p ''boundary'' (cl_boundary c), cl_version := Suc (cl_version c)\<rparr>"
  have "claim_grows c ?d"
    using decide by (auto simp: claim_grows_def intro: status_path_step)
  then show ?case using decide by (auto simp: graph_le_def update_conv')
qed (auto simp: graph_le_def map_le_def map_add_def)

section \<open>The invariant\<close>

definition ids_ok :: "decision_graph \<Rightarrow> bool" where
  "ids_ok g \<longleftrightarrow> (\<forall>(k, c) \<in> set (claims g). cl_claim_id c = k) \<and>
     (\<forall>(k, q) \<in> set (queries g). qu_query_id q = k) \<and>
     (\<forall>(k, x) \<in> set (passages g). pa_passage_id x = k) \<and>
     distinct (map fst (claims g)) \<and> distinct (map fst (queries g)) \<and>
     distinct (map fst (passages g)) \<and> distinct (edges g)"

definition query_ok :: "decision_graph \<Rightarrow> graph_query \<Rightarrow> bool" where
  "query_ok g q \<longleftrightarrow> map_of (claims g) (qu_claim_id q) \<noteq> None \<and>
     (qu_intent q = ''support'' \<or> qu_intent q = ''counterevidence'') \<and> 0 \<le> qu_n_hits q"

definition passage_ok :: "decision_graph \<Rightarrow> passage \<Rightarrow> bool" where
  "passage_ok g x \<longleftrightarrow> map_of (queries g) (pa_query_id x) \<noteq> None \<and>
     (pa_offset x \<noteq> None \<or> pa_page_no x \<noteq> None) \<and> is_hex64 (pa_content_sha256 x)"

definition edge_ok :: "decision_graph \<Rightarrow> evidence_edge \<Rightarrow> bool" where
  "edge_ok g e \<longleftrightarrow> map_of (claims g) (ed_claim_id e) \<noteq> None \<and>
     (case map_of (passages g) (ed_passage_id e) of None \<Rightarrow> False
      | Some x \<Rightarrow> (case map_of (queries g) (pa_query_id x) of None \<Rightarrow> False
        | Some q \<Rightarrow> qu_claim_id q = ed_claim_id e \<and>
            (ed_relation e = SUPPORTS \<longrightarrow> qu_intent q = ''support'') \<and>
            (ed_relation e \<in> {CONTRADICTS, BOUNDS, PRECEDENT_FOR} \<longrightarrow>
               qu_intent q = ''counterevidence'')))"

definition decision_ok :: "decision_graph \<Rightarrow> claim \<Rightarrow> bool" where
  "decision_ok g c = (let rel = relations_of g (cl_claim_id c);
       countered = has_counter_query g (cl_claim_id c) in
     case cl_state c of
       PROPOSED \<Rightarrow> True
     | SUPPORTED \<Rightarrow> SUPPORTS \<in> rel
     | CHALLENGED \<Rightarrow> countered
     | SURVIVED \<Rightarrow> SUPPORTS \<in> rel \<and> countered \<and> \<not> blank (cl_boundary c)
     | NARROWED \<Rightarrow> BOUNDS \<in> rel \<and> countered \<and> \<not> blank (cl_boundary c)
     | REFUTED \<Rightarrow> (CONTRADICTS \<in> rel \<or> PRECEDENT_FOR \<in> rel) \<and> countered
     | UNRESOLVED \<Rightarrow> True)"

definition graph_inv :: "decision_graph \<Rightarrow> bool" where
  "graph_inv g \<longleftrightarrow> ids_ok g \<and> (\<forall>(k, q) \<in> set (queries g). query_ok g q) \<and>
     (\<forall>(k, x) \<in> set (passages g). passage_ok g x) \<and> (\<forall>e \<in> set (edges g). edge_ok g e) \<and>
     (\<forall>(k, c) \<in> set (claims g). decision_ok g c)"

lemma graph_inv_empty: "graph_inv empty_graph"
  by (simp add: graph_inv_def ids_ok_def empty_graph_def)

subsection \<open>What growth keeps\<close>

lemma graph_leD:
  assumes "graph_le g h"
  shows "map_of (claims g) k \<noteq> None \<Longrightarrow> map_of (claims h) k \<noteq> None"
    and "map_of (queries g) k = Some q \<Longrightarrow> map_of (queries h) k = Some q"
    and "map_of (passages g) k = Some x \<Longrightarrow> map_of (passages h) k = Some x"
    and "set (edges g) \<subseteq> set (edges h)"
proof -
  show "map_of (claims h) k \<noteq> None" if "map_of (claims g) k \<noteq> None"
    using assms that unfolding graph_le_def by fastforce
  show "map_of (queries h) k = Some q" if "map_of (queries g) k = Some q"
    using assms that unfolding graph_le_def map_le_def by (metis domI)
  show "map_of (passages h) k = Some x" if "map_of (passages g) k = Some x"
    using assms that unfolding graph_le_def map_le_def by (metis domI)
  show "set (edges g) \<subseteq> set (edges h)" using assms by (simp add: graph_le_def)
qed

lemma query_ok_mono: "graph_le g h \<Longrightarrow> query_ok g q \<Longrightarrow> query_ok h q"
  using graph_leD(1) by (auto simp: query_ok_def)

lemma passage_ok_mono: "graph_le g h \<Longrightarrow> passage_ok g x \<Longrightarrow> passage_ok h x"
  using graph_leD(2) by (fastforce simp: passage_ok_def)

lemma edge_ok_mono: "graph_le g h \<Longrightarrow> edge_ok g e \<Longrightarrow> edge_ok h e"
  using graph_leD(1-3) [of g h] by (auto simp: edge_ok_def split: option.splits)

lemma relations_mono: "graph_le g h \<Longrightarrow> relations_of g k \<subseteq> relations_of h k"
  using graph_leD(4) by (fastforce simp: relations_of_def)

lemma counter_query_iff:
  assumes "distinct (map fst (queries g))"
  shows "has_counter_query g cid \<longleftrightarrow>
    (\<exists>k q. map_of (queries g) k = Some q \<and> qu_claim_id q = cid \<and> qu_intent q = ''counterevidence'')"
  unfolding has_counter_query_def list_ex_iff
  by (auto simp: map_of_distinct [OF assms, symmetric])

lemma counter_query_mono:
  "graph_le g h \<Longrightarrow> distinct (map fst (queries g)) \<Longrightarrow> distinct (map fst (queries h)) \<Longrightarrow>
   has_counter_query g k \<Longrightarrow> has_counter_query h k"
  using graph_leD(2) by (fastforce simp: counter_query_iff)

lemma decision_ok_mono:
  assumes "graph_le g h" "ids_ok g" "ids_ok h" "decision_ok g c"
  shows "decision_ok h c"
proof -
  have "relations_of g (cl_claim_id c) \<subseteq> relations_of h (cl_claim_id c)"
    by (rule relations_mono) (rule assms(1))
  moreover have "has_counter_query g (cl_claim_id c) \<Longrightarrow> has_counter_query h (cl_claim_id c)"
    by (rule counter_query_mono [OF assms(1)]) (use assms(2,3) in \<open>simp_all add: ids_ok_def\<close>)
  ultimately show ?thesis
    using assms(4) by (auto simp: decision_ok_def Let_def split: claim_state.splits)
qed

subsection \<open>Every move keeps the invariant\<close>

lemma move_ids_ok: "graph_move g h \<Longrightarrow> ids_ok g \<Longrightarrow> ids_ok h"
proof (induction rule: graph_move.induct)
  case (decide g cid c t p r)
  then have "cl_claim_id c = cid" using map_of_SomeD by (fastforce simp: ids_ok_def)
  with decide show ?case by (auto simp: ids_ok_def distinct_update dest!: set_updateD)
qed (auto simp: ids_ok_def map_of_eq_None_iff)

text \<open>A graph that grew keeps the invariant if what is new in it is in order.\<close>

lemma graph_inv_grow:
  assumes "graph_inv g" "graph_le g h" "ids_ok h"
    and "\<And>k q. (k, q) \<in> set (queries h) \<Longrightarrow> (k, q) \<in> set (queries g) \<or> query_ok h q"
    and "\<And>k x. (k, x) \<in> set (passages h) \<Longrightarrow> (k, x) \<in> set (passages g) \<or> passage_ok h x"
    and "\<And>e. e \<in> set (edges h) \<Longrightarrow> e \<in> set (edges g) \<or> edge_ok h e"
    and "\<And>k c. (k, c) \<in> set (claims h) \<Longrightarrow> (k, c) \<in> set (claims g) \<or> decision_ok h c"
  shows "graph_inv h"
proof -
  have "query_ok h q" if "(k, q) \<in> set (queries h)" for k q
    using assms(1) assms(4) [OF that] query_ok_mono [OF assms(2)] by (auto simp: graph_inv_def)
  moreover have "passage_ok h x" if "(k, x) \<in> set (passages h)" for k x
    using assms(1) assms(5) [OF that] passage_ok_mono [OF assms(2)] by (auto simp: graph_inv_def)
  moreover have "edge_ok h e" if "e \<in> set (edges h)" for e
    using assms(1) assms(6) [OF that] edge_ok_mono [OF assms(2)] by (auto simp: graph_inv_def)
  moreover have "decision_ok h c" if "(k, c) \<in> set (claims h)" for k c
    using assms(1) assms(7) [OF that] decision_ok_mono [OF assms(2) _ assms(3)] by (auto simp: graph_inv_def)
  ultimately show ?thesis using assms(3) by (auto simp: graph_inv_def)
qed

lemma decided_ok:
  assumes "transition_guard g cid t p = None" and "t \<in> set (ALLOWED_TRANSITIONS (cl_state c))"
    and "decision_ok g c" and "cl_claim_id c = cid"
  shows "decision_ok g (c\<lparr>cl_state := t, cl_reason := r,
    cl_boundary := payload_str p ''boundary'' (cl_boundary c), cl_version := n\<rparr>)"
proof -
  have b: "\<not> blank (payload_str p ''boundary'' [])
      \<Longrightarrow> payload_str p ''boundary'' (cl_boundary c) = payload_str p ''boundary'' []"
    by (auto simp: payload_str_def split: option.splits)
  have chal: "t \<in> set TERMINAL_STATES \<Longrightarrow> t \<noteq> UNRESOLVED \<Longrightarrow> has_counter_query g cid"
    using assms(2-4)
    by (auto simp: ALLOWED_TRANSITIONS_def TERMINAL_STATES_def decision_ok_def
        split: claim_state.splits)
  show ?thesis
    using assms(1,4) b chal
    by (cases t) (auto simp: transition_guard_def decision_ok_def Let_def TERMINAL_STATES_def
        split: if_splits)
qed

lemma relations_of_cong: "edges h = edges g \<Longrightarrow> relations_of h = relations_of g"
  by (simp add: relations_of_def fun_eq_iff)

lemma has_counter_query_cong: "queries h = queries g \<Longrightarrow> has_counter_query h = has_counter_query g"
  by (simp add: has_counter_query_def fun_eq_iff)

lemma decision_ok_cong:
  "edges h = edges g \<Longrightarrow> queries h = queries g \<Longrightarrow> decision_ok h = decision_ok g"
  by (simp add: decision_ok_def fun_eq_iff relations_of_cong [of h g] has_counter_query_cong [of h g])

lemma move_inv: "graph_move g h \<Longrightarrow> graph_inv g \<Longrightarrow> graph_inv h"
proof -
  assume m: "graph_move g h" and inv: "graph_inv g"
  have ids: "ids_ok h" using m inv by (auto simp: graph_inv_def intro: move_ids_ok)
  note grow = graph_inv_grow [OF inv move_le [OF m] ids]
  from m show "graph_inv h"
  proof (cases rule: graph_move.cases)
    case (propose c)
    then show ?thesis by (intro grow) (auto simp: decision_ok_def)
  next
    case (run_query q c)
    then show ?thesis by (intro grow) (auto simp: query_ok_def)
  next
    case (observe x)
    then show ?thesis by (intro grow) (auto simp: passage_ok_def)
  next
    case (link e c x q)
    then show ?thesis by (intro grow) (auto simp: edge_ok_def)
  next
    case (decide cid c t p r)
    have c: "(cid, c) \<in> set (claims g)" using decide(2) by (rule map_of_SomeD)
    then have "cl_claim_id c = cid" "decision_ok g c"
      using inv by (auto simp: graph_inv_def ids_ok_def)
    with decide have d: "decision_ok g (c\<lparr>cl_state := t, cl_reason := r,
        cl_boundary := payload_str p ''boundary'' (cl_boundary c), cl_version := Suc (cl_version c)\<rparr>)"
      by (intro decided_ok) auto
    have "decision_ok h = decision_ok g" using decide(1) by (intro decision_ok_cong) simp_all
    with decide d show ?thesis by (intro grow) (auto dest!: set_updateD)
  qed
qed

lemma graph_inv_applied [simp]: "graph_inv (g\<lparr>applied_event_ids := a\<rparr>) = graph_inv g"
proof -
  let ?h = "g\<lparr>applied_event_ids := a\<rparr>"
  have "query_ok ?h = query_ok g" "passage_ok ?h = passage_ok g" "edge_ok ?h = edge_ok g"
    by (simp_all add: fun_eq_iff query_ok_def passage_ok_def edge_ok_def split: option.split)
  moreover have "decision_ok ?h = decision_ok g" by (rule decision_ok_cong) simp_all
  ultimately show ?thesis by (simp add: graph_inv_def ids_ok_def)
qed

lemma graph_le_applied: "graph_le g h \<Longrightarrow> graph_le g (h\<lparr>applied_event_ids := insert i (applied_event_ids h)\<rparr>)"
  by (auto simp: graph_le_def)

lemma apply_event_Inr:
  assumes "apply_event ev g = Inr h"
  shows "h = g \<or> (\<exists>g'. (g' = g \<or> graph_move g g') \<and>
    h = g'\<lparr>applied_event_ids := insert (event_id ev) (applied_event_ids g')\<rparr>)"
  using assms by (auto simp: apply_event_def split: if_splits dest!: handle_payload_move)

lemma apply_event_inv: "apply_event ev g = Inr h \<Longrightarrow> graph_inv g \<Longrightarrow> graph_inv h"
  using apply_event_Inr move_inv by fastforce

lemma apply_event_le: "apply_event ev g = Inr h \<Longrightarrow> graph_le g h"
  using apply_event_Inr move_le graph_le_refl graph_le_applied by metis

interpretation graph_machine: progress_machine graph_step graph_inv graph_le
proof
  show "graph_inv (snd (graph_step op s))" if "graph_inv s" for op s
    unfolding graph_step_def
    by (rule transact_cases) (use that apply_event_inv in \<open>auto\<close>)
  show "graph_le s (snd (graph_step op s))" if "graph_inv s" for op s
    unfolding graph_step_def
    by (rule transact_cases) (use apply_event_le graph_le_refl in \<open>auto\<close>)
qed (auto intro: graph_le_refl graph_le_trans)

interpretation claim_table: status_table ALLOWED_TRANSITIONS TERMINAL_STATES
  by unfold_locales
    (auto simp: ALLOWED_TRANSITIONS_def TERMINAL_STATES_def split: claim_state.splits)

lemma project_run: "apply_events evs g = Inr h \<Longrightarrow> h = run_ops graph_step evs g"
  by (induction evs arbitrary: g) (auto simp: graph_step_def transact_def)

lemma project_inv: "project evs = Inr g \<Longrightarrow> graph_inv g"
  using project_run graph_machine.run_inv graph_inv_empty by (metis project_def)

end
