(* ===== verification/Runtime.thy ===== *)
theory Runtime
  imports Job_Laws Ledger Graph
begin

text \<open>
  The execution context (\<open>src/orchestration/runtime.py\<close>), which joins one job of the store,
  its event ledger and the evidence graph: emitting events, charging, checkpointing against the
  verified head of the ledger, and finalizing through a deterministic validator.

  A method is an action: it takes the world (database, ledgers, clock readings, generated
  identifiers) and returns its result or exception with the world it leaves, since what was
  committed before an exception stays committed.  Other processes share the database and the
  ledgers: before every access the world lets a scheduled list of their operations happen, so
  what is proved here holds for every interleaving at the granularity of transactions.

  \<open>world_invariant\<close> states what a property of worlds must be closed under; every method then
  keeps it.
\<close>

section \<open>Worlds and actions\<close>

datatype rival = RivalStore job_op | RivalAppend "string \<times> string" draw append_request

record world =
  w_db :: job_db
  w_ledger :: "string \<times> string \<Rightarrow> raw_line list"
  w_clock :: "nat \<Rightarrow> time"
  w_draws :: "nat \<Rightarrow> draw"
  w_rivals :: "nat \<Rightarrow> rival list"
  w_tick :: nat

type_synonym 'a act = "world \<Rightarrow> 'a result \<times> world"

definition do_store :: "job_op \<Rightarrow> world \<Rightarrow> job result \<times> world" where
  "do_store op w = (let (r, db') = job_step op (w_db w) in (r, w\<lparr>w_db := db'\<rparr>))"

definition do_append ::
  "py_env \<Rightarrow> string \<times> string \<Rightarrow> draw \<Rightarrow> append_request \<Rightarrow> world \<Rightarrow> event result \<times> world" where
  "do_append env p d q w = (let (r, ls) = transact (ledger_append env d q) (w_ledger w p)
     in (r, w\<lparr>w_ledger := (w_ledger w)(p := ls)\<rparr>))"

primrec rival_step :: "py_env \<Rightarrow> rival \<Rightarrow> world \<Rightarrow> world" where
  "rival_step env (RivalStore op) w = snd (do_store op w)"
| "rival_step env (RivalAppend p d q) w = snd (do_append env p d q w)"

text \<open>The other processes run, and the clock and the identifiers move on.\<close>

definition tick :: "py_env \<Rightarrow> world \<Rightarrow> world" where
  "tick env w = (fold (rival_step env) (w_rivals w (w_tick w)) w)\<lparr>w_tick := Suc (w_tick w)\<rparr>"

definition store_act :: "py_env \<Rightarrow> (time \<Rightarrow> draw \<Rightarrow> job_op) \<Rightarrow> job act" where
  "store_act env f w = do_store (f (w_clock w (w_tick w)) (w_draws w (w_tick w))) (tick env w)"

definition store_read :: "py_env \<Rightarrow> (time \<Rightarrow> job_db \<Rightarrow> 'a result) \<Rightarrow> 'a act" where
  "store_read env f w = (let w' = tick env w in (f (w_clock w (w_tick w)) (w_db w'), w'))"

definition ledger_act :: "py_env \<Rightarrow> string \<times> string \<Rightarrow> append_request \<Rightarrow> event act" where
  "ledger_act env p q w = do_append env p (w_draws w (w_tick w)) q (tick env w)"

definition ledger_read :: "py_env \<Rightarrow> string \<times> string \<Rightarrow> (raw_line list \<Rightarrow> 'a result) \<Rightarrow> 'a act" where
  "ledger_read env p f w = (let w' = tick env w in (f (w_ledger w' p), w'))"

definition return_act :: "'a \<Rightarrow> 'a act" where
  "return_act x w = (Inr x, w)"

definition raise_act :: "py_exn \<Rightarrow> 'a act" where
  "raise_act e w = (Inl e, w)"

definition bind_act :: "'a act \<Rightarrow> ('a \<Rightarrow> 'b act) \<Rightarrow> 'b act" where
  "bind_act m k w = (case m w of (Inl e, w') \<Rightarrow> (Inl e, w') | (Inr x, w') \<Rightarrow> k x w')"

text \<open>\<open>try: ... except Exception as exc: handler(exc)\<close>\<close>

definition catch_act :: "'a act \<Rightarrow> (py_exn \<Rightarrow> 'a act) \<Rightarrow> 'a act" where
  "catch_act m h w = (case m w of (Inl e, w') \<Rightarrow> h e w' | (Inr x, w') \<Rightarrow> (Inr x, w'))"

section \<open>The execution context\<close>

record context_state =
  cx_job :: job
  cx_worker_id :: string

definition ledger_path :: "context_state \<Rightarrow> string \<times> string" where
  "ledger_path cx = (tenant_id (cx_job cx), job_id (cx_job cx))"

definition context_start ::
  "py_env \<Rightarrow> create_request \<Rightarrow> string \<Rightarrow> time \<Rightarrow> context_state act" where
  "context_start env r worker ls =
     bind_act (store_act env (\<lambda>now d. CreateJob now (new_uuid d) (r\<lparr>cr_job_id := None\<rparr>))) (\<lambda>j.
     bind_act (store_act env (\<lambda>now d. AcquireLease (job_id j) worker ls now)) (\<lambda>j'.
     return_act \<lparr>cx_job = j', cx_worker_id = worker\<rparr>))"

record event_spec =
  es_aggregate_type :: string
  es_aggregate_id :: string
  es_event_type :: string
  es_payload :: json
  es_idempotency_key :: string

definition emit_request :: "context_state \<Rightarrow> event_spec \<Rightarrow> append_request" where
  "emit_request cx s = \<lparr>req_tenant_id = tenant_id (cx_job cx), req_job_id = job_id (cx_job cx),
     req_aggregate_type = es_aggregate_type s, req_aggregate_id = es_aggregate_id s,
     req_event_type = es_event_type s, req_payload = es_payload s,
     req_idempotency_key = es_idempotency_key s, req_event_id = None, req_occurred_at = None,
     req_expected_head = None\<rparr>"

definition emit :: "py_env \<Rightarrow> event_spec \<Rightarrow> context_state \<Rightarrow> event act" where
  "emit env s cx = ledger_act env (ledger_path cx) (emit_request cx s)"

definition context_charge :: "py_env \<Rightarrow> charge_request \<Rightarrow> context_state \<Rightarrow> context_state act" where
  "context_charge env r cx =
     bind_act (store_act env (\<lambda>now d. Charge (job_id (cx_job cx)) r now)) (\<lambda>j.
     return_act (cx\<lparr>cx_job := j\<rparr>))"

text \<open>\<open>{**payload, k: v}\<close> of something that is not a mapping is a \<open>TypeError\<close>.\<close>

definition spread :: "json \<Rightarrow> (string \<times> json) list \<Rightarrow> json result" where
  "spread p kvs = (if is_dict p then Inr (fold (\<lambda>(k, v) q. jput q k v) kvs p)
     else Inl (TypeError ''argument after ** must be a mapping''))"

definition context_checkpoint ::
  "py_env \<Rightarrow> stage \<Rightarrow> string \<Rightarrow> json \<Rightarrow> context_state \<Rightarrow> context_state act" where
  "context_checkpoint env sg key p cx =
     bind_act (ledger_read env (ledger_path cx) (ledger_verify env)) (\<lambda>receipt.
       if \<not> report_ok receipt
       then raise_act (GraphInvariantError (''cannot checkpoint an invalid event ledger: '' @ report_error receipt))
       else (case spread p [(''ledger_head'', JStr (report_head_hash receipt)),
                     (''ledger_event_count'', JInt (int (report_event_count receipt)))] of
         Inl e \<Rightarrow> raise_act e
       | Inr q \<Rightarrow>
           bind_act (store_act env (\<lambda>now d. SaveCheckpoint (job_id (cx_job cx)) (cx_worker_id cx) sg key q now))
             (\<lambda>j. return_act (cx\<lparr>cx_job := j\<rparr>))))"

definition context_transition ::
  "py_env \<Rightarrow> job_status \<Rightarrow> string option \<Rightarrow> bool \<Rightarrow> context_state \<Rightarrow> context_state act" where
  "context_transition env t e rel cx =
     bind_act (store_act env (\<lambda>now d. Transition (job_id (cx_job cx)) t None e rel now)) (\<lambda>j.
     return_act (cx\<lparr>cx_job := j\<rparr>))"

record final_report =
  fr_ok :: bool
  fr_job :: job
  fr_ledger_events :: nat
  fr_ledger_head :: string
  fr_graph_metrics :: "(string \<times> nat) list"
  fr_issues :: "string list"

type_synonym validator = "event list \<Rightarrow> ((string \<times> nat) list \<times> string list) result"

text \<open>
  What the validation finds: \<open>Inl\<close> an exception the method does not catch, \<open>Inr\<close> the metrics
  and the issues.
\<close>

definition run_validator ::
  "validator \<Rightarrow> event list result \<Rightarrow> ((string \<times> nat) list \<times> string list) result" where
  "run_validator v evs = (case bind_result evs v of
     Inl e \<Rightarrow> if is_value_error e then Inr ([], [''validator: '' @ exn_text e]) else Inl e
   | Inr (metrics, issues) \<Rightarrow> Inr (metrics, issues))"

definition metrics_json :: "(string \<times> nat) list \<Rightarrow> json" where
  "metrics_json m = JObj (map (\<lambda>(k, n). (k, JInt (int n))) m)"

definition finalize_with_validator ::
  "py_env \<Rightarrow> string \<Rightarrow> validator \<Rightarrow> context_state \<Rightarrow> (context_state \<times> final_report) act" where
  "finalize_with_validator env name v cx =
     (if blank name then raise_act (ValueError ''validator_name is required'')
      else
        bind_act (ledger_read env (ledger_path cx) (ledger_verify env)) (\<lambda>receipt.
        bind_act (if \<not> report_ok receipt then return_act ([], [''ledger: '' @ report_error receipt])
                  else ledger_read env (ledger_path cx) (\<lambda>ls. run_validator v (load_locked env ls)))
          (\<lambda>(metrics, issues).
        if issues \<noteq> [] then
          bind_act (context_transition env FAILED (Some ''EVIDENCE_INVARIANT_FAILED'') True cx) (\<lambda>cx'.
          return_act (cx', \<lparr>fr_ok = False, fr_job = cx_job cx',
            fr_ledger_events = report_event_count receipt, fr_ledger_head = report_head_hash receipt,
            fr_graph_metrics = metrics, fr_issues = issues\<rparr>))
        else
          bind_act (context_checkpoint env VALIDATE ''evidence-finalization''
             (JObj [(''ok'', JBool True), (''validator_name'', JStr name),
                    (''validation_metrics'', metrics_json metrics)]) cx) (\<lambda>cx1.
          bind_act (context_transition env VALIDATING None False cx1) (\<lambda>cx2.
          bind_act (context_transition env SUCCEEDED None True cx2) (\<lambda>cx3.
          return_act (cx3, \<lparr>fr_ok = True, fr_job = cx_job cx3,
            fr_ledger_events = report_event_count receipt, fr_ledger_head = report_head_hash receipt,
            fr_graph_metrics = metrics, fr_issues = []\<rparr>)))))))"

text \<open>\<open>finalize\<close>: the publication gate of the evidence graph.\<close>

definition publication_validator :: validator where
  "publication_validator evs = bind_result (project evs)
     (\<lambda>g. Inr (graph_metrics g, validate_for_publication g))"

definition finalize :: "py_env \<Rightarrow> context_state \<Rightarrow> (context_state \<times> final_report) act" where
  "finalize env cx = finalize_with_validator env ''cedg-publication-v1'' publication_validator cx"

section \<open>Reasoning about actions\<close>

text \<open>Every run from \<open>P\<close> returns with \<open>Q\<close> or raises with \<open>E\<close>.\<close>

definition triple :: "(world \<Rightarrow> bool) \<Rightarrow> 'a act \<Rightarrow> ('a \<Rightarrow> world \<Rightarrow> bool) \<Rightarrow> (py_exn \<Rightarrow> world \<Rightarrow> bool) \<Rightarrow> bool" where
  "triple P m Q E \<longleftrightarrow> (\<forall>w. P w \<longrightarrow> (case m w of (Inl e, w') \<Rightarrow> E e w' | (Inr x, w') \<Rightarrow> Q x w'))"

named_theorems triples \<open>rules that decompose a triple along an action\<close>

lemma triple_return [triples]: "(\<And>w. P w \<Longrightarrow> Q x w) \<Longrightarrow> triple P (return_act x) Q E"
  by (simp add: triple_def return_act_def)

lemma triple_raise [triples]: "(\<And>w. P w \<Longrightarrow> E e w) \<Longrightarrow> triple P (raise_act e) Q E"
  by (simp add: triple_def raise_act_def)

lemma triple_bind: "triple P m R E \<Longrightarrow> (\<And>x. triple (R x) (k x) Q E) \<Longrightarrow> triple P (bind_act m k) Q E"
  unfolding triple_def bind_act_def by (fastforce split: prod.splits sum.splits)

lemma triple_catch: "triple P m Q R \<Longrightarrow> (\<And>e. triple (R e) (h e) Q E) \<Longrightarrow> triple P (catch_act m h) Q E"
  unfolding triple_def catch_act_def by (fastforce split: prod.splits sum.splits)

lemma triple_weaken:
  "triple P m Q E \<Longrightarrow> (\<And>w. P' w \<Longrightarrow> P w) \<Longrightarrow> (\<And>x w. Q x w \<Longrightarrow> Q' x w) \<Longrightarrow>
   (\<And>e w. E e w \<Longrightarrow> E' e w) \<Longrightarrow> triple P' m Q' E'"
  unfolding triple_def by (fastforce split: prod.splits sum.splits)

lemma triple_InrD: "triple P m Q E \<Longrightarrow> P w \<Longrightarrow> m w = (Inr x, w') \<Longrightarrow> Q x w'"
  by (auto simp: triple_def)

lemma triple_snd: "triple P m (\<lambda>x. S) (\<lambda>e. S) \<Longrightarrow> P w \<Longrightarrow> S (snd (m w))"
  by (cases "m w") (auto simp: triple_def split: sum.splits)

text \<open>A property of worlds closed under what any process does to the shared stores.\<close>

abbreviation keeps :: "(world \<Rightarrow> bool) \<Rightarrow> 'a act \<Rightarrow> bool" where
  "keeps S m \<equiv> triple S m (\<lambda>x. S) (\<lambda>e. S)"

lemma keeps_iff: "keeps S m \<longleftrightarrow> (\<forall>w. S w \<longrightarrow> S (snd (m w)))"
proof -
  have "(case m w of (Inl e, w') \<Rightarrow> S w' | (Inr x, w') \<Rightarrow> S w') \<longleftrightarrow> S (snd (m w))" for w
    by (simp split: prod.split sum.split)
  then show ?thesis by (simp add: triple_def)
qed

lemma keeps_bind [triples]: "keeps S m \<Longrightarrow> (\<And>x. keeps S (k x)) \<Longrightarrow> keeps S (bind_act m k)"
  by (rule triple_bind)

lemma keeps_catch [triples]: "keeps S m \<Longrightarrow> (\<And>e. keeps S (h e)) \<Longrightarrow> keeps S (catch_act m h)"
  by (rule triple_catch)

text \<open>
  \<open>allowed\<close> are the store operations other processes perform; those of a running stage and of
  the finalization must be among them.
\<close>

locale stage_invariant =
  fixes env :: py_env and S :: "world \<Rightarrow> bool" and allowed :: "job_op \<Rightarrow> bool"
  assumes store_keeps: "S w \<Longrightarrow> allowed op \<Longrightarrow> S (snd (do_store op w))"
    and append_keeps: "S w \<Longrightarrow> S (snd (do_append env p d q w))"
    and tick_keeps: "S w \<Longrightarrow> S (w\<lparr>w_tick := n\<rparr>)"
    and rivals_allowed: "S w \<Longrightarrow> RivalStore op \<in> set (w_rivals w n) \<Longrightarrow> allowed op"
    and charge_allowed: "allowed (Charge k r now)"
    and checkpoint_allowed: "allowed (SaveCheckpoint k worker sg key pl now)"
    and finish_allowed: "t \<in> set [FAILED, VALIDATING, SUCCEEDED] \<Longrightarrow> allowed (Transition k t v e rel now)"
begin

lemma rivals_keep:
  "S w \<Longrightarrow> (\<And>op. RivalStore op \<in> set rs \<Longrightarrow> allowed op) \<Longrightarrow> S (fold (rival_step env) rs w)"
proof (induction rs arbitrary: w)
  case (Cons r rs)
  then show ?case by (cases r) (simp_all add: store_keeps append_keeps)
qed simp

lemma tick_inv: "S w \<Longrightarrow> S (tick env w)"
  using rivals_allowed by (auto simp: tick_def intro!: tick_keeps rivals_keep)

lemma store_act_keeps: "(\<And>now d. allowed (f now d)) \<Longrightarrow> keeps S (store_act env f)"
  by (simp add: keeps_iff store_act_def store_keeps tick_inv)

lemma store_read_keeps: "keeps S (store_read env f)"
  by (simp add: keeps_iff store_read_def Let_def tick_inv)

lemma ledger_act_keeps: "keeps S (ledger_act env p q)"
  by (simp add: keeps_iff ledger_act_def append_keeps tick_inv)

lemma ledger_read_keeps: "keeps S (ledger_read env p f)"
  by (simp add: keeps_iff ledger_read_def Let_def tick_inv)

lemmas act_keeps = store_act_keeps store_read_keeps ledger_act_keeps ledger_read_keeps
  keeps_bind triple_return triple_raise charge_allowed checkpoint_allowed

lemma emit_keeps: "keeps S (emit env s cx)"
  by (simp add: emit_def ledger_act_keeps)

lemma charge_keeps: "keeps S (context_charge env r cx)"
  by (auto simp: context_charge_def intro!: act_keeps)

lemma checkpoint_keeps: "keeps S (context_checkpoint env sg key p cx)"
  by (auto simp: context_checkpoint_def split: sum.splits intro!: act_keeps)

lemma transition_keeps:
  "t \<in> set [FAILED, VALIDATING, SUCCEEDED] \<Longrightarrow> keeps S (context_transition env t e rel cx)"
  unfolding context_transition_def by (intro act_keeps finish_allowed)

lemma finalize_keeps: "keeps S (finalize_with_validator env name v cx)"
  unfolding finalize_with_validator_def
  by (auto intro!: act_keeps transition_keeps checkpoint_keeps)

end

text \<open>Every store operation is allowed.\<close>

locale world_invariant = stage_invariant env S "\<lambda>op. True"
  for env :: py_env and S :: "world \<Rightarrow> bool"
begin

lemma any_store_keeps: "keeps S (store_act env f)"
  by (simp add: store_act_keeps)

lemma start_keeps: "keeps S (context_start env r worker ls)"
  unfolding context_start_def by (auto intro!: keeps_bind any_store_keeps triple_return)

end

section \<open>What every action leaves in place\<close>

text \<open>
  The database only moves forward and keeps its invariant; every ledger file only grows.
\<close>

definition world_le :: "world \<Rightarrow> world \<Rightarrow> bool" where
  "world_le w0 w \<longleftrightarrow> db_inv (w_db w) \<and> job_le (w_db w0) (w_db w) \<and>
     (\<forall>p. \<exists>more. w_ledger w p = w_ledger w0 p @ more)"

lemma world_le_refl: "db_inv (w_db w) \<Longrightarrow> world_le w w"
  by (simp add: world_le_def job_le_refl)

lemma world_le_trans:
  assumes "world_le a b" and "world_le b c"
  shows "world_le a c"
proof -
  have "\<exists>more. w_ledger c p = w_ledger a p @ more" for p
  proof -
    obtain x where "w_ledger b p = w_ledger a p @ x" using assms(1) unfolding world_le_def by blast
    moreover obtain y where "w_ledger c p = w_ledger b p @ y" using assms(2) unfolding world_le_def by blast
    ultimately show ?thesis by simp
  qed
  then show ?thesis using assms by (auto simp: world_le_def intro: job_le_trans)
qed

lemma ledger_append_extends:
  "\<exists>more. snd (transact (ledger_append env d q) ls) = ls @ more"
  by (rule transact_cases) (auto elim!: ledger_append_cases)

interpretation progress: world_invariant env "world_le w0" for env w0
proof
  fix w op
  assume A: "world_le w0 w"
  have "db_inv (snd (job_step op (w_db w)))" "job_le (w_db w) (snd (job_step op (w_db w)))"
    using A by (simp_all add: world_le_def job_machine.step_inv job_machine.step_le)
  then show "world_le w0 (snd (do_store op w))"
    using A by (auto simp: world_le_def do_store_def intro: job_le_trans split: prod.split)
next
  fix w p d q
  assume A: "world_le w0 w"
  let ?w = "snd (do_append env p d q w)"
  obtain new where new: "snd (transact (ledger_append env d q) (w_ledger w p)) = w_ledger w p @ new"
    using ledger_append_extends by blast
  have "w_db ?w = w_db w" and "w_ledger ?w = (w_ledger w)(p := w_ledger w p @ new)"
    using new by (auto simp: do_append_def split: prod.split)
  then show "world_le w0 ?w" using A unfolding world_le_def by (metis append_assoc fun_upd_apply)
qed (simp_all add: world_le_def)

lemma act_world_le: "keeps (world_le w) m \<Longrightarrow> db_inv (w_db w) \<Longrightarrow> world_le w (snd (m w))"
  by (simp add: keeps_iff world_le_refl)

lemma act_step_le:
  assumes "keeps (world_le w) m" and "db_inv (w_db w)" and "m w = (r, w')"
  shows "world_le w w'" and "db_inv (w_db w')"
  using act_world_le [OF assms(1,2)] assms(3) by (auto simp: world_le_def)

section \<open>Outcomes\<close>

lemma bind_act_InrE:
  assumes "bind_act m k w = (Inr y, w'')"
  obtains x w' where "m w = (Inr x, w')" and "k x w' = (Inr y, w'')"
  using assms by (auto simp: bind_act_def split: prod.splits sum.splits)

lemma store_act_InrD:
  "store_act env f w = (Inr j, w') \<Longrightarrow>
   exec_job_op (f (w_clock w (w_tick w)) (w_draws w (w_tick w))) (w_db (tick env w)) = Inr (j, w_db w')"
  by (auto simp: store_act_def do_store_def job_step_def transact_def split: prod.splits sum.splits)

lemma transition_result:
  assumes "transition jid t v e rel now db = Inr (j, db')"
  shows "find_job jid db' = Some j \<and> status j = t \<and> job_id j = jid"
  using assms
proof (cases rule: transition_cases)
  case (1 row)
  have "map_option status (find_job jid db') = Some t" using 1(1,5) by simp
  then show "find_job jid db' = Some j \<and> status j = t \<and> job_id j = jid"
    using 1(6) find_job_id by auto
qed

lemma context_transition_InrD:
  assumes "context_transition env t e rel cx w = (Inr cx', w')"
  shows "find_job (job_id (cx_job cx)) (w_db w') = Some (cx_job cx')"
    and "status (cx_job cx') = t" and "job_id (cx_job cx') = job_id (cx_job cx)"
proof -
  obtain j w1 where a: "store_act env (\<lambda>now d. Transition (job_id (cx_job cx)) t None e rel now) w = (Inr j, w1)"
    and b: "return_act (cx\<lparr>cx_job := j\<rparr>) w1 = (Inr cx', w')"
    using assms unfolding context_transition_def by (rule bind_act_InrE)
  from b have "cx_job cx' = j" "w1 = w'" by (auto simp: return_act_def)
  with store_act_InrD [OF a]
  have "transition (job_id (cx_job cx)) t None e rel (w_clock w (w_tick w)) (w_db (tick env w))
      = Inr (cx_job cx', w_db w')" by simp
  note r = transition_result [OF this]
  show "find_job (job_id (cx_job cx)) (w_db w') = Some (cx_job cx')" "status (cx_job cx') = t"
    "job_id (cx_job cx') = job_id (cx_job cx)"
    using r by simp_all
qed

lemma save_checkpoint_row:
  assumes "save_checkpoint jid w sg key pl now db = Inr (j, db')"
  shows "\<exists>c \<in> set (checkpoint_rows db'). cp_job_id c = jid \<and> cp_stage c = sg \<and> cp_checkpoint_key c = key"
    and "find_job jid db' = Some j"
proof -
  from assms show "find_job jid db' = Some j"
    by (cases rule: save_checkpoint_cases) simp
  from assms show "\<exists>c \<in> set (checkpoint_rows db'). cp_job_id c = jid \<and> cp_stage c = sg \<and> cp_checkpoint_key c = key"
  proof (cases rule: save_checkpoint_cases)
    case (1 row rendered)
    show ?thesis
    proof (cases "row_by (\<lambda>c. (cp_job_id c, cp_checkpoint_key c)) (jid, key) (checkpoint_rows db)")
      case None
      then have "checkpoint_rows db' = checkpoint_rows db @ [\<lparr>cp_job_id = jid, cp_stage = sg,
          cp_checkpoint_key = key, cp_payload = rendered, cp_created_at = now\<rparr>]"
        using 1(12) by simp
      then show ?thesis by simp
    next
      case (Some c)
      then have "c \<in> set (checkpoint_rows db)" "cp_job_id c = jid" "cp_checkpoint_key c = key"
        using row_by_SomeD [OF Some] by auto
      moreover have "cp_stage c = sg" "checkpoint_rows db' = checkpoint_rows db"
        using 1(12,13) Some by simp_all
      ultimately show ?thesis by auto
    qed
  qed
qed

definition has_checkpoint :: "string \<Rightarrow> stage \<Rightarrow> string \<Rightarrow> job_db \<Rightarrow> bool" where
  "has_checkpoint jid sg key db \<longleftrightarrow>
     (\<exists>c \<in> set (checkpoint_rows db). cp_job_id c = jid \<and> cp_stage c = sg \<and> cp_checkpoint_key c = key)"

lemma has_checkpoint_le: "has_checkpoint jid sg key db \<Longrightarrow> job_le db db' \<Longrightarrow> has_checkpoint jid sg key db'"
  by (auto simp: has_checkpoint_def job_le_def)

lemma context_checkpoint_InrD:
  assumes "context_checkpoint env sg key p cx w = (Inr cx', w')"
  shows "has_checkpoint (job_id (cx_job cx)) sg key (w_db w')"
    and "find_job (job_id (cx_job cx)) (w_db w') = Some (cx_job cx')"
    and "job_id (cx_job cx') = job_id (cx_job cx)"
proof -
  obtain now q db where "save_checkpoint (job_id (cx_job cx)) (cx_worker_id cx) sg key q now db
      = Inr (cx_job cx', w_db w')"
    using assms
    by (auto simp: context_checkpoint_def return_act_def raise_act_def
        elim!: bind_act_InrE dest!: store_act_InrD split: if_splits sum.splits)
  note r = save_checkpoint_row [OF this]
  show "has_checkpoint (job_id (cx_job cx)) sg key (w_db w')" using r(1) by (simp add: has_checkpoint_def)
  show f: "find_job (job_id (cx_job cx)) (w_db w') = Some (cx_job cx')" by (rule r(2))
  then show "job_id (cx_job cx') = job_id (cx_job cx)" by (rule find_job_id)
qed

lemma run_validator_no_issues:
  "run_validator v evs = Inr (m, []) \<Longrightarrow> \<exists>es. evs = Inr es \<and> v es = Inr (m, [])"
  by (cases evs) (auto simp: run_validator_def split: sum.splits if_splits)

lemma ledger_read_InrD:
  "ledger_read env p f w = (Inr x, w') \<Longrightarrow> f (w_ledger w' p) = Inr x"
  by (auto simp: ledger_read_def Let_def)

text \<open>
  A report that says ok: some prefix of the ledger was loaded and accepted by the validator
  without an issue, the validation checkpoint is committed, and the job has succeeded.
\<close>

lemma finalize_ok:
  assumes "finalize_with_validator env name v cx w = (Inr (cx', rep), w')" and "fr_ok rep"
    and "db_inv (w_db w)"
  shows "\<exists>ls es more. w_ledger w' (ledger_path cx) = ls @ more \<and> load_locked env ls = Inr es \<and>
      v es = Inr (fr_graph_metrics rep, [])"
    and "has_checkpoint (job_id (cx_job cx)) VALIDATE ''evidence-finalization'' (w_db w')"
    and "find_job (job_id (cx_job cx)) (w_db w') = Some (fr_job rep)" and "status (fr_job rep) = SUCCEEDED"
proof -
  let ?p = "ledger_path cx"
  obtain receipt w1 m w2 cx1 w3 cx2 w4 cx3 where
      s1: "ledger_read env ?p (ledger_verify env) w = (Inr receipt, w1)"
    and s2: "(if \<not> report_ok receipt then return_act ([], [''ledger: '' @ report_error receipt])
        else ledger_read env ?p (\<lambda>ls. run_validator v (load_locked env ls))) w1 = (Inr (m, []), w2)"
    and s3: "context_checkpoint env VALIDATE ''evidence-finalization''
        (JObj [(''ok'', JBool True), (''validator_name'', JStr name),
               (''validation_metrics'', metrics_json m)]) cx w2 = (Inr cx1, w3)"
    and s4: "context_transition env VALIDATING None False cx1 w3 = (Inr cx2, w4)"
    and s5: "context_transition env SUCCEEDED None True cx2 w4 = (Inr cx3, w')"
    and rep: "fr_job rep = cx_job cx3" "fr_graph_metrics rep = m"
    using assms(1,2) unfolding finalize_with_validator_def
    by (auto simp: return_act_def raise_act_def split: if_splits elim!: bind_act_InrE)
  have s2': "ledger_read env ?p (\<lambda>ls. run_validator v (load_locked env ls)) w1 = (Inr (m, []), w2)"
    using s2 by (simp add: return_act_def split: if_splits)
  obtain es where es: "load_locked env (w_ledger w2 ?p) = Inr es" "v es = Inr (m, [])"
    using ledger_read_InrD [OF s2'] run_validator_no_issues by blast
  note d1 = act_step_le [OF progress.ledger_read_keeps assms(3) s1]
  note d2 = act_step_le [OF progress.ledger_read_keeps d1(2) s2']
  note d3 = act_step_le [OF progress.checkpoint_keeps d2(2) s3]
  note d4 = act_step_le [OF progress.transition_keeps d3(2) s4, simplified]
  note d5 = act_step_le [OF progress.transition_keeps d4(2) s5, simplified]
  have "world_le w2 w'" using d3(1) d4(1) d5(1) by (blast intro: world_le_trans)
  then show "\<exists>ls es more. w_ledger w' ?p = ls @ more \<and> load_locked env ls = Inr es \<and>
      v es = Inr (fr_graph_metrics rep, [])"
    using es rep unfolding world_le_def by metis
  have "job_le (w_db w3) (w_db w')"
    using world_le_trans [OF d4(1) d5(1)] by (simp add: world_le_def)
  then show "has_checkpoint (job_id (cx_job cx)) VALIDATE ''evidence-finalization'' (w_db w')"
    using context_checkpoint_InrD(1) [OF s3] by (rule has_checkpoint_le [rotated])
  have "job_id (cx_job cx2) = job_id (cx_job cx)"
    using context_checkpoint_InrD(3) [OF s3] context_transition_InrD(3) [OF s4] by simp
  then show "find_job (job_id (cx_job cx)) (w_db w') = Some (fr_job rep)" "status (fr_job rep) = SUCCEEDED"
    using context_transition_InrD [OF s5] rep by simp_all
qed

lemma finalize_not_ok:
  assumes "finalize_with_validator env name v cx w = (Inr (cx', rep), w')" and "\<not> fr_ok rep"
  shows "fr_issues rep \<noteq> []" and "status (fr_job rep) = FAILED"
    and "find_job (job_id (cx_job cx)) (w_db w') = Some (fr_job rep)"
  using assms context_transition_InrD
  by (auto simp: finalize_with_validator_def return_act_def raise_act_def split: if_splits
      elim!: bind_act_InrE)

end
