(* ===== verification/Worker.thy ===== *)
theory Worker
  imports Runtime
begin

text \<open>
  The recoverable stage worker (\<open>src/orchestration/worker.py\<close>): claiming a runnable job,
  running the stages whose checkpoint is not committed yet, finalizing, and turning every
  exception into a recorded outcome.

  The stage handlers are parameters: a handler maps its invocation and the moment of the call
  to the value it returns or the exception it raises; what a handler does to the shared stores
  is part of the schedule of the other processes.  The finalizer is \<open>finalize_with_validator\<close>
  with a name and a validator, which is what both finalizers of the program are.
\<close>

section \<open>Model\<close>

definition EXECUTION_STAGES :: "stage list" where
  "EXECUTION_STAGES = filter (\<lambda>s. s \<noteq> VALIDATE) stages"

record stage_invocation =
  si_job :: job
  si_stage :: stage
  si_operation_id :: string

record stage_result =
  sr_events :: "event_spec list"
  sr_charges :: "charge_request list"
  sr_checkpoint :: json

text \<open>What a handler call gives: a \<open>StageResult\<close>, another object, or an exception.\<close>

datatype handler_return = Returned stage_result | ReturnedOther | HandlerRaised py_exn

type_synonym handler = "stage_invocation \<Rightarrow> nat \<Rightarrow> handler_return"

record worker_report =
  wr_claimed :: bool
  wr_job_id :: string
  wr_status :: string
  wr_stages_committed :: "stage list"
  wr_error_code :: string
  wr_finalization :: "final_report option"

record worker_config =
  wc_worker_id :: string
  wc_handlers :: "stage \<Rightarrow> handler option"
  wc_lease_seconds :: time
  wc_max_attempts :: int
  wc_finalizer :: "string \<times> validator"
  wc_job_id :: "string option"

text \<open>The constructor: an argument check, then the fields.\<close>

definition worker_init :: "worker_config \<Rightarrow> worker_config result" where
  "worker_init c =
     (if blank (wc_worker_id c) \<or> wc_lease_seconds c \<le> 0 \<or> wc_max_attempts c < 1
      then Inl (ValueError ''worker id, positive lease, and max_attempts are required'')
      else let missing = filter (\<lambda>s. wc_handlers c s = None) EXECUTION_STAGES in
        if missing \<noteq> []
        then Inl (ValueError (''missing stage handlers: '' @ join '', '' (map stage_value missing)))
        else Inr c)"

definition checkpoint_key :: "stage \<Rightarrow> string" where
  "checkpoint_key s = ''stage:'' @ stage_value s @ '':v1''"

definition operation_id :: "job \<Rightarrow> stage \<Rightarrow> string" where
  "operation_id j s = job_id j @ '':'' @ stage_value s @ '':v1''"

fun is_lease_conflict :: "py_exn \<Rightarrow> bool" where
  "is_lease_conflict (LeaseConflict m) = True"
| "is_lease_conflict e = False"

text \<open>The first candidate that can be leased; a lease conflict moves on to the next.\<close>

fun claim_first :: "py_env \<Rightarrow> worker_config \<Rightarrow> string list \<Rightarrow> job option act" where
  "claim_first env c [] = return_act None"
| "claim_first env c (k # ks) = catch_act
     (bind_act (store_act env (\<lambda>now d. AcquireLease k (wc_worker_id c) (wc_lease_seconds c) now))
        (\<lambda>j. return_act (Some j)))
     (\<lambda>e. if is_lease_conflict e then claim_first env c ks else raise_act e)"

definition claim_job :: "py_env \<Rightarrow> worker_config \<Rightarrow> job option act" where
  "claim_job env c = bind_act
     (case wc_job_id c of
        Some k \<Rightarrow> return_act [k]
      | None \<Rightarrow> store_read env (\<lambda>now db. Inr (runnable_job_ids 100 now db)))
     (claim_first env c)"

definition fail_job :: "py_env \<Rightarrow> worker_config \<Rightarrow> job \<Rightarrow> bool \<Rightarrow> string \<Rightarrow> job act" where
  "fail_job env c j retryable code =
     bind_act (store_read env (\<lambda>now db. get_job (job_id j) None db)) (\<lambda>current.
       if status current \<in> set [CANCELLED, FAILED, SUCCEEDED] then return_act current
       else let target = (if retryable \<and> attempts current < wc_max_attempts c
                          then RETRY_WAIT else FAILED)
         in store_act env (\<lambda>now d. Transition (job_id current) target None (Some code) True now))"

fun emit_all :: "py_env \<Rightarrow> event_spec list \<Rightarrow> context_state \<Rightarrow> unit act" where
  "emit_all env [] cx = return_act ()"
| "emit_all env (s # ss) cx = bind_act (emit env s cx) (\<lambda>e. emit_all env ss cx)"

fun charge_all :: "py_env \<Rightarrow> charge_request list \<Rightarrow> context_state \<Rightarrow> context_state act" where
  "charge_all env [] cx = return_act cx"
| "charge_all env (r # rs) cx = bind_act (context_charge env r cx) (charge_all env rs)"

definition call_handler :: "worker_config \<Rightarrow> stage_invocation \<Rightarrow> stage_result act" where
  "call_handler c ivn w = (case wc_handlers c (si_stage ivn) of
     None \<Rightarrow> (Inl (KeyError (stage_value (si_stage ivn))), w)
   | Some h \<Rightarrow> (case h ivn (w_tick w) of
       Returned r \<Rightarrow> (Inr r, w)
     | ReturnedOther \<Rightarrow> (Inl (FatalStageError (stage_value (si_stage ivn) @ '' handler returned invalid result'')), w)
     | HandlerRaised e \<Rightarrow> (Inl e, w)))"

text \<open>One stage: the cancelled job, or the context after the committed checkpoint.\<close>

definition run_stage ::
  "py_env \<Rightarrow> worker_config \<Rightarrow> stage \<Rightarrow> context_state \<Rightarrow> (job + context_state) act" where
  "run_stage env c s cx =
     bind_act (store_read env (\<lambda>now db. get_job (job_id (cx_job cx)) None db)) (\<lambda>current.
       if status current = CANCELLED then return_act (Inl current)
       else if status current \<noteq> RUNNING
       then raise_act (FatalStageError (''job left RUNNING state: '' @ status_value (status current)))
       else let ivn = \<lparr>si_job = current, si_stage = s, si_operation_id = operation_id (cx_job cx) s\<rparr> in
         bind_act (call_handler c ivn) (\<lambda>r.
         bind_act (emit_all env (sr_events r) cx) (\<lambda>u.
         bind_act (charge_all env (sr_charges r) cx) (\<lambda>cx1.
           case spread (sr_checkpoint r) [(''operation_id'', JStr (si_operation_id ivn))] of
             Inl e \<Rightarrow> raise_act e
           | Inr p \<Rightarrow> bind_act (context_checkpoint env s (checkpoint_key s) p cx1)
               (\<lambda>cx2. return_act (Inr cx2))))))"

text \<open>
  The loop over the stages, with the list of stages committed so far (a local variable the
  exception handlers of \<open>run_once\<close> read).
\<close>

datatype loop_end = LoopDone context_state | LoopCancelled job | LoopRaised py_exn

fun run_stages ::
  "py_env \<Rightarrow> worker_config \<Rightarrow> string list \<Rightarrow> stage list \<Rightarrow> context_state \<Rightarrow> stage list \<Rightarrow> world
    \<Rightarrow> (loop_end \<times> stage list) \<times> world" where
  "run_stages env c committed [] cx done_stages w = ((LoopDone cx, done_stages), w)"
| "run_stages env c committed (s # ss) cx done_stages w =
     (if checkpoint_key s \<in> set committed then run_stages env c committed ss cx done_stages w
      else (case run_stage env c s cx w of
        (Inl e, w') \<Rightarrow> ((LoopRaised e, done_stages), w')
      | (Inr (Inl j), w') \<Rightarrow> ((LoopCancelled j, done_stages), w')
      | (Inr (Inr cx'), w') \<Rightarrow> run_stages env c committed ss cx' (done_stages @ [s]) w'))"

definition claimed_report :: "job \<Rightarrow> stage list \<Rightarrow> job \<Rightarrow> string \<Rightarrow> worker_report" where
  "claimed_report j ss current code = \<lparr>wr_claimed = True, wr_job_id = job_id j,
     wr_status = status_value (status current), wr_stages_committed = ss, wr_error_code = code,
     wr_finalization = None\<rparr>"

definition idle_report :: worker_report where
  "idle_report = \<lparr>wr_claimed = False, wr_job_id = [], wr_status = ''IDLE'', wr_stages_committed = [],
     wr_error_code = [], wr_finalization = None\<rparr>"

definition fail_with ::
  "py_env \<Rightarrow> worker_config \<Rightarrow> job \<Rightarrow> stage list \<Rightarrow> bool \<Rightarrow> string \<Rightarrow> worker_report act" where
  "fail_with env c j ss retryable code = bind_act (fail_job env c j retryable code)
     (\<lambda>failed. return_act (claimed_report j ss failed code))"

text \<open>
  The \<open>except\<close> clauses, in their order.  \<open>IdempotencyConflict\<close> there is the one of the job
  store; the one of the ledger is a \<open>LedgerIntegrityError\<close>.
\<close>

definition handle_exception ::
  "py_env \<Rightarrow> worker_config \<Rightarrow> job \<Rightarrow> stage list \<Rightarrow> py_exn \<Rightarrow> worker_report act" where
  "handle_exception env c j ss e = (case e of
     RetryableStageError m \<Rightarrow> fail_with env c j ss True ''RETRYABLE_STAGE_ERROR''
   | BudgetExceeded names \<Rightarrow> fail_with env c j ss False ''BUDGET_EXCEEDED''
   | EventValidationError m \<Rightarrow> fail_with env c j ss False ''FATAL_STAGE_ERROR''
   | FatalStageError m \<Rightarrow> fail_with env c j ss False ''FATAL_STAGE_ERROR''
   | GraphInvariantError m \<Rightarrow> fail_with env c j ss False ''FATAL_STAGE_ERROR''
   | JobIdempotencyConflict m \<Rightarrow> fail_with env c j ss False ''FATAL_STAGE_ERROR''
   | IllegalTransition m \<Rightarrow> fail_with env c j ss False ''FATAL_STAGE_ERROR''
   | LedgerIntegrityError m \<Rightarrow> fail_with env c j ss False ''FATAL_STAGE_ERROR''
   | LedgerIdempotencyConflict m \<Rightarrow> fail_with env c j ss False ''FATAL_STAGE_ERROR''
   | LeaseConflict m \<Rightarrow>
       bind_act (store_read env (\<lambda>now db. get_job (job_id j) None db)) (\<lambda>current.
         if status current = CANCELLED then return_act (claimed_report j ss current [])
         else fail_with env c j ss True ''LEASE_LOST'')
   | _ \<Rightarrow> fail_with env c j ss True ''UNHANDLED_STAGE_ERROR'')"

definition finish_run :: "py_env \<Rightarrow> worker_config \<Rightarrow> job \<Rightarrow> stage list \<Rightarrow> context_state \<Rightarrow> worker_report act" where
  "finish_run env c j ss cx =
     bind_act (finalize_with_validator env (fst (wc_finalizer c)) (snd (wc_finalizer c)) cx)
       (\<lambda>(cx', fin). return_act \<lparr>wr_claimed = True, wr_job_id = job_id j,
          wr_status = status_value (status (fr_job fin)), wr_stages_committed = ss,
          wr_error_code = (if fr_ok fin then [] else ''EVIDENCE_INVARIANT_FAILED''),
          wr_finalization = Some fin\<rparr>)"

definition run_claimed :: "py_env \<Rightarrow> worker_config \<Rightarrow> job \<Rightarrow> string list \<Rightarrow> worker_report act" where
  "run_claimed env c j committed w =
     (case run_stages env c committed EXECUTION_STAGES
         \<lparr>cx_job = j, cx_worker_id = wc_worker_id c\<rparr> [] w of
       ((LoopRaised e, ss), w') \<Rightarrow> handle_exception env c j ss e w'
     | ((LoopCancelled current, ss), w') \<Rightarrow> (Inr (claimed_report j ss current []), w')
     | ((LoopDone cx, ss), w') \<Rightarrow>
         catch_act (finish_run env c j ss cx) (handle_exception env c j ss) w')"

definition run_once :: "py_env \<Rightarrow> worker_config \<Rightarrow> worker_report act" where
  "run_once env c = bind_act (claim_job env c) (\<lambda>claimed. case claimed of
     None \<Rightarrow> return_act idle_report
   | Some j \<Rightarrow> bind_act (store_read env (\<lambda>now db. Inr (map cp_checkpoint_key (checkpoints_of (job_id j) db))))
       (run_claimed env c j))"

section \<open>A run under any interleaving\<close>

context stage_invariant
begin

lemma call_handler_keeps: "keeps S (call_handler c ivn)"
  by (auto simp: keeps_iff call_handler_def split: option.split handler_return.split)

lemma emit_all_keeps: "keeps S (emit_all env ss cx)"
  by (induction ss) (auto intro!: act_keeps emit_keeps)

lemma charge_all_keeps: "keeps S (charge_all env rs cx)"
  by (induction rs arbitrary: cx) (auto intro!: act_keeps charge_keeps)

lemma run_stage_keeps: "keeps S (run_stage env c s cx)"
  unfolding run_stage_def Let_def
  by (auto split: sum.splits
      intro!: act_keeps call_handler_keeps emit_all_keeps charge_all_keeps checkpoint_keeps)

lemma run_stages_keeps: "S w \<Longrightarrow> S (snd (run_stages env c committed ss cx done_stages w))"
proof (induction ss arbitrary: cx done_stages w)
  case (Cons s ss)
  have "S (snd (run_stage env c s cx w))" using run_stage_keeps Cons.prems by (simp add: keeps_iff)
  then show ?case using Cons.IH Cons.prems by (auto split: prod.split sum.split)
qed simp

lemma finish_run_keeps: "keeps S (finish_run env c j ss cx)"
  unfolding finish_run_def by (intro keeps_bind finalize_keeps) (auto intro: triple_return)

end

context world_invariant
begin

lemma claim_keeps: "keeps S (claim_job env c)"
proof -
  have "keeps S (claim_first env c ks)" for ks
    by (induction ks) (auto intro!: act_keeps keeps_catch)
  then show ?thesis by (auto simp: claim_job_def split: option.split intro!: act_keeps)
qed

lemma fail_keeps: "keeps S (fail_job env c j retryable code)"
  by (auto simp: fail_job_def Let_def intro!: act_keeps)

lemma handle_keeps: "keeps S (handle_exception env c j ss e)"
  by (auto simp: handle_exception_def fail_with_def split: py_exn.split intro!: act_keeps fail_keeps)

lemma finish_keeps: "keeps S (catch_act (finish_run env c j ss cx) (handle_exception env c j ss))"
  by (intro keeps_catch finish_run_keeps handle_keeps)

lemma run_claimed_keeps: "keeps S (run_claimed env c j committed)"
  unfolding keeps_iff
proof (intro allI impI)
  fix w
  assume "S w"
  obtain r ss w' where r: "run_stages env c committed EXECUTION_STAGES
      \<lparr>cx_job = j, cx_worker_id = wc_worker_id c\<rparr> [] w = ((r, ss), w')"
    by (metis prod.collapse)
  with run_stages_keeps [OF \<open>S w\<close>] have "S w'" by (metis snd_conv)
  then show "S (snd (run_claimed env c j committed w))"
    using finish_keeps [unfolded keeps_iff] handle_keeps [unfolded keeps_iff]
    unfolding run_claimed_def r by (cases r) simp_all
qed

lemma run_once_keeps: "keeps S (run_once env c)"
  unfolding run_once_def
  by (auto split: option.split intro!: act_keeps claim_keeps run_claimed_keeps)

end

section \<open>What a run leaves behind\<close>

text \<open>The job a run works on: present in the store, with the identity it was claimed with.\<close>

definition known :: "job \<Rightarrow> world \<Rightarrow> bool" where
  "known j w \<longleftrightarrow> db_inv (w_db w) \<and>
     (\<exists>k. find_job (job_id j) (w_db w) = Some k \<and> tenant_id k = tenant_id j)"

definition ctx_of :: "job \<Rightarrow> context_state \<Rightarrow> bool" where
  "ctx_of j cx \<longleftrightarrow> job_id (cx_job cx) = job_id j \<and> tenant_id (cx_job cx) = tenant_id j"

lemma known_le: "known j w \<Longrightarrow> world_le w w' \<Longrightarrow> known j w'"
  unfolding known_def world_le_def job_le_def job_grows_def by metis

lemma known_ctx:
  "known j w \<Longrightarrow> ctx_of j cx \<Longrightarrow> find_job (job_id (cx_job cx)) (w_db w) = Some (cx_job cx') \<Longrightarrow> ctx_of j cx'"
  using find_job_id by (fastforce simp: known_def ctx_of_def)

lemma context_charge_InrD:
  assumes "context_charge env r cx w = (Inr cx', w')"
  shows "find_job (job_id (cx_job cx)) (w_db w') = Some (cx_job cx')"
proof -
  obtain j w1 where a: "store_act env (\<lambda>now d. Charge (job_id (cx_job cx)) r now) w = (Inr j, w1)"
    and b: "return_act (cx\<lparr>cx_job := j\<rparr>) w1 = (Inr cx', w')"
    using assms unfolding context_charge_def by (rule bind_act_InrE)
  from b have b: "cx_job cx' = j" "w1 = w'" by (auto simp: return_act_def)
  have "charge (job_id (cx_job cx)) r (w_clock w (w_tick w)) (w_db (tick env w)) = Inr (j, w_db w')"
    using store_act_InrD [OF a] b by simp
  then show ?thesis using b(1) by (cases rule: charge_cases) simp_all
qed

lemma charge_all_ctx:
  "charge_all env rs cx w = (Inr cx', w') \<Longrightarrow> known j w \<Longrightarrow> ctx_of j cx \<Longrightarrow> ctx_of j cx'"
proof (induction rs arbitrary: cx w)
  case Nil
  then show ?case by (simp add: return_act_def)
next
  case (Cons r rs)
  obtain cx1 w1 where a: "context_charge env r cx w = (Inr cx1, w1)"
    and b: "charge_all env rs cx1 w1 = (Inr cx', w')"
    using Cons.prems(1) by (auto elim: bind_act_InrE)
  have "world_le w w1"
    using act_step_le(1) [OF progress.charge_keeps _ a] Cons.prems(2) by (simp add: known_def)
  then have k: "known j w1" using Cons.prems(2) by (rule known_le [rotated])
  then show ?case
    using Cons.IH [OF b k] known_ctx [OF k Cons.prems(3) context_charge_InrD [OF a]] by blast
qed

lemma run_stage_InrD:
  assumes "run_stage env c s cx w = (Inr (Inr cx'), w')" and "known j w" and "ctx_of j cx"
  shows "ctx_of j cx'" and "has_checkpoint (job_id j) s (checkpoint_key s) (w_db w')"
proof -
  obtain current w1 r w2 u w3 cx1 w4 p where
      s1: "store_read env (\<lambda>now db. get_job (job_id (cx_job cx)) None db) w = (Inr current, w1)"
    and s2: "call_handler c \<lparr>si_job = current, si_stage = s, si_operation_id = operation_id (cx_job cx) s\<rparr> w1
        = (Inr r, w2)"
    and s3: "emit_all env (sr_events r) cx w2 = (Inr u, w3)"
    and s4: "charge_all env (sr_charges r) cx w3 = (Inr cx1, w4)"
    and s5: "context_checkpoint env s (checkpoint_key s) p cx1 w4 = (Inr cx', w')"
    using assms(1) unfolding run_stage_def Let_def
    by (auto simp: return_act_def raise_act_def split: if_splits sum.splits elim!: bind_act_InrE)
  have inv: "db_inv (w_db w)" using assms(2) by (simp add: known_def)
  note d1 = act_step_le [OF progress.store_read_keeps inv s1]
  note d2 = act_step_le [OF progress.call_handler_keeps d1(2) s2]
  note d3 = act_step_le [OF progress.emit_all_keeps d2(2) s3]
  note d4 = act_step_le [OF progress.charge_all_keeps d3(2) s4]
  note d5 = act_step_le [OF progress.checkpoint_keeps d4(2) s5]
  have k3: "known j w3" using assms(2) d1(1) d2(1) d3(1) by (blast intro: known_le)
  then have cx1: "ctx_of j cx1" using s4 assms(3) by (blast intro: charge_all_ctx)
  have "known j w'" using k3 d4(1) d5(1) by (blast intro: known_le)
  then show "ctx_of j cx'" using cx1 context_checkpoint_InrD(2) [OF s5] by (rule known_ctx)
  show "has_checkpoint (job_id j) s (checkpoint_key s) (w_db w')"
    using context_checkpoint_InrD(1) [OF s5] cx1 by (simp add: ctx_of_def)
qed

definition loop_ok :: "job \<Rightarrow> string list \<Rightarrow> stage list \<Rightarrow> stage list \<Rightarrow> world \<Rightarrow> bool" where
  "loop_ok j committed ss new w \<longleftrightarrow> set new \<subseteq> set ss \<and> (distinct ss \<longrightarrow> distinct new) \<and>
     (\<forall>s \<in> set new. checkpoint_key s \<notin> set committed \<and>
        has_checkpoint (job_id j) s (checkpoint_key s) (w_db w))"

lemma loop_ok_le: "loop_ok j committed ss new w \<Longrightarrow> world_le w w' \<Longrightarrow> loop_ok j committed ss new w'"
  by (auto simp: loop_ok_def world_le_def intro: has_checkpoint_le)

lemma run_stages_result:
  "run_stages env c committed ss cx done_stages w = ((r, ds), w') \<Longrightarrow> known j w \<Longrightarrow> ctx_of j cx \<Longrightarrow>
   \<exists>new. ds = done_stages @ new \<and> loop_ok j committed ss new w' \<and> world_le w w' \<and>
     (\<forall>cx'. r = LoopDone cx' \<longrightarrow> ctx_of j cx' \<and>
        (\<forall>s \<in> set ss. checkpoint_key s \<in> set committed \<or> s \<in> set new))"
proof (induction ss arbitrary: cx done_stages w)
  case Nil
  then show ?case by (auto simp: loop_ok_def known_def intro: world_le_refl)
next
  case (Cons s ss)
  have inv: "db_inv (w_db w)" using Cons.prems(2) by (simp add: known_def)
  show ?case
  proof (cases "checkpoint_key s \<in> set committed")
    case True
    then show ?thesis using Cons.IH [of cx done_stages w] Cons.prems by (fastforce simp: loop_ok_def)
  next
    case False
    obtain res w1 where res: "run_stage env c s cx w = (res, w1)" by (cases "run_stage env c s cx w")
    have le: "world_le w w1" by (rule act_step_le(1) [OF progress.run_stage_keeps inv res])
    show ?thesis
    proof (cases "\<exists>cx1. res = Inr (Inr cx1)")
      case True
      then obtain cx1 where cx1: "res = Inr (Inr cx1)" by blast
      note st = run_stage_InrD [OF res [unfolded cx1] Cons.prems(2,3)]
      have "run_stages env c committed ss cx1 (done_stages @ [s]) w1 = ((r, ds), w')"
        using Cons.prems(1) False res cx1 by simp
      from Cons.IH [OF this known_le [OF Cons.prems(2) le] st(1)]
      obtain new where new: "ds = done_stages @ s # new" "loop_ok j committed ss new w'" "world_le w1 w'"
          "\<forall>cx'. r = LoopDone cx' \<longrightarrow> ctx_of j cx' \<and>
             (\<forall>s \<in> set ss. checkpoint_key s \<in> set committed \<or> s \<in> set new)" by auto
      have "has_checkpoint (job_id j) s (checkpoint_key s) (w_db w')"
        using st(2) new(3) by (auto simp: world_le_def intro: has_checkpoint_le)
      then have "loop_ok j committed (s # ss) (s # new) w'"
        using new(2) False by (auto simp: loop_ok_def)
      moreover have "world_le w w'" using le new(3) by (rule world_le_trans)
      ultimately show ?thesis using new by (intro exI [of _ "s # new"]) auto
    next
      case False
      then have "ds = done_stages \<and> w' = w1 \<and> (\<forall>cx'. r \<noteq> LoopDone cx')"
        using Cons.prems(1) res \<open>checkpoint_key s \<notin> set committed\<close>
        by (auto split: sum.splits)
      then show ?thesis using le by (auto simp: loop_ok_def)
    qed
  qed
qed

text \<open>A claim: the job is leased to this worker in the world it leaves.\<close>

lemma claim_first_SomeD:
  "claim_first env c ks w = (Inr (Some j), w') \<Longrightarrow>
   \<exists>k \<in> set ks. \<exists>now db. acquire_lease k (wc_worker_id c) (wc_lease_seconds c) now db = Inr (j, w_db w')"
proof (induction ks arbitrary: w)
  case (Cons k ks)
  obtain r w1 where a: "store_act env (\<lambda>now d. AcquireLease k (wc_worker_id c) (wc_lease_seconds c) now) w
      = (r, w1)" by fastforce
  show ?case
  proof (cases r)
    case (Inl e)
    with a Cons show ?thesis
      by (auto simp: catch_act_def bind_act_def raise_act_def split: if_splits)
  next
    case (Inr i)
    with a Cons.prems have "i = j" "w1 = w'"
      by (simp_all add: catch_act_def bind_act_def return_act_def)
    then show ?thesis using store_act_InrD [OF a [unfolded Inr]] by auto
  qed
qed (simp add: return_act_def)

lemma claim_job_SomeD:
  assumes "claim_job env c w = (Inr (Some j), w')"
  obtains k now db where "acquire_lease k (wc_worker_id c) (wc_lease_seconds c) now db = Inr (j, w_db w')"
    and "wc_job_id c = None \<or> wc_job_id c = Some k"
proof -
  obtain ks w1 where ks: "wc_job_id c = None \<or> wc_job_id c = Some (hd ks) \<and> ks = [hd ks]"
    and cl: "claim_first env c ks w1 = (Inr (Some j), w')"
  proof (cases "wc_job_id c")
    case None
    with assms that show thesis by (auto simp: claim_job_def elim!: bind_act_InrE)
  next
    case (Some k)
    then have "claim_first env c [k] w = (Inr (Some j), w')"
      using assms by (simp add: claim_job_def bind_act_def return_act_def del: claim_first.simps)
    then show thesis using that [of "[k]" w] Some by simp
  qed
  from claim_first_SomeD [OF cl] obtain k now db where "k \<in> set ks"
      "acquire_lease k (wc_worker_id c) (wc_lease_seconds c) now db = Inr (j, w_db w')" by blast
  then show thesis using ks that by (metis empty_iff list.set(1) set_ConsD)
qed

lemma claimed_known:
  assumes "claim_job env c w = (Inr (Some j), w')" and "db_inv (w_db w)"
  shows "known j w'" and "world_le w w'" and "find_job (job_id j) (w_db w') = Some j" and "status j = RUNNING"
proof -
  show le: "world_le w w'" using act_step_le(1) [OF progress.claim_keeps assms(2,1)] .
  obtain k now db where a: "acquire_lease k (wc_worker_id c) (wc_lease_seconds c) now db = Inr (j, w_db w')"
    using assms(1) by (rule claim_job_SomeD)
  show f: "find_job (job_id j) (w_db w') = Some j" using a by (rule acquire_lease_InrD) simp
  show "status j = RUNNING" using a by (rule acquire_lease_InrD) simp
  show "known j w'" using f le by (simp add: known_def world_le_def)
qed

lemma fail_with_report:
  "fail_with env c j ss retryable code w = (Inr rep, w') \<Longrightarrow>
   wr_finalization rep = None \<and> wr_stages_committed rep = ss \<and> wr_job_id rep = job_id j"
  unfolding fail_with_def by (auto simp: return_act_def claimed_report_def elim!: bind_act_InrE)

lemma handle_exception_report:
  "handle_exception env c j ss e w = (Inr rep, w') \<Longrightarrow>
   wr_finalization rep = None \<and> wr_stages_committed rep = ss \<and> wr_job_id rep = job_id j"
  using fail_with_report
  by (cases e) (fastforce simp: handle_exception_def return_act_def claimed_report_def
      elim!: bind_act_InrE split: if_splits)+

text \<open>The cases of a completed run of a claimed job.\<close>

lemma run_claimed_cases:
  assumes "run_claimed env c j committed w = (Inr rep, w')" and "known j w"
  obtains (finalized) cx fin w1 new cx' where "ctx_of j cx" and "known j w1" and "world_le w w1"
      and "loop_ok j committed EXECUTION_STAGES new w1" and "wr_stages_committed rep = new"
      and "\<forall>s \<in> set EXECUTION_STAGES. checkpoint_key s \<in> set committed \<or> s \<in> set new"
      and "finalize_with_validator env (fst (wc_finalizer c)) (snd (wc_finalizer c)) cx w1 = (Inr (cx', fin), w')"
      and "wr_finalization rep = Some fin" and "wr_job_id rep = job_id j"
      and "wr_status rep = status_value (status (fr_job fin))"
    | (stopped) new where "loop_ok j committed EXECUTION_STAGES new w'" and "wr_stages_committed rep = new"
      and "wr_finalization rep = None" and "wr_job_id rep = job_id j"
proof -
  obtain r ss w1 where r: "run_stages env c committed EXECUTION_STAGES
      \<lparr>cx_job = j, cx_worker_id = wc_worker_id c\<rparr> [] w = ((r, ss), w1)"
    by (metis prod.collapse)
  have ctx: "ctx_of j \<lparr>cx_job = j, cx_worker_id = wc_worker_id c\<rparr>" by (simp add: ctx_of_def)
  from run_stages_result [OF r assms(2) ctx]
  have L: "loop_ok j committed EXECUTION_STAGES ss w1" "world_le w w1"
      "\<forall>cx'. r = LoopDone cx' \<longrightarrow> ctx_of j cx' \<and>
        (\<forall>s \<in> set EXECUTION_STAGES. checkpoint_key s \<in> set committed \<or> s \<in> set ss)"
    by auto
  have k1: "known j w1" using assms(2) L(2) by (rule known_le)
  then have inv1: "db_inv (w_db w1)" by (simp add: known_def)
  show thesis
  proof (cases r)
    case (LoopDone cx)
    obtain res w2 where res: "finish_run env c j ss cx w1 = (res, w2)" by fastforce
    show thesis
    proof (cases res)
      case (Inl e)
      then have h: "handle_exception env c j ss e w2 = (Inr rep, w')"
        using assms(1) r LoopDone res by (simp add: run_claimed_def catch_act_def)
      have d2: "world_le w1 w2" "db_inv (w_db w2)"
        using act_step_le [OF progress.finish_run_keeps inv1 res] by simp_all
      have "world_le w1 w'"
        using d2 act_step_le(1) [OF progress.handle_keeps d2(2) h] by (blast intro: world_le_trans)
      then show thesis
        using stopped [of ss] loop_ok_le [OF L(1)] handle_exception_report [OF h] by simp
    next
      case (Inr rep1)
      then have "rep1 = rep" "w2 = w'"
        using assms(1) r LoopDone res by (simp_all add: run_claimed_def catch_act_def)
      then show thesis
        using res Inr finalized [OF _ k1 L(2,1)] L(3) LoopDone
        by (auto simp: finish_run_def return_act_def elim!: bind_act_InrE)
    qed
  next
    case (LoopCancelled current)
    then have "rep = claimed_report j ss current []" "w' = w1"
      using assms(1) r by (simp_all add: run_claimed_def)
    then show thesis using stopped [of ss] L(1) by (simp add: claimed_report_def)
  next
    case (LoopRaised e)
    then have h: "handle_exception env c j ss e w1 = (Inr rep, w')"
      using assms(1) r by (simp add: run_claimed_def)
    then show thesis
      using stopped [of ss] loop_ok_le [OF L(1) act_step_le(1) [OF progress.handle_keeps inv1 h]]
        handle_exception_report [OF h] by simp
  qed
qed

lemma run_once_cases:
  assumes "run_once env c w = (Inr rep, w')" and "db_inv (w_db w)"
  obtains (idle) "rep = idle_report"
    | (claimed) j w1 w2 where "claim_job env c w = (Inr (Some j), w1)"
      and "world_le w1 w2" and "known j w2" and "world_le w w1"
      and "run_claimed env c j (map cp_checkpoint_key (checkpoints_of (job_id j) (w_db w2))) w2 = (Inr rep, w')"
proof -
  obtain claimed w1 where cl: "claim_job env c w = (Inr claimed, w1)"
    and rest: "(case claimed of None \<Rightarrow> return_act idle_report
     | Some j \<Rightarrow> bind_act (store_read env (\<lambda>now db. Inr (map cp_checkpoint_key (checkpoints_of (job_id j) db))))
       (run_claimed env c j)) w1 = (Inr rep, w')"
    using assms(1) unfolding run_once_def by (rule bind_act_InrE)
  show thesis
  proof (cases claimed)
    case None
    then show thesis using rest idle by (simp add: return_act_def)
  next
    case (Some j)
    note k = claimed_known [OF cl [unfolded Some] assms(2)]
    obtain keys w2 where s: "store_read env (\<lambda>now db. Inr (map cp_checkpoint_key (checkpoints_of (job_id j) db))) w1
        = (Inr keys, w2)" and rc: "run_claimed env c j keys w2 = (Inr rep, w')"
      using rest Some by (auto elim: bind_act_InrE)
    have "keys = map cp_checkpoint_key (checkpoints_of (job_id j) (w_db w2))"
      using s by (auto simp: store_read_def Let_def)
    moreover have le: "world_le w1 w2"
      using act_step_le(1) [OF progress.store_read_keeps _ s] k(1) by (simp add: known_def)
    ultimately show thesis using claimed cl Some rc k(2) known_le [OF k(1) le] by blast
  qed
qed

definition has_key :: "string \<Rightarrow> string \<Rightarrow> job_db \<Rightarrow> bool" where
  "has_key jid key db \<longleftrightarrow> (\<exists>c \<in> set (checkpoint_rows db). cp_job_id c = jid \<and> cp_checkpoint_key c = key)"

lemma has_key_le: "has_key jid key db \<Longrightarrow> job_le db db' \<Longrightarrow> has_key jid key db'"
  by (auto simp: has_key_def job_le_def)

lemma has_checkpoint_key: "has_checkpoint jid s key db \<Longrightarrow> has_key jid key db"
  by (auto simp: has_key_def has_checkpoint_def)

lemma committed_iff: "key \<in> set (map cp_checkpoint_key (checkpoints_of jid db)) \<longleftrightarrow> has_key jid key db"
  by (auto simp: has_key_def checkpoints_of_def)

text \<open>A run whose finalization says ok.\<close>

lemma run_once_finalized:
  assumes "run_once env c w = (Inr rep, w')" and "db_inv (w_db w)"
    and "wr_finalization rep = Some fin" and "fr_ok fin"
  shows "find_job (wr_job_id rep) (w_db w') = Some (fr_job fin)" and "status (fr_job fin) = SUCCEEDED"
    and "wr_status rep = ''SUCCEEDED''"
    and "has_checkpoint (wr_job_id rep) VALIDATE ''evidence-finalization'' (w_db w')"
    and "\<forall>s \<in> set EXECUTION_STAGES. has_key (wr_job_id rep) (checkpoint_key s) (w_db w')"
    and "\<exists>ls es more. w_ledger w' (tenant_id (fr_job fin), wr_job_id rep) = ls @ more \<and>
      load_locked env ls = Inr es \<and> snd (wc_finalizer c) es = Inr (fr_graph_metrics fin, [])"
proof -
  from assms(1,2) obtain j w1 w2 where k: "known j w2"
    and rc: "run_claimed env c j (map cp_checkpoint_key (checkpoints_of (job_id j) (w_db w2))) w2 = (Inr rep, w')"
    by (cases rule: run_once_cases) (use assms(3) in \<open>auto simp: idle_report_def\<close>)
  from rc k obtain cx w3 new cx' where cx: "ctx_of j cx" and k3: "known j w3" and le3: "world_le w2 w3"
    and new: "loop_ok j (map cp_checkpoint_key (checkpoints_of (job_id j) (w_db w2))) EXECUTION_STAGES new w3"
    and all: "\<forall>s \<in> set EXECUTION_STAGES. checkpoint_key s \<in>
        set (map cp_checkpoint_key (checkpoints_of (job_id j) (w_db w2))) \<or> s \<in> set new"
    and fin: "finalize_with_validator env (fst (wc_finalizer c)) (snd (wc_finalizer c)) cx w3 = (Inr (cx', fin), w')"
    and rep: "wr_job_id rep = job_id j" "wr_status rep = status_value (status (fr_job fin))"
    by (cases rule: run_claimed_cases) (use assms(3) in auto)
  have inv3: "db_inv (w_db w3)" using k3 by (simp add: known_def)
  have le: "world_le w3 w'" by (rule act_step_le(1) [OF progress.finalize_keeps inv3 fin])
  note ok = finalize_ok [OF fin assms(4) inv3]
  have id: "job_id (cx_job cx) = wr_job_id rep" using cx rep by (simp add: ctx_of_def)
  show f: "find_job (wr_job_id rep) (w_db w') = Some (fr_job fin)" using ok(3) id by simp
  show st: "status (fr_job fin) = SUCCEEDED" by (rule ok(4))
  then show "wr_status rep = ''SUCCEEDED''" using rep by simp
  show "has_checkpoint (wr_job_id rep) VALIDATE ''evidence-finalization'' (w_db w')" using ok(2) id by simp
  have "tenant_id (fr_job fin) = tenant_id j"
    using known_le [OF k3 le] f rep by (simp add: known_def)
  then have "ledger_path cx = (tenant_id (fr_job fin), wr_job_id rep)"
    using cx rep by (simp add: ledger_path_def ctx_of_def)
  then show "\<exists>ls es more. w_ledger w' (tenant_id (fr_job fin), wr_job_id rep) = ls @ more \<and>
      load_locked env ls = Inr es \<and> snd (wc_finalizer c) es = Inr (fr_graph_metrics fin, [])"
    using ok(1) by simp
  have jl: "job_le (w_db w2) (w_db w')" "job_le (w_db w3) (w_db w')"
    using world_le_trans [OF le3 le] le by (simp_all add: world_le_def)
  show "\<forall>s \<in> set EXECUTION_STAGES. has_key (wr_job_id rep) (checkpoint_key s) (w_db w')"
  proof
    fix s
    assume "s \<in> set EXECUTION_STAGES"
    with all consider "checkpoint_key s \<in> set (map cp_checkpoint_key (checkpoints_of (job_id j) (w_db w2)))"
      | "s \<in> set new" by blast
    then show "has_key (wr_job_id rep) (checkpoint_key s) (w_db w')"
    proof cases
      case 1
      then have "has_key (job_id j) (checkpoint_key s) (w_db w2)" by (simp only: committed_iff)
      then show ?thesis using jl(1) has_key_le rep(1) by metis
    next
      case 2
      then have "has_checkpoint (job_id j) s (checkpoint_key s) (w_db w3)" using new by (simp add: loop_ok_def)
      then show ?thesis using has_checkpoint_key jl(2) has_key_le rep by metis
    qed
  qed
qed

text \<open>
  Resumption: the stages a run reports as committed have their checkpoint, were executed once,
  and had none when the worker read the committed checkpoints.
\<close>

lemma run_once_stages:
  assumes "run_once env c w = (Inr rep, w')" and "db_inv (w_db w)"
  shows "distinct (wr_stages_committed rep)"
    and "\<forall>s \<in> set (wr_stages_committed rep). s \<noteq> VALIDATE \<and>
      has_checkpoint (wr_job_id rep) s (checkpoint_key s) (w_db w') \<and>
      \<not> has_key (wr_job_id rep) (checkpoint_key s) (w_db w)"
proof -
  have "distinct (wr_stages_committed rep) \<and> (\<forall>s \<in> set (wr_stages_committed rep). s \<noteq> VALIDATE \<and>
      has_checkpoint (wr_job_id rep) s (checkpoint_key s) (w_db w') \<and>
      \<not> has_key (wr_job_id rep) (checkpoint_key s) (w_db w))"
    using assms
  proof (cases rule: run_once_cases)
    case idle
    then show ?thesis by (simp add: idle_report_def)
  next
    case (claimed j w1 w2)
    have d: "distinct EXECUTION_STAGES" "\<forall>s \<in> set EXECUTION_STAGES. s \<noteq> VALIDATE"
      by (simp_all add: EXECUTION_STAGES_def stages_def)
    have w2: "job_le (w_db w) (w_db w2)"
      using world_le_trans [OF claimed(4,2)] by (simp add: world_le_def)
    have old: "\<not> has_key (job_id j) (checkpoint_key s) (w_db w)"
      if "checkpoint_key s \<notin> set (map cp_checkpoint_key (checkpoints_of (job_id j) (w_db w2)))" for s
      using that w2 has_key_le unfolding committed_iff by blast
    have new: "loop_ok j (map cp_checkpoint_key (checkpoints_of (job_id j) (w_db w2))) EXECUTION_STAGES
        (wr_stages_committed rep) w' \<and> wr_job_id rep = job_id j"
      using claimed(5,3)
    proof (cases rule: run_claimed_cases)
      case (finalized cx fin w3 new cx')
      have "world_le w3 w'"
        using act_step_le(1) [OF progress.finalize_keeps _ finalized(7)] finalized(2) by (simp add: known_def)
      then show ?thesis using finalized loop_ok_le by blast
    qed simp
    then show ?thesis using d old by (auto simp: loop_ok_def)
  qed
  then show "distinct (wr_stages_committed rep)"
    and "\<forall>s \<in> set (wr_stages_committed rep). s \<noteq> VALIDATE \<and>
      has_checkpoint (wr_job_id rep) s (checkpoint_key s) (w_db w') \<and>
      \<not> has_key (wr_job_id rep) (checkpoint_key s) (w_db w)" by simp_all
qed

end
