(* ===== verification/Worker_Laws.thy ===== *)
theory Worker_Laws
  imports Worker
begin

text \<open>
  The worker settles what it claims: as long as the other processes neither lease nor
  transition the job, a run of a claimed job never raises and leaves the job succeeded, failed
  or waiting for a further attempt, and repeated runs end in a terminal status after at most
  \<open>max_attempts\<close> of them, whatever the handlers, the validator and the ledger do.
\<close>

section \<open>Other processes that spare a job\<close>

primrec spares :: "string \<Rightarrow> job_op \<Rightarrow> bool" where
  "spares jid (CreateJob now i r) \<longleftrightarrow> True"
| "spares jid (AcquireLease k w ls now) \<longleftrightarrow> k \<noteq> jid"
| "spares jid (Heartbeat k w ls now) \<longleftrightarrow> True"
| "spares jid (SaveCheckpoint k w sg key pl now) \<longleftrightarrow> True"
| "spares jid (Charge k r now) \<longleftrightarrow> True"
| "spares jid (Transition k t v e rel now) \<longleftrightarrow> k \<noteq> jid"

text \<open>The operations that happen while a stage runs: also the transitions of the finalization.\<close>

primrec in_run :: "string \<Rightarrow> job_op \<Rightarrow> bool" where
  "in_run jid (CreateJob now i r) \<longleftrightarrow> True"
| "in_run jid (AcquireLease k w ls now) \<longleftrightarrow> k \<noteq> jid"
| "in_run jid (Heartbeat k w ls now) \<longleftrightarrow> True"
| "in_run jid (SaveCheckpoint k w sg key pl now) \<longleftrightarrow> True"
| "in_run jid (Charge k r now) \<longleftrightarrow> True"
| "in_run jid (Transition k t v e rel now) \<longleftrightarrow> k \<noteq> jid \<or> t \<in> set [FAILED, VALIDATING, SUCCEEDED]"

definition hands_off :: "string \<Rightarrow> world \<Rightarrow> bool" where
  "hands_off jid w \<longleftrightarrow> (\<forall>n op. RivalStore op \<in> set (w_rivals w n) \<longrightarrow> spares jid op)"

lemma spares_in_run: "spares jid op \<Longrightarrow> in_run jid op"
  by (cases op) simp_all

definition attempt_view :: "job \<Rightarrow> job_status \<times> string option \<times> int" where
  "attempt_view j = (status j, lease_owner j, attempts j)"

lemma spared_exec:
  assumes "exec_job_op op db = Inr (r, db')" and "spares jid op" and "find_job jid db = Some j"
  shows "map_option attempt_view (find_job jid db') = Some (attempt_view j)"
proof (cases op)
  case (CreateJob now i q)
  with assms(1) have "create_job now i q db = Inr (r, db')" by simp
  then show ?thesis
    using assms(3) by (cases rule: create_job_cases) (auto simp: find_job_def row_by_append)
next
  case (AcquireLease k w ls now)
  with assms show ?thesis by (auto simp: acquire_lease_def Let_def split: option.splits if_splits)
next
  case (Heartbeat k w ls now)
  with assms show ?thesis by (auto simp: heartbeat_def attempt_view_def split: if_splits)
next
  case (SaveCheckpoint k w sg key pl now)
  with assms(1) have "save_checkpoint k w sg key pl now db = Inr (r, db')" by simp
  then show ?thesis
    using assms(3)
  proof (cases rule: save_checkpoint_cases)
    case (1 row rendered)
    then show ?thesis
      using assms(3) by (auto simp: find_job_jobs_cong [OF 1(11)] attempt_view_def)
  qed
next
  case (Charge k q now)
  with assms(1) have "charge k q now db = Inr (r, db')" by simp
  then show ?thesis
    using assms(3)
  proof (cases rule: charge_cases)
    case (new row u)
    show ?thesis
      using assms(3) unfolding new(12) by (auto simp: attempt_view_def)
  qed simp
next
  case (Transition k t v e rel now)
  with assms(1) have "transition k t v e rel now db = Inr (r, db')" by simp
  then show ?thesis
    using assms(2,3) Transition by (cases rule: transition_cases) auto
qed

lemma do_store_db [simp]: "w_db (snd (do_store op w)) = snd (job_step op (w_db w))"
  by (simp add: do_store_def split: prod.split)

lemma spared_store:
  assumes "map_option attempt_view (find_job jid (w_db w)) = Some v" and "spares jid op"
  shows "map_option attempt_view (find_job jid (w_db (snd (do_store op w)))) = Some v"
  unfolding do_store_db job_step_def by (rule transact_cases) (use assms spared_exec in \<open>auto\<close>)

lemma do_append_db [simp]: "w_db (snd (do_append env p d q w)) = w_db w"
  by (simp add: do_append_def split: prod.split)

lemma do_append_rivals [simp]: "w_rivals (snd (do_append env p d q w)) = w_rivals w"
  by (simp add: do_append_def split: prod.split)

lemma do_store_rivals [simp]: "w_rivals (snd (do_store op w)) = w_rivals w"
  by (simp add: do_store_def split: prod.split)

lemma tick_spared:
  assumes "map_option attempt_view (find_job jid (w_db w)) = Some v" and "hands_off jid w"
  shows "map_option attempt_view (find_job jid (w_db (tick env w))) = Some v"
proof -
  have "map_option attempt_view (find_job jid (w_db (fold (rival_step env) rs u))) = Some v"
    if "map_option attempt_view (find_job jid (w_db u)) = Some v"
      "\<forall>op. RivalStore op \<in> set rs \<longrightarrow> spares jid op" for rs u
    using that
  proof (induction rs arbitrary: u)
    case (Cons r rs)
    show ?case
    proof (cases r)
      case (RivalStore op)
      then show ?thesis using Cons.IH [OF spared_store [OF Cons.prems(1)]] Cons.prems(2) by simp
    next
      case (RivalAppend p d q)
      then show ?thesis using Cons by simp
    qed
  qed simp
  then show ?thesis using assms by (simp add: tick_def hands_off_def)
qed

interpretation schedule: world_invariant env "\<lambda>w. w_rivals w = R" for env R
  by unfold_locales simp_all

lemma act_hands_off: "keeps (\<lambda>u. w_rivals u = w_rivals w) m \<Longrightarrow> hands_off jid w \<Longrightarrow> hands_off jid (snd (m w))"
  by (simp add: keeps_iff hands_off_def)

section \<open>While the job is in flight\<close>

definition in_flight :: "string \<Rightarrow> int \<Rightarrow> world \<Rightarrow> bool" where
  "in_flight jid a w \<longleftrightarrow> hands_off jid w \<and> db_inv (w_db w) \<and>
     (\<exists>j. find_job jid (w_db w) = Some j \<and> attempts j = a \<and>
        status j \<in> set [RUNNING, VALIDATING, SUCCEEDED, FAILED])"

lemma in_flight_store:
  assumes "in_flight jid a w" and "in_run jid op"
  shows "in_flight jid a (snd (do_store op w))"
proof -
  obtain j where j: "find_job jid (w_db w) = Some j" "attempts j = a"
      "status j \<in> set [RUNNING, VALIDATING, SUCCEEDED, FAILED]"
    using assms(1) unfolding in_flight_def by blast
  let ?db = "snd (job_step op (w_db w))"
  have "\<exists>k. find_job jid ?db = Some k \<and> attempts k = a \<and> status k \<in> set [RUNNING, VALIDATING, SUCCEEDED, FAILED]"
    unfolding job_step_def
  proof (rule transact_cases)
    show "\<exists>k. find_job jid (w_db w) = Some k \<and> attempts k = a \<and> status k \<in> set [RUNNING, VALIDATING, SUCCEEDED, FAILED]"
      using j by blast
    fix r db'
    assume ex: "exec_job_op op (w_db w) = Inr (r, db')"
    show "\<exists>k. find_job jid db' = Some k \<and> attempts k = a \<and> status k \<in> set [RUNNING, VALIDATING, SUCCEEDED, FAILED]"
    proof (cases "spares jid op")
      case True
      then have "map_option attempt_view (find_job jid db') = Some (attempt_view j)"
        using spared_exec [OF ex _ j(1)] by simp
      then show ?thesis using j by (auto simp: attempt_view_def)
    next
      case False
      then obtain t v e rel now where op: "op = Transition jid t v e rel now" "t \<in> set [FAILED, VALIDATING, SUCCEEDED]"
        using assms(2) by (cases op) auto
      then have "transition jid t v e rel now (w_db w) = Inr (r, db')" using ex by simp
      then show ?thesis
      proof (cases rule: transition_cases)
        case (1 row)
        have "map_option (\<lambda>k. (attempts k, status k)) (find_job jid db') = Some (a, t)"
          using 1(1,5) j by auto
        then show ?thesis using op(2) by auto
      qed
    qed
  qed
  then show ?thesis
    using assms(1) job_machine.step_inv [of "w_db w" op]
    by (simp add: in_flight_def hands_off_def)
qed

interpretation flight: stage_invariant env "in_flight jid a" "in_run jid" for env jid a
proof
  show "in_flight jid a (snd (do_store op w))" if "in_flight jid a w" "in_run jid op" for w op
    using that by (rule in_flight_store)
  show "in_run jid op" if "in_flight jid a w" "RivalStore op \<in> set (w_rivals w n)" for w op n
    using that unfolding in_flight_def hands_off_def by (blast intro: spares_in_run)
qed (simp_all add: in_flight_def hands_off_def)

lemma in_flight_step: "keeps (in_flight jid a) m \<Longrightarrow> in_flight jid a w \<Longrightarrow> m w = (r, w') \<Longrightarrow> in_flight jid a w'"
  by (metis keeps_iff snd_conv)

lemma in_flight_get:
  assumes "in_flight jid a w"
  obtains j where "get_job jid None (w_db w) = Inr j" and "find_job jid (w_db w) = Some j"
    and "attempts j = a" and "status j \<in> set [RUNNING, VALIDATING, SUCCEEDED, FAILED]" and "job_id j = jid"
  using assms find_job_id unfolding in_flight_def get_job_def by force

section \<open>Settling\<close>

text \<open>What a failed or finished run leaves of the job.\<close>

definition settled :: "worker_config \<Rightarrow> string \<Rightarrow> int \<Rightarrow> job \<Rightarrow> world \<Rightarrow> bool" where
  "settled c jid a k w \<longleftrightarrow> hands_off jid w \<and> db_inv (w_db w) \<and> find_job jid (w_db w) = Some k \<and>
     attempts k = a \<and> (status k \<in> set [SUCCEEDED, FAILED] \<or>
       (status k = RETRY_WAIT \<and> lease_owner k = None \<and> a < wc_max_attempts c))"

lemma transition_succeeds:
  assumes "find_job jid db = Some row" and "t \<in> set (ALLOWED_STATUS (status row))" and "t \<noteq> SUCCEEDED"
  shows "\<exists>j db'. transition jid t None e True now db = Inr (j, db') \<and> find_job jid db' = Some j \<and>
    status j = t \<and> lease_owner j = None \<and> attempts j = attempts row"
  using assms by (auto simp: transition_def Let_def)

lemma fail_job_settles:
  assumes "in_flight (job_id j) a w"
  shows "\<exists>k w'. fail_job env c j retryable code w = (Inr k, w') \<and> settled c (job_id j) a k w'"
proof -
  let ?w1 = "tick env w"
  have f1: "in_flight (job_id j) a ?w1" using assms by (rule flight.tick_inv)
  obtain k where k: "get_job (job_id j) None (w_db ?w1) = Inr k" "find_job (job_id j) (w_db ?w1) = Some k"
      "attempts k = a" "status k \<in> set [RUNNING, VALIDATING, SUCCEEDED, FAILED]" "job_id k = job_id j"
    using f1 by (rule in_flight_get)
  have rd: "store_read env (\<lambda>now db. get_job (job_id j) None db) w = (Inr k, ?w1)"
    using k(1) by (simp add: store_read_def Let_def)
  show ?thesis
  proof (cases "status k \<in> set [CANCELLED, FAILED, SUCCEEDED]")
    case True
    then have "fail_job env c j retryable code w = (Inr k, ?w1)"
      by (simp add: fail_job_def bind_act_def rd return_act_def)
    moreover have "settled c (job_id j) a k ?w1"
      using True k f1 by (auto simp: settled_def in_flight_def)
    ultimately show ?thesis by blast
  next
    case False
    let ?t = "if retryable \<and> attempts k < wc_max_attempts c then RETRY_WAIT else FAILED"
    let ?w2 = "tick env ?w1"
    have off: "hands_off (job_id j) ?w1" using f1 by (simp add: in_flight_def)
    have "map_option attempt_view (find_job (job_id j) (w_db ?w2)) = Some (attempt_view k)"
      using tick_spared [OF _ off] k(2) by simp
    then obtain k2 where k2: "find_job (job_id j) (w_db ?w2) = Some k2" "status k2 = status k" "attempts k2 = a"
      using k(3) by (auto simp: attempt_view_def)
    have "?t \<in> set (ALLOWED_STATUS (status k2))" "?t \<noteq> SUCCEEDED"
      using False k(4) k2(2) by (auto simp: ALLOWED_STATUS_def)
    from transition_succeeds [OF k2(1) this]
    obtain k3 db3 where k3: "transition (job_id j) ?t None (Some code) True (w_clock ?w1 (w_tick ?w1)) (w_db ?w2)
        = Inr (k3, db3)" "find_job (job_id j) db3 = Some k3" "status k3 = ?t" "lease_owner k3 = None"
        "attempts k3 = attempts k2" by blast
    let ?w3 = "?w2\<lparr>w_db := db3\<rparr>"
    have "fail_job env c j retryable code w = (Inr k3, ?w3)"
      using False k3(1) k(5)
      by (simp add: fail_job_def bind_act_def rd store_act_def do_store_def job_step_def transact_def Let_def)
    moreover have "settled c (job_id j) a k3 ?w3"
    proof -
      have f2: "in_flight (job_id j) a ?w2" using f1 by (rule flight.tick_inv)
      then have "db_inv db3"
        using exec_job_op_inv [of "Transition (job_id j) ?t None (Some code) True (w_clock ?w1 (w_tick ?w1))"] k3(1)
        by (simp add: in_flight_def)
      then show ?thesis
        using k3 k2(3) k(3) f2 by (auto simp: settled_def in_flight_def hands_off_def)
    qed
    ultimately show ?thesis by blast
  qed
qed

lemma fail_with_settles:
  assumes "in_flight (job_id j) a w"
  shows "\<exists>rep w' k. fail_with env c j ss retryable code w = (Inr rep, w') \<and> settled c (job_id j) a k w' \<and>
    wr_claimed rep \<and> wr_job_id rep = job_id j \<and> wr_status rep = status_value (status k)"
proof -
  obtain k w' where k: "fail_job env c j retryable code w = (Inr k, w')" "settled c (job_id j) a k w'"
    using fail_job_settles [OF assms] by blast
  then show ?thesis by (auto simp: fail_with_def bind_act_def return_act_def claimed_report_def)
qed

lemma handle_exception_settles:
  assumes "in_flight (job_id j) a w"
  shows "\<exists>rep w' k. handle_exception env c j ss e w = (Inr rep, w') \<and> settled c (job_id j) a k w' \<and>
    wr_claimed rep \<and> wr_job_id rep = job_id j \<and> wr_status rep = status_value (status k)"
proof (cases "is_lease_conflict e")
  case True
  then obtain m where e: "e = LeaseConflict m" by (cases e) simp_all
  have f1: "in_flight (job_id j) a (tick env w)" using assms by (rule flight.tick_inv)
  obtain k where k: "get_job (job_id j) None (w_db (tick env w)) = Inr k"
      "status k \<in> set [RUNNING, VALIDATING, SUCCEEDED, FAILED]"
    using f1 by (rule in_flight_get)
  then have "handle_exception env c j ss e w = fail_with env c j ss True ''LEASE_LOST'' (tick env w)"
    by (auto simp: handle_exception_def e bind_act_def store_read_def Let_def)
  then show ?thesis using fail_with_settles [OF f1] by simp
next
  case False
  then obtain retryable code where "handle_exception env c j ss e = fail_with env c j ss retryable code"
    by (cases e) (auto simp: handle_exception_def)
  then show ?thesis using fail_with_settles [OF assms] by simp
qed

lemma run_stage_not_cancelled:
  assumes "in_flight jid a w" and "job_id (cx_job cx) = jid"
  shows "run_stage env c s cx w \<noteq> (Inr (Inl j), w')"
proof
  assume run: "run_stage env c s cx w = (Inr (Inl j), w')"
  then obtain current w1 where rd: "store_read env (\<lambda>now db. get_job jid None db) w = (Inr current, w1)"
    and st: "status current = CANCELLED"
    using assms(2) unfolding run_stage_def Let_def
    by (auto simp: return_act_def raise_act_def split: if_splits sum.splits elim!: bind_act_InrE)
  have "in_flight jid a (tick env w)" using assms(1) by (rule flight.tick_inv)
  then obtain k where "get_job jid None (w_db (tick env w)) = Inr k"
      "status k \<in> set [RUNNING, VALIDATING, SUCCEEDED, FAILED]" by (rule in_flight_get)
  then show False using rd st by (auto simp: store_read_def Let_def)
qed

lemma run_stages_not_cancelled:
  "run_stages env c committed ss cx ds w = ((r, ds'), w') \<Longrightarrow> in_flight (job_id j) a w \<Longrightarrow>
   known j w \<Longrightarrow> ctx_of j cx \<Longrightarrow> (\<forall>k. r \<noteq> LoopCancelled k) \<and> in_flight (job_id j) a w'"
proof (induction ss arbitrary: cx ds w)
  case Nil
  then show ?case by auto
next
  case (Cons s ss)
  obtain res w1 where res: "run_stage env c s cx w = (res, w1)" by (cases "run_stage env c s cx w")
  have f1: "in_flight (job_id j) a w1"
    using in_flight_step [OF flight.run_stage_keeps Cons.prems(2) res] .
  show ?case
  proof (cases "checkpoint_key s \<in> set committed")
    case True
    then show ?thesis using Cons.IH [of cx ds w] Cons.prems by simp
  next
    case False
    have "res \<noteq> Inr (Inl k)" for k
      using run_stage_not_cancelled [OF Cons.prems(2)] Cons.prems(4) res by (auto simp: ctx_of_def)
    then consider e where "res = Inl e" | cx1 where "res = Inr (Inr cx1)"
      by (metis sum.exhaust)
    then show ?thesis
    proof cases
      case 1
      then show ?thesis using Cons.prems(1) False res f1 by auto
    next
      case (2 cx1)
      have inv: "db_inv (w_db w)" using Cons.prems(3) by (simp add: known_def)
      have "known j w1"
        using known_le [OF Cons.prems(3)] act_step_le(1) [OF progress.run_stage_keeps inv res] by blast
      then show ?thesis
        using Cons.IH [OF _ f1 _ run_stage_InrD(1) [OF res [unfolded 2] Cons.prems(3,4)]]
          Cons.prems(1) False res 2 by simp
    qed
  qed
qed

lemma finish_run_settles:
  assumes "finish_run env c j ss cx w = (Inr rep, w')" and "in_flight (job_id j) a w" and "ctx_of j cx"
  shows "\<exists>k. settled c (job_id j) a k w' \<and> wr_claimed rep \<and> wr_job_id rep = job_id j \<and>
    wr_status rep = status_value (status k)"
proof -
  obtain cx' fin where fin: "finalize_with_validator env (fst (wc_finalizer c)) (snd (wc_finalizer c)) cx w
      = (Inr (cx', fin), w')"
    and rep: "wr_claimed rep" "wr_job_id rep = job_id j" "wr_status rep = status_value (status (fr_job fin))"
    using assms(1) unfolding finish_run_def by (auto simp: return_act_def elim!: bind_act_InrE)
  have f: "in_flight (job_id j) a w'" by (rule in_flight_step [OF flight.finalize_keeps assms(2) fin])
  have id: "job_id (cx_job cx) = job_id j" using assms(3) by (simp add: ctx_of_def)
  have inv: "db_inv (w_db w)" using assms(2) by (simp add: in_flight_def)
  have "find_job (job_id j) (w_db w') = Some (fr_job fin) \<and> status (fr_job fin) \<in> set [SUCCEEDED, FAILED]"
    using finalize_ok(3,4) [OF fin _ inv] finalize_not_ok(2,3) [OF fin] id by (cases "fr_ok fin") simp_all
  then show ?thesis using f rep by (auto simp: settled_def in_flight_def)
qed

lemma run_claimed_settles:
  assumes "in_flight (job_id j) a w" and "known j w"
  shows "\<exists>rep w' k. run_claimed env c j committed w = (Inr rep, w') \<and> settled c (job_id j) a k w' \<and>
    wr_claimed rep \<and> wr_job_id rep = job_id j \<and> wr_status rep = status_value (status k)"
proof -
  obtain r ss w1 where r: "run_stages env c committed EXECUTION_STAGES
      \<lparr>cx_job = j, cx_worker_id = wc_worker_id c\<rparr> [] w = ((r, ss), w1)"
    by (metis prod.collapse)
  have ctx: "ctx_of j \<lparr>cx_job = j, cx_worker_id = wc_worker_id c\<rparr>" by (simp add: ctx_of_def)
  note L = run_stages_not_cancelled [OF r assms(1,2) ctx] run_stages_result [OF r assms(2) ctx]
  then have f1: "in_flight (job_id j) a w1" by simp
  show ?thesis
  proof (cases r)
    case (LoopDone cx)
    obtain res w2 where res: "finish_run env c j ss cx w1 = (res, w2)" by fastforce
    show ?thesis
    proof (cases res)
      case (Inl e)
      have "in_flight (job_id j) a w2" by (rule in_flight_step [OF flight.finish_run_keeps f1 res])
      then show ?thesis
        using handle_exception_settles r LoopDone res Inl by (simp add: run_claimed_def catch_act_def)
    next
      case (Inr rep)
      then show ?thesis
        using finish_run_settles [OF res [unfolded Inr] f1] L(2) r LoopDone res
        by (auto simp: run_claimed_def catch_act_def)
    qed
  next
    case (LoopCancelled current)
    then show ?thesis using L(1) by simp
  next
    case (LoopRaised e)
    then show ?thesis using handle_exception_settles [OF f1] r by (simp add: run_claimed_def)
  qed
qed

lemma run_once_settles:
  assumes "claim_job env c w = (Inr (Some j), w1)" and "db_inv (w_db w)" and "hands_off (job_id j) w"
  shows "\<exists>rep w' k. run_once env c w = (Inr rep, w') \<and> settled c (job_id j) (attempts j) k w' \<and>
    wr_claimed rep \<and> wr_job_id rep = job_id j \<and> wr_status rep = status_value (status k)"
proof -
  note k = claimed_known [OF assms(1,2)]
  have "hands_off (job_id j) w1"
    using act_hands_off [OF schedule.claim_keeps assms(3)] assms(1) by (metis snd_conv)
  then have f1: "in_flight (job_id j) (attempts j) w1"
    using k by (simp add: in_flight_def known_def)
  obtain w2 where rd: "store_read env (\<lambda>now db. Inr (map cp_checkpoint_key (checkpoints_of (job_id j) db))) w1
      = (Inr (map cp_checkpoint_key (checkpoints_of (job_id j) (w_db w2))), w2)"
    by (simp add: store_read_def Let_def)
  have f2: "in_flight (job_id j) (attempts j) w2" by (rule in_flight_step [OF flight.store_read_keeps f1 rd])
  have "db_inv (w_db w1)" using k(1) by (simp add: known_def)
  then have "known j w2" using known_le [OF k(1)] act_step_le(1) [OF progress.store_read_keeps _ rd] by blast
  then show ?thesis
    using run_claimed_settles [OF f2] assms(1) rd by (simp add: run_once_def bind_act_def)
qed

section \<open>Repeated runs\<close>

primrec run_many :: "py_env \<Rightarrow> worker_config \<Rightarrow> nat \<Rightarrow> world \<Rightarrow> world" where
  "run_many env c 0 w = w"
| "run_many env c (Suc n) w = run_many env c n (snd (run_once env c w))"

definition waiting :: "string \<Rightarrow> int \<Rightarrow> world \<Rightarrow> bool" where
  "waiting jid a w \<longleftrightarrow> hands_off jid w \<and> db_inv (w_db w) \<and>
     (\<exists>k. find_job jid (w_db w) = Some k \<and> attempts k = a \<and> status k \<in> set [QUEUED, RETRY_WAIT] \<and>
        lease_owner k = None)"

definition finished :: "string \<Rightarrow> world \<Rightarrow> bool" where
  "finished jid w \<longleftrightarrow> db_inv (w_db w) \<and>
     (\<exists>k. find_job jid (w_db w) = Some k \<and> status k \<in> set [SUCCEEDED, FAILED])"

lemma acquire_waiting:
  assumes "find_job jid db = Some k" and "status k \<in> set [QUEUED, RETRY_WAIT]" and "lease_owner k = None"
    and "\<not> blank worker" and "0 < ls"
  shows "\<exists>j db'. acquire_lease jid worker ls now db = Inr (j, db') \<and> attempts j = attempts k + 1 \<and> job_id j = jid"
proof -
  have guards: "status k \<notin> set TERMINAL" "status k \<noteq> VALIDATING" "\<not> leased_elsewhere k worker now"
    using assms(2,3) by (auto simp: TERMINAL_def leased_elsewhere_def)
  then show ?thesis
    using assms find_job_id [OF assms(1)] by (auto simp: acquire_lease_def Let_def)
qed

lemma waiting_claimed:
  assumes "waiting jid a w" and "wc_job_id c = Some jid" and "\<not> blank (wc_worker_id c)" and "0 < wc_lease_seconds c"
  shows "\<exists>j w1. claim_job env c w = (Inr (Some j), w1) \<and> job_id j = jid \<and> attempts j = a + 1"
proof -
  obtain k where k: "hands_off jid w" "find_job jid (w_db w) = Some k" "attempts k = a"
      "status k \<in> set [QUEUED, RETRY_WAIT]" "lease_owner k = None"
    using assms(1) unfolding waiting_def by blast
  have "map_option attempt_view (find_job jid (w_db (tick env w))) = Some (attempt_view k)"
    using tick_spared [OF _ k(1)] k(2) by simp
  then obtain k2 where k2: "find_job jid (w_db (tick env w)) = Some k2" "status k2 = status k"
      "lease_owner k2 = None" "attempts k2 = a"
    using k(3,5) by (auto simp: attempt_view_def)
  have "status k2 \<in> set [QUEUED, RETRY_WAIT]" using k(4) k2(2) by simp
  from acquire_waiting [OF k2(1) this k2(3) assms(3,4)]
  obtain j db' where "acquire_lease jid (wc_worker_id c) (wc_lease_seconds c) (w_clock w (w_tick w)) (w_db (tick env w))
      = Inr (j, db')" "attempts j = a + 1" "job_id j = jid" using k2(4) by metis
  then show ?thesis
    using assms(2) by (simp add: claim_job_def bind_act_def return_act_def catch_act_def store_act_def
        do_store_def job_step_def transact_def)
qed

lemma finished_stays:
  assumes "finished jid w"
  shows "finished jid (snd (run_once env c w))"
proof -
  have inv: "db_inv (w_db w)" using assms by (simp add: finished_def)
  have le: "world_le w (snd (run_once env c w))" by (rule act_world_le [OF progress.run_once_keeps inv])
  obtain k where k: "find_job jid (w_db w) = Some k" "status k \<in> set [SUCCEEDED, FAILED]"
    using assms unfolding finished_def by blast
  then obtain k' where k': "find_job jid (w_db (snd (run_once env c w))) = Some k'" "job_grows k k'"
    using le unfolding world_le_def job_le_def by blast
  have "status k' = status k"
    using k'(2) k(2) status_machine.terminal_path [of "status k" "status k'"]
    by (auto simp: job_grows_def TERMINAL_def)
  then show ?thesis using k' k(2) le by (auto simp: finished_def world_le_def)
qed

lemma finished_many: "finished jid w \<Longrightarrow> finished jid (run_many env c n w)"
  by (induction n arbitrary: w) (simp_all add: finished_stays)

lemma run_many_finishes:
  assumes "wc_job_id c = Some jid" and "\<not> blank (wc_worker_id c)" and "0 < wc_lease_seconds c"
  shows "waiting jid a w \<Longrightarrow> 0 < n \<Longrightarrow> wc_max_attempts c - a \<le> int n \<Longrightarrow> finished jid (run_many env c n w)"
proof (induction n arbitrary: a w)
  case (Suc m)
  obtain j w1 where j: "claim_job env c w = (Inr (Some j), w1)" "job_id j = jid" "attempts j = a + 1"
    using waiting_claimed [OF Suc.prems(1) assms] by blast
  have w: "db_inv (w_db w)" "hands_off (job_id j) w"
    using Suc.prems(1) j(2) by (simp_all add: waiting_def)
  obtain rep w' k where run: "run_once env c w = (Inr rep, w')" and st: "settled c jid (a + 1) k w'"
    using run_once_settles [OF j(1) w] j(2,3) by auto
  show ?case
  proof (cases "status k \<in> set [SUCCEEDED, FAILED]")
    case True
    then have "finished jid w'" using st by (auto simp: settled_def finished_def)
    then show ?thesis using run by (simp add: finished_many)
  next
    case False
    then have "waiting jid (a + 1) w'" and "a + 1 < wc_max_attempts c"
      using st by (auto simp: settled_def waiting_def)
    then show ?thesis using Suc.IH [of "a + 1" w'] Suc.prems(3) run by simp
  qed
qed simp

end
