(* ===== verification/Evidence_Properties.thy ===== *)
theory Evidence_Properties
  imports Ledger Graph
begin

text \<open>
  The properties of the evidence layer: durable JSON, event envelopes, the hash-chained ledger
  and the decision graph, each with a witness on a concrete history.
\<close>

section \<open>Sample values\<close>

definition sample_env :: py_env where
  "sample_env = \<lparr>sha256 = (\<lambda>s. replicate 64 (CHR ''a'')), fromisoformat = (\<lambda>s. Some True)\<rparr>"

definition sample_request :: "string \<Rightarrow> string \<Rightarrow> json \<Rightarrow> append_request" where
  "sample_request key etype p = \<lparr>req_tenant_id = ''t'', req_job_id = ''j'', req_aggregate_type = ''claim'',
     req_aggregate_id = ''c1'', req_event_type = etype, req_payload = p, req_idempotency_key = key,
     req_event_id = None, req_occurred_at = None, req_expected_head = None\<rparr>"

definition sample_draw :: "string \<Rightarrow> draw" where
  "sample_draw i = \<lparr>now_iso = ''2026-01-01T00:00:00+00:00'', new_uuid = i\<rparr>"

definition sample_event :: "string \<Rightarrow> string \<Rightarrow> json \<Rightarrow> event" where
  "sample_event i etype p = \<lparr>schema_version = 1, sequence = 1, event_id = i,
     occurred_at = ''2026-01-01T00:00:00+00:00'', ev_tenant_id = ''t'', ev_job_id = ''j'',
     aggregate_type = ''claim'', aggregate_id = ''c1'', event_type = etype, payload = p,
     ev_idempotency_key = ''k'', previous_hash = [], event_hash = replicate 64 (CHR ''a'')\<rparr>"

lemma sample_append:
  "ledger_append sample_env (sample_draw ''e1'') (sample_request ''k'' ''claim.proposed'' (JObj [])) []
    = Inr (sample_event ''e1'' ''claim.proposed'' (JObj []),
           [event_line (sample_event ''e1'' ''claim.proposed'' (JObj []))])"
  by code_simp

lemma sample_load:
  "load_locked sample_env [event_line (sample_event ''e1'' ''claim.proposed'' (JObj []))]
    = Inr [sample_event ''e1'' ''claim.proposed'' (JObj [])]"
  by code_simp

text \<open>A history in which a claim is supported, challenged and survives.\<close>

definition obj :: "(string \<times> string) list \<Rightarrow> json" where
  "obj kvs = JObj (map (\<lambda>(k, v). (k, JStr v)) kvs)"

definition sample_passage :: "string \<Rightarrow> string \<Rightarrow> json" where
  "sample_passage i q = JObj [(''passage_id'', JStr i), (''doc_id'', JStr ''d''), (''query_id'', JStr q),
     (''content_sha256'', JStr (replicate 64 (CHR ''a''))), (''offset'', JInt 3)]"

definition opening_history :: "event list" where
  "opening_history = [
     sample_event ''e1'' ''claim.proposed'' (obj [(''claim_id'', ''c''), (''text'', ''x''), (''scope'', ''y'')]),
     sample_event ''e2'' ''query.executed'' (obj [(''query_id'', ''q1''), (''claim_id'', ''c''), (''text'', ''z''), (''intent'', ''support'')]),
     sample_event ''e3'' ''passage.observed'' (sample_passage ''p1'' ''q1''),
     sample_event ''e4'' ''evidence.linked'' (obj [(''claim_id'', ''c''), (''passage_id'', ''p1''), (''relation'', ''SUPPORTS'')]),
     sample_event ''e5'' ''query.executed'' (obj [(''query_id'', ''q2''), (''claim_id'', ''c''), (''text'', ''z''), (''intent'', ''counterevidence'')]),
     sample_event ''e6'' ''passage.observed'' (sample_passage ''p2'' ''q2''),
     sample_event ''e7'' ''evidence.linked'' (obj [(''claim_id'', ''c''), (''passage_id'', ''p2''), (''relation'', ''CONTRADICTS'')])]"

definition survival_history :: "json \<Rightarrow> event list" where
  "survival_history boundary = opening_history @ [
     sample_event ''e8'' ''claim.transitioned'' (obj [(''claim_id'', ''c''), (''to_state'', ''CHALLENGED''), (''reason'', ''r'')]),
     sample_event ''e9'' ''claim.transitioned'' (JObj [(''claim_id'', JStr ''c''), (''to_state'', JStr ''SURVIVED''),
       (''reason'', JStr ''r''), (''boundary'', boundary)])]"

definition survived_graph :: "string \<Rightarrow> decision_graph" where
  "survived_graph boundary = \<lparr>
     claims = [(''c'', \<lparr>cl_claim_id = ''c'', cl_text = ''x'', cl_scope = ''y'', cl_state = SURVIVED,
       cl_boundary = boundary, cl_reason = ''r'', cl_version = 3\<rparr>)],
     queries = [
       (''q1'', \<lparr>qu_query_id = ''q1'', qu_claim_id = ''c'', qu_text = ''z'', qu_intent = ''support'', qu_n_hits = 0\<rparr>),
       (''q2'', \<lparr>qu_query_id = ''q2'', qu_claim_id = ''c'', qu_text = ''z'', qu_intent = ''counterevidence'', qu_n_hits = 0\<rparr>)],
     passages = [
       (''p1'', \<lparr>pa_passage_id = ''p1'', pa_doc_id = ''d'', pa_query_id = ''q1'',
         pa_content_sha256 = replicate 64 (CHR ''a''), pa_offset = Some 3, pa_page_no = None\<rparr>),
       (''p2'', \<lparr>pa_passage_id = ''p2'', pa_doc_id = ''d'', pa_query_id = ''q2'',
         pa_content_sha256 = replicate 64 (CHR ''a''), pa_offset = Some 3, pa_page_no = None\<rparr>)],
     edges = [\<lparr>ed_claim_id = ''c'', ed_passage_id = ''p1'', ed_relation = SUPPORTS\<rparr>,
              \<lparr>ed_claim_id = ''c'', ed_passage_id = ''p2'', ed_relation = CONTRADICTS\<rparr>],
     applied_event_ids = set [''e9'', ''e8'', ''e7'', ''e6'', ''e5'', ''e4'', ''e3'', ''e2'', ''e1'']\<rparr>"

lemma sample_project: "project (survival_history (JStr ''b'')) = Inr (survived_graph ''b'')"
  by code_simp

section \<open>Durable values\<close>

text \<open>
  Two well-formed JSON values have the same canonical rendering exactly when they are equal
  up to the order of dictionary keys: the text that is hashed and stored loses nothing.
\<close>

theorem canonical_json_determines:
  assumes "wf_json a" and "wf_json b"
  shows "canonical_json a = canonical_json b \<longleftrightarrow> sort_keys a = sort_keys b"
  using assms canonical_json_inj by (metis canonical_json_sort_keys)

theorem canonical_json_determines_witness:
  "canonical_json (JObj [(''b'', JInt 1), (''a'', JNull)]) = canonical_json (JObj [(''a'', JNull), (''b'', JInt 1)])
    \<longleftrightarrow> sort_keys (JObj [(''b'', JInt 1), (''a'', JNull)]) = sort_keys (JObj [(''a'', JNull), (''b'', JInt 1)])"
  by (rule canonical_json_determines) code_simp+

text \<open>
  A durable payload is accepted exactly when it is an object of finite values in which no
  key at any depth is secret-bearing.
\<close>

theorem durable_payload_accepted_iff:
  "validate_durable_payload v prefix = Inr () \<longleftrightarrow>
     is_dict v \<and> finite_json v \<and> all_keys v \<inter> {k. sensitive_key k} = {}"
  by (auto simp: validate_durable_payload_iff)

section \<open>Event envelopes\<close>


section \<open>The ledger\<close>

text \<open>
  A ledger loads exactly as a chain: the events are numbered 1, 2, ..., each names the hash
  of its predecessor (the first names none), carries the hash of its own content, and no event
  id and no idempotency key occurs twice.
\<close>

theorem loaded_ledger_is_chain:
  assumes "load_locked env lines = Inr es" and "i < length es"
  shows "sequence (es ! i) = int i + 1 \<and>
    previous_hash (es ! i) = (if i = 0 then [] else event_hash (es ! (i - 1))) \<and>
    event_hash (es ! i) = sha256 env (hashed_text (es ! i)) \<and>
    distinct (map event_id es) \<and> distinct (map ev_idempotency_key es)"
proof -
  have c: "chain_from env [] es" using assms(1) by (simp add: load_locked_iff)
  then have "validate_event env (es ! i) = Inr ()" using assms(2) by (auto intro: chain_member_valid)
  then have "event_hash (es ! i) = sha256 env (hashed_text (es ! i))" by (rule calculated_hash_valid)
  then show ?thesis
    using chain_sequence [OF c assms(2)] chain_previous [OF c assms(2)] chain_distinct_ids [OF c]
      chain_distinct_keys [OF c] by simp
qed

theorem loaded_ledger_is_chain_witness:
  "sequence ([sample_event ''e1'' ''claim.proposed'' (JObj [])] ! 0) = int 0 + 1"
  using loaded_ledger_is_chain [OF sample_load, of 0] by simp




definition sample_delivery :: "draw \<times> append_request" where
  "sample_delivery = (sample_draw ''e1'', sample_request ''k'' ''claim.proposed'' (JObj []))"

definition sample_retry :: "draw \<times> append_request" where
  "sample_retry = (sample_draw ''e2'', sample_request ''l'' ''claim.proposed'' (JObj []))"


text \<open>
  C8. The head hash determines the whole history: two ledgers that load and end in the same
  hash hold the same events, unless two of their envelopes collide under SHA-256.
\<close>

theorem head_hash_determines_history:
  assumes "load_locked env ls = Inr es" and "load_locked env ms = Inr fs" and "head_hash es = head_hash fs"
    and "\<And>e f. e \<in> set es \<Longrightarrow> f \<in> set fs \<Longrightarrow>
      sha256 env (hashed_text e) = sha256 env (hashed_text f) \<Longrightarrow> hashed_text e = hashed_text f"
    and "\<forall>e \<in> set es \<union> set fs. wf_json (payload e)"
  shows "map norm_event es = map norm_event fs"
  by (rule chain_head_determines [of es fs env]) (use assms in \<open>auto simp: load_locked_iff\<close>)

theorem head_hash_determines_history_witness:
  "map norm_event [sample_event ''e1'' ''claim.proposed'' (JObj [])]
    = map norm_event [sample_event ''e1'' ''claim.proposed'' (JObj [])]"
  by (rule head_hash_determines_history [OF sample_load sample_load])
    (auto simp: sample_event_def)



section \<open>The decision graph\<close>

text \<open>
  C5. Every graph that is projected from a ledger is closed under its own references and every
  decision in it carries its evidence: keys are the objects' own ids, queries name existing
  claims, passages existing queries, edges existing claims and passages found by a query of the
  right intent for that very claim, and each claim's state is backed by the edges, the
  counterevidence query and the boundary it requires.
\<close>

theorem projection_invariant:
  assumes "project evs = Inr g"
  shows "graph_inv g"
  using assms by (rule project_inv)

theorem projection_invariant_witness: "graph_inv (survived_graph ''b'')"
  by (rule projection_invariant [OF sample_project])

text \<open>
  C10. A claim that survived has, in the graph, an edge of support from a passage that a support
  query for this claim observed, an executed counterevidence query for this claim, and a
  non-blank boundary.
\<close>

theorem survived_claim_evidence:
  assumes "project evs = Inr g" and "map_of (claims g) k = Some c" and "cl_state c = SURVIVED"
  shows "(\<exists>x q n. \<lparr>ed_claim_id = k, ed_passage_id = n, ed_relation = SUPPORTS\<rparr> \<in> set (edges g) \<and>
      map_of (passages g) n = Some x \<and> map_of (queries g) (pa_query_id x) = Some q \<and>
      qu_claim_id q = k \<and> qu_intent q = ''support'') \<and>
    (\<exists>i q. map_of (queries g) i = Some q \<and> qu_claim_id q = k \<and> qu_intent q = ''counterevidence'') \<and>
    \<not> blank (cl_boundary c)"
proof (intro conjI)
  have inv: "graph_inv g" using assms(1) by (rule project_inv)
  have c: "(k, c) \<in> set (claims g)" using assms(2) by (rule map_of_SomeD)
  then have id: "cl_claim_id c = k" and dec: "decision_ok g c"
    using inv by (auto simp: graph_inv_def ids_ok_def)
  from dec assms(3) id have d: "SUPPORTS \<in> relations_of g k" "has_counter_query g k" "\<not> blank (cl_boundary c)"
    by (simp_all add: decision_ok_def Let_def)
  then show "\<not> blank (cl_boundary c)" by simp
  show "\<exists>i q. map_of (queries g) i = Some q \<and> qu_claim_id q = k \<and> qu_intent q = ''counterevidence''"
    using d(2) inv counter_query_iff [of g k] by (simp add: graph_inv_def ids_ok_def)
  from d(1) obtain e where e: "e \<in> set (edges g)" "ed_claim_id e = k" "ed_relation e = SUPPORTS"
    by (auto simp: relations_of_def)
  then have ok: "edge_ok g e" using inv by (simp add: graph_inv_def)
  have "e = \<lparr>ed_claim_id = k, ed_passage_id = ed_passage_id e, ed_relation = SUPPORTS\<rparr>"
    using e by simp
  with e(1) have "\<lparr>ed_claim_id = k, ed_passage_id = ed_passage_id e, ed_relation = SUPPORTS\<rparr> \<in> set (edges g)"
    by metis
  with e ok show "\<exists>x q n. \<lparr>ed_claim_id = k, ed_passage_id = n, ed_relation = SUPPORTS\<rparr> \<in> set (edges g) \<and>
      map_of (passages g) n = Some x \<and> map_of (queries g) (pa_query_id x) = Some q \<and>
      qu_claim_id q = k \<and> qu_intent q = ''support''"
    by (fastforce simp: edge_ok_def split: option.splits)
qed

theorem survived_claim_evidence_witness: "\<not> blank ''b''"
  using survived_claim_evidence [OF sample_project, of "''c''"] by (simp add: survived_graph_def)

text \<open>
  C11. Decisions are final: once a claim is in a terminal state, no continuation of the ledger
  changes its state, its text or its scope.
\<close>

theorem decisions_are_final:
  assumes "project evs = Inr g" and "project (evs @ later) = Inr h"
    and "map_of (claims g) k = Some c" and "cl_state c \<in> set TERMINAL_STATES"
  shows "\<exists>d. map_of (claims h) k = Some d \<and> cl_state d = cl_state c \<and> cl_text d = cl_text c \<and>
    cl_scope d = cl_scope c"
proof -
  have "h = run_ops graph_step (evs @ later) empty_graph" "g = run_ops graph_step evs empty_graph"
    using assms(1,2) by (auto simp: project_def dest: project_run)
  then have "graph_le g h"
    using graph_machine.run_prefix_le [OF graph_inv_empty] by simp
  then obtain d where d: "map_of (claims h) k = Some d" "claim_grows c d"
    using assms(3) unfolding graph_le_def by blast
  then have "cl_state d = cl_state c"
    using claim_table.terminal_path assms(4) by (auto simp: claim_grows_def)
  then show ?thesis using d by (auto simp: claim_grows_def)
qed

theorem decisions_are_final_witness:
  "\<exists>d. map_of (claims (survived_graph ''b'')) ''c'' = Some d \<and> cl_state d = SURVIVED \<and>
    cl_text d = ''x'' \<and> cl_scope d = ''y''"
  using decisions_are_final [OF sample_project, of "[]" "survived_graph ''b''" "''c''"] sample_project
  by (simp add: survived_graph_def TERMINAL_STATES_def)

text \<open>
  The publication gate passes a projected graph exactly when it holds a claim and all its
  claims are in terminal states: the evidence behind each state was checked on the way.
\<close>

theorem publication_gate:
  assumes "project evs = Inr g"
  shows "validate_for_publication g = [] \<longleftrightarrow>
    claims g \<noteq> [] \<and> cl_state ` snd ` set (claims g) \<subseteq> set TERMINAL_STATES"
proof -
  have inv: "graph_inv g" using assms by (rule project_inv)
  have "publication_issues (k, c) = [] \<longleftrightarrow> cl_state c \<in> set TERMINAL_STATES" if "(k, c) \<in> set (claims g)" for k c
  proof -
    have "decision_ok g c" using inv that by (auto simp: graph_inv_def)
    then have "cl_state c \<in> {SURVIVED, NARROWED} \<Longrightarrow> cl_boundary c \<noteq> []"
      by (auto simp: decision_ok_def Let_def)
    then show ?thesis by (auto simp: publication_issues_def Let_def)
  qed
  then show ?thesis by (fastforce simp: validate_for_publication_def)
qed

theorem publication_gate_witness: "validate_for_publication (survived_graph ''b'') = []"
  unfolding publication_gate [OF sample_project] by (simp add: survived_graph_def TERMINAL_STATES_def)

section \<open>Where the documents say otherwise\<close>

text \<open>
  A claim survives with contradicting evidence in the graph, and with a null boundary, which
  the code reads as the text \<open>None\<close>.
\<close>

theorem survives_contradicted:
  "\<exists>g. project (survival_history (JStr ''b'')) = Inr g \<and> validate_for_publication g = [] \<and>
     CONTRADICTS \<in> relations_of g ''c'' \<and> map_option cl_state (map_of (claims g) ''c'') = Some SURVIVED"
proof (intro exI [of _ "survived_graph ''b''"] conjI)
  show "project (survival_history (JStr ''b'')) = Inr (survived_graph ''b'')" by (rule sample_project)
qed code_simp+

theorem null_boundary_survives:
  "project (survival_history JNull) = Inr (survived_graph ''None'')"
  by code_simp

end
