(* ===== verification/Control_Properties.thy ===== *)
theory Control_Properties
  imports Worker_Laws Evidence_Properties
begin

text \<open>
  The properties of the control plane: the job store under every run of operations, leases,
  idempotent effects, and the worker that executes the stages of a job.
\<close>

section \<open>A sample run\<close>

definition sample_create :: create_request where
  "sample_create = \<lparr>cr_tenant_id = ''t'', cr_idempotency_key = ''k'', cr_task = ''x'', cr_max_calls = 2,
     cr_max_tokens = 5, cr_max_cost_microunits = 9, cr_job_id = None\<rparr>"

definition sample_charge :: charge_request where
  "sample_charge = \<lparr>ch_charge_key = ''u'', ch_provider = ''p'', ch_calls = 1, ch_tokens = 2,
     ch_cost_microunits = 3\<rparr>"

definition leasing_ops :: "job_op list" where
  "leasing_ops = [CreateJob 0 ''j'' sample_create, AcquireLease ''j'' ''w'' 60 1]"

definition succeeding_ops :: "job_op list" where
  "succeeding_ops = leasing_ops @ [Charge ''j'' sample_charge 2,
     SaveCheckpoint ''j'' ''w'' VALIDATE ''c'' (JObj []) 3,
     Transition ''j'' VALIDATING None None False 4, Transition ''j'' SUCCEEDED None None True 5]"

definition leased_db :: job_db where
  "leased_db = run_ops job_step leasing_ops empty_db"

lemma leased_db_inv: "db_inv leased_db"
  unfolding leased_db_def by (rule job_machine.run_inv [OF db_inv_empty])

lemma leased_db_holds: "holds_lease ''j'' ''w'' 61 leased_db"
  by code_simp

section \<open>The job store\<close>

text \<open>
  C4. Whatever operations are run on the store, in whatever order and with whatever arguments,
  accepted or refused: ids and idempotency keys stay unique, checkpoints and charges belong to
  known jobs, the usage counters of a job are the sums of its charges and within its budgets,
  and its stage is the stage of its latest checkpoint, \<open>VALIDATE\<close> if it succeeded.
\<close>

theorem job_store_invariant: "db_inv (run_ops job_step ops empty_db)"
  by (rule job_machine.run_inv [OF db_inv_empty])

text \<open>
  No run of operations spends more than a job's budget: the calls charged to a job never
  exceed the maximum it was created with (and likewise its tokens and its cost).
\<close>

theorem budget_never_exceeded:
  assumes "find_job jid (run_ops job_step ops empty_db) = Some j"
  shows "usage_of us_calls jid (run_ops job_step ops empty_db) \<le> max_calls j \<and>
    usage_of us_tokens jid (run_ops job_step ops empty_db) \<le> max_tokens j \<and>
    usage_of us_cost_microunits jid (run_ops job_step ops empty_db) \<le> max_cost_microunits j"
proof -
  let ?db = "run_ops job_step ops empty_db"
  have "db_inv ?db" by (rule job_machine.run_inv [OF db_inv_empty])
  then have "usage_ok ?db j" using find_job_member [OF assms] by (simp add: db_inv_def)
  then show ?thesis using find_job_id [OF assms] by (simp add: usage_ok_def)
qed

theorem budget_never_exceeded_witness:
  "\<exists>j. find_job ''j'' (run_ops job_step succeeding_ops empty_db) = Some j \<and>
    usage_of us_calls ''j'' (run_ops job_step succeeding_ops empty_db) \<le> max_calls j"
proof -
  have "find_job ''j'' (run_ops job_step succeeding_ops empty_db) \<noteq> None" by code_simp
  then obtain j where "find_job ''j'' (run_ops job_step succeeding_ops empty_db) = Some j" by blast
  with budget_never_exceeded [OF this] show ?thesis by blast
qed

text \<open>
  A job that succeeded has a committed checkpoint of the \<open>VALIDATE\<close> stage, after every run
  of operations.
\<close>

theorem success_needs_validation:
  assumes "find_job jid (run_ops job_step ops empty_db) = Some j" and "status j = SUCCEEDED"
  shows "\<exists>c \<in> set (checkpoint_rows (run_ops job_step ops empty_db)).
    cp_job_id c = jid \<and> cp_stage c = VALIDATE"
proof -
  let ?db = "run_ops job_step ops empty_db"
  have "db_inv ?db" by (rule job_machine.run_inv [OF db_inv_empty])
  then have "stage_ok ?db j" using find_job_member [OF assms(1)] by (simp add: db_inv_def)
  then show ?thesis using assms(2) find_job_id [OF assms(1)] by (auto simp: stage_ok_def)
qed

theorem success_needs_validation_witness:
  "\<exists>c \<in> set (checkpoint_rows (run_ops job_step succeeding_ops empty_db)).
    cp_job_id c = ''j'' \<and> cp_stage c = VALIDATE"
proof -
  have "map_option status (find_job ''j'' (run_ops job_step succeeding_ops empty_db)) = Some SUCCEEDED"
    by code_simp
  then obtain j where "find_job ''j'' (run_ops job_step succeeding_ops empty_db) = Some j" "status j = SUCCEEDED"
    by auto
  then show ?thesis by (rule success_needs_validation)
qed

text \<open>
  Nothing is taken back: between two points of any run of operations, checkpoints and
  charges are only appended, and every job keeps its identity, task and budgets, moves along the
  status table (so a terminal status never changes), never to an earlier stage, and never lowers
  its version, attempts or usage.
\<close>

theorem jobs_only_progress:
  "job_le (run_ops job_step earlier empty_db) (run_ops job_step (earlier @ later) empty_db)"
  by (rule job_machine.run_prefix_le [OF db_inv_empty])



text \<open>
  Every job a poller is offered can be leased by it at the same clock reading, after any run
  of operations in which transitions to \<open>RETRY_WAIT\<close> release the lease.
\<close>

theorem offered_jobs_can_be_leased:
  assumes "list_all retry_releases ops"
    and "jid \<in> set (runnable_job_ids limit now (run_ops job_step ops empty_db))"
    and "\<not> blank worker" and "0 < ls"
  shows "\<exists>j db'. acquire_lease jid worker ls now (run_ops job_step ops empty_db) = Inr (j, db') \<and>
    holds_lease jid worker (now + ls) db'"
proof -
  have "db_inv (run_ops job_step ops empty_db)" by (rule job_machine.run_inv [OF db_inv_empty])
  moreover have "queue_unleased empty_db" by (simp add: queue_unleased_def empty_db_def find_job_def)
  ultimately show ?thesis
    using runnable_acquired [OF db_inv_distinct queue_unleased_run assms(2-4)] assms(1) by blast
qed

theorem offered_jobs_can_be_leased_witness:
  "\<exists>j db'. acquire_lease ''j'' ''v'' 60 61 (run_ops job_step leasing_ops empty_db) = Inr (j, db') \<and>
    holds_lease ''j'' ''v'' (61 + 60) db'"
proof (rule offered_jobs_can_be_leased)
  show "list_all retry_releases leasing_ops" by code_simp
  show "''j'' \<in> set (runnable_job_ids 1 61 (run_ops job_step leasing_ops empty_db))" by code_simp
qed (simp_all add: blank_def strip_def py_space_def)

text \<open>
  A job in \<open>VALIDATING\<close> is stranded: as long as nobody transitions it, it is never offered to
  a poller and no lease request on it succeeds, whatever else happens and however late.
\<close>

theorem validating_is_stranded:
  assumes "is_validating jid (run_ops job_step earlier empty_db)"
    and "list_all (\<lambda>op. \<not> transitions_job jid op) later"
  shows "jid \<notin> set (runnable_job_ids limit now (run_ops job_step (earlier @ later) empty_db)) \<and>
    acquire_lease jid worker ls now (run_ops job_step (earlier @ later) empty_db) \<noteq> Inr y"
proof -
  let ?db = "run_ops job_step (earlier @ later) empty_db"
  have inv: "db_inv (run_ops job_step earlier empty_db)" "db_inv ?db"
    by (rule job_machine.run_inv [OF db_inv_empty])+
  have "is_validating jid ?db"
    using validating_run [OF inv(1) assms] by (simp add: run_ops_append)
  then obtain j where "find_job jid ?db = Some j" "status j = VALIDATING"
    by (auto simp: is_validating_def)
  then show ?thesis using validating_not_offered [OF db_inv_distinct [OF inv(2)]] by blast
qed

theorem validating_is_stranded_witness:
  "''j'' \<notin> set (runnable_job_ids 100 999 (run_ops job_step
      ((leasing_ops @ [Transition ''j'' VALIDATING None None False 4]) @ [AcquireLease ''j'' ''v'' 60 500]) empty_db))"
proof (rule validating_is_stranded [THEN conjunct1])
  show "is_validating ''j'' (run_ops job_step (leasing_ops @ [Transition ''j'' VALIDATING None None False 4]) empty_db)"
    by code_simp
qed simp

text \<open>
  Charging is exactly once under at-least-once delivery: delivering the same charges in any
  order, with any repetitions, leaves the same charges on record.
\<close>

theorem charges_exactly_once:
  assumes "db_inv db" and "set qs = set rs" and "deliver charge_exec qs db = Inr db1"
    and "deliver charge_exec rs db = Inr db2"
  shows "charges_stored db1 = charges_stored db2"
proof -
  have "deliveries_fresh (\<lambda>q db. True) charge_exec qs db" for qs db
    by (induction qs arbitrary: db) (auto split: sum.split)
  then show ?thesis using charge_store.deliver_exactly_once [OF assms(1,2) _ assms(3) _ assms(4)] by simp
qed

theorem charges_exactly_once_witness:
  "\<exists>db1 db2. deliver charge_exec [(''j'', sample_charge, 2)] leased_db = Inr db1 \<and>
     deliver charge_exec [(''j'', sample_charge, 2), (''j'', sample_charge, 2)] leased_db = Inr db2 \<and>
     charges_stored db1 = charges_stored db2"
proof -
  have "\<not> (case deliver charge_exec [(''j'', sample_charge, 2)] leased_db of Inl e \<Rightarrow> True | Inr d \<Rightarrow> False)"
    by code_simp
  then obtain db1 where d1: "deliver charge_exec [(''j'', sample_charge, 2)] leased_db = Inr db1"
    by (auto split: sum.splits)
  have "\<not> (case deliver charge_exec [(''j'', sample_charge, 2), (''j'', sample_charge, 2)] leased_db of
      Inl e \<Rightarrow> True | Inr d \<Rightarrow> False)"
    by code_simp
  then obtain db2 where d2: "deliver charge_exec [(''j'', sample_charge, 2), (''j'', sample_charge, 2)] leased_db = Inr db2"
    by (auto split: sum.splits)
  have "set [(''j'', sample_charge, 2 :: time)] = set [(''j'', sample_charge, 2), (''j'', sample_charge, 2)]" by simp
  from charges_exactly_once [OF leased_db_inv this d1 d2] d1 d2 show ?thesis by blast
qed

text \<open>
  Job creation is exactly once under at-least-once delivery: the same submissions, in any
  order and with any repetitions, give the same jobs under the same tenants and keys.
\<close>

theorem submissions_exactly_once:
  assumes "db_inv db" and "set qs = set rs" and "deliver create_exec qs db = Inr db1"
    and "deliver create_exec rs db = Inr db2"
  shows "jobs_stored db1 = jobs_stored db2"
proof -
  have "deliveries_fresh (\<lambda>q db. True) create_exec qs db" for qs db
    by (induction qs arbitrary: db) (auto split: sum.split)
  then show ?thesis using create_store.deliver_exactly_once [OF assms(1,2) _ assms(3) _ assms(4)] by simp
qed

theorem submissions_exactly_once_witness:
  "\<exists>db1 db2. deliver create_exec [(0, ''j'', sample_create)] empty_db = Inr db1 \<and>
     deliver create_exec [(0, ''j'', sample_create), (0, ''j'', sample_create)] empty_db = Inr db2 \<and>
     jobs_stored db1 = jobs_stored db2"
proof -
  have "\<not> (case deliver create_exec [(0, ''j'', sample_create)] empty_db of Inl e \<Rightarrow> True | Inr d \<Rightarrow> False)"
    by code_simp
  then obtain db1 where d1: "deliver create_exec [(0, ''j'', sample_create)] empty_db = Inr db1"
    by (auto split: sum.splits)
  have "\<not> (case deliver create_exec [(0, ''j'', sample_create), (0, ''j'', sample_create)] empty_db of
      Inl e \<Rightarrow> True | Inr d \<Rightarrow> False)"
    by code_simp
  then obtain db2 where d2: "deliver create_exec [(0, ''j'', sample_create), (0, ''j'', sample_create)] empty_db = Inr db2"
    by (auto split: sum.splits)
  have "set [(0 :: time, ''j'', sample_create)] = set [(0, ''j'', sample_create), (0, ''j'', sample_create)]" by simp
  from submissions_exactly_once [OF db_inv_empty this d1 d2] d1 d2 show ?thesis by blast
qed

text \<open>
  Checkpoints are exactly once under at-least-once delivery: the same checkpoint requests, in
  any order and with any repetitions that succeed, leave the same payloads and stages under the
  same keys.
\<close>

theorem checkpoints_exactly_once:
  assumes "db_inv db" and "set qs = set rs" and "deliver checkpoint_exec qs db = Inr db1"
    and "deliver checkpoint_exec rs db = Inr db2"
  shows "checkpoints_stored db1 = checkpoints_stored db2"
proof -
  have "deliveries_fresh (\<lambda>q db. True) checkpoint_exec qs db" for qs db
    by (induction qs arbitrary: db) (auto split: sum.split)
  then show ?thesis using checkpoint_store.deliver_exactly_once [OF assms(1,2) _ assms(3) _ assms(4)] by simp
qed

definition sample_checkpoint :: checkpoint_request where
  "sample_checkpoint = \<lparr>ck_job_id = ''j'', ck_worker_id = ''w'', ck_stage = PLAN, ck_key = ''c'',
     ck_payload = JObj [], ck_now = 2\<rparr>"

theorem checkpoints_exactly_once_witness:
  "\<exists>db1 db2. deliver checkpoint_exec [sample_checkpoint] leased_db = Inr db1 \<and>
     deliver checkpoint_exec [sample_checkpoint, sample_checkpoint] leased_db = Inr db2 \<and>
     checkpoints_stored db1 = checkpoints_stored db2"
proof -
  have "\<not> (case deliver checkpoint_exec [sample_checkpoint] leased_db of Inl e \<Rightarrow> True | Inr d \<Rightarrow> False)"
    by code_simp
  then obtain db1 where d1: "deliver checkpoint_exec [sample_checkpoint] leased_db = Inr db1"
    by (auto split: sum.splits)
  have "\<not> (case deliver checkpoint_exec [sample_checkpoint, sample_checkpoint] leased_db of
      Inl e \<Rightarrow> True | Inr d \<Rightarrow> False)"
    by code_simp
  then obtain db2 where d2: "deliver checkpoint_exec [sample_checkpoint, sample_checkpoint] leased_db = Inr db2"
    by (auto split: sum.splits)
  have "set [sample_checkpoint] = set [sample_checkpoint, sample_checkpoint]" by simp
  from checkpoints_exactly_once [OF leased_db_inv this d1 d2] d1 d2 show ?thesis by blast
qed

text \<open>
  The telemetry adds up after every run of operations: the counts by status and by stage
  each sum to the number of jobs, and the calls in use are the calls on the usage ledger.
\<close>

theorem telemetry_adds_up:
  "sum_list (map snd (sn_jobs_by_status (operational_snapshot now (run_ops job_step ops empty_db))))
      = sn_jobs_total (operational_snapshot now (run_ops job_step ops empty_db)) \<and>
   sum_list (map snd (sn_jobs_by_stage (operational_snapshot now (run_ops job_step ops empty_db))))
      = sn_jobs_total (operational_snapshot now (run_ops job_step ops empty_db)) \<and>
   sn_used_calls (operational_snapshot now (run_ops job_step ops empty_db))
      = sum_list (map us_calls (usage_rows (run_ops job_step ops empty_db)))"
proof -
  let ?db = "run_ops job_step ops empty_db"
  have "db_inv ?db" by (rule job_machine.run_inv [OF db_inv_empty])
  moreover have "x \<in> set job_statuses" for x by (cases x) (simp_all add: job_statuses_def)
  moreover have "x \<in> set stages" for x by (cases x) (simp_all add: stages_def)
  moreover have "distinct job_statuses" "distinct stages" by (simp_all add: job_statuses_def stages_def)
  ultimately show ?thesis
    using count_partition [of job_statuses "jobs ?db" status] count_partition [of stages "jobs ?db" job_stage]
      snapshot_usage [of ?db now]
    by (simp add: operational_snapshot_def o_def)
qed

section \<open>The worker\<close>

text \<open>A world with a queued job, no other process, and a worker whose handlers all succeed.\<close>

definition queued_db :: job_db where
  "queued_db = run_ops job_step [CreateJob 0 ''j'' sample_create] empty_db"

definition sample_world :: world where
  "sample_world = \<lparr>w_db = queued_db, w_ledger = (\<lambda>p. []), w_clock = (\<lambda>n. of_nat n),
     w_draws = (\<lambda>n. \<lparr>now_iso = ''2026'', new_uuid = ''u''\<rparr>), w_rivals = (\<lambda>n. []), w_tick = 1\<rparr>"

definition idle_handler :: handler where
  "idle_handler ivn n = Returned \<lparr>sr_events = [], sr_charges = [], sr_checkpoint = JObj []\<rparr>"

definition sample_worker :: worker_config where
  "sample_worker = \<lparr>wc_worker_id = ''w'', wc_handlers = (\<lambda>s. Some idle_handler), wc_lease_seconds = 60,
     wc_max_attempts = 3, wc_finalizer = (''v'', \<lambda>es. Inr ([], [])), wc_job_id = Some ''j''\<rparr>"

lemma sample_run:
  "(case run_once sample_env sample_worker sample_world of
      (Inl e, w) \<Rightarrow> False
    | (Inr r, w) \<Rightarrow> wr_stages_committed r = EXECUTION_STAGES \<and>
        (case wr_finalization r of None \<Rightarrow> False | Some f \<Rightarrow> fr_ok f))"
  by code_simp

lemma sample_run_report:
  obtains rep w' fin where "run_once sample_env sample_worker sample_world = (Inr rep, w')"
    and "wr_finalization rep = Some fin" and "fr_ok fin" and "wr_stages_committed rep = EXECUTION_STAGES"
  using sample_run by (auto split: prod.splits sum.splits option.splits)

lemma sample_world_inv: "db_inv (w_db sample_world)"
proof -
  have "w_db sample_world = run_ops job_step [CreateJob 0 ''j'' sample_create] empty_db"
    by (simp add: sample_world_def queued_db_def del: run_ops.simps)
  then show ?thesis using job_machine.run_inv [OF db_inv_empty] by (simp only:)
qed

lemma sample_world_off: "hands_off jid sample_world"
  by (simp add: hands_off_def sample_world_def)

lemma sample_waiting: "waiting ''j'' 0 sample_world"
proof -
  have "(case find_job ''j'' (w_db sample_world) of None \<Rightarrow> False
      | Some k \<Rightarrow> attempts k = 0 \<and> status k = QUEUED \<and> lease_owner k = None)"
    by code_simp
  then show ?thesis
    using sample_world_inv sample_world_off by (auto simp: waiting_def split: option.splits)
qed

text \<open>
  Whatever the handlers return or raise, whatever the ledger holds, and however the
  operations of other processes interleave: a run of the worker keeps the invariant of the job
  store, takes nothing back in it, and only appends to ledgers.
\<close>

theorem worker_keeps_stores:
  assumes "db_inv (w_db w)"
  shows "world_le w (snd (run_once env c w))"
  by (rule act_world_le [OF progress.run_once_keeps assms])

theorem worker_keeps_stores_witness: "world_le sample_world (snd (run_once sample_env sample_worker sample_world))"
  by (rule worker_keeps_stores [OF sample_world_inv])

text \<open>
  C1. A run that reports a successful finalization, under any interleaving with other processes:
  the job has succeeded, every execution stage has its checkpoint, the validation checkpoint is
  committed, and the validator accepted, without an issue, the events of a verified prefix of
  the job's ledger.
\<close>

theorem reported_success_is_real:
  assumes "run_once env c w = (Inr rep, w')" and "db_inv (w_db w)"
    and "wr_finalization rep = Some fin" and "fr_ok fin"
  shows "find_job (wr_job_id rep) (w_db w') = Some (fr_job fin) \<and> status (fr_job fin) = SUCCEEDED \<and>
    has_checkpoint (wr_job_id rep) VALIDATE ''evidence-finalization'' (w_db w') \<and>
    (\<forall>s \<in> set EXECUTION_STAGES. has_key (wr_job_id rep) (checkpoint_key s) (w_db w')) \<and>
    (\<exists>ls es more. w_ledger w' (tenant_id (fr_job fin), wr_job_id rep) = ls @ more \<and>
      load_locked env ls = Inr es \<and> snd (wc_finalizer c) es = Inr (fr_graph_metrics fin, []))"
  using run_once_finalized [OF assms] by blast

theorem reported_success_is_real_witness:
  "\<exists>rep w' fin. run_once sample_env sample_worker sample_world = (Inr rep, w') \<and>
    wr_finalization rep = Some fin \<and> status (fr_job fin) = SUCCEEDED \<and> find_job (wr_job_id rep) (w_db w') = Some (fr_job fin)"
proof -
  obtain rep w' fin where r: "run_once sample_env sample_worker sample_world = (Inr rep, w')"
      "wr_finalization rep = Some fin" "fr_ok fin" by (rule sample_run_report)
  from reported_success_is_real [OF r(1) sample_world_inv r(2,3)] r(1,2) show ?thesis
    by (intro exI [of _ rep] exI [of _ w'] exI [of _ fin]) simp
qed

text \<open>
  A run resumes from the committed checkpoints: the stages it reports are executed at most
  once each, had no checkpoint when the run began, and have one when it ends, whether the run
  succeeds, fails or is cancelled.
\<close>

theorem resumes_from_checkpoints:
  assumes "run_once env c w = (Inr rep, w')" and "db_inv (w_db w)"
  shows "distinct (wr_stages_committed rep) \<and> VALIDATE \<notin> set (wr_stages_committed rep) \<and>
    (\<forall>s \<in> set (wr_stages_committed rep). \<not> has_key (wr_job_id rep) (checkpoint_key s) (w_db w) \<and>
       has_checkpoint (wr_job_id rep) s (checkpoint_key s) (w_db w'))"
  using run_once_stages [OF assms] by blast

theorem resumes_from_checkpoints_witness:
  "\<exists>rep w'. run_once sample_env sample_worker sample_world = (Inr rep, w') \<and>
    has_checkpoint (wr_job_id rep) PLAN (checkpoint_key PLAN) (w_db w')"
proof -
  obtain rep w' fin where r: "run_once sample_env sample_worker sample_world = (Inr rep, w')"
      "wr_stages_committed rep = EXECUTION_STAGES" by (rule sample_run_report)
  moreover have "PLAN \<in> set EXECUTION_STAGES" by (simp add: EXECUTION_STAGES_def stages_def)
  ultimately show ?thesis using resumes_from_checkpoints [OF r(1) sample_world_inv] by metis
qed


lemma sample_claim:
  obtains j w1 where "claim_job sample_env sample_worker sample_world = (Inr (Some j), w1)" and "job_id j = ''j''"
proof -
  have "wc_job_id sample_worker = Some ''j''" "\<not> blank (wc_worker_id sample_worker)"
      "0 < wc_lease_seconds sample_worker"
    by (simp_all add: sample_worker_def blank_def strip_def py_space_def)
  then show thesis using that waiting_claimed [OF sample_waiting] by blast
qed




text \<open>
  A worker that lost its lease takes the job away from the worker that holds it: the handler
  of the lease conflict fails the job without looking at the owner of the lease, so that after
  it the job is no longer running under the other worker's live lease.
\<close>

theorem lost_lease_fails_new_owner:
  assumes "holds_lease (job_id j) owner expiry (w_db w)" and "owner \<noteq> wc_worker_id c"
    and "db_inv (w_db w)" and "hands_off (job_id j) w"
  shows "\<exists>rep w' k. handle_exception env c j ss (LeaseConflict m) w = (Inr rep, w') \<and>
    find_job (job_id j) (w_db w') = Some k \<and> status k \<in> {SUCCEEDED, FAILED, RETRY_WAIT} \<and>
    \<not> holds_lease (job_id j) owner expiry (w_db w')"
proof -
  obtain k where "find_job (job_id j) (w_db w) = Some k" "status k = RUNNING"
    using assms(1) by (auto simp: holds_lease_def lease_view_def)
  then have "in_flight (job_id j) (attempts k) w" using assms(3,4) by (simp add: in_flight_def)
  from handle_exception_settles [OF this, of env c ss "LeaseConflict m"]
  obtain rep w' k2 where "handle_exception env c j ss (LeaseConflict m) w = (Inr rep, w')"
      "settled c (job_id j) (attempts k) k2 w'" by blast
  then show ?thesis
    by (intro exI [of _ rep] exI [of _ w'] exI [of _ k2])
      (auto simp: settled_def holds_lease_def lease_view_def)
qed

definition stolen_world :: world where
  "stolen_world = sample_world\<lparr>w_db := leased_db\<rparr>"

definition stale_worker :: worker_config where
  "stale_worker = sample_worker\<lparr>wc_worker_id := ''stale''\<rparr>"

theorem lost_lease_fails_new_owner_witness:
  "\<exists>rep w'. handle_exception sample_env stale_worker (new_job 0 ''j'' sample_create) [] (LeaseConflict []) stolen_world
      = (Inr rep, w') \<and> \<not> holds_lease ''j'' ''w'' 61 (w_db w')"
proof -
  have "holds_lease (job_id (new_job 0 ''j'' sample_create)) ''w'' 61 (w_db stolen_world)"
    using leased_db_holds by (simp add: stolen_world_def)
  moreover have "''w'' \<noteq> wc_worker_id stale_worker" by (simp add: stale_worker_def)
  moreover have "db_inv (w_db stolen_world)" using leased_db_inv by (simp add: stolen_world_def)
  moreover have "hands_off (job_id (new_job 0 ''j'' sample_create)) stolen_world"
    by (simp add: hands_off_def stolen_world_def sample_world_def)
  ultimately show ?thesis
    using lost_lease_fails_new_owner [of "new_job 0 ''j'' sample_create" "''w''" 61 stolen_world stale_worker sample_env]
    by fastforce
qed

end
