(* ===== verification/Journal.thy ===== *)
theory Journal
  imports Json Contracts "HOL-Library.Product_Lexorder"
begin

text \<open>
  The journal of external operations that the model and retrieval transports keep
  (\<open>_lookup\<close>, \<open>_reserve\<close> and the commit in \<open>src/evaluation/opencode_transport.py\<close> and
  \<open>src/evaluation/literature_retriever.py\<close>) and its reconciliation by an operator
  (\<open>src/evaluation/operation_recovery.py\<close>).

  The two tables differ in the columns of the response and in the exception class only: the
  type \<open>'r\<close> is the response a row stores and the argument \<open>ind\<close> is the constructor of the
  exception.  A stored JSON response is represented by the value its text decodes to.
\<close>

section \<open>Model\<close>

text \<open>The status column; \<open>OtherStatus\<close> is any text the program never writes.\<close>

datatype op_status = PENDING | COMPLETED | RETRY_AUTHORIZED | ABANDONED | OtherStatus string

record 'r op_row =
  or_operation_id :: string
  or_request_sha256 :: string
  or_status :: op_status
  or_response :: "'r option"
  or_created_at :: time
  or_completed_at :: "time option"

record reconciliation =
  rc_operation_kind :: string
  rc_operation_id :: string
  rc_request_sha256 :: string
  rc_prior_status :: op_status
  rc_action :: string
  rc_actor :: string
  rc_reason :: string
  rc_evidence_receipt_sha256 :: string
  rc_reconciled_at :: time

record 'r journal =
  operations :: "'r op_row list"
  reconciliations :: "reconciliation list"

definition find_op :: "string \<Rightarrow> 'r journal \<Rightarrow> 'r op_row option" where
  "find_op oid jn = row_by or_operation_id oid (operations jn)"

definition set_op :: "string \<Rightarrow> ('r op_row \<Rightarrow> 'r op_row) \<Rightarrow> 'r journal \<Rightarrow> 'r journal" where
  "set_op oid f jn = jn\<lparr>operations := update_rows or_operation_id oid f (operations jn)\<rparr>"

text \<open>A completed row without a response is a corrupt cache (\<open>str(None)\<close>, \<open>int(None)\<close>).\<close>

definition journal_lookup ::
  "(string \<Rightarrow> py_exn) \<Rightarrow> string \<Rightarrow> string \<Rightarrow> 'r journal \<Rightarrow> 'r option result" where
  "journal_lookup ind oid h jn = (case find_op oid jn of
     None \<Rightarrow> Inr None
   | Some row \<Rightarrow>
       if or_request_sha256 row \<noteq> h
       then Inl (BaselineContractError ''operation id was reused with different request semantics'')
       else (case or_status row of
         PENDING \<Rightarrow> Inl (ind ''operation is PENDING'')
       | ABANDONED \<Rightarrow> Inl (ind ''operation is ABANDONED'')
       | RETRY_AUTHORIZED \<Rightarrow> Inr None
       | OtherStatus s \<Rightarrow> Inl (BaselineContractError ''operation cache has an invalid status'')
       | COMPLETED \<Rightarrow> (case or_response row of
           None \<Rightarrow> Inl (TypeError ''corrupt operation cache'') | Some r \<Rightarrow> Inr (Some r))))"

definition pending_row :: "string \<Rightarrow> string \<Rightarrow> time \<Rightarrow> 'r op_row" where
  "pending_row oid h now = \<lparr>or_operation_id = oid, or_request_sha256 = h, or_status = PENDING,
     or_response = None, or_created_at = now, or_completed_at = None\<rparr>"

text \<open>
  Reservation: a cached response, or \<open>None\<close> when this caller may transmit the request.
\<close>

definition journal_reserve ::
  "(string \<Rightarrow> py_exn) \<Rightarrow> string \<Rightarrow> string \<Rightarrow> time \<Rightarrow> 'r journal \<Rightarrow> 'r option result \<times> 'r journal" where
  "journal_reserve ind oid h now jn = (case find_op oid jn of
     None \<Rightarrow> (Inr None, jn\<lparr>operations := operations jn @ [pending_row oid h now]\<rparr>)
   | Some row \<Rightarrow>
       if or_request_sha256 row \<noteq> h
       then (Inl (BaselineContractError ''operation id was reused with different request semantics''), jn)
       else if or_status row = RETRY_AUTHORIZED
       then (Inr None, set_op oid (\<lambda>r. r\<lparr>or_status := PENDING, or_created_at := now\<rparr>) jn)
       else (case journal_lookup ind oid h jn of
         Inl e \<Rightarrow> (Inl e, jn)
       | Inr (Some r) \<Rightarrow> (Inr (Some r), jn)
       | Inr None \<Rightarrow> (Inl (ind ''operation changed during reservation''), jn)))"

definition complete_row :: "'r \<Rightarrow> time \<Rightarrow> 'r op_row \<Rightarrow> 'r op_row" where
  "complete_row r now row = row\<lparr>or_status := COMPLETED, or_response := Some r, or_completed_at := Some now\<rparr>"

definition is_pending :: "string \<Rightarrow> string \<Rightarrow> 'r journal \<Rightarrow> bool" where
  "is_pending oid h jn \<longleftrightarrow> (case find_op oid jn of None \<Rightarrow> False
     | Some row \<Rightarrow> or_request_sha256 row = h \<and> or_status row = PENDING)"

text \<open>The commit of the model transport: an update, then a lookup.\<close>

definition model_commit :: "string \<Rightarrow> string \<Rightarrow> 'r \<Rightarrow> time \<Rightarrow> 'r journal \<Rightarrow> 'r result \<times> 'r journal" where
  "model_commit oid h r now jn =
     (let jn' = (if is_pending oid h jn then set_op oid (complete_row r now) jn else jn) in
      (case journal_lookup IndeterminateModelOperation oid h jn' of
        Inl e \<Rightarrow> (Inl e, jn')
      | Inr None \<Rightarrow> (Inl (IndeterminateModelOperation ''model response cache commit failed''), jn')
      | Inr (Some x) \<Rightarrow> (Inr x, jn')))"

text \<open>The commit of the retrieval transport: rendering, then an update that must hit its row.\<close>

definition retrieval_commit :: "string \<Rightarrow> string \<Rightarrow> json \<Rightarrow> time \<Rightarrow> json journal \<Rightarrow> json result \<times> json journal" where
  "retrieval_commit oid h r now jn = (case canonical_json r of
     Inl e \<Rightarrow> (Inl e, jn)
   | Inr rendered \<Rightarrow>
       if is_pending oid h jn
       then (Inr (sort_keys r), set_op oid (complete_row (sort_keys r) now) jn)
       else (Inl (IndeterminateRetrievalOperation ''retrieval cache commit failed''), jn))"

section \<open>Reconciliation by an operator\<close>

record model_response =
  mr_text :: string
  mr_input_tokens :: int
  mr_output_tokens :: int
  mr_request_id :: string

definition validate_attestation :: "string \<Rightarrow> string \<Rightarrow> string \<Rightarrow> unit result" where
  "validate_attestation actor reason receipt =
     (if blank actor \<or> length actor > 200
      then Inl (OperationRecoveryError ''actor is required and must be at most 200 characters'')
      else if blank reason \<or> length reason > 2000
      then Inl (OperationRecoveryError ''reason is required and must be at most 2000 characters'')
      else if \<not> is_hex64 receipt
      then Inl (OperationRecoveryError ''evidence receipt must be a SHA-256 digest'')
      else Inr ())"

definition token_field :: "json \<Rightarrow> string \<Rightarrow> int result" where
  "token_field v k = (case jget v k of
     Some (JInt n) \<Rightarrow> if n < 0 then Inl (OperationRecoveryError (k @ '' must be a non-negative integer''))
       else Inr n
   | _ \<Rightarrow> Inl (OperationRecoveryError (k @ '' must be a non-negative integer'')))"

definition same_keys :: "json \<Rightarrow> string list \<Rightarrow> bool" where
  "same_keys v names \<longleftrightarrow> (case v of JObj kvs \<Rightarrow> set (map fst kvs) = set names | _ \<Rightarrow> False)"

definition validated_model_response :: "json \<Rightarrow> model_response result" where
  "validated_model_response v =
     (if \<not> same_keys v [''response_text'', ''input_tokens'', ''output_tokens'', ''request_id'']
      then Inl (OperationRecoveryError ''model completion requires response_text, input_tokens, output_tokens, request_id'')
      else (case jget v ''response_text'' of
        Some (JStr text) \<Rightarrow> (case jget v ''request_id'' of
          Some (JStr rid) \<Rightarrow>
            if blank rid then Inl (OperationRecoveryError ''model response text and request id are required'')
            else bind_result (token_field v ''input_tokens'') (\<lambda>i.
                 bind_result (token_field v ''output_tokens'') (\<lambda>out.
                 Inr \<lparr>mr_text = text, mr_input_tokens = i, mr_output_tokens = out, mr_request_id = rid\<rparr>))
        | _ \<Rightarrow> Inl (AttributeError ''strip''))
      | _ \<Rightarrow> Inl (OperationRecoveryError ''model response text and request id are required'')))"

fun is_list :: "json \<Rightarrow> bool" where
  "is_list (JList xs) = True"
| "is_list v = False"

definition validated_retrieval_response :: "json \<Rightarrow> json result" where
  "validated_retrieval_response v =
     (if \<not> is_dict v \<and> \<not> is_list v
      then Inl (OperationRecoveryError ''retrieval completion response must be an object or array'')
      else (case canonical_json v of
        Inl e \<Rightarrow> Inl (OperationRecoveryError ''retrieval response must be finite JSON'')
      | Inr t \<Rightarrow> Inr (sort_keys v)))"

record recovery_request =
  rq_operation_id :: string
  rq_request_sha256 :: string
  rq_action :: string
  rq_actor :: string
  rq_reason :: string
  rq_receipt :: string
  rq_response :: "json option"

definition reconcile ::
  "string \<Rightarrow> (json \<Rightarrow> 'r result) \<Rightarrow> recovery_request \<Rightarrow> time \<Rightarrow> 'r journal \<Rightarrow> (op_status \<times> 'r journal) result" where
  "reconcile kind validate q now jn =
     (if rq_action q \<notin> set [''complete'', ''authorize_retry'', ''abandon'']
      then Inl (OperationRecoveryError ''unsupported reconciliation action'')
      else if blank (rq_operation_id q) \<or> length (rq_operation_id q) > 500
      then Inl (OperationRecoveryError ''operation id is invalid'')
      else if \<not> is_hex64 (rq_request_sha256 q)
      then Inl (OperationRecoveryError ''request_sha256 must be a SHA-256 digest'')
      else
        bind_result (validate_attestation (rq_actor q) (rq_reason q) (rq_receipt q)) (\<lambda>u.
        bind_result (if rq_action q = ''complete''
          then bind_result (validate (case rq_response q of None \<Rightarrow> JNull | Some v \<Rightarrow> v)) (\<lambda>r. Inr (Some r))
          else Inr None) (\<lambda>completion.
        if rq_action q \<noteq> ''complete'' \<and> rq_response q \<noteq> None
        then Inl (OperationRecoveryError ''response is accepted only for complete action'')
        else (case find_op (rq_operation_id q) jn of
          None \<Rightarrow> Inl (OperationRecoveryError ''operation does not exist'')
        | Some row \<Rightarrow>
            if or_request_sha256 row \<noteq> rq_request_sha256 q
            then Inl (OperationRecoveryError ''request hash does not match reserved operation'')
            else if or_status row \<noteq> PENDING
            then Inl (OperationRecoveryError ''only PENDING operations can be reconciled'')
            else let next = (if rq_action q = ''complete'' then COMPLETED
                       else if rq_action q = ''authorize_retry'' then RETRY_AUTHORIZED else ABANDONED);
                     change = (case completion of Some r \<Rightarrow> complete_row r now
                       | None \<Rightarrow> (\<lambda>r. r\<lparr>or_status := next\<rparr>))
              in Inr (next, (set_op (rq_operation_id q) change jn)\<lparr>reconciliations := reconciliations jn @
                   [\<lparr>rc_operation_kind = kind, rc_operation_id = rq_operation_id q,
                     rc_request_sha256 = rq_request_sha256 q, rc_prior_status = PENDING,
                     rc_action = rq_action q, rc_actor = rq_actor q, rc_reason = rq_reason q,
                     rc_evidence_receipt_sha256 = rq_receipt q, rc_reconciled_at = now\<rparr>]\<rparr>)))))"

definition reconcile_model :: "recovery_request \<Rightarrow> time \<Rightarrow> model_response journal \<Rightarrow> (op_status \<times> model_response journal) result" where
  "reconcile_model = reconcile ''model'' validated_model_response"

definition reconcile_retrieval :: "recovery_request \<Rightarrow> time \<Rightarrow> json journal \<Rightarrow> (op_status \<times> json journal) result" where
  "reconcile_retrieval = reconcile ''retrieval'' validated_retrieval_response"

definition list_operations :: "bool \<Rightarrow> 'r journal \<Rightarrow> (string \<times> string \<times> op_status \<times> time \<times> time option) list" where
  "list_operations include_completed jn = map (\<lambda>r. (or_operation_id r, or_request_sha256 r, or_status r,
       or_created_at r, or_completed_at r))
     (sort_key (\<lambda>r. (or_created_at r, or_operation_id r))
        (filter (\<lambda>r. include_completed \<or> or_status r \<noteq> COMPLETED) (operations jn)))"

definition reconciliation_history :: "string \<Rightarrow> string \<Rightarrow> 'r journal \<Rightarrow> reconciliation list" where
  "reconciliation_history kind oid jn =
     filter (\<lambda>r. rc_operation_kind r = kind \<and> rc_operation_id r = oid) (reconciliations jn)"

section \<open>The status table of an operation\<close>

definition OP_TRANSITIONS :: "op_status \<Rightarrow> op_status list" where
  "OP_TRANSITIONS s = (case s of
     PENDING \<Rightarrow> [COMPLETED, RETRY_AUTHORIZED, ABANDONED]
   | RETRY_AUTHORIZED \<Rightarrow> [PENDING]
   | _ \<Rightarrow> [])"

definition journal_le :: "'r journal \<Rightarrow> 'r journal \<Rightarrow> bool" where
  "journal_le jn jn' \<longleftrightarrow> (\<exists>rs. reconciliations jn' = reconciliations jn @ rs) \<and>
     (\<forall>oid row. find_op oid jn = Some row \<longrightarrow> (\<exists>row'. find_op oid jn' = Some row' \<and>
        or_request_sha256 row' = or_request_sha256 row \<and>
        status_path OP_TRANSITIONS (or_status row) (or_status row') \<and>
        (or_status row = COMPLETED \<longrightarrow> or_response row' = or_response row)))"

lemma find_set_op [simp]:
  "(\<And>r. or_operation_id (f r) = or_operation_id r) \<Longrightarrow> find_op k (set_op oid f jn)
     = (if k = oid then map_option f (find_op oid jn) else find_op k jn)"
  by (simp add: find_op_def set_op_def row_by_update_rows)

lemma complete_row_simps [simp]:
  "or_operation_id (complete_row r now row) = or_operation_id row"
  "or_request_sha256 (complete_row r now row) = or_request_sha256 row"
  "or_status (complete_row r now row) = COMPLETED" "or_response (complete_row r now row) = Some r"
  by (simp_all add: complete_row_def)

lemma pending_row_simps [simp]:
  "or_operation_id (pending_row oid h now) = oid" "or_request_sha256 (pending_row oid h now) = h"
  "or_status (pending_row oid h now) = PENDING"
  by (simp_all add: pending_row_def)

lemma set_op_reconciliations [simp]: "reconciliations (set_op oid f jn) = reconciliations jn"
  by (simp add: set_op_def)

lemma find_op_reconciliations [simp]: "find_op k (jn\<lparr>reconciliations := rs\<rparr>) = find_op k jn"
  by (simp add: find_op_def)

lemma find_op_insert:
  "find_op k (jn\<lparr>operations := operations jn @ [row]\<rparr>)
    = (case find_op k jn of None \<Rightarrow> if or_operation_id row = k then Some row else None | Some x \<Rightarrow> Some x)"
  by (simp add: find_op_def row_by_append row_by_Cons split: option.split)

end
