(* ===== verification/Circuit.thy ===== *)
theory Circuit
  imports Contracts
begin

text \<open>
  The persistent circuit breaker (\<open>src/evaluation/circuit_breaker.py\<close>): one row per circuit and
  a log of circuit events in a database that several processes share; every method is one
  transaction.  A method can commit and then raise (an expired probe reopens the circuit and
  refuses the caller), so a method returns its result together with the database it leaves.

  The lemmas give the invariant of a row, the exclusion of a half-open probe, the cooldown of an
  open circuit, and the completeness of the event log.
\<close>

section \<open>Model\<close>

text \<open>The state column; \<open>OtherState\<close> is any text the breaker never writes.\<close>

datatype circuit_state = CLOSED | HALF_OPEN | OPEN | OtherState string

record breaker_row =
  br_circuit_id :: string
  br_state :: circuit_state
  consecutive_failures :: int
  opened_at :: "time option"
  probe_operation_id :: "string option"
  probe_started_at :: "time option"
  br_updated_at :: time

record circuit_event =
  ce_circuit_id :: string
  ce_operation_id :: string
  ce_event_type :: string
  ce_prior_state :: circuit_state
  ce_next_state :: circuit_state
  ce_reason_code :: string
  ce_occurred_at :: time

record circuit_db =
  circuit_breakers :: "breaker_row list"
  circuit_events :: "circuit_event list"

record breaker =
  bk_circuit_id :: string
  failure_threshold :: int
  recovery_timeout_seconds :: time
  probe_timeout_seconds :: time

definition closed_row :: "string \<Rightarrow> time \<Rightarrow> breaker_row" where
  "closed_row cid now = \<lparr>br_circuit_id = cid, br_state = CLOSED, consecutive_failures = 0,
     opened_at = None, probe_operation_id = None, probe_started_at = None, br_updated_at = now\<rparr>"

text \<open>The constructor, with the \<open>INSERT OR IGNORE\<close> of the row.\<close>

definition breaker_init :: "breaker \<Rightarrow> time \<Rightarrow> circuit_db \<Rightarrow> (unit \<times> circuit_db) result" where
  "breaker_init b now db =
     (if blank (bk_circuit_id b) \<or> length (bk_circuit_id b) > 500 then Inl (ValueError ''circuit_id is invalid'')
      else if failure_threshold b < 1 then Inl (ValueError ''failure_threshold must be positive'')
      else if recovery_timeout_seconds b \<le> 0 \<or> probe_timeout_seconds b \<le> 0
      then Inl (ValueError ''circuit timeouts must be positive'')
      else Inr ((), if row_by br_circuit_id (bk_circuit_id b) (circuit_breakers db) = None
        then db\<lparr>circuit_breakers := circuit_breakers db @ [closed_row (bk_circuit_id b) now]\<rparr> else db))"

definition breaker_find :: "breaker \<Rightarrow> circuit_db \<Rightarrow> breaker_row option" where
  "breaker_find b db = row_by br_circuit_id (bk_circuit_id b) (circuit_breakers db)"

definition set_row :: "breaker \<Rightarrow> (breaker_row \<Rightarrow> breaker_row) \<Rightarrow> circuit_db \<Rightarrow> circuit_db" where
  "set_row b f db = db\<lparr>circuit_breakers := update_rows br_circuit_id (bk_circuit_id b) f (circuit_breakers db)\<rparr>"

definition log_event ::
  "breaker \<Rightarrow> string \<Rightarrow> string \<Rightarrow> circuit_state \<Rightarrow> circuit_state \<Rightarrow> string \<Rightarrow> time \<Rightarrow> circuit_db \<Rightarrow> circuit_db" where
  "log_event b op etype prior next reason now db = db\<lparr>circuit_events := circuit_events db @
     [\<lparr>ce_circuit_id = bk_circuit_id b, ce_operation_id = op, ce_event_type = etype,
       ce_prior_state = prior, ce_next_state = next, ce_reason_code = reason, ce_occurred_at = now\<rparr>]\<rparr>"

definition bad_operation :: "string \<Rightarrow> bool" where
  "bad_operation op \<longleftrightarrow> blank op \<or> length op > 500"

text \<open>\<open>float(x or 0)\<close>\<close>

definition or_zero :: "time option \<Rightarrow> time" where
  "or_zero t = (case t of None \<Rightarrow> 0 | Some x \<Rightarrow> x)"

type_synonym circuit_act = "circuit_db \<Rightarrow> unit result \<times> circuit_db"

definition before_call :: "breaker \<Rightarrow> string \<Rightarrow> time \<Rightarrow> circuit_act" where
  "before_call b op now db =
     (if bad_operation op then (Inl (BaselineContractError ''circuit operation id is invalid''), db)
      else (case breaker_find b db of
        None \<Rightarrow> (Inl (BaselineContractError ''circuit state disappeared''), db)
      | Some row \<Rightarrow> (case br_state row of
          CLOSED \<Rightarrow> (Inr (), db)
        | HALF_OPEN \<Rightarrow>
            if now - or_zero (probe_started_at row) \<ge> probe_timeout_seconds b
            then (Inl (CircuitOpenError ''half-open probe lease expired; circuit reopened for a new cooldown''),
                  log_event b op ''probe_expired'' HALF_OPEN OPEN ''probe_lease_expired'' now
                    (set_row b (\<lambda>r. r\<lparr>br_state := OPEN, opened_at := Some now, probe_operation_id := None,
                       probe_started_at := None, br_updated_at := now\<rparr>) db))
            else (Inl (CircuitOpenError ''circuit is HALF_OPEN with another probe in flight''), db)
        | OtherState s \<Rightarrow> (Inl (BaselineContractError ''invalid circuit state''), db)
        | OPEN \<Rightarrow>
            if now - or_zero (opened_at row) < recovery_timeout_seconds b
            then (Inl (CircuitOpenError ''circuit is OPEN; recovery cooldown has not elapsed''), db)
            else (Inr (), log_event b op ''probe_admitted'' OPEN HALF_OPEN ''recovery_timeout_elapsed'' now
                   (set_row b (\<lambda>r. r\<lparr>br_state := HALF_OPEN, probe_operation_id := Some op,
                      probe_started_at := Some now, br_updated_at := now\<rparr>) db)))))"

definition record_success :: "breaker \<Rightarrow> string \<Rightarrow> time \<Rightarrow> circuit_act" where
  "record_success b op now db =
     (if bad_operation op then (Inl (BaselineContractError ''circuit operation id is invalid''), db)
      else (case breaker_find b db of
        None \<Rightarrow> (Inl (BaselineContractError ''circuit state disappeared''), db)
      | Some row \<Rightarrow>
          if br_state row = HALF_OPEN \<and> probe_operation_id row \<noteq> Some op
          then (Inl (BaselineContractError ''success does not belong to the half-open probe''), db)
          else if br_state row = OPEN
          then (Inl (BaselineContractError ''cannot record success while circuit is open''), db)
          else let db' = set_row b (\<lambda>r. r\<lparr>br_state := CLOSED, consecutive_failures := 0, opened_at := None,
                 probe_operation_id := None, probe_started_at := None, br_updated_at := now\<rparr>) db
            in (Inr (), if br_state row \<noteq> CLOSED \<or> consecutive_failures row \<noteq> 0
              then log_event b op ''call_succeeded'' (br_state row) CLOSED ''provider_success'' now db'
              else db')))"

definition record_failure :: "breaker \<Rightarrow> string \<Rightarrow> string \<Rightarrow> time \<Rightarrow> circuit_act" where
  "record_failure b op reason now db =
     (if bad_operation op then (Inl (BaselineContractError ''circuit operation id is invalid''), db)
      else if blank reason \<or> length reason > 120
      then (Inl (BaselineContractError ''circuit failure reason code is invalid''), db)
      else (case breaker_find b db of
        None \<Rightarrow> (Inl (BaselineContractError ''circuit state disappeared''), db)
      | Some row \<Rightarrow>
          if br_state row = OPEN then (Inr (), db)
          else if br_state row = HALF_OPEN \<and> probe_operation_id row \<noteq> Some op
          then (Inl (BaselineContractError ''failure does not belong to the half-open probe''), db)
          else let failures = consecutive_failures row + 1;
                   next = (if br_state row = HALF_OPEN \<or> failures \<ge> failure_threshold b then OPEN else CLOSED);
                   opened = (if next = OPEN then Some now else None)
            in (Inr (), log_event b op ''call_failed'' (br_state row) next reason now
                 (set_row b (\<lambda>r. r\<lparr>br_state := next, consecutive_failures := failures, opened_at := opened,
                    probe_operation_id := None, probe_started_at := None, br_updated_at := now\<rparr>) db))))"

definition breaker_events :: "breaker \<Rightarrow> circuit_db \<Rightarrow> circuit_event list" where
  "breaker_events b db = filter (\<lambda>e. ce_circuit_id e = bk_circuit_id b) (circuit_events db)"

record breaker_snapshot =
  bs_row :: breaker_row
  bs_failure_threshold :: int
  bs_recovery_timeout_seconds :: time
  bs_probe_timeout_seconds :: time

definition circuit_snapshot :: "breaker \<Rightarrow> circuit_db \<Rightarrow> breaker_snapshot result" where
  "circuit_snapshot b db = (case breaker_find b db of
     None \<Rightarrow> Inl (BaselineContractError ''circuit state disappeared'')
   | Some row \<Rightarrow> Inr \<lparr>bs_row = row, bs_failure_threshold = failure_threshold b,
       bs_recovery_timeout_seconds = recovery_timeout_seconds b,
       bs_probe_timeout_seconds = probe_timeout_seconds b\<rparr>)"

section \<open>The breaker as a machine\<close>

text \<open>What callers do on one circuit, with the operation id and the clock reading.\<close>

datatype circuit_op = BeforeCall string time | RecordSuccess string time | RecordFailure string string time

primrec circuit_step :: "breaker \<Rightarrow> circuit_op \<Rightarrow> circuit_act" where
  "circuit_step b (BeforeCall op now) = before_call b op now"
| "circuit_step b (RecordSuccess op now) = record_success b op now"
| "circuit_step b (RecordFailure op reason now) = record_failure b op reason now"

primrec op_time :: "circuit_op \<Rightarrow> time" where
  "op_time (BeforeCall op now) = now"
| "op_time (RecordSuccess op now) = now"
| "op_time (RecordFailure op reason now) = now"

text \<open>A row in order: what each state says about the other columns.\<close>

definition row_ok :: "breaker \<Rightarrow> breaker_row \<Rightarrow> bool" where
  "row_ok b r \<longleftrightarrow> 0 \<le> consecutive_failures r \<and> (case br_state r of
     CLOSED \<Rightarrow> consecutive_failures r < failure_threshold b \<and> opened_at r = None \<and>
       probe_operation_id r = None \<and> probe_started_at r = None
   | OPEN \<Rightarrow> 0 < consecutive_failures r \<and> opened_at r \<noteq> None \<and> probe_operation_id r = None \<and>
       probe_started_at r = None
   | HALF_OPEN \<Rightarrow> 0 < consecutive_failures r \<and> probe_operation_id r \<noteq> None \<and> probe_started_at r \<noteq> None
   | OtherState s \<Rightarrow> False)"

text \<open>The log tells the state: each event starts where the one before it ended.\<close>

fun trail :: "circuit_state \<Rightarrow> circuit_event list \<Rightarrow> circuit_state option" where
  "trail s [] = Some s"
| "trail s (e # es) = (if ce_prior_state e = s then trail (ce_next_state e) es else None)"

definition circuit_inv :: "breaker \<Rightarrow> circuit_db \<Rightarrow> bool" where
  "circuit_inv b db \<longleftrightarrow> 1 \<le> failure_threshold b \<and>
     (case breaker_find b db of None \<Rightarrow> False
      | Some r \<Rightarrow> row_ok b r \<and> trail CLOSED (breaker_events b db) = Some (br_state r))"

lemma trail_append: "trail s (xs @ ys) = Option.bind (trail s xs) (\<lambda>t. trail t ys)"
  by (induction xs arbitrary: s) simp_all

lemma find_set_row [simp]:
  "(\<And>r. br_circuit_id (f r) = br_circuit_id r) \<Longrightarrow>
   breaker_find b (set_row b f db) = map_option f (breaker_find b db)"
  by (simp add: breaker_find_def set_row_def row_by_update_rows)

lemma find_log [simp]: "breaker_find b (log_event c op t p n r now db) = breaker_find b db"
  by (simp add: breaker_find_def log_event_def)

lemma events_set_row [simp]: "breaker_events b (set_row c f db) = breaker_events b db"
  by (simp add: breaker_events_def set_row_def)

lemma events_log [simp]:
  "breaker_events b (log_event b op t p n r now db) = breaker_events b db @
     [\<lparr>ce_circuit_id = bk_circuit_id b, ce_operation_id = op, ce_event_type = t,
       ce_prior_state = p, ce_next_state = n, ce_reason_code = r, ce_occurred_at = now\<rparr>]"
  by (simp add: breaker_events_def log_event_def)

lemma circuit_step_inv:
  assumes "circuit_inv b db"
  shows "circuit_inv b (snd (circuit_step b op db))"
proof -
  obtain r where r: "breaker_find b db = Some r" "row_ok b r" "1 \<le> failure_threshold b"
      "trail CLOSED (breaker_events b db) = Some (br_state r)"
    using assms by (auto simp: circuit_inv_def split: option.splits)
  show ?thesis
  proof (cases op)
    case (BeforeCall i now)
    then show ?thesis
      using r by (cases "br_state r") (auto simp: before_call_def circuit_inv_def row_ok_def trail_append)
  next
    case (RecordSuccess i now)
    then show ?thesis
      using r by (cases "br_state r") (auto simp: record_success_def circuit_inv_def row_ok_def trail_append Let_def)
  next
    case (RecordFailure i reason now)
    then show ?thesis
      using r by (cases "br_state r") (auto simp: record_failure_def circuit_inv_def row_ok_def trail_append Let_def)
  qed
qed

interpretation circuit_machine: invariant_machine "circuit_step b" "circuit_inv b" for b
  by unfold_locales (rule circuit_step_inv)

text \<open>A new circuit is in order.\<close>

lemma breaker_init_inv:
  assumes "breaker_init b now db = Inr (u, db')" and "breaker_find b db = None" and "breaker_events b db = []"
  shows "circuit_inv b db'"
  using assms
  by (auto simp: breaker_init_def circuit_inv_def breaker_find_def breaker_events_def row_by_append
      row_by_Cons closed_row_def row_ok_def split: if_splits)

section \<open>Exclusion\<close>

definition admits :: "breaker \<Rightarrow> circuit_op \<Rightarrow> circuit_db \<Rightarrow> bool" where
  "admits b op db \<longleftrightarrow> (case op of BeforeCall i now \<Rightarrow> fst (before_call b i now db) = Inr () | _ \<Rightarrow> False)"

text \<open>The circuit is open since \<open>t\<close>.\<close>

definition open_since :: "breaker \<Rightarrow> time \<Rightarrow> circuit_db \<Rightarrow> bool" where
  "open_since b t db \<longleftrightarrow> (case breaker_find b db of None \<Rightarrow> False
     | Some r \<Rightarrow> br_state r = OPEN \<and> opened_at r = Some t)"

lemma open_step:
  assumes "open_since b t db" and "op_time op < t + recovery_timeout_seconds b"
  shows "open_since b t (snd (circuit_step b op db))" and "\<not> admits b op db"
proof -
  obtain r where r: "breaker_find b db = Some r" "br_state r = OPEN" "opened_at r = Some t"
    using assms(1) by (auto simp: open_since_def split: option.splits)
  then show "open_since b t (snd (circuit_step b op db))"
    using assms by (cases op) (auto simp: before_call_def record_success_def record_failure_def or_zero_def)
  show "\<not> admits b op db"
    using r assms(2) by (cases op) (auto simp: admits_def before_call_def or_zero_def)
qed

lemma open_run:
  "open_since b t db \<Longrightarrow> list_all (\<lambda>op. op_time op < t + recovery_timeout_seconds b) ops \<Longrightarrow>
   open_since b t (run_ops (circuit_step b) ops db)"
  by (induction ops arbitrary: db) (simp_all add: open_step)

text \<open>The circuit is probed by one operation since \<open>t\<close>.\<close>

definition probed_by :: "breaker \<Rightarrow> string \<Rightarrow> time \<Rightarrow> circuit_db \<Rightarrow> bool" where
  "probed_by b p t db \<longleftrightarrow> (case breaker_find b db of None \<Rightarrow> False
     | Some r \<Rightarrow> br_state r = HALF_OPEN \<and> probe_operation_id r = Some p \<and> probe_started_at r = Some t)"

text \<open>What the others do: anything but recording an outcome under the probe's operation id.\<close>

primrec not_of :: "string \<Rightarrow> circuit_op \<Rightarrow> bool" where
  "not_of p (BeforeCall op now) \<longleftrightarrow> True"
| "not_of p (RecordSuccess op now) \<longleftrightarrow> op \<noteq> p"
| "not_of p (RecordFailure op reason now) \<longleftrightarrow> op \<noteq> p"

lemma probe_step:
  assumes "probed_by b p t db" and "op_time op < t + probe_timeout_seconds b" and "not_of p op"
  shows "probed_by b p t (snd (circuit_step b op db))" and "\<not> admits b op db"
proof -
  obtain r where r: "breaker_find b db = Some r" "br_state r = HALF_OPEN" "probe_operation_id r = Some p"
      "probe_started_at r = Some t"
    using assms(1) by (auto simp: probed_by_def split: option.splits)
  then show "probed_by b p t (snd (circuit_step b op db))"
    using assms by (cases op) (auto simp: before_call_def record_success_def record_failure_def or_zero_def)
  show "\<not> admits b op db"
    using r assms(2) by (cases op) (auto simp: admits_def before_call_def or_zero_def)
qed

lemma probe_run:
  "probed_by b p t db \<Longrightarrow> list_all (\<lambda>op. op_time op < t + probe_timeout_seconds b \<and> not_of p op) ops \<Longrightarrow>
   probed_by b p t (run_ops (circuit_step b) ops db)"
  by (induction ops arbitrary: db) (simp_all add: probe_step)

section \<open>Tripping and recovering\<close>

definition failures_of :: "string \<Rightarrow> (string \<times> time) list \<Rightarrow> circuit_op list" where
  "failures_of reason fs = map (\<lambda>(i, now). RecordFailure i reason now) fs"

lemma failures_count:
  assumes "\<not> blank reason" and "length reason \<le> 120"
  shows "breaker_find b db = Some r \<Longrightarrow> br_state r = CLOSED \<Longrightarrow>
    list_all (\<lambda>(i, now). \<not> bad_operation i) fs \<Longrightarrow>
    consecutive_failures r + int (length fs) < failure_threshold b \<Longrightarrow>
    \<exists>r'. breaker_find b (run_ops (circuit_step b) (failures_of reason fs) db) = Some r' \<and>
      br_state r' = CLOSED \<and> consecutive_failures r' = consecutive_failures r + int (length fs)"
proof (induction fs arbitrary: db r)
  case (Cons f fs)
  obtain i now where f: "f = (i, now)" by (cases f)
  let ?r = "r\<lparr>br_state := CLOSED, consecutive_failures := consecutive_failures r + 1, opened_at := None,
    probe_operation_id := None, probe_started_at := None, br_updated_at := now\<rparr>"
  have "breaker_find b (snd (record_failure b i reason now db)) = Some ?r"
    using Cons.prems assms f by (auto simp: record_failure_def Let_def)
  from Cons.IH [OF this] Cons.prems show ?case by (auto simp: failures_of_def f)
qed (simp add: failures_of_def)

lemma trips:
  assumes "\<not> blank reason" and "length reason \<le> 120"
    and "breaker_find b db = Some r" and "br_state r = CLOSED" and "consecutive_failures r = 0"
    and "list_all (\<lambda>(i, now). \<not> bad_operation i) (fs @ [(i, now)])"
    and "int (length (fs @ [(i, now)])) = failure_threshold b"
  shows "open_since b now (run_ops (circuit_step b) (failures_of reason (fs @ [(i, now)])) db)"
proof -
  have "list_all (\<lambda>(i, now). \<not> bad_operation i) fs"
    and "consecutive_failures r + int (length fs) < failure_threshold b"
    using assms(5-7) by simp_all
  from failures_count [OF assms(1-4) this] obtain r' where
      r': "breaker_find b (run_ops (circuit_step b) (failures_of reason fs) db) = Some r'"
        "br_state r' = CLOSED" "consecutive_failures r' = int (length fs)"
    using assms(5) by auto
  then show ?thesis
    using assms(1,2,6,7)
    by (auto simp: failures_of_def run_ops_append record_failure_def Let_def open_since_def)
qed

lemma recovers:
  assumes "open_since b t db" and "t + recovery_timeout_seconds b \<le> now" and "\<not> bad_operation i"
  shows "fst (before_call b i now db) = Inr ()" and "probed_by b i now (snd (before_call b i now db))"
proof -
  obtain r where r: "breaker_find b db = Some r" "br_state r = OPEN" "opened_at r = Some t"
    using assms(1) by (auto simp: open_since_def split: option.splits)
  then show "fst (before_call b i now db) = Inr ()" "probed_by b i now (snd (before_call b i now db))"
    using assms(2,3) by (auto simp: before_call_def or_zero_def probed_by_def)
qed

lemma probe_outcome:
  assumes "probed_by b p t db" and "\<not> bad_operation p"
  shows "fst (record_success b p now db) = Inr ()"
    and "map_option br_state (breaker_find b (snd (record_success b p now db))) = Some CLOSED"
    and "\<not> blank reason \<Longrightarrow> length reason \<le> 120 \<Longrightarrow> open_since b now (snd (record_failure b p reason now db))"
proof -
  obtain r where r: "breaker_find b db = Some r" "br_state r = HALF_OPEN" "probe_operation_id r = Some p"
    using assms(1) by (auto simp: probed_by_def split: option.splits)
  then show "fst (record_success b p now db) = Inr ()"
    and "map_option br_state (breaker_find b (snd (record_success b p now db))) = Some CLOSED"
    using assms(2) by (auto simp: record_success_def Let_def)
  show "open_since b now (snd (record_failure b p reason now db))" if "\<not> blank reason" "length reason \<le> 120"
    using r assms(2) that by (auto simp: record_failure_def Let_def open_since_def)
qed

end
