(* ===== verification/Transport.thy ===== *)
theory Transport
  imports Journal Circuit
begin

text \<open>
  The transports that call a paid external service (\<open>complete\<close> in
  \<open>src/evaluation/opencode_transport.py\<close>, \<open>search\<close> and \<open>content\<close> in
  \<open>src/evaluation/literature_retriever.py\<close>): look up the journal, ask the circuit breaker,
  reserve the operation, transmit, record the outcome, commit the response.

  A call is a process that moves from phase to phase, one database transaction or one external
  request at a time; any number of processes share the journal and the circuit, can stop
  anywhere, and interleave with the operator's reconciliations.  The system is a step relation
  whose state also logs the transmitted requests.  A kit holds what differs between the
  transports; \<open>transport_kit\<close> states what the arguments need of its commit.
\<close>

section \<open>Model\<close>

record call =
  ca_operation_id :: string
  ca_request_sha256 :: string

text \<open>
  Where a call stands: before the lookup, before the session request, before the circuit,
  before the reservation, holding a cached response, before the transmission, holding the
  response before and after the circuit has recorded it, failing, finished.
\<close>

datatype 'r phase =
    Start
  | SessionDue
  | CircuitDue
  | ReserveDue
  | RaceWon 'r
  | SendDue
  | Received 'r
  | CommitDue 'r
  | Failing py_exn
  | Finished "'r result"

record 'r kit =
  kit_ind :: "string \<Rightarrow> py_exn"
  kit_commit :: "string \<Rightarrow> string \<Rightarrow> 'r \<Rightarrow> time \<Rightarrow> 'r journal \<Rightarrow> 'r result \<times> 'r journal"
  kit_convert :: "py_exn \<Rightarrow> py_exn"
  kit_model :: bool
  kit_reason :: string
  kit_kind :: string
  kit_validate :: "json \<Rightarrow> 'r result"
  kit_breaker :: breaker

record 'r net =
  net_journal :: "'r journal"
  net_circuit :: circuit_db
  net_sends :: "(string \<times> string) list"
  net_calls :: "(call \<times> 'r phase) list"

fun is_circuit_open :: "py_exn \<Rightarrow> bool" where
  "is_circuit_open (CircuitOpenError m) = True"
| "is_circuit_open e = False"

text \<open>
  One step of a call.  \<open>reply\<close> is what the external service gives, if the step asks it: a
  response that passes the checks of the code, or the exception raised instead.
\<close>

definition advance ::
  "'r kit \<Rightarrow> time \<Rightarrow> 'r result \<Rightarrow> call \<Rightarrow> 'r phase \<Rightarrow> 'r net \<Rightarrow> 'r phase \<times> 'r net" where
  "advance kit now reply c ph n =
     (let oid = ca_operation_id c; h = ca_request_sha256 c; b = kit_breaker kit in
      case ph of
        Start \<Rightarrow>
          if kit_model kit \<and> bad_operation oid
          then (Finished (Inl (BaselineContractError ''model operation id is invalid'')), n)
          else (case journal_lookup (kit_ind kit) oid h (net_journal n) of
            Inl e \<Rightarrow> (Finished (Inl e), n)
          | Inr (Some r) \<Rightarrow> (Finished (Inr r), n)
          | Inr None \<Rightarrow> (if kit_model kit then SessionDue else CircuitDue, n))
      | SessionDue \<Rightarrow> (case reply of Inl e \<Rightarrow> (Finished (Inl e), n) | Inr r \<Rightarrow> (CircuitDue, n))
      | CircuitDue \<Rightarrow> (let (res, db) = before_call b oid now (net_circuit n) in
          (case res of Inl e \<Rightarrow> Finished (Inl e) | Inr u \<Rightarrow> ReserveDue, n\<lparr>net_circuit := db\<rparr>))
      | ReserveDue \<Rightarrow> (let (res, jn) = journal_reserve (kit_ind kit) oid h now (net_journal n) in
          (case res of Inl e \<Rightarrow> Failing e | Inr (Some r) \<Rightarrow> RaceWon r | Inr None \<Rightarrow> SendDue,
           n\<lparr>net_journal := jn\<rparr>))
      | RaceWon r \<Rightarrow> (let (res, db) = record_success b oid now (net_circuit n) in
          (case res of Inl e \<Rightarrow> Failing e | Inr u \<Rightarrow> Finished (Inr r), n\<lparr>net_circuit := db\<rparr>))
      | SendDue \<Rightarrow> (case reply of Inl e \<Rightarrow> Failing e | Inr r \<Rightarrow> Received r,
           n\<lparr>net_sends := net_sends n @ [(oid, h)]\<rparr>)
      | Received r \<Rightarrow> (let (res, db) = record_success b oid now (net_circuit n) in
          (case res of Inl e \<Rightarrow> Finished (Inl e) | Inr u \<Rightarrow> CommitDue r, n\<lparr>net_circuit := db\<rparr>))
      | CommitDue r \<Rightarrow> (let (res, jn) = kit_commit kit oid h r now (net_journal n) in
          (Finished res, n\<lparr>net_journal := jn\<rparr>))
      | Failing e \<Rightarrow>
          if kit_model kit \<and> is_circuit_open e then (Finished (Inl e), n)
          else (let (res, db) = record_failure b oid (kit_reason kit) now (net_circuit n) in
            (case res of Inl e' \<Rightarrow> Finished (Inl e') | Inr u \<Rightarrow> Finished (Inl (kit_convert kit e)),
             n\<lparr>net_circuit := db\<rparr>))
      | Finished res \<Rightarrow> (ph, n))"

definition model_kit :: "breaker \<Rightarrow> model_response kit" where
  "model_kit b = \<lparr>kit_ind = IndeterminateModelOperation, kit_commit = model_commit, kit_convert = id,
     kit_model = True, kit_reason = ''model_operation_failed'', kit_kind = ''model'',
     kit_validate = validated_model_response, kit_breaker = b\<rparr>"

definition retrieval_convert :: "string \<Rightarrow> py_exn \<Rightarrow> py_exn" where
  "retrieval_convert what e = (case e of
     IndeterminateRetrievalOperation m \<Rightarrow> e
   | _ \<Rightarrow> IndeterminateRetrievalOperation (''Sciverse '' @ what @ '' state is indeterminate; automatic retry is disabled''))"

text \<open>\<open>what\<close> is \<open>search\<close> or \<open>content\<close>.\<close>

definition retrieval_kit :: "string \<Rightarrow> breaker \<Rightarrow> json kit" where
  "retrieval_kit what b = \<lparr>kit_ind = IndeterminateRetrievalOperation, kit_commit = retrieval_commit,
     kit_convert = retrieval_convert what, kit_model = False, kit_reason = ''retrieval_'' @ what @ ''_failed'',
     kit_kind = ''retrieval'', kit_validate = validated_retrieval_response, kit_breaker = b\<rparr>"

section \<open>The system\<close>

inductive net_step :: "'r kit \<Rightarrow> 'r net \<Rightarrow> 'r net \<Rightarrow> bool" for kit where
  new_call: "net_step kit n (n\<lparr>net_calls := net_calls n @ [(c, Start)]\<rparr>)"
| call_moves: "i < length (net_calls n) \<Longrightarrow> net_calls n ! i = (c, ph) \<Longrightarrow>
    advance kit now reply c ph n = (ph', n') \<Longrightarrow>
    net_step kit n (n'\<lparr>net_calls := (net_calls n)[i := (c, ph')]\<rparr>)"
| call_dies: "i < length (net_calls n) \<Longrightarrow> net_calls n ! i = (c, ph) \<Longrightarrow>
    net_step kit n (n\<lparr>net_calls := (net_calls n)[i := (c, Finished (Inl (RuntimeError ''process died'')))]\<rparr>)"
| operator_acts: "reconcile (kit_kind kit) (kit_validate kit) q now (net_journal n) = Inr (s, jn) \<Longrightarrow>
    net_step kit n (n\<lparr>net_journal := jn\<rparr>)"
| circuit_moves: "net_step kit n (n\<lparr>net_circuit := snd (circuit_step (kit_breaker kit) op (net_circuit n))\<rparr>)"

inductive_cases net_stepE: "net_step kit n n'"

inductive net_run :: "'r kit \<Rightarrow> 'r net \<Rightarrow> 'r net \<Rightarrow> bool" for kit where
  stop: "net_run kit n n"
| more: "net_run kit n n' \<Longrightarrow> net_step kit n' n'' \<Longrightarrow> net_run kit n n''"

lemma net_run_inv:
  assumes "net_run kit n n'" and "P n" and "\<And>n n'. net_step kit n n' \<Longrightarrow> P n \<Longrightarrow> P n'"
  shows "P n'"
  using assms(1,2) by (induction rule: net_run.induct) (auto intro: assms(3))

definition fresh_net :: "circuit_db \<Rightarrow> 'r net" where
  "fresh_net db = \<lparr>net_journal = \<lparr>operations = [], reconciliations = []\<rparr>, net_circuit = db,
     net_sends = [], net_calls = []\<rparr>"

section \<open>At most one transmission\<close>

definition sends_of :: "string \<Rightarrow> 'r net \<Rightarrow> nat" where
  "sends_of oid n = length (filter (\<lambda>s. fst s = oid) (net_sends n))"

fun send_due :: "string \<Rightarrow> call \<times> 'r phase \<Rightarrow> bool" where
  "send_due oid (c, ph) \<longleftrightarrow> ca_operation_id c = oid \<and> (case ph of SendDue \<Rightarrow> True | _ \<Rightarrow> False)"

definition due_of :: "string \<Rightarrow> 'r net \<Rightarrow> nat" where
  "due_of oid n = length (filter (send_due oid) (net_calls n))"

definition authorizations_of :: "string \<Rightarrow> 'r journal \<Rightarrow> nat" where
  "authorizations_of oid jn = length (filter (\<lambda>r. rc_operation_id r = oid \<and> rc_action r = ''authorize_retry'')
     (reconciliations jn))"

text \<open>How many transmissions the journal has granted to callers so far.\<close>

definition credit_left :: "string \<Rightarrow> 'r journal \<Rightarrow> nat" where
  "credit_left oid jn = (case find_op oid jn of None \<Rightarrow> 1
     | Some row \<Rightarrow> if or_status row = RETRY_AUTHORIZED then 1 else 0)"

definition send_budget :: "'r net \<Rightarrow> bool" where
  "send_budget n \<longleftrightarrow> (\<forall>oid. sends_of oid n + due_of oid n + credit_left oid (net_journal n)
     \<le> 1 + authorizations_of oid (net_journal n))"

lemma length_filter_update:
  "i < length xs \<Longrightarrow> length (filter P (xs[i := y])) + (if P (xs ! i) then 1 else 0)
    = length (filter P xs) + (if P y then 1 else 0)"
proof (induction xs arbitrary: i)
  case (Cons x xs)
  then show ?case by (cases i) auto
qed simp

lemma reserve_credit:
  assumes "journal_reserve ind oid h now jn = (res, jn')"
  shows "authorizations_of k jn' = authorizations_of k jn" and
    "credit_left k jn' + (if k = oid \<and> res = Inr None then 1 else 0) = credit_left k jn"
proof -
  show "authorizations_of k jn' = authorizations_of k jn"
    using assms by (auto simp: journal_reserve_def authorizations_of_def split: option.splits if_splits sum.splits)
  show "credit_left k jn' + (if k = oid \<and> res = Inr None then 1 else 0) = credit_left k jn"
    using assms
    by (auto simp: journal_reserve_def credit_left_def find_op_insert split: option.splits if_splits sum.splits)
qed

lemma reconcile_InrD:
  assumes "reconcile kind validate q now jn = Inr (s, jn')"
  obtains row f where "find_op (rq_operation_id q) jn = Some row" and "or_request_sha256 row = rq_request_sha256 q"
    and "or_status row = PENDING" and "\<And>k. find_op k jn' = (if k = rq_operation_id q then Some (f row) else find_op k jn)"
    and "or_status (f row) = s" and "or_request_sha256 (f row) = or_request_sha256 row"
    and "s = RETRY_AUTHORIZED \<longleftrightarrow> rq_action q = ''authorize_retry''" and "s \<in> set (OP_TRANSITIONS PENDING)"
    and "\<exists>r. rc_operation_id r = rq_operation_id q \<and> rc_action r = rq_action q \<and>
      reconciliations jn' = reconciliations jn @ [r]"
proof -
  from assms obtain row where row: "find_op (rq_operation_id q) jn = Some row"
      "or_request_sha256 row = rq_request_sha256 q" "or_status row = PENDING"
    by (auto simp: reconcile_def Let_def split: if_splits option.splits)
  have act: "rq_action q \<in> set [''complete'', ''authorize_retry'', ''abandon'']"
    using assms by (auto simp: reconcile_def split: if_splits)
  from assms row obtain completion where c: "(if rq_action q = ''complete''
          then bind_result (validate (case rq_response q of None \<Rightarrow> JNull | Some v \<Rightarrow> v)) (\<lambda>r. Inr (Some r))
          else Inr None) = Inr completion"
    and s: "s = (if rq_action q = ''complete'' then COMPLETED
                 else if rq_action q = ''authorize_retry'' then RETRY_AUTHORIZED else ABANDONED)"
    and jn': "jn' = (set_op (rq_operation_id q) (case completion of Some r \<Rightarrow> complete_row r now
                       | None \<Rightarrow> (\<lambda>r. r\<lparr>or_status := s\<rparr>)) jn)\<lparr>reconciliations := reconciliations jn @
                   [\<lparr>rc_operation_kind = kind, rc_operation_id = rq_operation_id q,
                     rc_request_sha256 = rq_request_sha256 q, rc_prior_status = PENDING,
                     rc_action = rq_action q, rc_actor = rq_actor q, rc_reason = rq_reason q,
                     rc_evidence_receipt_sha256 = rq_receipt q, rc_reconciled_at = now\<rparr>]\<rparr>"
    by (auto simp: reconcile_def Let_def split: if_splits)
  let ?f = "case completion of Some r \<Rightarrow> complete_row r now | None \<Rightarrow> (\<lambda>r. r\<lparr>or_status := s\<rparr>)"
  have id: "or_operation_id (?f r) = or_operation_id r" "or_request_sha256 (?f r) = or_request_sha256 r" for r
    by (simp_all split: option.split)
  have st: "or_status (?f row) = s" using c s by (auto split: if_splits option.splits)
  show thesis
  proof (rule that [OF row])
    show "find_op k jn' = (if k = rq_operation_id q then Some (?f row) else find_op k jn)" for k
      using row(1) id(1) by (simp add: jn')
    show "s = RETRY_AUTHORIZED \<longleftrightarrow> rq_action q = ''authorize_retry''"
      using s act by auto
    show "s \<in> set (OP_TRANSITIONS PENDING)" using s by (simp add: OP_TRANSITIONS_def)
  qed (simp_all add: st id jn')
qed

text \<open>
  What the arguments need of a commit: it changes nothing but the row it completes, and when it
  returns a response, the row is completed with that response.
\<close>

locale transport_kit =
  fixes kit :: "'r kit"
  assumes commit_effect: "kit_commit kit oid h r now jn = (res, jn') \<Longrightarrow>
      jn' = jn \<or> (is_pending oid h jn \<and> (\<exists>y. jn' = set_op oid (complete_row y now) jn))"
    and commit_ok: "kit_commit kit oid h r now jn = (Inr x, jn') \<Longrightarrow>
      \<exists>row. find_op oid jn' = Some row \<and> or_request_sha256 row = h \<and> or_status row = COMPLETED \<and>
        or_response row = Some x"
begin

lemma commit_credit:
  assumes "kit_commit kit oid h r now jn = (res, jn')"
  shows "authorizations_of k jn' = authorizations_of k jn" and "credit_left k jn' = credit_left k jn"
  using commit_effect [OF assms]
  by (cases "k = oid"; auto simp: authorizations_of_def credit_left_def is_pending_def split: option.splits)+

text \<open>What one step of a call does to the counts.\<close>

lemma advance_counts:
  assumes "advance kit now reply c ph n = (ph', n')"
  shows "net_calls n' = net_calls n \<and>
    authorizations_of k (net_journal n') = authorizations_of k (net_journal n) \<and>
    sends_of k n' + (if send_due k (c, ph') then 1 else 0) + credit_left k (net_journal n')
      = sends_of k n + (if send_due k (c, ph) then 1 else 0) + credit_left k (net_journal n)"
proof (cases ph)
    case ReserveDue
    obtain res jn where r: "journal_reserve (kit_ind kit) (ca_operation_id c) (ca_request_sha256 c) now (net_journal n)
        = (res, jn)" by fastforce
    have ph': "n' = n\<lparr>net_journal := jn\<rparr>" "send_due k (c, ph') \<longleftrightarrow> k = ca_operation_id c \<and> res = Inr None"
      using assms r ReserveDue by (auto simp: advance_def Let_def split: sum.splits option.splits)
    then show ?thesis
      using reserve_credit [OF r, of k] ReserveDue by (auto simp: sends_of_def)
  next
    case (CommitDue r)
    obtain res jn where r: "kit_commit kit (ca_operation_id c) (ca_request_sha256 c) r now (net_journal n)
        = (res, jn)" by fastforce
    then show ?thesis
      using assms CommitDue commit_credit [OF r, of k] by (auto simp: advance_def Let_def sends_of_def)
  next
    case SendDue
    then show ?thesis
      using assms by (auto simp: advance_def Let_def sends_of_def split: sum.splits)
  qed (use assms in \<open>auto simp: advance_def Let_def sends_of_def split: sum.splits option.splits if_splits prod.splits\<close>)

lemma send_budget_step:
  assumes "net_step kit n n'" and "send_budget n"
  shows "send_budget n'"
proof -
  have old: "sends_of k n + due_of k n + credit_left k (net_journal n)
      \<le> 1 + authorizations_of k (net_journal n)" for k
    using assms(2) by (simp add: send_budget_def)
  have "sends_of k n' + due_of k n' + credit_left k (net_journal n')
      \<le> 1 + authorizations_of k (net_journal n')" for k
    using assms(1)
  proof (cases rule: net_step.cases)
    case (new_call c)
    then show ?thesis using old [of k] by (simp add: sends_of_def due_of_def)
  next
    case (call_moves i c ph now reply ph' m)
    note a = advance_counts [OF call_moves(4), of k]
    have "due_of k n' + (if send_due k (c, ph) then 1 else 0) = due_of k n + (if send_due k (c, ph') then 1 else 0)"
      using length_filter_update [OF call_moves(2), of "send_due k" "(c, ph')"] call_moves(1,3)
      by (simp add: due_of_def)
    moreover have "sends_of k n' = sends_of k m" "net_journal n' = net_journal m"
      using call_moves(1) by (simp_all add: sends_of_def)
    ultimately show ?thesis using a old [of k] by (auto split: if_splits)
  next
    case (call_dies i c ph)
    have "due_of k n' + (if send_due k (c, ph) then 1 else 0) = due_of k n"
      using length_filter_update [OF call_dies(2), of "send_due k" "(c, Finished (Inl (RuntimeError ''process died'')))"]
        call_dies(1,3) by (simp add: due_of_def)
    moreover have "sends_of k n' = sends_of k n" "net_journal n' = net_journal n"
      using call_dies(1) by (simp_all add: sends_of_def)
    ultimately show ?thesis using old [of k] by (simp split: if_splits)
  next
    case (operator_acts q now s jn)
    then obtain row f r where row: "find_op (rq_operation_id q) (net_journal n) = Some row" "or_status row = PENDING"
        "find_op k jn = (if k = rq_operation_id q then Some (f row) else find_op k (net_journal n))"
        "or_status (f row) = s" "s = RETRY_AUTHORIZED \<longleftrightarrow> rq_action q = ''authorize_retry''"
        "rc_operation_id r = rq_operation_id q" "rc_action r = rq_action q"
        "reconciliations jn = reconciliations (net_journal n) @ [r]"
      by (elim reconcile_InrD) blast
    then have "credit_left k jn \<le> credit_left k (net_journal n) + (if k = rq_operation_id q \<and> s = RETRY_AUTHORIZED then 1 else 0)"
      "authorizations_of k jn = authorizations_of k (net_journal n) + (if k = rq_operation_id q \<and> s = RETRY_AUTHORIZED then 1 else 0)"
      by (auto simp: credit_left_def authorizations_of_def)
    then show ?thesis using old [of k] operator_acts(1) by (simp add: sends_of_def due_of_def)
  next
    case (circuit_moves op)
    then show ?thesis using old [of k] by (simp add: sends_of_def due_of_def)
  qed
  then show ?thesis by (simp add: send_budget_def)
qed

lemma send_budget_run: "net_run kit n n' \<Longrightarrow> send_budget n \<Longrightarrow> send_budget n'"
  by (rule net_run_inv) (auto intro: send_budget_step)

end

lemma fresh_send_budget: "send_budget (fresh_net db)"
  by (simp add: send_budget_def fresh_net_def sends_of_def due_of_def credit_left_def authorizations_of_def find_op_def)

interpretation model_transport: transport_kit "model_kit b" for b
proof
  show "jn' = jn \<or> (is_pending oid h jn \<and> (\<exists>y. jn' = set_op oid (complete_row y now) jn))"
    if "kit_commit (model_kit b) oid h r now jn = (res, jn')" for oid h r now jn res jn'
    using that by (auto simp: model_kit_def model_commit_def Let_def split: sum.splits option.splits if_splits)
  show "\<exists>row. find_op oid jn' = Some row \<and> or_request_sha256 row = h \<and> or_status row = COMPLETED \<and>
        or_response row = Some x"
    if "kit_commit (model_kit b) oid h r now jn = (Inr x, jn')" for oid h r now jn x jn'
  proof -
    have "journal_lookup IndeterminateModelOperation oid h jn' = Inr (Some x)"
      using that by (auto simp: model_kit_def model_commit_def Let_def split: sum.splits option.splits)
    then show ?thesis by (auto simp: journal_lookup_def split: option.splits if_splits op_status.splits)
  qed
qed

interpretation retrieval_transport: transport_kit "retrieval_kit what b" for what b
proof
  show "jn' = jn \<or> (is_pending oid h jn \<and> (\<exists>y. jn' = set_op oid (complete_row y now) jn))"
    if "kit_commit (retrieval_kit what b) oid h r now jn = (res, jn')" for oid h r now jn res jn'
    using that by (auto simp: retrieval_kit_def retrieval_commit_def split: sum.splits if_splits)
  show "\<exists>row. find_op oid jn' = Some row \<and> or_request_sha256 row = h \<and> or_status row = COMPLETED \<and>
        or_response row = Some x"
    if "kit_commit (retrieval_kit what b) oid h r now jn = (Inr x, jn')" for oid h r now jn x jn'
    using that by (auto simp: retrieval_kit_def retrieval_commit_def is_pending_def split: sum.splits if_splits option.splits)
qed

section \<open>One response per operation\<close>

definition completed :: "string \<Rightarrow> string \<Rightarrow> 'r \<Rightarrow> 'r journal \<Rightarrow> bool" where
  "completed oid h r jn \<longleftrightarrow> (\<exists>row. find_op oid jn = Some row \<and> or_request_sha256 row = h \<and>
     or_status row = COMPLETED \<and> or_response row = Some r)"

text \<open>A call that holds a response it will return holds the one of the journal.\<close>

definition call_agrees :: "'r journal \<Rightarrow> call \<times> 'r phase \<Rightarrow> bool" where
  "call_agrees jn cp = (case snd cp of
     Finished (Inr r) \<Rightarrow> completed (ca_operation_id (fst cp)) (ca_request_sha256 (fst cp)) r jn
   | RaceWon r \<Rightarrow> completed (ca_operation_id (fst cp)) (ca_request_sha256 (fst cp)) r jn
   | _ \<Rightarrow> True)"

definition responses_agree :: "'r net \<Rightarrow> bool" where
  "responses_agree n \<longleftrightarrow> (\<forall>cp \<in> set (net_calls n). call_agrees (net_journal n) cp)"

lemma completed_unique: "completed oid h r jn \<Longrightarrow> completed oid h' r' jn \<Longrightarrow> h = h' \<and> r = r'"
  by (auto simp: completed_def)

lemma lookup_completed: "journal_lookup ind oid h jn = Inr (Some r) \<Longrightarrow> completed oid h r jn"
  by (auto simp: journal_lookup_def completed_def split: option.splits if_splits op_status.splits)

lemma reserve_completed:
  assumes "journal_reserve ind oid h now jn = (res, jn')"
  shows "completed k h' r jn \<Longrightarrow> completed k h' r jn'" and "res = Inr (Some x) \<Longrightarrow> completed oid h x jn'"
proof -
  show "completed k h' r jn'" if "completed k h' r jn"
    using assms that
    by (auto simp: journal_reserve_def completed_def find_op_insert split: option.splits if_splits sum.splits)
  show "completed oid h x jn'" if "res = Inr (Some x)"
    using assms that lookup_completed
    by (fastforce simp: journal_reserve_def split: option.splits if_splits sum.splits)
qed

lemma reconcile_completed:
  assumes "reconcile kind validate q now jn = Inr (s, jn')" and "completed k h r jn"
  shows "completed k h r jn'"
proof -
  obtain row f where "find_op (rq_operation_id q) jn = Some row" "or_status row = PENDING"
      "find_op k jn' = (if k = rq_operation_id q then Some (f row) else find_op k jn)"
    by (rule reconcile_InrD [OF assms(1)]) blast
  then show ?thesis using assms(2) by (auto simp: completed_def split: if_splits)
qed

context transport_kit
begin

lemma commit_completed:
  assumes "kit_commit kit oid h r now jn = (res, jn')"
  shows "completed k h' x jn \<Longrightarrow> completed k h' x jn'" and "res = Inr y \<Longrightarrow> completed oid h y jn'"
proof -
  show "completed k h' x jn'" if "completed k h' x jn"
    using commit_effect [OF assms] that
    by (cases "k = oid") (auto simp: completed_def is_pending_def)
  show "completed oid h y jn'" if "res = Inr y"
    using commit_ok [of oid h r now jn y jn'] assms that by (simp add: completed_def)
qed

lemma advance_agrees:
  assumes "advance kit now reply c ph n = (ph', n')" and "call_agrees (net_journal n) (c, ph)"
  shows "call_agrees (net_journal n') (c, ph') \<and>
    (\<forall>k h r. completed k h r (net_journal n) \<longrightarrow> completed k h r (net_journal n'))"
proof (cases ph)
  case Start
  then show ?thesis
    using assms lookup_completed
    by (fastforce simp: advance_def Let_def call_agrees_def split: sum.splits option.splits if_splits)
next
  case ReserveDue
  obtain res jn where r: "journal_reserve (kit_ind kit) (ca_operation_id c) (ca_request_sha256 c) now (net_journal n)
      = (res, jn)" by fastforce
  show ?thesis
    using assms ReserveDue r reserve_completed [OF r]
    by (auto simp: advance_def Let_def call_agrees_def split: sum.splits option.splits)
next
  case (CommitDue x)
  obtain res jn where r: "kit_commit kit (ca_operation_id c) (ca_request_sha256 c) x now (net_journal n)
      = (res, jn)" by fastforce
  show ?thesis
    using assms CommitDue r commit_completed [OF r]
    by (auto simp: advance_def Let_def call_agrees_def split: sum.splits)
qed (use assms in \<open>auto simp: advance_def Let_def call_agrees_def split: sum.splits if_splits prod.splits\<close>)

lemma agrees_mono:
  "call_agrees jn cp \<Longrightarrow> (\<forall>k h r. completed k h r jn \<longrightarrow> completed k h r jn') \<Longrightarrow> call_agrees jn' cp"
  by (auto simp: call_agrees_def split: phase.splits sum.splits)

lemma responses_agree_step:
  assumes "net_step kit n n'" and "responses_agree n"
  shows "responses_agree n'"
  using assms(1)
proof (cases rule: net_step.cases)
  case (new_call c)
  then show ?thesis using assms(2) by (auto simp: responses_agree_def call_agrees_def)
next
  case (call_moves i c ph now reply ph' m)
  have cp: "call_agrees (net_journal n) (c, ph)"
    using assms(2) nth_mem [OF call_moves(2)] call_moves(3) by (auto simp: responses_agree_def)
  note a = advance_agrees [OF call_moves(4) cp]
  have "call_agrees (net_journal m) x" if "x \<in> set ((net_calls n)[i := (c, ph')])" for x
  proof (cases "x = (c, ph')")
    case True
    then show ?thesis using a by simp
  next
    case False
    then have "x \<in> set (net_calls n)" using that set_update_subset_insert by fastforce
    then have "call_agrees (net_journal n) x" using assms(2) by (simp add: responses_agree_def)
    then show ?thesis by (rule agrees_mono) (use a in simp)
  qed
  then show ?thesis using call_moves(1) by (simp add: responses_agree_def)
next
  case (call_dies i c ph)
  have "call_agrees (net_journal n) x"
    if "x \<in> set ((net_calls n)[i := (c, Finished (Inl (RuntimeError ''process died'')))])" for x
  proof (cases "x = (c, Finished (Inl (RuntimeError ''process died'')))")
    case True
    then show ?thesis by (simp add: call_agrees_def)
  next
    case False
    then have "x \<in> set (net_calls n)" using that set_update_subset_insert by fastforce
    then show ?thesis using assms(2) by (simp add: responses_agree_def)
  qed
  then show ?thesis using call_dies(1) by (simp add: responses_agree_def)
next
  case (operator_acts q now s jn)
  then show ?thesis
    using assms(2) agrees_mono [of "net_journal n" _ jn] reconcile_completed [OF operator_acts(2)]
    unfolding responses_agree_def by simp
next
  case (circuit_moves op)
  then show ?thesis using assms(2) by (simp add: responses_agree_def)
qed

lemma responses_agree_run: "net_run kit n n' \<Longrightarrow> responses_agree n \<Longrightarrow> responses_agree n'"
  by (rule net_run_inv) (auto intro: responses_agree_step)

end

lemma fresh_responses_agree: "responses_agree (fresh_net db)"
  by (simp add: responses_agree_def fresh_net_def)

section \<open>The journal only moves along its status table\<close>

lemma journal_le_refl: "journal_le jn jn"
  by (auto simp: journal_le_def intro: status_path.here)

lemma OP_TRANSITIONS_completed: "status_path OP_TRANSITIONS COMPLETED t \<Longrightarrow> t = COMPLETED"
  by (auto simp: OP_TRANSITIONS_def elim: status_path.cases)

lemma status_completes: "status_path OP_TRANSITIONS PENDING COMPLETED"
  by (rule status_path_step) (simp add: OP_TRANSITIONS_def)

lemma status_retries: "status_path OP_TRANSITIONS RETRY_AUTHORIZED PENDING"
  by (rule status_path_step) (simp add: OP_TRANSITIONS_def)

lemma journal_leI:
  assumes "reconciliations jn' = reconciliations jn @ rs"
    and "\<And>oid row. find_op oid jn = Some row \<Longrightarrow> find_op oid jn' = Some row \<or>
      (\<exists>row'. find_op oid jn' = Some row' \<and> or_request_sha256 row' = or_request_sha256 row \<and>
        or_status row \<noteq> COMPLETED \<and> status_path OP_TRANSITIONS (or_status row) (or_status row'))"
  shows "journal_le jn jn'"
  using assms status_path.here unfolding journal_le_def by metis

lemma journal_leD:
  assumes "journal_le jn jn'" and "find_op oid jn = Some row"
  obtains row' where "find_op oid jn' = Some row'" and "or_request_sha256 row' = or_request_sha256 row"
    and "status_path OP_TRANSITIONS (or_status row) (or_status row')"
    and "or_status row = COMPLETED \<Longrightarrow> or_response row' = or_response row \<and> or_status row' = COMPLETED"
  using assms OP_TRANSITIONS_completed unfolding journal_le_def by metis

lemma journal_le_trans:
  assumes "journal_le a b" and "journal_le b c"
  shows "journal_le a c"
proof -
  obtain rs where rs: "reconciliations c = reconciliations a @ rs"
    using assms by (auto simp: journal_le_def)
  have "\<exists>row'. find_op oid c = Some row' \<and> or_request_sha256 row' = or_request_sha256 row \<and>
      status_path OP_TRANSITIONS (or_status row) (or_status row') \<and>
      (or_status row = COMPLETED \<longrightarrow> or_response row' = or_response row)"
    if row: "find_op oid a = Some row" for oid row
  proof -
    obtain r1 where 1: "find_op oid b = Some r1" "or_request_sha256 r1 = or_request_sha256 row"
      "status_path OP_TRANSITIONS (or_status row) (or_status r1)"
      "or_status row = COMPLETED \<Longrightarrow> or_response r1 = or_response row \<and> or_status r1 = COMPLETED"
      using journal_leD [OF assms(1) row] by metis
    obtain r2 where 2: "find_op oid c = Some r2" "or_request_sha256 r2 = or_request_sha256 r1"
      "status_path OP_TRANSITIONS (or_status r1) (or_status r2)"
      "or_status r1 = COMPLETED \<Longrightarrow> or_response r2 = or_response r1 \<and> or_status r2 = COMPLETED"
      using journal_leD [OF assms(2) 1(1)] by metis
    show ?thesis using 1 2 status_path_trans by auto
  qed
  with rs show ?thesis by (auto simp: journal_le_def)
qed

lemma reserve_le:
  assumes "journal_reserve ind oid h now jn = (res, jn')"
  shows "journal_le jn jn'"
  using assms
  by (auto simp: journal_reserve_def find_op_insert status_retries
      intro!: journal_leI [where rs = "[]"] split: option.splits if_splits sum.splits)

lemma reconcile_le:
  assumes "reconcile kind validate q now jn = Inr (s, jn')"
  shows "journal_le jn jn'"
proof -
  obtain row f r where "find_op (rq_operation_id q) jn = Some row" "or_status row = PENDING"
      "\<And>k. find_op k jn' = (if k = rq_operation_id q then Some (f row) else find_op k jn)"
      "or_status (f row) = s" "or_request_sha256 (f row) = or_request_sha256 row"
      "s \<in> set (OP_TRANSITIONS PENDING)" "reconciliations jn' = reconciliations jn @ [r]"
    using assms by (elim reconcile_InrD) blast
  moreover from this have "status_path OP_TRANSITIONS PENDING (or_status (f row))"
    by (intro status_path_step) simp
  ultimately show ?thesis by (auto intro!: journal_leI [where rs = "[r]"])
qed

context transport_kit
begin

lemma commit_le:
  assumes "kit_commit kit oid h r now jn = (res, jn')"
  shows "journal_le jn jn'"
  using commit_effect [OF assms]
  by (auto simp: is_pending_def status_completes intro!: journal_leI [where rs = "[]"] split: option.splits)

lemma advance_le:
  assumes "advance kit now reply c ph n = (ph', n')"
  shows "journal_le (net_journal n) (net_journal n')"
proof (cases ph)
  case ReserveDue
  obtain res jn where r: "journal_reserve (kit_ind kit) (ca_operation_id c) (ca_request_sha256 c) now (net_journal n)
      = (res, jn)" by fastforce
  show ?thesis using assms ReserveDue r reserve_le [OF r] by (auto simp: advance_def Let_def)
next
  case (CommitDue x)
  obtain res jn where r: "kit_commit kit (ca_operation_id c) (ca_request_sha256 c) x now (net_journal n)
      = (res, jn)" by fastforce
  show ?thesis using assms CommitDue r commit_le [OF r] by (auto simp: advance_def Let_def)
qed (use assms in \<open>auto simp: advance_def Let_def journal_le_refl split: sum.splits option.splits if_splits prod.splits\<close>)

lemma journal_le_step: "net_step kit n n' \<Longrightarrow> journal_le (net_journal n) (net_journal n')"
  by (cases rule: net_step.cases) (auto simp: journal_le_refl dest: advance_le reconcile_le)

lemma journal_le_run: "net_run kit n n' \<Longrightarrow> journal_le (net_journal n) (net_journal n')"
  by (induction rule: net_run.induct) (auto simp: journal_le_refl dest: journal_le_step intro: journal_le_trans)

end

section \<open>Playing a run\<close>

text \<open>Runs of calls as a list of moves, to exhibit reachable states.\<close>

datatype 'r net_move = NewCall call | Move nat time "'r result" | Reconcile recovery_request time

definition play_move :: "'r kit \<Rightarrow> 'r net_move \<Rightarrow> 'r net \<Rightarrow> 'r net" where
  "play_move kit mv n = (case mv of
     NewCall c \<Rightarrow> n\<lparr>net_calls := net_calls n @ [(c, Start)]\<rparr>
   | Move i now reply \<Rightarrow>
       if i < length (net_calls n) then
         (let (c, ph) = net_calls n ! i; (ph', n') = advance kit now reply c ph n
          in n'\<lparr>net_calls := (net_calls n)[i := (c, ph')]\<rparr>)
       else n
   | Reconcile q now \<Rightarrow> (case reconcile (kit_kind kit) (kit_validate kit) q now (net_journal n) of
       Inl e \<Rightarrow> n | Inr (s, jn) \<Rightarrow> n\<lparr>net_journal := jn\<rparr>))"

definition play :: "'r kit \<Rightarrow> 'r net_move list \<Rightarrow> 'r net \<Rightarrow> 'r net" where
  "play kit moves n = fold (play_move kit) moves n"

lemma play_move_step: "play_move kit mv n = n \<or> net_step kit n (play_move kit mv n)"
proof (cases mv)
  case (NewCall c)
  then show ?thesis by (simp add: play_move_def net_step.new_call)
next
  case (Move i now reply)
  obtain c ph ph' n' where "net_calls n ! i = (c, ph)" "advance kit now reply c ph n = (ph', n')"
    by (metis prod.collapse)
  then show ?thesis using Move by (auto simp: play_move_def intro: net_step.call_moves)
next
  case (Reconcile q now)
  then show ?thesis
    by (auto simp: play_move_def intro: net_step.operator_acts split: sum.split)
qed

lemma play_run: "net_run kit n (play kit moves n)"
proof (induction moves rule: rev_induct)
  case Nil
  show ?case by (simp add: play_def net_run.stop)
next
  case (snoc mv moves)
  have "play kit (moves @ [mv]) n = play_move kit mv (play kit moves n)" by (simp add: play_def)
  then show ?case using play_move_step [of kit mv "play kit moves n"] snoc by (metis net_run.more)
qed

end
