(* ===== verification/Operations_Properties.thy ===== *)
theory Operations_Properties
  imports Transport
begin

text \<open>
  The properties of the paid external calls: the circuit breaker, the journal of operations and
  the transports built on both.
\<close>

section \<open>The circuit breaker\<close>

definition sample_breaker :: breaker where
  "sample_breaker = \<lparr>bk_circuit_id = ''c'', failure_threshold = 2, recovery_timeout_seconds = 60,
     probe_timeout_seconds = 30\<rparr>"

definition no_circuits :: circuit_db where
  "no_circuits = \<lparr>circuit_breakers = [], circuit_events = []\<rparr>"

definition new_circuit :: circuit_db where
  "new_circuit = \<lparr>circuit_breakers = [closed_row ''c'' 0], circuit_events = []\<rparr>"

text \<open>
  Whatever calls, successes and failures are reported to a newly created circuit, in
  whatever order and at whatever times, its row stays in order (a closed circuit has fewer
  failures than the threshold, an open one has its opening time, a half-open one its probe) and
  its log of events leads, event by event, from CLOSED to the state it is in.
\<close>

theorem circuit_log_explains_state:
  assumes "breaker_init b now db = Inr (u, db')" and "breaker_find b db = None" and "breaker_events b db = []"
  shows "\<exists>r. breaker_find b (run_ops (circuit_step b) ops db') = Some r \<and> row_ok b r \<and>
    trail CLOSED (breaker_events b (run_ops (circuit_step b) ops db')) = Some (br_state r)"
proof -
  have "circuit_inv b (run_ops (circuit_step b) ops db')"
    by (rule circuit_machine.run_inv [OF breaker_init_inv [OF assms]])
  then show ?thesis by (auto simp: circuit_inv_def split: option.splits)
qed

theorem circuit_log_explains_state_witness:
  "\<exists>r. breaker_find sample_breaker (run_ops (circuit_step sample_breaker)
     [RecordFailure ''a'' ''down'' 1, RecordFailure ''b'' ''down'' 2] new_circuit) = Some r \<and> row_ok sample_breaker r \<and>
    trail CLOSED (breaker_events sample_breaker (run_ops (circuit_step sample_breaker)
     [RecordFailure ''a'' ''down'' 1, RecordFailure ''b'' ''down'' 2] new_circuit)) = Some (br_state r)"
  by (rule circuit_log_explains_state [of _ 0 no_circuits "()"]; code_simp)

text \<open>The calls the circuit lets through along a run.\<close>

primrec admissions :: "breaker \<Rightarrow> circuit_op list \<Rightarrow> circuit_db \<Rightarrow> circuit_op list" where
  "admissions b [] db = []"
| "admissions b (op # ops) db = (if admits b op db then [op] else []) @
     admissions b ops (snd (circuit_step b op db))"

lemma open_admits_none:
  "open_since b t db \<Longrightarrow> list_all (\<lambda>op. op_time op < t + recovery_timeout_seconds b) ops \<Longrightarrow>
   admissions b ops db = []"
  by (induction ops arbitrary: db) (simp_all add: open_step)

lemma probed_admits_none:
  "probed_by b p t db \<Longrightarrow> list_all (\<lambda>op. op_time op < t + probe_timeout_seconds b \<and> not_of p op) ops \<Longrightarrow>
   admissions b ops db = []"
  by (induction ops arbitrary: db) (simp_all add: probe_step)

text \<open>
  C15. After as many consecutive failures as the threshold, the circuit admits nobody before the
  recovery timeout has passed, whatever is reported to it meanwhile; then it admits the first
  caller as its probe and, until the probe reports or its lease runs out, nobody else.
\<close>

theorem tripped_circuit_admits_one_probe:
  assumes "breaker_find b db = Some r" and "br_state r = CLOSED" and "consecutive_failures r = 0"
    and "\<not> blank reason" and "length reason \<le> 120"
    and "list_all (\<lambda>(i, now). \<not> bad_operation i) (fs @ [(i, now)])"
    and "int (length (fs @ [(i, now)])) = failure_threshold b"
    and "list_all (\<lambda>op. op_time op < now + recovery_timeout_seconds b) ops"
    and "now + recovery_timeout_seconds b \<le> now'" and "\<not> bad_operation p"
    and "list_all (\<lambda>op. op_time op < now' + probe_timeout_seconds b \<and> not_of p op) ops'"
  shows "admissions b (ops @ [BeforeCall p now'] @ ops')
     (run_ops (circuit_step b) (failures_of reason (fs @ [(i, now)])) db) = [BeforeCall p now']"
proof -
  let ?s = "run_ops (circuit_step b) (failures_of reason (fs @ [(i, now)])) db"
  have s: "open_since b now ?s" by (rule trips [OF assms(4,5,1-3,6,7)])
  have split: "admissions b (xs @ ys) d = admissions b xs d @ admissions b ys (run_ops (circuit_step b) xs d)"
    for xs ys d by (induction xs arbitrary: d) simp_all
  note o = open_run [OF s assms(8)]
  note p = recovers [OF o assms(9,10)]
  show ?thesis
    using open_admits_none [OF s assms(8)] p(1) probed_admits_none [OF p(2) assms(11)]
    by (simp add: split admits_def)
qed

theorem tripped_circuit_admits_one_probe_witness:
  "admissions sample_breaker ([BeforeCall ''x'' 3, RecordSuccess ''x'' 61] @ [BeforeCall ''p'' 62] @
     [BeforeCall ''x'' 63, RecordFailure ''x'' ''down'' 64, BeforeCall ''p'' 91])
     (run_ops (circuit_step sample_breaker) (failures_of ''down'' ([(''a'', 1)] @ [(''b'', 2)])) new_circuit)
   = [BeforeCall ''p'' 62]"
  by (rule tripped_circuit_admits_one_probe [where r = "closed_row ''c'' 0"]; code_simp)

section \<open>The transports\<close>

lemma send_budget_bound: "send_budget n \<Longrightarrow> sends_of oid n \<le> 1 + authorizations_of oid (net_journal n)"
  unfolding send_budget_def by (metis add_leD1)

text \<open>
  C14. Any number of processes that call the model or the literature service, crash anywhere,
  retry, share one journal and one circuit and interleave with reconciliations: an operation id
  is transmitted to the service at most once, plus once for every retry an operator authorised.
\<close>

theorem at_most_one_transmission:
  assumes "net_run (model_kit b) (fresh_net db) n" and "net_run (retrieval_kit what b) (fresh_net db) m"
  shows "sends_of oid n \<le> 1 + authorizations_of oid (net_journal n) \<and>
    sends_of oid m \<le> 1 + authorizations_of oid (net_journal m)"
  using model_transport.send_budget_run [OF assms(1) fresh_send_budget]
    retrieval_transport.send_budget_run [OF assms(2) fresh_send_budget]
  by (blast intro: send_budget_bound)

definition sample_call :: call where
  "sample_call = \<lparr>ca_operation_id = ''o'', ca_request_sha256 = ''h''\<rparr>"

definition sample_response :: model_response where
  "sample_response = \<lparr>mr_text = ''yes'', mr_input_tokens = 3, mr_output_tokens = 1, mr_request_id = ''r''\<rparr>"

definition two_calls :: "model_response net_move list" where
  "two_calls = [NewCall sample_call, NewCall sample_call, Move 0 1 (Inr sample_response),
     Move 1 1 (Inr sample_response), Move 0 1 (Inr sample_response), Move 1 1 (Inr sample_response),
     Move 0 2 (Inr sample_response), Move 1 2 (Inr sample_response), Move 0 3 (Inr sample_response),
     Move 1 3 (Inr sample_response), Move 0 4 (Inr sample_response), Move 0 5 (Inr sample_response),
     Move 0 6 (Inr sample_response), NewCall sample_call, Move 2 7 (Inr sample_response)]"

definition one_hit :: "json net_move list" where
  "one_hit = [NewCall sample_call, Move 0 1 (Inr (JList [])), Move 0 1 (Inr (JList [])),
     Move 0 1 (Inr (JList [])), Move 0 1 (Inr (JList [])), Move 0 1 (Inr (JList [])), Move 0 1 (Inr (JList []))]"

text \<open>
  The witness run has a concurrent duplicate that is refused by the reservation and a later
  duplicate that is served from the journal; the request is sent once.
\<close>

theorem at_most_one_transmission_witness:
  "let n = play (model_kit sample_breaker) two_calls (fresh_net new_circuit);
       m = play (retrieval_kit ''search'' sample_breaker) one_hit (fresh_net new_circuit)
   in sends_of ''o'' n \<le> 1 + authorizations_of ''o'' (net_journal n) \<and>
      sends_of ''o'' m \<le> 1 + authorizations_of ''o'' (net_journal m)"
  unfolding Let_def by (rule at_most_one_transmission [OF play_run play_run])

lemma two_calls_run:
  "let n = play (model_kit sample_breaker) two_calls (fresh_net new_circuit)
   in sends_of ''o'' n = 1 \<and> snd (net_calls n ! 0) = Finished (Inr sample_response) \<and>
      snd (net_calls n ! 2) = Finished (Inr sample_response)"
  by code_simp

text \<open>
  Under the same interleavings, all callers of one operation id that get a response get the
  same response, and only callers with the same request get one.
\<close>

theorem callers_agree:
  assumes "net_run (model_kit b) (fresh_net db) n"
    and "(c, Finished (Inr r)) \<in> set (net_calls n)" and "(c', Finished (Inr r')) \<in> set (net_calls n)"
    and "ca_operation_id c = ca_operation_id c'"
  shows "ca_request_sha256 c = ca_request_sha256 c' \<and> r = r'"
proof -
  have "responses_agree n"
    by (rule model_transport.responses_agree_run [OF assms(1) fresh_responses_agree])
  then have "call_agrees (net_journal n) (c, Finished (Inr r))" "call_agrees (net_journal n) (c', Finished (Inr r'))"
    using assms(2,3) by (auto simp: responses_agree_def)
  then show ?thesis using assms(4) by (auto simp: call_agrees_def dest: completed_unique)
qed

theorem callers_agree_witness:
  "ca_request_sha256 sample_call = ca_request_sha256 sample_call \<and> sample_response = sample_response"
  by (rule callers_agree [of sample_breaker new_circuit
        "play (model_kit sample_breaker) two_calls (fresh_net new_circuit)", OF play_run]; code_simp)

text \<open>
  However calls, crashes and reconciliations interleave, an operation's row is never lost,
  keeps its request, moves only along the status table (PENDING to COMPLETED, RETRY_AUTHORIZED
  or ABANDONED, and back from RETRY_AUTHORIZED to PENDING) and keeps its response once it is
  completed; the reconciliation log only grows.
\<close>

theorem journal_only_progresses:
  assumes "net_run (model_kit b) n n'" and "net_run (retrieval_kit what b) m m'"
  shows "journal_le (net_journal n) (net_journal n') \<and> journal_le (net_journal m) (net_journal m')"
  using model_transport.journal_le_run [OF assms(1)] retrieval_transport.journal_le_run [OF assms(2)] by simp

theorem journal_only_progresses_witness:
  "journal_le (net_journal (fresh_net new_circuit))
     (net_journal (play (model_kit sample_breaker) two_calls (fresh_net new_circuit))) \<and>
   journal_le (net_journal (fresh_net new_circuit))
     (net_journal (play (retrieval_kit ''search'' sample_breaker) one_hit (fresh_net new_circuit)))"
  by (rule journal_only_progresses [OF play_run play_run])

text \<open>
  A response that arrives while the circuit is open is thrown away: recording the success
  raises before the response is committed, the caller gets an error, the journal keeps the
  operation PENDING, and every later call of it is refused as indeterminate although the paid
  response was received in full.
\<close>

theorem open_circuit_discards_response:
  assumes "open_since b t (net_circuit n)" and "\<not> bad_operation (ca_operation_id c)"
    and "is_pending (ca_operation_id c) (ca_request_sha256 c) (net_journal n)"
  shows "advance (model_kit b) now reply c (Received r) n
      = (Finished (Inl (BaselineContractError ''cannot record success while circuit is open'')), n) \<and>
    journal_lookup IndeterminateModelOperation (ca_operation_id c) (ca_request_sha256 c) (net_journal n)
      = Inl (IndeterminateModelOperation ''operation is PENDING'')"
proof -
  obtain row where "breaker_find b (net_circuit n) = Some row" "br_state row = OPEN"
    using assms(1) by (auto simp: open_since_def split: option.splits)
  then have "record_success b (ca_operation_id c) now (net_circuit n)
      = (Inl (BaselineContractError ''cannot record success while circuit is open''), net_circuit n)"
    using assms(2) by (simp add: record_success_def)
  then show ?thesis
    using assms(3)
    by (auto simp: advance_def model_kit_def Let_def is_pending_def journal_lookup_def split: option.splits)
qed

definition other_call :: "string \<Rightarrow> call" where
  "other_call i = \<lparr>ca_operation_id = i, ca_request_sha256 = ''h''\<rparr>"

text \<open>
  A run that reaches this: one call is answered while two concurrent calls fail and trip the
  circuit.
\<close>

definition tripped_moves :: "model_response net_move list" where
  "tripped_moves =
     [NewCall sample_call, NewCall (other_call ''a''), NewCall (other_call ''b'')] @
     concat (map (\<lambda>k. map (\<lambda>i. Move i k (Inr sample_response)) [0, 1, 2]) [1, 2, 3, 4]) @
     [Move 0 5 (Inr sample_response),
      Move 1 6 (Inl (IndeterminateModelOperation ''timeout'')), Move 1 7 (Inr sample_response),
      Move 2 8 (Inl (IndeterminateModelOperation ''timeout'')), Move 2 9 (Inr sample_response)]"

definition tripped_net :: "model_response net" where
  "tripped_net = play (model_kit sample_breaker) tripped_moves (fresh_net new_circuit)"

theorem open_circuit_discards_response_witness:
  "net_calls tripped_net ! 0 = (sample_call, Received sample_response) \<and>
   advance (model_kit sample_breaker) 10 (Inr sample_response) sample_call (Received sample_response) tripped_net
     = (Finished (Inl (BaselineContractError ''cannot record success while circuit is open'')), tripped_net) \<and>
   journal_lookup IndeterminateModelOperation ''o'' ''h'' (net_journal tripped_net)
     = Inl (IndeterminateModelOperation ''operation is PENDING'')"
proof -
  have h: "open_since sample_breaker 9 (net_circuit tripped_net)" "\<not> bad_operation (ca_operation_id sample_call)"
    "is_pending (ca_operation_id sample_call) (ca_request_sha256 sample_call) (net_journal tripped_net)"
    by code_simp+
  have "net_calls tripped_net ! 0 = (sample_call, Received sample_response)" by code_simp
  then show ?thesis
    using open_circuit_discards_response [OF h] by (simp add: sample_call_def)
qed

end
