(* ===== verification/Numbers.thy ===== *)
theory Numbers
  imports Prelude "HOL-Library.Product_Lexorder"
begin

text \<open>
  Python's numeric helpers as the program uses them, on rationals: \<open>round(x, n)\<close> (half to even),
  \<open>math.sqrt\<close> (the exact root cut off after 60 binary places), \<open>repr\<close> of a non-negative float
  that was rounded to six places, means, and the text operations of names (\<open>lower\<close>, \<open>split\<close>).
\<close>

section \<open>Rounding\<close>

definition round_half_even :: "rat \<Rightarrow> int" where
  "round_half_even x = (let f = \<lfloor>x\<rfloor>; d = x - of_int f in
     if d < 1/2 then f else if 1/2 < d then f + 1 else if even f then f else f + 1)"

definition py_round :: "rat \<Rightarrow> nat \<Rightarrow> rat" where
  "py_round x n = of_int (round_half_even (x * 10 ^ n)) / 10 ^ n"

lemma round_half_even_int [simp]: "round_half_even (of_int i) = i"
  by (simp add: round_half_even_def)

lemma round_half_even_near: "\<bar>of_int (round_half_even x) - x\<bar> \<le> 1/2"
proof -
  have "of_int \<lfloor>x\<rfloor> \<le> x" "x < of_int \<lfloor>x\<rfloor> + 1" by linarith+
  then show ?thesis unfolding round_half_even_def Let_def by (cases "x - of_int \<lfloor>x\<rfloor> < 1/2"; simp; linarith?)
qed

lemma round_half_even_mono:
  assumes "x \<le> y"
  shows "round_half_even x \<le> round_half_even y"
proof -
  have fl: "\<lfloor>x\<rfloor> \<le> \<lfloor>y\<rfloor>" using assms by (rule floor_mono)
  show ?thesis
  proof (cases "\<lfloor>x\<rfloor> = \<lfloor>y\<rfloor>")
    case True
    then show ?thesis using assms by (auto simp: round_half_even_def Let_def)
  next
    case False
    then have "\<lfloor>x\<rfloor> + 1 \<le> \<lfloor>y\<rfloor>" using fl by linarith
    then show ?thesis by (auto simp: round_half_even_def Let_def)
  qed
qed

lemma py_round_mono: "x \<le> y \<Longrightarrow> py_round x n \<le> py_round y n"
  by (simp add: py_round_def divide_right_mono round_half_even_mono mult_right_mono)

lemma py_round_int [simp]: "py_round (of_int i) n = of_int i"
proof -
  have "round_half_even (of_int i * 10 ^ n) = i * 10 ^ n"
    using round_half_even_int [of "i * 10 ^ n"] by simp
  then show ?thesis by (simp add: py_round_def)
qed

lemma py_round_0 [simp]: "py_round 0 n = 0" and py_round_1 [simp]: "py_round 1 n = 1"
  using py_round_int [of 0 n] py_round_int [of 1 n] by simp_all

lemma py_round_nonneg: "0 \<le> x \<Longrightarrow> 0 \<le> py_round x n"
  using py_round_mono [of 0 x n] by simp

lemma py_round_le_1: "x \<le> 1 \<Longrightarrow> py_round x n \<le> 1"
  using py_round_mono [of x 1 n] by simp

section \<open>Square roots\<close>

text \<open>Binary search for the integer root: the invariant is \<open>lo * lo \<le> n < hi * hi\<close>.\<close>

function isqrt_between :: "int \<Rightarrow> int \<Rightarrow> int \<Rightarrow> int" where
  "isqrt_between n lo hi = (if hi \<le> lo + 1 then lo
     else let mid = (lo + hi) div 2 in
       if mid * mid \<le> n then isqrt_between n mid hi else isqrt_between n lo mid)"
  by auto
termination by (relation "measure (\<lambda>(n, lo, hi). nat (hi - lo))") auto

declare isqrt_between.simps [simp del]

definition isqrt :: "int \<Rightarrow> int" where
  "isqrt n = isqrt_between n 0 (n + 1)"

lemma isqrt_between_root:
  "0 \<le> lo \<Longrightarrow> lo < hi \<Longrightarrow> lo * lo \<le> n \<Longrightarrow> n < hi * hi \<Longrightarrow>
   (let r = isqrt_between n lo hi in 0 \<le> r \<and> r * r \<le> n \<and> n < (r + 1) * (r + 1))"
proof (induction n lo hi rule: isqrt_between.induct)
  case (1 n lo hi)
  show ?case
  proof (cases "hi \<le> lo + 1")
    case True
    then have "hi = lo + 1" using 1(4) by simp
    with 1(3,5,6) show ?thesis by (simp add: isqrt_between.simps [of n lo] Let_def)
  next
    case False
    let ?mid = "(lo + hi) div 2"
    have mid: "0 \<le> ?mid" "lo < ?mid" "?mid < hi" using False 1(3) by simp_all
    show ?thesis
    proof (cases "?mid * ?mid \<le> n")
      case True
      then show ?thesis
        using 1(1) [OF False refl True mid(1,3) True 1(6)] False
        by (simp add: isqrt_between.simps [of n lo hi] Let_def)
    next
      case F: False
      then have "n < ?mid * ?mid" by simp
      then show ?thesis
        using 1(2) [OF False refl F 1(3) mid(2) 1(5)] False F
        by (simp add: isqrt_between.simps [of n lo hi] Let_def)
    qed
  qed
qed

lemma isqrt_root:
  assumes "0 \<le> n"
  shows "0 \<le> isqrt n \<and> isqrt n * isqrt n \<le> n \<and> n < (isqrt n + 1) * (isqrt n + 1)"
proof -
  have "n < (n + 1) * (n + 1)" using assms by (simp add: algebra_simps add_pos_nonneg)
  then show ?thesis using isqrt_between_root [of 0 "n + 1" n] assms by (simp add: isqrt_def Let_def)
qed

definition root_scale :: int where
  "root_scale = 2 ^ 60"

lemma root_scale_pos: "0 < root_scale"
  by (simp add: root_scale_def)

definition py_sqrt :: "rat \<Rightarrow> rat" where
  "py_sqrt x = of_int (isqrt \<lfloor>x * of_int root_scale * of_int root_scale\<rfloor>) / of_int root_scale"

lemma isqrt_floor:
  fixes x :: rat
  assumes "0 \<le> x"
  shows "of_int (isqrt \<lfloor>x\<rfloor>) * of_int (isqrt \<lfloor>x\<rfloor>) \<le> x"
    and "x < (of_int (isqrt \<lfloor>x\<rfloor>) + 1) * (of_int (isqrt \<lfloor>x\<rfloor>) + 1)"
proof -
  have n: "0 \<le> \<lfloor>x\<rfloor>" using assms by simp
  have "of_int (isqrt \<lfloor>x\<rfloor> * isqrt \<lfloor>x\<rfloor>) \<le> (of_int \<lfloor>x\<rfloor> :: rat)"
    using isqrt_root [OF n] by (simp only: of_int_le_iff)
  then show "of_int (isqrt \<lfloor>x\<rfloor>) * of_int (isqrt \<lfloor>x\<rfloor>) \<le> x" by (simp) linarith
  have "\<lfloor>x\<rfloor> + 1 \<le> (isqrt \<lfloor>x\<rfloor> + 1) * (isqrt \<lfloor>x\<rfloor> + 1)" using isqrt_root [OF n] by linarith
  then have "of_int (\<lfloor>x\<rfloor> + 1) \<le> (of_int ((isqrt \<lfloor>x\<rfloor> + 1) * (isqrt \<lfloor>x\<rfloor> + 1)) :: rat)"
    by (simp only: of_int_le_iff)
  then show "x < (of_int (isqrt \<lfloor>x\<rfloor>) + 1) * (of_int (isqrt \<lfloor>x\<rfloor>) + 1)" by simp linarith
qed

text \<open>The root is exact from below up to one unit of the scale.\<close>

lemma py_sqrt_bounds:
  assumes "0 \<le> x"
  shows "0 \<le> py_sqrt x" and "py_sqrt x * py_sqrt x \<le> x"
    and "x < (py_sqrt x + 1 / of_int root_scale) * (py_sqrt x + 1 / of_int root_scale)"
proof -
  let ?s = "of_int root_scale :: rat"
  have s: "0 < ?s" using root_scale_pos by simp
  have z: "0 \<le> x * ?s * ?s" using assms s by simp
  then show "0 \<le> py_sqrt x" using isqrt_root [of "\<lfloor>x * ?s * ?s\<rfloor>"] s by (simp add: py_sqrt_def)
  show "py_sqrt x * py_sqrt x \<le> x"
    using isqrt_floor(1) [OF z] s by (simp add: py_sqrt_def divide_le_eq mult.assoc)
  have "x * (?s * ?s) < ((py_sqrt x + 1 / ?s) * ?s) * ((py_sqrt x + 1 / ?s) * ?s)"
    using isqrt_floor(2) [OF z] s by (simp add: py_sqrt_def distrib_right mult.assoc)
  then have "x * (?s * ?s) < ((py_sqrt x + 1 / ?s) * (py_sqrt x + 1 / ?s)) * (?s * ?s)"
    by (simp only: mult.assoc mult.left_commute)
  then show "x < (py_sqrt x + 1 / ?s) * (py_sqrt x + 1 / ?s)"
    using s by (simp only: mult_less_cancel_right_pos [OF mult_pos_pos [OF s s]])
qed

section \<open>Rendering a rounded float\<close>

fun strip_zeros :: "string \<Rightarrow> string" where
  "strip_zeros s = (if length s > 1 \<and> last s = CHR ''0'' then strip_zeros (butlast s) else s)"

declare strip_zeros.simps [simp del]

definition digits6 :: "int \<Rightarrow> string" where
  "digits6 k = map (\<lambda>p. digit_char (nat ((k div p) mod 10))) [100000, 10000, 1000, 100, 10, 1]"

text \<open>\<open>repr\<close> of \<open>k / 1000000\<close> for a non-negative \<open>k\<close>.\<close>

definition repr_micro :: "int \<Rightarrow> string" where
  "repr_micro k =
     (if k = 0 then ''0.0''
      else if k < 10 then show_int k @ ''e-06''
      else if k < 100 then (if k mod 10 = 0 then show_int (k div 10) @ ''e-05''
        else show_int (k div 10) @ ''.'' @ show_int (k mod 10) @ ''e-05'')
      else show_int (k div 1000000) @ ''.'' @ strip_zeros (digits6 (k mod 1000000)))"

definition repr_rounded :: "rat \<Rightarrow> string" where
  "repr_rounded x = repr_micro (round_half_even (x * 1000000))"

lemma repr_micro_examples:
  "repr_micro 438494 = ''0.438494'' \<and> repr_micro 1000000 = ''1.0'' \<and> repr_micro 12 = ''1.2e-05'' \<and>
   repr_micro 250000 = ''0.25'' \<and> repr_micro 1500 = ''0.0015''"
  by code_simp

section \<open>Aggregates\<close>

definition mean :: "rat list \<Rightarrow> rat" where
  "mean xs = (if xs = [] then 0 else sum_list xs / of_nat (length xs))"

section \<open>Text\<close>

text \<open>\<open>str.lower\<close> of one code point below 256.\<close>

definition py_lower_char :: "char \<Rightarrow> char" where
  "py_lower_char c = (let n = (of_char c :: nat) in
     if (65 \<le> n \<and> n \<le> 90) \<or> (192 \<le> n \<and> n \<le> 222 \<and> n \<noteq> 215) then char_of (n + 32) else c)"

lemma py_lower_char_code [code]:
  "py_lower_char c = (if digit7 c \<and> digit6 c \<and> \<not> digit5 c \<and> c \<noteq> CHR 0xD7 \<and> c \<noteq> CHR 0xDF
     then Char (digit0 c) (digit1 c) (digit2 c) (digit3 c) (digit4 c) True True True else lower_char c)"
proof -
  have "\<forall>b0 b1 b2 b3 b4 b5 b6 b7. py_lower_char (Char b0 b1 b2 b3 b4 b5 b6 b7) = (if digit7 (Char b0 b1 b2 b3 b4 b5 b6 b7) \<and> digit6 (Char b0 b1 b2 b3 b4 b5 b6 b7) \<and> \<not> digit5 (Char b0 b1 b2 b3 b4 b5 b6 b7) \<and> (Char b0 b1 b2 b3 b4 b5 b6 b7) \<noteq> CHR 0xD7 \<and> (Char b0 b1 b2 b3 b4 b5 b6 b7) \<noteq> CHR 0xDF
     then Char (digit0 (Char b0 b1 b2 b3 b4 b5 b6 b7)) (digit1 (Char b0 b1 b2 b3 b4 b5 b6 b7)) (digit2 (Char b0 b1 b2 b3 b4 b5 b6 b7)) (digit3 (Char b0 b1 b2 b3 b4 b5 b6 b7)) (digit4 (Char b0 b1 b2 b3 b4 b5 b6 b7)) True True True else lower_char (Char b0 b1 b2 b3 b4 b5 b6 b7))"
    by code_simp
  then show ?thesis by (cases c) blast
qed

definition py_lower :: "string \<Rightarrow> string" where
  "py_lower s = map py_lower_char s"

text \<open>\<open>str.split()\<close>: the words between runs of whitespace.\<close>

function py_split :: "string \<Rightarrow> string list" where
  "py_split s = (let t = dropWhile py_space s in
     if t = [] then [] else takeWhile (\<lambda>c. \<not> py_space c) t # py_split (dropWhile (\<lambda>c. \<not> py_space c) t))"
  by auto
termination
proof (relation "measure length")
  fix s t
  assume t: "t = dropWhile py_space s" "t \<noteq> []"
  then have "\<not> py_space (hd t)" by (simp add: hd_dropWhile)
  then have "dropWhile (\<lambda>c. \<not> py_space c) t = dropWhile (\<lambda>c. \<not> py_space c) (tl t)"
    using t(2) by (cases t) simp_all
  then have "length (dropWhile (\<lambda>c. \<not> py_space c) t) \<le> length (tl t)"
    using length_dropWhile_le [of "\<lambda>c. \<not> py_space c" "tl t"] by (simp only:)
  also have "\<dots> < length t" using t(2) by (cases t) simp_all
  also have "\<dots> \<le> length s" using t(1) by (simp add: length_dropWhile_le)
  finally show "(dropWhile (\<lambda>c. \<not> py_space c) t, s) \<in> measure length" by simp
qed simp

declare py_split.simps [simp del]

text \<open>The longest prefix of at most \<open>limit\<close> elements, \<open>xs[:limit]\<close> for a non-negative limit.\<close>

definition take_limit :: "int \<Rightarrow> 'a list \<Rightarrow> 'a list" where
  "take_limit n xs = take (nat n) xs"

end
