(* ===== verification/Policy.thy ===== *)
theory Policy
  imports Events Contracts Numbers
begin

text \<open>
  The delayed-credit policy memory (\<open>src/learning/policy_store.py\<close>): strategies, their
  applications to later tasks, the externally evaluated outcomes, the interventions bound to
  ordered benchmark runs, and the transactional outbox of policy events.

  Every write is one SQLite transaction (\<open>_write_transaction\<close>): it returns its result with the
  new database, or raises and is rolled back.  The reads a method makes before its transaction
  are repeated inside it, or concern rows that are never deleted, so a method is one step.
  Generated identifiers and clock readings are arguments (\<open>pdraw\<close>).  A stored JSON text is
  represented by the value it decodes to.
\<close>

section \<open>The tables\<close>

datatype strategy_status = CANDIDATE | ACTIVE | SUSPENDED | RETIRED

fun strategy_status_value :: "strategy_status \<Rightarrow> string" where
  "strategy_status_value CANDIDATE = ''CANDIDATE''"
| "strategy_status_value ACTIVE = ''ACTIVE''"
| "strategy_status_value SUSPENDED = ''SUSPENDED''"
| "strategy_status_value RETIRED = ''RETIRED''"

definition ALLOWED_EVALUATORS :: "string list" where
  "ALLOWED_EVALUATORS = [''known_answer'', ''expert_blind'', ''temporal_holdout'']"

definition ALLOWED_KINDS :: "string list" where
  "ALLOWED_KINDS = [''counter_query_template'', ''boundary_probe'', ''precedent_probe'']"

record strategy =
  st_strategy_id :: string
  st_tenant_id :: string
  st_strategy_key :: string
  st_kind :: string
  st_pattern :: string
  st_source_job_id :: string
  st_source_task_family :: string
  st_status :: strategy_status
  st_created_at :: time
  st_updated_at :: time

record application =
  ap_application_id :: string
  ap_strategy_id :: string
  ap_tenant_id :: string
  ap_target_job_id :: string
  ap_target_task_family :: string
  ap_rendered_query_sha256 :: string
  ap_idempotency_key :: string
  ap_created_at :: time

text \<open>A finite float is given by its \<open>repr\<close>.\<close>

datatype py_float = Finite string | NonFinite string

record outcome =
  oc_application_id :: string
  oc_evaluator_kind :: string
  oc_success :: bool
  oc_false_gap_avoided :: bool
  oc_valid_finding_delta :: string
  oc_calls :: int
  oc_tokens :: int
  oc_evidence_ref :: string
  oc_recorded_at :: time

record outbox_row =
  ob_event_id :: string
  ob_tenant_id :: string
  ob_event_type :: string
  ob_aggregate_type :: string
  ob_aggregate_id :: string
  ob_payload :: json
  ob_idempotency_key :: string
  ob_created_at :: time
  ob_dispatched_at :: "time option"

record intervention =
  iv_tenant_id :: string
  iv_run_id :: string
  iv_method_id :: string
  iv_sequence_index :: int
  iv_challenge_id :: string
  iv_order_sha256 :: string
  iv_memory_mode :: string
  iv_strategy_ids :: "string list"
  iv_created_at :: time

record policy_db =
  strategies :: "strategy list"
  applications :: "application list"
  outcomes :: "outcome list"
  policy_outbox :: "outbox_row list"
  interventions :: "intervention list"

definition empty_policy :: policy_db where
  "empty_policy = \<lparr>strategies = [], applications = [], outcomes = [], policy_outbox = [],
     interventions = []\<rparr>"

text \<open>
  What a method draws: the clock, the \<open>uuid4\<close> of its row, and for each outbox row it writes a
  \<open>uuid4\<close> and a clock reading.
\<close>

record pdraw =
  pd_now :: time
  pd_uuid :: string
  pd_events :: "nat \<Rightarrow> string \<times> time"

section \<open>The outbox\<close>

record enqueue_request =
  eq_tenant_id :: string
  eq_event_type :: string
  eq_aggregate_type :: string
  eq_aggregate_id :: string
  eq_payload :: json
  eq_idempotency_key :: string

definition outbox_row_of :: "string \<times> time \<Rightarrow> enqueue_request \<Rightarrow> outbox_row" where
  "outbox_row_of d q = \<lparr>ob_event_id = fst d, ob_tenant_id = eq_tenant_id q,
     ob_event_type = eq_event_type q, ob_aggregate_type = eq_aggregate_type q,
     ob_aggregate_id = eq_aggregate_id q, ob_payload = sort_keys (eq_payload q),
     ob_idempotency_key = eq_idempotency_key q, ob_created_at = snd d, ob_dispatched_at = None\<rparr>"

definition enqueue :: "string \<times> time \<Rightarrow> enqueue_request \<Rightarrow> policy_db \<Rightarrow> policy_db result" where
  "enqueue d q db = bind_result (canonical_json (eq_payload q)) (\<lambda>rendered.
     if fst d \<in> ob_event_id ` set (policy_outbox db)
     then Inl (SqlIntegrityError ''UNIQUE constraint failed: policy_outbox.event_id'')
     else if (eq_tenant_id q, eq_idempotency_key q)
       \<in> (\<lambda>r. (ob_tenant_id r, ob_idempotency_key r)) ` set (policy_outbox db)
     then Inl (SqlIntegrityError ''UNIQUE constraint failed: policy_outbox.tenant_id, policy_outbox.idempotency_key'')
     else Inr (db\<lparr>policy_outbox := policy_outbox db @ [outbox_row_of d q]\<rparr>))"

section \<open>Strategies\<close>

definition strategy_key_of :: "py_env \<Rightarrow> string \<Rightarrow> string \<Rightarrow> string" where
  "strategy_key_of env kind pattern =
     sha256 env (kind @ ''|'' @ join '' '' (py_split (py_lower pattern)))"

record propose_request =
  pr_tenant_id :: string
  pr_kind :: string
  pr_pattern :: string
  pr_source_job_id :: string
  pr_source_task_family :: string
  pr_strategy_id :: "string option"

definition proposed_event :: "py_env \<Rightarrow> string \<Rightarrow> propose_request \<Rightarrow> enqueue_request" where
  "proposed_event env i r = \<lparr>eq_tenant_id = pr_tenant_id r, eq_event_type = ''policy.strategy_proposed'',
     eq_aggregate_type = ''strategy'', eq_aggregate_id = i,
     eq_payload = JObj [(''strategy_id'', JStr i), (''kind'', JStr (pr_kind r)),
       (''pattern_sha256'', JStr (sha256 env (pr_pattern r))),
       (''source_job_id'', JStr (pr_source_job_id r)),
       (''source_task_family'', JStr (pr_source_task_family r))],
     eq_idempotency_key = ''strategy:'' @ i @ '':proposed''\<rparr>"

definition propose_strategy ::
  "py_env \<Rightarrow> pdraw \<Rightarrow> propose_request \<Rightarrow> policy_db \<Rightarrow> (string \<times> policy_db) result" where
  "propose_strategy env d r db =
     (if pr_kind r \<notin> set ALLOWED_KINDS then Inl (PolicyStoreError ''unsupported strategy kind'')
      else if blank (pr_tenant_id r) \<or> blank (pr_pattern r) \<or> blank (pr_source_job_id r) \<or>
        blank (pr_source_task_family r)
      then Inl (PolicyStoreError ''tenant_id, pattern, source_job_id, and source_task_family are required'')
      else let key = strategy_key_of env (pr_kind r) (pr_pattern r);
               i = or_else (pr_strategy_id r) (pd_uuid d) in
        (case row_by (\<lambda>s. (st_tenant_id s, st_strategy_key s)) (pr_tenant_id r, key) (strategies db) of
          Some existing \<Rightarrow> Inr (st_strategy_id existing, db)
        | None \<Rightarrow>
            if i \<in> st_strategy_id ` set (strategies db)
            then Inl (SqlIntegrityError ''UNIQUE constraint failed: strategies.strategy_id'')
            else bind_result (enqueue (pd_events d 0) (proposed_event env i r)
                (db\<lparr>strategies := strategies db @ [\<lparr>st_strategy_id = i, st_tenant_id = pr_tenant_id r,
                  st_strategy_key = key, st_kind = pr_kind r, st_pattern = pr_pattern r,
                  st_source_job_id = pr_source_job_id r, st_source_task_family = pr_source_task_family r,
                  st_status = CANDIDATE, st_created_at = pd_now d, st_updated_at = pd_now d\<rparr>]\<rparr>))
              (\<lambda>db'. Inr (i, db'))))"

definition find_strategy :: "string \<Rightarrow> string \<Rightarrow> policy_db \<Rightarrow> strategy option" where
  "find_strategy tenant i db = find (\<lambda>s. st_strategy_id s = i \<and> st_tenant_id s = tenant) (strategies db)"

section \<open>Applications\<close>

record application_request =
  aq_tenant_id :: string
  aq_strategy_id :: string
  aq_target_job_id :: string
  aq_target_task_family :: string
  aq_rendered_query :: string
  aq_idempotency_key :: string
  aq_application_id :: "string option"

definition same_application :: "py_env \<Rightarrow> application \<Rightarrow> application_request \<Rightarrow> bool" where
  "same_application env a r \<longleftrightarrow> ap_strategy_id a = aq_strategy_id r \<and>
     ap_target_job_id a = aq_target_job_id r \<and> ap_target_task_family a = aq_target_task_family r \<and>
     ap_rendered_query_sha256 a = sha256 env (aq_rendered_query r)"

definition applied_event :: "py_env \<Rightarrow> string \<Rightarrow> application_request \<Rightarrow> enqueue_request" where
  "applied_event env i r = \<lparr>eq_tenant_id = aq_tenant_id r, eq_event_type = ''policy.strategy_applied'',
     eq_aggregate_type = ''strategy'', eq_aggregate_id = aq_strategy_id r,
     eq_payload = JObj [(''strategy_id'', JStr (aq_strategy_id r)), (''application_id'', JStr i),
       (''target_job_id'', JStr (aq_target_job_id r)),
       (''target_task_family'', JStr (aq_target_task_family r)),
       (''rendered_query_sha256'', JStr (sha256 env (aq_rendered_query r)))],
     eq_idempotency_key = ''application:'' @ i @ '':recorded''\<rparr>"

definition record_application ::
  "py_env \<Rightarrow> pdraw \<Rightarrow> application_request \<Rightarrow> policy_db \<Rightarrow> (string \<times> policy_db) result" where
  "record_application env d r db =
     (case find_strategy (aq_tenant_id r) (aq_strategy_id r) db of
       None \<Rightarrow> Inl (PolicyStoreError ''unknown strategy'')
     | Some s \<Rightarrow>
         if st_status s = RETIRED then Inl (PolicyStoreError ''retired strategy cannot be applied'')
         else if blank (aq_target_job_id r) \<or> blank (aq_target_task_family r) \<or> blank (aq_rendered_query r)
         then Inl (PolicyStoreError ''target and rendered query fields are required'')
         else let i = or_else (aq_application_id r) (pd_uuid d) in
           (case row_by (\<lambda>a. (ap_tenant_id a, ap_idempotency_key a)) (aq_tenant_id r, aq_idempotency_key r)
                   (applications db) of
             Some existing \<Rightarrow>
               if \<not> same_application env existing r
               then Inl (CreditConflict ''application idempotency key has different semantics'')
               else Inr (ap_application_id existing, db)
           | None \<Rightarrow>
               if i \<in> ap_application_id ` set (applications db)
               then Inl (SqlIntegrityError ''UNIQUE constraint failed: applications.application_id'')
               else bind_result (enqueue (pd_events d 0) (applied_event env i r)
                   (db\<lparr>applications := applications db @ [\<lparr>ap_application_id = i,
                     ap_strategy_id = aq_strategy_id r, ap_tenant_id = aq_tenant_id r,
                     ap_target_job_id = aq_target_job_id r, ap_target_task_family = aq_target_task_family r,
                     ap_rendered_query_sha256 = sha256 env (aq_rendered_query r),
                     ap_idempotency_key = aq_idempotency_key r, ap_created_at = pd_now d\<rparr>]\<rparr>))
                 (\<lambda>db'. Inr (i, db'))))"

section \<open>Outcomes\<close>

record outcome_request =
  or_tenant_id :: string
  or_application_id :: string
  or_evaluator_kind :: string
  or_success :: bool
  or_false_gap_avoided :: bool
  or_valid_finding_delta :: py_float
  or_calls :: int
  or_tokens :: int
  or_evidence_ref :: string

text \<open>Equality of floats given by their \<open>repr\<close>: only the two zeros differ in text.\<close>

definition float_eq :: "string \<Rightarrow> string \<Rightarrow> bool" where
  "float_eq x y \<longleftrightarrow> x = y \<or> (x \<in> {''0.0'', ''-0.0''} \<and> y \<in> {''0.0'', ''-0.0''})"

definition same_outcome :: "outcome \<Rightarrow> outcome_request \<Rightarrow> string \<Rightarrow> bool" where
  "same_outcome o' r delta \<longleftrightarrow> oc_evaluator_kind o' = or_evaluator_kind r \<and> oc_success o' = or_success r \<and>
     oc_false_gap_avoided o' = or_false_gap_avoided r \<and> float_eq (oc_valid_finding_delta o') delta \<and>
     oc_calls o' = or_calls r \<and> oc_tokens o' = or_tokens r \<and> oc_evidence_ref o' = or_evidence_ref r"

definition outcome_event :: "py_env \<Rightarrow> application \<Rightarrow> outcome_request \<Rightarrow> string \<Rightarrow> enqueue_request" where
  "outcome_event env a r delta = \<lparr>eq_tenant_id = or_tenant_id r, eq_event_type = ''policy.outcome_credited'',
     eq_aggregate_type = ''strategy'', eq_aggregate_id = ap_strategy_id a,
     eq_payload = JObj [(''strategy_id'', JStr (ap_strategy_id a)),
       (''application_id'', JStr (or_application_id r)), (''target_job_id'', JStr (ap_target_job_id a)),
       (''evaluator_kind'', JStr (or_evaluator_kind r)), (''success'', JBool (or_success r)),
       (''false_gap_avoided'', JBool (or_false_gap_avoided r)), (''valid_finding_delta'', JFloat delta),
       (''calls'', JInt (or_calls r)), (''tokens'', JInt (or_tokens r)),
       (''evidence_ref_sha256'', JStr (sha256 env (or_evidence_ref r)))],
     eq_idempotency_key = ''application:'' @ or_application_id r @ '':outcome''\<rparr>"

definition find_application :: "string \<Rightarrow> string \<Rightarrow> policy_db \<Rightarrow> application option" where
  "find_application tenant i db = find (\<lambda>a. ap_application_id a = i \<and> ap_tenant_id a = tenant) (applications db)"

definition record_outcome ::
  "py_env \<Rightarrow> pdraw \<Rightarrow> outcome_request \<Rightarrow> policy_db \<Rightarrow> (unit \<times> policy_db) result" where
  "record_outcome env d r db =
     (if or_evaluator_kind r \<notin> set ALLOWED_EVALUATORS
      then Inl (PolicyStoreError ''credit must come from known_answer, expert_blind, or temporal_holdout'')
      else (case or_valid_finding_delta r of
        NonFinite x \<Rightarrow> Inl (PolicyStoreError ''invalid outcome costs or delta'')
      | Finite delta \<Rightarrow>
          if min (or_calls r) (or_tokens r) < 0
          then Inl (PolicyStoreError ''invalid outcome costs or delta'')
          else if blank (or_evidence_ref r)
          then Inl (PolicyStoreError ''outcome requires a replayable evaluation evidence_ref'')
          else (case find_application (or_tenant_id r) (or_application_id r) db of
            None \<Rightarrow> Inl (PolicyStoreError ''unknown application'')
          | Some a \<Rightarrow> (case row_by oc_application_id (or_application_id r) (outcomes db) of
              Some existing \<Rightarrow>
                if \<not> same_outcome existing r delta
                then Inl (CreditConflict ''application outcome already recorded differently'')
                else Inr ((), db)
            | None \<Rightarrow>
                bind_result (enqueue (pd_events d 0) (outcome_event env a r delta)
                  (db\<lparr>outcomes := outcomes db @ [\<lparr>oc_application_id = or_application_id r,
                    oc_evaluator_kind = or_evaluator_kind r, oc_success = or_success r,
                    oc_false_gap_avoided = or_false_gap_avoided r, oc_valid_finding_delta = delta,
                    oc_calls = or_calls r, oc_tokens = or_tokens r, oc_evidence_ref = or_evidence_ref r,
                    oc_recorded_at = pd_now d\<rparr>]\<rparr>))
                (\<lambda>db'. Inr ((), db'))))))"

definition application_has_outcome :: "string \<Rightarrow> string \<Rightarrow> policy_db \<Rightarrow> bool" where
  "application_has_outcome tenant i db \<longleftrightarrow>
     list_ex (\<lambda>oc. oc_application_id oc = i \<and>
       list_ex (\<lambda>a. ap_application_id a = i \<and> ap_tenant_id a = tenant) (applications db)) (outcomes db)"

section \<open>Scores\<close>

record strategy_score =
  sc_strategy_id :: string
  sc_kind :: string
  sc_pattern :: string
  sc_status :: strategy_status
  sc_evaluations :: nat
  sc_successes :: nat
  sc_success_rate :: rat
  sc_wilson_lower :: rat
  sc_mean_calls :: rat
  sc_mean_tokens :: rat

definition wilson_z :: rat where
  "wilson_z = 1959963984540054 / 1000000000000000"

definition wilson_lower :: "nat \<Rightarrow> nat \<Rightarrow> rat" where
  "wilson_lower successes trials = (if trials = 0 then 0
     else let z = wilson_z; n = of_nat trials; p = of_nat successes / n;
              denominator = 1 + z * z / n;
              centre = p + z * z / (2 * n);
              margin = z * py_sqrt (p * (1 - p) / n + z * z / (4 * n * n))
          in max 0 ((centre - margin) / denominator))"

text \<open>
  The credited outcomes of a strategy: those of its applications in other task families than the
  one that produced it.
\<close>

definition credited_outcomes :: "strategy \<Rightarrow> policy_db \<Rightarrow> outcome list" where
  "credited_outcomes s db = concat (map (\<lambda>a. filter (\<lambda>oc. oc_application_id oc = ap_application_id a) (outcomes db))
     (filter (\<lambda>a. ap_strategy_id a = st_strategy_id s \<and> ap_target_task_family a \<noteq> st_source_task_family s)
        (applications db)))"

definition score_of :: "policy_db \<Rightarrow> strategy \<Rightarrow> strategy_score" where
  "score_of db s = (let os = credited_outcomes s db; n = length os; k = length (filter oc_success os) in
     \<lparr>sc_strategy_id = st_strategy_id s, sc_kind = st_kind s, sc_pattern = st_pattern s,
       sc_status = st_status s, sc_evaluations = n, sc_successes = k,
       sc_success_rate = (if n = 0 then 0 else py_round (of_nat k / of_nat n) 6),
       sc_wilson_lower = py_round (wilson_lower k n) 6,
       sc_mean_calls = py_round (mean (map (\<lambda>oc. of_int (oc_calls oc)) os)) 6,
       sc_mean_tokens = py_round (mean (map (\<lambda>oc. of_int (oc_tokens oc)) os)) 6\<rparr>)"

definition score_rows :: "string \<Rightarrow> policy_db \<Rightarrow> strategy_score list" where
  "score_rows tenant db = map (score_of db)
     (sort_key st_strategy_id (filter (\<lambda>s. st_tenant_id s = tenant) (strategies db)))"

section \<open>Refreshing the statuses\<close>

record thresholds =
  min_evaluations :: int
  activation_lower_bound :: rat
  suspension_lower_bound :: rat

definition target_status :: "thresholds \<Rightarrow> strategy_score \<Rightarrow> strategy_status" where
  "target_status th sc =
     (if int (sc_evaluations sc) < min_evaluations th then CANDIDATE
      else if sc_wilson_lower sc \<ge> activation_lower_bound th then ACTIVE
      else if sc_wilson_lower sc < suspension_lower_bound th then SUSPENDED
      else CANDIDATE)"

definition transition_payload :: "strategy_score \<Rightarrow> strategy_status \<Rightarrow> json" where
  "transition_payload sc target = JObj [(''strategy_id'', JStr (sc_strategy_id sc)),
     (''from_status'', JStr (strategy_status_value (sc_status sc))),
     (''to_status'', JStr (strategy_status_value target)),
     (''evaluations'', JInt (int (sc_evaluations sc))), (''successes'', JInt (int (sc_successes sc))),
     (''wilson_lower'', JFloat (repr_rounded (sc_wilson_lower sc)))]"

text \<open>The default \<open>ensure_ascii\<close> of \<open>json.dumps\<close> in the hash of the transition.\<close>

definition ascii_escape :: "string \<Rightarrow> string" where
  "ascii_escape s = concat (map (\<lambda>c. let n = (of_char c :: nat) in
     if n < 127 then [c]
     else [CHR 0x5C, CHR ''u'', CHR ''0'', CHR ''0'', hex_char (n div 16), hex_char (n mod 16)]) s)"

definition transition_event :: "py_env \<Rightarrow> string \<Rightarrow> strategy_score \<Rightarrow> strategy_status \<Rightarrow> enqueue_request" where
  "transition_event env tenant sc target = \<lparr>eq_tenant_id = tenant, eq_event_type = ''policy.status_changed'',
     eq_aggregate_type = ''strategy'', eq_aggregate_id = sc_strategy_id sc,
     eq_payload = transition_payload sc target,
     eq_idempotency_key = ''strategy:'' @ sc_strategy_id sc @ '':transition:''
       @ sha256 env (ascii_escape (render (sort_keys (transition_payload sc target))))\<rparr>"

definition set_status :: "string \<Rightarrow> string \<Rightarrow> strategy_status \<Rightarrow> time \<Rightarrow> policy_db \<Rightarrow> policy_db" where
  "set_status tenant i target now db = db\<lparr>strategies := map (\<lambda>s.
     if st_strategy_id s = i \<and> st_tenant_id s = tenant
     then s\<lparr>st_status := target, st_updated_at := now\<rparr> else s) (strategies db)\<rparr>"

fun refresh_scores ::
  "py_env \<Rightarrow> pdraw \<Rightarrow> nat \<Rightarrow> string \<Rightarrow> thresholds \<Rightarrow> strategy_score list \<Rightarrow> policy_db \<Rightarrow> policy_db result" where
  "refresh_scores env d k tenant th [] db = Inr db"
| "refresh_scores env d k tenant th (sc # rest) db =
     (let target = target_status th sc in
      if sc_status sc = RETIRED \<or> target = sc_status sc
      then refresh_scores env d k tenant th rest db
      else bind_result (enqueue (pd_events d k) (transition_event env tenant sc target)
             (set_status tenant (sc_strategy_id sc) target (pd_now d) db))
           (\<lambda>db'. refresh_scores env d (Suc k) tenant th rest db'))"

definition refresh_statuses ::
  "py_env \<Rightarrow> pdraw \<Rightarrow> string \<Rightarrow> thresholds \<Rightarrow> policy_db \<Rightarrow> (strategy_score list \<times> policy_db) result" where
  "refresh_statuses env d tenant th db =
     (if min_evaluations th < 1 \<or> \<not> (0 \<le> suspension_lower_bound th \<and>
         suspension_lower_bound th \<le> activation_lower_bound th \<and> activation_lower_bound th \<le> 1)
      then Inl (PolicyStoreError ''invalid promotion thresholds'')
      else bind_result (refresh_scores env d 0 tenant th (score_rows tenant db) db)
        (\<lambda>db'. Inr (score_rows tenant db', db')))"

section \<open>Recall\<close>

definition recall_active :: "string \<Rightarrow> string \<Rightarrow> int \<Rightarrow> policy_db \<Rightarrow> strategy_score list" where
  "recall_active tenant family limit db =
     (if limit < 1 then []
      else take_limit limit
        (sort_key (\<lambda>sc. (- sc_wilson_lower sc, - sc_success_rate sc, sc_mean_calls sc))
          (filter (\<lambda>sc. sc_status sc = ACTIVE \<and>
              (case find_strategy tenant (sc_strategy_id sc) db of None \<Rightarrow> False
               | Some s \<Rightarrow> st_source_task_family s \<noteq> family))
            (score_rows tenant db))))"

text \<open>The scores of a list of strategy ids (\<open>scores[strategy_id]\<close>).\<close>

definition scores_for :: "string \<Rightarrow> string list \<Rightarrow> policy_db \<Rightarrow> strategy_score list result" where
  "scores_for tenant ids db = (case those (map (\<lambda>i. row_by sc_strategy_id i (score_rows tenant db)) ids) of
     None \<Rightarrow> Inl (KeyError ''strategy_id'') | Some scs \<Rightarrow> Inr scs)"

definition recall_uncredited :: "string \<Rightarrow> string \<Rightarrow> int \<Rightarrow> policy_db \<Rightarrow> strategy_score list result" where
  "recall_uncredited tenant family limit db =
     (if limit < 1 then Inr []
      else scores_for tenant (map st_strategy_id (take_limit limit
        (sort_key (\<lambda>s. (- st_created_at s, st_strategy_id s))
          (filter (\<lambda>s. st_tenant_id s = tenant \<and> st_status s \<noteq> RETIRED \<and> st_source_task_family s \<noteq> family)
            (strategies db))))) db)"

definition tried_in_family :: "strategy \<Rightarrow> string \<Rightarrow> policy_db \<Rightarrow> bool" where
  "tried_in_family s family db \<longleftrightarrow> list_ex (\<lambda>a. ap_strategy_id a = st_strategy_id s \<and>
     ap_target_task_family a = family) (applications db)"

definition recall_candidate_for_evaluation ::
  "string \<Rightarrow> string \<Rightarrow> policy_db \<Rightarrow> strategy_score option result" where
  "recall_candidate_for_evaluation tenant family db =
     (case sort_key (\<lambda>s. (length (credited_outcomes s db), st_created_at s, st_strategy_id s))
         (filter (\<lambda>s. st_tenant_id s = tenant \<and> st_status s = CANDIDATE \<and>
            st_source_task_family s \<noteq> family \<and> \<not> tried_in_family s family db) (strategies db)) of
       [] \<Rightarrow> Inr None
     | s # rest \<Rightarrow> bind_result (scores_for tenant [st_strategy_id s] db) (\<lambda>scs. Inr (Some (hd scs))))"

section \<open>Interventions of ordered runs\<close>

record bind_request =
  bq_tenant_id :: string
  bq_run_id :: string
  bq_method_id :: string
  bq_sequence_index :: int
  bq_challenge_id :: string
  bq_order_sha256 :: string
  bq_memory_mode :: string
  bq_strategy_ids :: "string list"

definition bound_event :: "bind_request \<Rightarrow> enqueue_request" where
  "bound_event r = \<lparr>eq_tenant_id = bq_tenant_id r, eq_event_type = ''policy.sequence_intervention_bound'',
     eq_aggregate_type = ''policy_sequence'', eq_aggregate_id = bq_run_id r @ '':'' @ bq_method_id r,
     eq_payload = JObj [(''run_id'', JStr (bq_run_id r)), (''method_id'', JStr (bq_method_id r)),
       (''sequence_index'', JInt (bq_sequence_index r)), (''challenge_id'', JStr (bq_challenge_id r)),
       (''order_sha256'', JStr (bq_order_sha256 r)), (''memory_mode'', JStr (bq_memory_mode r)),
       (''strategy_ids'', JList (map JStr (bq_strategy_ids r)))],
     eq_idempotency_key = ''sequence:'' @ bq_run_id r @ '':'' @ bq_method_id r @ '':''
       @ show_int (bq_sequence_index r) @ '':bound''\<rparr>"

definition same_intervention :: "intervention \<Rightarrow> bind_request \<Rightarrow> bool" where
  "same_intervention v r \<longleftrightarrow> iv_challenge_id v = bq_challenge_id r \<and> iv_order_sha256 v = bq_order_sha256 r \<and>
     iv_memory_mode v = bq_memory_mode r \<and> iv_strategy_ids v = bq_strategy_ids r"

definition bind_sequence_intervention ::
  "pdraw \<Rightarrow> bind_request \<Rightarrow> policy_db \<Rightarrow> (strategy_score list \<times> policy_db) result" where
  "bind_sequence_intervention d r db =
     (if list_ex blank [bq_tenant_id r, bq_run_id r, bq_method_id r, bq_challenge_id r, bq_order_sha256 r,
           bq_memory_mode r] \<or> bq_sequence_index r < 0 \<or> length (bq_order_sha256 r) \<noteq> 64 \<or>
         \<not> distinct (bq_strategy_ids r)
      then Inl (PolicyStoreError ''invalid ordered intervention identity'')
      else if \<not> list_all (\<lambda>i. find_strategy (bq_tenant_id r) i db \<noteq> None) (bq_strategy_ids r)
      then Inl (PolicyStoreError ''ordered intervention references an unknown strategy'')
      else bind_result
        (case row_by (\<lambda>v. (iv_tenant_id v, iv_run_id v, iv_method_id v, iv_sequence_index v))
            (bq_tenant_id r, bq_run_id r, bq_method_id r, bq_sequence_index r) (interventions db) of
          Some existing \<Rightarrow>
            if \<not> same_intervention existing r
            then Inl (CreditConflict ''ordered intervention already has different semantics'')
            else Inr db
        | None \<Rightarrow>
            if (bq_tenant_id r, bq_run_id r, bq_method_id r, bq_challenge_id r)
              \<in> (\<lambda>v. (iv_tenant_id v, iv_run_id v, iv_method_id v, iv_challenge_id v)) ` set (interventions db)
            then Inl (SqlIntegrityError ''UNIQUE constraint failed: sequence_interventions'')
            else enqueue (pd_events d 0) (bound_event r)
              (db\<lparr>interventions := interventions db @ [\<lparr>iv_tenant_id = bq_tenant_id r,
                 iv_run_id = bq_run_id r, iv_method_id = bq_method_id r,
                 iv_sequence_index = bq_sequence_index r, iv_challenge_id = bq_challenge_id r,
                 iv_order_sha256 = bq_order_sha256 r, iv_memory_mode = bq_memory_mode r,
                 iv_strategy_ids = bq_strategy_ids r, iv_created_at = pd_now d\<rparr>]\<rparr>))
        (\<lambda>db'. bind_result (scores_for (bq_tenant_id r) (bq_strategy_ids r) db') (\<lambda>scs. Inr (scs, db'))))"

definition sequence_intervention ::
  "string \<Rightarrow> string \<Rightarrow> string \<Rightarrow> int \<Rightarrow> policy_db \<Rightarrow> strategy_score list option result" where
  "sequence_intervention tenant run_id method_id i db =
     (case row_by (\<lambda>v. (iv_tenant_id v, iv_run_id v, iv_method_id v, iv_sequence_index v))
         (tenant, run_id, method_id, i) (interventions db) of
       None \<Rightarrow> Inr None
     | Some v \<Rightarrow> bind_result (scores_for tenant (iv_strategy_ids v) db) (\<lambda>scs. Inr (Some scs)))"

section \<open>Audit and dispatch\<close>

record policy_snapshot =
  ps_strategies :: "strategy_score list"
  ps_applications :: nat
  ps_credited_outcomes :: nat
  ps_undispatched_events :: nat
  ps_sequence_interventions :: nat

definition audit_snapshot :: "string \<Rightarrow> policy_db \<Rightarrow> policy_snapshot" where
  "audit_snapshot tenant db = \<lparr>ps_strategies = score_rows tenant db,
     ps_applications = length (filter (\<lambda>a. ap_tenant_id a = tenant) (applications db)),
     ps_credited_outcomes = length (filter (\<lambda>oc. list_ex (\<lambda>a. ap_application_id a = oc_application_id oc \<and>
        ap_tenant_id a = tenant) (applications db)) (outcomes db)),
     ps_undispatched_events = length (filter (\<lambda>r. ob_tenant_id r = tenant \<and> ob_dispatched_at r = None)
        (policy_outbox db)),
     ps_sequence_interventions = length (filter (\<lambda>v. iv_tenant_id v = tenant) (interventions db))\<rparr>"

definition pending_events :: "string \<Rightarrow> int \<Rightarrow> policy_db \<Rightarrow> outbox_row list" where
  "pending_events tenant limit db =
     (if limit < 1 then []
      else take_limit limit (sort_key (\<lambda>r. (ob_created_at r, ob_event_id r))
        (filter (\<lambda>r. ob_tenant_id r = tenant \<and> ob_dispatched_at r = None) (policy_outbox db))))"

definition mark_dispatched :: "time \<Rightarrow> string \<Rightarrow> string \<Rightarrow> policy_db \<Rightarrow> (unit \<times> policy_db) result" where
  "mark_dispatched now tenant eid db =
     (if list_ex (\<lambda>r. ob_tenant_id r = tenant \<and> ob_event_id r = eid) (policy_outbox db)
      then Inr ((), db\<lparr>policy_outbox := map (\<lambda>r.
        if ob_tenant_id r = tenant \<and> ob_event_id r = eid
        then r\<lparr>ob_dispatched_at := Some (case ob_dispatched_at r of None \<Rightarrow> now | Some t \<Rightarrow> t)\<rparr> else r)
        (policy_outbox db)\<rparr>)
      else Inl (PolicyStoreError ''unknown policy event''))"

section \<open>The store as a machine\<close>

datatype policy_op =
    Propose pdraw propose_request
  | RecordApplication pdraw application_request
  | RecordOutcome pdraw outcome_request
  | Refresh pdraw string thresholds
  | BindIntervention pdraw bind_request
  | MarkDispatched time string string

definition drop_value :: "('a \<times> policy_db) result \<Rightarrow> (unit \<times> policy_db) result" where
  "drop_value r = bind_result r (\<lambda>p. Inr ((), snd p))"

primrec exec_policy_op :: "py_env \<Rightarrow> policy_op \<Rightarrow> policy_db \<Rightarrow> (unit \<times> policy_db) result" where
  "exec_policy_op env (Propose d r) db = drop_value (propose_strategy env d r db)"
| "exec_policy_op env (RecordApplication d r) db = drop_value (record_application env d r db)"
| "exec_policy_op env (RecordOutcome d r) db = drop_value (record_outcome env d r db)"
| "exec_policy_op env (Refresh d tenant th) db = drop_value (refresh_statuses env d tenant th db)"
| "exec_policy_op env (BindIntervention d r) db = drop_value (bind_sequence_intervention d r db)"
| "exec_policy_op env (MarkDispatched now tenant eid) db = drop_value (mark_dispatched now tenant eid db)"

definition policy_step :: "py_env \<Rightarrow> policy_op \<Rightarrow> policy_db \<Rightarrow> unit result \<times> policy_db" where
  "policy_step env op db = transact (exec_policy_op env op) db"

end
