(* ===== verification/Policy_Laws.thy ===== *)
theory Policy_Laws
  imports Policy
begin

text \<open>
  What every operation of the policy memory does to its tables (\<open>policy_change\<close>, an abstract
  specification every method refines) and what all of them keep (\<open>policy_inv\<close>): keys, references,
  independent credit behind every status, and an outbox that announces every stored fact with a
  payload the ledger accepts.
\<close>

section \<open>The changes of the tables\<close>

definition new_strategy :: "py_env \<Rightarrow> propose_request \<Rightarrow> strategy \<Rightarrow> bool" where
  "new_strategy env r s \<longleftrightarrow> st_kind s \<in> set ALLOWED_KINDS \<and> st_status s = CANDIDATE \<and>
     st_tenant_id s = pr_tenant_id r \<and> st_strategy_key s = strategy_key_of env (pr_kind r) (pr_pattern r) \<and>
     \<not> blank (st_tenant_id s) \<and> \<not> blank (st_source_task_family s)"

definition credible :: "outcome \<Rightarrow> bool" where
  "credible oc \<longleftrightarrow> oc_evaluator_kind oc \<in> set ALLOWED_EVALUATORS \<and> 0 \<le> oc_calls oc \<and> 0 \<le> oc_tokens oc \<and>
     \<not> blank (oc_evidence_ref oc)"

inductive policy_change :: "py_env \<Rightarrow> policy_db \<Rightarrow> policy_db \<Rightarrow> bool" for env where
  add_strategy: "new_strategy env r s \<Longrightarrow>
    (st_tenant_id s, st_strategy_key s) \<notin> (\<lambda>s. (st_tenant_id s, st_strategy_key s)) ` set (strategies db) \<Longrightarrow>
    st_strategy_id s \<notin> st_strategy_id ` set (strategies db) \<Longrightarrow>
    enqueue d (proposed_event env (st_strategy_id s) r) (db\<lparr>strategies := strategies db @ [s]\<rparr>) = Inr db' \<Longrightarrow>
    policy_change env db db'"
| add_application: "s \<in> set (strategies db) \<Longrightarrow> st_strategy_id s = ap_strategy_id a \<Longrightarrow>
    st_tenant_id s = ap_tenant_id a \<Longrightarrow> ap_tenant_id a = aq_tenant_id r \<Longrightarrow> ap_strategy_id a = aq_strategy_id r \<Longrightarrow>
    (ap_tenant_id a, ap_idempotency_key a) \<notin> (\<lambda>a. (ap_tenant_id a, ap_idempotency_key a)) ` set (applications db) \<Longrightarrow>
    ap_application_id a \<notin> ap_application_id ` set (applications db) \<Longrightarrow>
    enqueue d (applied_event env (ap_application_id a) r) (db\<lparr>applications := applications db @ [a]\<rparr>) = Inr db' \<Longrightarrow>
    policy_change env db db'"
| add_outcome: "a \<in> set (applications db) \<Longrightarrow> ap_application_id a = oc_application_id oc \<Longrightarrow>
    ap_tenant_id a = or_tenant_id r \<Longrightarrow> or_application_id r = oc_application_id oc \<Longrightarrow> credible oc \<Longrightarrow>
    oc_application_id oc \<notin> oc_application_id ` set (outcomes db) \<Longrightarrow>
    enqueue d (outcome_event env a r delta) (db\<lparr>outcomes := outcomes db @ [oc]\<rparr>) = Inr db' \<Longrightarrow>
    policy_change env db db'"
| add_intervention: "\<forall>i \<in> set (iv_strategy_ids v). find_strategy (iv_tenant_id v) i db \<noteq> None \<Longrightarrow>
    (iv_tenant_id v, iv_run_id v, iv_method_id v, iv_sequence_index v)
      \<notin> (\<lambda>v. (iv_tenant_id v, iv_run_id v, iv_method_id v, iv_sequence_index v)) ` set (interventions db) \<Longrightarrow>
    (iv_tenant_id v, iv_run_id v, iv_method_id v, iv_challenge_id v)
      \<notin> (\<lambda>v. (iv_tenant_id v, iv_run_id v, iv_method_id v, iv_challenge_id v)) ` set (interventions db) \<Longrightarrow>
    bq_tenant_id r = iv_tenant_id v \<Longrightarrow> bq_run_id r = iv_run_id v \<Longrightarrow> bq_method_id r = iv_method_id v \<Longrightarrow>
    bq_sequence_index r = iv_sequence_index v \<Longrightarrow>
    enqueue d (bound_event r) (db\<lparr>interventions := interventions db @ [v]\<rparr>) = Inr db' \<Longrightarrow>
    policy_change env db db'"
| change_status: "target \<noteq> RETIRED \<Longrightarrow>
    (\<And>s. s \<in> set (strategies db) \<Longrightarrow> st_strategy_id s = sc_strategy_id sc \<Longrightarrow> st_tenant_id s = tenant \<Longrightarrow>
      target \<noteq> CANDIDATE \<Longrightarrow> credited_outcomes s db \<noteq> []) \<Longrightarrow>
    enqueue d (transition_event env tenant sc target) (set_status tenant (sc_strategy_id sc) target now db) = Inr db' \<Longrightarrow>
    policy_change env db db'"
| dispatch: "mark_dispatched now tenant eid db = Inr ((), db') \<Longrightarrow> policy_change env db db'"

inductive policy_changes :: "py_env \<Rightarrow> policy_db \<Rightarrow> policy_db \<Rightarrow> bool" for env where
  none: "policy_changes env db db"
| also_then: "policy_change env db db' \<Longrightarrow> policy_changes env db' db'' \<Longrightarrow> policy_changes env db db''"

lemma policy_changes_inv:
  assumes "policy_changes env db db'" and "P db"
    and "\<And>db db'. policy_change env db db' \<Longrightarrow> P db \<Longrightarrow> P db'"
  shows "P db'"
  using assms(1,2) by (induction rule: policy_changes.induct) (auto intro: assms(3))

lemma one_change: "policy_change env db db' \<Longrightarrow> policy_changes env db db'"
  by (blast intro: policy_changes.intros)

section \<open>Every operation is a series of changes\<close>

lemma enqueue_InrD:
  assumes "enqueue d q db = Inr db'"
  shows "db' = db\<lparr>policy_outbox := policy_outbox db @ [outbox_row_of d q]\<rparr>"
    and "fst d \<notin> ob_event_id ` set (policy_outbox db)"
    and "(eq_tenant_id q, eq_idempotency_key q)
      \<notin> (\<lambda>r. (ob_tenant_id r, ob_idempotency_key r)) ` set (policy_outbox db)"
    and "finite_json (eq_payload q)"
  using assms by (auto simp: enqueue_def canonical_json_def split: if_splits)

lemma enqueue_InlD: "enqueue d q db = Inl e \<Longrightarrow> finite_json (eq_payload q) \<Longrightarrow> \<exists>m. e = SqlIntegrityError m"
  by (auto simp: enqueue_def canonical_json_def split: if_splits)

lemma propose_change:
  assumes "propose_strategy env d r db = Inr (i, db')"
  shows "policy_changes env db db'"
proof (cases "row_by (\<lambda>s. (st_tenant_id s, st_strategy_key s))
    (pr_tenant_id r, strategy_key_of env (pr_kind r) (pr_pattern r)) (strategies db)")
  case (Some s)
  then show ?thesis using assms by (auto simp: propose_strategy_def Let_def policy_changes.none split: if_splits)
next
  case None
  let ?s = "\<lparr>st_strategy_id = or_else (pr_strategy_id r) (pd_uuid d), st_tenant_id = pr_tenant_id r,
    st_strategy_key = strategy_key_of env (pr_kind r) (pr_pattern r), st_kind = pr_kind r,
    st_pattern = pr_pattern r, st_source_job_id = pr_source_job_id r,
    st_source_task_family = pr_source_task_family r, st_status = CANDIDATE, st_created_at = pd_now d,
    st_updated_at = pd_now d\<rparr>"
  have "enqueue (pd_events d 0) (proposed_event env (st_strategy_id ?s) r) (db\<lparr>strategies := strategies db @ [?s]\<rparr>)
      = Inr db'" "new_strategy env r ?s" "st_strategy_id ?s \<notin> st_strategy_id ` set (strategies db)"
    using assms None by (auto simp: propose_strategy_def Let_def new_strategy_def split: if_splits)
  then show ?thesis
    using None by (intro one_change policy_change.add_strategy [where s = ?s]) (auto simp: row_by_None_iff)
qed

lemma application_change:
  assumes "record_application env d r db = Inr (i, db')"
  shows "policy_changes env db db'"
proof -
  obtain s where s: "find_strategy (aq_tenant_id r) (aq_strategy_id r) db = Some s" "st_status s \<noteq> RETIRED"
    using assms by (auto simp: record_application_def Let_def split: option.splits if_splits)
  then have m: "s \<in> set (strategies db)" "st_strategy_id s = aq_strategy_id r" "st_tenant_id s = aq_tenant_id r"
    by (auto simp: find_strategy_def dest: find_SomeD)
  show ?thesis
  proof (cases "row_by (\<lambda>a. (ap_tenant_id a, ap_idempotency_key a)) (aq_tenant_id r, aq_idempotency_key r)
      (applications db)")
    case (Some a)
    then show ?thesis using assms s by (auto simp: record_application_def Let_def policy_changes.none split: if_splits)
  next
    case None
    let ?a = "\<lparr>ap_application_id = or_else (aq_application_id r) (pd_uuid d), ap_strategy_id = aq_strategy_id r,
      ap_tenant_id = aq_tenant_id r, ap_target_job_id = aq_target_job_id r,
      ap_target_task_family = aq_target_task_family r,
      ap_rendered_query_sha256 = sha256 env (aq_rendered_query r),
      ap_idempotency_key = aq_idempotency_key r, ap_created_at = pd_now d\<rparr>"
    have "enqueue (pd_events d 0) (applied_event env (ap_application_id ?a) r)
        (db\<lparr>applications := applications db @ [?a]\<rparr>) = Inr db'"
      "ap_application_id ?a \<notin> ap_application_id ` set (applications db)"
      using assms None s by (auto simp: record_application_def Let_def split: if_splits)
    then show ?thesis
      using None m by (intro one_change policy_change.add_application [where a = ?a]) (auto simp: row_by_None_iff)
  qed
qed

lemma outcome_change:
  assumes "record_outcome env d r db = Inr (u, db')"
  shows "policy_changes env db db'"
proof -
  obtain delta a where s: "or_valid_finding_delta r = Finite delta" "or_evaluator_kind r \<in> set ALLOWED_EVALUATORS"
      "0 \<le> or_calls r" "0 \<le> or_tokens r" "\<not> blank (or_evidence_ref r)"
      "find_application (or_tenant_id r) (or_application_id r) db = Some a"
    using assms by (auto simp: record_outcome_def split: option.splits if_splits py_float.splits)
  then have m: "a \<in> set (applications db)" "ap_application_id a = or_application_id r" "ap_tenant_id a = or_tenant_id r"
    by (auto simp: find_application_def dest: find_SomeD)
  show ?thesis
  proof (cases "row_by oc_application_id (or_application_id r) (outcomes db)")
    case (Some x)
    then show ?thesis using assms s by (auto simp: record_outcome_def policy_changes.none split: if_splits)
  next
    case None
    let ?o = "\<lparr>oc_application_id = or_application_id r, oc_evaluator_kind = or_evaluator_kind r,
      oc_success = or_success r, oc_false_gap_avoided = or_false_gap_avoided r,
      oc_valid_finding_delta = delta, oc_calls = or_calls r, oc_tokens = or_tokens r,
      oc_evidence_ref = or_evidence_ref r, oc_recorded_at = pd_now d\<rparr>"
    have "enqueue (pd_events d 0) (outcome_event env a r delta) (db\<lparr>outcomes := outcomes db @ [?o]\<rparr>) = Inr db'"
      using assms None s by (auto simp: record_outcome_def split: if_splits)
    moreover have "credible ?o" using s by (simp add: credible_def)
    ultimately show ?thesis
      using None m by (intro one_change policy_change.add_outcome [where oc = ?o]) (auto simp: row_by_None_iff)
  qed
qed

lemma bind_change:
  assumes "bind_sequence_intervention d r db = Inr (scs, db')"
  shows "policy_changes env db db'"
proof -
  have known: "\<forall>i \<in> set (bq_strategy_ids r). find_strategy (bq_tenant_id r) i db \<noteq> None"
    using assms by (auto simp: bind_sequence_intervention_def list_all_iff split: if_splits)
  show ?thesis
  proof (cases "row_by (\<lambda>v. (iv_tenant_id v, iv_run_id v, iv_method_id v, iv_sequence_index v))
      (bq_tenant_id r, bq_run_id r, bq_method_id r, bq_sequence_index r) (interventions db)")
    case (Some v)
    then show ?thesis using assms by (auto simp: bind_sequence_intervention_def policy_changes.none split: if_splits)
  next
    case None
    let ?v = "\<lparr>iv_tenant_id = bq_tenant_id r, iv_run_id = bq_run_id r, iv_method_id = bq_method_id r,
      iv_sequence_index = bq_sequence_index r, iv_challenge_id = bq_challenge_id r,
      iv_order_sha256 = bq_order_sha256 r, iv_memory_mode = bq_memory_mode r,
      iv_strategy_ids = bq_strategy_ids r, iv_created_at = pd_now d\<rparr>"
    have "enqueue (pd_events d 0) (bound_event r) (db\<lparr>interventions := interventions db @ [?v]\<rparr>) = Inr db'"
      "(iv_tenant_id ?v, iv_run_id ?v, iv_method_id ?v, iv_challenge_id ?v)
        \<notin> (\<lambda>v. (iv_tenant_id v, iv_run_id v, iv_method_id v, iv_challenge_id v)) ` set (interventions db)"
      using assms None by (auto simp: bind_sequence_intervention_def split: if_splits)
    then show ?thesis
      using None known
      by (intro one_change policy_change.add_intervention [where v = ?v]) (auto simp: row_by_None_iff)
  qed
qed

section \<open>Refreshing\<close>

lemma credited_outcomes_cong:
  "applications db' = applications db \<Longrightarrow> outcomes db' = outcomes db \<Longrightarrow> st_strategy_id s' = st_strategy_id s \<Longrightarrow>
   st_source_task_family s' = st_source_task_family s \<Longrightarrow> credited_outcomes s' db' = credited_outcomes s db"
  by (simp add: credited_outcomes_def)

lemma set_status_simps [simp]:
  "applications (set_status t i target now db) = applications db"
  "outcomes (set_status t i target now db) = outcomes db"
  "policy_outbox (set_status t i target now db) = policy_outbox db"
  "interventions (set_status t i target now db) = interventions db"
  by (simp_all add: set_status_def)

text \<open>The scores a refresh works on are those of the tables, up to the statuses already changed.\<close>

definition scores_fit :: "string \<Rightarrow> strategy_score list \<Rightarrow> policy_db \<Rightarrow> bool" where
  "scores_fit tenant scs db \<longleftrightarrow> (\<forall>sc \<in> set scs. \<forall>s \<in> set (strategies db).
     st_strategy_id s = sc_strategy_id sc \<longrightarrow> st_tenant_id s = tenant \<longrightarrow>
     length (credited_outcomes s db) = sc_evaluations sc)"

lemma scores_fit_rows:
  assumes "distinct (map st_strategy_id (strategies db))"
  shows "scores_fit tenant (score_rows tenant db) db"
proof -
  have "s = s'" if "s \<in> set (strategies db)" "s' \<in> set (strategies db)" "st_strategy_id s = st_strategy_id s'" for s s'
    using assms that by (auto simp: distinct_map dest: inj_onD)
  then show ?thesis
    by (auto simp: scores_fit_def score_rows_def score_of_def Let_def)
qed

lemma scores_fit_set_status:
  assumes "scores_fit tenant scs db"
  shows "scores_fit tenant scs (set_status t i target now db)"
proof -
  have "length (credited_outcomes s (set_status t i target now db)) = sc_evaluations sc"
    if sc: "sc \<in> set scs" and s: "s \<in> set (strategies (set_status t i target now db))"
      and fit: "st_strategy_id s = sc_strategy_id sc" "st_tenant_id s = tenant" for sc s
  proof -
    obtain s0 where "s0 \<in> set (strategies db)" "st_strategy_id s0 = st_strategy_id s" "st_tenant_id s0 = st_tenant_id s"
        "st_source_task_family s0 = st_source_task_family s"
      using s by (auto simp: set_status_def split: if_splits)
    moreover from this have "credited_outcomes s (set_status t i target now db) = credited_outcomes s0 db"
      by (intro credited_outcomes_cong) simp_all
    ultimately show ?thesis using assms sc fit by (auto simp: scores_fit_def)
  qed
  then show ?thesis by (simp add: scores_fit_def)
qed

lemma scores_fit_outbox [simp]:
  "scores_fit tenant scs (db\<lparr>policy_outbox := rows\<rparr>) = scores_fit tenant scs db"
  by (simp add: scores_fit_def credited_outcomes_def)

lemma refresh_scores_changes:
  assumes "1 \<le> min_evaluations th"
  shows "scores_fit tenant scs db \<Longrightarrow> refresh_scores env d k tenant th scs db = Inr db' \<Longrightarrow>
    policy_changes env db db'"
proof (induction scs arbitrary: k db)
  case Nil
  then show ?case by (simp add: policy_changes.none)
next
  case (Cons sc scs)
  have fit: "scores_fit tenant scs db" using Cons.prems(1) by (simp add: scores_fit_def)
  let ?t = "target_status th sc"
  show ?case
  proof (cases "sc_status sc = RETIRED \<or> ?t = sc_status sc")
    case True
    then show ?thesis using Cons.IH [OF fit] Cons.prems(2) by (simp add: Let_def)
  next
    case False
    then obtain db1 where db1: "enqueue (pd_events d k) (transition_event env tenant sc ?t)
          (set_status tenant (sc_strategy_id sc) ?t (pd_now d) db) = Inr db1"
        "refresh_scores env d (Suc k) tenant th scs db1 = Inr db'"
      using Cons.prems(2) by (auto simp: Let_def)
    have "scores_fit tenant scs db1"
      using scores_fit_set_status [OF fit] enqueue_InrD(1) [OF db1(1)] by simp
    then have rest: "policy_changes env db1 db'" using db1(2) by (rule Cons.IH)
    have "credited_outcomes s db \<noteq> []"
      if "s \<in> set (strategies db)" "st_strategy_id s = sc_strategy_id sc" "st_tenant_id s = tenant" "?t \<noteq> CANDIDATE" for s
      using that assms Cons.prems(1) by (auto simp: scores_fit_def target_status_def split: if_splits)
    moreover have "?t \<noteq> RETIRED" by (simp add: target_status_def)
    ultimately have "policy_change env db db1" using db1(1) by (intro policy_change.change_status)
    then show ?thesis using rest by (rule policy_changes.also_then)
  qed
qed

lemma refresh_change:
  assumes "refresh_statuses env d tenant th db = Inr (scs, db')" and "distinct (map st_strategy_id (strategies db))"
  shows "policy_changes env db db'"
  using assms refresh_scores_changes [OF _ scores_fit_rows [OF assms(2)], of th env d 0 tenant db']
  by (auto simp: refresh_statuses_def split: if_splits)

lemma dispatch_change: "mark_dispatched now tenant eid db = Inr ((), db') \<Longrightarrow> policy_changes env db db'"
  by (rule one_change) (rule policy_change.dispatch)

text \<open>Every method refines the abstract changes.\<close>

lemma exec_policy_op_changes:
  assumes "exec_policy_op env op db = Inr (u, db')" and "distinct (map st_strategy_id (strategies db))"
  shows "policy_changes env db db'"
  using assms
  by (cases op) (auto simp: drop_value_def intro: propose_change application_change outcome_change
      refresh_change bind_change dispatch_change)

section \<open>The invariant\<close>

definition policy_keys :: "policy_db \<Rightarrow> bool" where
  "policy_keys db \<longleftrightarrow> distinct (map st_strategy_id (strategies db)) \<and>
     distinct (map (\<lambda>s. (st_tenant_id s, st_strategy_key s)) (strategies db)) \<and>
     distinct (map ap_application_id (applications db)) \<and>
     distinct (map (\<lambda>a. (ap_tenant_id a, ap_idempotency_key a)) (applications db)) \<and>
     distinct (map oc_application_id (outcomes db)) \<and>
     distinct (map (\<lambda>v. (iv_tenant_id v, iv_run_id v, iv_method_id v, iv_sequence_index v)) (interventions db)) \<and>
     distinct (map (\<lambda>v. (iv_tenant_id v, iv_run_id v, iv_method_id v, iv_challenge_id v)) (interventions db)) \<and>
     distinct (map ob_event_id (policy_outbox db)) \<and>
     distinct (map (\<lambda>r. (ob_tenant_id r, ob_idempotency_key r)) (policy_outbox db))"

text \<open>References and the source of credit.\<close>

definition policy_refs :: "policy_db \<Rightarrow> bool" where
  "policy_refs db \<longleftrightarrow>
     (\<forall>a \<in> set (applications db). \<exists>s \<in> set (strategies db). st_strategy_id s = ap_strategy_id a \<and>
        st_tenant_id s = ap_tenant_id a) \<and>
     (\<forall>oc \<in> set (outcomes db). credible oc \<and> (\<exists>a \<in> set (applications db). ap_application_id a = oc_application_id oc))"

definition credit_ok :: "policy_db \<Rightarrow> bool" where
  "credit_ok db \<longleftrightarrow> (\<forall>s \<in> set (strategies db). st_status s \<noteq> RETIRED \<and>
     (st_status s \<noteq> CANDIDATE \<longrightarrow> credited_outcomes s db \<noteq> []))"

text \<open>The outbox announces every row.\<close>

definition announced :: "policy_db \<Rightarrow> string \<Rightarrow> string \<Rightarrow> bool" where
  "announced db tenant key \<longleftrightarrow> (tenant, key) \<in> (\<lambda>r. (ob_tenant_id r, ob_idempotency_key r)) ` set (policy_outbox db)"

definition all_announced :: "policy_db \<Rightarrow> bool" where
  "all_announced db \<longleftrightarrow>
     (\<forall>s \<in> set (strategies db). announced db (st_tenant_id s) (''strategy:'' @ st_strategy_id s @ '':proposed'')) \<and>
     (\<forall>a \<in> set (applications db). announced db (ap_tenant_id a) (''application:'' @ ap_application_id a @ '':recorded'')) \<and>
     (\<forall>oc \<in> set (outcomes db). \<exists>a \<in> set (applications db). ap_application_id a = oc_application_id oc \<and>
        announced db (ap_tenant_id a) (''application:'' @ oc_application_id oc @ '':outcome'')) \<and>
     (\<forall>v \<in> set (interventions db). announced db (iv_tenant_id v)
        (''sequence:'' @ iv_run_id v @ '':'' @ iv_method_id v @ '':'' @ show_int (iv_sequence_index v) @ '':bound''))"

definition outbox_ok :: "policy_db \<Rightarrow> bool" where
  "outbox_ok db \<longleftrightarrow> (\<forall>r \<in> set (policy_outbox db). validate_durable_payload (ob_payload r) ''payload'' = Inr () \<and>
     sort_keys (ob_payload r) = ob_payload r \<and> ob_event_type r \<noteq> [])"

definition policy_inv :: "policy_db \<Rightarrow> bool" where
  "policy_inv db \<longleftrightarrow> policy_keys db \<and> policy_refs db \<and> credit_ok db \<and> all_announced db \<and> outbox_ok db"

lemma policy_inv_empty: "policy_inv empty_policy"
  by (simp add: policy_inv_def policy_keys_def policy_refs_def credit_ok_def all_announced_def outbox_ok_def
      empty_policy_def)

lemma set_status_maps [simp]:
  "map st_strategy_id (strategies (set_status t i target now db)) = map st_strategy_id (strategies db)"
  "map (\<lambda>s. (st_tenant_id s, st_strategy_key s)) (strategies (set_status t i target now db))
    = map (\<lambda>s. (st_tenant_id s, st_strategy_key s)) (strategies db)"
  by (simp_all add: set_status_def cong: if_cong)

lemma mark_dispatched_InrD:
  assumes "mark_dispatched now tenant eid db = Inr ((), db')"
  obtains f where "db' = db\<lparr>policy_outbox := map f (policy_outbox db)\<rparr>"
    and "\<And>r. ob_event_id (f r) = ob_event_id r" and "\<And>r. ob_tenant_id (f r) = ob_tenant_id r"
    and "\<And>r. ob_idempotency_key (f r) = ob_idempotency_key r" and "\<And>r. ob_payload (f r) = ob_payload r"
    and "\<And>r. ob_event_type (f r) = ob_event_type r"
  using assms by (auto simp: mark_dispatched_def split: if_splits intro!: that)

lemma policy_change_keys:
  assumes "policy_change env db db'" and "policy_keys db"
  shows "policy_keys db'"
  using assms(1)
proof cases
  case (dispatch now tenant eid)
  then obtain f where "db' = db\<lparr>policy_outbox := map f (policy_outbox db)\<rparr>" "\<And>r. ob_event_id (f r) = ob_event_id r"
      "\<And>r. ob_tenant_id (f r) = ob_tenant_id r" "\<And>r. ob_idempotency_key (f r) = ob_idempotency_key r"
    by (elim mark_dispatched_InrD) blast
  then show ?thesis using assms(2) by (simp add: policy_keys_def o_def)
next
  case (change_status target sc tenant d now)
  note e = enqueue_InrD [OF change_status(3)]
  show ?thesis using e(1-3) assms(2) by (simp add: policy_keys_def outbox_row_of_def)
next
  case (add_strategy r s d)
  note e = enqueue_InrD [OF add_strategy(4)]
  show ?thesis using e(1-3) assms(2) add_strategy(2,3) by (simp add: policy_keys_def outbox_row_of_def)
next
  case (add_application s a r d)
  note e = enqueue_InrD [OF add_application(8)]
  show ?thesis using e(1-3) assms(2) add_application(6,7) by (simp add: policy_keys_def outbox_row_of_def)
next
  case (add_outcome a oc r d delta)
  note e = enqueue_InrD [OF add_outcome(7)]
  show ?thesis using e(1-3) assms(2) add_outcome(6) by (simp add: policy_keys_def outbox_row_of_def)
next
  case (add_intervention v r d)
  note e = enqueue_InrD [OF add_intervention(8)]
  show ?thesis using e(1-3) assms(2) add_intervention(2,3) by (simp add: policy_keys_def outbox_row_of_def)
qed

text \<open>The other four parts rest on what a change adds.\<close>

lemma credited_nonempty_iff:
  "credited_outcomes s db \<noteq> [] \<longleftrightarrow> (\<exists>a \<in> set (applications db). \<exists>oc \<in> set (outcomes db).
     ap_strategy_id a = st_strategy_id s \<and> ap_target_task_family a \<noteq> st_source_task_family s \<and>
     oc_application_id oc = ap_application_id a)"
  by (force simp: credited_outcomes_def filter_empty_conv)

text \<open>A change keeps the identity and the family of every strategy and removes no row.\<close>

definition strategies_grow :: "policy_db \<Rightarrow> policy_db \<Rightarrow> bool" where
  "strategies_grow db db' \<longleftrightarrow> (\<forall>s \<in> set (strategies db). \<exists>s' \<in> set (strategies db').
     st_strategy_id s' = st_strategy_id s \<and> st_tenant_id s' = st_tenant_id s)"

definition tables_grow :: "policy_db \<Rightarrow> policy_db \<Rightarrow> bool" where
  "tables_grow db db' \<longleftrightarrow> strategies_grow db db' \<and> set (applications db) \<subseteq> set (applications db') \<and>
     set (outcomes db) \<subseteq> set (outcomes db') \<and> set (interventions db) \<subseteq> set (interventions db') \<and>
     (\<forall>t k. announced db t k \<longrightarrow> announced db' t k)"

lemma strategies_grow_set_status [simp]:
  "strategies_grow db (set_status t i target now db\<lparr>policy_outbox := rows\<rparr>)"
proof -
  have "\<exists>s' \<in> set (strategies (set_status t i target now db)). st_strategy_id s' = st_strategy_id s \<and>
      st_tenant_id s' = st_tenant_id s" if "s \<in> set (strategies db)" for s
    by (rule bexI [where x = "if st_strategy_id s = i \<and> st_tenant_id s = t
        then s\<lparr>st_status := target, st_updated_at := now\<rparr> else s"]) (use that in \<open>auto simp: set_status_def\<close>)
  then show ?thesis by (simp add: strategies_grow_def)
qed

lemma strategies_grow_same: "set (strategies db) \<subseteq> set (strategies db') \<Longrightarrow> strategies_grow db db'"
  by (auto simp: strategies_grow_def)

lemma announced_map:
  "(\<And>r. ob_tenant_id (f r) = ob_tenant_id r) \<Longrightarrow> (\<And>r. ob_idempotency_key (f r) = ob_idempotency_key r) \<Longrightarrow>
   announced (db\<lparr>policy_outbox := map f rows\<rparr>) t k = announced (db\<lparr>policy_outbox := rows\<rparr>) t k"
  by (simp add: announced_def image_image)

lemma enqueue_grow:
  assumes "enqueue d q db1 = Inr db'" and "policy_outbox db1 = policy_outbox db"
    and "strategies_grow db (db1\<lparr>policy_outbox := policy_outbox db1 @ [outbox_row_of d q]\<rparr>)"
    and "set (applications db) \<subseteq> set (applications db1)" and "set (outcomes db) \<subseteq> set (outcomes db1)"
    and "set (interventions db) \<subseteq> set (interventions db1)"
  shows "tables_grow db db' \<and> announced db' (eq_tenant_id q) (eq_idempotency_key q)"
  using enqueue_InrD(1) [OF assms(1)] assms(2-)
  by (auto simp: tables_grow_def announced_def outbox_row_of_def)

lemma policy_change_grow:
  assumes "policy_change env db db'"
  shows "tables_grow db db'"
  using assms
proof cases
  case (dispatch now tenant eid)
  then show ?thesis
    by (elim mark_dispatched_InrD) (simp add: tables_grow_def strategies_grow_same announced_map)
next
  case (change_status target sc tenant d now)
  show ?thesis using enqueue_grow [OF change_status(3)] by simp
next
  case (add_strategy r s d)
  show ?thesis using enqueue_grow [OF add_strategy(4), of db] by (simp add: strategies_grow_same subset_insertI)
next
  case (add_application s a r d)
  show ?thesis using enqueue_grow [OF add_application(8), of db] by (simp add: strategies_grow_same subset_insertI)
next
  case (add_outcome a oc r d delta)
  show ?thesis using enqueue_grow [OF add_outcome(7), of db] by (simp add: strategies_grow_same subset_insertI)
next
  case (add_intervention v r d)
  show ?thesis using enqueue_grow [OF add_intervention(8), of db] by (simp add: strategies_grow_same subset_insertI)
qed

lemma tables_grow_refs:
  assumes "tables_grow db db'" and "policy_refs db"
    and "\<And>a. a \<in> set (applications db') \<Longrightarrow> a \<in> set (applications db) \<or> (\<exists>s \<in> set (strategies db).
      st_strategy_id s = ap_strategy_id a \<and> st_tenant_id s = ap_tenant_id a)"
    and "\<And>oc. oc \<in> set (outcomes db') \<Longrightarrow> oc \<in> set (outcomes db) \<or> (credible oc \<and>
      (\<exists>a \<in> set (applications db). ap_application_id a = oc_application_id oc))"
  shows "policy_refs db'"
proof -
  have "\<exists>s \<in> set (strategies db'). st_strategy_id s = ap_strategy_id a \<and> st_tenant_id s = ap_tenant_id a"
    if "a \<in> set (applications db')" for a
    using assms(1,2) assms(3) [OF that] by (fastforce simp: policy_refs_def tables_grow_def strategies_grow_def)
  moreover have "credible oc \<and> (\<exists>a \<in> set (applications db'). ap_application_id a = oc_application_id oc)"
    if "oc \<in> set (outcomes db')" for oc
    using assms(1,2) assms(4) [OF that] unfolding policy_refs_def tables_grow_def by blast
  ultimately show ?thesis by (simp add: policy_refs_def)
qed

lemma policy_change_refs:
  assumes "policy_change env db db'" and "policy_refs db"
  shows "policy_refs db'"
  using assms(1)
proof cases
  case (dispatch now tenant eid)
  then show ?thesis
    using assms(2) by (elim mark_dispatched_InrD) (simp add: policy_refs_def)
next
  case (change_status target sc tenant d now)
  show ?thesis
    using enqueue_InrD(1) [OF change_status(3)]
    by (intro tables_grow_refs [OF policy_change_grow [OF assms(1)] assms(2)]) auto
next
  case (add_strategy r s d)
  show ?thesis
    using enqueue_InrD(1) [OF add_strategy(4)]
    by (intro tables_grow_refs [OF policy_change_grow [OF assms(1)] assms(2)]) auto
next
  case (add_application s a r d)
  then show ?thesis
    using enqueue_InrD(1) [OF add_application(8)]
    by (intro tables_grow_refs [OF policy_change_grow [OF assms(1)] assms(2)]) auto
next
  case (add_outcome a oc r d delta)
  then show ?thesis
    using enqueue_InrD(1) [OF add_outcome(7)]
    by (intro tables_grow_refs [OF policy_change_grow [OF assms(1)] assms(2)]) auto
next
  case (add_intervention v r d)
  show ?thesis
    using enqueue_InrD(1) [OF add_intervention(8)]
    by (intro tables_grow_refs [OF policy_change_grow [OF assms(1)] assms(2)]) auto
qed

text \<open>Credit: what a strategy owes its status to is never taken away.\<close>

lemma credited_mono:
  assumes "tables_grow db db'" and "credited_outcomes s db \<noteq> []" and "st_strategy_id s' = st_strategy_id s"
    and "st_source_task_family s' = st_source_task_family s"
  shows "credited_outcomes s' db' \<noteq> []"
  using assms unfolding credited_nonempty_iff tables_grow_def by (metis subsetD)

lemma credit_okI:
  assumes "tables_grow db db'" and "credit_ok db"
    and "\<And>s'. s' \<in> set (strategies db') \<Longrightarrow> st_status s' \<noteq> RETIRED \<and> (st_status s' = CANDIDATE \<or>
      (\<exists>s \<in> set (strategies db). st_strategy_id s' = st_strategy_id s \<and>
        st_source_task_family s' = st_source_task_family s \<and> credited_outcomes s db \<noteq> []))"
  shows "credit_ok db'"
  using assms(3) credited_mono [OF assms(1)] unfolding credit_ok_def by metis

lemma policy_change_credit:
  assumes "policy_change env db db'" and "credit_ok db"
  shows "credit_ok db'"
proof -
  note credit = credit_okI [OF policy_change_grow [OF assms(1)] assms(2)]
  have old: "st_status s \<noteq> RETIRED \<and> (st_status s = CANDIDATE \<or> credited_outcomes s db \<noteq> [])"
    if "s \<in> set (strategies db)" for s using assms(2) that by (auto simp: credit_ok_def)
  show ?thesis
    using assms(1)
  proof cases
    case (dispatch now tenant eid)
    then have "strategies db' = strategies db" by (elim mark_dispatched_InrD) simp
    then show ?thesis using old by (intro credit) auto
  next
    case (change_status target sc tenant d now)
    have "st_status s' \<noteq> RETIRED \<and> (st_status s' = CANDIDATE \<or>
        (\<exists>s \<in> set (strategies db). st_strategy_id s' = st_strategy_id s \<and>
          st_source_task_family s' = st_source_task_family s \<and> credited_outcomes s db \<noteq> []))"
      if "s' \<in> set (strategies db')" for s'
    proof -
      obtain s where s: "s \<in> set (strategies db)"
          "s' = (if st_strategy_id s = sc_strategy_id sc \<and> st_tenant_id s = tenant
             then s\<lparr>st_status := target, st_updated_at := now\<rparr> else s)"
        using \<open>s' \<in> set (strategies db')\<close> enqueue_InrD(1) [OF change_status(3)] by (auto simp: set_status_def)
      then have "st_strategy_id s' = st_strategy_id s" "st_source_task_family s' = st_source_task_family s"
        "st_status s' \<noteq> RETIRED" "st_status s' = CANDIDATE \<or> credited_outcomes s db \<noteq> []"
        using old [OF s(1)] change_status(1,2) by (auto split: if_splits)
      then show ?thesis using s(1) by blast
    qed
    then show ?thesis by (rule credit)
  next
    case (add_strategy r s d)
    then show ?thesis
      using enqueue_InrD(1) [OF add_strategy(4)] old by (intro credit) (auto simp: new_strategy_def)
  next
    case (add_application s a r d)
    show ?thesis using enqueue_InrD(1) [OF add_application(8)] old by (intro credit) auto
  next
    case (add_outcome a oc r d delta)
    show ?thesis using enqueue_InrD(1) [OF add_outcome(7)] old by (intro credit) auto
  next
    case (add_intervention v r d)
    show ?thesis using enqueue_InrD(1) [OF add_intervention(8)] old by (intro credit) auto
  qed
qed

text \<open>Every change announces what it adds.\<close>

lemma announcedI:
  assumes "tables_grow db db'" and "all_announced db" and "policy_refs db"
    and "\<And>s. s \<in> set (strategies db') \<Longrightarrow> (\<exists>s0 \<in> set (strategies db). st_strategy_id s0 = st_strategy_id s \<and>
      st_tenant_id s0 = st_tenant_id s) \<or>
      announced db' (st_tenant_id s) (''strategy:'' @ st_strategy_id s @ '':proposed'')"
    and "\<And>a. a \<in> set (applications db') \<Longrightarrow> a \<in> set (applications db) \<or>
      announced db' (ap_tenant_id a) (''application:'' @ ap_application_id a @ '':recorded'')"
    and "\<And>oc. oc \<in> set (outcomes db') \<Longrightarrow> oc \<in> set (outcomes db) \<or> (\<exists>a \<in> set (applications db).
      ap_application_id a = oc_application_id oc \<and>
      announced db' (ap_tenant_id a) (''application:'' @ oc_application_id oc @ '':outcome''))"
    and "\<And>v. v \<in> set (interventions db') \<Longrightarrow> v \<in> set (interventions db) \<or> announced db' (iv_tenant_id v)
        (''sequence:'' @ iv_run_id v @ '':'' @ iv_method_id v @ '':'' @ show_int (iv_sequence_index v) @ '':bound'')"
  shows "all_announced db'"
proof -
  have keep: "announced db' t k" if "announced db t k" for t k using assms(1) that by (simp add: tables_grow_def)
  have apps: "a \<in> set (applications db')" if "a \<in> set (applications db)" for a
    using assms(1) that by (auto simp: tables_grow_def)
  have "announced db' (st_tenant_id s) (''strategy:'' @ st_strategy_id s @ '':proposed'')"
    if "s \<in> set (strategies db')" for s
    using assms(4) [OF that] assms(2) keep unfolding all_announced_def by metis
  moreover have "announced db' (ap_tenant_id a) (''application:'' @ ap_application_id a @ '':recorded'')"
    if "a \<in> set (applications db')" for a
    using assms(5) [OF that] assms(2) keep unfolding all_announced_def by blast
  moreover have "\<exists>a \<in> set (applications db'). ap_application_id a = oc_application_id oc \<and>
        announced db' (ap_tenant_id a) (''application:'' @ oc_application_id oc @ '':outcome'')"
    if "oc \<in> set (outcomes db')" for oc
    using assms(6) [OF that] assms(2) keep apps unfolding all_announced_def by meson
  moreover have "announced db' (iv_tenant_id v)
        (''sequence:'' @ iv_run_id v @ '':'' @ iv_method_id v @ '':'' @ show_int (iv_sequence_index v) @ '':bound'')"
    if "v \<in> set (interventions db')" for v
    using assms(7) [OF that] assms(2) keep unfolding all_announced_def by blast
  ultimately show ?thesis unfolding all_announced_def by blast
qed

lemma enqueue_announced:
  assumes "enqueue d q db1 = Inr db'" and "eq_tenant_id q = t" and "eq_idempotency_key q = k"
  shows "announced db' t k"
  using enqueue_InrD(1) [OF assms(1)] assms(2,3) by (auto simp: announced_def outbox_row_of_def)

lemma policy_change_announced:
  assumes "policy_change env db db'" and "all_announced db" and "policy_refs db"
  shows "all_announced db'"
proof -
  note intro = announcedI [OF policy_change_grow [OF assms(1)] assms(2,3)]
  show ?thesis
    using assms(1)
  proof cases
    case (dispatch now tenant eid)
    then have "strategies db' = strategies db \<and> applications db' = applications db \<and> outcomes db' = outcomes db \<and>
        interventions db' = interventions db" by (elim mark_dispatched_InrD) simp
    then show ?thesis by (intro intro) auto
  next
    case (change_status target sc tenant d now)
    show ?thesis
      using enqueue_InrD(1) [OF change_status(3)] by (intro intro) (auto simp: set_status_def split: if_splits)
  next
    case (add_strategy r s d)
    have "announced db' (st_tenant_id s) (''strategy:'' @ st_strategy_id s @ '':proposed'')"
      by (rule enqueue_announced [OF add_strategy(4)])
        (use add_strategy(1) in \<open>simp_all add: proposed_event_def new_strategy_def\<close>)
    then show ?thesis using enqueue_InrD(1) [OF add_strategy(4)] by (intro intro) auto
  next
    case (add_application s a r d)
    have "announced db' (ap_tenant_id a) (''application:'' @ ap_application_id a @ '':recorded'')"
      by (rule enqueue_announced [OF add_application(8)])
        (use add_application(4) in \<open>simp_all add: applied_event_def\<close>)
    then show ?thesis using enqueue_InrD(1) [OF add_application(8)] by (intro intro) auto
  next
    case (add_outcome a oc r d delta)
    have "announced db' (ap_tenant_id a) (''application:'' @ oc_application_id oc @ '':outcome'')"
      by (rule enqueue_announced [OF add_outcome(7)])
        (use add_outcome(3,4) in \<open>simp_all add: outcome_event_def\<close>)
    then show ?thesis using enqueue_InrD(1) [OF add_outcome(7)] add_outcome(1,2) by (intro intro) auto
  next
    case (add_intervention v r d)
    have "announced db' (iv_tenant_id v)
        (''sequence:'' @ iv_run_id v @ '':'' @ iv_method_id v @ '':'' @ show_int (iv_sequence_index v) @ '':bound'')"
      by (rule enqueue_announced [OF add_intervention(8)])
        (use add_intervention(4-7) in \<open>simp_all add: bound_event_def\<close>)
    then show ?thesis using enqueue_InrD(1) [OF add_intervention(8)] by (intro intro) auto
  qed
qed

text \<open>Every event it writes has a payload the ledger accepts.\<close>

definition policy_event_keys :: "string list" where
  "policy_event_keys = [''strategy_id'', ''kind'', ''pattern_sha256'', ''source_job_id'', ''source_task_family'',
     ''application_id'', ''target_job_id'', ''target_task_family'', ''rendered_query_sha256'', ''evaluator_kind'',
     ''success'', ''false_gap_avoided'', ''valid_finding_delta'', ''calls'', ''tokens'', ''evidence_ref_sha256'',
     ''run_id'', ''method_id'', ''sequence_index'', ''challenge_id'', ''order_sha256'', ''memory_mode'',
     ''strategy_ids'', ''from_status'', ''to_status'', ''evaluations'', ''successes'', ''wilson_lower'']"

lemma policy_keys_not_sensitive: "list_all (\<lambda>k. \<not> sensitive_key k) policy_event_keys"
  by code_simp

definition plain_event :: "enqueue_request \<Rightarrow> bool" where
  "plain_event q \<longleftrightarrow> is_dict (eq_payload q) \<and> all_keys (eq_payload q) \<subseteq> set policy_event_keys \<and> eq_event_type q \<noteq> []"

lemma plain_events:
  "plain_event (proposed_event env i r)" "plain_event (applied_event env i ar)"
  "plain_event (outcome_event env a r' delta)" "plain_event (bound_event br)"
  "plain_event (transition_event env tenant sc target)"
  by (simp_all add: plain_event_def proposed_event_def applied_event_def outcome_event_def bound_event_def
      transition_event_def transition_payload_def policy_event_keys_def)

lemma enqueue_outbox_ok:
  assumes "enqueue d q db1 = Inr db'" and "plain_event q" and "policy_outbox db1 = policy_outbox db" and "outbox_ok db"
  shows "outbox_ok db'"
proof -
  have "\<not> sensitive_key k" if "k \<in> all_keys (eq_payload q)" for k
    using that assms(2) policy_keys_not_sensitive by (auto simp: plain_event_def list_all_iff)
  then have "validate_durable_payload (sort_keys (eq_payload q)) ''payload'' = Inr ()"
    using assms(2) enqueue_InrD(4) [OF assms(1)]
    by (simp add: validate_durable_payload_iff plain_event_def finite_json_sort_keys)
  then show ?thesis
    using enqueue_InrD(1) [OF assms(1)] assms(2-4) by (simp add: outbox_ok_def outbox_row_of_def plain_event_def)
qed

lemma policy_change_outbox:
  assumes "policy_change env db db'" and "outbox_ok db"
  shows "outbox_ok db'"
  using assms(1)
proof cases
  case (dispatch now tenant eid)
  then show ?thesis using assms(2) by (elim mark_dispatched_InrD) (simp add: outbox_ok_def)
next
  case (change_status target sc tenant d now)
  show ?thesis by (rule enqueue_outbox_ok [OF change_status(3) plain_events(5) _ assms(2)]) simp
next
  case (add_strategy r s d)
  show ?thesis by (rule enqueue_outbox_ok [OF add_strategy(4) plain_events(1) _ assms(2)]) simp
next
  case (add_application s a r d)
  show ?thesis by (rule enqueue_outbox_ok [OF add_application(8) plain_events(2) _ assms(2)]) simp
next
  case (add_outcome a oc r d delta)
  show ?thesis by (rule enqueue_outbox_ok [OF add_outcome(7) plain_events(3) _ assms(2)]) simp
next
  case (add_intervention v r d)
  show ?thesis by (rule enqueue_outbox_ok [OF add_intervention(8) plain_events(4) _ assms(2)]) simp
qed

lemma policy_change_inv: "policy_change env db db' \<Longrightarrow> policy_inv db \<Longrightarrow> policy_inv db'"
  unfolding policy_inv_def
  using policy_change_keys policy_change_refs policy_change_credit policy_change_announced policy_change_outbox
  by blast

lemma tables_grow_refl: "tables_grow db db"
  by (auto simp: tables_grow_def strategies_grow_def)

lemma tables_grow_trans: "tables_grow a b \<Longrightarrow> tables_grow b c \<Longrightarrow> tables_grow a c"
  unfolding tables_grow_def strategies_grow_def by (metis subset_trans)

lemma policy_changes_inv_grow: "policy_changes env db db' \<Longrightarrow> policy_inv db \<Longrightarrow> policy_inv db' \<and> tables_grow db db'"
  by (induction rule: policy_changes.induct)
    (auto intro: tables_grow_refl tables_grow_trans policy_change_inv dest: policy_change_grow)

lemma exec_policy_op_inv_grow:
  "exec_policy_op env op db = Inr (u, db') \<Longrightarrow> policy_inv db \<Longrightarrow> policy_inv db' \<and> tables_grow db db'"
  using exec_policy_op_changes [of env op db u db'] policy_changes_inv_grow [of env db db']
  by (auto simp: policy_inv_def policy_keys_def)

interpretation policy_machine: progress_machine "policy_step env" policy_inv tables_grow for env
proof
  show "policy_inv (snd (policy_step env op db))" if "policy_inv db" for db op
    unfolding policy_step_def
    by (rule transact_cases) (use that exec_policy_op_inv_grow in blast)+
  show "tables_grow db (snd (policy_step env op db))" if "policy_inv db" for db op
    unfolding policy_step_def
    by (rule transact_cases) (use that exec_policy_op_inv_grow tables_grow_refl in blast)+
qed (auto intro: tables_grow_refl tables_grow_trans)

end
