(* ===== verification/Outbox_Bridge.thy ===== *)
theory Outbox_Bridge
  imports Policy_Laws Ledger
begin

text \<open>
  The effect of a status refresh, and the bridge from the policy outbox to the event ledger
  (\<open>src/learning/audit.py\<close>): \<open>flush\<close> appends every pending event under its idempotency key and
  marks it dispatched.  The store and the ledger are separate files: a process can stop between
  the append and the mark, and several processes flush at the same time.

  \<open>audit_step\<close> is that system; \<open>audit_inv\<close> is its invariant: the ledger holds each dispatched
  event, every event it holds is that of an outbox row, and no row has two.
\<close>

section \<open>What a refresh leaves\<close>

lemma target_status_cong:
  "sc_evaluations sc = sc_evaluations sc' \<Longrightarrow> sc_wilson_lower sc = sc_wilson_lower sc' \<Longrightarrow>
   target_status th sc = target_status th sc'"
  by (simp add: target_status_def)

lemma score_of_cong:
  assumes "credited_outcomes s db = credited_outcomes s' db'"
  shows "target_status th (score_of db s) = target_status th (score_of db' s')"
  by (rule target_status_cong) (simp_all add: score_of_def Let_def assms)

text \<open>The status a score calls for.\<close>

definition called_status :: "thresholds \<Rightarrow> strategy_score \<Rightarrow> strategy_status" where
  "called_status th sc = (if sc_status sc = RETIRED then RETIRED else target_status th sc)"

definition scored :: "string \<Rightarrow> thresholds \<Rightarrow> strategy_score list \<Rightarrow> strategy \<Rightarrow> strategy_status" where
  "scored tenant th scs s = (case (if st_tenant_id s = tenant then row_by sc_strategy_id (st_strategy_id s) scs else None) of
     None \<Rightarrow> st_status s | Some sc \<Rightarrow> called_status th sc)"

definition rescored :: "string \<Rightarrow> thresholds \<Rightarrow> strategy_score list \<Rightarrow> strategy \<Rightarrow> strategy \<Rightarrow> bool" where
  "rescored tenant th scs s s' \<longleftrightarrow> st_strategy_id s' = st_strategy_id s \<and> st_tenant_id s' = st_tenant_id s \<and>
     st_source_task_family s' = st_source_task_family s \<and> st_status s' = scored tenant th scs s"

lemma refresh_scores_result:
  "refresh_scores env d k tenant th scs db = Inr db' \<Longrightarrow> distinct (map sc_strategy_id scs) \<Longrightarrow>
   (\<And>s sc. s \<in> set (strategies db) \<Longrightarrow> st_tenant_id s = tenant \<Longrightarrow> sc \<in> set scs \<Longrightarrow>
      sc_strategy_id sc = st_strategy_id s \<Longrightarrow> sc_status sc = st_status s) \<Longrightarrow>
   applications db' = applications db \<and> outcomes db' = outcomes db \<and>
   list_all2 (rescored tenant th scs) (strategies db) (strategies db')"
proof (induction scs arbitrary: k db)
  case Nil
  then show ?case by (simp add: rescored_def scored_def list_all2_same)
next
  case (Cons sc scs)
  let ?t = "target_status th sc"
  have later: "row_by sc_strategy_id (sc_strategy_id sc) scs = None"
    using Cons.prems(2) by (auto simp: row_by_None_iff)
  show ?case
  proof (cases "sc_status sc = RETIRED \<or> ?t = sc_status sc")
    case True
    have same: "scored tenant th scs s = scored tenant th (sc # scs) s" if "s \<in> set (strategies db)" for s
      using True later Cons.prems(3) [OF that, of sc]
      by (auto simp: scored_def row_by_Cons called_status_def)
    have "applications db' = applications db \<and> outcomes db' = outcomes db \<and>
       list_all2 (rescored tenant th scs) (strategies db) (strategies db')"
      using True Cons.prems by (intro Cons.IH) (auto simp: Let_def)
    then show ?thesis using same by (auto elim!: list.rel_mono_strong simp: rescored_def)
  next
    case False
    then obtain db1 where db1: "enqueue (pd_events d k) (transition_event env tenant sc ?t)
          (set_status tenant (sc_strategy_id sc) ?t (pd_now d) db) = Inr db1"
        "refresh_scores env d (Suc k) tenant th scs db1 = Inr db'"
      using Cons.prems(1) by (auto simp: Let_def)
    define f where "f s = (if st_strategy_id s = sc_strategy_id sc \<and> st_tenant_id s = tenant
      then s\<lparr>st_status := ?t, st_updated_at := pd_now d\<rparr> else s)" for s :: strategy
    have st1: "strategies db1 = map f (strategies db)" "applications db1 = applications db" "outcomes db1 = outcomes db"
      using enqueue_InrD(1) [OF db1(1)] by (simp_all add: set_status_def f_def)
    have f: "st_strategy_id (f s) = st_strategy_id s" "st_tenant_id (f s) = st_tenant_id s"
      "st_source_task_family (f s) = st_source_task_family s" for s by (simp_all add: f_def)
    have notin: "sc_strategy_id sc' \<noteq> sc_strategy_id sc" if "sc' \<in> set scs" for sc'
      using Cons.prems(2) that by (metis distinct.simps(2) image_eqI list.simps(9) set_map)
    have IH: "applications db' = applications db1 \<and> outcomes db' = outcomes db1 \<and>
       list_all2 (rescored tenant th scs) (strategies db1) (strategies db')"
    proof (rule Cons.IH [OF db1(2)])
      show "distinct (map sc_strategy_id scs)" using Cons.prems(2) by simp
      show "sc_status sc' = st_status s" if s: "s \<in> set (strategies db1)" "st_tenant_id s = tenant" "sc' \<in> set scs"
        "sc_strategy_id sc' = st_strategy_id s" for s sc'
      proof -
        obtain s0 where s0: "s0 \<in> set (strategies db)" "s = f s0" using s(1) st1(1) by auto
        then have "s = s0" using s(4) notin [OF s(3)] f by (auto simp: f_def split: if_splits)
        then show ?thesis using Cons.prems(3) [OF s0(1), of sc'] s by simp
      qed
    qed
    have "scored tenant th scs (f s) = scored tenant th (sc # scs) s" for s
      using False later by (auto simp: f_def scored_def row_by_Cons called_status_def)
    then have "rescored tenant th scs (f s) s' = rescored tenant th (sc # scs) s s'" for s s'
      by (simp add: rescored_def f)
    then show ?thesis using IH by (simp add: st1 list_all2_map1)
  qed
qed

lemma score_rows_ids:
  "map sc_strategy_id (score_rows tenant db) = map st_strategy_id (sort_key st_strategy_id
     (filter (\<lambda>s. st_tenant_id s = tenant) (strategies db)))"
  by (simp add: score_rows_def score_of_def Let_def o_def)

lemma score_rows_member:
  assumes "distinct (map st_strategy_id (strategies db))" and "s \<in> set (strategies db)" and "st_tenant_id s = tenant"
  shows "row_by sc_strategy_id (st_strategy_id s) (score_rows tenant db) = Some (score_of db s)"
proof -
  have "distinct (map st_strategy_id (filter (\<lambda>s. st_tenant_id s = tenant) (strategies db)))"
    using assms(1) by (rule distinct_map_filter)
  then have "distinct (map sc_strategy_id (score_rows tenant db))"
    unfolding score_rows_ids by (simp add: distinct_map)
  moreover have "score_of db s \<in> set (score_rows tenant db)" using assms by (simp add: score_rows_def)
  ultimately show ?thesis
    using row_by_distinct [of sc_strategy_id "score_rows tenant db" "score_of db s"]
    by (simp add: score_of_def Let_def)
qed

lemma list_all2_right: "list_all2 P xs ys \<Longrightarrow> y \<in> set ys \<Longrightarrow> \<exists>x \<in> set xs. P x y"
  by (induction rule: list_all2_induct) auto

lemma refresh_result:
  assumes "refresh_statuses env d tenant th db = Inr (scs, db')" and "policy_keys db"
    and "s' \<in> set (strategies db')" and "st_tenant_id s' = tenant"
  shows "st_status s' = RETIRED \<or> st_status s' = target_status th (score_of db' s')"
proof -
  have d: "distinct (map st_strategy_id (strategies db))" using assms(2) by (simp add: policy_keys_def)
  have r: "refresh_scores env d 0 tenant th (score_rows tenant db) db = Inr db'"
    using assms(1) by (auto simp: refresh_statuses_def split: if_splits)
  have ids: "distinct (map sc_strategy_id (score_rows tenant db))"
    unfolding score_rows_ids using distinct_map_filter [OF d] by (simp add: distinct_map)
  have fits: "sc_status sc = st_status s" if "s \<in> set (strategies db)" "st_tenant_id s = tenant"
      "sc \<in> set (score_rows tenant db)" "sc_strategy_id sc = st_strategy_id s" for s sc
  proof -
    have "sc = score_of db s"
      using score_rows_member [OF d that(1,2)] row_by_distinct [OF ids that(3)] that(4) by simp
    then show ?thesis by (simp add: score_of_def Let_def)
  qed
  note res = refresh_scores_result [OF r ids fits]
  obtain s where s: "s \<in> set (strategies db)" "st_strategy_id s' = st_strategy_id s" "st_tenant_id s' = st_tenant_id s"
      "st_source_task_family s' = st_source_task_family s"
      "st_status s' = scored tenant th (score_rows tenant db) s"
    using list_all2_right [OF res [THEN conjunct2, THEN conjunct2] assms(3)]
    unfolding rescored_def by blast
  have "credited_outcomes s' db' = credited_outcomes s db"
    using res s(2,4) by (intro credited_outcomes_cong) blast+
  then have "target_status th (score_of db' s') = target_status th (score_of db s)" by (rule score_of_cong)
  then show ?thesis
    using s(5) score_rows_member [OF d s(1)] s(3) assms(4) by (auto simp: scored_def called_status_def)
qed

text \<open>A transition that was announced before cannot be announced again.\<close>

lemma transition_payload_finite: "finite_json (eq_payload (transition_event env tenant sc target))"
  by (simp add: transition_event_def transition_payload_def)

lemma refresh_scores_repeats:
  "sc \<in> set scs \<Longrightarrow> sc_status sc \<noteq> RETIRED \<Longrightarrow> target_status th sc \<noteq> sc_status sc \<Longrightarrow>
   announced db tenant (eq_idempotency_key (transition_event env tenant sc (target_status th sc))) \<Longrightarrow>
   \<exists>m. refresh_scores env d k tenant th scs db = Inl (SqlIntegrityError m)"
proof (induction scs arbitrary: k db)
  case (Cons x scs)
  let ?q = "transition_event env tenant x (target_status th x)"
  let ?db = "set_status tenant (sc_strategy_id x) (target_status th x) (pd_now d) db"
  show ?case
  proof (cases "sc_status x = RETIRED \<or> target_status th x = sc_status x")
    case True
    then have "sc \<in> set scs" using Cons.prems by auto
    then show ?thesis using Cons.IH [OF _ Cons.prems(2-4)] True by (simp add: Let_def)
  next
    case False
    show ?thesis
    proof (cases "enqueue (pd_events d k) ?q ?db")
      case (Inl e)
      then show ?thesis using False enqueue_InlD [OF Inl transition_payload_finite] by (auto simp: Let_def)
    next
      case (Inr db1)
      have "eq_tenant_id ?q = tenant" by (simp add: transition_event_def)
      then have "sc \<noteq> x" using enqueue_InrD(3) [OF Inr] Cons.prems(4) by (auto simp: announced_def)
      moreover have "announced db1 tenant (eq_idempotency_key (transition_event env tenant sc (target_status th sc)))"
        using enqueue_InrD(1) [OF Inr] Cons.prems(4) by (simp add: announced_def)
      ultimately show ?thesis using Cons.IH [OF _ Cons.prems(2,3)] Cons.prems(1) False Inr by (auto simp: Let_def)
    qed
  qed
qed simp

section \<open>The flush\<close>

definition dispatch_request :: "string \<Rightarrow> string \<Rightarrow> outbox_row \<Rightarrow> append_request" where
  "dispatch_request job tenant r = \<lparr>req_tenant_id = tenant, req_job_id = job,
     req_aggregate_type = ob_aggregate_type r, req_aggregate_id = ob_aggregate_id r,
     req_event_type = ob_event_type r, req_payload = ob_payload r,
     req_idempotency_key = ob_idempotency_key r, req_event_id = None, req_occurred_at = None,
     req_expected_head = None\<rparr>"

text \<open>The store, the ledger and the number of events dispatched so far.\<close>

type_synonym flush_state = "policy_db \<times> raw_line list \<times> nat"

fun flush_batch ::
  "py_env \<Rightarrow> string \<Rightarrow> string \<Rightarrow> (nat \<Rightarrow> draw) \<Rightarrow> (nat \<Rightarrow> time) \<Rightarrow> outbox_row list \<Rightarrow> flush_state \<Rightarrow>
   unit result \<times> flush_state" where
  "flush_batch env job tenant ds clock [] s = (Inr (), s)"
| "flush_batch env job tenant ds clock (e # es) (db, ls, n) =
     (case ledger_append env (ds n) (dispatch_request job tenant e) ls of
       Inl x \<Rightarrow> (Inl x, (db, ls, n))
     | Inr (ev, ls') \<Rightarrow> (case mark_dispatched (clock n) tenant (ob_event_id e) db of
         Inl x \<Rightarrow> (Inl x, (db, ls', n))
       | Inr (u, db') \<Rightarrow> flush_batch env job tenant ds clock es (db', ls', Suc n)))"

text \<open>The loop, with fuel; \<open>None\<close> means the fuel ran out.\<close>

primrec flush_loop ::
  "py_env \<Rightarrow> string \<Rightarrow> string \<Rightarrow> (nat \<Rightarrow> draw) \<Rightarrow> (nat \<Rightarrow> time) \<Rightarrow> int \<Rightarrow> nat \<Rightarrow> flush_state \<Rightarrow>
   (unit result \<times> flush_state) option" where
  "flush_loop env job tenant ds clock batch 0 s = None"
| "flush_loop env job tenant ds clock batch (Suc fuel) s =
     (let pending = pending_events tenant batch (fst s) in
      if pending = [] then Some (Inr (), s)
      else (case flush_batch env job tenant ds clock pending s of
        (Inl x, s') \<Rightarrow> Some (Inl x, s')
      | (Inr u, s') \<Rightarrow>
          if int (length pending) < batch then Some (Inr (), s')
          else flush_loop env job tenant ds clock batch fuel s'))"

record flush_report =
  fl_dispatched :: nat
  fl_ledger_events :: nat
  fl_ledger_head :: string

definition undispatched :: "string \<Rightarrow> policy_db \<Rightarrow> nat" where
  "undispatched tenant db = length (filter (\<lambda>r. ob_tenant_id r = tenant \<and> ob_dispatched_at r = None) (policy_outbox db))"

definition flush ::
  "py_env \<Rightarrow> string \<Rightarrow> string \<Rightarrow> (nat \<Rightarrow> draw) \<Rightarrow> (nat \<Rightarrow> time) \<Rightarrow> int \<Rightarrow> policy_db \<Rightarrow> raw_line list \<Rightarrow>
   (flush_report result \<times> policy_db \<times> raw_line list) option" where
  "flush env job tenant ds clock batch db ls =
     (if blank job then Some (Inl (ValueError ''audit_job_id is required''), db, ls)
      else if blank tenant \<or> batch < 1
      then Some (Inl (ValueError ''tenant_id and positive batch_size are required''), db, ls)
      else (case flush_loop env job tenant ds clock batch (Suc (undispatched tenant db)) (db, ls, 0) of
        None \<Rightarrow> None
      | Some (Inl x, (db', ls', n)) \<Rightarrow> Some (Inl x, db', ls')
      | Some (Inr u, (db', ls', n)) \<Rightarrow> (case ledger_verify env ls' of
          Inl x \<Rightarrow> Some (Inl x, db', ls')
        | Inr receipt \<Rightarrow>
            if \<not> report_ok receipt
            then Some (Inl (LedgerIntegrityError (''invalid policy audit ledger: '' @ report_error receipt)), db', ls')
            else Some (Inr \<lparr>fl_dispatched = n, fl_ledger_events = report_event_count receipt,
                   fl_ledger_head = report_head_hash receipt\<rparr>, db', ls'))))"

subsection \<open>The fuel is enough\<close>

lemma length_filter_map_less:
  assumes "x \<in> set xs" and "P x" and "\<not> P (f x)" and "\<And>y. P (f y) \<Longrightarrow> P y"
  shows "length (filter P (map f xs)) < length (filter P xs)"
proof -
  have le: "length (filter P (map f ys)) \<le> length (filter P ys)" for ys
    by (induction ys) (use assms(4) in auto)
  obtain as bs where "xs = as @ x # bs" using assms(1) by (auto dest: split_list)
  then show ?thesis using le [of as] le [of bs] assms(2,3) by simp
qed

definition is_pending_row :: "string \<Rightarrow> outbox_row \<Rightarrow> bool" where
  "is_pending_row tenant r \<longleftrightarrow> ob_tenant_id r = tenant \<and> ob_dispatched_at r = None"

lemma mark_undispatched:
  assumes "mark_dispatched now tenant eid db = Inr (u, db')"
  shows "undispatched tenant db' \<le> undispatched tenant db"
    and "r \<in> set (policy_outbox db) \<Longrightarrow> is_pending_row tenant r \<Longrightarrow> ob_event_id r = eid \<Longrightarrow>
      undispatched tenant db' < undispatched tenant db"
proof -
  let ?f = "\<lambda>r. if ob_tenant_id r = tenant \<and> ob_event_id r = eid
        then r\<lparr>ob_dispatched_at := Some (case ob_dispatched_at r of None \<Rightarrow> now | Some t \<Rightarrow> t)\<rparr> else r"
  let ?P = "\<lambda>r. ob_tenant_id r = tenant \<and> ob_dispatched_at r = None"
  have db': "policy_outbox db' = map ?f (policy_outbox db)"
    using assms by (auto simp: mark_dispatched_def split: if_splits)
  have keep: "?P (?f y) \<Longrightarrow> ?P y" for y by (auto split: if_splits)
  have "length (filter ?P (map ?f ys)) \<le> length (filter ?P ys)" for ys
    by (induction ys) (auto split: if_splits)
  then show "undispatched tenant db' \<le> undispatched tenant db" by (simp add: undispatched_def db')
  show "undispatched tenant db' < undispatched tenant db"
    if "r \<in> set (policy_outbox db)" "is_pending_row tenant r" "ob_event_id r = eid"
    unfolding undispatched_def db'
    by (rule length_filter_map_less [OF that(1), of ?P ?f]) (use that keep in \<open>auto simp: is_pending_row_def split: if_splits\<close>)
qed

lemma flush_batch_undispatched:
  "flush_batch env job tenant ds clock es (db, ls, n) = (r, (db', ls', n')) \<Longrightarrow>
   undispatched tenant db' \<le> undispatched tenant db"
proof (induction es arbitrary: db ls n)
  case (Cons e es)
  then show ?case
    by (auto split: sum.splits) (metis mark_undispatched(1) order_trans)
qed simp

lemma flush_batch_progress:
  assumes "flush_batch env job tenant ds clock (e # es) (db, ls, n) = (Inr u, (db', ls', n'))"
    and "e \<in> set (policy_outbox db)" and "is_pending_row tenant e"
  shows "undispatched tenant db' < undispatched tenant db"
proof -
  obtain ls1 db1 where "mark_dispatched (clock n) tenant (ob_event_id e) db = Inr ((), db1)"
      "flush_batch env job tenant ds clock es (db1, ls1, Suc n) = (Inr u, (db', ls', n'))"
    using assms(1) by (auto split: sum.splits)
  then show ?thesis
    using mark_undispatched(2) [OF _ assms(2,3)] flush_batch_undispatched by (metis le_less_trans)
qed

lemma pending_events_member:
  assumes "e \<in> set (pending_events tenant limit db)"
  shows "e \<in> set (policy_outbox db)" and "is_pending_row tenant e"
  using assms set_take_subset
  by (auto simp: pending_events_def take_limit_def is_pending_row_def split: if_splits dest!: in_set_takeD)

lemma flush_loop_ends:
  "undispatched tenant db < fuel \<Longrightarrow> flush_loop env job tenant ds clock batch fuel (db, ls, n) \<noteq> None"
proof (induction fuel arbitrary: db ls n)
  case (Suc fuel)
  show ?case
  proof (cases "pending_events tenant batch db")
    case (Cons e es)
    obtain r db' ls' n' where b: "flush_batch env job tenant ds clock (e # es) (db, ls, n) = (r, (db', ls', n'))"
      by (metis prod.collapse)
    show ?thesis
    proof (cases r)
      case (Inr u)
      have "undispatched tenant db' < undispatched tenant db"
        using flush_batch_progress [OF b [unfolded Inr]] pending_events_member [of e tenant batch db] Cons by simp
      then show ?thesis using Suc Cons b Inr by (simp add: Let_def)
    qed (use Cons b in \<open>simp add: Let_def\<close>)
  qed (simp add: Let_def)
qed simp

lemma flush_returns: "flush env job tenant ds clock batch db ls \<noteq> None"
  using flush_loop_ends [of tenant db "Suc (undispatched tenant db)" env job ds clock batch ls 0]
  by (auto simp: flush_def split: option.splits sum.splits prod.splits)

section \<open>Flushers that stop anywhere\<close>

text \<open>
  A flusher holds the rest of the batch it read and whether it has appended, but not yet
  marked, the first of it.
\<close>

record audit_state =
  au_db :: policy_db
  au_lines :: "raw_line list"
  au_flushers :: "(outbox_row list \<times> bool) list"

text \<open>What other users of the store do: everything but acknowledging events.\<close>

fun not_mark :: "policy_op \<Rightarrow> bool" where
  "not_mark (MarkDispatched now tenant eid) = False"
| "not_mark op = True"

inductive audit_step :: "py_env \<Rightarrow> string \<Rightarrow> string \<Rightarrow> audit_state \<Rightarrow> audit_state \<Rightarrow> bool" for env job tenant where
  mutate: "not_mark op \<Longrightarrow> audit_step env job tenant s (s\<lparr>au_db := snd (policy_step env op (au_db s))\<rparr>)"
| read_batch: "audit_step env job tenant s
    (s\<lparr>au_flushers := au_flushers s @ [(pending_events tenant limit (au_db s), False)]\<rparr>)"
| append_event: "i < length (au_flushers s) \<Longrightarrow> au_flushers s ! i = (e # es, False) \<Longrightarrow>
    id_unused env (d, dispatch_request job tenant e) (au_lines s) \<Longrightarrow>
    ledger_append env d (dispatch_request job tenant e) (au_lines s) = Inr (ev, ls) \<Longrightarrow>
    audit_step env job tenant s (s\<lparr>au_lines := ls, au_flushers := (au_flushers s)[i := (e # es, True)]\<rparr>)"
| mark_event: "i < length (au_flushers s) \<Longrightarrow> au_flushers s ! i = (e # es, True) \<Longrightarrow>
    mark_dispatched now tenant (ob_event_id e) (au_db s) = Inr ((), db) \<Longrightarrow>
    audit_step env job tenant s (s\<lparr>au_db := db, au_flushers := (au_flushers s)[i := (es, False)]\<rparr>)"
| crash: "audit_step env job tenant s (s\<lparr>au_flushers := (au_flushers s)[i := ([], False)]\<rparr>)"

inductive audit_run :: "py_env \<Rightarrow> string \<Rightarrow> string \<Rightarrow> audit_state \<Rightarrow> audit_state \<Rightarrow> bool" for env job tenant where
  audit_stop: "audit_run env job tenant s s"
| audit_more: "audit_run env job tenant s s' \<Longrightarrow> audit_step env job tenant s' s'' \<Longrightarrow> audit_run env job tenant s s''"

definition audit_start :: "policy_db \<Rightarrow> audit_state" where
  "audit_start db = \<lparr>au_db = db, au_lines = [], au_flushers = []\<rparr>"

text \<open>What of a row never changes.\<close>

definition row_content :: "outbox_row \<Rightarrow> outbox_row" where
  "row_content r = r\<lparr>ob_dispatched_at := None\<rparr>"

definition contents :: "policy_db \<Rightarrow> outbox_row set" where
  "contents db = row_content ` set (policy_outbox db)"

definition row_meaning :: "string \<Rightarrow> string \<Rightarrow> outbox_row \<Rightarrow> string result" where
  "row_meaning job tenant r = request_fingerprint (dispatch_request job tenant r)"

lemma row_content_simps [simp]:
  "ob_event_id (row_content r) = ob_event_id r" "ob_tenant_id (row_content r) = ob_tenant_id r"
  "ob_idempotency_key (row_content r) = ob_idempotency_key r"
  "dispatch_request job tenant (row_content r) = dispatch_request job tenant r"
  "row_meaning job tenant (row_content r) = row_meaning job tenant r"
  by (simp_all add: row_content_def dispatch_request_def row_meaning_def)

text \<open>The event of row \<open>r\<close> is in the ledger.\<close>

definition in_ledger :: "py_env \<Rightarrow> string \<Rightarrow> string \<Rightarrow> raw_line list \<Rightarrow> outbox_row \<Rightarrow> bool" where
  "in_ledger env job tenant ls r \<longleftrightarrow> ledger_stored env ls (ob_idempotency_key r) = Some (row_meaning job tenant r)"

lemma in_ledger_content [simp]: "in_ledger env job tenant ls (row_content r) = in_ledger env job tenant ls r"
  by (simp add: in_ledger_def)

definition audit_inv :: "py_env \<Rightarrow> string \<Rightarrow> string \<Rightarrow> audit_state \<Rightarrow> bool" where
  "audit_inv env job tenant s \<longleftrightarrow> policy_inv (au_db s) \<and> ledger_ok env (au_lines s) \<and>
     (\<forall>f \<in> set (au_flushers s). (\<forall>e \<in> set (fst f). ob_tenant_id e = tenant \<and> row_content e \<in> contents (au_db s)) \<and>
        (snd f \<longrightarrow> fst f \<noteq> [] \<and> in_ledger env job tenant (au_lines s) (hd (fst f)))) \<and>
     (\<forall>r \<in> set (policy_outbox (au_db s)). ob_tenant_id r = tenant \<longrightarrow> ob_dispatched_at r \<noteq> None \<longrightarrow>
        in_ledger env job tenant (au_lines s) r) \<and>
     (\<forall>k m. ledger_stored env (au_lines s) k = Some m \<longrightarrow>
        (\<exists>r \<in> set (policy_outbox (au_db s)). ob_tenant_id r = tenant \<and> ob_idempotency_key r = k \<and>
           m = row_meaning job tenant r))"

subsection \<open>What the store's other operations do to the outbox\<close>

definition outbox_extends :: "policy_db \<Rightarrow> policy_db \<Rightarrow> bool" where
  "outbox_extends db db' \<longleftrightarrow> (\<exists>rows. policy_outbox db' = policy_outbox db @ rows \<and> (\<forall>r \<in> set rows. ob_dispatched_at r = None))"

lemma outbox_extends_refl: "outbox_extends db db"
  by (simp add: outbox_extends_def)

lemma outbox_extends_trans: "outbox_extends a b \<Longrightarrow> outbox_extends b c \<Longrightarrow> outbox_extends a c"
  by (force simp: outbox_extends_def)

lemma enqueue_extends: "enqueue d q db1 = Inr db' \<Longrightarrow> policy_outbox db1 = policy_outbox db \<Longrightarrow> outbox_extends db db'"
  using enqueue_InrD(1) [of d q db1 db'] by (simp add: outbox_extends_def outbox_row_of_def)

lemma refresh_scores_extends: "refresh_scores env d k tenant th scs db = Inr db' \<Longrightarrow> outbox_extends db db'"
proof (induction scs arbitrary: k db)
  case (Cons sc scs)
  then show ?case
    by (auto simp: Let_def split: if_splits intro: outbox_extends_trans [OF enqueue_extends])
qed (simp add: outbox_extends_refl)

lemma exec_policy_op_extends:
  assumes "exec_policy_op env op db = Inr (u, db')" and "not_mark op"
  shows "outbox_extends db db'"
proof (cases op)
  case (Propose d r)
  then show ?thesis
    using assms by (auto simp: drop_value_def propose_strategy_def Let_def outbox_extends_refl
        split: if_splits option.splits intro: enqueue_extends)
next
  case (RecordApplication d r)
  then show ?thesis
    using assms by (auto simp: drop_value_def record_application_def Let_def outbox_extends_refl
        split: if_splits option.splits intro: enqueue_extends)
next
  case (RecordOutcome d r)
  then show ?thesis
    using assms by (auto simp: drop_value_def record_outcome_def outbox_extends_refl
        split: if_splits option.splits py_float.splits intro: enqueue_extends)
next
  case (Refresh d t th)
  then show ?thesis
    using assms by (auto simp: drop_value_def refresh_statuses_def split: if_splits intro: refresh_scores_extends)
next
  case (BindIntervention d r)
  then show ?thesis
    using assms by (auto simp: drop_value_def bind_sequence_intervention_def outbox_extends_refl
        split: if_splits option.splits intro: enqueue_extends)
qed (use assms in simp)

lemma policy_step_extends: "not_mark op \<Longrightarrow> outbox_extends db (snd (policy_step env op db))"
  unfolding policy_step_def
  by (rule transact_cases) (auto intro: outbox_extends_refl exec_policy_op_extends)

subsection \<open>The invariant of the system\<close>

lemma audit_invI:
  assumes "policy_inv (au_db s)" and "ledger_ok env (au_lines s)"
    and "\<And>es b e. (es, b) \<in> set (au_flushers s) \<Longrightarrow> e \<in> set es \<Longrightarrow>
      ob_tenant_id e = tenant \<and> row_content e \<in> contents (au_db s)"
    and "\<And>es. (es, True) \<in> set (au_flushers s) \<Longrightarrow> es \<noteq> [] \<and> in_ledger env job tenant (au_lines s) (hd es)"
    and "\<And>r. r \<in> set (policy_outbox (au_db s)) \<Longrightarrow> ob_tenant_id r = tenant \<Longrightarrow> ob_dispatched_at r \<noteq> None \<Longrightarrow>
      in_ledger env job tenant (au_lines s) r"
    and "\<And>k m. ledger_stored env (au_lines s) k = Some m \<Longrightarrow>
      \<exists>r \<in> set (policy_outbox (au_db s)). ob_tenant_id r = tenant \<and> ob_idempotency_key r = k \<and> m = row_meaning job tenant r"
  shows "audit_inv env job tenant s"
  using assms unfolding audit_inv_def by fastforce

lemma audit_invD:
  assumes "audit_inv env job tenant s"
  shows "policy_inv (au_db s)" and "ledger_ok env (au_lines s)"
    and "(es, b) \<in> set (au_flushers s) \<Longrightarrow> e \<in> set es \<Longrightarrow> ob_tenant_id e = tenant \<and> row_content e \<in> contents (au_db s)"
    and "(es, True) \<in> set (au_flushers s) \<Longrightarrow> es \<noteq> [] \<and> in_ledger env job tenant (au_lines s) (hd es)"
    and "r \<in> set (policy_outbox (au_db s)) \<Longrightarrow> ob_tenant_id r = tenant \<Longrightarrow> ob_dispatched_at r \<noteq> None \<Longrightarrow>
      in_ledger env job tenant (au_lines s) r"
    and "ledger_stored env (au_lines s) k = Some m \<Longrightarrow>
      \<exists>r \<in> set (policy_outbox (au_db s)). ob_tenant_id r = tenant \<and> ob_idempotency_key r = k \<and> m = row_meaning job tenant r"
  using assms unfolding audit_inv_def by fastforce+

lemma set_list_update_cases:
  "x \<in> set (xs[i := y]) \<Longrightarrow> x = y \<or> x \<in> set xs"
  by (metis insert_iff set_update_subset_insert subsetD)

lemma audit_inv_mutate:
  assumes inv: "audit_inv env job tenant s" and "not_mark op"
  shows "audit_inv env job tenant (s\<lparr>au_db := snd (policy_step env op (au_db s))\<rparr>)"
proof -
  let ?db = "snd (policy_step env op (au_db s))"
  obtain rows where rows: "policy_outbox ?db = policy_outbox (au_db s) @ rows" "\<forall>r \<in> set rows. ob_dispatched_at r = None"
    using policy_step_extends [OF assms(2), of "au_db s" env] unfolding outbox_extends_def by blast
  show ?thesis
  proof (rule audit_invI; simp)
    show "policy_inv ?db" by (rule policy_machine.step_inv [OF audit_invD(1) [OF inv]])
    show "ledger_ok env (au_lines s)" by (rule audit_invD(2) [OF inv])
    show "ob_tenant_id e = tenant \<and> row_content e \<in> contents ?db" if "(es, b) \<in> set (au_flushers s)" "e \<in> set es" for es b e
      using audit_invD(3) [OF inv that] rows(1) by (auto simp: contents_def)
    show "es \<noteq> [] \<and> in_ledger env job tenant (au_lines s) (hd es)" if "(es, True) \<in> set (au_flushers s)" for es
      by (rule audit_invD(4) [OF inv that])
    show "in_ledger env job tenant (au_lines s) r"
      if "r \<in> set (policy_outbox ?db)" "ob_tenant_id r = tenant" "\<exists>t. ob_dispatched_at r = Some t" for r
      using audit_invD(5) [OF inv _ that(2)] that rows by auto
    show "\<exists>r \<in> set (policy_outbox ?db). ob_tenant_id r = tenant \<and> ob_idempotency_key r = k \<and> m = row_meaning job tenant r"
      if "ledger_stored env (au_lines s) k = Some m" for k m
      using audit_invD(6) [OF inv that] rows(1) by auto
  qed
qed

lemma audit_inv_read:
  assumes inv: "audit_inv env job tenant s"
  shows "audit_inv env job tenant (s\<lparr>au_flushers := au_flushers s @ [(pending_events tenant limit (au_db s), False)]\<rparr>)"
proof (rule audit_invI; simp)
  show "ob_tenant_id e = tenant \<and> row_content e \<in> contents (au_db s)"
    if "es = pending_events tenant limit (au_db s) \<and> \<not> b \<or> (es, b) \<in> set (au_flushers s)" "e \<in> set es" for es b e
    using that(1)
  proof
    assume "es = pending_events tenant limit (au_db s) \<and> \<not> b"
    then show ?thesis
      using pending_events_member [of e tenant limit "au_db s"] that(2) by (auto simp: contents_def is_pending_row_def)
  qed (rule audit_invD(3) [OF inv _ that(2)])
qed (use audit_invD [OF inv] in blast)+

lemma audit_inv_append:
  assumes inv: "audit_inv env job tenant s" and f: "i < length (au_flushers s)" "au_flushers s ! i = (e # es, False)"
    and fresh: "id_unused env (d, dispatch_request job tenant e) (au_lines s)"
    and ap: "ledger_append env d (dispatch_request job tenant e) (au_lines s) = Inr (ev, ls)"
  shows "audit_inv env job tenant (s\<lparr>au_lines := ls, au_flushers := (au_flushers s)[i := (e # es, True)]\<rparr>)"
proof -
  let ?q = "(d, dispatch_request job tenant e)"
  have ex: "ledger_exec env ?q (au_lines s) = Inr (ev, ls)" using ap by (simp add: ledger_exec_def)
  note ok = audit_invD(2) [OF inv]
  have st: "ledger_stored env ls = (ledger_stored env (au_lines s))(ob_idempotency_key e \<mapsto> row_meaning job tenant e)"
    using ledger_store.exec_stored [OF ok fresh ex] by (simp add: row_meaning_def dispatch_request_def)
  have keep: "in_ledger env job tenant ls r" if "in_ledger env job tenant (au_lines s) r" for r
    using ledger_store.exec_keeps [OF ok fresh ex] that by (simp add: in_ledger_def)
  have in_e: "in_ledger env job tenant ls e" by (simp add: in_ledger_def st)
  have mem: "(e # es, False) \<in> set (au_flushers s)" using f nth_mem by metis
  have e: "ob_tenant_id e = tenant \<and> row_content e \<in> contents (au_db s)" using audit_invD(3) [OF inv mem] by simp
  then obtain r where r: "r \<in> set (policy_outbox (au_db s))" "row_content r = row_content e" by (auto simp: contents_def)
  have re: "ob_tenant_id r = tenant" "ob_idempotency_key r = ob_idempotency_key e"
      "row_meaning job tenant r = row_meaning job tenant e"
    using e r(2) row_content_simps by metis+
  show ?thesis
  proof (rule audit_invI; simp)
    show "policy_inv (au_db s)" by (rule audit_invD(1) [OF inv])
    show "ledger_ok env ls" using ledger_store.exec_inv [OF ok fresh ex] .
    show "ob_tenant_id x = tenant \<and> row_content x \<in> contents (au_db s)"
      if "(xs, b) \<in> set ((au_flushers s)[i := (e # es, True)])" "x \<in> set xs" for xs b x
      using set_list_update_cases [OF that(1)] audit_invD(3) [OF inv _ that(2)] audit_invD(3) [OF inv mem, of x] that(2)
      by auto
    show "xs \<noteq> [] \<and> in_ledger env job tenant ls (hd xs)" if "(xs, True) \<in> set ((au_flushers s)[i := (e # es, True)])" for xs
      using set_list_update_cases [OF that] audit_invD(4) [OF inv, of xs] keep [of "hd xs"] in_e by auto
    show "in_ledger env job tenant ls x"
      if "x \<in> set (policy_outbox (au_db s))" "ob_tenant_id x = tenant" "\<exists>t. ob_dispatched_at x = Some t" for x
      using audit_invD(5) [OF inv that(1,2)] that(3) keep by auto
    show "\<exists>x \<in> set (policy_outbox (au_db s)). ob_tenant_id x = tenant \<and> ob_idempotency_key x = k \<and> m = row_meaning job tenant x"
      if "ledger_stored env ls k = Some m" for k m
      using that st r(1) re audit_invD(6) [OF inv, of k m] by (cases "k = ob_idempotency_key e") auto
  qed
qed

lemma mark_map:
  assumes "mark_dispatched now tenant eid db = Inr ((), db')"
  obtains g where "policy_outbox db' = map g (policy_outbox db)" and "\<And>r. row_content (g r) = row_content r"
    and "\<And>r. ob_event_id r \<noteq> eid \<Longrightarrow> g r = r"
proof (rule that [of "\<lambda>r. if ob_tenant_id r = tenant \<and> ob_event_id r = eid
    then r\<lparr>ob_dispatched_at := Some (case ob_dispatched_at r of None \<Rightarrow> now | Some t \<Rightarrow> t)\<rparr> else r"])
qed (use assms in \<open>auto simp: mark_dispatched_def row_content_def split: if_splits\<close>)

lemma same_content:
  assumes "row_content r = row_content r'"
  shows "ob_event_id r = ob_event_id r'" and "ob_tenant_id r = ob_tenant_id r'"
    and "ob_idempotency_key r = ob_idempotency_key r'" and "row_meaning job tenant r = row_meaning job tenant r'"
    and "in_ledger env job tenant ls r = in_ledger env job tenant ls r'"
  using assms row_content_simps in_ledger_content by metis+

text \<open>A flusher that has appended the event may mark every row with its id: there is one.\<close>

lemma flusher_row:
  assumes inv: "audit_inv env job tenant s" and mem: "(e # es, True) \<in> set (au_flushers s)"
    and r: "r \<in> set (policy_outbox (au_db s))" "ob_event_id r = ob_event_id e"
  shows "in_ledger env job tenant (au_lines s) r"
proof -
  obtain r0 where r0: "r0 \<in> set (policy_outbox (au_db s))" "row_content r0 = row_content e"
    using audit_invD(3) [OF inv mem, of e] by (auto simp: contents_def)
  have "distinct (map ob_event_id (policy_outbox (au_db s)))"
    using audit_invD(1) [OF inv] by (simp add: policy_inv_def policy_keys_def)
  then have "inj_on ob_event_id (set (policy_outbox (au_db s)))" by (simp add: distinct_map)
  then have "r0 = r" using r r0(1) same_content(1) [OF r0(2)] by (simp add: inj_on_def)
  then show ?thesis using same_content(5) [OF r0(2)] audit_invD(4) [OF inv mem] by simp
qed

lemma audit_inv_mark:
  assumes inv: "audit_inv env job tenant s" and f: "i < length (au_flushers s)" "au_flushers s ! i = (e # es, True)"
    and mk: "mark_dispatched now tenant (ob_event_id e) (au_db s) = Inr ((), db)"
  shows "audit_inv env job tenant (s\<lparr>au_db := db, au_flushers := (au_flushers s)[i := (es, False)]\<rparr>)"
proof -
  obtain g where db: "policy_outbox db = map g (policy_outbox (au_db s))"
    and g: "\<And>r. row_content (g r) = row_content r" and id: "\<And>r. ob_event_id r \<noteq> ob_event_id e \<Longrightarrow> g r = r"
    using mark_map [OF mk] by metis
  have same: "contents db = contents (au_db s)"
    unfolding contents_def db set_map image_image by (simp only: g)
  have mem: "(e # es, True) \<in> set (au_flushers s)" using f nth_mem by metis
  show ?thesis
  proof (rule audit_invI)
    show "policy_inv (au_db (s\<lparr>au_db := db, au_flushers := (au_flushers s)[i := (es, False)]\<rparr>))"
      using policy_change_inv [OF policy_change.dispatch [OF mk] audit_invD(1) [OF inv]] by simp
    show "ledger_ok env (au_lines (s\<lparr>au_db := db, au_flushers := (au_flushers s)[i := (es, False)]\<rparr>))"
      using audit_invD(2) [OF inv] by simp
  next
    fix xs b x
    assume x: "(xs, b) \<in> set (au_flushers (s\<lparr>au_db := db, au_flushers := (au_flushers s)[i := (es, False)]\<rparr>))" "x \<in> set xs"
    then consider "xs = es" | "(xs, b) \<in> set (au_flushers s)" by (auto dest: set_list_update_cases)
    then show "ob_tenant_id x = tenant \<and>
        row_content x \<in> contents (au_db (s\<lparr>au_db := db, au_flushers := (au_flushers s)[i := (es, False)]\<rparr>))"
      using audit_invD(3) [OF inv mem, of x] audit_invD(3) [OF inv _ x(2), of b] x(2) same by cases simp_all
  next
    fix xs
    assume "(xs, True) \<in> set (au_flushers (s\<lparr>au_db := db, au_flushers := (au_flushers s)[i := (es, False)]\<rparr>))"
    then have "(xs, True) \<in> set (au_flushers s)" by (auto dest: set_list_update_cases)
    then show "xs \<noteq> [] \<and> in_ledger env job tenant
        (au_lines (s\<lparr>au_db := db, au_flushers := (au_flushers s)[i := (es, False)]\<rparr>)) (hd xs)"
      using audit_invD(4) [OF inv] by simp
  next
    fix x
    assume x: "x \<in> set (policy_outbox (au_db (s\<lparr>au_db := db, au_flushers := (au_flushers s)[i := (es, False)]\<rparr>)))"
      "ob_tenant_id x = tenant" "ob_dispatched_at x \<noteq> None"
    then obtain r where r: "r \<in> set (policy_outbox (au_db s))" "x = g r" using db by auto
    have "in_ledger env job tenant (au_lines s) r"
    proof (cases "ob_event_id r = ob_event_id e")
      case False
      then show ?thesis using r x(2,3) audit_invD(5) [OF inv r(1)] id by simp
    qed (rule flusher_row [OF inv mem r(1)])
    then show "in_ledger env job tenant (au_lines (s\<lparr>au_db := db, au_flushers := (au_flushers s)[i := (es, False)]\<rparr>)) x"
      using same_content(5) [OF g] r(2) by simp
  next
    fix k m
    assume "ledger_stored env (au_lines (s\<lparr>au_db := db, au_flushers := (au_flushers s)[i := (es, False)]\<rparr>)) k = Some m"
    then obtain r where r: "r \<in> set (policy_outbox (au_db s))" "ob_tenant_id r = tenant" "ob_idempotency_key r = k"
        "m = row_meaning job tenant r" using audit_invD(6) [OF inv, of k m] by auto
    have "g r \<in> set (policy_outbox db)" using r(1) db by simp
    then show "\<exists>x \<in> set (policy_outbox (au_db (s\<lparr>au_db := db, au_flushers := (au_flushers s)[i := (es, False)]\<rparr>))).
        ob_tenant_id x = tenant \<and> ob_idempotency_key x = k \<and> m = row_meaning job tenant x"
      using r(2-4) same_content(2,3,4) [OF g [of r]] by (intro bexI [of _ "g r"]) simp_all
  qed
qed

lemma audit_inv_crash:
  assumes inv: "audit_inv env job tenant s"
  shows "audit_inv env job tenant (s\<lparr>au_flushers := (au_flushers s)[i := ([], False)]\<rparr>)"
proof (rule audit_invI; simp)
  show "ob_tenant_id e = tenant \<and> row_content e \<in> contents (au_db s)"
    if "(es, b) \<in> set ((au_flushers s)[i := ([], False)])" "e \<in> set es" for es b e
    using set_list_update_cases [OF that(1)] audit_invD(3) [OF inv _ that(2)] that(2) by auto
  show "es \<noteq> [] \<and> in_ledger env job tenant (au_lines s) (hd es)"
    if "(es, True) \<in> set ((au_flushers s)[i := ([], False)])" for es
    using set_list_update_cases [OF that] audit_invD(4) [OF inv, of es] by auto
qed (use audit_invD [OF inv] in blast)+

lemma audit_inv_step: "audit_step env job tenant s s' \<Longrightarrow> audit_inv env job tenant s \<Longrightarrow> audit_inv env job tenant s'"
  by (induction rule: audit_step.induct)
    (blast intro: audit_inv_mutate audit_inv_read audit_inv_append audit_inv_mark audit_inv_crash)+

lemma audit_inv_run: "audit_run env job tenant s s' \<Longrightarrow> audit_inv env job tenant s \<Longrightarrow> audit_inv env job tenant s'"
  by (induction rule: audit_run.induct) (blast intro: audit_inv_step)+

lemma audit_inv_start:
  assumes "policy_inv db" and "\<forall>r \<in> set (policy_outbox db). ob_dispatched_at r = None"
  shows "audit_inv env job tenant (audit_start db)"
  using assms by (auto simp: audit_inv_def audit_start_def ledger_ok_def ledger_stored_def load_locked_def)

end
