(* ===== verification/Policy_Sync.thy ===== *)
theory Policy_Sync
  imports Runtime Outbox_Bridge
begin

text \<open>
  \<open>ExecutionContext.sync_policy_audit\<close> (\<open>src/orchestration/runtime.py\<close>): flush the tenant's
  policy events and link the verified head of the policy ledger into the ledger of the job.
\<close>

section \<open>Model\<close>

definition link_event :: "flush_report \<Rightarrow> event_spec" where
  "link_event report = \<lparr>es_aggregate_type = ''policy_audit'', es_aggregate_id = ''policy-memory'',
     es_event_type = ''policy.audit_linked'',
     es_payload = JObj [(''policy_ledger_head'', JStr (fl_ledger_head report)),
       (''policy_ledger_events'', JInt (int (fl_ledger_events report))),
       (''newly_dispatched'', JInt (int (fl_dispatched report)))],
     es_idempotency_key = ''policy-audit:'' @ fl_ledger_head report\<rparr>"

text \<open>
  The policy store and its ledger are threaded beside the world of the job; the flush uses the
  default audit job and batch size.
\<close>

definition sync_policy_audit ::
  "py_env \<Rightarrow> (nat \<Rightarrow> draw) \<Rightarrow> (nat \<Rightarrow> time) \<Rightarrow> context_state \<Rightarrow> policy_db \<times> raw_line list \<Rightarrow> world \<Rightarrow>
   (flush_report result \<times> (policy_db \<times> raw_line list) \<times> world) option" where
  "sync_policy_audit env ds clock cx p w =
     (case flush env ''policy-memory'' (tenant_id (cx_job cx)) ds clock 100 (fst p) (snd p) of
       None \<Rightarrow> None
     | Some (Inl e, p') \<Rightarrow> Some (Inl e, p', w)
     | Some (Inr report, p') \<Rightarrow>
         if fl_ledger_events report = 0 then Some (Inr report, p', w)
         else (case emit env (link_event report) cx w of
           (Inl e, w') \<Rightarrow> Some (Inl e, p', w')
         | (Inr ev, w') \<Rightarrow> Some (Inr report, p', w')))"

section \<open>A head that is already linked\<close>

lemma link_fingerprint:
  assumes "request_fingerprint (emit_request cx (link_event r)) = request_fingerprint (emit_request cx (link_event r'))"
  shows "fl_dispatched r = fl_dispatched r'"
proof -
  let ?v = "\<lambda>r. JObj [(''tenant_id'', JStr (tenant_id (cx_job cx))), (''job_id'', JStr (job_id (cx_job cx))),
     (''aggregate_type'', JStr ''policy_audit''), (''aggregate_id'', JStr ''policy-memory''),
     (''event_type'', JStr ''policy.audit_linked''), (''payload'', es_payload (link_event r))]"
  have "canonical_json (?v r) = canonical_json (?v r')"
    using assms by (simp add: request_fingerprint_def semantic_fingerprint_def emit_request_def link_event_def)
  then have "sort_keys (?v r) = sort_keys (?v r')"
    by (intro canonical_json_inj [of "?v r" "?v r'"]) (simp_all add: link_event_def)
  then show ?thesis by (simp add: link_event_def sort_key_def)
qed

lemma linked_conflict:
  assumes "load_locked env ls = Inr es" and "e \<in> set es"
    and "ev_idempotency_key e = es_idempotency_key (link_event old)"
    and "fingerprint_of e = request_fingerprint (emit_request cx (link_event old))"
    and "fl_ledger_head report = fl_ledger_head old" and "fl_dispatched report \<noteq> fl_dispatched old"
  shows "ledger_append env d (emit_request cx (link_event report)) ls
    = Inl (LedgerIdempotencyConflict ''idempotency key already has different semantics'')"
proof -
  have "distinct (map ev_idempotency_key es)" using assms(1) load_locked_iff chain_distinct_keys by blast
  then have row: "row_by ev_idempotency_key (req_idempotency_key (emit_request cx (link_event report))) es = Some e"
    using row_by_distinct [of ev_idempotency_key es e] assms(2,3,5) by (simp add: emit_request_def link_event_def)
  have fin: "\<exists>t. request_fingerprint (emit_request cx (link_event r)) = Inr t" for r
    by (simp add: request_fingerprint_def semantic_fingerprint_def emit_request_def link_event_def canonical_json_def)
  obtain t t' where t: "request_fingerprint (emit_request cx (link_event report)) = Inr t"
      "request_fingerprint (emit_request cx (link_event old)) = Inr t'" using fin by metis
  then have "t \<noteq> t'" using link_fingerprint [of cx report old] assms(6) by auto
  then show ?thesis using assms(1,4) row t by (auto simp: ledger_append_def)
qed

end
