(* ===== verification/Memory_Properties.thy ===== *)
theory Memory_Properties
  imports Policy_Sync
begin

text \<open>
  The properties of the policy memory and of its audit bridge, with a sample history on which
  they are applied.
\<close>

section \<open>A sample history\<close>

text \<open>A strategy proposed in one task family, applied in another, and credited by an expert.\<close>

definition short_env :: py_env where
  "short_env = \<lparr>sha256 = take 33, fromisoformat = (\<lambda>s. Some True)\<rparr>"

definition policy_draw :: "nat \<Rightarrow> pdraw" where
  "policy_draw k = \<lparr>pd_now = of_nat k, pd_uuid = ''u'', pd_events = (\<lambda>i. (''e'' @ show_nat (10 * k + i), of_nat k))\<rparr>"

definition credited_ops :: "policy_op list" where
  "credited_ops =
     [Propose (policy_draw 1) \<lparr>pr_tenant_id = ''t'', pr_kind = ''boundary_probe'', pr_pattern = ''p'',
        pr_source_job_id = ''j'', pr_source_task_family = ''f'', pr_strategy_id = Some ''s''\<rparr>,
      RecordApplication (policy_draw 2) \<lparr>aq_tenant_id = ''t'', aq_strategy_id = ''s'', aq_target_job_id = ''j2'',
        aq_target_task_family = ''g'', aq_rendered_query = ''q'', aq_idempotency_key = ''k'',
        aq_application_id = Some ''a''\<rparr>,
      RecordOutcome (policy_draw 3) \<lparr>or_tenant_id = ''t'', or_application_id = ''a'',
        or_evaluator_kind = ''expert_blind'', or_success = True, or_false_gap_avoided = False,
        or_valid_finding_delta = Finite ''0.0'', or_calls = 2, or_tokens = 9, or_evidence_ref = ''r''\<rparr>]"

definition credited_policy :: policy_db where
  "credited_policy = run_ops (policy_step short_env) credited_ops empty_policy"

definition eager :: thresholds where
  "eager = \<lparr>min_evaluations = 1, activation_lower_bound = 0, suspension_lower_bound = 0\<rparr>"

definition strict :: thresholds where
  "strict = \<lparr>min_evaluations = 2, activation_lower_bound = 0, suspension_lower_bound = 0\<rparr>"

definition credited_strategy :: "strategy_status \<Rightarrow> time \<Rightarrow> strategy" where
  "credited_strategy st t = \<lparr>st_strategy_id = ''s'', st_tenant_id = ''t'', st_strategy_key = ''boundary_probe|p'',
     st_kind = ''boundary_probe'', st_pattern = ''p'', st_source_job_id = ''j'', st_source_task_family = ''f'',
     st_status = st, st_created_at = 1, st_updated_at = t\<rparr>"

lemma credited_strategies: "strategies credited_policy = [credited_strategy CANDIDATE 1]"
  by code_simp

lemma credited_credit: "length (credited_outcomes (credited_strategy st t) credited_policy) = 1"
  by code_simp

lemma credited_outbox: "map ob_event_id (policy_outbox credited_policy) = [''e10'', ''e20'', ''e30''] \<and>
  map (\<lambda>r. (ob_tenant_id r, ob_idempotency_key r)) (policy_outbox credited_policy) = [(''t'', ''strategy:s:proposed''),
    (''t'', ''application:a:recorded''), (''t'', ''application:a:outcome'')]"
  by code_simp

text \<open>The samples do not evaluate the Wilson bound: it is only used to be non-negative.\<close>

lemma wilson_lower_nonneg: "0 \<le> wilson_lower k n"
  by (simp add: wilson_lower_def Let_def)

definition still_credited :: "strategy_status \<Rightarrow> time \<Rightarrow> policy_db \<Rightarrow> bool" where
  "still_credited st t db \<longleftrightarrow> strategies db = [credited_strategy st t] \<and>
     applications db = applications credited_policy \<and> outcomes db = outcomes credited_policy"

lemma credited_score:
  assumes "still_credited st t db"
  shows "score_rows ''t'' db = [score_of db (credited_strategy st t)]"
    and "target_status eager (score_of db (credited_strategy st t)) = ACTIVE"
    and "target_status strict (score_of db (credited_strategy st t)) = CANDIDATE"
    and "sc_status (score_of db (credited_strategy st t)) = st"
    and "sc_evaluations (score_of db (credited_strategy st t)) = 1"
    and "sc_strategy_id (score_of db (credited_strategy st t)) = ''s''"
proof -
  have s: "strategies db = [credited_strategy st t]" using assms by (simp add: still_credited_def)
  have "credited_outcomes (credited_strategy st t) db = credited_outcomes (credited_strategy st t) credited_policy"
    using assms by (intro credited_outcomes_cong) (simp_all add: still_credited_def)
  then have n: "length (credited_outcomes (credited_strategy st t) db) = 1" using credited_credit by simp
  have "st_tenant_id (credited_strategy st t) = ''t''" by (simp add: credited_strategy_def)
  then show "score_rows ''t'' db = [score_of db (credited_strategy st t)]" using s by (simp add: score_rows_def)
  show "target_status eager (score_of db (credited_strategy st t)) = ACTIVE"
    and "target_status strict (score_of db (credited_strategy st t)) = CANDIDATE"
    and "sc_status (score_of db (credited_strategy st t)) = st"
    and "sc_evaluations (score_of db (credited_strategy st t)) = 1"
    and "sc_strategy_id (score_of db (credited_strategy st t)) = ''s''"
    using n by (simp_all add: score_of_def Let_def target_status_def eager_def strict_def py_round_nonneg
      wilson_lower_nonneg credited_strategy_def)
qed

text \<open>The idempotency key of a change of its status.\<close>

definition flip_key :: "strategy_status \<Rightarrow> string" where
  "flip_key st = ''strategy:s:transition:'' @ take 33 (ascii_escape (''{'' @ quote_string ''evaluations'' @ '':'' @
     show_int 1 @ '','' @ quote_string ''from_status'' @ '':'' @ quote_string (strategy_status_value st)))"

lemma payload_prefix:
  "\<exists>tl. render (sort_keys (transition_payload sc target)) =
     (''{'' @ quote_string ''evaluations'' @ '':'' @ show_int (int (sc_evaluations sc)) @ '','' @ quote_string ''from_status''
       @ '':'' @ quote_string (strategy_status_value (sc_status sc))) @ tl"
  by (simp add: transition_payload_def sort_key_def)

lemma prefix_length: "33 \<le> length (ascii_escape (''{'' @ quote_string ''evaluations'' @ '':'' @
     show_int 1 @ '','' @ quote_string ''from_status'' @ '':'' @ quote_string (strategy_status_value st)))"
proof -
  have "\<forall>st \<in> set [CANDIDATE, ACTIVE, SUSPENDED, RETIRED]. 33 \<le> length (ascii_escape (''{'' @ quote_string ''evaluations''
      @ '':'' @ show_int 1 @ '','' @ quote_string ''from_status'' @ '':'' @ quote_string (strategy_status_value st)))"
    by code_simp
  then show ?thesis by (cases st) simp_all
qed

lemma flip_key:
  assumes "still_credited st t db"
  shows "eq_idempotency_key (transition_event short_env ''t'' (score_of db (credited_strategy st t)) target) = flip_key st"
proof -
  let ?sc = "score_of db (credited_strategy st t)"
  let ?p = "''{'' @ quote_string ''evaluations'' @ '':'' @ show_int 1 @ '','' @ quote_string ''from_status''
       @ '':'' @ quote_string (strategy_status_value st)"
  obtain tl where tl: "render (sort_keys (transition_payload ?sc target)) = ?p @ tl"
    using payload_prefix [of ?sc target] credited_score(4,5) [OF assms] by auto
  have "ascii_escape (?p @ tl) = ascii_escape ?p @ ascii_escape tl" unfolding ascii_escape_def by simp
  then have "take 33 (ascii_escape (?p @ tl)) = take 33 (ascii_escape ?p)" using prefix_length [of st] by simp
  then show ?thesis
    unfolding transition_event_def flip_key_def
    using tl credited_score(6) [OF assms] by (simp add: short_env_def)
qed

lemma refresh_flip:
  assumes "still_credited st t db" and "st \<noteq> RETIRED" and "th \<in> {eager, strict}"
    and "target_status th (score_of db (credited_strategy st t)) = st'" and "st' \<noteq> st"
    and "fst (pd_events (policy_draw k) 0) \<notin> set (map ob_event_id (policy_outbox db))"
    and "(''t'', flip_key st) \<notin> set (map (\<lambda>r. (ob_tenant_id r, ob_idempotency_key r)) (policy_outbox db))"
  shows "\<exists>scs row. refresh_statuses short_env (policy_draw k) ''t'' th db
      = Inr (scs, snd (policy_step short_env (Refresh (policy_draw k) ''t'' th) db)) \<and>
    still_credited st' (of_nat k) (snd (policy_step short_env (Refresh (policy_draw k) ''t'' th) db)) \<and>
    policy_outbox (snd (policy_step short_env (Refresh (policy_draw k) ''t'' th) db)) = policy_outbox db @ [row] \<and>
    ob_event_id row = fst (pd_events (policy_draw k) 0) \<and> ob_tenant_id row = ''t'' \<and> ob_idempotency_key row = flip_key st"
proof -
  let ?q = "transition_event short_env ''t'' (score_of db (credited_strategy st t)) st'"
  let ?db = "set_status ''t'' ''s'' st' (of_nat k) db"
  have key: "eq_idempotency_key ?q = flip_key st" "eq_tenant_id ?q = ''t''"
    using flip_key [OF assms(1)] by (simp_all add: transition_event_def)
  have enq: "enqueue (pd_events (policy_draw k) 0) ?q ?db
      = Inr (?db\<lparr>policy_outbox := policy_outbox db @ [outbox_row_of (pd_events (policy_draw k) 0) ?q]\<rparr>)"
    using assms(6,7) key transition_payload_finite [of short_env "''t''" "score_of db (credited_strategy st t)" st']
    by (simp add: enqueue_def canonical_json_def)
  have th: "\<not> min_evaluations th < 1" "0 \<le> suspension_lower_bound th"
      "suspension_lower_bound th \<le> activation_lower_bound th" "activation_lower_bound th \<le> 1"
    using assms(3) by (auto simp: eager_def strict_def)
  have "refresh_scores short_env (policy_draw k) 0 ''t'' th (score_rows ''t'' db) db
      = Inr (?db\<lparr>policy_outbox := policy_outbox db @ [outbox_row_of (pd_events (policy_draw k) 0) ?q]\<rparr>)"
    using assms(2,4,5) enq credited_score(4,6) [OF assms(1)]
    by (simp add: credited_score(1) [OF assms(1)] Let_def policy_draw_def)
  then have "\<exists>scs. refresh_statuses short_env (policy_draw k) ''t'' th db
      = Inr (scs, ?db\<lparr>policy_outbox := policy_outbox db @ [outbox_row_of (pd_events (policy_draw k) 0) ?q]\<rparr>)"
    using th by (simp add: refresh_statuses_def)
  moreover have "still_credited st' (of_nat k) (?db\<lparr>policy_outbox := rows\<rparr>)" for rows
    using assms(1) by (simp add: still_credited_def set_status_def credited_strategy_def)
  ultimately show ?thesis
    using key by (auto simp: policy_step_def drop_value_def transact_def outbox_row_of_def)
qed

text \<open>The strategy is activated, and taken back under stricter thresholds.\<close>

definition activated_policy :: policy_db where
  "activated_policy = snd (policy_step short_env (Refresh (policy_draw 4) ''t'' eager) credited_policy)"

definition flipped_policy :: policy_db where
  "flipped_policy = snd (policy_step short_env (Refresh (policy_draw 5) ''t'' strict) activated_policy)"

lemma sample_ids: "fst (pd_events (policy_draw 4) 0) = ''e40'' \<and> fst (pd_events (policy_draw 5) 0) = ''e50'' \<and>
  distinct [flip_key CANDIDATE, flip_key ACTIVE, ''strategy:s:proposed'', ''application:a:recorded'',
    ''application:a:outcome'']"
  by code_simp

lemma activated:
  "\<exists>scs row. refresh_statuses short_env (policy_draw 4) ''t'' eager credited_policy = Inr (scs, activated_policy) \<and>
    still_credited ACTIVE 4 activated_policy \<and> policy_outbox activated_policy = policy_outbox credited_policy @ [row] \<and>
    ob_event_id row = ''e40'' \<and> ob_tenant_id row = ''t'' \<and> ob_idempotency_key row = flip_key CANDIDATE"
proof -
  have "still_credited CANDIDATE 1 credited_policy" using credited_strategies by (simp add: still_credited_def)
  then show ?thesis
    using refresh_flip [of CANDIDATE 1 credited_policy eager ACTIVE 4] credited_outbox sample_ids
      credited_score(2) [of CANDIDATE 1 credited_policy] by (simp add: activated_policy_def)
qed

lemma flipped:
  "still_credited CANDIDATE 5 flipped_policy \<and> announced flipped_policy ''t'' (flip_key CANDIDATE)"
proof -
  obtain row where a: "still_credited ACTIVE 4 activated_policy"
      "policy_outbox activated_policy = policy_outbox credited_policy @ [row]"
      "ob_event_id row = ''e40''" "ob_tenant_id row = ''t''" "ob_idempotency_key row = flip_key CANDIDATE"
    using activated by blast
  then have "still_credited CANDIDATE 5 flipped_policy \<and> (\<exists>r. policy_outbox flipped_policy = policy_outbox activated_policy @ [r])"
    using refresh_flip [of ACTIVE 4 activated_policy strict CANDIDATE 5] credited_outbox sample_ids
      credited_score(3) [of ACTIVE 4 activated_policy] by (auto simp: flipped_policy_def)
  then show ?thesis using a by (auto simp: announced_def)
qed

section \<open>The policy memory\<close>

text \<open>
  C17. Whatever proposals, applications, outcomes, refreshes, interventions and acknowledgements
  arrive, with whatever arguments: keys stay unique, every application has its strategy and every
  outcome its application, outcomes come from the allowed evaluators with evidence, and every
  stored row is announced by an outbox event of its tenant.
\<close>

theorem policy_memory_invariant: "policy_inv (run_ops (policy_step env) ops empty_policy)"
  by (rule policy_machine.run_inv [OF policy_inv_empty])

text \<open>
  C18. A strategy is only ever active or suspended when an allowed evaluator (known answer, blinded
  expert, temporal holdout) has judged, with evidence, an application of it to a task of another
  family than the one that produced it: no sequence of operations lets a strategy earn its status
  from its own task family or without an outcome, and none retires one.
\<close>

theorem status_needs_independent_credit:
  assumes "s \<in> set (strategies (run_ops (policy_step env) ops empty_policy))" and "st_status s \<noteq> CANDIDATE"
  shows "st_status s \<noteq> RETIRED \<and>
    (\<exists>a \<in> set (applications (run_ops (policy_step env) ops empty_policy)).
     \<exists>oc \<in> set (outcomes (run_ops (policy_step env) ops empty_policy)).
       ap_strategy_id a = st_strategy_id s \<and> ap_target_task_family a \<noteq> st_source_task_family s \<and>
       oc_application_id oc = ap_application_id a \<and> oc_evaluator_kind oc \<in> set ALLOWED_EVALUATORS \<and>
       \<not> blank (oc_evidence_ref oc))"
proof -
  let ?db = "run_ops (policy_step env) ops empty_policy"
  have inv: "policy_inv ?db" by (rule policy_machine.run_inv [OF policy_inv_empty])
  then have credit: "st_status s \<noteq> RETIRED" "credited_outcomes s ?db \<noteq> []"
    using assms by (auto simp: policy_inv_def credit_ok_def)
  have ok: "credible oc" if "oc \<in> set (outcomes ?db)" for oc
    using inv that by (simp add: policy_inv_def policy_refs_def)
  obtain a oc where "a \<in> set (applications ?db)" "oc \<in> set (outcomes ?db)" "ap_strategy_id a = st_strategy_id s"
      "ap_target_task_family a \<noteq> st_source_task_family s" "oc_application_id oc = ap_application_id a"
    using credit(2) unfolding credited_nonempty_iff by blast
  then show ?thesis using credit(1) ok [of oc] unfolding credible_def by blast
qed

lemma run_activated:
  "activated_policy = run_ops (policy_step short_env) (credited_ops @ [Refresh (policy_draw 4) ''t'' eager]) empty_policy"
  by (simp add: activated_policy_def credited_policy_def run_ops_append)

theorem status_needs_independent_credit_witness:
  "\<exists>s \<in> set (strategies activated_policy). st_status s = ACTIVE \<and>
    (\<exists>a \<in> set (applications activated_policy). ap_target_task_family a \<noteq> st_source_task_family s)"
proof -
  have s: "credited_strategy ACTIVE 4 \<in> set (strategies activated_policy)" "st_status (credited_strategy ACTIVE 4) = ACTIVE"
    using activated by (auto simp: still_credited_def credited_strategy_def)
  show ?thesis
    using status_needs_independent_credit [of "credited_strategy ACTIVE 4" short_env
        "credited_ops @ [Refresh (policy_draw 4) ''t'' eager]"] s
    unfolding run_activated [symmetric] by auto
qed

text \<open>
  A refresh leaves every strategy of the tenant (retired ones apart) in exactly the status
  its evidence calls for under the given thresholds: candidate below the minimum number of
  independent evaluations, else active, suspended or candidate by the Wilson bound.
\<close>

theorem refresh_assigns_called_status:
  assumes "refresh_statuses env d tenant th db = Inr (scs, db')" and "policy_inv db"
    and "s \<in> set (strategies db')" and "st_tenant_id s = tenant"
  shows "st_status s = RETIRED \<or> st_status s =
    (if int (sc_evaluations (score_of db' s)) < min_evaluations th then CANDIDATE
     else if sc_wilson_lower (score_of db' s) \<ge> activation_lower_bound th then ACTIVE
     else if sc_wilson_lower (score_of db' s) < suspension_lower_bound th then SUSPENDED else CANDIDATE)"
  using refresh_result [OF assms(1) _ assms(3,4)] assms(2) by (simp add: policy_inv_def target_status_def)

theorem refresh_assigns_called_status_witness:
  "st_status (credited_strategy ACTIVE 4) = RETIRED \<or> st_status (credited_strategy ACTIVE 4) =
    (if int (sc_evaluations (score_of activated_policy (credited_strategy ACTIVE 4))) < min_evaluations eager then CANDIDATE
     else if sc_wilson_lower (score_of activated_policy (credited_strategy ACTIVE 4)) \<ge> activation_lower_bound eager then ACTIVE
     else if sc_wilson_lower (score_of activated_policy (credited_strategy ACTIVE 4)) < suspension_lower_bound eager
     then SUSPENDED else CANDIDATE)"
proof -
  obtain scs where r: "refresh_statuses short_env (policy_draw 4) ''t'' eager credited_policy = Inr (scs, activated_policy)"
    using activated by blast
  have "policy_inv credited_policy"
    unfolding credited_policy_def by (rule policy_machine.run_inv [OF policy_inv_empty])
  then show ?thesis
    using activated
    by (intro refresh_assigns_called_status [OF r]) (auto simp: still_credited_def credited_strategy_def)
qed

text \<open>
  The idempotency key of a status change names only the statuses and the evidence.  When a
  strategy is due for a change it already made with the same evidence (it was changed back
  meanwhile, under other thresholds), announcing the change violates the unique key: the whole
  refresh of the tenant raises an integrity error and is rolled back, and so does every retry.
\<close>

theorem repeated_transition_breaks_refresh:
  assumes "\<not> min_evaluations th < 1" and "0 \<le> suspension_lower_bound th"
    and "suspension_lower_bound th \<le> activation_lower_bound th" and "activation_lower_bound th \<le> 1"
    and "sc \<in> set (score_rows tenant db)" and "sc_status sc \<noteq> RETIRED" and "target_status th sc \<noteq> sc_status sc"
    and "announced db tenant (eq_idempotency_key (transition_event env tenant sc (target_status th sc)))"
  shows "\<exists>m. refresh_statuses env d tenant th db = Inl (SqlIntegrityError m) \<and>
    snd (policy_step env (Refresh d tenant th) db) = db"
proof -
  obtain m where "refresh_scores env d 0 tenant th (score_rows tenant db) db = Inl (SqlIntegrityError m)"
    using refresh_scores_repeats [OF assms(5-8)] by blast
  then show ?thesis
    using assms(1-4) by (simp add: refresh_statuses_def policy_step_def drop_value_def transact_def)
qed

theorem repeated_transition_breaks_refresh_witness:
  "\<exists>m. refresh_statuses short_env (policy_draw 6) ''t'' eager flipped_policy = Inl (SqlIntegrityError m) \<and>
    snd (policy_step short_env (Refresh (policy_draw 6) ''t'' eager) flipped_policy) = flipped_policy"
proof -
  let ?sc = "score_of flipped_policy (credited_strategy CANDIDATE 5)"
  have f: "still_credited CANDIDATE 5 flipped_policy" "announced flipped_policy ''t'' (flip_key CANDIDATE)"
    using flipped by simp_all
  note sc = credited_score [OF f(1)]
  show ?thesis
    by (rule repeated_transition_breaks_refresh [where sc = ?sc])
      (use f sc flip_key [OF f(1)] in \<open>simp_all add: eager_def\<close>)
qed

section \<open>The audit bridge\<close>


definition hex_env :: py_env where
  "hex_env = \<lparr>sha256 = (\<lambda>s. replicate 64 (CHR ''a'')), fromisoformat = (\<lambda>s. Some True)\<rparr>"

definition bridge_db :: policy_db where
  "bridge_db = snd (policy_step hex_env (hd credited_ops) empty_policy)"

definition bridge_draw :: draw where
  "bridge_draw = \<lparr>now_iso = ''2026-01-01T00:00:00+00:00'', new_uuid = ''l1''\<rparr>"

definition bridge_row :: outbox_row where
  "bridge_row = hd (pending_events ''t'' 5 bridge_db)"

definition bridge_lines :: "raw_line list" where
  "bridge_lines = (case ledger_append hex_env bridge_draw (dispatch_request ''m'' ''t'' bridge_row) [] of
     Inl e \<Rightarrow> [] | Inr (ev, ls) \<Rightarrow> ls)"

definition bridge_marked :: policy_db where
  "bridge_marked = (case mark_dispatched 9 ''t'' (ob_event_id bridge_row) bridge_db of
     Inl e \<Rightarrow> bridge_db | Inr (u, db) \<Rightarrow> db)"

definition bridge_state :: audit_state where
  "bridge_state = \<lparr>au_db = bridge_marked, au_lines = bridge_lines, au_flushers = [([], False)]\<rparr>"

lemma bridge_appends: "\<exists>ev. ledger_append hex_env bridge_draw (dispatch_request ''m'' ''t'' bridge_row) [] = Inr (ev, bridge_lines)"
proof -
  have "(case ledger_append hex_env bridge_draw (dispatch_request ''m'' ''t'' bridge_row) [] of Inl e \<Rightarrow> False | Inr x \<Rightarrow> True)"
    by code_simp
  then show ?thesis by (auto simp: bridge_lines_def split: sum.splits)
qed

lemma bridge_marks: "mark_dispatched 9 ''t'' (ob_event_id bridge_row) bridge_db = Inr ((), bridge_marked)"
proof -
  have "(case mark_dispatched 9 ''t'' (ob_event_id bridge_row) bridge_db of Inl e \<Rightarrow> False | Inr x \<Rightarrow> True)"
    by code_simp
  then show ?thesis by (auto simp: bridge_marked_def split: sum.splits)
qed

lemma bridge_run: "audit_run hex_env ''m'' ''t'' (audit_start empty_policy) bridge_state"
proof -
  let ?r = "audit_run hex_env ''m'' ''t'' (audit_start empty_policy)"
  have p: "pending_events ''t'' 5 bridge_db = [bridge_row]" by code_simp
  have fresh: "id_unused hex_env (bridge_draw, dispatch_request ''m'' ''t'' bridge_row) []" by code_simp
  have 1: "?r (audit_start bridge_db)"
    using audit_step.mutate [of "hd credited_ops" hex_env "''m''" "''t''" "audit_start empty_policy"]
    by (intro audit_run.audit_more [OF audit_run.audit_stop]) (simp add: audit_start_def bridge_db_def credited_ops_def)
  have 2: "?r \<lparr>au_db = bridge_db, au_lines = [], au_flushers = [([bridge_row], False)]\<rparr>"
    using audit_run.audit_more [OF 1 audit_step.read_batch [where limit = 5]] by (simp add: audit_start_def p)
  obtain ev where ev: "ledger_append hex_env bridge_draw (dispatch_request ''m'' ''t'' bridge_row) [] = Inr (ev, bridge_lines)"
    using bridge_appends by blast
  have 3: "?r \<lparr>au_db = bridge_db, au_lines = bridge_lines, au_flushers = [([bridge_row], True)]\<rparr>"
    using audit_run.audit_more [OF 2 audit_step.append_event [where i = 0 and e = bridge_row and es = "[]" and d = bridge_draw]]
      fresh ev by simp
  show ?thesis
    using audit_run.audit_more [OF 3 audit_step.mark_event [where i = 0 and e = bridge_row and es = "[]" and now = 9]]
      bridge_marks by (simp add: bridge_state_def)
qed


text \<open>
  A flush always returns: each round of its loop acknowledges at least one pending event or
  stops, so as many rounds as there are pending events, and one more, are enough.
\<close>

theorem flush_terminates: "flush env job tenant ds clock batch db ls \<noteq> None"
  by (rule flush_returns)

text \<open>
  Linking the policy ledger into a job ledger is not idempotent: the key of the link is the
  head of the policy ledger, but its payload also counts the events dispatched by this call.  A
  second synchronisation without new policy events finds the same head and dispatches nothing, so
  its link conflicts with the first and the call raises, although nothing is wrong.
\<close>

theorem repeated_sync_conflicts:
  assumes "flush env ''policy-memory'' (tenant_id (cx_job cx)) ds clock 100 db ls = Some (Inr report, p')"
    and "fl_ledger_events report \<noteq> 0"
    and "load_locked env (w_ledger (tick env w) (ledger_path cx)) = Inr es" and "e \<in> set es"
    and "ev_idempotency_key e = es_idempotency_key (link_event old)"
    and "fingerprint_of e = request_fingerprint (emit_request cx (link_event old))"
    and "fl_ledger_head report = fl_ledger_head old" and "fl_dispatched report \<noteq> fl_dispatched old"
  shows "\<exists>w'. sync_policy_audit env ds clock cx (db, ls) w
    = Some (Inl (LedgerIdempotencyConflict ''idempotency key already has different semantics''), p', w')"
  using linked_conflict [OF assms(3-8), of "w_draws w (w_tick w)"] assms(1,2)
  by (simp add: sync_policy_audit_def emit_def ledger_act_def do_append_def transact_def)

definition sync_world :: world where
  "sync_world = \<lparr>w_db = empty_db, w_ledger = (\<lambda>p. []), w_clock = (\<lambda>n. of_nat n),
     w_draws = (\<lambda>n. \<lparr>now_iso = ''2026-01-01T00:00:00+00:00'', new_uuid = ''e1''\<rparr>), w_rivals = (\<lambda>n. []), w_tick = 0\<rparr>"

definition sync_context :: context_state where
  "sync_context = \<lparr>cx_job = new_job 0 ''j'' \<lparr>cr_tenant_id = ''t'', cr_idempotency_key = ''k'', cr_task = ''x'',
     cr_max_calls = 2, cr_max_tokens = 5, cr_max_cost_microunits = 9, cr_job_id = None\<rparr>, cx_worker_id = ''w''\<rparr>"

definition sync_draws :: "nat \<Rightarrow> draw" where
  "sync_draws n = \<lparr>now_iso = ''2026-01-01T00:00:00+00:00'', new_uuid = ''p1''\<rparr>"

definition sync_report :: flush_report where
  "sync_report = \<lparr>fl_dispatched = 1, fl_ledger_events = 1, fl_ledger_head = replicate 64 (CHR ''a'')\<rparr>"

definition synced_policy :: "policy_db \<times> raw_line list" where
  "synced_policy = (case flush hex_env ''policy-memory'' ''t'' sync_draws of_nat 100 bridge_db [] of
     None \<Rightarrow> (bridge_db, []) | Some (r, p) \<Rightarrow> p)"

definition linked_world :: world where
  "linked_world = snd (emit hex_env (link_event sync_report) sync_context sync_world)"

text \<open>The first synchronisation succeeds and links the head.\<close>

lemma first_flush:
  "flush hex_env ''policy-memory'' ''t'' sync_draws of_nat 100 bridge_db [] = Some (Inr sync_report, synced_policy)"
proof -
  have "(case flush hex_env ''policy-memory'' ''t'' sync_draws of_nat 100 bridge_db [] of
      Some (Inr r, p) \<Rightarrow> r = sync_report | _ \<Rightarrow> False)" by code_simp
  then show ?thesis by (auto simp: synced_policy_def split: option.splits prod.splits sum.splits)
qed

lemma second_flush:
  "flush hex_env ''policy-memory'' ''t'' sync_draws of_nat 100 (fst synced_policy) (snd synced_policy)
    = Some (Inr (sync_report\<lparr>fl_dispatched := 0\<rparr>), synced_policy)"
  by code_simp

lemma linked_event:
  "case load_locked hex_env (w_ledger linked_world (''t'', ''j'')) of
     Inl e \<Rightarrow> False
   | Inr es \<Rightarrow> list_ex (\<lambda>e. ev_idempotency_key e = es_idempotency_key (link_event sync_report) \<and>
       fingerprint_of e = request_fingerprint (emit_request sync_context (link_event sync_report))) es"
  by code_simp

theorem repeated_sync_conflicts_witness:
  "fl_dispatched sync_report = 1 \<and>
   (\<exists>w'. sync_policy_audit hex_env sync_draws of_nat sync_context (fst synced_policy, snd synced_policy) linked_world
    = Some (Inl (LedgerIdempotencyConflict ''idempotency key already has different semantics''), synced_policy, w'))"
proof -
  have t: "tenant_id (cx_job sync_context) = ''t''" "ledger_path sync_context = (''t'', ''j'')"
    by (simp_all add: sync_context_def ledger_path_def new_job_def)
  have tick: "w_ledger (tick hex_env linked_world) = w_ledger linked_world"
    by (simp add: tick_def linked_world_def emit_def ledger_act_def do_append_def sync_world_def Let_def split: prod.split)
  obtain es where es: "load_locked hex_env (w_ledger linked_world (''t'', ''j'')) = Inr es"
      "list_ex (\<lambda>e. ev_idempotency_key e = es_idempotency_key (link_event sync_report) \<and>
       fingerprint_of e = request_fingerprint (emit_request sync_context (link_event sync_report))) es"
    using linked_event by (auto split: sum.splits)
  then obtain e where e: "e \<in> set es" "ev_idempotency_key e = es_idempotency_key (link_event sync_report)"
      "fingerprint_of e = request_fingerprint (emit_request sync_context (link_event sync_report))"
    by (auto simp: list_ex_iff)
  have "\<exists>w'. sync_policy_audit hex_env sync_draws of_nat sync_context (fst synced_policy, snd synced_policy) linked_world
    = Some (Inl (LedgerIdempotencyConflict ''idempotency key already has different semantics''), synced_policy, w')"
    by (rule repeated_sync_conflicts [where es = es and e = e and old = sync_report
        and report = "sync_report\<lparr>fl_dispatched := 0\<rparr>"])
      (use second_flush es(1) e t tick in \<open>simp_all add: sync_report_def\<close>)
  then show ?thesis by (simp add: sync_report_def)
qed

end
