(* ===== verification/Pareto.thy ===== *)
theory Pareto
  imports Events Numbers
begin

text \<open>
  The counterevidence-aware Pareto tree search (\<open>src/discovery/pareto_mcts.py\<close>): hypotheses with
  their evidence, objective vectors, the non-dominated archive, the acceptance gate, and the
  search loop of selection, progressive widening, evaluation and backpropagation.

  The callbacks (expander, evaluator, gate, plausibility check, pruning) are parameters, in the
  record \<open>search_config\<close>; objectives are rationals, so the scores are exact.  The tree of
  mutable nodes is a value that each iteration rewrites along the path it takes.
\<close>

section \<open>Hypotheses and objectives\<close>

definition OBJECTIVE_NAMES :: "string list" where
  "OBJECTIVE_NAMES = [''predictive_utility'', ''evidence_sufficiency'', ''counterevidence_survival'',
     ''database_validation'', ''falsifiability'', ''physical_validity'', ''simplicity'']"

record hypothesis =
  hypothesis_id :: string
  hy_claim :: string
  hy_boundary :: string
  support_evidence :: "string list"
  counter_queries :: "string list"
  physical_checks :: "string list"
  hy_metadata :: "(string \<times> json) list"

text \<open>\<open>json.dumps\<close> without \<open>allow_nan=False\<close>: non-finite floats are written as they are.\<close>

definition canonical_sha256 :: "py_env \<Rightarrow> hypothesis \<Rightarrow> string" where
  "canonical_sha256 env h = sha256 env (render (sort_keys (JObj [
     (''hypothesis_id'', JStr (hypothesis_id h)), (''claim'', JStr (hy_claim h)),
     (''boundary'', JStr (hy_boundary h)),
     (''support_evidence'', JList (map JStr (support_evidence h))),
     (''counter_queries'', JList (map JStr (counter_queries h))),
     (''physical_checks'', JList (map JStr (physical_checks h))),
     (''metadata'', JObj (hy_metadata h))])))"

record objectives =
  predictive_utility :: rat
  evidence_sufficiency :: rat
  counterevidence_survival :: rat
  database_validation :: rat
  falsifiability :: rat
  physical_validity :: rat
  simplicity :: rat

definition obj_values :: "objectives \<Rightarrow> rat list" where
  "obj_values v = [predictive_utility v, evidence_sufficiency v, counterevidence_survival v,
     database_validation v, falsifiability v, physical_validity v, simplicity v]"

definition objectives_ok :: "objectives \<Rightarrow> bool" where
  "objectives_ok v \<longleftrightarrow> list_all (\<lambda>x. 0 \<le> x \<and> x \<le> 1) (obj_values v)"

text \<open>The constructor's check: \<open>None\<close> is a float that is not finite.\<close>

definition make_objectives :: "rat option list \<Rightarrow> objectives result" where
  "make_objectives xs = (case those xs of
     Some [a, b, c, d, e, f, g] \<Rightarrow>
       let v = \<lparr>predictive_utility = a, evidence_sufficiency = b, counterevidence_survival = c,
         database_validation = d, falsifiability = e, physical_validity = f, simplicity = g\<rparr>
       in if objectives_ok v then Inr v else Inl (ValueError ''objective must be finite and in [0, 1]'')
   | _ \<Rightarrow> Inl (ValueError ''objective must be finite and in [0, 1]''))"

record expansion =
  ex_action :: string
  ex_hypothesis :: hypothesis
  ex_prior :: rat

definition make_expansion :: "string \<Rightarrow> hypothesis \<Rightarrow> rat option \<Rightarrow> expansion result" where
  "make_expansion action h prior =
     (if blank action then Inl (ValueError ''expansion action must be non-empty'')
      else (case prior of
        None \<Rightarrow> Inl (ValueError ''expansion prior must be finite and non-negative'')
      | Some p \<Rightarrow> if p < 0 then Inl (ValueError ''expansion prior must be finite and non-negative'')
          else Inr \<lparr>ex_action = action, ex_hypothesis = h, ex_prior = p\<rparr>))"

record search_result =
  sr_hypothesis :: hypothesis
  sr_objectives :: objectives
  sr_path :: "string list"
  sr_iteration :: nat

section \<open>Dominance and the archive\<close>

definition dominates_eps :: "rat \<Rightarrow> objectives \<Rightarrow> objectives \<Rightarrow> bool" where
  "dominates_eps eps l r \<longleftrightarrow>
     list_all (\<lambda>(a, b). a + eps \<ge> b) (zip (obj_values l) (obj_values r)) \<and>
     list_ex (\<lambda>(a, b). a > b + eps) (zip (obj_values l) (obj_values r))"

definition dominance_eps :: rat where
  "dominance_eps = 1 / 1000000000000"

definition dominates :: "objectives \<Rightarrow> objectives \<Rightarrow> bool" where
  "dominates = dominates_eps dominance_eps"

definition result_id :: "search_result \<Rightarrow> string" where
  "result_id r = hypothesis_id (sr_hypothesis r)"

text \<open>One round of the loop that keeps the best result of each hypothesis id.\<close>

definition keep_best :: "(string \<times> search_result) list \<Rightarrow> search_result \<Rightarrow> (string \<times> search_result) list" where
  "keep_best best r = (case map_of best (result_id r) of
     None \<Rightarrow> AList.update (result_id r) r best
   | Some previous \<Rightarrow>
       if dominates (sr_objectives r) (sr_objectives previous) then AList.update (result_id r) r best
       else if \<not> dominates (sr_objectives previous) (sr_objectives r) \<and>
          obj_values (sr_objectives previous) < obj_values (sr_objectives r)
       then AList.update (result_id r) r best
       else best)"

definition best_by_id :: "search_result list \<Rightarrow> (string \<times> search_result) list" where
  "best_by_id rs = foldl keep_best [] rs"

definition pareto_front :: "search_result list \<Rightarrow> search_result list" where
  "pareto_front rs = (let candidates = map snd (best_by_id rs) in
     sort_key (\<lambda>r. (result_id r, sr_iteration r))
       (filter (\<lambda>item. \<not> list_ex (\<lambda>other. result_id other \<noteq> result_id item \<and>
          dominates (sr_objectives other) (sr_objectives item)) candidates) candidates))"

section \<open>The acceptance gate\<close>

text \<open>\<open>"@" in locator and locator.split("@", 1)[1].strip()\<close>\<close>

definition locator_ok :: "string \<Rightarrow> bool" where
  "locator_ok l \<longleftrightarrow> (case dropWhile (\<lambda>c. c \<noteq> CHR ''@'') l of [] \<Rightarrow> False | c # rest \<Rightarrow> \<not> blank rest)"

definition default_acceptance_gate :: "hypothesis \<Rightarrow> objectives \<Rightarrow> bool \<times> string" where
  "default_acceptance_gate h v =
     (if blank (hypothesis_id h) then (False, ''missing_hypothesis_id'')
      else if blank (hy_claim h) then (False, ''missing_claim'')
      else if blank (hy_boundary h) then (False, ''missing_boundary'')
      else if support_evidence h = [] then (False, ''missing_support_evidence'')
      else if \<not> list_all locator_ok (support_evidence h) then (False, ''invalid_evidence_locator'')
      else if counter_queries h = [] then (False, ''counterevidence_search_not_declared'')
      else if physical_checks h = [] then (False, ''physical_checks_not_declared'')
      else if evidence_sufficiency v \<le> 0 then (False, ''zero_evidence_sufficiency'')
      else if physical_validity v \<le> 0 then (False, ''zero_physical_validity'')
      else (True, ''accepted''))"

section \<open>The tree\<close>

record node_info =
  ni_hypothesis :: hypothesis
  ni_action :: string
  ni_prior :: rat
  ni_depth :: nat
  ni_visits :: nat
  ni_value_sum :: "rat list"
  ni_expanded :: bool

datatype node = Node node_info (children: "node list")

primrec info :: "node \<Rightarrow> node_info" where
  "info (Node i cs) = i"

definition zero_values :: "rat list" where
  "zero_values = replicate 7 0"

definition new_node :: "hypothesis \<Rightarrow> string \<Rightarrow> rat \<Rightarrow> nat \<Rightarrow> node" where
  "new_node h action prior depth = Node \<lparr>ni_hypothesis = h, ni_action = action, ni_prior = prior,
     ni_depth = depth, ni_visits = 0, ni_value_sum = zero_values, ni_expanded = False\<rparr> []"

definition mean_values :: "node_info \<Rightarrow> rat list" where
  "mean_values i = (if ni_visits i = 0 then zero_values
     else map (\<lambda>v. v / of_nat (ni_visits i)) (ni_value_sum i))"

record search_config =
  expander :: "hypothesis \<Rightarrow> expansion list"
  evaluator :: "hypothesis \<Rightarrow> objectives"
  gate :: "hypothesis \<Rightarrow> objectives \<Rightarrow> bool \<times> string"
  plausibility :: "hypothesis \<Rightarrow> objectives \<Rightarrow> bool \<times> string"
  prune :: "expansion \<Rightarrow> bool \<times> string"
  exploration :: rat
  max_depth :: nat

definition check_config :: "search_config \<Rightarrow> unit result" where
  "check_config cfg = (if exploration cfg < 0 then Inl (ValueError ''exploration must be non-negative'')
     else if max_depth cfg < 1 then Inl (ValueError ''max_depth must be at least 1'') else Inr ())"

definition WEIGHT_BANK :: "rat list list" where
  "WEIGHT_BANK = [[1, 1, 1, 1, 1, 1, 1], [2, 1, 2, 1, 2, 2, 1], [1, 2, 1, 2, 1, 2, 1],
     [2, 2, 2, 1/2, 1, 1, 1/2], [1/2, 1, 1, 2, 2, 1, 2]]"

definition normalized_weights :: "rat list \<Rightarrow> rat list" where
  "normalized_weights ws = map (\<lambda>v. v / sum_list ws) ws"

section \<open>Selection\<close>

definition child_score :: "search_config \<Rightarrow> rat list \<Rightarrow> nat \<Rightarrow> node \<Rightarrow> rat \<times> rat \<times> string" where
  "child_score cfg weights parent_visits c = (let i = info c in
     (sum_list (map (\<lambda>(w, v). w * v) (zip weights (mean_values i))) +
        exploration cfg * ni_prior i * py_sqrt (of_nat (max 1 parent_visits)) / (1 + of_nat (ni_visits i)),
      ni_prior i, hypothesis_id (ni_hypothesis i)))"

text \<open>The position of the first greatest element, as \<open>max\<close> picks it.\<close>

fun first_max :: "'k::linorder list \<Rightarrow> nat" where
  "first_max [] = 0"
| "first_max [x] = 0"
| "first_max (x # y # ys) = (let k = first_max (y # ys) in if x < (y # ys) ! k then Suc k else 0)"

definition select_child :: "search_config \<Rightarrow> rat list \<Rightarrow> node \<Rightarrow> nat" where
  "select_child cfg weights n = first_max (map (child_score cfg weights (ni_visits (info n))) (children n))"

lemma first_max_less: "xs \<noteq> [] \<Longrightarrow> first_max xs < length xs"
  by (induction xs rule: first_max.induct) (auto simp: Let_def)

lemma select_child_less: "children n \<noteq> [] \<Longrightarrow> select_child cfg weights n < length (children n)"
  using first_max_less [of "map (child_score cfg weights (ni_visits (info n))) (children n)"]
  by (simp add: select_child_def)

lemma size_child: "k < length (children n) \<Longrightarrow> size (children n ! k) < size n"
proof (cases n)
  case (Node i cs)
  assume "k < length (children n)"
  then have "cs ! k \<in> set cs" using Node by simp
  then have "size (cs ! k) < Suc (size_list size cs)" by (simp add: less_Suc_eq_le size_list_estimation')
  then show ?thesis using Node by simp
qed

text \<open>The way down: to an unexpanded or childless node, or to the first unvisited child.\<close>

function descend :: "search_config \<Rightarrow> rat list \<Rightarrow> node \<Rightarrow> nat list" where
  "descend cfg weights n =
     (if ni_expanded (info n) \<and> children n \<noteq> []
      then let k = select_child cfg weights n; c = children n ! k in
        if ni_visits (info c) = 0 then [k] else k # descend cfg weights c
      else [])"
  by auto
termination
  by (relation "measure (\<lambda>(cfg, weights, n). size n)") (auto intro: size_child select_child_less)

declare descend.simps [simp del]

text \<open>The nodes along a path, and rewriting the node at its end.\<close>

fun node_at :: "nat list \<Rightarrow> node \<Rightarrow> node" where
  "node_at [] n = n"
| "node_at (k # p) n = node_at p (children n ! k)"

fun update_at :: "nat list \<Rightarrow> (node \<Rightarrow> node) \<Rightarrow> node \<Rightarrow> node" where
  "update_at [] f n = f n"
| "update_at (k # p) f n = Node (info n) ((children n)[k := update_at p f (children n ! k)])"

fun path_actions :: "nat list \<Rightarrow> node \<Rightarrow> string list" where
  "path_actions [] n = []"
| "path_actions (k # p) n = ni_action (info (children n ! k)) # path_actions p (children n ! k)"

section \<open>Expansion\<close>

datatype trace_event =
    PruneEvent nat string string string string
  | ExpansionEvent nat string "string list"
  | EvaluationEvent nat string string bool string objectives "string list"

text \<open>The loop over the sorted proposals: what was seen, the children, the prune events.\<close>

fun admit_proposals ::
  "py_env \<Rightarrow> search_config \<Rightarrow> nat \<Rightarrow> node_info \<Rightarrow> expansion list \<Rightarrow> string set \<Rightarrow> node list \<times> trace_event list" where
  "admit_proposals env cfg it i [] seen = ([], [])"
| "admit_proposals env cfg it i (p # ps) seen =
     (let digest = canonical_sha256 env (ex_hypothesis p) in
      if digest \<in> seen then admit_proposals env cfg it i ps seen
      else let (admitted, reason) = prune cfg p;
               (cs, evs) = admit_proposals env cfg it i ps (insert digest seen)
        in if \<not> admitted
           then (cs, PruneEvent it (hypothesis_id (ni_hypothesis i)) (hypothesis_id (ex_hypothesis p)) digest reason # evs)
           else (new_node (ex_hypothesis p) (ex_action p) (ex_prior p) (ni_depth i + 1) # cs, evs))"

definition sorted_proposals :: "search_config \<Rightarrow> hypothesis \<Rightarrow> expansion list" where
  "sorted_proposals cfg h = sort_key (\<lambda>p. (- ex_prior p, ex_action p, hypothesis_id (ex_hypothesis p))) (expander cfg h)"

definition expand_node :: "py_env \<Rightarrow> search_config \<Rightarrow> nat \<Rightarrow> node \<Rightarrow> node \<times> trace_event list" where
  "expand_node env cfg it n = (let i = info n;
       (cs, evs) = admit_proposals env cfg it i (sorted_proposals cfg (ni_hypothesis i)) {}
     in (Node (i\<lparr>ni_expanded := True\<rparr>) (children n @ cs),
         evs @ [ExpansionEvent it (hypothesis_id (ni_hypothesis i))
           (map (\<lambda>c. hypothesis_id (ni_hypothesis (info c))) (children n @ cs))]))"

section \<open>Backpropagation\<close>

definition credit_info :: "rat list \<Rightarrow> node_info \<Rightarrow> node_info" where
  "credit_info reward i = i\<lparr>ni_visits := ni_visits i + 1,
     ni_value_sum := map (\<lambda>(a, b). a + b) (zip (ni_value_sum i) reward)\<rparr>"

fun backpropagate :: "rat list \<Rightarrow> nat list \<Rightarrow> node \<Rightarrow> node" where
  "backpropagate reward [] n = Node (credit_info reward (info n)) (children n)"
| "backpropagate reward (k # p) n = Node (credit_info reward (info n))
     ((children n)[k := backpropagate reward p (children n ! k)])"

section \<open>The search\<close>

record search_state =
  ss_root :: node
  ss_archive :: "search_result list"
  ss_trace :: "trace_event list"
  ss_rejected :: nat
  ss_evaluated :: nat
  ss_rejected_plausibility :: nat

record search_report =
  pareto_archive :: "search_result list"
  sp_evaluated :: nat
  rejected_by_gate :: nat
  rejected_by_plausibility :: nat
  sp_pruned :: nat
  sp_trace :: "trace_event list"

fun is_prune :: "trace_event \<Rightarrow> bool" where
  "is_prune (PruneEvent it p h d r) = True"
| "is_prune ev = False"

text \<open>Selection and progressive widening: the path to the node to evaluate, the tree, the trace.\<close>

definition widen ::
  "py_env \<Rightarrow> search_config \<Rightarrow> nat \<Rightarrow> rat list \<Rightarrow> node \<Rightarrow> nat list \<times> node \<times> trace_event list" where
  "widen env cfg it weights tree =
     (let path = descend cfg weights tree; n = node_at path tree in
      if ni_visits (info n) > 0 \<and> \<not> ni_expanded (info n) \<and> ni_depth (info n) < max_depth cfg
      then let (n', evs) = expand_node env cfg it n; tree' = update_at path (\<lambda>x. n') tree in
        (if children n' \<noteq> [] then path @ [select_child cfg weights n'] else path, tree', evs)
      else (path, tree, []))"

definition judge :: "search_config \<Rightarrow> hypothesis \<Rightarrow> objectives \<Rightarrow> bool \<times> bool \<times> string" where
  "judge cfg h v = (let (plausible, why) = plausibility cfg h v in
     if plausible then (let (accepted, reason) = gate cfg h v in (True, accepted, reason))
     else (False, False, ''plausibility:'' @ why))"

definition search_iteration :: "py_env \<Rightarrow> search_config \<Rightarrow> nat \<Rightarrow> search_state \<Rightarrow> search_state" where
  "search_iteration env cfg it s =
     (let weights = normalized_weights (WEIGHT_BANK ! (it mod length WEIGHT_BANK));
          (path, tree, evs) = widen env cfg it weights (ss_root s);
          h = ni_hypothesis (info (node_at path tree));
          v = evaluator cfg h;
          (plausible, accepted, reason) = judge cfg h v;
          actions = path_actions path tree
      in \<lparr>ss_root = backpropagate (if accepted then obj_values v else zero_values) path tree,
          ss_archive = (if accepted then ss_archive s @ [\<lparr>sr_hypothesis = h, sr_objectives = v,
             sr_path = actions, sr_iteration = it\<rparr>] else ss_archive s),
          ss_trace = ss_trace s @ evs @ [EvaluationEvent it (hypothesis_id h) (canonical_sha256 env h) accepted reason v actions],
          ss_rejected = (if accepted then ss_rejected s else ss_rejected s + 1),
          ss_evaluated = ss_evaluated s + 1,
          ss_rejected_plausibility = (if plausible then ss_rejected_plausibility s
             else ss_rejected_plausibility s + 1)\<rparr>)"

definition start_search :: "hypothesis \<Rightarrow> search_state" where
  "start_search h = \<lparr>ss_root = new_node h ''ROOT'' 1 0, ss_archive = [], ss_trace = [], ss_rejected = 0,
     ss_evaluated = 0, ss_rejected_plausibility = 0\<rparr>"

definition search_state_after :: "py_env \<Rightarrow> search_config \<Rightarrow> hypothesis \<Rightarrow> nat \<Rightarrow> search_state" where
  "search_state_after env cfg h n = fold (search_iteration env cfg) [0..<n] (start_search h)"

definition search :: "py_env \<Rightarrow> search_config \<Rightarrow> hypothesis \<Rightarrow> int \<Rightarrow> search_report result" where
  "search env cfg h iterations =
     (if iterations < 1 then Inl (ValueError ''iterations must be at least 1'')
      else let s = search_state_after env cfg h (nat iterations) in
        Inr \<lparr>pareto_archive = pareto_front (ss_archive s), sp_evaluated = ss_evaluated s,
          rejected_by_gate = ss_rejected s, rejected_by_plausibility = ss_rejected_plausibility s,
          sp_pruned = length (filter is_prune (ss_trace s)), sp_trace = ss_trace s\<rparr>)"

end
