(* ===== verification/Pareto_Laws.thy ===== *)
theory Pareto_Laws
  imports Pareto Contracts
begin

text \<open>
  The laws of the Pareto tree search: what the archive holds, when it is complete, the shape of
  the tree after any number of iterations, and the accounting of the report.
\<close>

section \<open>The best result of each id\<close>

lemma keep_best_cases:
  "keep_best best r = best \<or> keep_best best r = AList.update (result_id r) r best"
  by (simp add: keep_best_def split: option.split)

lemma keep_best_keys: "fst ` set (keep_best best r) = insert (result_id r) (fst ` set best)"
proof -
  have "result_id r \<in> fst ` set best" if "map_of best (result_id r) \<noteq> None"
    using that by (simp add: map_of_eq_None_iff)
  then show ?thesis
    by (auto simp: keep_best_def dom_update split: option.split)
qed

lemma keep_best_distinct: "distinct (map fst best) \<Longrightarrow> distinct (map fst (keep_best best r))"
  using keep_best_cases [of best r] by (auto simp: distinct_update)

lemma keep_best_members:
  "(k, x) \<in> set (keep_best best r) \<Longrightarrow> (k, x) \<in> set best \<or> (k = result_id r \<and> x = r)"
  using keep_best_cases [of best r] by (auto dest: set_updateD)

lemma foldl_keep_best:
  "distinct (map fst best) \<Longrightarrow>
   distinct (map fst (foldl keep_best best rs)) \<and>
   fst ` set (foldl keep_best best rs) = fst ` set best \<union> result_id ` set rs \<and>
   (\<forall>(k, x) \<in> set (foldl keep_best best rs). (k, x) \<in> set best \<or> (k = result_id x \<and> x \<in> set rs))"
proof (induction rs arbitrary: best)
  case (Cons r rs)
  note IH = Cons.IH [OF keep_best_distinct [OF Cons.prems, of r]]
  have "(k, x) \<in> set best \<or> (k = result_id x \<and> x \<in> set (r # rs))"
    if "(k, x) \<in> set (foldl keep_best best (r # rs))" for k x
  proof -
    have "(k, x) \<in> set (keep_best best r) \<or> (k = result_id x \<and> x \<in> set rs)" using IH that by auto
    then show ?thesis using keep_best_members [of k x best r] by auto
  qed
  then show ?case using IH keep_best_keys [of best r] by auto
qed auto

lemma best_by_id_distinct: "distinct (map fst (best_by_id rs))"
  and best_by_id_keys: "fst ` set (best_by_id rs) = result_id ` set rs"
  and best_by_id_member: "(k, x) \<in> set (best_by_id rs) \<Longrightarrow> k = result_id x \<and> x \<in> set rs"
  using foldl_keep_best [of "[]" rs] by (auto simp: best_by_id_def)

definition candidates :: "search_result list \<Rightarrow> search_result set" where
  "candidates rs = snd ` set (best_by_id rs)"

lemma candidates_subset: "candidates rs \<subseteq> set rs"
  using best_by_id_member by (fastforce simp: candidates_def)

lemma candidates_ids: "result_id ` candidates rs = result_id ` set rs"
proof -
  have "result_id ` candidates rs = fst ` set (best_by_id rs)"
    unfolding candidates_def image_image by (rule image_cong) (use best_by_id_member in force)+
  then show ?thesis by (simp add: best_by_id_keys)
qed

lemma candidates_unique:
  assumes "x \<in> candidates rs" and "y \<in> candidates rs" and "result_id x = result_id y"
  shows "x = y"
proof -
  obtain k l where kl: "(k, x) \<in> set (best_by_id rs)" "(l, y) \<in> set (best_by_id rs)"
    using assms(1,2) by (auto simp: candidates_def)
  then have "k = l" using best_by_id_member assms(3) by metis
  then show ?thesis using kl best_by_id_distinct [of rs] by (metis eq_key_imp_eq_value)
qed

lemma front_member_iff:
  "x \<in> set (pareto_front rs) \<longleftrightarrow> x \<in> candidates rs \<and>
     (\<forall>y \<in> candidates rs. y \<noteq> x \<longrightarrow> \<not> dominates (sr_objectives y) (sr_objectives x))"
proof -
  have "(result_id y \<noteq> result_id x) = (y \<noteq> x)" if "x \<in> candidates rs" "y \<in> candidates rs" for y
    using candidates_unique that by metis
  then show ?thesis
    by (auto simp: pareto_front_def Let_def candidates_def list_ex_iff)
qed

section \<open>Completeness for separated objectives\<close>

text \<open>Exact Pareto dominance.\<close>

definition pareto :: "objectives \<Rightarrow> objectives \<Rightarrow> bool" where
  "pareto l r \<longleftrightarrow> (\<forall>i < 7. obj_values r ! i \<le> obj_values l ! i) \<and> (\<exists>i < 7. obj_values r ! i < obj_values l ! i)"

text \<open>Two values are equal or further apart than the tolerance.\<close>

definition separated :: "objectives \<Rightarrow> objectives \<Rightarrow> bool" where
  "separated l r \<longleftrightarrow> (\<forall>i < 7. obj_values l ! i = obj_values r ! i \<or>
     dominance_eps < \<bar>obj_values l ! i - obj_values r ! i\<bar>)"

lemma length_obj_values [simp]: "length (obj_values v) = 7"
  by (simp add: obj_values_def)

lemma dominates_iff:
  "dominates l r \<longleftrightarrow> (\<forall>i < 7. obj_values r ! i \<le> obj_values l ! i + dominance_eps) \<and>
     (\<exists>i < 7. obj_values r ! i + dominance_eps < obj_values l ! i)"
  unfolding dominates_def dominates_eps_def list_all_length list_ex_length by (simp cong: conj_cong)

lemma dominance_eps_pos: "0 < dominance_eps"
  by (simp add: dominance_eps_def)

lemma dominates_separated:
  assumes "separated l r"
  shows "dominates l r \<longleftrightarrow> pareto l r"
proof -
  have near: "obj_values l ! i = obj_values r ! i \<or> dominance_eps < \<bar>obj_values l ! i - obj_values r ! i\<bar>" if "i < 7" for i
    using assms that by (simp add: separated_def)
  have "(obj_values r ! i \<le> obj_values l ! i + dominance_eps) = (obj_values r ! i \<le> obj_values l ! i)"
    "(obj_values r ! i + dominance_eps < obj_values l ! i) = (obj_values r ! i < obj_values l ! i)" if "i < 7" for i
    using near [OF that] dominance_eps_pos by linarith+
  then show ?thesis by (auto simp: dominates_iff pareto_def)
qed

lemma pareto_trans: "pareto a b \<Longrightarrow> pareto b c \<Longrightarrow> pareto a c"
  unfolding pareto_def by (meson dual_order.strict_trans1 order_trans)

lemma pareto_irrefl: "\<not> pareto a a"
  by (simp add: pareto_def)

text \<open>A strict order on a finite set: below every element that is not maximal there is a maximal one.\<close>

lemma finite_maximal:
  assumes "finite S" and "\<And>a b c. a \<in> S \<Longrightarrow> b \<in> S \<Longrightarrow> c \<in> S \<Longrightarrow> R a b \<Longrightarrow> R b c \<Longrightarrow> R a c"
    and "\<And>a. a \<in> S \<Longrightarrow> \<not> R a a"
  shows "x \<in> S \<Longrightarrow> \<exists>m \<in> S. (m = x \<or> R m x) \<and> (\<forall>y \<in> S. \<not> R y m)"
proof (induction "card {y \<in> S. R y x}" arbitrary: x rule: less_induct)
  case less
  show ?case
  proof (cases "\<exists>y \<in> S. R y x")
    case True
    then obtain y where y: "y \<in> S" "R y x" by blast
    have "{z \<in> S. R z y} \<subset> {z \<in> S. R z x}" using y less.prems assms(2,3) by blast
    then have "card {z \<in> S. R z y} < card {z \<in> S. R z x}" using assms(1) by (intro psubset_card_mono) simp_all
    from less.hyps [OF this y(1)] obtain m where "m \<in> S" "m = y \<or> R m y" "\<forall>z \<in> S. \<not> R z m" by blast
    then show ?thesis using y less.prems assms(2) by blast
  next
    case False
    then show ?thesis using less.prems by blast
  qed
qed

lemma front_complete:
  assumes "\<And>a b. a \<in> set rs \<Longrightarrow> b \<in> set rs \<Longrightarrow> separated (sr_objectives a) (sr_objectives b)"
    and "c \<in> candidates rs"
  shows "\<exists>f \<in> set (pareto_front rs). f = c \<or> pareto (sr_objectives f) (sr_objectives c)"
proof -
  let ?R = "\<lambda>a b. pareto (sr_objectives a) (sr_objectives b)"
  have eq: "dominates (sr_objectives a) (sr_objectives b) = ?R a b" if "a \<in> candidates rs" "b \<in> candidates rs" for a b
    using that assms(1) candidates_subset by (intro dominates_separated) blast
  have "finite (candidates rs)" by (simp add: candidates_def)
  then have "\<exists>m \<in> candidates rs. (m = c \<or> ?R m c) \<and> (\<forall>y \<in> candidates rs. \<not> ?R y m)"
    using assms(2)
    by (intro finite_maximal [where R = ?R]) (auto intro: pareto_trans simp: pareto_irrefl)
  then obtain m where m: "m \<in> candidates rs" "m = c \<or> ?R m c" "\<forall>y \<in> candidates rs. \<not> ?R y m" by blast
  then have "m \<in> set (pareto_front rs)" using eq by (simp add: front_member_iff)
  then show ?thesis using m(2) by blast
qed

section \<open>The shape of the tree\<close>

definition node_ok :: "search_config \<Rightarrow> node_info \<Rightarrow> node list \<Rightarrow> bool" where
  "node_ok cfg i cs \<longleftrightarrow> ni_depth i \<le> max_depth cfg \<and> (\<forall>c \<in> set cs. ni_depth (info c) = Suc (ni_depth i)) \<and>
     (cs \<noteq> [] \<longrightarrow> ni_expanded i) \<and> length (ni_value_sum i) = 7 \<and>
     (\<forall>v \<in> set (ni_value_sum i). 0 \<le> v \<and> v \<le> of_nat (ni_visits i)) \<and>
     sum_list (map (\<lambda>c. ni_visits (info c)) cs) \<le> ni_visits i"

fun tree_ok :: "search_config \<Rightarrow> node \<Rightarrow> bool" where
  "tree_ok cfg (Node i cs) = (node_ok cfg i cs \<and> (\<forall>c \<in> set cs. tree_ok cfg c))"

fun valid_path :: "nat list \<Rightarrow> node \<Rightarrow> bool" where
  "valid_path [] n = True"
| "valid_path (k # p) n = (k < length (children n) \<and> valid_path p (children n ! k))"

lemma tree_ok_iff: "tree_ok cfg n \<longleftrightarrow> node_ok cfg (info n) (children n) \<and> (\<forall>c \<in> set (children n). tree_ok cfg c)"
  by (cases n) simp

lemma descend_valid: "valid_path (descend cfg w n) n"
proof (induction cfg w n rule: descend.induct)
  case (1 cfg w n)
  then show ?case by (subst descend.simps) (simp add: Let_def select_child_less)
qed

lemma valid_path_append: "valid_path (p @ q) n \<longleftrightarrow> valid_path p n \<and> valid_path q (node_at p n)"
  by (induction p arbitrary: n) simp_all

lemma node_at_append: "node_at (p @ q) n = node_at q (node_at p n)"
  by (induction p arbitrary: n) simp_all

lemma tree_ok_node_at: "tree_ok cfg n \<Longrightarrow> valid_path p n \<Longrightarrow> tree_ok cfg (node_at p n)"
proof (induction p arbitrary: n)
  case (Cons k p)
  then show ?case by (simp add: tree_ok_iff [of cfg n])
qed simp

lemma node_at_update: "valid_path p n \<Longrightarrow> node_at p (update_at p f n) = f (node_at p n)"
  by (induction p arbitrary: n) simp_all

lemma valid_path_update: "valid_path p n \<Longrightarrow> valid_path p (update_at p f n)"
  by (induction p arbitrary: n) simp_all

lemma info_update_at: "p \<noteq> [] \<Longrightarrow> info (update_at p f n) = info n"
  by (cases p) simp_all

text \<open>Replacing a child by one with the same depth and visits.\<close>

lemma sum_list_update_map:
  "k < length cs \<Longrightarrow> sum_list (map g (cs[k := x])) + g (cs ! k) = sum_list (map g cs) + (g x :: nat)"
proof (induction cs arbitrary: k)
  case (Cons c cs)
  then show ?case by (cases k) (auto simp: algebra_simps)
qed simp

lemma node_ok_replace:
  assumes "node_ok cfg i cs" and "k < length cs" and "ni_depth (info x) = ni_depth (info (cs ! k))"
    and "ni_visits (info x) = ni_visits (info (cs ! k))"
  shows "node_ok cfg i (cs[k := x])"
proof -
  have d: "ni_depth (info x) = Suc (ni_depth i)" using assms by (simp add: node_ok_def)
  have "sum_list (map (\<lambda>c. ni_visits (info c)) (cs[k := x])) = sum_list (map (\<lambda>c. ni_visits (info c)) cs)"
    using sum_list_update_map [OF assms(2), of "\<lambda>c. ni_visits (info c)" x] assms(4) by simp
  then show ?thesis using assms(1) d set_update_subset_insert [of cs k x] by (auto simp: node_ok_def)
qed

lemma tree_ok_update_at:
  assumes "\<And>m. tree_ok cfg m \<Longrightarrow> m = node_at p n \<Longrightarrow> tree_ok cfg (f m) \<and> ni_depth (info (f m)) = ni_depth (info m) \<and>
      ni_visits (info (f m)) = ni_visits (info m)"
  shows "tree_ok cfg n \<Longrightarrow> valid_path p n \<Longrightarrow> tree_ok cfg (update_at p f n) \<and>
    ni_depth (info (update_at p f n)) = ni_depth (info n) \<and> ni_visits (info (update_at p f n)) = ni_visits (info n)"
  using assms
proof (induction p arbitrary: n)
  case Nil
  then show ?case by simp
next
  case (Cons k p)
  let ?c = "children n ! k"
  have k: "k < length (children n)" "valid_path p ?c" using Cons.prems(2) by simp_all
  have n: "node_ok cfg (info n) (children n)" "\<forall>c \<in> set (children n). tree_ok cfg c"
    using Cons.prems(1) by (simp_all add: tree_ok_iff [of cfg n])
  have IH: "tree_ok cfg (update_at p f ?c) \<and> ni_depth (info (update_at p f ?c)) = ni_depth (info ?c) \<and>
      ni_visits (info (update_at p f ?c)) = ni_visits (info ?c)"
    by (rule Cons.IH) (use n k Cons.prems(3) in auto)
  then show ?case
    using n k node_ok_replace [of cfg "info n" "children n" k "update_at p f ?c"]
      set_update_subset_insert [of "children n" k "update_at p f ?c"] by auto
qed

text \<open>Expansion adds unvisited children one level down.\<close>

lemma admit_proposals_children:
  "c \<in> set (fst (admit_proposals env cfg it i ps seen)) \<Longrightarrow>
   \<exists>p \<in> set ps. c = new_node (ex_hypothesis p) (ex_action p) (ex_prior p) (ni_depth i + 1)"
proof (induction env cfg it i ps seen rule: admit_proposals.induct)
  case (2 env cfg it i p ps seen)
  then show ?case by (auto simp: Let_def split: if_splits prod.splits)
qed simp

lemma new_node_info [simp]:
  "ni_depth (info (new_node h a pr d)) = d" "ni_visits (info (new_node h a pr d)) = 0" "children (new_node h a pr d) = []"
  by (simp_all add: new_node_def)

lemma new_node_ok: "d \<le> max_depth cfg \<Longrightarrow> tree_ok cfg (new_node h a pr d)"
  by (simp add: new_node_def node_ok_def zero_values_def)

lemma sum_list_zero: "(\<And>c. c \<in> set cs \<Longrightarrow> g c = 0) \<Longrightarrow> sum_list (map g cs) = (0 :: nat)"
  by (induction cs) auto

lemma expand_node_ok:
  assumes "tree_ok cfg n" and "\<not> ni_expanded (info n)" and "ni_depth (info n) < max_depth cfg"
    and "expand_node env cfg it n = (n', evs)"
  shows "tree_ok cfg n' \<and> ni_depth (info n') = ni_depth (info n) \<and> ni_visits (info n') = ni_visits (info n)"
proof -
  let ?cs = "fst (admit_proposals env cfg it (info n) (sorted_proposals cfg (ni_hypothesis (info n))) {})"
  have n: "node_ok cfg (info n) (children n)" using assms(1) tree_ok_iff by blast
  then have empty: "children n = []" using assms(2) by (auto simp: node_ok_def)
  have n': "n' = Node ((info n)\<lparr>ni_expanded := True\<rparr>) ?cs"
    using assms(4) empty by (auto simp: expand_node_def Let_def split: prod.splits)
  have cs: "ni_depth (info c) = Suc (ni_depth (info n)) \<and> ni_visits (info c) = 0 \<and> tree_ok cfg c" if "c \<in> set ?cs" for c
    using admit_proposals_children [OF that] assms(3) by (auto intro!: new_node_ok)
  have "sum_list (map (\<lambda>c. ni_visits (info c)) ?cs) = 0" using cs by (intro sum_list_zero) simp
  then have bound: "sum_list (map (\<lambda>c. ni_visits (info c)) ?cs) \<le> ni_visits (info n)" by (rule ord_eq_le_trans) simp
  show ?thesis using n cs bound by (simp add: n' node_ok_def del: sum_list_eq_0_iff)
qed

text \<open>Backpropagation adds one visit to every node of the path.\<close>

lemma credit_values:
  assumes "length vs = length (ws :: rat list)" and "\<forall>v \<in> set vs. 0 \<le> v \<and> v \<le> b" and "\<forall>w \<in> set ws. 0 \<le> w \<and> w \<le> 1"
  shows "\<forall>v \<in> set (map (\<lambda>(a, b). a + b) (zip vs ws)). 0 \<le> v \<and> v \<le> b + 1"
proof
  fix v assume "v \<in> set (map (\<lambda>(a, b). a + b) (zip vs ws))"
  then obtain x y where xy: "(x, y) \<in> set (zip vs ws)" "v = x + y" by auto
  then have "x \<in> set vs" "y \<in> set ws" by (auto dest: set_zip_leftD set_zip_rightD)
  then have "0 \<le> x \<and> x \<le> b" "0 \<le> y \<and> y \<le> 1" using assms(2,3) by blast+
  then show "0 \<le> v \<and> v \<le> b + 1" using xy(2) by linarith
qed

definition reward_ok :: "rat list \<Rightarrow> bool" where
  "reward_ok ws \<longleftrightarrow> length ws = 7 \<and> (\<forall>w \<in> set ws. 0 \<le> w \<and> w \<le> 1)"

lemma credit_info_ok:
  assumes "node_ok cfg i cs" and "reward_ok ws" and "set cs' \<subseteq> insert x (set cs)"
    and "ni_depth (info x) = Suc (ni_depth i)" and "cs' \<noteq> [] \<longrightarrow> cs \<noteq> []"
    and "sum_list (map (\<lambda>c. ni_visits (info c)) cs') \<le> ni_visits i + 1"
  shows "node_ok cfg (credit_info ws i) cs'"
proof -
  have "\<forall>v \<in> set (ni_value_sum (credit_info ws i)). 0 \<le> v \<and> v \<le> of_nat (ni_visits i) + 1"
    using credit_values [of "ni_value_sum i" ws "of_nat (ni_visits i)"] assms(1,2)
    by (simp add: credit_info_def node_ok_def reward_ok_def)
  then show ?thesis
    using assms by (auto simp: node_ok_def credit_info_def reward_ok_def)
qed

lemma info_backpropagate: "info (backpropagate ws p n) = credit_info ws (info n)"
  by (cases p) simp_all

lemma backpropagate_ok:
  "tree_ok cfg n \<Longrightarrow> valid_path p n \<Longrightarrow> reward_ok ws \<Longrightarrow> tree_ok cfg (backpropagate ws p n)"
proof (induction p arbitrary: n)
  case Nil
  have n: "node_ok cfg (info n) (children n)" "\<forall>c \<in> set (children n). tree_ok cfg c"
    using Nil.prems(1) tree_ok_iff by blast+
  then have "sum_list (map (\<lambda>c. ni_visits (info c)) (children n)) \<le> ni_visits (info n) + 1" by (simp add: node_ok_def)
  moreover have "\<exists>x. ni_depth (info x) = Suc (ni_depth (info n))" by (rule exI [of _ "new_node h a pr (Suc (ni_depth (info n)))"]) simp
  ultimately have "node_ok cfg (credit_info ws (info n)) (children n)"
    using credit_info_ok [OF n(1) Nil.prems(3), of "children n"] by blast
  then show ?case using n by simp
next
  case (Cons k p)
  let ?c = "children n ! k" and ?b = "backpropagate ws p (children n ! k)"
  have k: "k < length (children n)" "valid_path p ?c" using Cons.prems(2) by simp_all
  have n: "node_ok cfg (info n) (children n)" "\<forall>c \<in> set (children n). tree_ok cfg c"
    using Cons.prems(1) tree_ok_iff by blast+
  have b: "tree_ok cfg ?b" by (rule Cons.IH) (use n k Cons.prems(3) in auto)
  have ib: "ni_depth (info ?b) = Suc (ni_depth (info n))" "ni_visits (info ?b) = ni_visits (info ?c) + 1"
    using n k by (simp_all add: info_backpropagate credit_info_def node_ok_def)
  have "sum_list (map (\<lambda>c. ni_visits (info c)) ((children n)[k := ?b])) \<le> ni_visits (info n) + 1"
    using sum_list_update_map [OF k(1), of "\<lambda>c. ni_visits (info c)" ?b] ib(2) n(1) by (simp add: node_ok_def)
  then have "node_ok cfg (credit_info ws (info n)) ((children n)[k := ?b])"
    using ib(1) k(1) by (intro credit_info_ok [OF n(1) Cons.prems(3) set_update_subset_insert]) auto
  then show ?case using n b set_update_subset_insert [of "children n" k ?b] by auto
qed

section \<open>Every iteration\<close>

lemma widen_ok:
  assumes "tree_ok cfg t" and "widen env cfg it w t = (path, t', evs)"
  shows "tree_ok cfg t' \<and> valid_path path t' \<and> ni_visits (info t') = ni_visits (info t)"
proof -
  let ?p = "descend cfg w t"
  let ?n = "node_at ?p t"
  note v = descend_valid [of cfg w t]
  have n: "tree_ok cfg ?n" by (rule tree_ok_node_at [OF assms(1) v])
  show ?thesis
  proof (cases "ni_visits (info ?n) > 0 \<and> \<not> ni_expanded (info ?n) \<and> ni_depth (info ?n) < max_depth cfg")
    case True
    obtain n' evs' where e: "expand_node env cfg it ?n = (n', evs')" by fastforce
    note ok = expand_node_ok [OF n _ _ e]
    have t': "t' = update_at ?p (\<lambda>x. n') t" "path = (if children n' \<noteq> [] then ?p @ [select_child cfg w n'] else ?p)"
      using assms(2) True e by (auto simp: widen_def Let_def split: if_splits)
    have "tree_ok cfg t' \<and> ni_visits (info t') = ni_visits (info t)"
      using tree_ok_update_at [where f = "\<lambda>x. n'", OF _ assms(1) v] ok True t'(1) by blast
    moreover have "valid_path path t'"
      using t' valid_path_update [OF v] node_at_update [OF v] select_child_less by (auto simp: valid_path_append)
    ultimately show ?thesis by blast
  next
    case False
    then show ?thesis using assms v by (auto simp: widen_def Let_def split: if_splits)
  qed
qed

text \<open>What a state of the search satisfies after \<open>n\<close> iterations.\<close>

definition accepted_result :: "search_config \<Rightarrow> nat \<Rightarrow> search_result \<Rightarrow> bool" where
  "accepted_result cfg n r \<longleftrightarrow> sr_objectives r = evaluator cfg (sr_hypothesis r) \<and>
     fst (plausibility cfg (sr_hypothesis r) (sr_objectives r)) \<and>
     fst (gate cfg (sr_hypothesis r) (sr_objectives r)) \<and> sr_iteration r < n"

fun is_evaluation :: "bool \<Rightarrow> trace_event \<Rightarrow> bool" where
  "is_evaluation b (EvaluationEvent it h d a r v p) = (a = b)"
| "is_evaluation b ev = False"

definition search_inv :: "search_config \<Rightarrow> nat \<Rightarrow> search_state \<Rightarrow> bool" where
  "search_inv cfg n s \<longleftrightarrow> tree_ok cfg (ss_root s) \<and> ni_visits (info (ss_root s)) = n \<and> ss_evaluated s = n \<and>
     length (ss_archive s) + ss_rejected s = n \<and> ss_rejected_plausibility s \<le> ss_rejected s \<and>
     list_all (accepted_result cfg n) (ss_archive s) \<and>
     length (filter (is_evaluation True) (ss_trace s)) = length (ss_archive s) \<and>
     length (filter (is_evaluation False) (ss_trace s)) = ss_rejected s"

lemma admit_proposals_events:
  "ev \<in> set (snd (admit_proposals env cfg it i ps seen)) \<Longrightarrow> \<not> is_evaluation b ev"
proof (induction env cfg it i ps seen rule: admit_proposals.induct)
  case (2 env cfg it i p ps seen)
  then show ?case by (auto simp: Let_def split: if_splits prod.splits)
qed simp

lemma widen_events: "widen env cfg it w t = (path, t', evs) \<Longrightarrow> filter (is_evaluation b) evs = []"
  using admit_proposals_events
  by (auto simp: widen_def expand_node_def Let_def filter_empty_conv split: if_splits prod.splits) (metis snd_conv)+

lemma judge_cases:
  assumes "judge cfg h v = (plausible, accepted, reason)"
  shows "accepted \<Longrightarrow> fst (plausibility cfg h v) \<and> fst (gate cfg h v)" and "accepted \<Longrightarrow> plausible"
  using assms by (auto simp: judge_def Let_def split: if_splits prod.splits)

lemma accepted_result_mono: "list_all (accepted_result cfg n) rs \<Longrightarrow> list_all (accepted_result cfg (Suc n)) rs"
  by (auto simp: list_all_iff accepted_result_def)

lemma search_iteration_inv:
  assumes "search_inv cfg n s" and ok: "\<And>h. objectives_ok (evaluator cfg h)"
  shows "search_inv cfg (Suc n) (search_iteration env cfg n s)"
proof -
  let ?w = "normalized_weights (WEIGHT_BANK ! (n mod length WEIGHT_BANK))"
  obtain path t evs where w: "widen env cfg n ?w (ss_root s) = (path, t, evs)" by (metis prod.collapse)
  let ?h = "ni_hypothesis (info (node_at path t))"
  let ?v = "evaluator cfg ?h"
  obtain pl acc why where j: "judge cfg ?h ?v = (pl, acc, why)" by (metis prod.collapse)
  have s: "tree_ok cfg (ss_root s)" "ni_visits (info (ss_root s)) = n" using assms(1) by (simp_all add: search_inv_def)
  note t = widen_ok [OF s(1) w]
  have r: "reward_ok (if acc then obj_values ?v else zero_values)"
    using ok [of ?h] by (simp add: reward_ok_def objectives_ok_def list_all_iff zero_values_def)
  have "tree_ok cfg (backpropagate (if acc then obj_values ?v else zero_values) path t)"
    using backpropagate_ok [of cfg t path, OF _ _ r] t by blast
  moreover have "ni_visits (info (backpropagate (if acc then obj_values ?v else zero_values) path t)) = Suc n"
    using t s(2) by (simp add: info_backpropagate credit_info_def)
  ultimately show ?thesis
    using assms(1) judge_cases [OF j] widen_events [OF w] accepted_result_mono
    by (simp add: search_iteration_def Let_def w j search_inv_def accepted_result_def)
qed

lemma start_search_inv: "search_inv cfg 0 (start_search h)"
  by (simp add: search_inv_def start_search_def new_node_ok)

lemma search_state_inv:
  assumes "\<And>h. objectives_ok (evaluator cfg h)"
  shows "search_inv cfg n (search_state_after env cfg h n)"
proof (induction n)
  case 0
  show ?case by (simp add: search_state_after_def start_search_inv)
next
  case (Suc n)
  then show ?case
    using search_iteration_inv [of cfg n _ env, OF _ assms] by (simp add: search_state_after_def)
qed

end
