(* ===== verification/Discovery_Properties.thy ===== *)
theory Discovery_Properties
  imports Pareto_Laws
begin

text \<open>
  Properties of the Pareto tree search: what the archive of a search contains, what its counters
  and its tree add up to, and what the tolerance of the dominance test costs.
\<close>

section \<open>A small search\<close>

text \<open>A root and one child, a gate that accepts everything.\<close>

definition sample_hypothesis :: "string \<Rightarrow> hypothesis" where
  "sample_hypothesis k = \<lparr>hypothesis_id = k, hy_claim = ''c'', hy_boundary = ''b'', support_evidence = [''d@1''],
     counter_queries = [''q''], physical_checks = [''p''], hy_metadata = []\<rparr>"

definition sample_objectives :: "rat list \<Rightarrow> objectives" where
  "sample_objectives vs = \<lparr>predictive_utility = vs ! 0, evidence_sufficiency = vs ! 1, counterevidence_survival = vs ! 2,
     database_validation = 1, falsifiability = 1, physical_validity = 1, simplicity = 1\<rparr>"

definition sample_config :: search_config where
  "sample_config = \<lparr>expander = (\<lambda>h. []), evaluator = (\<lambda>h. sample_objectives [1, 1, 1]),
     gate = default_acceptance_gate, plausibility = (\<lambda>h v. (True, '''')), prune = (\<lambda>p. (True, '''')),
     exploration = 1, max_depth = 3\<rparr>"

definition search_env :: py_env where
  "search_env = \<lparr>sha256 = (\<lambda>s. s), fromisoformat = (\<lambda>s. Some True)\<rparr>"

lemma sample_objectives_ok: "objectives_ok (evaluator sample_config h)"
  by (simp add: sample_config_def sample_objectives_def objectives_ok_def obj_values_def)

lemma sample_descend: "descend sample_config w (new_node h a p d) = []"
  by (subst descend.simps) (simp add: new_node_def)

lemma sample_search:
  "ss_archive (search_state_after search_env sample_config (sample_hypothesis ''h'') 1) =
     [\<lparr>sr_hypothesis = sample_hypothesis ''h'', sr_objectives = sample_objectives [1, 1, 1], sr_path = [], sr_iteration = 0\<rparr>]"
proof -
  have g: "default_acceptance_gate (sample_hypothesis ''h'') (sample_objectives [1, 1, 1]) = (True, ''accepted'')"
    by code_simp
  show ?thesis
    by (simp add: search_state_after_def search_iteration_def start_search_def widen_def Let_def judge_def
        sample_descend sample_config_def [symmetric]) 
      (simp add: new_node_def sample_config_def judge_def g Let_def)
qed

section \<open>The archive\<close>

lemma front_subset: "set (pareto_front rs) \<subseteq> set rs"
  using candidates_subset [of rs] by (auto simp: front_member_iff)

lemma search_report:
  assumes "search env cfg h n = Inr r"
  shows "pareto_archive r = pareto_front (ss_archive (search_state_after env cfg h (nat n)))"
    and "sp_evaluated r = ss_evaluated (search_state_after env cfg h (nat n))"
    and "rejected_by_gate r = ss_rejected (search_state_after env cfg h (nat n))"
    and "rejected_by_plausibility r = ss_rejected_plausibility (search_state_after env cfg h (nat n))"
    and "sp_trace r = ss_trace (search_state_after env cfg h (nat n))"
    and "1 \<le> n"
proof -
  have n: "\<not> n < 1" using assms by (cases "n < 1") (simp_all add: search_def)
  let ?s = "search_state_after env cfg h (nat n)"
  have r: "r = \<lparr>pareto_archive = pareto_front (ss_archive ?s), sp_evaluated = ss_evaluated ?s,
      rejected_by_gate = ss_rejected ?s, rejected_by_plausibility = ss_rejected_plausibility ?s,
      sp_pruned = length (filter is_prune (ss_trace ?s)), sp_trace = ss_trace ?s\<rparr>"
    using assms unfolding search_def if_not_P [OF n] Let_def by (rule sum.inject(2) [THEN iffD1, symmetric])
  show "1 \<le> n" using n by simp
  show "pareto_archive r = pareto_front (ss_archive ?s)" "sp_evaluated r = ss_evaluated ?s" "rejected_by_gate r = ss_rejected ?s"
    "rejected_by_plausibility r = ss_rejected_plausibility ?s" "sp_trace r = ss_trace ?s"
    unfolding r by (simp_all only: search_report.select_convs)
qed

lemma dominates_irrefl: "\<not> dominates v v"
  using dominance_eps_pos by (auto simp: dominates_iff)

lemma front_antichain:
  "x \<in> set (pareto_front rs) \<Longrightarrow> y \<in> set (pareto_front rs) \<Longrightarrow> \<not> dominates (sr_objectives y) (sr_objectives x)"
  using dominates_irrefl [of "sr_objectives x"] unfolding front_member_iff by (cases "y = x") blast+

text \<open>
  C23. Every result in the archive of a search carries the objectives the evaluator gave its
  hypothesis, passed the plausibility check and the acceptance gate with them, and is dominated by
  no result in the archive.
\<close>

theorem archive_passed_the_gate:
  assumes "search env cfg h n = Inr r" and "\<And>h. objectives_ok (evaluator cfg h)"
  shows "list_all (\<lambda>x. accepted_result cfg (nat n) x \<and>
     list_all (\<lambda>y. \<not> dominates (sr_objectives y) (sr_objectives x)) (pareto_archive r)) (pareto_archive r)"
proof -
  let ?rs = "ss_archive (search_state_after env cfg h (nat n))"
  have "list_all (accepted_result cfg (nat n)) ?rs"
    using search_state_inv [OF assms(2)] by (simp add: search_inv_def)
  moreover have "set (pareto_archive r) \<subseteq> set ?rs"
    unfolding search_report(1) [OF assms(1)] by (rule front_subset)
  moreover have "\<not> dominates (sr_objectives y) (sr_objectives x)"
    if "x \<in> set (pareto_archive r)" "y \<in> set (pareto_archive r)" for x y
    using that unfolding search_report(1) [OF assms(1)] by (rule front_antichain)
  ultimately show ?thesis unfolding list_all_iff by blast
qed

lemma search_sample_run:
  obtains r where "search search_env sample_config (sample_hypothesis ''h'') 1 = Inr r"
    and "pareto_archive r = pareto_front [\<lparr>sr_hypothesis = sample_hypothesis ''h'',
       sr_objectives = sample_objectives [1, 1, 1], sr_path = [], sr_iteration = 0\<rparr>]"
proof -
  obtain r where r: "search search_env sample_config (sample_hypothesis ''h'') 1 = Inr r"
    by (simp add: search_def Let_def)
  have "pareto_archive r = pareto_front (ss_archive (search_state_after search_env sample_config (sample_hypothesis ''h'') 1))"
    using search_report(1) [OF r] by simp
  then show ?thesis using that r sample_search by simp
qed

theorem archive_passed_the_gate_witness:
  "\<exists>r. search search_env sample_config (sample_hypothesis ''h'') 1 = Inr r \<and>
     list_all (\<lambda>x. accepted_result sample_config 1 x) (pareto_archive r)"
proof -
  obtain r where r: "search search_env sample_config (sample_hypothesis ''h'') 1 = Inr r" by (rule search_sample_run)
  show ?thesis using archive_passed_the_gate [OF r sample_objectives_ok] r by (auto simp: list_all_iff)
qed

text \<open>
  C24. Every iteration of a search is accounted for: it is one visit of the root, one evaluation,
  and one entry of the trace, accepted or rejected; and in the tree the children of a node are one
  level deeper, within the depth limit, with no more visits together than the node and with value
  sums between zero and the visits.
\<close>

theorem search_accounts_for_iterations:
  assumes "search env cfg h n = Inr r" and "\<And>h. objectives_ok (evaluator cfg h)"
  shows "\<exists>s. s = search_state_after env cfg h (nat n) \<and> tree_ok cfg (ss_root s) \<and>
     ni_visits (info (ss_root s)) = nat n \<and> sp_evaluated r = nat n \<and>
     length (filter (is_evaluation True) (sp_trace r)) = length (ss_archive s) \<and>
     length (filter (is_evaluation False) (sp_trace r)) = rejected_by_gate r \<and>
     length (ss_archive s) + rejected_by_gate r = nat n \<and>
     rejected_by_plausibility r \<le> rejected_by_gate r"
  using search_state_inv [OF assms(2), where h = h and n = "nat n" and env = env]
  by (simp add: search_report [OF assms(1)] search_inv_def)

theorem search_accounts_for_iterations_witness:
  "\<exists>r. search search_env sample_config (sample_hypothesis ''h'') 1 = Inr r \<and> sp_evaluated r = 1"
proof -
  obtain r where r: "search search_env sample_config (sample_hypothesis ''h'') 1 = Inr r" by (rule search_sample_run)
  show ?thesis using search_accounts_for_iterations [OF r sample_objectives_ok] r by auto
qed

text \<open>
  The archive covers what was accepted: when the objective values of the accepted results are
  equal or further apart than the tolerance, then for every accepted hypothesis a result with its
  id is in the archive, or is dominated in the exact Pareto order by a result in the archive; so the
  archive is empty only if nothing was accepted.
\<close>

theorem archive_covers_accepted:
  assumes "search env cfg h n = Inr r"
    and "\<And>a b. a \<in> set (ss_archive (search_state_after env cfg h (nat n))) \<Longrightarrow>
       b \<in> set (ss_archive (search_state_after env cfg h (nat n))) \<Longrightarrow> separated (sr_objectives a) (sr_objectives b)"
    and "x \<in> set (ss_archive (search_state_after env cfg h (nat n)))"
  shows "\<exists>c \<in> set (ss_archive (search_state_after env cfg h (nat n))). result_id c = result_id x \<and>
     (\<exists>f \<in> set (pareto_archive r). f = c \<or> pareto (sr_objectives f) (sr_objectives c))"
proof -
  let ?rs = "ss_archive (search_state_after env cfg h (nat n))"
  have "result_id x \<in> result_id ` candidates ?rs" using assms(3) by (simp add: candidates_ids)
  then obtain c where c: "c \<in> candidates ?rs" "result_id c = result_id x" by auto
  then show ?thesis
    using front_complete [OF assms(2) c(1)] candidates_subset search_report(1) [OF assms(1)] by fastforce
qed

theorem archive_covers_accepted_witness:
  "\<exists>r. search search_env sample_config (sample_hypothesis ''h'') 1 = Inr r \<and> pareto_archive r \<noteq> []"
proof -
  obtain r where r: "search search_env sample_config (sample_hypothesis ''h'') 1 = Inr r" by (rule search_sample_run)
  let ?x = "\<lparr>sr_hypothesis = sample_hypothesis ''h'', sr_objectives = sample_objectives [1, 1, 1], sr_path = [],
    sr_iteration = 0 :: nat\<rparr>"
  have s: "ss_archive (search_state_after search_env sample_config (sample_hypothesis ''h'') (nat 1)) = [?x]"
    using sample_search by simp
  have "\<exists>c \<in> set [?x]. result_id c = result_id ?x \<and>
      (\<exists>f \<in> set (pareto_archive r). f = c \<or> pareto (sr_objectives f) (sr_objectives c))"
    unfolding s [symmetric] by (rule archive_covers_accepted [OF r]) (simp_all only: s, simp_all add: separated_def)
  then show ?thesis using r by auto
qed

text \<open>Three results in a cycle of dominance.\<close>

definition cycle_result :: "string \<Rightarrow> rat list \<Rightarrow> nat \<Rightarrow> search_result" where
  "cycle_result k vs i = \<lparr>sr_hypothesis = sample_hypothesis k,
     sr_objectives = sample_objectives (map (\<lambda>v. 1 / 2 + v * dominance_eps) vs), sr_path = [], sr_iteration = i\<rparr>"

definition cycle_results :: "search_result list" where
  "cycle_results = [cycle_result ''a'' [3/2, 0, 3/4] 0, cycle_result ''b'' [0, 3/4, 3/2] 1,
     cycle_result ''c'' [3/4, 3/2, 0] 2]"

text \<open>
  The tolerance makes dominance a relation with cycles: there are three results, all accepted by
  the default gate, each of which the next one dominates, and their archive is empty.
\<close>

theorem archive_can_be_empty:
  "length cycle_results = 3 \<and>
   list_all (\<lambda>r. default_acceptance_gate (sr_hypothesis r) (sr_objectives r) = (True, ''accepted'')) cycle_results \<and>
   pareto_front cycle_results = []"
  by code_simp

end
