(* ===== verification/Artifacts.thy ===== *)
theory Artifacts
  imports Events Contracts
begin

text \<open>
  The artifact store (\<open>src/orchestration/artifacts.py\<close>): blobs named by the SHA-256 of their
  content, one directory per tenant, and an index of logical keys in SQLite.

  Contents are lists of bytes; \<open>digest\<close> is \<open>hashlib.sha256(...).hexdigest()\<close> on bytes, a parameter.
  The blob directory is a partial map from the tenant digest and the content digest (the two-letter
  shard is a prefix of the latter) to bytes.  \<open>put_bytes\<close> touches the index and the directory in
  separate steps, so a call is a process with a phase: it can be interleaved with other calls and
  can die after any step, which leaves at most an unindexed blob or a temporary file.
\<close>

section \<open>Model\<close>

record artifact_ref =
  ref_tenant_id :: string
  ref_job_id :: string
  logical_key :: string
  content_sha256 :: string
  size_bytes :: int
  media_type :: string

record artifact_row =
  art_ref :: artifact_ref
  art_created_at :: time

record artifact_store =
  artifact_rows :: "artifact_row list"
  blobs :: "string \<times> string \<Rightarrow> string option"

definition empty_artifacts :: artifact_store where
  "empty_artifacts = \<lparr>artifact_rows = [], blobs = (\<lambda>k. None)\<rparr>"

definition checkpoint_value :: "artifact_ref \<Rightarrow> json" where
  "checkpoint_value r = JObj [(''logical_key'', JStr (logical_key r)),
     (''content_sha256'', JStr (content_sha256 r)), (''size_bytes'', JInt (size_bytes r)),
     (''media_type'', JStr (media_type r))]"

text \<open>\<open>[A-Za-z0-9._:-]{1,200}\<close> under \<open>fullmatch\<close>.\<close>

definition id_char :: "char \<Rightarrow> bool" where
  "id_char c \<longleftrightarrow> (let n = (of_char c :: nat) in (65 \<le> n \<and> n \<le> 90) \<or> (97 \<le> n \<and> n \<le> 122) \<or> (48 \<le> n \<and> n \<le> 57)) \<or>
     c \<in> set ''._:-''"

definition safe_id :: "string \<Rightarrow> bool" where
  "safe_id s \<longleftrightarrow> s \<noteq> [] \<and> length s \<le> 200 \<and> list_all id_char s"

definition validate_id :: "string \<Rightarrow> unit result" where
  "validate_id s = (if safe_id s then Inr () else Inl (ArtifactError ''unsafe characters or length''))"

definition blob_key :: "(string \<Rightarrow> string) \<Rightarrow> string \<Rightarrow> string \<Rightarrow> string \<times> string" where
  "blob_key digest tenant d = (digest tenant, d)"

definition ref_key :: "artifact_ref \<Rightarrow> string \<times> string \<times> string" where
  "ref_key r = (ref_tenant_id r, ref_job_id r, logical_key r)"

definition find_ref :: "string \<times> string \<times> string \<Rightarrow> artifact_store \<Rightarrow> artifact_ref option" where
  "find_ref k s = map_option art_ref (row_by (\<lambda>row. ref_key (art_ref row)) k (artifact_rows s))"

definition get_ref :: "string \<times> string \<times> string \<Rightarrow> artifact_store \<Rightarrow> artifact_ref result" where
  "get_ref k s = (case find_ref k s of None \<Rightarrow> Inl (ArtifactError ''artifact not found'') | Some r \<Rightarrow> Inr r)"

definition read_bytes :: "(string \<Rightarrow> string) \<Rightarrow> artifact_ref \<Rightarrow> artifact_store \<Rightarrow> string result" where
  "read_bytes digest r s = bind_result (get_ref (ref_key r) s) (\<lambda>current.
     if current \<noteq> r then Inl (ArtifactIntegrityError ''artifact reference does not match index'')
     else (case blobs s (blob_key digest (ref_tenant_id r) (content_sha256 r)) of
       None \<Rightarrow> Inl (ArtifactIntegrityError ''artifact blob is missing'')
     | Some content \<Rightarrow>
         if int (length content) \<noteq> size_bytes r
         then Inl (ArtifactIntegrityError ''artifact size does not match index'')
         else if digest content \<noteq> content_sha256 r
         then Inl (ArtifactIntegrityError ''artifact content hash does not match index'')
         else Inr content))"

text \<open>\<open>loads\<close> is \<open>json.loads\<close> on bytes: \<open>None\<close> when it raises \<open>JSONDecodeError\<close>.\<close>

definition read_json ::
  "(string \<Rightarrow> string) \<Rightarrow> (string \<Rightarrow> json option) \<Rightarrow> artifact_ref \<Rightarrow> artifact_store \<Rightarrow> json result" where
  "read_json digest loads r s =
     (if media_type r \<noteq> ''application/json'' then Inl (ArtifactError ''artifact is not JSON'')
      else bind_result (read_bytes digest r s) (\<lambda>content. case loads content of
        None \<Rightarrow> Inl (ArtifactIntegrityError ''JSON artifact cannot be decoded'')
      | Some v \<Rightarrow> if is_dict v then Inr v else Inl (ArtifactIntegrityError ''JSON artifact root is not an object'')))"

section \<open>Writing\<close>

record put_request =
  put_tenant_id :: string
  put_job_id :: string
  put_logical_key :: string
  put_content :: string
  put_media_type :: string

definition check_put :: "put_request \<Rightarrow> unit result" where
  "check_put r = bind_result (validate_id (put_tenant_id r)) (\<lambda>u.
     bind_result (validate_id (put_job_id r)) (\<lambda>u.
     bind_result (validate_id (put_logical_key r)) (\<lambda>u.
       if put_content r = [] then Inl (ArtifactError ''artifact content must be non-empty bytes'')
       else if blank (put_media_type r) \<or> length (put_media_type r) > 200
       then Inl (ArtifactError ''media_type is required and bounded'')
       else Inr ())))"

text \<open>The reference a successful call returns.\<close>

definition ref_of :: "(string \<Rightarrow> string) \<Rightarrow> put_request \<Rightarrow> artifact_ref" where
  "ref_of digest r = \<lparr>ref_tenant_id = put_tenant_id r, ref_job_id = put_job_id r, logical_key = put_logical_key r,
     content_sha256 = digest (put_content r), size_bytes = int (length (put_content r)), media_type = put_media_type r\<rparr>"

definition same_content :: "artifact_ref \<Rightarrow> artifact_ref \<Rightarrow> bool" where
  "same_content a b \<longleftrightarrow> (content_sha256 a, size_bytes a, media_type a) = (content_sha256 b, size_bytes b, media_type b)"

datatype put_phase =
    PutStart
  | PutReplay artifact_ref
  | PutLink
  | PutVerify
  | PutIndex
  | PutFetch
  | PutDone "artifact_ref result"

text \<open>
  One step of a call.  Creating the temporary file and linking it is one step: the link does
  nothing when another call has created the blob meanwhile.
\<close>

definition put_step ::
  "(string \<Rightarrow> string) \<Rightarrow> time \<Rightarrow> put_request \<Rightarrow> put_phase \<Rightarrow> artifact_store \<Rightarrow> put_phase \<times> artifact_store" where
  "put_step digest now r ph s =
     (let ref = ref_of digest r; bk = blob_key digest (put_tenant_id r) (content_sha256 ref) in
      case ph of
        PutStart \<Rightarrow> (case check_put r of
          Inl e \<Rightarrow> (PutDone (Inl e), s)
        | Inr u \<Rightarrow> (case find_ref (ref_key ref) s of
            Some existing \<Rightarrow>
              if \<not> same_content existing ref
              then (PutDone (Inl (ArtifactConflict ''logical artifact key already has different content'')), s)
              else (PutReplay existing, s)
          | None \<Rightarrow> (PutLink, s)))
      | PutReplay existing \<Rightarrow> (PutDone (bind_result (read_bytes digest existing s) (\<lambda>content. Inr existing)), s)
      | PutLink \<Rightarrow> (PutVerify, if blobs s bk = None then s\<lparr>blobs := (blobs s)(bk \<mapsto> put_content r)\<rparr> else s)
      | PutVerify \<Rightarrow> (case blobs s bk of
          None \<Rightarrow> (PutDone (Inl (FileNotFoundError ''blob'')), s)
        | Some content \<Rightarrow>
            if digest content \<noteq> content_sha256 ref
            then (PutDone (Inl (ArtifactIntegrityError ''content-addressed blob failed verification'')), s)
            else (PutIndex, s))
      | PutIndex \<Rightarrow> (case find_ref (ref_key ref) s of
          None \<Rightarrow> (PutFetch, s\<lparr>artifact_rows := artifact_rows s @ [\<lparr>art_ref = ref, art_created_at = now\<rparr>]\<rparr>)
        | Some existing \<Rightarrow>
            if \<not> same_content existing ref
            then (PutDone (Inl (ArtifactConflict ''logical artifact key raced with different content'')), s)
            else (PutFetch, s))
      | PutFetch \<Rightarrow> (PutDone (get_ref (ref_key ref) s), s)
      | PutDone res \<Rightarrow> (PutDone res, s))"

text \<open>A call that nothing interrupts: at most five steps.\<close>

fun put_steps ::
  "(string \<Rightarrow> string) \<Rightarrow> time \<Rightarrow> put_request \<Rightarrow> nat \<Rightarrow> put_phase \<times> artifact_store \<Rightarrow> put_phase \<times> artifact_store" where
  "put_steps digest now r 0 c = c"
| "put_steps digest now r (Suc k) c = put_steps digest now r k (put_step digest now r (fst c) (snd c))"

definition put_bytes ::
  "(string \<Rightarrow> string) \<Rightarrow> time \<Rightarrow> put_request \<Rightarrow> artifact_store \<Rightarrow> artifact_ref result \<times> artifact_store" where
  "put_bytes digest now r s = (case put_steps digest now r 5 (PutStart, s) of
     (PutDone res, s') \<Rightarrow> (res, s')
   | (ph, s') \<Rightarrow> (Inl (RuntimeError ''unfinished''), s'))"

definition utf8 :: "string \<Rightarrow> string" where
  "utf8 s = concat (map (\<lambda>c. let n = (of_char c :: nat) in
     if n < 128 then [c] else [char_of (192 + n div 64), char_of (128 + n mod 64)]) s)"

definition put_json ::
  "(string \<Rightarrow> string) \<Rightarrow> time \<Rightarrow> string \<Rightarrow> string \<Rightarrow> string \<Rightarrow> json \<Rightarrow> artifact_store \<Rightarrow>
   artifact_ref result \<times> artifact_store" where
  "put_json digest now tenant job key v s =
     (case bind_result (validate_durable_payload v ''artifact'') (\<lambda>u. canonical_json v) of
       Inl e \<Rightarrow> (Inl e, s)
     | Inr text \<Rightarrow> put_bytes digest now \<lparr>put_tenant_id = tenant, put_job_id = job, put_logical_key = key,
         put_content = utf8 (text @ [CHR 0x0A]), put_media_type = ''application/json''\<rparr> s)"

section \<open>Concurrent and dying calls\<close>

record artifact_world =
  aw_store :: artifact_store
  aw_calls :: "(put_request \<times> put_phase) list"

fun put_finished :: "put_phase \<Rightarrow> bool" where
  "put_finished (PutDone res) = True"
| "put_finished ph = False"

datatype artifact_op = BeginPut put_request | AdvancePut nat time | KillPut nat

definition artifact_step :: "(string \<Rightarrow> string) \<Rightarrow> artifact_op \<Rightarrow> artifact_world \<Rightarrow> unit \<times> artifact_world" where
  "artifact_step digest op w = ((), case op of
     BeginPut r \<Rightarrow> w\<lparr>aw_calls := aw_calls w @ [(r, PutStart)]\<rparr>
   | AdvancePut i now \<Rightarrow>
       if i < length (aw_calls w)
       then let (r, ph) = aw_calls w ! i; (ph', s') = put_step digest now r ph (aw_store w)
         in \<lparr>aw_store = s', aw_calls = (aw_calls w)[i := (r, ph')]\<rparr>
       else w
   | KillPut i \<Rightarrow>
       if i < length (aw_calls w) \<and> \<not> put_finished (snd (aw_calls w ! i))
       then w\<lparr>aw_calls := (aw_calls w)[i := (fst (aw_calls w ! i), PutDone (Inl (RuntimeError ''process died'')))]\<rparr>
       else w)"

definition artifact_run :: "(string \<Rightarrow> string) \<Rightarrow> artifact_op list \<Rightarrow> artifact_world \<Rightarrow> artifact_world" where
  "artifact_run digest = run_ops (artifact_step digest)"

end
