(* ===== verification/Retention.thy ===== *)
theory Retention
  imports Artifacts Ledger Job_Store
begin

text \<open>
  Retention (\<open>src/operations/retention.py\<close>): planning the deletion of terminal jobs of a tenant,
  and executing a reviewed plan over the job store, the artifact store and the event ledgers.

  The three stores, the quarantine directories and the audit log are one record.  Execution moves
  the ledgers and blobs of the plan to a quarantine one by one, then deletes the rows in one
  transaction that has held the write locks of both databases since before the moves; an exception
  rolls back and moves the files back.  A process that dies between the moves and the commit is
  \<open>die_before_commit\<close>.  Path resolution, the decoding of ledger lines, the digests, the printing of
  floats and SQLite's checkpoint result are parameters.
\<close>

section \<open>Model\<close>

record retention_env =
  re_env :: py_env
  re_digest :: "string \<Rightarrow> string"
  re_lines :: "string \<Rightarrow> raw_line list"
  re_float :: "time \<Rightarrow> string"
  re_escapes :: "string \<Rightarrow> string \<Rightarrow> bool"

datatype moved_file =
    MovedLedger "string \<times> string" string
  | MovedBlob "string \<times> string" string

record repository =
  rp_jobs :: job_db
  rp_artifacts :: artifact_store
  rp_ledgers :: "string \<times> string \<Rightarrow> string option"
  rp_quarantine :: "(string \<times> moved_file list) list"
  rp_audit :: "json list"

record ledger_stat =
  ls_size_bytes :: int
  ls_sha256 :: string
  ls_event_count :: nat
  ls_head_sha256 :: string

record binding =
  bd_logical_key :: string
  bd_content_sha256 :: string
  bd_size_bytes :: int
  bd_media_type :: string

record target =
  tg_job_id :: string
  tg_status :: job_status
  tg_updated_at :: time
  tg_ledger :: ledger_stat
  tg_bindings :: "binding list"

record blob_record =
  bl_content_sha256 :: string
  bl_size_bytes :: int

record plan_core =
  pc_schema_version :: int
  pc_plan_id :: string
  pc_generated_at :: string
  pc_tenant_id :: string
  pc_cutoff_epoch :: time
  pc_targets :: "target list"
  pc_deletable_blobs :: "blob_record list"

record retention_plan =
  rt_core :: plan_core
  plan_sha256 :: string

definition target_json :: "(time \<Rightarrow> string) \<Rightarrow> target \<Rightarrow> json" where
  "target_json fl t = JObj [(''job_id'', JStr (tg_job_id t)), (''status'', JStr (status_value (tg_status t))),
     (''updated_at'', JFloat (fl (tg_updated_at t))),
     (''ledger'', JObj [(''size_bytes'', JInt (ls_size_bytes (tg_ledger t))), (''sha256'', JStr (ls_sha256 (tg_ledger t))),
        (''event_count'', JInt (int (ls_event_count (tg_ledger t)))), (''head_sha256'', JStr (ls_head_sha256 (tg_ledger t)))]),
     (''artifact_bindings'', JList (map (\<lambda>b. JObj [(''logical_key'', JStr (bd_logical_key b)),
        (''content_sha256'', JStr (bd_content_sha256 b)), (''size_bytes'', JInt (bd_size_bytes b)),
        (''media_type'', JStr (bd_media_type b))]) (tg_bindings t)))]"

definition core_json :: "(time \<Rightarrow> string) \<Rightarrow> plan_core \<Rightarrow> json" where
  "core_json fl p = JObj [(''schema_version'', JInt (pc_schema_version p)), (''plan_id'', JStr (pc_plan_id p)),
     (''generated_at'', JStr (pc_generated_at p)), (''tenant_id'', JStr (pc_tenant_id p)),
     (''cutoff_epoch'', JFloat (fl (pc_cutoff_epoch p))),
     (''eligibility'', JStr ''terminal jobs with updated_at at or before cutoff''),
     (''targets'', JList (map (target_json fl) (pc_targets p))),
     (''deletable_blobs'', JList (map (\<lambda>b. JObj [(''content_sha256'', JStr (bl_content_sha256 b)),
        (''size_bytes'', JInt (bl_size_bytes b))]) (pc_deletable_blobs p)))]"

definition plan_digest :: "retention_env \<Rightarrow> plan_core \<Rightarrow> string result" where
  "plan_digest re p = bind_result (canonical_json (core_json (re_float re) p)) (\<lambda>text. Inr (sha256 (re_env re) text))"

definition require_safe_id :: "string \<Rightarrow> unit result" where
  "require_safe_id s = (if safe_id s then Inr () else Inl (RetentionError ''contains unsafe characters or length''))"

section \<open>Facts about the stores\<close>

definition binding_of :: "artifact_ref \<Rightarrow> binding" where
  "binding_of r = \<lparr>bd_logical_key = logical_key r, bd_content_sha256 = content_sha256 r,
     bd_size_bytes = size_bytes r, bd_media_type = media_type r\<rparr>"

text \<open>\<open>WHERE tenant_id=? AND job_id=? ORDER BY logical_key\<close>\<close>

definition bindings_of :: "string \<Rightarrow> string \<Rightarrow> artifact_store \<Rightarrow> binding list" where
  "bindings_of tenant jid s = sort_key bd_logical_key (map (\<lambda>row. binding_of (art_ref row))
     (filter (\<lambda>row. ref_tenant_id (art_ref row) = tenant \<and> ref_job_id (art_ref row) = jid) (artifact_rows s)))"

text \<open>The jobs that refer to a content.\<close>

definition referring_jobs :: "string \<Rightarrow> string \<Rightarrow> artifact_store \<Rightarrow> string list" where
  "referring_jobs tenant d s = map (\<lambda>row. ref_job_id (art_ref row))
     (filter (\<lambda>row. ref_tenant_id (art_ref row) = tenant \<and> content_sha256 (art_ref row) = d) (artifact_rows s))"

definition ledger_stat_of :: "retention_env \<Rightarrow> string \<Rightarrow> (bool \<times> ledger_stat) result" where
  "ledger_stat_of re bytes = bind_result (ledger_verify (re_env re) (re_lines re bytes)) (\<lambda>v.
     Inr (report_ok v, \<lparr>ls_size_bytes = int (length bytes), ls_sha256 = re_digest re bytes,
       ls_event_count = report_event_count v, ls_head_sha256 = report_head_hash v\<rparr>))"

section \<open>Planning\<close>

definition plan_target :: "retention_env \<Rightarrow> string \<Rightarrow> repository \<Rightarrow> job \<Rightarrow> target result" where
  "plan_target re tenant rp j =
     bind_result (require_safe_id (job_id j)) (\<lambda>u.
       if re_escapes re tenant (job_id j) then Inl (RetentionError ''resolved retention path escapes its declared root'')
       else (case rp_ledgers rp (tenant, job_id j) of
         None \<Rightarrow> Inl (RetentionError ''eligible job has no safe event ledger'')
       | Some bytes \<Rightarrow> bind_result (ledger_stat_of re bytes) (\<lambda>(ok, stat).
           if \<not> ok then Inl (RetentionError ''eligible job has an invalid event ledger'')
           else Inr \<lparr>tg_job_id = job_id j, tg_status = status j, tg_updated_at = updated_at j,
             tg_ledger = stat, tg_bindings = bindings_of tenant (job_id j) (rp_artifacts rp)\<rparr>)))"

fun plan_targets :: "retention_env \<Rightarrow> string \<Rightarrow> repository \<Rightarrow> job list \<Rightarrow> target list result" where
  "plan_targets re tenant rp [] = Inr []"
| "plan_targets re tenant rp (j # js) =
     (if status j \<notin> set TERMINAL then plan_targets re tenant rp js
      else bind_result (plan_target re tenant rp j) (\<lambda>t.
        bind_result (plan_targets re tenant rp js) (\<lambda>ts. Inr (t # ts))))"

definition eligible_jobs :: "string \<Rightarrow> time \<Rightarrow> job_db \<Rightarrow> job list" where
  "eligible_jobs tenant cutoff db = sort_key job_id
     (filter (\<lambda>j. tenant_id j = tenant \<and> updated_at j \<le> cutoff) (jobs db))"

definition candidate_digests :: "target list \<Rightarrow> string list" where
  "candidate_digests ts = sort (remdups (map bd_content_sha256 (concat (map tg_bindings ts))))"

text \<open>\<open>expected_sizes != {size}\<close>: some binding of the content has another size.\<close>

definition sizes_match :: "target list \<Rightarrow> string \<Rightarrow> int \<Rightarrow> bool" where
  "sizes_match ts d n \<longleftrightarrow> list_all (\<lambda>b. bd_content_sha256 b = d \<longrightarrow> bd_size_bytes b = n) (concat (map tg_bindings ts))"

fun plan_blobs :: "retention_env \<Rightarrow> string \<Rightarrow> repository \<Rightarrow> target list \<Rightarrow> string list \<Rightarrow> blob_record list result" where
  "plan_blobs re tenant rp ts [] = Inr []"
| "plan_blobs re tenant rp ts (d # ds) =
     (if list_ex (\<lambda>j. j \<notin> set (map tg_job_id ts)) (referring_jobs tenant d (rp_artifacts rp))
      then plan_blobs re tenant rp ts ds
      else (case blobs (rp_artifacts rp) (blob_key (re_digest re) tenant d) of
        None \<Rightarrow> Inl (RetentionError ''indexed deletion blob is absent or unsafe'')
      | Some content \<Rightarrow>
          if \<not> sizes_match ts d (int (length content)) \<or> re_digest re content \<noteq> d
          then Inl (RetentionError ''indexed deletion blob failed verification'')
          else bind_result (plan_blobs re tenant rp ts ds) (\<lambda>bs.
            Inr (\<lparr>bl_content_sha256 = d, bl_size_bytes = int (length content)\<rparr> # bs))))"

text \<open>\<open>plan_id\<close> is the fresh UUID, \<open>generated\<close> the printed time \<open>now\<close>.\<close>

definition build_retention_plan ::
  "retention_env \<Rightarrow> string \<Rightarrow> string \<Rightarrow> string \<Rightarrow> time \<Rightarrow> time \<Rightarrow> repository \<Rightarrow> retention_plan result" where
  "build_retention_plan re plan_id generated tenant cutoff now rp =
     bind_result (require_safe_id tenant) (\<lambda>u.
       if \<not> (0 \<le> cutoff \<and> cutoff \<le> now) then Inl (RetentionError ''cutoff must be a finite past epoch'')
       else bind_result (plan_targets re tenant rp (eligible_jobs tenant cutoff (rp_jobs rp))) (\<lambda>ts.
         bind_result (plan_blobs re tenant rp ts (candidate_digests ts)) (\<lambda>bs.
           let core = \<lparr>pc_schema_version = 1, pc_plan_id = plan_id, pc_generated_at = generated,
             pc_tenant_id = tenant, pc_cutoff_epoch = cutoff, pc_targets = ts, pc_deletable_blobs = bs\<rparr>
           in bind_result (plan_digest re core) (\<lambda>d. Inr \<lparr>rt_core = core, plan_sha256 = d\<rparr>))))"

section \<open>Execution\<close>

definition validate_plan :: "retention_env \<Rightarrow> retention_plan \<Rightarrow> string \<Rightarrow> plan_core result" where
  "validate_plan re p ack =
     (if pc_schema_version (rt_core p) \<noteq> 1 then Inl (RetentionError ''unsupported retention plan'')
      else bind_result (plan_digest re (rt_core p)) (\<lambda>d.
        if plan_sha256 p \<noteq> d \<or> ack \<noteq> d
        then Inl (RetentionError ''plan digest or explicit acknowledgement does not match'')
        else bind_result (require_safe_id (pc_tenant_id (rt_core p))) (\<lambda>u.
          bind_result (require_safe_id (pc_plan_id (rt_core p))) (\<lambda>u. Inr (rt_core p)))))"

text \<open>The files while the execution moves them, and the targets passed so far.\<close>

record move_state =
  mv_ledgers :: "string \<times> string \<Rightarrow> string option"
  mv_blobs :: "string \<times> string \<Rightarrow> string option"
  mv_moved :: "moved_file list"
  mv_ids :: "string list"

text \<open>The checks on one target; the result is its ledger file.\<close>

definition check_target ::
  "retention_env \<Rightarrow> plan_core \<Rightarrow> repository \<Rightarrow> target \<Rightarrow> move_state \<Rightarrow> string result" where
  "check_target re p rp t st = (let tenant = pc_tenant_id p; jid = tg_job_id t in
     bind_result (require_safe_id jid) (\<lambda>u.
       case find (\<lambda>j. job_id j = jid \<and> tenant_id j = tenant) (jobs (rp_jobs rp)) of
         None \<Rightarrow> Inl (RetentionError ''job state changed after planning'')
       | Some j \<Rightarrow>
           if status j \<noteq> tg_status t \<or> updated_at j \<noteq> tg_updated_at t
           then Inl (RetentionError ''job state changed after planning'')
           else if status j \<notin> set TERMINAL then Inl (RetentionError ''non-terminal job cannot be deleted'')
           else if updated_at j > pc_cutoff_epoch p
           then Inl (RetentionError ''job falls outside the retention cutoff'')
           else if bindings_of tenant jid (rp_artifacts rp) \<noteq> tg_bindings t
           then Inl (RetentionError ''artifact bindings changed after planning'')
           else if re_escapes re tenant jid
           then Inl (RetentionError ''resolved retention path escapes its declared root'')
           else (case mv_ledgers st (tenant, jid) of
             None \<Rightarrow> Inl (RetentionError ''event ledger changed after planning'')
           | Some bytes \<Rightarrow> bind_result (ledger_stat_of re bytes) (\<lambda>(ok, stat).
               if \<not> ok \<or> stat \<noteq> tg_ledger t
               then Inl (RetentionError ''event ledger changed after planning'') else Inr bytes))))"

fun move_targets ::
  "retention_env \<Rightarrow> plan_core \<Rightarrow> repository \<Rightarrow> target list \<Rightarrow> move_state \<Rightarrow> unit result \<times> move_state" where
  "move_targets re p rp [] st = (Inr (), st)"
| "move_targets re p rp (t # ts) st = (case check_target re p rp t st of
     Inl e \<Rightarrow> (Inl e, st)
   | Inr bytes \<Rightarrow> let k = (pc_tenant_id p, tg_job_id t) in
       move_targets re p rp ts (st\<lparr>mv_ledgers := (mv_ledgers st)(k := None),
         mv_moved := mv_moved st @ [MovedLedger k bytes], mv_ids := mv_ids st @ [tg_job_id t]\<rparr>))"

definition check_blob ::
  "retention_env \<Rightarrow> plan_core \<Rightarrow> repository \<Rightarrow> blob_record \<Rightarrow> move_state \<Rightarrow> string result" where
  "check_blob re p rp b st = (let tenant = pc_tenant_id p; d = bl_content_sha256 b in
     if \<not> is_hex64 d then Inl (RetentionError ''plan contains an invalid content digest'')
     else if list_ex (\<lambda>j. j \<notin> set (mv_ids st)) (referring_jobs tenant d (rp_artifacts rp))
     then Inl (RetentionError ''planned blob gained a surviving reference'')
     else (case mv_blobs st (blob_key (re_digest re) tenant d) of
       None \<Rightarrow> Inl (RetentionError ''planned blob changed after planning'')
     | Some content \<Rightarrow>
         if int (length content) \<noteq> bl_size_bytes b \<or> re_digest re content \<noteq> d
         then Inl (RetentionError ''planned blob changed after planning'') else Inr content))"

fun move_blobs ::
  "retention_env \<Rightarrow> plan_core \<Rightarrow> repository \<Rightarrow> blob_record list \<Rightarrow> move_state \<Rightarrow> unit result \<times> move_state" where
  "move_blobs re p rp [] st = (Inr (), st)"
| "move_blobs re p rp (b # bs) st = (case check_blob re p rp b st of
     Inl e \<Rightarrow> (Inl e, st)
   | Inr content \<Rightarrow> let k = blob_key (re_digest re) (pc_tenant_id p) (bl_content_sha256 b) in
       move_blobs re p rp bs (st\<lparr>mv_blobs := (mv_blobs st)(k := None),
         mv_moved := mv_moved st @ [MovedBlob k content]\<rparr>))"

definition start_moves :: "repository \<Rightarrow> move_state" where
  "start_moves rp = \<lparr>mv_ledgers = rp_ledgers rp, mv_blobs = blobs (rp_artifacts rp), mv_moved = [], mv_ids = []\<rparr>"

definition move_files :: "retention_env \<Rightarrow> plan_core \<Rightarrow> repository \<Rightarrow> unit result \<times> move_state" where
  "move_files re p rp = (case move_targets re p rp (pc_targets p) (start_moves rp) of
     (Inl e, st) \<Rightarrow> (Inl e, st)
   | (Inr u, st) \<Rightarrow> move_blobs re p rp (pc_deletable_blobs p) st)"

text \<open>Moving the files back, last first, where the place is still free.\<close>

type_synonym files = "string \<times> string \<Rightarrow> string option"

fun restore_one :: "moved_file \<Rightarrow> files \<times> files \<Rightarrow> files \<times> files" where
  "restore_one (MovedLedger k bytes) (L, B) = (if L k = None then (L(k \<mapsto> bytes), B) else (L, B))"
| "restore_one (MovedBlob k bytes) (L, B) = (if B k = None then (L, B(k \<mapsto> bytes)) else (L, B))"

definition restore :: "move_state \<Rightarrow> files \<times> files" where
  "restore st = fold restore_one (rev (mv_moved st)) (mv_ledgers st, mv_blobs st)"

definition with_files :: "files \<times> files \<Rightarrow> repository \<Rightarrow> repository" where
  "with_files fs rp = rp\<lparr>rp_ledgers := fst fs, rp_artifacts := (rp_artifacts rp)\<lparr>blobs := snd fs\<rparr>\<rparr>"

text \<open>The two deletions of one target; the checkpoints and charges of the job go with it.\<close>

definition delete_job ::
  "string \<Rightarrow> string \<Rightarrow> job_db \<times> artifact_row list \<Rightarrow> (job_db \<times> artifact_row list) result" where
  "delete_job tenant jid s = (let (db, rows) = s;
       hit = filter (\<lambda>j. tenant_id j = tenant \<and> job_id j = jid) (jobs db)
     in if length hit \<noteq> 1 then Inl (RetentionError ''control deletion lost its planned target'')
        else Inr (\<lparr>jobs = filter (\<lambda>j. \<not> (tenant_id j = tenant \<and> job_id j = jid)) (jobs db),
            checkpoint_rows = filter (\<lambda>c. cp_job_id c \<noteq> jid) (checkpoint_rows db),
            usage_rows = filter (\<lambda>u. us_job_id u \<noteq> jid) (usage_rows db)\<rparr>,
          filter (\<lambda>row. \<not> (ref_tenant_id (art_ref row) = tenant \<and> ref_job_id (art_ref row) = jid)) rows))"

fun delete_jobs ::
  "string \<Rightarrow> string list \<Rightarrow> job_db \<times> artifact_row list \<Rightarrow> (job_db \<times> artifact_row list) result" where
  "delete_jobs tenant [] s = Inr s"
| "delete_jobs tenant (jid # ids) s = bind_result (delete_job tenant jid s) (delete_jobs tenant ids)"

section \<open>Audit\<close>

definition audit_record :: "retention_env \<Rightarrow> plan_core \<Rightarrow> string \<Rightarrow> string \<Rightarrow> (string \<times> json) list \<Rightarrow> json" where
  "audit_record re p ack kind extra = JObj ([(''schema_version'', JInt 1), (''operation_id'', JStr (pc_plan_id p)),
     (''tenant_sha256'', JStr (re_digest re (pc_tenant_id p))), (''plan_sha256'', JStr ack),
     (''event_type'', JStr kind)] @ extra)"

definition append_audit :: "json \<Rightarrow> repository \<Rightarrow> repository" where
  "append_audit v rp = rp\<lparr>rp_audit := rp_audit rp @ [v]\<rparr>"

definition prepared :: "retention_env \<Rightarrow> plan_core \<Rightarrow> string \<Rightarrow> string \<times> string \<Rightarrow> json" where
  "prepared re p ack clock = audit_record re p ack ''RETENTION_PREPARED''
     [(''recorded_at'', JStr (fst clock)), (''planned_jobs'', JInt (int (length (pc_targets p))))]"

definition aborted :: "retention_env \<Rightarrow> plan_core \<Rightarrow> string \<Rightarrow> string \<times> string \<Rightarrow> json" where
  "aborted re p ack clock = audit_record re p ack ''RETENTION_ABORTED'' [(''recorded_at'', JStr (snd clock))]"

definition completed_record :: "retention_env \<Rightarrow> plan_core \<Rightarrow> string \<Rightarrow> string \<times> string \<Rightarrow> bool \<Rightarrow> nat \<Rightarrow> json" where
  "completed_record re p ack clock wal n = audit_record re p ack ''RETENTION_COMPLETED''
     [(''completed_at'', JStr (snd clock)), (''deleted_jobs'', JInt (int n)),
      (''deleted_artifact_bindings'', JInt (int (length (concat (map tg_bindings (pc_targets p)))))),
      (''deleted_exclusive_blobs'', JInt (int (length (pc_deletable_blobs p)))),
      (''deleted_ledgers'', JInt (int n)), (''secure_delete_enabled'', JBool True),
      (''wal_checkpoint_complete'', JBool wal), (''external_api_calls'', JInt 0)]"

text \<open>\<open>clock\<close> holds the printed times of the first and of the last audit record.\<close>

text \<open>The handler of an exception before the commit: move back, remove the quarantine, record it.\<close>

definition abort_execution ::
  "retention_env \<Rightarrow> plan_core \<Rightarrow> string \<Rightarrow> string \<times> string \<Rightarrow> move_state \<Rightarrow> repository \<Rightarrow> repository" where
  "abort_execution re p ack clock st rp = append_audit (aborted re p ack clock) (with_files (restore st)
     (rp\<lparr>rp_quarantine := filter (\<lambda>(k, files). k \<noteq> pc_plan_id p) (rp_quarantine rp)\<rparr>))"

definition execute_retention_plan ::
  "retention_env \<Rightarrow> string \<times> string \<Rightarrow> bool \<Rightarrow> retention_plan \<Rightarrow> string \<Rightarrow> repository \<Rightarrow> json result \<times> repository" where
  "execute_retention_plan re clock wal plan ack rp = (case validate_plan re plan ack of
     Inl e \<Rightarrow> (Inl e, rp)
   | Inr p \<Rightarrow> let rp = append_audit (prepared re p ack clock) rp in
       if map_of (rp_quarantine rp) (pc_plan_id p) \<noteq> None
       then (Inl (RetentionError ''retention operation quarantine already exists''),
         abort_execution re p ack clock (start_moves rp) rp)
       else (case move_files re p rp of
         (Inl e, st) \<Rightarrow> (Inl e, abort_execution re p ack clock st rp)
       | (Inr u, st) \<Rightarrow> (case delete_jobs (pc_tenant_id p) (mv_ids st) (rp_jobs rp, artifact_rows (rp_artifacts rp)) of
           Inl e \<Rightarrow> (Inl e, abort_execution re p ack clock st rp)
         | Inr (db, rows) \<Rightarrow>
             let receipt = completed_record re p ack clock wal (length (mv_ids st)) in
             (Inr receipt, append_audit receipt ((with_files (mv_ledgers st, mv_blobs st) rp)\<lparr>rp_jobs := db,
               rp_artifacts := \<lparr>artifact_rows = rows, blobs = mv_blobs st\<rparr>\<rparr>)))))"

text \<open>The process dies after the moves: SQLite rolls back by itself, the files stay in quarantine.\<close>

definition die_before_commit ::
  "retention_env \<Rightarrow> string \<times> string \<Rightarrow> retention_plan \<Rightarrow> string \<Rightarrow> repository \<Rightarrow> repository" where
  "die_before_commit re clock plan ack rp = (case validate_plan re plan ack of
     Inl e \<Rightarrow> rp
   | Inr p \<Rightarrow> let rp = append_audit (prepared re p ack clock) rp in
       if map_of (rp_quarantine rp) (pc_plan_id p) \<noteq> None then rp
       else let st = snd (move_files re p rp) in
         (with_files (mv_ledgers st, mv_blobs st) rp)\<lparr>rp_quarantine := (pc_plan_id p, mv_moved st) # rp_quarantine rp\<rparr>)"

end
