(* ===== verification/Artifact_Laws.thy ===== *)
theory Artifact_Laws
  imports Artifacts
begin

text \<open>
  The invariant of the artifact store under concurrent and dying calls, what a call never takes
  back, and the effect of a call that nothing interrupts.  The invariant says that blobs are stored
  under the digest of their content, that every indexed artifact has its blob, and what each
  phase of a call has already established.
\<close>

section \<open>Invariant\<close>

definition collision :: "(string \<Rightarrow> string) \<Rightarrow> string \<Rightarrow> string \<Rightarrow> bool" where
  "collision digest c d \<longleftrightarrow> c \<noteq> d \<and> digest c = digest d"

text \<open>The blob of a reference exists; the reference was made from some content.\<close>

definition blob_present :: "(string \<Rightarrow> string) \<Rightarrow> artifact_ref \<Rightarrow> artifact_store \<Rightarrow> bool" where
  "blob_present digest r s \<longleftrightarrow> blobs s (blob_key digest (ref_tenant_id r) (content_sha256 r)) \<noteq> None"

definition ref_ok :: "(string \<Rightarrow> string) \<Rightarrow> artifact_ref \<Rightarrow> bool" where
  "ref_ok digest r \<longleftrightarrow> (\<exists>q. check_put q = Inr () \<and> r = ref_of digest q)"

definition store_ok :: "(string \<Rightarrow> string) \<Rightarrow> artifact_store \<Rightarrow> bool" where
  "store_ok digest s \<longleftrightarrow> distinct (map (\<lambda>row. ref_key (art_ref row)) (artifact_rows s)) \<and>
     (\<forall>k c. blobs s k = Some c \<longrightarrow> digest c = snd k) \<and>
     (\<forall>row \<in> set (artifact_rows s). ref_ok digest (art_ref row) \<and> blob_present digest (art_ref row) s)"

fun phase_ok :: "(string \<Rightarrow> string) \<Rightarrow> artifact_store \<Rightarrow> put_request \<Rightarrow> put_phase \<Rightarrow> bool" where
  "phase_ok digest s r PutStart = True"
| "phase_ok digest s r (PutReplay ref) = (ref = ref_of digest r \<and> find_ref (ref_key ref) s = Some ref)"
| "phase_ok digest s r PutLink = (check_put r = Inr ())"
| "phase_ok digest s r PutVerify = (check_put r = Inr () \<and> blob_present digest (ref_of digest r) s)"
| "phase_ok digest s r PutIndex = (check_put r = Inr () \<and> blob_present digest (ref_of digest r) s)"
| "phase_ok digest s r PutFetch = (find_ref (ref_key (ref_of digest r)) s = Some (ref_of digest r))"
| "phase_ok digest s r (PutDone res) = (\<forall>ref. res = Inr ref \<longrightarrow>
     ref = ref_of digest r \<and> find_ref (ref_key ref) s = Some ref)"

definition artifact_inv :: "(string \<Rightarrow> string) \<Rightarrow> artifact_world \<Rightarrow> bool" where
  "artifact_inv digest w \<longleftrightarrow> store_ok digest (aw_store w) \<and>
     list_all (\<lambda>(r, ph). phase_ok digest (aw_store w) r ph) (aw_calls w)"

text \<open>Nothing durable is taken back: index entries and blobs stay, finished calls keep their result.\<close>

definition store_le :: "artifact_store \<Rightarrow> artifact_store \<Rightarrow> bool" where
  "store_le s t \<longleftrightarrow> (\<exists>rows. artifact_rows t = artifact_rows s @ rows) \<and> blobs s \<subseteq>\<^sub>m blobs t"

definition artifact_le :: "artifact_world \<Rightarrow> artifact_world \<Rightarrow> bool" where
  "artifact_le v w \<longleftrightarrow> store_le (aw_store v) (aw_store w) \<and> length (aw_calls v) \<le> length (aw_calls w) \<and>
     (\<forall>i < length (aw_calls v). fst (aw_calls w ! i) = fst (aw_calls v ! i) \<and>
        (put_finished (snd (aw_calls v ! i)) \<longrightarrow> aw_calls w ! i = aw_calls v ! i))"

lemma store_le_refl: "store_le s s"
  by (simp add: store_le_def)

lemma store_le_trans: "store_le s t \<Longrightarrow> store_le t u \<Longrightarrow> store_le s u"
  by (auto simp: store_le_def intro: map_le_trans)

lemma ref_key_ref_of: "ref_key (ref_of digest r) = (put_tenant_id r, put_job_id r, put_logical_key r)"
  by (simp add: ref_key_def ref_of_def)

lemma same_content_ref_of:
  assumes "same_content a (ref_of digest r)" and "ref_key a = ref_key (ref_of digest r)"
  shows "a = ref_of digest r"
  using assms by (cases a) (simp add: same_content_def ref_key_def ref_of_def)

lemma find_ref_SomeD: "find_ref k s = Some a \<Longrightarrow> (\<exists>row \<in> set (artifact_rows s). art_ref row = a) \<and> ref_key a = k"
  by (auto simp: find_ref_def dest!: row_by_SomeD)

lemma find_ref_le: "store_le s t \<Longrightarrow> find_ref k s = Some a \<Longrightarrow> find_ref k t = Some a"
  by (auto simp: store_le_def find_ref_def row_by_append)

lemma map_le_SomeD: "m \<subseteq>\<^sub>m m' \<Longrightarrow> m k = Some v \<Longrightarrow> m' k = Some v"
  by (metis domI map_le_def)

lemma blob_present_le: "store_le s t \<Longrightarrow> blob_present digest r s \<Longrightarrow> blob_present digest r t"
  by (auto simp: store_le_def blob_present_def dest: map_le_SomeD)

lemma find_ref_same: "find_ref (ref_key (ref_of digest r)) s = Some a \<Longrightarrow> same_content a (ref_of digest r) \<Longrightarrow> a = ref_of digest r"
  using find_ref_SomeD same_content_ref_of by blast

lemma phase_ok_le: "store_le s t \<Longrightarrow> phase_ok digest s r ph \<Longrightarrow> phase_ok digest t r ph"
  by (cases ph) (auto intro: find_ref_le blob_present_le)

lemma read_bytes_error: "read_bytes digest a s = Inr c \<Longrightarrow> digest c = content_sha256 a \<and> int (length c) = size_bytes a"
  by (auto simp: read_bytes_def split: if_splits option.splits)

section \<open>One step\<close>

lemma blob_key_ref_of: "blob_key digest (put_tenant_id r) (content_sha256 (ref_of digest r)) =
    blob_key digest (ref_tenant_id (ref_of digest r)) (content_sha256 (ref_of digest r))"
  by (simp add: ref_of_def)

lemma put_step_ok:
  assumes ok: "store_ok digest s" "phase_ok digest s r ph" and step: "put_step digest now r ph s = (ph', s')"
  shows "store_ok digest s' \<and> phase_ok digest s' r ph' \<and> store_le s s'"
proof (cases ph)
  case PutStart
  then show ?thesis
    using step ok find_ref_same [of digest r s]
    by (auto simp: put_step_def Let_def store_le_refl split: sum.splits option.splits if_splits)
next
  case (PutReplay a)
  then show ?thesis using step ok by (auto simp: put_step_def Let_def store_le_refl)
next
  case PutLink
  let ?k = "blob_key digest (put_tenant_id r) (digest (put_content r))"
  show ?thesis
  proof (cases "blobs s ?k")
    case None
    have s': "s' = s\<lparr>blobs := (blobs s)(?k \<mapsto> put_content r)\<rparr>" "ph' = PutVerify"
      using step PutLink None by (auto simp: put_step_def Let_def ref_of_def)
    have le: "store_le s s'" using None by (auto simp: store_le_def s' map_le_def)
    have "store_ok digest s'"
      using ok(1) blob_present_le [OF le] by (auto simp: store_ok_def s' blob_key_def)
    then show ?thesis using le ok(2) PutLink by (simp add: s' blob_present_def ref_of_def)
  next
    case (Some c)
    then show ?thesis
      using step ok PutLink by (auto simp: put_step_def Let_def ref_of_def store_le_refl blob_present_def)
  qed
next
  case PutVerify
  then show ?thesis
    using step ok by (auto simp: put_step_def Let_def store_le_refl split: option.splits if_splits)
next
  case PutIndex
  show ?thesis
  proof (cases "find_ref (ref_key (ref_of digest r)) s")
    case None
    let ?row = "\<lparr>art_ref = ref_of digest r, art_created_at = now\<rparr>"
    have s': "s' = s\<lparr>artifact_rows := artifact_rows s @ [?row]\<rparr>" "ph' = PutFetch"
      using step PutIndex None by (auto simp: put_step_def Let_def)
    have le: "store_le s s'" by (simp add: store_le_def s')
    have d: "distinct (map (\<lambda>row. ref_key (art_ref row)) (artifact_rows s @ [?row]))"
      using ok(1) None by (intro distinct_snoc_key) (simp_all add: store_ok_def find_ref_def)
    have "store_ok digest s'"
      using ok PutIndex d blob_present_le [OF le] by (auto simp: store_ok_def s' ref_ok_def)
    then show ?thesis using le None by (simp add: s' find_ref_def row_by_append row_by_Cons)
  next
    case (Some a)
    then show ?thesis
      using step PutIndex ok same_content_ref_of [of a digest r] find_ref_SomeD [OF Some]
      by (auto simp: put_step_def Let_def store_le_refl split: if_splits)
  qed
next
  case PutFetch
  then show ?thesis using step ok by (auto simp: put_step_def Let_def store_le_refl get_ref_def)
next
  case (PutDone res)
  then show ?thesis using step ok by (auto simp: put_step_def Let_def store_le_refl)
qed

lemma put_step_done: "put_finished ph \<Longrightarrow> put_step digest now r ph s = (ph, s)"
  by (cases ph) (simp_all add: put_step_def Let_def)

lemma calls_ok_update:
  assumes "store_le s s'" and "list_all (\<lambda>(r, ph). phase_ok digest s r ph) calls" and "phase_ok digest s' r ph'"
  shows "list_all (\<lambda>(r, ph). phase_ok digest s' r ph) (calls[i := (r, ph')])"
proof -
  have "list_all (\<lambda>(r, ph). phase_ok digest s' r ph) calls"
    using assms(2) phase_ok_le [OF assms(1)] by (auto simp: list_all_iff)
  then show ?thesis using assms(3) set_update_subset_insert [of calls i "(r, ph')"] by (auto simp: list_all_iff)
qed

lemma artifact_step_ok:
  assumes "artifact_inv digest w"
  shows "artifact_inv digest (snd (artifact_step digest op w)) \<and> artifact_le w (snd (artifact_step digest op w))"
proof (cases op)
  case (BeginPut r)
  then show ?thesis
    using assms by (auto simp: artifact_step_def artifact_inv_def artifact_le_def store_le_refl nth_append)
next
  case (AdvancePut i now)
  show ?thesis
  proof (cases "i < length (aw_calls w)")
    case True
    obtain r ph where c: "aw_calls w ! i = (r, ph)" by (cases "aw_calls w ! i")
    obtain ph' s' where p: "put_step digest now r ph (aw_store w) = (ph', s')" by (metis prod.collapse)
    have ok: "store_ok digest (aw_store w)" "phase_ok digest (aw_store w) r ph"
      "list_all (\<lambda>(r, ph). phase_ok digest (aw_store w) r ph) (aw_calls w)"
      using assms True c by (auto simp: artifact_inv_def list_all_length)
    note step = put_step_ok [OF ok(1,2) p]
    have w': "snd (artifact_step digest op w) = \<lparr>aw_store = s', aw_calls = (aw_calls w)[i := (r, ph')]\<rparr>"
      using AdvancePut True c p by (simp add: artifact_step_def)
    have "put_finished ph \<Longrightarrow> ph' = ph" using put_step_done [of ph] p by auto
    then have "artifact_le w (snd (artifact_step digest op w))"
      using step True c by (auto simp: w' artifact_le_def nth_list_update)
    moreover have "artifact_inv digest (snd (artifact_step digest op w))"
      using step calls_ok_update [OF _ ok(3)] by (simp add: w' artifact_inv_def)
    ultimately show ?thesis by blast
  next
    case False
    then show ?thesis using AdvancePut assms by (simp add: artifact_step_def artifact_le_def store_le_refl)
  qed
next
  case (KillPut i)
  then show ?thesis
    using assms calls_ok_update [OF store_le_refl, of digest "aw_store w" "aw_calls w" "fst (aw_calls w ! i)"
        "PutDone (Inl (RuntimeError ''process died''))" i]
    by (auto simp: artifact_step_def artifact_inv_def artifact_le_def store_le_refl nth_list_update)
qed

lemma artifact_le_refl: "artifact_le w w"
  by (simp add: artifact_le_def store_le_refl)

lemma artifact_le_trans: "artifact_le u v \<Longrightarrow> artifact_le v w \<Longrightarrow> artifact_le u w"
  unfolding artifact_le_def using store_le_trans by (auto 0 3)

interpretation artifacts: progress_machine "artifact_step digest" "artifact_inv digest" artifact_le for digest
  by unfold_locales (use artifact_step_ok artifact_le_refl artifact_le_trans in blast)+

section \<open>Reading back\<close>

text \<open>No stored blob collides with a content.\<close>

definition no_collision :: "(string \<Rightarrow> string) \<Rightarrow> artifact_store \<Rightarrow> string \<Rightarrow> bool" where
  "no_collision digest s content \<longleftrightarrow> (\<forall>k c. blobs s k = Some c \<longrightarrow> \<not> collision digest c content)"

lemma read_bytes_indexed:
  assumes "store_ok digest s" and "find_ref (ref_key a) s = Some a" and "a = ref_of digest r"
    and "no_collision digest s (put_content r)"
  shows "read_bytes digest a s = Inr (put_content r)"
proof -
  obtain row where "row \<in> set (artifact_rows s)" "art_ref row = a" using find_ref_SomeD [OF assms(2)] by blast
  then obtain c where c: "blobs s (blob_key digest (ref_tenant_id a) (content_sha256 a)) = Some c"
    using assms(1) by (auto simp: store_ok_def blob_present_def)
  then have "digest c = digest (put_content r)"
    using assms(1,3) by (simp only: store_ok_def) (auto simp: blob_key_def ref_of_def)
  then have "c = put_content r" using assms(4) c unfolding no_collision_def collision_def by blast
  then show ?thesis using c assms(2,3) by (simp add: read_bytes_def get_ref_def ref_of_def)
qed

section \<open>A call that nothing interrupts\<close>

text \<open>What the store promises: a map from keys to references that are never replaced.\<close>

definition put_spec ::
  "(string \<Rightarrow> string) \<Rightarrow> put_request \<Rightarrow> (string \<times> string \<times> string \<Rightarrow> artifact_ref option) \<Rightarrow>
   artifact_ref result \<times> (string \<times> string \<times> string \<Rightarrow> artifact_ref option)" where
  "put_spec digest r m = (let ref = ref_of digest r in case check_put r of
     Inl e \<Rightarrow> (Inl e, m)
   | Inr u \<Rightarrow> (case m (ref_key ref) of
       None \<Rightarrow> (Inr ref, m(ref_key ref \<mapsto> ref))
     | Some a \<Rightarrow> if same_content a ref then (Inr a, m)
         else (Inl (ArtifactConflict ''logical artifact key already has different content''), m)))"

lemma put_bytes_done: "put_step digest now r PutStart s = (PutDone res, s') \<Longrightarrow> put_bytes digest now r s = (res, s')"
  by (simp add: put_bytes_def eval_nat_numeral put_step_done)

lemma put_bytes_replay:
  assumes "put_step digest now r PutStart s = (PutReplay a, s)"
  shows "put_bytes digest now r s = (bind_result (read_bytes digest a s) (\<lambda>content. Inr a), s)"
proof -
  have "put_step digest now r (PutReplay a) s = (PutDone (bind_result (read_bytes digest a s) (\<lambda>content. Inr a)), s)"
    by (simp add: put_step_def Let_def)
  then show ?thesis using assms by (simp add: put_bytes_def eval_nat_numeral put_step_done)
qed

lemma put_bytes_new:
  assumes ok: "store_ok digest s" and c: "check_put r = Inr ()" and n: "find_ref (ref_key (ref_of digest r)) s = None"
  obtains s' where "put_bytes digest now r s = (Inr (ref_of digest r), s')"
    and "artifact_rows s' = artifact_rows s @ [\<lparr>art_ref = ref_of digest r, art_created_at = now\<rparr>]"
proof -
  let ?bk = "blob_key digest (put_tenant_id r) (content_sha256 (ref_of digest r))"
  define s1 where "s1 = (if blobs s ?bk = None then s\<lparr>blobs := (blobs s)(?bk \<mapsto> put_content r)\<rparr> else s)"
  define s2 where "s2 = s1\<lparr>artifact_rows := artifact_rows s1 @ [\<lparr>art_ref = ref_of digest r, art_created_at = now\<rparr>]\<rparr>"
  have p0: "put_step digest now r PutStart s = (PutLink, s)" using c n by (simp add: put_step_def Let_def)
  have p1: "put_step digest now r PutLink s = (PutVerify, s1)" by (simp add: put_step_def Let_def s1_def)
  have "store_ok digest s1 \<and> phase_ok digest s1 r PutVerify"
    using put_step_ok [OF ok _ p1] c by simp
  then obtain b where "blobs s1 ?bk = Some b" "digest b = content_sha256 (ref_of digest r)"
    by (auto simp: store_ok_def blob_present_def blob_key_def ref_of_def)
  then have p2: "put_step digest now r PutVerify s1 = (PutIndex, s1)" by (simp add: put_step_def Let_def)
  have n1: "find_ref (ref_key (ref_of digest r)) s1 = None" using n by (simp add: s1_def find_ref_def)
  then have p3: "put_step digest now r PutIndex s1 = (PutFetch, s2)" by (simp add: put_step_def Let_def s2_def)
  have "find_ref (ref_key (ref_of digest r)) s2 = Some (ref_of digest r)"
    using n1 by (simp add: find_ref_def s2_def row_by_append row_by_Cons)
  then have p4: "put_step digest now r PutFetch s2 = (PutDone (Inr (ref_of digest r)), s2)"
    by (simp add: put_step_def Let_def get_ref_def)
  have "put_bytes digest now r s = (Inr (ref_of digest r), s2)"
    using p0 p1 p2 p3 p4 by (simp add: put_bytes_def eval_nat_numeral)
  moreover have "artifact_rows s2 = artifact_rows s @ [\<lparr>art_ref = ref_of digest r, art_created_at = now\<rparr>]"
    by (simp add: s2_def s1_def)
  ultimately show ?thesis by (rule that)
qed

lemma find_ref_snoc:
  "artifact_rows s' = artifact_rows s @ [\<lparr>art_ref = a, art_created_at = now\<rparr>] \<Longrightarrow> find_ref (ref_key a) s = None \<Longrightarrow>
   (\<lambda>k. find_ref k s') = (\<lambda>k. find_ref k s)(ref_key a \<mapsto> a)"
  by (rule ext) (auto simp: find_ref_def row_by_append row_by_Cons split: option.splits)

end
