(* ===== verification/Retention_Laws.thy ===== *)
theory Retention_Laws
  imports Retention Artifact_Laws
begin

text \<open>
  What a retention execution does to the stores: an aborted one puts every file back, a completed
  one removes exactly the rows, ledgers and blobs of its targets, and what is left of the artifact
  store is still consistent.
\<close>

section \<open>Moving back\<close>

lemma restore_start: "restore (start_moves rp) = (rp_ledgers rp, blobs (rp_artifacts rp))"
  by (simp add: restore_def start_moves_def)

lemma restore_ledger_moved:
  "mv_ledgers st k = Some bytes \<Longrightarrow>
   restore (st\<lparr>mv_ledgers := (mv_ledgers st)(k := None), mv_moved := mv_moved st @ [MovedLedger k bytes], mv_ids := ids\<rparr>) = restore st"
  by (simp add: restore_def fun_upd_idem)

lemma restore_blob_moved:
  "mv_blobs st k = Some bytes \<Longrightarrow>
   restore (st\<lparr>mv_blobs := (mv_blobs st)(k := None), mv_moved := mv_moved st @ [MovedBlob k bytes]\<rparr>) = restore st"
  by (simp add: restore_def fun_upd_idem)

lemma check_target_ledger: "check_target re p rp t st = Inr bytes \<Longrightarrow> mv_ledgers st (pc_tenant_id p, tg_job_id t) = Some bytes"
  by (auto simp: check_target_def Let_def split: option.splits if_splits)

lemma check_blob_blob: "check_blob re p rp b st = Inr c \<Longrightarrow>
    mv_blobs st (blob_key (re_digest re) (pc_tenant_id p) (bl_content_sha256 b)) = Some c"
  by (auto simp: check_blob_def Let_def split: option.splits if_splits)

lemma move_targets_restore: "move_targets re p rp ts st = (res, st') \<Longrightarrow> restore st' = restore st"
proof (induction re p rp ts st rule: move_targets.induct)
  case (2 re p rp t ts st)
  then show ?case
    using restore_ledger_moved check_target_ledger by (auto simp: Let_def split: sum.splits)
qed simp

lemma move_blobs_restore: "move_blobs re p rp bs st = (res, st') \<Longrightarrow> restore st' = restore st"
proof (induction re p rp bs st rule: move_blobs.induct)
  case (2 re p rp b bs st)
  then show ?case
    using restore_blob_moved check_blob_blob by (auto simp: Let_def split: sum.splits)
qed simp

lemma move_files_restore: "move_files re p rp = (res, st) \<Longrightarrow> restore st = (rp_ledgers rp, blobs (rp_artifacts rp))"
  by (auto simp: move_files_def restore_start split: sum.splits prod.splits dest!: move_targets_restore move_blobs_restore)

lemma with_files_same: "with_files (rp_ledgers rp, blobs (rp_artifacts rp)) rp = rp"
  by (simp add: with_files_def)

lemma abort_execution_same:
  assumes "restore st = (rp_ledgers rp, blobs (rp_artifacts rp))"
  shows "rp_jobs (abort_execution re p ack clock st rp) = rp_jobs rp"
    and "rp_artifacts (abort_execution re p ack clock st rp) = rp_artifacts rp"
    and "rp_ledgers (abort_execution re p ack clock st rp) = rp_ledgers rp"
  using assms by (simp_all add: abort_execution_def append_audit_def with_files_def)

lemma append_audit_simps [simp]:
  "rp_jobs (append_audit v rp) = rp_jobs rp" "rp_artifacts (append_audit v rp) = rp_artifacts rp"
  "rp_ledgers (append_audit v rp) = rp_ledgers rp" "rp_quarantine (append_audit v rp) = rp_quarantine rp"
  by (simp_all add: append_audit_def)

section \<open>Moving away\<close>

definition without :: "'k set \<Rightarrow> ('k \<Rightarrow> 'v option) \<Rightarrow> 'k \<Rightarrow> 'v option" where
  "without S m k = (if k \<in> S then None else m k)"

lemma without_simps [simp]: "without {} m = m" "without S (m(k := None)) = without (insert k S) m"
  "(without S m)(k := None) = without (insert k S) m"
  by (auto simp: without_def fun_eq_iff)

lemma without_Un: "without S (without T m) = without (S \<union> T) m"
  by (auto simp: without_def fun_eq_iff)

text \<open>What the checks on a target establish about its job.\<close>

definition expired_job :: "plan_core \<Rightarrow> job \<Rightarrow> bool" where
  "expired_job p j \<longleftrightarrow> tenant_id j = pc_tenant_id p \<and> status j \<in> set TERMINAL \<and> updated_at j \<le> pc_cutoff_epoch p"

lemma check_target_job:
  assumes "check_target re p rp t st = Inr bytes"
  shows "\<exists>j \<in> set (jobs (rp_jobs rp)). job_id j = tg_job_id t \<and> expired_job p j"
proof -
  obtain j where f: "find (\<lambda>j. job_id j = tg_job_id t \<and> tenant_id j = pc_tenant_id p) (jobs (rp_jobs rp)) = Some j"
    and ok: "status j \<in> set TERMINAL" "\<not> updated_at j > pc_cutoff_epoch p"
    using assms by (auto simp: check_target_def Let_def split: option.splits if_splits)
  then show ?thesis using find_SomeD [OF f] by (auto simp: expired_job_def)
qed

lemma move_targets_effect:
  "move_targets re p rp ts st = (Inr u, st') \<Longrightarrow>
   mv_ids st' = mv_ids st @ map tg_job_id ts \<and> mv_blobs st' = mv_blobs st \<and>
   mv_ledgers st' = without ((\<lambda>t. (pc_tenant_id p, tg_job_id t)) ` set ts) (mv_ledgers st) \<and>
   (\<forall>t \<in> set ts. \<exists>j \<in> set (jobs (rp_jobs rp)). job_id j = tg_job_id t \<and> expired_job p j)"
proof (induction re p rp ts st rule: move_targets.induct)
  case (2 re p rp t ts st)
  then obtain bytes where c: "check_target re p rp t st = Inr bytes" by (auto split: sum.splits)
  then show ?case
    using 2 check_target_job [OF c] by (simp add: Let_def) (auto simp: without_def fun_eq_iff)
qed simp

lemma check_blob_refs:
  "check_blob re p rp b st = Inr c \<Longrightarrow>
   set (referring_jobs (pc_tenant_id p) (bl_content_sha256 b) (rp_artifacts rp)) \<subseteq> set (mv_ids st)"
  by (auto simp: check_blob_def Let_def list_ex_iff split: option.splits if_splits)

lemma move_blobs_effect:
  "move_blobs re p rp bs st = (Inr u, st') \<Longrightarrow>
   mv_ids st' = mv_ids st \<and> mv_ledgers st' = mv_ledgers st \<and>
   mv_blobs st' = without ((\<lambda>b. blob_key (re_digest re) (pc_tenant_id p) (bl_content_sha256 b)) ` set bs) (mv_blobs st) \<and>
   (\<forall>b \<in> set bs. set (referring_jobs (pc_tenant_id p) (bl_content_sha256 b) (rp_artifacts rp)) \<subseteq> set (mv_ids st))"
proof (induction re p rp bs st rule: move_blobs.induct)
  case (2 re p rp b bs st)
  then obtain c where c: "check_blob re p rp b st = Inr c" by (auto split: sum.splits)
  then show ?case
    using 2 check_blob_refs [OF c] by (simp add: Let_def) (auto simp: without_def fun_eq_iff)
qed simp

section \<open>Deleting\<close>

definition survives :: "string \<Rightarrow> string set \<Rightarrow> string \<times> string \<Rightarrow> bool" where
  "survives tenant ids k \<longleftrightarrow> \<not> (fst k = tenant \<and> snd k \<in> ids)"

lemma delete_jobs_effect:
  "delete_jobs tenant ids (db, rows) = Inr (db', rows') \<Longrightarrow>
   jobs db' = filter (\<lambda>j. survives tenant (set ids) (tenant_id j, job_id j)) (jobs db) \<and>
   checkpoint_rows db' = filter (\<lambda>c. cp_job_id c \<notin> set ids) (checkpoint_rows db) \<and>
   usage_rows db' = filter (\<lambda>u. us_job_id u \<notin> set ids) (usage_rows db) \<and>
   rows' = filter (\<lambda>row. survives tenant (set ids) (ref_tenant_id (art_ref row), ref_job_id (art_ref row))) rows"
proof (induction ids arbitrary: db rows)
  case Nil
  then show ?case by (simp add: survives_def)
next
  case (Cons jid ids)
  obtain db1 rows1 where d: "delete_job tenant jid (db, rows) = Inr (db1, rows1)"
    and r: "delete_jobs tenant ids (db1, rows1) = Inr (db', rows')"
    using Cons.prems by (auto simp: bind_result_Inr_iff)
  have d1: "jobs db1 = filter (\<lambda>j. \<not> (tenant_id j = tenant \<and> job_id j = jid)) (jobs db)"
    "checkpoint_rows db1 = filter (\<lambda>c. cp_job_id c \<noteq> jid) (checkpoint_rows db)"
    "usage_rows db1 = filter (\<lambda>u. us_job_id u \<noteq> jid) (usage_rows db)"
    "rows1 = filter (\<lambda>row. \<not> (ref_tenant_id (art_ref row) = tenant \<and> ref_job_id (art_ref row) = jid)) rows"
    using d by (auto simp: delete_job_def Let_def split: if_splits)
  show ?case using Cons.IH [OF r] unfolding d1 filter_filter
    by (elim conjE, intro conjI) (simp_all only:, auto intro!: filter_cong simp: survives_def)
qed

section \<open>A completed execution\<close>

definition target_ids :: "plan_core \<Rightarrow> string set" where
  "target_ids p = tg_job_id ` set (pc_targets p)"

definition blob_keys :: "retention_env \<Rightarrow> plan_core \<Rightarrow> (string \<times> string) set" where
  "blob_keys re p = (\<lambda>b. blob_key (re_digest re) (pc_tenant_id p) (bl_content_sha256 b)) ` set (pc_deletable_blobs p)"

definition retained :: "retention_env \<Rightarrow> plan_core \<Rightarrow> repository \<Rightarrow> repository \<Rightarrow> bool" where
  "retained re p rp rp' \<longleftrightarrow>
     jobs (rp_jobs rp') = filter (\<lambda>j. survives (pc_tenant_id p) (target_ids p) (tenant_id j, job_id j)) (jobs (rp_jobs rp)) \<and>
     checkpoint_rows (rp_jobs rp') = filter (\<lambda>c. cp_job_id c \<notin> target_ids p) (checkpoint_rows (rp_jobs rp)) \<and>
     usage_rows (rp_jobs rp') = filter (\<lambda>u. us_job_id u \<notin> target_ids p) (usage_rows (rp_jobs rp)) \<and>
     artifact_rows (rp_artifacts rp') = filter (\<lambda>row. survives (pc_tenant_id p) (target_ids p)
        (ref_tenant_id (art_ref row), ref_job_id (art_ref row))) (artifact_rows (rp_artifacts rp)) \<and>
     blobs (rp_artifacts rp') = without (blob_keys re p) (blobs (rp_artifacts rp)) \<and>
     rp_ledgers rp' = without ({pc_tenant_id p} \<times> target_ids p) (rp_ledgers rp)"

lemma validate_plan_InrD: "validate_plan re plan ack = Inr p \<Longrightarrow> p = rt_core plan \<and> plan_digest re p = Inr ack \<and> plan_sha256 plan = ack"
  by (auto simp: validate_plan_def split: if_splits)

lemma execute_Inr:
  assumes "execute_retention_plan re clock wal plan ack rp = (Inr receipt, rp')"
  shows "validate_plan re plan ack = Inr (rt_core plan)"
    and "retained re (rt_core plan) rp rp'"
    and "\<forall>i \<in> target_ids (rt_core plan). \<exists>j \<in> set (jobs (rp_jobs rp)). job_id j = i \<and> expired_job (rt_core plan) j"
    and "\<forall>b \<in> set (pc_deletable_blobs (rt_core plan)).
      set (referring_jobs (pc_tenant_id (rt_core plan)) (bl_content_sha256 b) (rp_artifacts rp)) \<subseteq> target_ids (rt_core plan)"
proof -
  let ?p = "rt_core plan"
  show v: "validate_plan re plan ack = Inr ?p"
    using assms validate_plan_InrD by (auto simp: execute_retention_plan_def split: sum.splits)
  let ?rp = "append_audit (prepared re ?p ack clock) rp"
  obtain st db rows where m: "move_files re ?p ?rp = (Inr (), st)"
    and d: "delete_jobs (pc_tenant_id ?p) (mv_ids st) (rp_jobs rp, artifact_rows (rp_artifacts rp)) = Inr (db, rows)"
    and rp': "rp' = append_audit receipt ((with_files (mv_ledgers st, mv_blobs st) ?rp)\<lparr>rp_jobs := db,
        rp_artifacts := \<lparr>artifact_rows = rows, blobs = mv_blobs st\<rparr>\<rparr>)"
    using assms v by (auto simp: execute_retention_plan_def Let_def split: if_splits sum.splits prod.splits)
  obtain st1 where m1: "move_targets re ?p ?rp (pc_targets ?p) (start_moves ?rp) = (Inr (), st1)"
    and m2: "move_blobs re ?p ?rp (pc_deletable_blobs ?p) st1 = (Inr (), st)"
    using m by (auto simp: move_files_def split: sum.splits prod.splits)
  note t = move_targets_effect [OF m1] and b = move_blobs_effect [OF m2]
  have ids: "set (mv_ids st) = target_ids ?p" "set (mv_ids st1) = target_ids ?p"
    using t b by (auto simp: target_ids_def start_moves_def)
  have L: "mv_ledgers st = without ({pc_tenant_id ?p} \<times> target_ids ?p) (rp_ledgers rp)"
    using t b by (simp add: start_moves_def target_ids_def image_image [symmetric] insert_Times_insert [symmetric]) 
      (rule arg_cong2 [where f = without], auto)
  have B: "mv_blobs st = without (blob_keys re ?p) (blobs (rp_artifacts rp))"
    using t b by (simp add: start_moves_def blob_keys_def)
  show "retained re ?p rp rp'"
    using delete_jobs_effect [OF d] L B by (simp add: retained_def rp' ids with_files_def)
  show "\<forall>i \<in> target_ids ?p. \<exists>j \<in> set (jobs (rp_jobs rp)). job_id j = i \<and> expired_job ?p j"
    using t by (auto simp: target_ids_def)
  show "\<forall>b \<in> set (pc_deletable_blobs ?p).
      set (referring_jobs (pc_tenant_id ?p) (bl_content_sha256 b) (rp_artifacts rp)) \<subseteq> target_ids ?p"
    using b ids by simp
qed

lemma execute_Inl:
  assumes "execute_retention_plan re clock wal plan ack rp = (Inl e, rp')"
  shows "rp_jobs rp' = rp_jobs rp \<and> rp_artifacts rp' = rp_artifacts rp \<and> rp_ledgers rp' = rp_ledgers rp"
proof (cases "validate_plan re plan ack")
  case (Inl e')
  then show ?thesis using assms by (simp add: execute_retention_plan_def)
next
  case (Inr p)
  define rp1 where "rp1 = append_audit (prepared re p ack clock) rp"
  obtain res st where m: "move_files re p rp1 = (res, st)" by (cases "move_files re p rp1")
  have "rp' = abort_execution re p ack clock (start_moves rp1) rp1 \<or> rp' = abort_execution re p ack clock st rp1"
    using assms Inr m
    by (auto simp: execute_retention_plan_def Let_def rp1_def [symmetric] split: if_splits sum.splits prod.splits)
  then show ?thesis
    by (elim disjE) (simp_all add: abort_execution_same [OF restore_start] abort_execution_same [OF move_files_restore [OF m]],
      simp_all add: rp1_def)
qed

section \<open>What is left is consistent\<close>

lemma surviving_blob:
  assumes r: "retained re p rp rp'" and row: "row \<in> set (artifact_rows (rp_artifacts rp'))"
    and refs: "\<forall>b \<in> set (pc_deletable_blobs p).
      set (referring_jobs (pc_tenant_id p) (bl_content_sha256 b) (rp_artifacts rp)) \<subseteq> target_ids p"
    and inj: "\<forall>x \<in> set (artifact_rows (rp_artifacts rp)). \<not> collision (re_digest re) (ref_tenant_id (art_ref x)) (pc_tenant_id p)"
  shows "blobs (rp_artifacts rp') (blob_key (re_digest re) (ref_tenant_id (art_ref row)) (content_sha256 (art_ref row))) =
     blobs (rp_artifacts rp) (blob_key (re_digest re) (ref_tenant_id (art_ref row)) (content_sha256 (art_ref row)))"
proof -
  let ?k = "blob_key (re_digest re) (ref_tenant_id (art_ref row)) (content_sha256 (art_ref row))"
  have row': "row \<in> set (artifact_rows (rp_artifacts rp))"
    "survives (pc_tenant_id p) (target_ids p) (ref_tenant_id (art_ref row), ref_job_id (art_ref row))"
    using r row by (auto simp: retained_def)
  have "?k \<notin> blob_keys re p"
  proof
    assume "?k \<in> blob_keys re p"
    then obtain b where b: "b \<in> set (pc_deletable_blobs p)" "content_sha256 (art_ref row) = bl_content_sha256 b"
      "re_digest re (ref_tenant_id (art_ref row)) = re_digest re (pc_tenant_id p)"
      by (auto simp: blob_keys_def blob_key_def)
    then have tenant: "ref_tenant_id (art_ref row) = pc_tenant_id p" using inj row'(1) by (auto simp: collision_def)
    then have "ref_job_id (art_ref row) \<in> set (referring_jobs (pc_tenant_id p) (bl_content_sha256 b) (rp_artifacts rp))"
      using row'(1) b(2) by (auto simp: referring_jobs_def)
    then show False using refs b(1) tenant row'(2) by (auto simp: survives_def)
  qed
  then show ?thesis using r by (simp add: retained_def without_def)
qed

lemma retained_store_ok:
  assumes "retained re p rp rp'" and "store_ok (re_digest re) (rp_artifacts rp)"
    and "\<forall>b \<in> set (pc_deletable_blobs p).
      set (referring_jobs (pc_tenant_id p) (bl_content_sha256 b) (rp_artifacts rp)) \<subseteq> target_ids p"
    and "\<forall>x \<in> set (artifact_rows (rp_artifacts rp)). \<not> collision (re_digest re) (ref_tenant_id (art_ref x)) (pc_tenant_id p)"
  shows "store_ok (re_digest re) (rp_artifacts rp')"
proof -
  have "distinct (map (\<lambda>row. ref_key (art_ref row)) (artifact_rows (rp_artifacts rp')))"
    using assms(1,2) by (simp add: retained_def store_ok_def distinct_map_filter)
  moreover have "re_digest re c = snd k" if "blobs (rp_artifacts rp') k = Some c" for k c
  proof -
    have "blobs (rp_artifacts rp) k = Some c" using assms(1) that by (auto simp: retained_def without_def split: if_splits)
    then show ?thesis using assms(2) by (simp only: store_ok_def)
  qed
  moreover have "ref_ok (re_digest re) (art_ref row) \<and> blob_present (re_digest re) (art_ref row) (rp_artifacts rp')"
    if row: "row \<in> set (artifact_rows (rp_artifacts rp'))" for row
  proof -
    have "row \<in> set (artifact_rows (rp_artifacts rp))" using assms(1) row by (auto simp: retained_def)
    then show ?thesis
      using assms(2) surviving_blob [OF assms(1) row assms(3,4)] by (simp add: store_ok_def blob_present_def)
  qed
  ultimately show ?thesis unfolding store_ok_def by blast
qed

end
