(* ===== verification/Retention_Planning.thy ===== *)
theory Retention_Planning
  imports Retention_Laws
begin

text \<open>
  A plan that was just built can be executed: every check of the execution repeats what the
  planning has found, as long as nothing changes in between.
\<close>

section \<open>The targets\<close>

lemma plan_target_check:
  assumes "plan_target re tenant rp j = Inr t"
    and "find (\<lambda>i. job_id i = job_id j \<and> tenant_id i = tenant) (jobs (rp_jobs rp)) = Some j"
    and "status j \<in> set TERMINAL" and "updated_at j \<le> pc_cutoff_epoch p" and "pc_tenant_id p = tenant"
    and "rp_jobs rp' = rp_jobs rp" and "rp_artifacts rp' = rp_artifacts rp"
    and "mv_ledgers st (tenant, job_id j) = rp_ledgers rp (tenant, job_id j)"
  shows "tg_job_id t = job_id j \<and> (\<exists>bytes. check_target re p rp' t st = Inr bytes)"
proof -
  obtain bytes stat where "require_safe_id (job_id j) = Inr ()" "\<not> re_escapes re tenant (job_id j)"
    "rp_ledgers rp (tenant, job_id j) = Some bytes" "ledger_stat_of re bytes = Inr (True, stat)"
    and t: "t = \<lparr>tg_job_id = job_id j, tg_status = status j, tg_updated_at = updated_at j, tg_ledger = stat,
       tg_bindings = bindings_of tenant (job_id j) (rp_artifacts rp)\<rparr>"
    using assms(1) by (auto simp: plan_target_def bind_result_Inr_iff split: if_splits option.splits)
  then show ?thesis using assms(2-) by (simp add: check_target_def Let_def)
qed

lemma plan_targets_move:
  assumes "plan_targets re tenant rp js = Inr ts" and "distinct (map job_id js)"
    and "\<And>j. j \<in> set js \<Longrightarrow> find (\<lambda>i. job_id i = job_id j \<and> tenant_id i = tenant) (jobs (rp_jobs rp)) = Some j \<and>
        updated_at j \<le> pc_cutoff_epoch p"
    and "pc_tenant_id p = tenant" and "rp_jobs rp' = rp_jobs rp" and "rp_artifacts rp' = rp_artifacts rp"
    and "\<And>j. j \<in> set js \<Longrightarrow> mv_ledgers st (tenant, job_id j) = rp_ledgers rp (tenant, job_id j)"
  shows "\<exists>st'. move_targets re p rp' ts st = (Inr (), st') \<and> set (map tg_job_id ts) \<subseteq> job_id ` set js \<and>
     distinct (map tg_job_id ts)"
  using assms(1-3,7)
proof (induction js arbitrary: ts st)
  case (Cons j js)
  have jf: "find (\<lambda>i. job_id i = job_id j \<and> tenant_id i = tenant) (jobs (rp_jobs rp)) = Some j"
    and ju: "updated_at j \<le> pc_cutoff_epoch p" and jl: "mv_ledgers st (tenant, job_id j) = rp_ledgers rp (tenant, job_id j)"
    using Cons.prems(3,4) by simp_all
  have d: "distinct (map job_id js)" and new: "job_id j \<notin> job_id ` set js" using Cons.prems(2) by simp_all
  show ?case
  proof (cases "status j \<in> set TERMINAL")
    case True
    then obtain t us where t: "plan_target re tenant rp j = Inr t" and us: "plan_targets re tenant rp js = Inr us" "ts = t # us"
      using Cons.prems(1) by (auto simp: bind_result_Inr_iff)
    obtain bytes where c: "check_target re p rp' t st = Inr bytes" and id: "tg_job_id t = job_id j"
      using plan_target_check [OF t jf True ju assms(4-6) jl] by blast
    let ?st = "st\<lparr>mv_ledgers := (mv_ledgers st)((tenant, job_id j) := None),
        mv_moved := mv_moved st @ [MovedLedger (tenant, job_id j) bytes], mv_ids := mv_ids st @ [job_id j]\<rparr>"
    have "mv_ledgers ?st (tenant, job_id i) = rp_ledgers rp (tenant, job_id i)" if "i \<in> set js" for i
    proof -
      have "job_id i \<noteq> job_id j" using new that by (metis imageI)
      then show ?thesis using Cons.prems(4) that by simp
    qed
    then obtain st' where st': "move_targets re p rp' us ?st = (Inr (), st')" "set (map tg_job_id us) \<subseteq> job_id ` set js"
      "distinct (map tg_job_id us)"
      using Cons.IH [OF us(1) d, of ?st] Cons.prems(3) by auto
    have "move_targets re p rp' ts st = (Inr (), st')" using st'(1) c id us(2) assms(4) by (simp add: Let_def)
    moreover have "set (map tg_job_id ts) \<subseteq> job_id ` set (j # js)" using st'(2) us(2) id by auto
    moreover have "distinct (map tg_job_id ts)" using st'(2,3) us(2) id new by auto
    ultimately show ?thesis by blast
  next
    case False
    then have "plan_targets re tenant rp js = Inr ts" using Cons.prems(1) by simp
    then obtain st' where "move_targets re p rp' ts st = (Inr (), st')" "set (map tg_job_id ts) \<subseteq> job_id ` set js"
      "distinct (map tg_job_id ts)"
      using Cons.IH [OF _ d, of ts st] Cons.prems(3,4) by auto
    then show ?thesis by auto
  qed
qed simp

section \<open>The blobs\<close>

lemma plan_blobs_move:
  assumes "plan_blobs re tenant rp ts ds = Inr bs" and "distinct ds" and "set (mv_ids st) = tg_job_id ` set ts"
    and "pc_tenant_id p = tenant" and "rp_artifacts rp' = rp_artifacts rp" and hex: "\<And>c. is_hex64 (re_digest re c)"
    and "\<And>d. d \<in> set ds \<Longrightarrow> mv_blobs st (blob_key (re_digest re) tenant d) =
        blobs (rp_artifacts rp) (blob_key (re_digest re) tenant d)"
  shows "\<exists>st'. move_blobs re p rp' bs st = (Inr (), st')"
  using assms(1-3,7)
proof (induction ds arbitrary: bs st)
  case (Cons d ds)
  show ?case
  proof (cases "list_ex (\<lambda>j. j \<notin> set (map tg_job_id ts)) (referring_jobs tenant d (rp_artifacts rp))")
    case True
    then show ?thesis using Cons by (auto simp del: set_map)
  next
    case False
    then obtain content cs where c: "blobs (rp_artifacts rp) (blob_key (re_digest re) tenant d) = Some content"
      "re_digest re content = d" and cs: "plan_blobs re tenant rp ts ds = Inr cs"
      "bs = \<lparr>bl_content_sha256 = d, bl_size_bytes = int (length content)\<rparr> # cs"
      using Cons.prems(1) by (auto simp: bind_result_Inr_iff split: option.splits if_splits)
    have k: "mv_blobs st (blob_key (re_digest re) tenant d) = Some content" using Cons.prems(4) c(1) by simp
    have "is_hex64 d" using hex c(2) by blast
    then have check: "check_blob re p rp' \<lparr>bl_content_sha256 = d, bl_size_bytes = int (length content)\<rparr> st = Inr content"
      using False k c(2) Cons.prems(3) assms(4,5) by (simp add: check_blob_def Let_def)
    let ?st = "st\<lparr>mv_blobs := (mv_blobs st)(blob_key (re_digest re) tenant d := None),
        mv_moved := mv_moved st @ [MovedBlob (blob_key (re_digest re) tenant d) content]\<rparr>"
    have "mv_blobs ?st (blob_key (re_digest re) tenant e) = blobs (rp_artifacts rp) (blob_key (re_digest re) tenant e)"
      if "e \<in> set ds" for e
    proof -
      have "blob_key (re_digest re) tenant e \<noteq> blob_key (re_digest re) tenant d"
        using that Cons.prems(2) by (auto simp: blob_key_def)
      then show ?thesis using Cons.prems(4) that by simp
    qed
    then obtain st' where "move_blobs re p rp' cs ?st = (Inr (), st')"
      using Cons.IH [OF cs(1), of ?st] Cons.prems(2,3) by auto
    then show ?thesis using check cs(2) assms(4) by (simp add: Let_def)
  qed
qed simp

section \<open>The rows\<close>

lemma filter_unique_job:
  "distinct (map job_id js) \<Longrightarrow> j \<in> set js \<Longrightarrow> filter (\<lambda>k. tenant_id k = tenant_id j \<and> job_id k = job_id j) js = [j]"
proof (induction js)
  case (Cons k js)
  show ?case
  proof (cases "k = j")
    case True
    have "filter (\<lambda>k. tenant_id k = tenant_id j \<and> job_id k = job_id j) js = []"
      using Cons.prems(1) True by (auto simp: filter_empty_conv image_iff)
    then show ?thesis using True by simp
  next
    case False
    then have "job_id k \<noteq> job_id j" using Cons.prems by (auto simp: image_iff)
    then show ?thesis using Cons False by simp
  qed
qed simp

lemma delete_jobs_succeeds:
  assumes "distinct ids" and "distinct (map job_id (jobs db))"
    and "\<And>i. i \<in> set ids \<Longrightarrow> \<exists>j \<in> set (jobs db). job_id j = i \<and> tenant_id j = tenant"
  shows "\<exists>r. delete_jobs tenant ids (db, rows) = Inr r"
  using assms
proof (induction ids arbitrary: db rows)
  case (Cons i ids)
  obtain j where j: "j \<in> set (jobs db)" "job_id j = i" "tenant_id j = tenant" using Cons.prems(3) [of i] by auto
  have "filter (\<lambda>k. tenant_id k = tenant \<and> job_id k = i) (jobs db) = [j]"
    using filter_unique_job [OF Cons.prems(2) j(1)] j(2,3) by simp
  then obtain db1 rows1 where d: "delete_job tenant i (db, rows) = Inr (db1, rows1)"
    and db1: "jobs db1 = filter (\<lambda>k. \<not> (tenant_id k = tenant \<and> job_id k = i)) (jobs db)"
    by (simp add: delete_job_def)
  have "\<exists>k \<in> set (jobs db1). job_id k = e \<and> tenant_id k = tenant" if e: "e \<in> set ids" for e
  proof -
    obtain k where k: "k \<in> set (jobs db)" "job_id k = e" "tenant_id k = tenant"
      using Cons.prems(3) [of e] e by auto
    moreover have "e \<noteq> i" using Cons.prems(1) e by auto
    ultimately have "k \<in> set (jobs db1)" by (simp add: db1)
    then show ?thesis using k by blast
  qed
  then have "\<exists>r. delete_jobs tenant ids (db1, rows1) = Inr r"
    using Cons.prems(1,2) by (intro Cons.IH) (simp_all add: db1 distinct_map_filter)
  then show ?case using d by simp
qed simp

section \<open>A fresh plan\<close>

lemma find_unique_job:
  assumes "distinct (map job_id js)" and "j \<in> set js"
  shows "find (\<lambda>i. job_id i = job_id j \<and> tenant_id i = tenant_id j) js = Some j"
  using assms by (induction js) (auto simp: rev_image_eqI)

lemma fresh_plan_moves:
  assumes plan: "build_retention_plan re pid gen tenant cutoff now rp = Inr plan"
    and u: "distinct (map job_id (jobs (rp_jobs rp)))" and hex: "\<And>c. is_hex64 (re_digest re c)"
    and same: "rp_jobs rp' = rp_jobs rp" "rp_artifacts rp' = rp_artifacts rp" "rp_ledgers rp' = rp_ledgers rp"
  shows "\<exists>st r. move_files re (rt_core plan) rp' = (Inr (), st) \<and>
     delete_jobs tenant (mv_ids st) (rp_jobs rp, artifact_rows (rp_artifacts rp)) = Inr r"
proof -
  let ?p = "rt_core plan" and ?js = "eligible_jobs tenant cutoff (rp_jobs rp)"
  obtain ts bs where ts: "plan_targets re tenant rp ?js = Inr ts" and bs: "plan_blobs re tenant rp ts (candidate_digests ts) = Inr bs"
    and p: "pc_tenant_id ?p = tenant" "pc_cutoff_epoch ?p = cutoff" "pc_targets ?p = ts" "pc_deletable_blobs ?p = bs"
    using plan by (auto simp: build_retention_plan_def Let_def bind_result_Inr_iff split: if_splits)
  have js: "find (\<lambda>i. job_id i = job_id j \<and> tenant_id i = tenant) (jobs (rp_jobs rp)) = Some j \<and> updated_at j \<le> pc_cutoff_epoch ?p"
    if "j \<in> set ?js" for j
    using that find_unique_job [OF u, of j] p(2) by (auto simp: eligible_jobs_def)
  have d: "distinct (map job_id ?js)"
    using u by (simp add: eligible_jobs_def distinct_map inj_on_def)
  obtain st1 where m1: "move_targets re ?p rp' ts (start_moves rp') = (Inr (), st1)"
    and sub: "set (map tg_job_id ts) \<subseteq> job_id ` set ?js" and dt: "distinct (map tg_job_id ts)"
    using plan_targets_move [OF ts d js p(1) same(1,2), of "start_moves rp'"] same(3) by (auto simp: start_moves_def)
  note e1 = move_targets_effect [OF m1]
  have "distinct (candidate_digests ts)" by (simp add: candidate_digests_def)
  then obtain st where m2: "move_blobs re ?p rp' bs st1 = (Inr (), st)"
    using plan_blobs_move [OF bs _ _ p(1) same(2) hex, of st1] e1 same by (auto simp: start_moves_def)
  note e2 = move_blobs_effect [OF m2]
  have ids: "mv_ids st = map tg_job_id ts" using e1 e2 by (simp add: start_moves_def)
  have "\<exists>j \<in> set (jobs (rp_jobs rp)). job_id j = i \<and> tenant_id j = tenant" if "i \<in> set (map tg_job_id ts)" for i
  proof -
    have "i \<in> job_id ` set ?js" using sub that by blast
    then show ?thesis by (auto simp: eligible_jobs_def)
  qed
  then have "\<exists>r. delete_jobs tenant (mv_ids st) (rp_jobs rp, artifact_rows (rp_artifacts rp)) = Inr r"
    using dt u by (intro delete_jobs_succeeds) (auto simp: ids)
  then show ?thesis using m1 m2 p by (simp add: move_files_def)
qed

lemma fresh_plan_valid:
  assumes "build_retention_plan re pid gen tenant cutoff now rp = Inr plan" and "safe_id pid"
  shows "validate_plan re plan (plan_sha256 plan) = Inr (rt_core plan) \<and> pc_plan_id (rt_core plan) = pid \<and>
    pc_tenant_id (rt_core plan) = tenant"
  using assms by (auto simp: build_retention_plan_def validate_plan_def Let_def bind_result_Inr_iff require_safe_id_def split: if_splits)

lemma fresh_plan_execution:
  assumes "build_retention_plan re pid gen tenant cutoff now rp = Inr plan" and "safe_id pid"
    and "map_of (rp_quarantine rp) pid = None"
    and "distinct (map job_id (jobs (rp_jobs rp)))" and "\<And>c. is_hex64 (re_digest re c)"
  shows "\<exists>receipt rp'. execute_retention_plan re clock wal plan (plan_sha256 plan) rp = (Inr receipt, rp')"
proof -
  note v = fresh_plan_valid [OF assms(1,2)]
  let ?rp = "append_audit (prepared re (rt_core plan) (plan_sha256 plan) clock) rp"
  obtain st r where "move_files re (rt_core plan) ?rp = (Inr (), st)"
    "delete_jobs tenant (mv_ids st) (rp_jobs rp, artifact_rows (rp_artifacts rp)) = Inr r"
    using fresh_plan_moves [OF assms(1,4,5), of ?rp] by auto
  then show ?thesis using v assms(3) by (cases r) (simp add: execute_retention_plan_def Let_def)
qed

end
