(* ===== verification/Storage_Properties.thy ===== *)
theory Storage_Properties
  imports Retention_Planning
begin

text \<open>
  Properties of the artifact store and of retention: artifacts read back what was put, keys are
  never rebound, retention deletes what its plan names and keeps the rest readable; and two ways
  in which retention loses files that are still referenced.
\<close>

section \<open>Artifacts\<close>

definition artifact_sample :: put_request where
  "artifact_sample = \<lparr>put_tenant_id = ''t'', put_job_id = ''j'', put_logical_key = ''k'', put_content = ''x'',
     put_media_type = ''text/plain''\<rparr>"

definition no_calls :: artifact_world where
  "no_calls = \<lparr>aw_store = empty_artifacts, aw_calls = []\<rparr>"

lemma store_ok_empty: "store_ok digest empty_artifacts"
  by (simp add: store_ok_def empty_artifacts_def)

lemma no_calls_inv: "artifact_inv digest no_calls"
  by (simp add: artifact_inv_def no_calls_def store_ok_empty)

text \<open>
  C19. A reference that a call of \<open>put_bytes\<close> has returned reads back the content of that call, after
  any further calls by any processes, interleaved and dying at any step, as long as no blob in
  the store collides with the content under SHA-256.
\<close>

theorem artifact_round_trip:
  assumes "artifact_inv digest w"
    and "aw_calls w ! i = (r, PutDone (Inr ref))" and "i < length (aw_calls w)"
    and "no_collision digest (aw_store (artifact_run digest ops w)) (put_content r)"
  shows "read_bytes digest ref (aw_store (artifact_run digest ops w)) = Inr (put_content r)"
proof -
  let ?w = "artifact_run digest ops w"
  have inv: "artifact_inv digest ?w" and le: "artifact_le w ?w"
    using assms(1) by (simp_all add: artifact_run_def artifacts.run_inv artifacts.run_le)
  have "aw_calls ?w ! i = (r, PutDone (Inr ref))" "i < length (aw_calls ?w)"
    using le assms(2,3) by (auto simp: artifact_le_def)
  then have "phase_ok digest (aw_store ?w) r (PutDone (Inr ref))"
    using inv by (auto simp: artifact_inv_def list_all_length)
  then show ?thesis
    using read_bytes_indexed [of digest "aw_store ?w" ref r] inv assms(4) by (auto simp: artifact_inv_def)
qed

definition two_puts :: artifact_world where
  "two_puts = artifact_run id [BeginPut artifact_sample, BeginPut artifact_sample, AdvancePut 0 1, AdvancePut 1 1,
     AdvancePut 1 1, AdvancePut 0 1, AdvancePut 0 1, AdvancePut 1 1, AdvancePut 0 1, AdvancePut 0 1] no_calls"

lemma two_puts_first: "aw_calls two_puts ! 0 = (artifact_sample, PutDone (Inr (ref_of id artifact_sample))) \<and> 0 < length (aw_calls two_puts)"
  by code_simp

theorem artifact_round_trip_witness:
  "read_bytes id (ref_of id artifact_sample) (aw_store (artifact_run id [AdvancePut 1 2, AdvancePut 1 2] two_puts)) = Inr ''x''"
proof -
  have inv: "artifact_inv id two_puts"
    unfolding two_puts_def artifact_run_def by (rule artifacts.run_inv [OF no_calls_inv])
  have "no_collision id s c" for s c by (simp add: no_collision_def collision_def)
  then show ?thesis
    using artifact_round_trip [OF inv two_puts_first [THEN conjunct1] two_puts_first [THEN conjunct2], of "[AdvancePut 1 2, AdvancePut 1 2]"]
    by (simp add: artifact_sample_def)
qed

text \<open>
  \<open>put_bytes\<close> refines an immutable map from keys to references: a rejected request changes
  nothing; a new key is bound to the reference of the content; an existing key keeps its reference,
  which is returned when digest, size and media type agree, and raises a conflict otherwise.
\<close>

theorem put_refines_immutable_map:
  assumes "store_ok digest s" and "no_collision digest s (put_content r)"
  shows "(\<lambda>(res, t). (res, \<lambda>k. find_ref k t)) (put_bytes digest now r s) = put_spec digest r (\<lambda>k. find_ref k s)"
proof (cases "check_put r")
  case (Inl e)
  then have "put_step digest now r PutStart s = (PutDone (Inl e), s)" by (simp add: put_step_def Let_def)
  then show ?thesis using Inl by (simp add: put_bytes_done put_spec_def Let_def)
next
  case (Inr u)
  let ?ref = "ref_of digest r"
  show ?thesis
  proof (cases "find_ref (ref_key ?ref) s")
    case None
    then obtain s' where "put_bytes digest now r s = (Inr ?ref, s')"
        "artifact_rows s' = artifact_rows s @ [\<lparr>art_ref = ?ref, art_created_at = now\<rparr>]"
      using put_bytes_new [OF assms(1)] Inr by (metis unit.exhaust)
    then show ?thesis using None Inr find_ref_snoc by (simp add: put_spec_def Let_def)
  next
    case (Some a)
    show ?thesis
    proof (cases "same_content a ?ref")
      case True
      then have a: "a = ?ref" using find_ref_same Some by blast
      have "put_step digest now r PutStart s = (PutReplay a, s)" using Some Inr True by (simp add: put_step_def Let_def)
      then show ?thesis
        using put_bytes_replay read_bytes_indexed [OF assms(1) _ _ assms(2)] Some Inr True a by (simp add: put_spec_def Let_def)
    next
      case False
      then have "put_step digest now r PutStart s =
          (PutDone (Inl (ArtifactConflict ''logical artifact key already has different content'')), s)"
        using Some Inr by (simp add: put_step_def Let_def)
      then show ?thesis using Some Inr False by (simp add: put_bytes_done put_spec_def Let_def)
    qed
  qed
qed

theorem put_refines_immutable_map_witness:
  "fst (put_bytes id 1 artifact_sample empty_artifacts) = Inr (ref_of id artifact_sample)"
proof -
  have s: "put_spec id artifact_sample (\<lambda>k. find_ref k empty_artifacts) =
      (Inr (ref_of id artifact_sample), (\<lambda>k. find_ref k empty_artifacts)(ref_key (ref_of id artifact_sample) \<mapsto> ref_of id artifact_sample))"
  proof -
    have "check_put artifact_sample = Inr ()" by code_simp
    then show ?thesis by (simp add: put_spec_def Let_def find_ref_def empty_artifacts_def)
  qed
  have "no_collision id empty_artifacts c" for c by (simp add: no_collision_def empty_artifacts_def)
  then show ?thesis
    using put_refines_immutable_map [OF store_ok_empty, where digest = id and r = artifact_sample and now = 1]
    by (simp add: s split_beta)
qed

text \<open>
  Under any interleaving of calls, some of which die, the index keeps unique keys, every indexed
  artifact has its blob, blobs are stored under the digest of their content, and neither entries nor
  blobs nor the results of finished calls are ever taken back.
\<close>

theorem artifact_store_invariant:
  assumes "artifact_inv digest w"
  shows "artifact_inv digest (artifact_run digest ops w) \<and> artifact_le w (artifact_run digest ops w)"
  using assms by (simp add: artifact_run_def artifacts.run_inv artifacts.run_le)

theorem artifact_store_invariant_witness:
  "artifact_inv id (artifact_run id [BeginPut artifact_sample, AdvancePut 0 1, AdvancePut 0 1, KillPut 0] no_calls)"
  using artifact_store_invariant [OF no_calls_inv] by blast

section \<open>Retention\<close>

text \<open>One terminal job with one artifact and a ledger file.\<close>

definition hex_digest :: "string \<Rightarrow> string" where
  "hex_digest s = replicate 64 (if s = ''x'' then CHR ''a'' else CHR ''b'')"

definition sample_retention_env :: retention_env where
  "sample_retention_env = \<lparr>re_env = \<lparr>sha256 = (\<lambda>s. ''plan''), fromisoformat = (\<lambda>s. Some True)\<rparr>, re_digest = hex_digest,
     re_lines = (\<lambda>s. []), re_float = (\<lambda>x. ''1.0''), re_escapes = (\<lambda>t j. False)\<rparr>"

definition done_job :: "string \<Rightarrow> job" where
  "done_job j = (new_job 1 j \<lparr>cr_tenant_id = ''t'', cr_idempotency_key = j, cr_task = ''task'', cr_max_calls = 0,
     cr_max_tokens = 0, cr_max_cost_microunits = 0, cr_job_id = Some j\<rparr>)\<lparr>status := CANCELLED\<rparr>"

definition sample_repository :: repository where
  "sample_repository = \<lparr>rp_jobs = empty_db\<lparr>jobs := [done_job ''j'']\<rparr>,
     rp_artifacts = snd (put_bytes hex_digest 1 artifact_sample empty_artifacts),
     rp_ledgers = (\<lambda>k. if k = (''t'', ''j'') then Some ''ledger'' else None), rp_quarantine = [], rp_audit = []\<rparr>"

definition sample_plan :: "retention_plan result" where
  "sample_plan = build_retention_plan sample_retention_env ''p'' ''now'' ''t'' 5 9 sample_repository"

definition got :: "'a result \<Rightarrow> 'a" where
  "got r = (case r of Inr x \<Rightarrow> x | Inl e \<Rightarrow> undefined)"

definition sample_execution :: "json result \<times> repository" where
  "sample_execution = execute_retention_plan sample_retention_env (''a'', ''b'') True (got sample_plan) ''plan'' sample_repository"

fun succeeded :: "'a result \<Rightarrow> bool" where
  "succeeded (Inr x) = True"
| "succeeded (Inl e) = False"

lemma succeededE: "succeeded r \<Longrightarrow> (\<And>x. r = Inr x \<Longrightarrow> P) \<Longrightarrow> P"
  by (cases r) auto

lemma sample_execution_ok: "succeeded (fst sample_execution) \<and> jobs (rp_jobs (snd sample_execution)) = []"
  by code_simp

text \<open>
  C21. A retention execution that returns a receipt has removed exactly the planned jobs of the
  tenant with their checkpoints, charges, artifact entries and ledgers, and the planned blobs, and
  every planned job was terminal and last updated at or before the cutoff.
\<close>

theorem retention_deletes_exactly_targets:
  assumes "execute_retention_plan re clock wal plan ack rp = (Inr receipt, rp')"
  shows "retained re (rt_core plan) rp rp' \<and> plan_digest re (rt_core plan) = Inr ack \<and>
     (\<forall>i \<in> target_ids (rt_core plan). \<exists>j \<in> set (jobs (rp_jobs rp)). job_id j = i \<and> expired_job (rt_core plan) j)"
  using execute_Inr [OF assms] validate_plan_InrD by blast

theorem retention_deletes_exactly_targets_witness:
  "retained sample_retention_env (rt_core (got sample_plan)) sample_repository (snd sample_execution)"
proof -
  obtain receipt where "fst sample_execution = Inr receipt" using sample_execution_ok succeededE by blast
  then have "execute_retention_plan sample_retention_env (''a'', ''b'') True (got sample_plan) ''plan'' sample_repository =
      (Inr receipt, snd sample_execution)"
    by (metis sample_execution_def prod.collapse)
  from retention_deletes_exactly_targets [OF this] show ?thesis by blast
qed




definition late_repository :: repository where
  "late_repository = sample_repository\<lparr>rp_ledgers := (\<lambda>k. None)\<rparr>"

definition late_execution :: "json result \<times> repository" where
  "late_execution = execute_retention_plan sample_retention_env (''a'', ''b'') True (got sample_plan) ''plan'' late_repository"


text \<open>
  A plan that has just been built can be executed: with its digest as the acknowledgement,
  a fresh plan id and nothing changed in between, every check passes and a receipt is returned.
\<close>

theorem fresh_plan_executes:
  assumes "build_retention_plan re pid gen tenant cutoff now rp = Inr plan" and "safe_id pid"
    and "map_of (rp_quarantine rp) pid = None"
    and "distinct (map job_id (jobs (rp_jobs rp)))" and "\<And>c. is_hex64 (re_digest re c)"
  shows "\<exists>receipt rp'. execute_retention_plan re clock wal plan (plan_sha256 plan) rp = (Inr receipt, rp')"
  using assms by (rule fresh_plan_execution)

lemma hex_digest_is_hex64: "is_hex64 (hex_digest c)"
  by (simp add: is_hex64_def hex_digest_def hex_digits_def list_all_iff)

theorem fresh_plan_executes_witness:
  "\<exists>plan receipt rp'. build_retention_plan sample_retention_env ''p'' ''now'' ''t'' 5 9 sample_repository = Inr plan \<and>
     execute_retention_plan sample_retention_env (''a'', ''b'') True plan (plan_sha256 plan) sample_repository = (Inr receipt, rp')"
proof -
  have "succeeded (build_retention_plan sample_retention_env ''p'' ''now'' ''t'' 5 9 sample_repository) \<and> safe_id ''p''"
    by code_simp
  then obtain plan where plan: "build_retention_plan sample_retention_env ''p'' ''now'' ''t'' 5 9 sample_repository = Inr plan"
    and p: "safe_id ''p''"
    using succeededE by blast
  have "\<exists>receipt rp'. execute_retention_plan sample_retention_env (''a'', ''b'') True plan (plan_sha256 plan) sample_repository =
      (Inr receipt, rp')"
    by (rule fresh_plan_executes [OF plan p])
      (simp_all add: sample_repository_def empty_db_def sample_retention_env_def hex_digest_is_hex64)
  then show ?thesis using plan by blast
qed

text \<open>What a repository holds of the sample job: its row, its ledger anywhere, its blob anywhere.\<close>

fun is_ledger_of :: "string \<times> string \<Rightarrow> moved_file \<Rightarrow> bool" where
  "is_ledger_of k (MovedLedger k' b) = (k = k')"
| "is_ledger_of k (MovedBlob k' b) = False"

definition ledger_somewhere :: "string \<times> string \<Rightarrow> repository \<Rightarrow> bool" where
  "ledger_somewhere k rp \<longleftrightarrow> rp_ledgers rp k \<noteq> None \<or> list_ex (\<lambda>(i, fs). list_ex (is_ledger_of k) fs) (rp_quarantine rp)"

definition crashed_repository :: repository where
  "crashed_repository = die_before_commit sample_retention_env (''a'', ''b'') (got sample_plan) ''plan'' sample_repository"

definition retried_execution :: "json result \<times> repository" where
  "retried_execution = execute_retention_plan sample_retention_env (''c'', ''d'') True (got sample_plan) ''plan'' crashed_repository"

text \<open>
  Retrying a retention plan after a crash destroys what the crash left in quarantine: a process
  dies after moving the files and before the commit, the same plan is executed again, that execution
  raises because the quarantine exists, and afterwards the job row is still there but its ledger is
  neither in its place nor in any quarantine, and its artifact cannot be read.
\<close>

theorem retry_after_crash_destroys_files:
  "ledger_somewhere (''t'', ''j'') crashed_repository \<and>
   \<not> succeeded (fst retried_execution) \<and>
   map job_id (jobs (rp_jobs (snd retried_execution))) = [''j''] \<and>
   \<not> ledger_somewhere (''t'', ''j'') (snd retried_execution) \<and>
   \<not> succeeded (read_bytes hex_digest (ref_of hex_digest artifact_sample) (rp_artifacts (snd retried_execution)))"
  by code_simp

text \<open>A call of another job that has found the same blob and verified it, but not yet indexed it.\<close>

definition other_put :: put_request where
  "other_put = artifact_sample\<lparr>put_job_id := ''k''\<rparr>"

definition racing_calls :: artifact_world where
  "racing_calls = artifact_run hex_digest [BeginPut other_put, AdvancePut 0 2, AdvancePut 0 2, AdvancePut 0 2]
     \<lparr>aw_store = rp_artifacts sample_repository, aw_calls = []\<rparr>"

definition racing_execution :: "json result \<times> repository" where
  "racing_execution = execute_retention_plan sample_retention_env (''a'', ''b'') True (got sample_plan) ''plan''
     (sample_repository\<lparr>rp_artifacts := aw_store racing_calls\<rparr>)"

definition raced_calls :: artifact_world where
  "raced_calls = artifact_run hex_digest [AdvancePut 0 2, AdvancePut 0 2]
     (racing_calls\<lparr>aw_store := rp_artifacts (snd racing_execution)\<rparr>)"

text \<open>
  Retention can break a write in flight: a call of \<open>put_bytes\<close> verifies a shared blob, a
  retention execution then deletes it because no index entry keeps it, and the call still
  returns a reference, whose blob is missing.
\<close>

theorem retention_breaks_put_in_flight:
  "succeeded (fst racing_execution) \<and>
   snd (aw_calls raced_calls ! 0) = PutDone (Inr (ref_of hex_digest other_put)) \<and>
   \<not> succeeded (read_bytes hex_digest (ref_of hex_digest other_put) (aw_store raced_calls))"
  by code_simp

end
