(* ===== verification/Values.thy ===== *)
theory Values
  imports Events
begin

text \<open>
  What Python code asks of a JSON value: its truth, membership in a set of names, whether it is a
  bool, a list or an integer; and the guards that raise.
\<close>

text \<open>\<open>bool(v)\<close>, for \<open>v or default\<close>.\<close>

fun truthy :: "json \<Rightarrow> bool" where
  "truthy JNull = False"
| "truthy (JBool b) = b"
| "truthy (JInt i) = (i \<noteq> 0)"
| "truthy (JFloat s) = (s \<noteq> ''0.0'' \<and> s \<noteq> ''-0.0'')"
| "truthy (JNonFinite s) = True"
| "truthy (JStr s) = (s \<noteq> [])"
| "truthy (JList xs) = (xs \<noteq> [])"
| "truthy (JObj kvs) = (kvs \<noteq> [])"

definition get_or :: "json \<Rightarrow> string \<Rightarrow> json \<Rightarrow> json" where
  "get_or v k d = (case jget v k of None \<Rightarrow> d | Some w \<Rightarrow> if truthy w then w else d)"

text \<open>\<open>v == 1\<close>, with the bools and the floats that are equal to integers.\<close>

fun equals_int :: "(string \<Rightarrow> rat option) \<Rightarrow> int \<Rightarrow> json \<Rightarrow> bool" where
  "equals_int fl n (JInt i) = (i = n)"
| "equals_int fl n (JBool b) = ((if b then 1 else 0) = n)"
| "equals_int fl n (JFloat s) = (fl s = Some (of_int n))"
| "equals_int fl n v = False"

text \<open>\<open>v in {...}\<close> on a set of strings: lists and dictionaries are not hashable.\<close>

fun json_in :: "json \<Rightarrow> string list \<Rightarrow> bool result" where
  "json_in (JStr s) names = Inr (s \<in> set names)"
| "json_in (JList xs) names = Inl (TypeError ''unhashable type'')"
| "json_in (JObj kvs) names = Inl (TypeError ''unhashable type'')"
| "json_in v names = Inr False"

fun is_json_bool :: "json \<Rightarrow> bool" where
  "is_json_bool (JBool b) = True"
| "is_json_bool v = False"

fun is_json_list :: "json \<Rightarrow> bool" where
  "is_json_list (JList xs) = True"
| "is_json_list v = False"

fun json_items :: "json \<Rightarrow> json list" where
  "json_items (JList xs) = xs"
| "json_items v = []"

text \<open>An integer that is not a bool.\<close>

fun strict_int :: "json \<Rightarrow> int option" where
  "strict_int (JInt i) = Some i"
| "strict_int v = None"

text \<open>A guard: raise when the condition holds.\<close>

definition raise_if :: "bool \<Rightarrow> py_exn \<Rightarrow> 'a result \<Rightarrow> 'a result" where
  "raise_if c e k = (if c then Inl e else k)"

lemma raise_if_Inr_iff [simp]: "raise_if c e k = Inr x \<longleftrightarrow> \<not> c \<and> k = Inr x"
  by (simp add: raise_if_def)

fun json_bool :: "json option \<Rightarrow> bool option" where
  "json_bool (Some (JBool b)) = Some b"
| "json_bool v = None"

fun json_str :: "json option \<Rightarrow> string" where
  "json_str (Some (JStr s)) = s"
| "json_str v = []"

definition starts_with :: "string \<Rightarrow> string \<Rightarrow> bool" where
  "starts_with p s \<longleftrightarrow> take (length p) s = p"

definition ends_with :: "string \<Rightarrow> string \<Rightarrow> bool" where
  "ends_with p s \<longleftrightarrow> starts_with (rev p) (rev s)"

text \<open>\<open>s[:n]\<close> for a non-negative \<open>n\<close>, and the bounds of \<open>max(lo, min(n, hi))\<close>.\<close>

definition clamp :: "int \<Rightarrow> int \<Rightarrow> int \<Rightarrow> int" where
  "clamp lo hi n = max lo (min n hi)"

lemma clamp_bounds: "lo \<le> hi \<Longrightarrow> lo \<le> clamp lo hi n \<and> clamp lo hi n \<le> hi"
  by (auto simp: clamp_def)

section \<open>Equality and keys\<close>

text \<open>
  \<open>==\<close> on JSON values: bools and integral floats are equal to integers, dictionaries compare
  without their order.  A finite float is its shortest text, so that equal floats are equal texts.
\<close>

primrec numbers_normal :: "(string \<Rightarrow> rat option) \<Rightarrow> json \<Rightarrow> json" where
  "numbers_normal fl JNull = JNull"
| "numbers_normal fl (JBool b) = JInt (if b then 1 else 0)"
| "numbers_normal fl (JInt i) = JInt i"
| "numbers_normal fl (JFloat s) = (case fl s of None \<Rightarrow> JFloat s
     | Some q \<Rightarrow> if q = of_int \<lfloor>q\<rfloor> then JInt \<lfloor>q\<rfloor> else JFloat s)"
| "numbers_normal fl (JNonFinite s) = JNonFinite s"
| "numbers_normal fl (JStr s) = JStr s"
| "numbers_normal fl (JList xs) = JList (map (numbers_normal fl) xs)"
| "numbers_normal fl (JObj kvs) = JObj (map (map_prod id (numbers_normal fl)) kvs)"

definition py_equal :: "(string \<Rightarrow> rat option) \<Rightarrow> json \<Rightarrow> json \<Rightarrow> bool" where
  "py_equal fl a b \<longleftrightarrow> sort_keys (numbers_normal fl a) = sort_keys (numbers_normal fl b) \<and> a \<noteq> JNonFinite ''NaN''"

text \<open>\<open>v[k]\<close> and \<open>v.get(k)\<close> of a dictionary.\<close>

definition get_null :: "json \<Rightarrow> string \<Rightarrow> json" where
  "get_null v k = (case jget v k of None \<Rightarrow> JNull | Some w \<Rightarrow> w)"

section \<open>Stateful code\<close>

text \<open>Code that may raise and changes a state, raising or not.\<close>

type_synonym ('s, 'a) process = "'s \<Rightarrow> 'a result \<times> 's"

definition b_lift :: "'a result \<Rightarrow> ('s, 'a) process" where
  "b_lift r s = (r, s)"

definition b_bind :: "('s, 'a) process \<Rightarrow> ('a \<Rightarrow> ('s, 'b) process) \<Rightarrow> ('s, 'b) process" where
  "b_bind f k s = (case f s of (Inl e, s') \<Rightarrow> (Inl e, s') | (Inr x, s') \<Rightarrow> k x s')"

lemma b_bind_Inr_iff:
  "b_bind f k s = (Inr y, s'') \<longleftrightarrow> (\<exists>x s'. f s = (Inr x, s') \<and> k x s' = (Inr y, s''))"
  by (auto simp: b_bind_def split: sum.splits prod.splits)

lemma b_lift_Inr_iff [simp]: "b_lift r s = (Inr x, s') \<longleftrightarrow> r = Inr x \<and> s' = s"
  by (auto simp: b_lift_def)

end
