(* ===== verification/Benchmark.thy ===== *)
theory Benchmark
  imports Worker Artifacts Numbers Values
begin

text \<open>
  The contract of the staged benchmark runner (\<open>src/evaluation/baseline_runner.py\<close>, first part):
  method registry, blind tasks, query plans, retrieved passages and decisions, with the checks each
  of them passes before it is used.

  Fields whose type the code checks are JSON values; the others have the type of their annotation.
  \<open>float_of\<close> is the value of a float literal (\<open>None\<close> when it is not finite), a parameter.
\<close>

section \<open>Errors of the contract\<close>

definition contract :: "string \<Rightarrow> py_exn" where
  "contract m = BaselineContractError m"

section \<open>Methods\<close>

record method_spec =
  method_id :: string
  support_retrieval :: bool
  external_counter_retrieval :: bool
  cedg :: bool
  memory :: string
  decision_mode :: string

definition METHOD_FIELDS :: "string list" where
  "METHOD_FIELDS = [''method_id'', ''support_retrieval'', ''external_counter_retrieval'', ''cedg'', ''memory'', ''decision_mode'']"

text \<open>\<open>value.get(k)\<close> on the entries of the registry: only dictionaries have it.\<close>

definition all_dicts :: "json list \<Rightarrow> bool" where
  "all_dicts xs \<longleftrightarrow> list_all is_dict xs"

definition budget_field :: "json \<Rightarrow> string \<Rightarrow> int option" where
  "budget_field v k = (case jget v k of None \<Rightarrow> None | Some w \<Rightarrow>
     (case strict_int w of None \<Rightarrow> None | Some i \<Rightarrow> if i < 0 then None else Some i))"

definition load_method :: "(string \<Rightarrow> rat option) \<Rightarrow> json \<Rightarrow> string \<Rightarrow> (method_spec \<times> int \<times> int) result" where
  "load_method fl v mid =
     raise_if (\<not> is_dict v) (AttributeError ''get'')
     (raise_if (\<not> (case jget v ''schema_version'' of None \<Rightarrow> False | Some n \<Rightarrow> equals_int fl 1 n) \<or>
         \<not> (case jget v ''methods'' of None \<Rightarrow> False | Some ms \<Rightarrow> is_json_list ms))
       (contract ''invalid method registry'')
     (let ms = (case jget v ''methods'' of None \<Rightarrow> [] | Some ms \<Rightarrow> json_items ms) in
      raise_if (\<not> all_dicts ms) (AttributeError ''get'')
      (let matches = filter (\<lambda>m. jget m ''method_id'' = Some (JStr mid)) ms in
       raise_if (length matches \<noteq> 1) (contract ''method is missing or duplicated'')
       (let item = hd matches;
            flags = map (\<lambda>k. json_bool (jget item k)) [''support_retrieval'', ''external_counter_retrieval'', ''cedg'']
        in raise_if (\<not> has_exact_fields item METHOD_FIELDS \<or> list_ex (\<lambda>b. b = None) flags)
             (contract ''method definition has invalid fields or types'')
           (bind_result (json_in (the (jget item ''memory'')) [''none'', ''uncredited_replay'', ''delayed_external_credit'']) (\<lambda>ok.
            raise_if (\<not> ok) (contract ''unsupported memory mode'')
            (bind_result (json_in (the (jget item ''decision_mode'')) [''direct'', ''self_critic'', ''verifier'']) (\<lambda>ok.
             let mode = json_str (jget item ''decision_mode''); counter = (flags ! 1 = Some True);
                 budget = get_or v ''budget'' (JObj [])
             in raise_if (\<not> ok) (contract ''unsupported decision mode'')
               (raise_if (mode = ''self_critic'' \<and> counter) (contract ''self-critic control must not receive counter retrieval'')
               (raise_if (mode = ''verifier'' \<and> \<not> counter) (contract ''verifier decision mode requires counter retrieval'')
               (raise_if (\<not> is_dict budget) (AttributeError ''get'')
               (case (budget_field budget ''max_calls'', budget_field budget ''max_tokens'') of
                 (Some mc, Some mt) \<Rightarrow> Inr (\<lparr>method_id = mid, support_retrieval = (flags ! 0 = Some True),
                   external_counter_retrieval = counter, cedg = (flags ! 2 = Some True),
                   memory = json_str (jget item ''memory''), decision_mode = mode\<rparr>, mc, mt)
               | _ \<Rightarrow> Inl (contract ''method registry has invalid budget'')))))))))))))"

section \<open>Tasks\<close>

definition TASK_FIELDS :: "string list" where
  "TASK_FIELDS = [''schema_version'', ''challenge_id'', ''benchmark_track'', ''split'', ''task_family'', ''prompt'', ''cutoff_date'']"

record blind_task =
  task_schema :: json
  challenge_id :: string
  benchmark_track :: json
  task_split :: json
  task_family :: json
  prompt :: string
  cutoff_date :: json

text \<open>\<open>strip\<close> is a method of strings only.\<close>

definition blind_task_from_dict :: "(string \<Rightarrow> rat option) \<Rightarrow> json \<Rightarrow> blind_task result" where
  "blind_task_from_dict fl v =
     raise_if (\<not> has_exact_fields v TASK_FIELDS) (contract ''runner accepts only the exact blind-task contract'')
     (raise_if (\<not> equals_int fl 1 (the (jget v ''schema_version''))) (contract ''invalid blind task'')
     (case (the (jget v ''challenge_id''), the (jget v ''prompt'')) of
       (JStr cid, p) \<Rightarrow> raise_if (blank cid) (contract ''invalid blind task'')
         (case p of JStr text \<Rightarrow> raise_if (blank text) (contract ''invalid blind task'')
            (Inr \<lparr>task_schema = the (jget v ''schema_version''), challenge_id = cid, benchmark_track = the (jget v ''benchmark_track''), task_split = the (jget v ''split''),
               task_family = the (jget v ''task_family''), prompt = text, cutoff_date = the (jget v ''cutoff_date'')\<rparr>)
          | _ \<Rightarrow> Inl (AttributeError ''strip''))
     | _ \<Rightarrow> Inl (AttributeError ''strip'')))"

section \<open>Usage, queries and passages\<close>

record usage =
  ug_calls :: int
  ug_tokens :: int

definition validate_usage :: "usage \<Rightarrow> unit result" where
  "validate_usage u = raise_if (ug_calls u < 0 \<or> ug_tokens u < 0) (contract ''usage must contain non-negative integers'') (Inr ())"

record query_plan =
  qp_queries :: "string list"
  qp_usage :: usage

definition validate_query_plan :: "query_plan \<Rightarrow> unit result" where
  "validate_query_plan p = bind_result (validate_usage (qp_usage p)) (\<lambda>u.
     raise_if (\<not> (1 \<le> length (qp_queries p) \<and> length (qp_queries p) \<le> 8) \<or>
         list_ex (\<lambda>q. blank q \<or> length q > 1000) (qp_queries p))
       (contract ''query plan requires 1-8 bounded queries'') (Inr ()))"

record retrieved_passage =
  rp_passage_id :: string
  rp_query_id :: string
  rp_doc_id :: string
  rp_text :: string
  rp_locator :: "(string \<times> json) list"
  rp_content_sha256 :: string
  rp_publication_date :: string

definition validate_passage :: "py_env \<Rightarrow> retrieved_passage \<Rightarrow> unit result" where
  "validate_passage env p =
     raise_if (blank (rp_passage_id p) \<or> blank (rp_query_id p) \<or> blank (rp_doc_id p) \<or> blank (rp_text p))
       (contract ''retrieved passage has empty identity or text'')
     (raise_if (\<not> has_exact_fields (JObj (rp_locator p)) [''offset''] \<and> \<not> has_exact_fields (JObj (rp_locator p)) [''page_no''])
       (contract ''passage locator must contain exactly offset or page_no'')
     (raise_if (case strict_int (snd (hd (rp_locator p))) of None \<Rightarrow> True | Some i \<Rightarrow> i < 0)
       (contract ''passage locator is invalid'')
     (raise_if (rp_content_sha256 p \<noteq> sha256 env (rp_text p)) (contract ''passage content hash mismatch'') (Inr ()))))"

record retrieval_result =
  rr_passages :: "retrieved_passage list"
  rr_usage :: usage

fun validate_passages :: "py_env \<Rightarrow> string set \<Rightarrow> retrieved_passage list \<Rightarrow> unit result" where
  "validate_passages env seen [] = Inr ()"
| "validate_passages env seen (p # ps) = bind_result (validate_passage env p) (\<lambda>u.
     raise_if (rp_passage_id p \<in> seen) (contract ''duplicate passage_id in retrieval result'')
     (validate_passages env (insert (rp_passage_id p) seen) ps))"

definition validate_retrieval :: "py_env \<Rightarrow> retrieval_result \<Rightarrow> unit result" where
  "validate_retrieval env r = bind_result (validate_usage (rr_usage r)) (\<lambda>u. validate_passages env {} (rr_passages r))"

section \<open>Decisions\<close>

definition DECISIONS :: "string list" where
  "DECISIONS = [''SURVIVED'', ''NARROWED'', ''REFUTED'', ''UNRESOLVED'']"

definition STRATEGY_KINDS :: "string list" where
  "STRATEGY_KINDS = [''counter_query_template'', ''boundary_probe'', ''precedent_probe'']"

text \<open>
  What a backend returns is read from the JSON a model wrote: every field is a JSON value, and
  \<open>validate\<close> decides what it may be.
\<close>

record evidence_selection =
  ev_passage_id :: json
  ev_relation :: json

record strategy_candidate =
  ca_kind :: json
  ca_pattern :: json

text \<open>\<open>v.strip()\<close> is empty; only strings have it.\<close>

definition json_blank :: "json \<Rightarrow> bool result" where
  "json_blank v = (case v of JStr s \<Rightarrow> Inr (blank s) | _ \<Rightarrow> Inl (AttributeError ''strip''))"

definition validate_candidate :: "strategy_candidate \<Rightarrow> unit result" where
  "validate_candidate c = bind_result (json_in (ca_kind c) STRATEGY_KINDS) (\<lambda>ok.
     raise_if (\<not> ok) (contract ''decision proposed an unsupported strategy kind'')
     (bind_result (json_blank (ca_pattern c)) (\<lambda>empty.
      raise_if (empty \<or> length (json_str (Some (ca_pattern c))) > 240)
       (contract ''strategy pattern must contain 1-240 characters'') (Inr ()))))"

record decision_output =
  de_decision :: json
  de_probability :: json
  de_evidence :: "evidence_selection list"
  de_reason :: json
  de_boundary :: json
  de_usage :: usage
  de_candidates :: "strategy_candidate list"

text \<open>The value of a number, \<open>None\<close> when it is no number; \<open>Some None\<close> when it is not finite.\<close>

fun number_value :: "(string \<Rightarrow> rat option) \<Rightarrow> json \<Rightarrow> rat option option" where
  "number_value fl (JInt i) = Some (Some (of_int i))"
| "number_value fl (JFloat s) = Some (fl s)"
| "number_value fl (JNonFinite s) = Some None"
| "number_value fl v = None"

definition in_unit :: "rat option \<Rightarrow> bool" where
  "in_unit x \<longleftrightarrow> (case x of None \<Rightarrow> False | Some q \<Rightarrow> 0 \<le> q \<and> q \<le> 1)"

definition RELATIONS :: "string list" where
  "RELATIONS = map relation_value [SUPPORTS, CONTRADICTS, BOUNDS, PRECEDENT_FOR, CHECKED]"

text \<open>The loop over the selections: \<open>seen\<close> holds the ids cited so far.\<close>

fun validate_selections :: "string list \<Rightarrow> json list \<Rightarrow> evidence_selection list \<Rightarrow> unit result" where
  "validate_selections available seen [] = Inr ()"
| "validate_selections available seen (s # ss) =
     bind_result (json_in (ev_passage_id s) available) (\<lambda>ok.
     raise_if (\<not> ok) (contract ''decision cites a passage not exposed to the backend'')
     (bind_result (json_in (ev_relation s) RELATIONS) (\<lambda>ok.
     raise_if (\<not> ok) (contract ''decision uses an unsupported evidence relation'')
     (raise_if (ev_passage_id s \<in> set seen) (contract ''decision cites a passage more than once'')
     (validate_selections available (ev_passage_id s # seen) ss)))))"

definition candidate_identity :: "strategy_candidate \<Rightarrow> json \<times> string" where
  "candidate_identity c = (ca_kind c, join '' '' (py_split (py_lower (json_str (Some (ca_pattern c))))))"

fun validate_candidates :: "(json \<times> string) list \<Rightarrow> strategy_candidate list \<Rightarrow> unit result" where
  "validate_candidates seen [] = Inr ()"
| "validate_candidates seen (c # cs) = bind_result (validate_candidate c) (\<lambda>u.
     raise_if (candidate_identity c \<in> set seen) (contract ''decision proposed a duplicate strategy'')
     (validate_candidates (candidate_identity c # seen) cs))"

definition needs_boundary :: "decision_output \<Rightarrow> bool" where
  "needs_boundary d \<longleftrightarrow> de_decision d = JStr ''SURVIVED'' \<or> de_decision d = JStr ''NARROWED''"

definition validate_decision :: "(string \<Rightarrow> rat option) \<Rightarrow> string list \<Rightarrow> decision_output \<Rightarrow> unit result" where
  "validate_decision fl available d =
     bind_result (validate_usage (de_usage d)) (\<lambda>u.
     bind_result (json_in (de_decision d) DECISIONS) (\<lambda>ok.
     raise_if (\<not> ok) (contract ''unsupported decision'')
     (case number_value fl (de_probability d) of
       None \<Rightarrow> Inl (contract ''counterevidence probability must be numeric'')
     | Some x \<Rightarrow>
       raise_if (\<not> in_unit x) (contract ''counterevidence probability must be in [0,1]'')
       (bind_result (json_blank (de_reason d)) (\<lambda>empty.
        raise_if empty (contract ''decision reason is required'')
       (bind_result (validate_selections available [] (de_evidence d)) (\<lambda>u.
        bind_result (if needs_boundary d then json_blank (de_boundary d) else Inr False) (\<lambda>empty.
        raise_if empty (contract ''surviving or narrowed decision requires a boundary'')
        (raise_if (length (de_candidates d) > 3) (contract ''a decision may propose at most three strategies'')
        (validate_candidates [] (de_candidates d)))))))))))"

end
