(* ===== verification/Stage_Handlers.thy ===== *)
theory Stage_Handlers
  imports Benchmark
begin

text \<open>
  The stage handlers of the benchmark runner (\<open>src/evaluation/baseline_runner.py\<close>, second part):
  planning, retrieval, reading, proposing, challenging, deciding and synthesizing one blind task,
  and what \<open>run_task\<close> does before and after the worker runs them.

  A handler is a step on the job database (call reservations) and the artifact store that returns a
  \<open>StageResult\<close> or raises.  The model backend and the retriever are parameters: a search gives the
  calls it reserves, in order, and its outcome.
\<close>

section \<open>Model\<close>

record bench_env =
  be_env :: py_env
  be_digest :: "string \<Rightarrow> string"
  be_loads :: "string \<Rightarrow> json option"
  be_float :: "string \<Rightarrow> rat option"
  be_now :: time

record bench =
  bn_db :: job_db
  bn_artifacts :: artifact_store

type_synonym 'a bench_act = "(bench, 'a) process"

record backend =
  bk_provider_id :: string
  bk_plan_call_reservation :: int
  bk_decision_call_reservation :: int
  bk_plan_queries :: "blind_task \<Rightarrow> string \<Rightarrow> string \<Rightarrow> query_plan result"
  bk_decide :: "blind_task \<Rightarrow> method_spec \<Rightarrow> retrieved_passage list \<Rightarrow> retrieved_passage list \<Rightarrow> string \<Rightarrow> decision_output result"

record retriever =
  rv_provider_id :: string
  rv_search :: "string \<Rightarrow> string \<Rightarrow> string \<Rightarrow> json \<Rightarrow> string \<Rightarrow> string list \<times> retrieval_result result"

section \<open>Artifacts and charges\<close>

definition put_value :: "bench_env \<Rightarrow> job \<Rightarrow> string \<Rightarrow> json \<Rightarrow> artifact_ref bench_act" where
  "put_value be j key v s =
     (let (r, a) = put_json (be_digest be) (be_now be) (tenant_id j) (job_id j) key v (bn_artifacts s)
      in (r, s\<lparr>bn_artifacts := a\<rparr>))"

definition get_value :: "bench_env \<Rightarrow> job \<Rightarrow> string \<Rightarrow> json bench_act" where
  "get_value be j key s = (bind_result (get_ref (tenant_id j, job_id j, key) (bn_artifacts s))
     (\<lambda>r. read_json (be_digest be) (be_loads be) r (bn_artifacts s)), s)"

definition call_charge :: "string \<Rightarrow> string \<Rightarrow> int \<Rightarrow> int \<Rightarrow> charge_request" where
  "call_charge key provider calls tokens = \<lparr>ch_charge_key = key, ch_provider = provider, ch_calls = calls,
     ch_tokens = tokens, ch_cost_microunits = 0\<rparr>"

definition store_charge :: "bench_env \<Rightarrow> job \<Rightarrow> charge_request \<Rightarrow> unit bench_act" where
  "store_charge be j r s = (case charge (job_id j) r (be_now be) (bn_db s) of
     Inl e \<Rightarrow> (Inl e, s) | Inr (row, db) \<Rightarrow> (Inr (), s\<lparr>bn_db := db\<rparr>))"

definition reserve_backend_calls :: "bench_env \<Rightarrow> job \<Rightarrow> string \<Rightarrow> string \<Rightarrow> int \<Rightarrow> unit bench_act" where
  "reserve_backend_calls be j provider op calls =
     (if calls < 0 then b_lift (Inl (contract ''backend call reservation must be non-negative''))
      else if calls = 0 then b_lift (Inr ())
      else store_charge be j (call_charge (op @ '':call-reservation'') provider calls 0))"

definition post_reservation_charge :: "string \<Rightarrow> string \<Rightarrow> usage \<Rightarrow> int \<Rightarrow> charge_request result" where
  "post_reservation_charge provider op u reserved =
     raise_if (ug_calls u < reserved) (contract ''backend reported fewer calls than were reserved before execution'')
     (Inr (call_charge (op @ '':reported-usage'') provider (ug_calls u - reserved) (ug_tokens u)))"

definition artifact_checkpoint :: "artifact_ref \<Rightarrow> json" where
  "artifact_checkpoint r = JObj [(''artifact'', checkpoint_value r)]"

section \<open>Planning\<close>

definition plan_one :: "bench_env \<Rightarrow> backend \<Rightarrow> blind_task \<Rightarrow> stage_invocation \<Rightarrow> string \<Rightarrow> string \<Rightarrow>
    (query_plan \<times> charge_request) bench_act" where
  "plan_one be bk tk ivn intent suffix = (let op = si_operation_id ivn @ suffix; n = bk_plan_call_reservation bk in
     b_bind (reserve_backend_calls be (si_job ivn) (bk_provider_id bk) op n) (\<lambda>u.
     b_lift (bind_result (bk_plan_queries bk tk intent op) (\<lambda>p.
       bind_result (validate_query_plan p) (\<lambda>u.
       bind_result (post_reservation_charge (bk_provider_id bk) op (qp_usage p) n) (\<lambda>c. Inr (p, c)))))))"

definition proposal_event :: "blind_task \<Rightarrow> stage_invocation \<Rightarrow> event_spec" where
  "proposal_event tk ivn = \<lparr>es_aggregate_type = ''claim'', es_aggregate_id = challenge_id tk,
     es_event_type = ''claim.proposed'',
     es_payload = JObj [(''claim_id'', JStr (challenge_id tk)), (''text'', JStr (prompt tk)),
       (''scope'', JStr (py_str (task_family tk) @ '' through '' @ py_str (cutoff_date tk)))],
     es_idempotency_key = si_operation_id ivn @ '':claim''\<rparr>"

definition plan_handler ::
  "bench_env \<Rightarrow> backend \<Rightarrow> blind_task \<Rightarrow> method_spec \<Rightarrow> stage_invocation \<Rightarrow> stage_result bench_act" where
  "plan_handler be bk tk m ivn =
     b_bind (plan_one be bk tk ivn ''support'' '':support'') (\<lambda>(sp, sc).
     b_bind (if external_counter_retrieval m
        then b_bind (plan_one be bk tk ivn ''counterevidence'' '':counter'') (\<lambda>(cp, cc). b_lift (Inr (qp_queries cp, [sc, cc])))
        else b_lift (Inr ([], [sc]))) (\<lambda>(counter, charges).
     b_bind (put_value be (si_job ivn) ''baseline:plan'' (JObj [
         (''support_queries'', JList (map JStr (qp_queries sp))), (''counter_queries'', JList (map JStr counter)),
         (''external_counter_retrieval'', JBool (external_counter_retrieval m))])) (\<lambda>ref.
     b_lift (Inr \<lparr>sr_events = (if cedg m then [proposal_event tk ivn] else []), sr_charges = charges,
       sr_checkpoint = artifact_checkpoint ref\<rparr>))))"

section \<open>Retrieval\<close>

definition query_event :: "blind_task \<Rightarrow> stage_invocation \<Rightarrow> string \<Rightarrow> nat \<Rightarrow> string \<Rightarrow> string \<Rightarrow> nat \<Rightarrow> event_spec" where
  "query_event tk ivn qid index intent q hits = \<lparr>es_aggregate_type = ''query'', es_aggregate_id = qid,
     es_event_type = ''query.executed'',
     es_payload = JObj [(''query_id'', JStr qid), (''claim_id'', JStr (challenge_id tk)), (''text'', JStr q),
       (''intent'', JStr intent), (''n_hits'', JInt (int hits))],
     es_idempotency_key = si_operation_id ivn @ '':query:'' @ show_nat index\<rparr>"

text \<open>The locator entries come between \<open>query_id\<close> and \<open>content_sha256\<close>.\<close>

definition passage_event :: "stage_invocation \<Rightarrow> retrieved_passage \<Rightarrow> event_spec" where
  "passage_event ivn p = \<lparr>es_aggregate_type = ''passage'', es_aggregate_id = rp_passage_id p,
     es_event_type = ''passage.observed'',
     es_payload = JObj ([(''passage_id'', JStr (rp_passage_id p)), (''doc_id'', JStr (rp_doc_id p)),
       (''query_id'', JStr (rp_query_id p))] @ rp_locator p @ [(''content_sha256'', JStr (rp_content_sha256 p))]),
     es_idempotency_key = si_operation_id ivn @ '':passage:'' @ rp_passage_id p\<rparr>"

fun reserve_searches :: "bench_env \<Rightarrow> job \<Rightarrow> string \<Rightarrow> string \<Rightarrow> string list \<Rightarrow> unit bench_act" where
  "reserve_searches be j provider op [] = b_lift (Inr ())"
| "reserve_searches be j provider op (sub # subs) =
     (if blank sub \<or> length sub > 300 then b_lift (Inl (contract ''retrieval suboperation id is invalid''))
      else b_bind (store_charge be j (call_charge (op @ '':'' @ sub @ '':call-reservation'') provider 1 0))
        (\<lambda>u. reserve_searches be j provider op subs))"

text \<open>The loop over the passages of one result: the ids seen so far.\<close>

fun observe_passages :: "string \<Rightarrow> string set \<Rightarrow> retrieved_passage list \<Rightarrow> string set result" where
  "observe_passages qid seen [] = Inr seen"
| "observe_passages qid seen (p # ps) =
     raise_if (rp_query_id p \<noteq> qid) (contract ''retriever passage query_id does not match assigned query'')
     (raise_if (rp_passage_id p \<in> seen) (contract ''passage_id duplicated across query results'')
     (observe_passages qid (insert (rp_passage_id p) seen) ps))"

definition query_id :: "string \<Rightarrow> nat \<Rightarrow> string" where
  "query_id intent index = intent @ ''-'' @ show_nat index"

definition search_operation :: "stage_invocation \<Rightarrow> string \<Rightarrow> nat \<Rightarrow> string" where
  "search_operation ivn intent index = si_operation_id ivn @ '':'' @ intent @ '':'' @ show_nat index"

text \<open>One query: the checked passages, the ids seen, the charge.\<close>

definition retrieve_one ::
  "bench_env \<Rightarrow> retriever \<Rightarrow> blind_task \<Rightarrow> stage_invocation \<Rightarrow> string \<Rightarrow> nat \<Rightarrow> string \<Rightarrow> string set \<Rightarrow>
   (retrieved_passage list \<times> string set \<times> charge_request) bench_act" where
  "retrieve_one be rv tk ivn intent index q seen =
     (let op = search_operation ivn intent index; qid = query_id intent index;
          (subs, out) = rv_search rv qid q intent (cutoff_date tk) op
      in b_bind (reserve_searches be (si_job ivn) (rv_provider_id rv) op subs) (\<lambda>u.
         b_lift (bind_result out (\<lambda>r.
           bind_result (validate_retrieval (be_env be) r) (\<lambda>u.
           bind_result (observe_passages qid seen (rr_passages r)) (\<lambda>seen'.
           bind_result (post_reservation_charge (rv_provider_id rv) op (rr_usage r) (int (length subs))) (\<lambda>c.
             Inr (rr_passages r, seen', c))))))))"

fun retrieve_queries ::
  "bench_env \<Rightarrow> retriever \<Rightarrow> blind_task \<Rightarrow> stage_invocation \<Rightarrow> string \<Rightarrow> nat \<Rightarrow> string set \<Rightarrow> string list \<Rightarrow>
   (retrieved_passage list \<times> charge_request list \<times> event_spec list) bench_act" where
  "retrieve_queries be rv tk ivn intent index seen [] = b_lift (Inr ([], [], []))"
| "retrieve_queries be rv tk ivn intent index seen (q # qs) =
     b_bind (retrieve_one be rv tk ivn intent index q seen) (\<lambda>(ps, seen', c).
     b_bind (retrieve_queries be rv tk ivn intent (Suc index) seen' qs) (\<lambda>(rest, cs, evs).
     b_lift (Inr (ps @ rest, c # cs,
       query_event tk ivn (query_id intent index) index intent q (length ps) # map (passage_event ivn) ps @ evs))))"

definition passage_dict :: "retrieved_passage \<Rightarrow> json" where
  "passage_dict p = JObj [(''passage_id'', JStr (rp_passage_id p)), (''query_id'', JStr (rp_query_id p)),
     (''doc_id'', JStr (rp_doc_id p)), (''text'', JStr (rp_text p)), (''locator'', JObj (rp_locator p)),
     (''content_sha256'', JStr (rp_content_sha256 p)), (''publication_date'', JStr (rp_publication_date p))]"

definition passage_fields :: "string list" where
  "passage_fields = [''passage_id'', ''query_id'', ''doc_id'', ''text'', ''locator'', ''content_sha256'', ''publication_date'']"

definition passage_from_dict :: "py_env \<Rightarrow> json \<Rightarrow> retrieved_passage result" where
  "passage_from_dict env v =
     raise_if (\<not> has_exact_fields v passage_fields) (TypeError ''unexpected keyword argument'')
     (case map (\<lambda>k. jget v k) passage_fields of
       [Some (JStr a), Some (JStr b), Some (JStr c), Some (JStr t), Some (JObj l), Some (JStr h), Some (JStr d)] \<Rightarrow>
         (let p = \<lparr>rp_passage_id = a, rp_query_id = b, rp_doc_id = c, rp_text = t, rp_locator = l,
            rp_content_sha256 = h, rp_publication_date = d\<rparr>
          in bind_result (validate_passage env p) (\<lambda>u. Inr p))
     | _ \<Rightarrow> Inl (AttributeError ''strip''))"

fun map_result :: "('a \<Rightarrow> 'b result) \<Rightarrow> 'a list \<Rightarrow> 'b list result" where
  "map_result f [] = Inr []"
| "map_result f (x # xs) = bind_result (f x) (\<lambda>y. bind_result (map_result f xs) (\<lambda>ys. Inr (y # ys)))"

definition key_of :: "json \<Rightarrow> string \<Rightarrow> json result" where
  "key_of v k = (case jget v k of None \<Rightarrow> Inl (KeyError k) | Some w \<Rightarrow> Inr w)"

definition text_of :: "json \<Rightarrow> string result" where
  "text_of v = (case v of JStr s \<Rightarrow> Inr s | _ \<Rightarrow> Inl (TypeError ''string expected''))"

definition retrieval_handler ::
  "bench_env \<Rightarrow> retriever \<Rightarrow> blind_task \<Rightarrow> string \<Rightarrow> string \<Rightarrow> stage_invocation \<Rightarrow> stage_result bench_act" where
  "retrieval_handler be rv tk intent key ivn =
     b_bind (get_value be (si_job ivn) ''baseline:plan'') (\<lambda>plan.
     b_bind (b_lift (bind_result (key_of plan (if intent = ''counterevidence'' then ''counter_queries'' else ''support_queries''))
        (\<lambda>qs. map_result text_of (json_items qs)))) (\<lambda>qs.
     b_bind (retrieve_queries be rv tk ivn intent 0 {} qs) (\<lambda>(ps, cs, evs).
     b_bind (put_value be (si_job ivn) key (JObj [(''intent'', JStr intent), (''passages'', JList (map passage_dict ps))])) (\<lambda>ref.
     b_lift (Inr \<lparr>sr_events = evs, sr_charges = cs, sr_checkpoint = artifact_checkpoint ref\<rparr>)))))"

text \<open>Any exception reading the counter passages counts as no counter passages.\<close>

definition read_passages :: "bench_env \<Rightarrow> job \<Rightarrow> string \<Rightarrow> retrieved_passage list bench_act" where
  "read_passages be j key s = (case get_value be j key s of
     (Inl e, s') \<Rightarrow> (if key = ''baseline:counter'' then Inr [] else Inl e, s')
   | (Inr v, s') \<Rightarrow> (bind_result (key_of v ''passages'') (\<lambda>ps. map_result (passage_from_dict (be_env be)) (json_items ps)), s'))"

definition read_handler :: "bench_env \<Rightarrow> stage_invocation \<Rightarrow> stage_result bench_act" where
  "read_handler be ivn s = (let j = si_job ivn; k = (tenant_id j, job_id j, ''baseline:support'') in
     (bind_result (get_ref k (bn_artifacts s)) (\<lambda>ref.
      bind_result (read_json (be_digest be) (be_loads be) ref (bn_artifacts s)) (\<lambda>v.
      bind_result (key_of v ''passages'') (\<lambda>ps.
      bind_result (map_result (passage_from_dict (be_env be)) (json_items ps)) (\<lambda>checked.
        Inr \<lparr>sr_events = [], sr_charges = [], sr_checkpoint = JObj [(''verified_artifact'', checkpoint_value ref),
          (''passages'', JInt (int (length (json_items ps))))]\<rparr>)))), s))"

definition propose_handler :: "bench_env \<Rightarrow> blind_task \<Rightarrow> stage_invocation \<Rightarrow> stage_result bench_act" where
  "propose_handler be tk ivn = b_lift (Inr \<lparr>sr_events = [], sr_charges = [], sr_checkpoint = JObj [
     (''challenge_id'', JStr (challenge_id tk)), (''claim_sha256'', JStr (sha256 (be_env be) (prompt tk))),
     (''gold_visible'', JBool False)]\<rparr>)"

definition challenge_handler ::
  "bench_env \<Rightarrow> retriever \<Rightarrow> blind_task \<Rightarrow> method_spec \<Rightarrow> stage_invocation \<Rightarrow> stage_result bench_act" where
  "challenge_handler be rv tk m ivn =
     (if external_counter_retrieval m then retrieval_handler be rv tk ''counterevidence'' ''baseline:counter'' ivn
      else b_bind (put_value be (si_job ivn) ''baseline:counter''
          (JObj [(''intent'', JStr ''counterevidence''), (''passages'', JList [])])) (\<lambda>ref.
        b_lift (Inr \<lparr>sr_events = [], sr_charges = [], sr_checkpoint = JObj [(''artifact'', checkpoint_value ref),
          (''external_counter_retrieval'', JBool False)]\<rparr>)))"

section \<open>Deciding\<close>

definition move_event :: "stage_invocation \<Rightarrow> blind_task \<Rightarrow> json \<Rightarrow> json \<Rightarrow> string \<Rightarrow> json \<Rightarrow> event_spec" where
  "move_event ivn tk state reason suffix boundary = \<lparr>es_aggregate_type = ''claim'',
     es_aggregate_id = challenge_id tk, es_event_type = ''claim.transitioned'',
     es_payload = JObj ([(''claim_id'', JStr (challenge_id tk)), (''to_state'', state), (''reason'', reason)] @
       (if truthy boundary then [(''boundary'', boundary)] else [])),
     es_idempotency_key = si_operation_id ivn @ '':transition:'' @ suffix\<rparr>"

definition edge_event :: "stage_invocation \<Rightarrow> blind_task \<Rightarrow> nat \<Rightarrow> evidence_selection \<Rightarrow> event_spec" where
  "edge_event ivn tk index s = \<lparr>es_aggregate_type = ''claim'', es_aggregate_id = challenge_id tk,
     es_event_type = ''evidence.linked'',
     es_payload = JObj [(''claim_id'', JStr (challenge_id tk)), (''passage_id'', ev_passage_id s),
       (''relation'', ev_relation s)],
     es_idempotency_key = si_operation_id ivn @ '':edge:'' @ show_nat index\<rparr>"

definition selection_json :: "evidence_selection \<Rightarrow> json" where
  "selection_json s = JObj [(''passage_id'', ev_passage_id s), (''relation'', ev_relation s)]"

definition candidate_json :: "strategy_candidate \<Rightarrow> json" where
  "candidate_json c = JObj [(''kind'', ca_kind c), (''pattern'', ca_pattern c)]"

definition decision_fields :: "decision_output \<Rightarrow> (string \<times> json) list" where
  "decision_fields d = [(''decision'', de_decision d), (''counterevidence_probability'', de_probability d),
     (''evidence'', JList (map selection_json (de_evidence d))), (''reason'', de_reason d),
     (''boundary'', de_boundary d)]"

definition decision_event :: "bench_env \<Rightarrow> stage_invocation \<Rightarrow> blind_task \<Rightarrow> method_spec \<Rightarrow> decision_output \<Rightarrow> event_spec" where
  "decision_event be ivn tk m d = \<lparr>es_aggregate_type = ''benchmark'', es_aggregate_id = challenge_id tk,
     es_event_type = ''benchmark.decision_recorded'',
     es_payload = JObj ([(''challenge_id'', JStr (challenge_id tk)), (''method_id'', JStr (method_id m))] @ decision_fields d @
       [(''strategy_candidate_hashes'', JList (map (\<lambda>c. JStr (sha256 (be_env be) (py_str (ca_kind c) @ ''|'' @ py_str (ca_pattern c)))) (de_candidates d)))]),
     es_idempotency_key = si_operation_id ivn @ '':decision''\<rparr>"

definition edge_events :: "stage_invocation \<Rightarrow> blind_task \<Rightarrow> evidence_selection list \<Rightarrow> event_spec list" where
  "edge_events ivn tk ss = map (\<lambda>(i, s). edge_event ivn tk i s) (enumerate 0 ss)"

definition decision_events :: "stage_invocation \<Rightarrow> blind_task \<Rightarrow> method_spec \<Rightarrow> decision_output \<Rightarrow> event_spec list" where
  "decision_events ivn tk m d = edge_events ivn tk (de_evidence d) @
     (if de_decision d = JStr ''SURVIVED'' then [move_event ivn tk (JStr ''SUPPORTED'') (de_reason d) ''supported'' (JStr [])] else []) @
     (if external_counter_retrieval m
      then [move_event ivn tk (JStr ''CHALLENGED'') (JStr ''counter-query executed'') ''challenged'' (JStr [])] else []) @
     [move_event ivn tk (de_decision d) (de_reason d) ''terminal'' (de_boundary d)]"

definition lacks_support :: "decision_output \<Rightarrow> bool" where
  "lacks_support d \<longleftrightarrow> de_decision d = JStr ''SURVIVED'' \<and> JStr ''SUPPORTS'' \<notin> set (map ev_relation (de_evidence d))"

definition decide_handler ::
  "bench_env \<Rightarrow> backend \<Rightarrow> blind_task \<Rightarrow> method_spec \<Rightarrow> stage_invocation \<Rightarrow> stage_result bench_act" where
  "decide_handler be bk tk m ivn = (let op = si_operation_id ivn; n = bk_decision_call_reservation bk in
     b_bind (read_passages be (si_job ivn) ''baseline:support'') (\<lambda>support.
     b_bind (read_passages be (si_job ivn) ''baseline:counter'') (\<lambda>counter.
     if \<not> external_counter_retrieval m \<and> counter \<noteq> []
     then b_lift (Inl (contract ''control method received external counterevidence''))
     else
     b_bind (reserve_backend_calls be (si_job ivn) (bk_provider_id bk) op n) (\<lambda>u.
     b_bind (b_lift (bind_result (bk_decide bk tk m support counter op) (\<lambda>d.
        bind_result (validate_decision (be_float be) (map rp_passage_id (support @ counter)) d) (\<lambda>u. Inr d)))) (\<lambda>d.
     b_bind (put_value be (si_job ivn) ''baseline:decision'' (JObj (decision_fields d @
        [(''strategy_candidates'', JList (map candidate_json (de_candidates d)))]))) (\<lambda>ref.
     b_lift (raise_if (cedg m \<and> lacks_support d) (contract ''SURVIVED CEDG decision lacks support'')
       (bind_result (post_reservation_charge (bk_provider_id bk) op (de_usage d) n) (\<lambda>c.
         Inr \<lparr>sr_events = decision_event be ivn tk m d # (if cedg m then decision_events ivn tk m d else []),
           sr_charges = [c], sr_checkpoint = artifact_checkpoint ref\<rparr>)))))))))"

section \<open>Synthesizing\<close>

definition SEMANTIC_FIELDS :: "string list" where
  "SEMANTIC_FIELDS = [''schema_version'', ''challenge_id'', ''run_id'', ''method_id'', ''status'',
     ''predicted_decision'', ''counterevidence_probability'', ''evidence'', ''calls'', ''tokens'']"

definition semantic_part :: "json \<Rightarrow> json result" where
  "semantic_part row = bind_result (map_result (\<lambda>k. bind_result (key_of row k) (\<lambda>v. Inr (k, v))) SEMANTIC_FIELDS) (\<lambda>kvs. Inr (JObj kvs))"

definition prediction_commitment :: "py_env \<Rightarrow> json \<Rightarrow> string result" where
  "prediction_commitment env row = bind_result (semantic_part row) (\<lambda>v.
     bind_result (canonical_json v) (\<lambda>text. Inr (sha256 env text)))"

definition prediction_fields ::
  "blind_task \<Rightarrow> method_spec \<Rightarrow> string \<Rightarrow> string \<Rightarrow> json \<Rightarrow> json \<Rightarrow> json list \<Rightarrow> int \<Rightarrow> int \<Rightarrow> (string \<times> json) list" where
  "prediction_fields tk m run st decision probability evidence calls tokens = [(''schema_version'', JInt 1),
     (''challenge_id'', JStr (challenge_id tk)), (''run_id'', JStr run), (''method_id'', JStr (method_id m)),
     (''status'', JStr st), (''predicted_decision'', decision), (''counterevidence_probability'', probability),
     (''evidence'', JList evidence), (''calls'', JInt calls), (''tokens'', JInt tokens)]"

text \<open>\<open>passage_index[item["passage_id"]]\<close>; of equal ids the last passage counts.\<close>

definition selected_evidence :: "retrieved_passage list \<Rightarrow> json \<Rightarrow> json result" where
  "selected_evidence ps item = bind_result (key_of item ''passage_id'') (\<lambda>pid.
     bind_result (text_of pid) (\<lambda>k.
     case map_of (rev (map (\<lambda>p. (rp_passage_id p, p)) ps)) k of
       None \<Rightarrow> Inl (KeyError k)
     | Some p \<Rightarrow> bind_result (key_of item ''relation'') (\<lambda>rel. Inr (JObj [(''doc_id'', JStr (rp_doc_id p)),
         (''relation'', rel), (''locator'', JObj (rp_locator p)), (''content_sha256'', JStr (rp_content_sha256 p))]))))"

definition synthesize_handler ::
  "bench_env \<Rightarrow> blind_task \<Rightarrow> method_spec \<Rightarrow> string \<Rightarrow> stage_invocation \<Rightarrow> stage_result bench_act" where
  "synthesize_handler be tk m run ivn =
     b_bind (get_value be (si_job ivn) ''baseline:decision'') (\<lambda>decision.
     b_bind (read_passages be (si_job ivn) ''baseline:support'') (\<lambda>support.
     b_bind (read_passages be (si_job ivn) ''baseline:counter'') (\<lambda>counter.
     b_bind (b_lift (bind_result (key_of decision ''evidence'') (\<lambda>items.
        bind_result (map_result (selected_evidence (support @ counter)) (json_items items)) (\<lambda>selected.
        bind_result (key_of decision ''decision'') (\<lambda>d.
        bind_result (key_of decision ''counterevidence_probability'') (\<lambda>p.
        let row = prediction_fields tk m run ''completed'' d p selected (used_calls (si_job ivn)) (used_tokens (si_job ivn))
        in bind_result (prediction_commitment (be_env be) (JObj row)) (\<lambda>c. Inr (row, c)))))))) (\<lambda>(row, c).
     b_bind (put_value be (si_job ivn) ''baseline:prediction'' (JObj (row @ [(''prediction_commitment_sha256'', JStr c)]))) (\<lambda>ref.
     b_lift (Inr \<lparr>sr_events = [\<lparr>es_aggregate_type = ''benchmark_prediction'', es_aggregate_id = challenge_id tk,
         es_event_type = ''benchmark.prediction_candidate_recorded'',
         es_payload = JObj [(''challenge_id'', JStr (challenge_id tk)), (''run_id'', JStr run),
           (''method_id'', JStr (method_id m)), (''prediction_commitment_sha256'', JStr c)],
         es_idempotency_key = si_operation_id ivn @ '':commitment''\<rparr>], sr_charges = [],
       sr_checkpoint = artifact_checkpoint ref\<rparr>))))))"

section \<open>Before and after the worker\<close>

definition events_of_type :: "string \<Rightarrow> event list \<Rightarrow> nat" where
  "events_of_type k evs = length (filter (\<lambda>e. event_type e = k) evs)"

definition control_validator :: validator where
  "control_validator evs =
     (let d = events_of_type ''benchmark.decision_recorded'' evs;
          c = events_of_type ''benchmark.prediction_candidate_recorded'' evs
      in Inr ([(''benchmark_decisions'', d), (''prediction_candidates'', c)],
           (if d \<noteq> 1 then [''expected one benchmark decision, found '' @ show_nat d] else []) @
           (if c \<noteq> 1 then [''expected one prediction candidate, found '' @ show_nat c] else [])))"

definition task_finalizer :: "method_spec \<Rightarrow> string \<times> validator" where
  "task_finalizer m = (if cedg m then (''cedg-publication-v1'', publication_validator)
     else (''non-cedg-benchmark-control-v1'', control_validator))"

definition admit_task ::
  "bench_env \<Rightarrow> string \<Rightarrow> string \<Rightarrow> json \<Rightarrow> method_spec \<Rightarrow> string \<Rightarrow> int \<Rightarrow> int \<Rightarrow> (blind_task \<times> job) bench_act" where
  "admit_task be tenant new_id v m run mc mt s = (case bind_result (blind_task_from_dict (be_float be) v) (\<lambda>tk.
       raise_if (memory m \<noteq> ''none'') (contract ''memory treatments require the ordered multi-task runner'')
       (raise_if (\<not> support_retrieval m) (contract ''V2 baseline contract requires support retrieval'')
       (raise_if (blank run \<or> min mc mt < 0) (contract ''run id and non-negative budgets are required'') (Inr tk)))) of
     Inl e \<Rightarrow> (Inl e, s)
   | Inr tk \<Rightarrow> (case create_job (be_now be) new_id \<lparr>cr_tenant_id = tenant,
         cr_idempotency_key = run @ '':'' @ method_id m @ '':'' @ challenge_id tk, cr_task = prompt tk,
         cr_max_calls = mc, cr_max_tokens = mt, cr_max_cost_microunits = 0, cr_job_id = None\<rparr> (bn_db s) of
       Inl e \<Rightarrow> (Inl e, s)
     | Inr (j, db) \<Rightarrow> (Inr (tk, j), s\<lparr>bn_db := db\<rparr>)))"

definition stage_handlers ::
  "bench_env \<Rightarrow> backend \<Rightarrow> retriever \<Rightarrow> blind_task \<Rightarrow> method_spec \<Rightarrow> string \<Rightarrow> stage \<Rightarrow>
   (stage_invocation \<Rightarrow> stage_result bench_act) option" where
  "stage_handlers be bk rv tk m run st = (case st of
     PLAN \<Rightarrow> Some (plan_handler be bk tk m)
   | RETRIEVE \<Rightarrow> Some (retrieval_handler be rv tk ''support'' ''baseline:support'')
   | READ \<Rightarrow> Some (read_handler be)
   | PROPOSE \<Rightarrow> Some (propose_handler be tk)
   | CHALLENGE \<Rightarrow> Some (challenge_handler be rv tk m)
   | DECIDE \<Rightarrow> Some (decide_handler be bk tk m)
   | SYNTHESIZE \<Rightarrow> Some (synthesize_handler be tk m run)
   | VALIDATE \<Rightarrow> None)"

definition failed_prediction :: "blind_task \<Rightarrow> method_spec \<Rightarrow> string \<Rightarrow> job \<Rightarrow> (string \<times> json) list" where
  "failed_prediction tk m run j = prediction_fields tk m run ''failed'' (JStr ''UNRESOLVED'') (JFloat ''0.5'') []
     (used_calls j) (used_tokens j)"

definition first_code :: "string \<Rightarrow> string option \<Rightarrow> string" where
  "first_code reported stored = (if reported \<noteq> [] then reported else
     (case stored of None \<Rightarrow> ''CANCELLED'' | Some c \<Rightarrow> if c = [] then ''CANCELLED'' else c))"

text \<open>The prediction of a job that has ended, its commitment, and the outcome.\<close>

definition settled_prediction ::
  "bench_env \<Rightarrow> blind_task \<Rightarrow> method_spec \<Rightarrow> string \<Rightarrow> string \<Rightarrow> job \<Rightarrow> ((string \<times> json) list \<times> json \<times> string) bench_act" where
  "settled_prediction be tk m run code j =
     (if status j = SUCCEEDED then
        b_bind (get_value be j ''baseline:prediction'') (\<lambda>v. b_lift (bind_result (key_of v ''prediction_commitment_sha256'') (\<lambda>c.
          Inr (filter (\<lambda>(k, w). k \<noteq> ''prediction_commitment_sha256'') (case v of JObj kvs \<Rightarrow> kvs | _ \<Rightarrow> []), c, ''completed''))))
      else if status j \<in> set [FAILED, CANCELLED] then
        (let row = failed_prediction tk m run j in
         b_bind (b_lift (prediction_commitment (be_env be) (JObj row))) (\<lambda>c.
         b_bind (put_value be j ''baseline:failure_prediction'' (JObj (row @ [(''prediction_commitment_sha256'', JStr c),
            (''failure_code'', JStr (first_code code (last_error_code j)))]))) (\<lambda>ref.
         b_lift (Inr (row, JStr c, ''failed'')))))
      else b_lift (Inl (contract ''baseline task stopped in nonterminal state'')))"

definition commitment_request ::
  "blind_task \<Rightarrow> method_spec \<Rightarrow> string \<Rightarrow> job \<Rightarrow> json \<Rightarrow> string \<Rightarrow> append_request" where
  "commitment_request tk m run j c outcome = \<lparr>req_tenant_id = tenant_id j, req_job_id = job_id j,
     req_aggregate_type = ''benchmark_prediction'', req_aggregate_id = challenge_id tk,
     req_event_type = ''benchmark.prediction_committed'',
     req_payload = JObj [(''challenge_id'', JStr (challenge_id tk)), (''run_id'', JStr run),
       (''method_id'', JStr (method_id m)), (''status'', JStr outcome), (''prediction_commitment_sha256'', c)],
     req_idempotency_key = ''outcome:'' @ run @ '':'' @ method_id m @ '':'' @ challenge_id tk @ '':'' @ outcome,
     req_event_id = None, req_occurred_at = None, req_expected_head = None\<rparr>"

definition ledger_relpath :: "job \<Rightarrow> string" where
  "ledger_relpath j = tenant_id j @ ''/'' @ job_id j @ ''/events.jsonl''"

text \<open>What \<open>run_task\<close> does after the worker: the completed prediction and the ledger.\<close>

definition settle_task ::
  "bench_env \<Rightarrow> draw \<Rightarrow> blind_task \<Rightarrow> method_spec \<Rightarrow> string \<Rightarrow> string \<Rightarrow> job \<Rightarrow> raw_line list \<Rightarrow>
   (json \<times> raw_line list) bench_act" where
  "settle_task be d tk m run code j lines =
     b_bind (settled_prediction be tk m run code j) (\<lambda>(row, c, outcome).
     b_lift (bind_result (ledger_append (be_env be) d (commitment_request tk m run j c outcome) lines) (\<lambda>(e, lines').
       bind_result (ledger_verify (be_env be) lines') (\<lambda>receipt.
       raise_if (\<not> report_ok receipt) (contract ''terminal task has an invalid ledger'')
       (let done_row = fold (\<lambda>(k, v) d. jput d k v) [(''ledger_head'', JStr (report_head_hash receipt)),
            (''ledger_event_count'', JInt (int (report_event_count receipt))), (''ledger_relpath'', JStr (ledger_relpath j)),
            (''prediction_commitment_sha256'', c)] (JObj row)
        in bind_result (prediction_commitment (be_env be) done_row) (\<lambda>c'.
          raise_if (JStr c' \<noteq> c) (contract ''stored prediction commitment is inconsistent'') (Inr (done_row, lines'))))))))"

end
