(* ===== verification/Stage_Laws.thy ===== *)
theory Stage_Laws
  imports Stage_Handlers
begin

text \<open>
  What the evidence graph makes of the events of a benchmark task: the queries and passages of
  the two searches are always accepted; the links and transitions of a decision are accepted
  exactly when the decision is admissible for the method and the passages it was shown.
\<close>

section \<open>Replaying the events of the handlers\<close>

fun replay :: "event_spec list \<Rightarrow> decision_graph \<Rightarrow> decision_graph result" where
  "replay [] g = Inr g"
| "replay (s # ss) g = bind_result (handle_payload (es_event_type s) (es_payload s) g) (replay ss)"

text \<open>A ledger whose events are those of the handlers, in order.\<close>

definition records :: "event list \<Rightarrow> event_spec list \<Rightarrow> bool" where
  "records evs ss \<longleftrightarrow> distinct (map event_id evs) \<and>
     map (\<lambda>e. (event_type e, payload e)) evs = map (\<lambda>s. (es_event_type s, es_payload s)) ss"

lemma replay_append: "replay (xs @ ys) g = bind_result (replay xs g) (replay ys)"
proof (induction xs arbitrary: g)
  case (Cons s ss)
  then show ?case by (cases "handle_payload (es_event_type s) (es_payload s) g") simp_all
qed simp

lemma replay_single [simp]: "replay [s] g = handle_payload (es_event_type s) (es_payload s) g"
  by (cases "handle_payload (es_event_type s) (es_payload s) g") simp_all

text \<open>No handler reads or writes the applied event ids.\<close>

definition with_ids :: "string set \<Rightarrow> decision_graph \<Rightarrow> decision_graph" where
  "with_ids a g = g\<lparr>applied_event_ids := a\<rparr>"

lemma with_ids_simps [simp]:
  "claims (with_ids a g) = claims g" "queries (with_ids a g) = queries g"
  "passages (with_ids a g) = passages g" "edges (with_ids a g) = edges g"
  "applied_event_ids (with_ids a g) = a" "with_ids a (with_ids b g) = with_ids a g"
  by (simp_all add: with_ids_def)

lemma with_ids_update:
  "(with_ids a g)\<lparr>claims := x\<rparr> = with_ids a (g\<lparr>claims := x\<rparr>)"
  "(with_ids a g)\<lparr>queries := y\<rparr> = with_ids a (g\<lparr>queries := y\<rparr>)"
  "(with_ids a g)\<lparr>passages := z\<rparr> = with_ids a (g\<lparr>passages := z\<rparr>)"
  "(with_ids a g)\<lparr>edges := e\<rparr> = with_ids a (g\<lparr>edges := e\<rparr>)"
  by (simp_all add: with_ids_def)

lemma reads_with_ids [simp]:
  "relations_of (with_ids a g) = relations_of g"
  "has_counter_query (with_ids a g) = has_counter_query g"
  by (simp_all add: relations_of_def [abs_def] has_counter_query_def [abs_def])

lemma guard_with_ids [simp]: "transition_guard (with_ids a g) = transition_guard g"
  by (intro ext) (simp add: transition_guard_def Let_def)

definition keep_ids :: "string set \<Rightarrow> decision_graph result \<Rightarrow> decision_graph result" where
  "keep_ids a r = bind_result r (\<lambda>g. Inr (with_ids a g))"

lemma keep_ids_simps [simp]:
  "keep_ids a (Inl e) = Inl e" "keep_ids a (Inr g) = Inr (with_ids a g)"
  "keep_ids a (required p ks k) = required p ks (keep_ids a k)"
  "keep_ids a (if c then x else y) = (if c then keep_ids a x else keep_ids a y)"
  "keep_ids a (bind_result m f) = bind_result m (\<lambda>x. keep_ids a (f x))"
  by (auto simp: keep_ids_def required_def bind_result_def Let_def split: sum.split)

lemma handlers_with_ids:
  "claim_proposed p (with_ids a g) = keep_ids a (claim_proposed p g)"
  "query_executed p (with_ids a g) = keep_ids a (query_executed p g)"
  "passage_observed p (with_ids a g) = keep_ids a (passage_observed p g)"
  "evidence_linked p (with_ids a g) = keep_ids a (evidence_linked p g)"
  "claim_transitioned p (with_ids a g) = keep_ids a (claim_transitioned p g)"
      apply (simp add: claim_proposed_def Let_def with_ids_update)
     apply (simp add: query_executed_def Let_def with_ids_update split: option.split)
    apply (simp add: passage_observed_def Let_def with_ids_update cong: if_cong)
   apply (simp add: evidence_linked_def Let_def with_ids_update split: option.split)
  apply (simp add: claim_transitioned_def Let_def with_ids_update split: option.split)
  done

lemma handle_payload_with_ids:
  "handle_payload t p (with_ids a g) = keep_ids a (handle_payload t p g)"
  by (simp add: handle_payload_def handlers_with_ids)

lemma apply_events_replay:
  assumes "distinct (map event_id evs)" and "set (map event_id evs) \<inter> a = {}"
    and "map (\<lambda>e. (event_type e, payload e)) evs = map (\<lambda>s. (es_event_type s, es_payload s)) ss"
  shows "apply_events evs (with_ids a g) = keep_ids (a \<union> set (map event_id evs)) (replay ss g)"
  using assms
proof (induction ss arbitrary: evs a g)
  case (Cons s ss)
  then obtain e es where evs: "evs = e # es" "event_type e = es_event_type s" "payload e = es_payload s"
    by (cases evs) auto
  have IH: "apply_events es (with_ids (insert (event_id e) a) h) =
      keep_ids (insert (event_id e) a \<union> set (map event_id es)) (replay ss h)" for h
    using Cons.prems evs by (intro Cons.IH) auto
  show ?case
  proof (cases "handle_payload (es_event_type s) (es_payload s) g")
    case (Inr h)
    then show ?thesis using Cons.prems evs IH [of h]
      by (simp add: apply_event_def handle_payload_with_ids with_ids_def [of "insert _ _", symmetric])
  qed (use Cons.prems evs in \<open>simp add: apply_event_def handle_payload_with_ids\<close>)
qed simp

lemma project_records:
  assumes "records evs ss"
  shows "project evs = keep_ids (set (map event_id evs)) (replay ss empty_graph)"
proof -
  have "empty_graph = with_ids {} empty_graph" by (simp add: empty_graph_def with_ids_def)
  with assms apply_events_replay [of evs "{}" ss empty_graph] show ?thesis
    by (simp add: project_def records_def)
qed

section \<open>The searches\<close>

lemma query_event_accepted:
  assumes "map_of (claims g) (challenge_id tk) \<noteq> None" and "challenge_id tk \<noteq> []"
    and "map_of (queries g) (query_id intent i) = None" and "q \<noteq> []"
    and "intent = ''support'' \<or> intent = ''counterevidence''"
  shows "handle_payload (es_event_type (query_event tk ivn (query_id intent i) i intent q n))
     (es_payload (query_event tk ivn (query_id intent i) i intent q n)) g =
     Inr (g\<lparr>queries := queries g @ [(query_id intent i, \<lparr>qu_query_id = query_id intent i,
       qu_claim_id = challenge_id tk, qu_text = q, qu_intent = intent, qu_n_hits = int n\<rparr>)]\<rparr>)"
  using assms
  by (auto simp: query_event_def handle_payload_def query_executed_def required_def field_missing_def
      payload_str_def update_absent query_id_def Let_def)

lemma exact_locator:
  assumes "has_exact_fields (JObj l) [k]" and "strict_int (snd (hd l)) = Some i"
  shows "map_of l k = Some (JInt i)" and "\<And>j. j \<noteq> k \<Longrightarrow> map_of l j = None"
proof -
  from assms(1) obtain v r where l: "l = (k, v) # r"
    by (cases l) (auto simp: has_exact_fields_def)
  with assms(2) show "map_of l k = Some (JInt i)" by (cases v) auto
  show "map_of l j = None" if "j \<noteq> k" for j
    using assms(1) that by (auto simp: has_exact_fields_def map_of_eq_None_iff list_all_iff)
qed

lemma validate_passageD:
  assumes "validate_passage env p = Inr u"
  obtains k i where "k = ''offset'' \<or> k = ''page_no''" and "0 \<le> i" and "map_of (rp_locator p) k = Some (JInt i)"
    and "\<And>j. j \<noteq> k \<Longrightarrow> map_of (rp_locator p) j = None" and "rp_passage_id p \<noteq> []" and "rp_doc_id p \<noteq> []"
    and "rp_query_id p \<noteq> []" and "rp_content_sha256 p = sha256 env (rp_text p)"
proof -
  from assms obtain i where i: "strict_int (snd (hd (rp_locator p))) = Some i" "0 \<le> i"
    by (auto simp: validate_passage_def split: option.splits)
  from assms obtain k where "k = ''offset'' \<or> k = ''page_no''" "has_exact_fields (JObj (rp_locator p)) [k]"
    by (auto simp: validate_passage_def)
  with i exact_locator [of "rp_locator p" k i] assms show thesis
    by (intro that [of k i]) (auto simp: validate_passage_def)
qed

lemma passage_event_accepted:
  assumes "validate_passage env p = Inr u" and "\<And>t. is_hex64 (sha256 env t)"
    and "map_of (queries g) (rp_query_id p) \<noteq> None" and "map_of (passages g) (rp_passage_id p) = None"
  obtains x where "pa_query_id x = rp_query_id p"
    and "handle_payload (es_event_type (passage_event ivn p)) (es_payload (passage_event ivn p)) g =
      Inr (g\<lparr>passages := passages g @ [(rp_passage_id p, x)]\<rparr>)"
proof -
  from assms(1) obtain k i where k: "k = ''offset'' \<or> k = ''page_no''" "0 \<le> i"
      "map_of (rp_locator p) k = Some (JInt i)" "\<And>j. j \<noteq> k \<Longrightarrow> map_of (rp_locator p) j = None"
      "rp_passage_id p \<noteq> []" "rp_doc_id p \<noteq> []" "rp_query_id p \<noteq> []"
      "rp_content_sha256 p = sha256 env (rp_text p)"
    by (rule validate_passageD [of env p u]) blast
  have "sha256 env (rp_text p) \<noteq> []" using assms(2) is_hex64_nonempty by blast
  with k assms(2) [of "rp_text p"] assms(3,4) show thesis
    by (intro that [of "\<lparr>pa_passage_id = rp_passage_id p, pa_doc_id = rp_doc_id p, pa_query_id = rp_query_id p,
        pa_content_sha256 = rp_content_sha256 p,
        pa_offset = (if k = ''offset'' then Some i else None), pa_page_no = (if k = ''offset'' then None else Some i)\<rparr>"])
      (auto simp: passage_event_def handle_payload_def passage_observed_def required_def field_missing_def
        payload_str_def update_absent is_absent_def optional_nat_def map_add_def Let_def)
qed

text \<open>Every passage of \<open>ids\<close> is in the graph, from a query of the intent about the claim.\<close>

definition searched :: "string \<Rightarrow> string \<Rightarrow> string set \<Rightarrow> decision_graph \<Rightarrow> bool" where
  "searched cid intent ids g \<longleftrightarrow> (\<forall>pid \<in> ids. \<exists>x q. map_of (passages g) pid = Some x \<and>
     map_of (queries g) (pa_query_id x) = Some q \<and> qu_claim_id q = cid \<and> qu_intent q = intent)"

text \<open>What replaying a search does to a graph.\<close>

definition extends :: "decision_graph \<Rightarrow> decision_graph \<Rightarrow> bool" where
  "extends g h \<longleftrightarrow> claims h = claims g \<and> edges h = edges g \<and>
     (\<exists>qs. queries h = queries g @ qs) \<and> (\<exists>ps. passages h = passages g @ ps)"

lemma extends_refl [simp]: "extends g g"
  by (simp add: extends_def)

lemma extends_trans: "extends f g \<Longrightarrow> extends g h \<Longrightarrow> extends f h"
  by (auto simp: extends_def)

lemma searched_extends: "searched cid intent ids g \<Longrightarrow> extends g h \<Longrightarrow> searched cid intent ids h"
  by (fastforce simp: searched_def extends_def)

lemma has_counter_extends: "extends g h \<Longrightarrow> has_counter_query g cid \<Longrightarrow> has_counter_query h cid"
  by (auto simp: extends_def has_counter_query_def)

lemma passages_replayed:
  assumes "\<forall>p \<in> set ps. validate_passage env p = Inr () \<and> rp_query_id p = qid"
    and "\<And>t. is_hex64 (sha256 env t)" and "map_of (queries g) qid = Some q"
    and "distinct (map rp_passage_id ps)" and "set (map rp_passage_id ps) \<inter> fst ` set (passages g) = {}"
  shows "\<exists>h. replay (map (passage_event ivn) ps) g = Inr h \<and> extends g h \<and> queries h = queries g \<and>
     fst ` set (passages h) = fst ` set (passages g) \<union> set (map rp_passage_id ps) \<and>
     searched (qu_claim_id q) (qu_intent q) (set (map rp_passage_id ps)) h"
  using assms
proof (induction ps arbitrary: g)
  case (Cons p ps)
  have "map_of (passages g) (rp_passage_id p) = None"
    using Cons.prems(5) by (auto simp: map_of_eq_None_iff)
  then obtain x where x: "pa_query_id x = qid" "handle_payload (es_event_type (passage_event ivn p))
      (es_payload (passage_event ivn p)) g = Inr (g\<lparr>passages := passages g @ [(rp_passage_id p, x)]\<rparr>)"
    using Cons.prems passage_event_accepted [of env p "()" g ivn] by auto
  let ?g = "g\<lparr>passages := passages g @ [(rp_passage_id p, x)]\<rparr>"
  obtain h where h: "replay (map (passage_event ivn) ps) ?g = Inr h" "extends ?g h" "queries h = queries ?g"
      "fst ` set (passages h) = fst ` set (passages ?g) \<union> set (map rp_passage_id ps)"
      "searched (qu_claim_id q) (qu_intent q) (set (map rp_passage_id ps)) h"
    using Cons.IH [of ?g] Cons.prems by auto
  have "searched (qu_claim_id q) (qu_intent q) {rp_passage_id p} ?g"
    using x Cons.prems(3) \<open>map_of (passages g) (rp_passage_id p) = None\<close>
    by (auto simp: searched_def map_add_def split: option.split)
  from searched_extends [OF this h(2)] h(5)
  have "searched (qu_claim_id q) (qu_intent q) (set (map rp_passage_id (p # ps))) h"
    by (auto simp: searched_def)
  moreover have "extends g ?g" by (simp add: extends_def)
  ultimately show ?case using h x extends_trans by fastforce
qed (simp add: searched_def)

text \<open>The ids a loop of one search has seen grow by those of the passages, all new.\<close>

lemma observe_passagesD:
  "observe_passages qid seen ps = Inr seen' \<Longrightarrow>
   (\<forall>p \<in> set ps. rp_query_id p = qid) \<and> distinct (map rp_passage_id ps) \<and>
   set (map rp_passage_id ps) \<inter> seen = {} \<and> seen' = seen \<union> set (map rp_passage_id ps)"
  by (induction ps arbitrary: seen) auto

lemma validate_passagesD: "validate_passages env seen ps = Inr u \<Longrightarrow> \<forall>p \<in> set ps. validate_passage env p = Inr ()"
  by (induction ps arbitrary: seen) auto

lemma retrieve_oneD:
  assumes "retrieve_one be rv tk ivn intent i q seen s = (Inr (ps, seen', c), s')"
  shows "\<forall>p \<in> set ps. validate_passage (be_env be) p = Inr () \<and> rp_query_id p = query_id intent i"
    and "distinct (map rp_passage_id ps)" and "set (map rp_passage_id ps) \<inter> seen = {}"
    and "seen' = seen \<union> set (map rp_passage_id ps)"
proof -
  obtain r u where "validate_retrieval (be_env be) r = Inr u"
      "observe_passages (query_id intent i) seen (rr_passages r) = Inr seen'" "ps = rr_passages r"
    using assms by (auto simp: retrieve_one_def Let_def b_bind_Inr_iff bind_result_Inr_iff split: prod.splits)
  then show "\<forall>p \<in> set ps. validate_passage (be_env be) p = Inr () \<and> rp_query_id p = query_id intent i"
    and "distinct (map rp_passage_id ps)" and "set (map rp_passage_id ps) \<inter> seen = {}"
    and "seen' = seen \<union> set (map rp_passage_id ps)"
    using observe_passagesD [of "query_id intent i" seen ps seen'] validate_passagesD [of "be_env be" "{}" ps]
    by (auto simp: validate_retrieval_def bind_result_Inr_iff)
qed

lemma retrieve_queries_fresh:
  "retrieve_queries be rv tk ivn intent i seen qs s = (Inr (ps, cs, evs), s') \<Longrightarrow>
   set (map rp_passage_id ps) \<inter> seen = {}"
proof (induction qs arbitrary: i seen s ps cs evs)
  case (Cons q qs)
  then obtain a b sb ca cb eb sa where o: "retrieve_one be rv tk ivn intent i q seen s = (Inr (a, sa, ca), sb)"
    "retrieve_queries be rv tk ivn intent (Suc i) sa qs sb = (Inr (b, cb, eb), s')" "ps = a @ b"
    by (auto simp: b_bind_Inr_iff)
  from Cons.IH [OF o(2)] retrieve_oneD [OF o(1)] o(3) show ?case by auto
qed auto

lemma query_id_inj: "query_id intent i = query_id intent j \<longleftrightarrow> i = j"
  by (auto simp: query_id_def dest: show_nat_inj)

text \<open>A whole search: every query and every passage of it is accepted.\<close>

lemma search_replayed:
  assumes "retrieve_queries be rv tk ivn intent i seen qs s = (Inr (ps, cs, evs), s')"
    and "map_of (claims g) (challenge_id tk) \<noteq> None" and "challenge_id tk \<noteq> []" and "\<forall>q \<in> set qs. q \<noteq> []"
    and "intent = ''support'' \<or> intent = ''counterevidence''" and "\<And>t. is_hex64 (sha256 (be_env be) t)"
    and "\<forall>k \<ge> i. query_id intent k \<notin> fst ` set (queries g)"
    and "fst ` set (passages g) \<inter> set (map rp_passage_id ps) = {}"
  shows "\<exists>h. replay evs g = Inr h \<and> extends g h \<and>
     fst ` set (queries h) \<subseteq> fst ` set (queries g) \<union> range (query_id intent) \<and>
     fst ` set (passages h) = fst ` set (passages g) \<union> set (map rp_passage_id ps) \<and>
     searched (challenge_id tk) intent (set (map rp_passage_id ps)) h \<and>
     (qs \<noteq> [] \<and> intent = ''counterevidence'' \<longrightarrow> has_counter_query h (challenge_id tk))"
  using assms
proof (induction qs arbitrary: i seen s ps cs evs g)
  case (Cons q qs)
  obtain ps1 seen1 c s1 ps2 cs2 evs2 where one: "retrieve_one be rv tk ivn intent i q seen s = (Inr (ps1, seen1, c), s1)"
    and rest: "retrieve_queries be rv tk ivn intent (Suc i) seen1 qs s1 = (Inr (ps2, cs2, evs2), s')"
    and ps: "ps = ps1 @ ps2"
    and evs: "evs = query_event tk ivn (query_id intent i) i intent q (length ps1) # map (passage_event ivn) ps1 @ evs2"
    using Cons.prems(1) by (auto simp: b_bind_Inr_iff)
  note facts = retrieve_oneD [OF one]
  let ?row = "\<lparr>qu_query_id = query_id intent i, qu_claim_id = challenge_id tk, qu_text = q,
    qu_intent = intent, qu_n_hits = int (length ps1)\<rparr>"
  let ?g = "g\<lparr>queries := queries g @ [(query_id intent i, ?row)]\<rparr>"
  have fresh: "map_of (queries g) (query_id intent i) = None"
    using Cons.prems(7) by (auto simp: map_of_eq_None_iff)
  then have row: "map_of (queries ?g) (query_id intent i) = Some ?row"
    by (simp add: map_add_def)
  have new: "set (map rp_passage_id ps1) \<inter> fst ` set (passages ?g) = {}"
    using Cons.prems(8) ps by auto
  obtain h1 where h1: "replay (map (passage_event ivn) ps1) ?g = Inr h1" "extends ?g h1" "queries h1 = queries ?g"
      "fst ` set (passages h1) = fst ` set (passages ?g) \<union> set (map rp_passage_id ps1)"
      "searched (challenge_id tk) intent (set (map rp_passage_id ps1)) h1"
    using passages_replayed [OF facts(1) Cons.prems(6) row facts(2) new, of ivn] by auto
  have step: "replay evs g = replay evs2 h1"
    using query_event_accepted [of g tk intent i q ivn "length ps1"] Cons.prems(2-5) fresh h1(1)
    by (simp add: evs replay_append)
  note seen2 = retrieve_queries_fresh [OF rest]
  have "\<exists>h. replay evs2 h1 = Inr h \<and> extends h1 h \<and>
     fst ` set (queries h) \<subseteq> fst ` set (queries h1) \<union> range (query_id intent) \<and>
     fst ` set (passages h) = fst ` set (passages h1) \<union> set (map rp_passage_id ps2) \<and>
     searched (challenge_id tk) intent (set (map rp_passage_id ps2)) h \<and>
     (qs \<noteq> [] \<and> intent = ''counterevidence'' \<longrightarrow> has_counter_query h (challenge_id tk))"
  proof (rule Cons.IH [OF rest])
    show "map_of (claims h1) (challenge_id tk) \<noteq> None" using h1(2) Cons.prems(2) by (simp add: extends_def)
    show "\<forall>k \<ge> Suc i. query_id intent k \<notin> fst ` set (queries h1)"
      using Cons.prems(7) h1(3) by (auto simp: query_id_inj)
    show "fst ` set (passages h1) \<inter> set (map rp_passage_id ps2) = {}"
      using h1(4) Cons.prems(8) ps seen2 facts(4) by auto
  qed (use Cons.prems in auto)
  then obtain h where h: "replay evs2 h1 = Inr h" "extends h1 h"
     "fst ` set (queries h) \<subseteq> fst ` set (queries h1) \<union> range (query_id intent)"
     "fst ` set (passages h) = fst ` set (passages h1) \<union> set (map rp_passage_id ps2)"
     "searched (challenge_id tk) intent (set (map rp_passage_id ps2)) h" by blast
  have "has_counter_query h1 (challenge_id tk)" if "intent = ''counterevidence''"
    using h1(3) that by (simp add: has_counter_query_def)
  moreover have "searched (challenge_id tk) intent (set (map rp_passage_id ps)) h"
    using searched_extends [OF h1(5) h(2)] h(5) ps by (auto simp: searched_def)
  moreover have "extends g h1" using h1(2) by (auto simp: extends_def)
  moreover have "fst ` set (queries h) \<subseteq> fst ` set (queries g) \<union> range (query_id intent)"
    using h(3) h1(3) by auto
  moreover have "fst ` set (passages h) = fst ` set (passages g) \<union> set (map rp_passage_id ps)"
    using h(4) h1(4) ps by auto
  ultimately show ?case
    using h(1,2) step has_counter_extends [OF h(2)] extends_trans [of g h1 h] by auto
qed (simp add: searched_def)

section \<open>The links\<close>

lemma json_in_InrD: "json_in v names = Inr True \<longleftrightarrow> (\<exists>s \<in> set names. v = JStr s)"
  by (cases v) auto

lemma RELATIONS_cases: "r \<in> set RELATIONS \<longleftrightarrow> (\<exists>x. r = relation_value x)"
proof
  assume "r \<in> set RELATIONS"
  then show "\<exists>x. r = relation_value x" by (auto simp: RELATIONS_def simp del: relation_value.simps)
next
  assume "\<exists>x. r = relation_value x"
  then obtain x where "r = relation_value x" by blast
  then show "r \<in> set RELATIONS" by (cases x) (simp_all add: RELATIONS_def)
qed

lemma parse_relation_value [simp]: "parse_relation (relation_value r) = Some r"
  by (cases r) (simp_all add: parse_relation_def)

definition cited_id :: "evidence_selection \<Rightarrow> string" where
  "cited_id s = json_str (Some (ev_passage_id s))"

definition cited_relation :: "evidence_selection \<Rightarrow> evidence_relation" where
  "cited_relation s = the (parse_relation (json_str (Some (ev_relation s))))"

text \<open>A selection of text fields, in the vocabulary of the graph.\<close>

definition well_typed :: "string set \<Rightarrow> evidence_selection \<Rightarrow> bool" where
  "well_typed ids s \<longleftrightarrow> ev_passage_id s = JStr (cited_id s) \<and> cited_id s \<in> ids \<and>
     ev_relation s = JStr (relation_value (cited_relation s))"

lemma validate_selectionsD:
  "validate_selections available seen ss = Inr u \<Longrightarrow>
   (\<forall>s \<in> set ss. well_typed (set available) s) \<and> distinct (map ev_passage_id ss) \<and>
   set (map ev_passage_id ss) \<inter> set seen = {}"
proof (induction ss arbitrary: seen)
  case (Cons s ss)
  then have id: "json_in (ev_passage_id s) available = Inr True" and rel: "json_in (ev_relation s) RELATIONS = Inr True"
    and new: "ev_passage_id s \<notin> set seen" and rest: "validate_selections available (ev_passage_id s # seen) ss = Inr u"
    by (auto simp: bind_result_Inr_iff simp del: json_in.simps)
  from id obtain k where "ev_passage_id s = JStr k" "k \<in> set available" by (auto simp: json_in_InrD)
  moreover from rel obtain r where "ev_relation s = JStr (relation_value r)"
    by (auto simp: json_in_InrD RELATIONS_cases simp del: relation_value.simps)
  ultimately have "well_typed (set available) s"
    by (simp add: well_typed_def cited_id_def cited_relation_def)
  with Cons.IH [OF rest] new show ?case by auto
qed simp

text \<open>The relation agrees with the search the passage comes from.\<close>

definition fits :: "string set \<Rightarrow> string set \<Rightarrow> evidence_selection \<Rightarrow> bool" where
  "fits sids cids s \<longleftrightarrow> (cited_relation s = SUPPORTS \<longrightarrow> cited_id s \<in> sids) \<and>
     (cited_relation s \<in> {CONTRADICTS, BOUNDS, PRECEDENT_FOR} \<longrightarrow> cited_id s \<in> cids)"

definition edge_of :: "string \<Rightarrow> evidence_selection \<Rightarrow> evidence_edge" where
  "edge_of cid s = \<lparr>ed_claim_id = cid, ed_passage_id = cited_id s, ed_relation = cited_relation s\<rparr>"

lemma relation_value_nonempty [simp]: "relation_value r \<noteq> []"
  by (cases r) simp_all

lemma edge_event_step:
  assumes "searched (challenge_id tk) ''support'' sids g" and "searched (challenge_id tk) ''counterevidence'' cids g"
    and "sids \<inter> cids = {}" and "well_typed (sids \<union> cids) s" and "[] \<notin> sids \<union> cids" and "challenge_id tk \<noteq> []"
    and "map_of (claims g) (challenge_id tk) \<noteq> None" and "edge_of (challenge_id tk) s \<notin> set (edges g)"
  shows "handle_payload (es_event_type (edge_event ivn tk i s)) (es_payload (edge_event ivn tk i s)) g = Inr h \<longleftrightarrow>
     fits sids cids s \<and> h = g\<lparr>edges := edges g @ [edge_of (challenge_id tk) s]\<rparr>"
proof -
  let ?intent = "if cited_id s \<in> sids then ''support'' else ''counterevidence''"
  obtain x q where x: "map_of (passages g) (cited_id s) = Some x" "map_of (queries g) (pa_query_id x) = Some q"
      "qu_claim_id q = challenge_id tk" "qu_intent q = ?intent"
    using assms(1,2,4) unfolding searched_def well_typed_def by (cases "cited_id s \<in> sids") auto
  have "cited_id s \<noteq> []" "cited_id s \<in> sids \<Longrightarrow> cited_id s \<notin> cids" "cited_id s \<in> sids \<or> cited_id s \<in> cids"
    using assms(3,4,5) by (auto simp: well_typed_def)
  then show ?thesis using x assms(4,6,7,8)
    by (cases "cited_relation s")
      (auto simp: edge_event_def handle_payload_def evidence_linked_def required_def field_missing_def Let_def
        payload_str_def well_typed_def fits_def edge_of_def simp del: relation_value.simps)
qed

lemma edges_replayed:
  assumes "searched (challenge_id tk) ''support'' sids g" and "searched (challenge_id tk) ''counterevidence'' cids g"
    and "sids \<inter> cids = {}" and "\<forall>s \<in> set ss. well_typed (sids \<union> cids) s" and "[] \<notin> sids \<union> cids"
    and "challenge_id tk \<noteq> []" and "map_of (claims g) (challenge_id tk) \<noteq> None"
    and "distinct (map ev_passage_id ss)" and "\<forall>e \<in> set (edges g). JStr (ed_passage_id e) \<notin> set (map ev_passage_id ss)"
  shows "replay (map (\<lambda>(i, s). edge_event ivn tk i s) (enumerate n ss)) g = Inr h \<longleftrightarrow>
     (\<forall>s \<in> set ss. fits sids cids s) \<and> h = g\<lparr>edges := edges g @ map (edge_of (challenge_id tk)) ss\<rparr>"
  using assms
proof (induction ss arbitrary: n g)
  case (Cons s ss)
  let ?g = "g\<lparr>edges := edges g @ [edge_of (challenge_id tk) s]\<rparr>"
  have new: "edge_of (challenge_id tk) s \<notin> set (edges g)"
    using Cons.prems(4,9) by (auto simp: edge_of_def well_typed_def)
  have IH: "replay (map (\<lambda>(i, s). edge_event ivn tk i s) (enumerate (Suc n) ss)) ?g = Inr h \<longleftrightarrow>
     (\<forall>s \<in> set ss. fits sids cids s) \<and> h = ?g\<lparr>edges := edges ?g @ map (edge_of (challenge_id tk)) ss\<rparr>"
  proof (rule Cons.IH)
    show "searched (challenge_id tk) ''support'' sids ?g" "searched (challenge_id tk) ''counterevidence'' cids ?g"
      using Cons.prems(1,2) by (simp_all add: searched_def)
    have "ev_passage_id s = JStr (cited_id s)" using Cons.prems(4) by (simp add: well_typed_def)
    then show "\<forall>e \<in> set (edges ?g). JStr (ed_passage_id e) \<notin> set (map ev_passage_id ss)"
      using Cons.prems(8,9) by (auto simp: edge_of_def)
  qed (use Cons.prems in auto)
  have step: "handle_payload (es_event_type (edge_event ivn tk n s)) (es_payload (edge_event ivn tk n s)) g = Inr k \<longleftrightarrow>
     fits sids cids s \<and> k = ?g" for k
    using Cons.prems new by (intro edge_event_step) auto
  show ?case
    by (simp add: bind_result_Inr_iff step IH)
qed auto

section \<open>The transitions\<close>

lemma state_value_nonempty [simp]: "state_value t \<noteq> []"
  by (cases t) simp_all

lemma parse_state_value [simp]: "parse_state (state_value t) = Some t"
  by (cases t) (simp_all add: parse_state_def claim_states_def)

definition moved :: "claim \<Rightarrow> claim_state \<Rightarrow> string \<Rightarrow> json \<Rightarrow> claim" where
  "moved c t r b = c\<lparr>cl_state := t, cl_reason := r,
     cl_boundary := (if truthy b then py_str b else cl_boundary c), cl_version := cl_version c + 1\<rparr>"

text \<open>One transition of the only claim, with the guard read off the graph.\<close>

lemma move_event_step:
  assumes "claims g = [(challenge_id tk, c)]" and "challenge_id tk \<noteq> []" and "r \<noteq> []"
  shows "handle_payload (es_event_type (move_event ivn tk (JStr (state_value t)) (JStr r) sfx b))
      (es_payload (move_event ivn tk (JStr (state_value t)) (JStr r) sfx b)) g = Inr h \<longleftrightarrow>
     t \<in> set (ALLOWED_TRANSITIONS (cl_state c)) \<and>
     transition_guard g (challenge_id tk) t (es_payload (move_event ivn tk (JStr (state_value t)) (JStr r) sfx b)) = None \<and>
     h = g\<lparr>claims := [(challenge_id tk, moved c t r b)]\<rparr>"
  using assms
  by (auto simp: move_event_def handle_payload_def claim_transitioned_def required_def field_missing_def Let_def
      payload_str_def moved_def split: option.splits if_splits simp del: state_value.simps)

definition guard_ok :: "decision_graph \<Rightarrow> string \<Rightarrow> claim_state \<Rightarrow> json \<Rightarrow> bool" where
  "guard_ok g cid t b \<longleftrightarrow>
     (t = SUPPORTED \<longrightarrow> SUPPORTS \<in> relations_of g cid) \<and> (t = CHALLENGED \<longrightarrow> has_counter_query g cid) \<and>
     (t = SURVIVED \<longrightarrow> SUPPORTS \<in> relations_of g cid \<and> has_counter_query g cid) \<and>
     (t = NARROWED \<longrightarrow> BOUNDS \<in> relations_of g cid) \<and>
     (t = REFUTED \<longrightarrow> CONTRADICTS \<in> relations_of g cid \<or> PRECEDENT_FOR \<in> relations_of g cid) \<and>
     (t = SURVIVED \<or> t = NARROWED \<longrightarrow> truthy b \<and> \<not> blank (py_str b))"

lemma guard_of_move:
  "transition_guard g cid t (es_payload (move_event ivn tk st rs sfx b)) = None \<longleftrightarrow> guard_ok g cid t b"
  by (auto simp: transition_guard_def Let_def move_event_def payload_str_def guard_ok_def)

definition on_claim :: "decision_graph \<Rightarrow> string \<Rightarrow> claim \<Rightarrow> decision_graph" where
  "on_claim g cid c = g\<lparr>claims := [(cid, c)]\<rparr>"

lemma on_claim_simps [simp]:
  "claims (on_claim g cid c) = [(cid, c)]" "on_claim (on_claim g cid c) cid c' = on_claim g cid c'"
  "(on_claim g cid c)\<lparr>claims := [(cid, c')]\<rparr> = on_claim g cid c'"
  "guard_ok (on_claim g cid c) = guard_ok g"
  by (simp_all add: on_claim_def guard_ok_def [abs_def] relations_of_def has_counter_query_def)

lemma replay_move:
  assumes "challenge_id tk \<noteq> []" and "r \<noteq> []"
  shows "replay (move_event ivn tk (JStr (state_value t)) (JStr r) sfx b # ss) (on_claim g (challenge_id tk) c) = Inr h \<longleftrightarrow>
     t \<in> set (ALLOWED_TRANSITIONS (cl_state c)) \<and> guard_ok g (challenge_id tk) t b \<and>
     replay ss (on_claim g (challenge_id tk) (moved c t r b)) = Inr h"
  using move_event_step [of "on_claim g (challenge_id tk) c" tk c r ivn t sfx b] assms
  by (auto simp: bind_result_Inr_iff guard_of_move)

text \<open>When a decision can be reached from a proposed claim.\<close>

definition reachable_decision :: "bool \<Rightarrow> evidence_relation set \<Rightarrow> claim_state \<Rightarrow> bool" where
  "reachable_decision countered rels t \<longleftrightarrow> (case t of
     SURVIVED \<Rightarrow> countered \<and> SUPPORTS \<in> rels
   | NARROWED \<Rightarrow> countered \<and> BOUNDS \<in> rels
   | REFUTED \<Rightarrow> countered \<and> (CONTRADICTS \<in> rels \<or> PRECEDENT_FOR \<in> rels)
   | UNRESOLVED \<Rightarrow> True
   | _ \<Rightarrow> False)"

definition state_moves :: "stage_invocation \<Rightarrow> blind_task \<Rightarrow> bool \<Rightarrow> claim_state \<Rightarrow> string \<Rightarrow> json \<Rightarrow> event_spec list" where
  "state_moves ivn tk countered t r b =
     (if t = SURVIVED then [move_event ivn tk (JStr (state_value SUPPORTED)) (JStr r) ''supported'' (JStr [])] else []) @
     (if countered then [move_event ivn tk (JStr (state_value CHALLENGED)) (JStr ''counter-query executed'') ''challenged'' (JStr [])] else []) @
     [move_event ivn tk (JStr (state_value t)) (JStr r) ''terminal'' b]"

text \<open>The claim after these transitions.\<close>

definition settled_claim :: "bool \<Rightarrow> claim_state \<Rightarrow> string \<Rightarrow> json \<Rightarrow> claim \<Rightarrow> claim" where
  "settled_claim countered t r b c = (let c1 = (if t = SURVIVED then moved c SUPPORTED r (JStr []) else c);
       c2 = (if countered then moved c1 CHALLENGED ''counter-query executed'' (JStr []) else c1)
     in moved c2 t r b)"

lemma settled_claim_simps [simp]:
  "cl_state (settled_claim countered t r b c) = t"
  "truthy b \<Longrightarrow> cl_boundary (settled_claim countered t r b c) = py_str b"
  by (simp_all add: settled_claim_def moved_def Let_def)

lemma moves_replayed:
  assumes "cl_state c = PROPOSED" "challenge_id tk \<noteq> []" "t \<in> set TERMINAL_STATES" "r \<noteq> []"
    and "t = SURVIVED \<or> t = NARROWED \<Longrightarrow> truthy b \<and> \<not> blank (py_str b)"
    and "countered \<Longrightarrow> has_counter_query g (challenge_id tk)"
  shows "replay (state_moves ivn tk countered t r b) (on_claim g (challenge_id tk) c) = Inr h \<longleftrightarrow>
      reachable_decision countered (relations_of g (challenge_id tk)) t \<and>
      h = on_claim g (challenge_id tk) (settled_claim countered t r b c)"
  using assms
  by (cases t; cases countered)
    (auto simp: state_moves_def replay_move reachable_decision_def guard_ok_def ALLOWED_TRANSITIONS_def
      TERMINAL_STATES_def moved_def settled_claim_def simp del: state_value.simps replay.simps(2) replay_single)

section \<open>A validated decision\<close>

lemma validate_decisionD:
  assumes "validate_decision fl available d = Inr u"
  obtains t r where "de_decision d = JStr (state_value t)" and "t \<in> set TERMINAL_STATES"
    and "de_reason d = JStr r" and "\<not> blank r"
    and "t = SURVIVED \<or> t = NARROWED \<Longrightarrow> \<exists>b. de_boundary d = JStr b \<and> \<not> blank b"
    and "\<forall>s \<in> set (de_evidence d). well_typed (set available) s" and "distinct (map ev_passage_id (de_evidence d))"
proof -
  from assms have dec: "json_in (de_decision d) DECISIONS = Inr True"
    and reason: "json_blank (de_reason d) = Inr False"
    and sel: "validate_selections available [] (de_evidence d) = Inr ()"
    and boundary: "(if needs_boundary d then json_blank (de_boundary d) else Inr False) = Inr False"
    by (auto simp: validate_decision_def bind_result_Inr_iff split: option.splits simp del: json_in.simps)
  from dec obtain t where t: "de_decision d = JStr (state_value t)" "t \<in> set TERMINAL_STATES"
  proof -
    from dec obtain k where "de_decision d = JStr k" "k \<in> set DECISIONS" by (auto simp: json_in_InrD)
    moreover have "set DECISIONS = state_value ` set TERMINAL_STATES" by (simp add: DECISIONS_def TERMINAL_STATES_def)
    ultimately show ?thesis using that by auto
  qed
  from reason obtain r where r: "de_reason d = JStr r" "\<not> blank r" by (auto simp: json_blank_def split: json.splits)
  have b: "\<exists>b. de_boundary d = JStr b \<and> \<not> blank b" if "t = SURVIVED \<or> t = NARROWED"
  proof -
    have "needs_boundary d" using t(1) that by (auto simp: needs_boundary_def)
    with boundary show ?thesis by (auto simp: json_blank_def split: json.splits)
  qed
  show thesis using t r b validate_selectionsD [OF sel] by (intro that [of t r]) auto
qed

text \<open>
  The decision can be recorded for the method: every relation fits the search its passage comes
  from, and the state is reachable with the relations cited.
\<close>

definition admissible :: "method_spec \<Rightarrow> string set \<Rightarrow> string set \<Rightarrow> decision_output \<Rightarrow> bool" where
  "admissible m sids cids d \<longleftrightarrow> (\<forall>s \<in> set (de_evidence d). fits sids cids s) \<and>
     (\<exists>t \<in> set TERMINAL_STATES. de_decision d = JStr (state_value t) \<and>
        reachable_decision (external_counter_retrieval m) (cited_relation ` set (de_evidence d)) t)"

lemma admissibleI:
  assumes "\<forall>s \<in> set (de_evidence d). fits sids cids s" and "t \<in> set TERMINAL_STATES" and "de_decision d = JStr (state_value t)"
    and "reachable_decision (external_counter_retrieval m) (cited_relation ` set (de_evidence d)) t"
  shows "admissible m sids cids d"
  using assms by (auto simp: admissible_def)

lemma state_value_inj: "state_value s = state_value t \<longleftrightarrow> s = t"
  by (metis option.inject parse_state_value)

lemma decision_events_eq:
  assumes "de_decision d = JStr (state_value t)" and "de_reason d = JStr r"
  shows "decision_events ivn tk m d = edge_events ivn tk (de_evidence d) @
    state_moves ivn tk (external_counter_retrieval m) t r (de_boundary d)"
  using assms state_value_inj [of t SURVIVED] by (simp add: decision_events_def state_moves_def)

definition proposed_claim :: "blind_task \<Rightarrow> claim" where
  "proposed_claim tk = \<lparr>cl_claim_id = challenge_id tk, cl_text = prompt tk,
     cl_scope = py_str (task_family tk) @ '' through '' @ py_str (cutoff_date tk), cl_state = PROPOSED,
     cl_boundary = [], cl_reason = [], cl_version = 1\<rparr>"

lemma proposal_step:
  "challenge_id tk \<noteq> [] \<Longrightarrow> prompt tk \<noteq> [] \<Longrightarrow>
   handle_payload (es_event_type (proposal_event tk ivn)) (es_payload (proposal_event tk ivn)) empty_graph =
     Inr (on_claim empty_graph (challenge_id tk) (proposed_claim tk))"
  by (simp add: proposal_event_def handle_payload_def claim_proposed_def required_def field_missing_def
      payload_str_def Let_def on_claim_def empty_graph_def proposed_claim_def)

lemma recorded_step:
  "handle_payload (es_event_type (decision_event be ivn tk m d)) (es_payload (decision_event be ivn tk m d)) g = Inr g"
  by (simp add: decision_event_def handle_payload_def)

text \<open>The graph has the claim alone, in the state and with the boundary of the decision.\<close>

definition publishes :: "string \<Rightarrow> decision_output \<Rightarrow> decision_graph \<Rightarrow> bool" where
  "publishes cid d h \<longleftrightarrow> (\<exists>c. claims h = [(cid, c)] \<and> de_decision d = JStr (state_value (cl_state c)) \<and>
     cl_state c \<in> set TERMINAL_STATES \<and>
     (cl_state c = SURVIVED \<or> cl_state c = NARROWED \<longrightarrow> JStr (cl_boundary c) = de_boundary d \<and> cl_boundary c \<noteq> []))"

lemma publishes_no_issues: "publishes cid d h \<Longrightarrow> validate_for_publication h = []"
  by (auto simp: publishes_def validate_for_publication_def publication_issues_def)

text \<open>The links and transitions of a validated decision on the graph of both searches.\<close>

lemma decision_replayed:
  assumes g: "searched (challenge_id tk) ''support'' sids g" "searched (challenge_id tk) ''counterevidence'' cids g"
      "claims g = [(challenge_id tk, c)]" "cl_state c = PROPOSED" "edges g = []" "[] \<notin> sids \<union> cids" "sids \<inter> cids = {}"
    and d: "validate_decision fl available d = Inr u" "set available = sids \<union> cids"
    and tk: "challenge_id tk \<noteq> []" "external_counter_retrieval m \<Longrightarrow> has_counter_query g (challenge_id tk)"
  shows "((\<exists>h. replay (decision_events ivn tk m d) g = Inr h) \<longleftrightarrow> admissible m sids cids d) \<and>
    (\<forall>h. replay (decision_events ivn tk m d) g = Inr h \<longrightarrow> publishes (challenge_id tk) d h)"
proof -
  obtain t r where t: "de_decision d = JStr (state_value t)" "t \<in> set TERMINAL_STATES" "de_reason d = JStr r" "\<not> blank r"
      "t = SURVIVED \<or> t = NARROWED \<Longrightarrow> \<exists>b. de_boundary d = JStr b \<and> \<not> blank b"
      "\<forall>s \<in> set (de_evidence d). well_typed (set available) s" "distinct (map ev_passage_id (de_evidence d))"
    by (rule validate_decisionD [OF d(1)]) blast
  let ?ge = "g\<lparr>edges := map (edge_of (challenge_id tk)) (de_evidence d)\<rparr>"
  have edges: "replay (edge_events ivn tk (de_evidence d)) g = Inr x \<longleftrightarrow>
      (\<forall>s \<in> set (de_evidence d). fits sids cids s) \<and> x = ?ge" for x
    using edges_replayed [of tk sids g cids "de_evidence d" ivn 0 x] g t d(2) tk by (simp add: edge_events_def)
  have ge: "?ge = on_claim ?ge (challenge_id tk) c" using g(3) by (simp add: on_claim_def)
  have rels: "relations_of ?ge (challenge_id tk) = cited_relation ` set (de_evidence d)"
    by (auto simp: relations_of_def edge_of_def)
  have b: "truthy (de_boundary d) \<and> \<not> blank (py_str (de_boundary d))" if "t = SURVIVED \<or> t = NARROWED"
    using t(5) [OF that] by auto
  have "r \<noteq> []" using t(4) by auto
  with b have moves: "replay (state_moves ivn tk (external_counter_retrieval m) t r (de_boundary d)) ?ge = Inr x \<longleftrightarrow>
      reachable_decision (external_counter_retrieval m) (cited_relation ` set (de_evidence d)) t \<and>
      x = on_claim ?ge (challenge_id tk) (settled_claim (external_counter_retrieval m) t r (de_boundary d) c)" for x
    using moves_replayed [of c tk t r "de_boundary d" "external_counter_retrieval m" ?ge ivn x] g(4) tk t(2)
    unfolding rels ge [symmetric] by (simp add: has_counter_query_def)
  have adm: "admissible m sids cids d \<longleftrightarrow> (\<forall>s \<in> set (de_evidence d). fits sids cids s) \<and>
      reachable_decision (external_counter_retrieval m) (cited_relation ` set (de_evidence d)) t"
    using t(1,2) by (auto simp: admissible_def state_value_inj simp del: state_value.simps)
  have all: "replay (decision_events ivn tk m d) g = Inr x \<longleftrightarrow> admissible m sids cids d \<and>
      x = on_claim ?ge (challenge_id tk) (settled_claim (external_counter_retrieval m) t r (de_boundary d) c)" for x
    by (auto simp: decision_events_eq [OF t(1,3)] replay_append bind_result_Inr_iff edges moves adm)
  let ?c = "settled_claim (external_counter_retrieval m) t r (de_boundary d) c"
  have "JStr (cl_boundary ?c) = de_boundary d \<and> cl_boundary ?c \<noteq> []" if "t = SURVIVED \<or> t = NARROWED"
  proof -
    from t(5) [OF that] obtain x where x: "de_boundary d = JStr x" "\<not> blank x" by blast
    then have "x \<noteq> []" by auto
    with x show ?thesis by simp
  qed
  then have "\<forall>h. replay (decision_events ivn tk m d) g = Inr h \<longrightarrow> publishes (challenge_id tk) d h"
    unfolding all publishes_def using t(1,2) by auto
  with all show ?thesis by blast
qed

lemma publishes_with_ids: "publishes cid d (with_ids a h) \<longleftrightarrow> publishes cid d h"
  by (simp add: publishes_def)

section \<open>What the contracts give\<close>

lemma blind_task_nonempty:
  "blind_task_from_dict fl v = Inr tk \<Longrightarrow> \<not> blank (challenge_id tk) \<and> \<not> blank (prompt tk)"
  by (auto simp: blind_task_from_dict_def split: json.splits)

lemma plan_queries_nonempty:
  "validate_query_plan p = Inr u \<Longrightarrow> qp_queries p \<noteq> [] \<and> (\<forall>q \<in> set (qp_queries p). q \<noteq> [])"
  by (auto simp: validate_query_plan_def bind_result_Inr_iff list_ex_iff)

lemma retrieved_ids_nonempty:
  "retrieve_queries be rv tk ivn intent i seen qs s = (Inr (ps, cs, evs), s') \<Longrightarrow> [] \<notin> set (map rp_passage_id ps)"
proof (induction qs arbitrary: i seen s ps cs evs)
  case (Cons q qs)
  then obtain a b sb ca cb eb sa where o: "retrieve_one be rv tk ivn intent i q seen s = (Inr (a, sa, ca), sb)"
    "retrieve_queries be rv tk ivn intent (Suc i) sa qs sb = (Inr (b, cb, eb), s')" "ps = a @ b"
    by (auto simp: b_bind_Inr_iff)
  have "\<forall>p \<in> set a. rp_passage_id p \<noteq> []"
    using retrieve_oneD(1) [OF o(1)] by (metis validate_passageD)
  with Cons.IH [OF o(2)] o(3) show ?case by auto
qed auto

end
