(* ===== verification/Benchmark_Properties.thy ===== *)
theory Benchmark_Properties
  imports Stage_Laws Model_Backend Evidence_Properties
begin

text \<open>
  Properties of the benchmark runner: the decisions a CEDG treatment can publish.
\<close>

section \<open>A small task\<close>

definition small_task :: blind_task where
  "small_task = \<lparr>task_schema = JInt 1, challenge_id = ''c'', benchmark_track = JStr ''known_answer'', task_split = JStr ''test'',
     task_family = JStr ''f'', prompt = ''p'', cutoff_date = JStr ''2020-01-01''\<rparr>"

definition small_task_json :: json where
  "small_task_json = JObj [(''schema_version'', JInt 1), (''challenge_id'', JStr ''c''),
     (''benchmark_track'', JStr ''known_answer''), (''split'', JStr ''test''), (''task_family'', JStr ''f''),
     (''prompt'', JStr ''p''), (''cutoff_date'', JStr ''2020-01-01'')]"

definition small_method :: "bool \<Rightarrow> method_spec" where
  "small_method counter = \<lparr>method_id = ''m'', support_retrieval = True, external_counter_retrieval = counter,
     cedg = True, memory = ''none'', decision_mode = ''verifier''\<rparr>"

definition small_env :: bench_env where
  "small_env = \<lparr>be_env = sample_env, be_digest = (\<lambda>s. replicate 64 (CHR ''a'')), be_loads = (\<lambda>s. None),
     be_float = (\<lambda>s. Some (1 / 2)), be_now = 1\<rparr>"

definition small_passage :: "string \<Rightarrow> string \<Rightarrow> retrieved_passage" where
  "small_passage i q = \<lparr>rp_passage_id = i, rp_query_id = q, rp_doc_id = ''d'', rp_text = ''x'',
     rp_locator = [(''offset'', JInt 0)], rp_content_sha256 = replicate 64 (CHR ''a''), rp_publication_date = ''2019-01-01''\<rparr>"

text \<open>One passage per search, named after the query.\<close>

definition small_retriever :: retriever where
  "small_retriever = \<lparr>rv_provider_id = ''r'', rv_search = (\<lambda>qid q intent cutoff op.
     ([], Inr \<lparr>rr_passages = [small_passage (''p-'' @ qid) qid], rr_usage = \<lparr>ug_calls = 0, ug_tokens = 0\<rparr>\<rparr>))\<rparr>"

definition small_plan :: query_plan where
  "small_plan = \<lparr>qp_queries = [''q''], qp_usage = \<lparr>ug_calls = 0, ug_tokens = 0\<rparr>\<rparr>"

definition small_decision :: "string \<Rightarrow> decision_output" where
  "small_decision rel = \<lparr>de_decision = JStr ''SURVIVED'', de_probability = JFloat ''0.5'',
     de_evidence = [\<lparr>ev_passage_id = JStr ''p-support-0'', ev_relation = JStr rel\<rparr>], de_reason = JStr ''r'',
     de_boundary = JStr ''b'', de_usage = \<lparr>ug_calls = 0, ug_tokens = 0\<rparr>, de_candidates = []\<rparr>"

definition small_request :: create_request where
  "small_request = \<lparr>cr_tenant_id = ''t'', cr_idempotency_key = ''k'', cr_task = ''p'', cr_max_calls = 2,
     cr_max_tokens = 5, cr_max_cost_microunits = 0, cr_job_id = None\<rparr>"

definition small_invocation :: "string \<Rightarrow> stage_invocation" where
  "small_invocation op = \<lparr>si_job = new_job 0 ''j'' small_request, si_stage = PLAN, si_operation_id = op\<rparr>"

definition small_bench :: bench where
  "small_bench = \<lparr>bn_db = empty_db, bn_artifacts = empty_artifacts\<rparr>"

lemma records_exist: "\<exists>evs. records evs ss"
proof
  let ?ev = "\<lambda>(i, s). sample_event (show_nat i) (es_event_type s) (es_payload s)"
  have "map event_id (map ?ev (enumerate 0 ss)) = map show_nat (map fst (enumerate 0 ss))"
    by (simp only: map_map) (auto simp: sample_event_def)
  moreover have "map (\<lambda>e. (event_type e, payload e)) (map ?ev (enumerate 0 ss)) =
      map (\<lambda>s. (es_event_type s, es_payload s)) (map snd (enumerate 0 ss))"
    by (simp only: map_map) (auto simp: sample_event_def)
  ultimately show "records (map ?ev (enumerate 0 ss)) ss"
    by (simp add: records_def distinct_map inj_on_def) (metis show_nat_inj)
qed

lemma small_search:
  assumes "intent = ''support'' \<or> intent = ''counterevidence''"
  shows "\<exists>cs evs. retrieve_queries small_env small_retriever small_task (small_invocation op) intent 0 {} [''q''] small_bench =
    (Inr ([small_passage (''p-'' @ query_id intent 0) (query_id intent 0)], cs, evs), small_bench)"
proof -
  have spaces: "\<not> blank ''d''" "\<not> blank ''x''" "\<not> blank (query_id intent 0)" "\<not> blank (''p-'' @ query_id intent 0)"
    using assms by (elim disjE; simp; code_simp)+
  show ?thesis
    by (auto simp: retrieve_one_def small_retriever_def b_bind_def b_lift_def Let_def validate_retrieval_def
      validate_usage_def validate_passage_def small_passage_def small_env_def sample_env_def raise_if_def
      has_exact_fields_def post_reservation_charge_def spaces [unfolded append.simps])
qed

section \<open>Which decisions are published\<close>



section \<open>Calls are reserved before they are made\<close>

text \<open>Actions that leave the job database alone.\<close>

definition db_kept :: "'a bench_act \<Rightarrow> bool" where
  "db_kept f \<longleftrightarrow> (\<forall>s. bn_db (snd (f s)) = bn_db s)"

lemma db_kept_intros:
  "db_kept (b_lift r)" "db_kept (put_value be j key v)"
  "db_kept f \<Longrightarrow> (\<And>x. db_kept (k x)) \<Longrightarrow> db_kept (b_bind f k)"
    apply (simp add: db_kept_def b_lift_def)
   apply (simp add: db_kept_def put_value_def Let_def split: prod.split)
  unfolding db_kept_def b_bind_def by (auto split: prod.split sum.split) (metis snd_conv)+

text \<open>The decision stage after the reservation.\<close>

definition after_reservation ::
  "bench_env \<Rightarrow> backend \<Rightarrow> blind_task \<Rightarrow> method_spec \<Rightarrow> stage_invocation \<Rightarrow> retrieved_passage list \<Rightarrow>
   retrieved_passage list \<Rightarrow> stage_result bench_act" where
  "after_reservation be bk tk m ivn support counter =
     b_bind (b_lift (bind_result (bk_decide bk tk m support counter (si_operation_id ivn)) (\<lambda>d.
        bind_result (validate_decision (be_float be) (map rp_passage_id (support @ counter)) d) (\<lambda>u. Inr d)))) (\<lambda>d.
     b_bind (put_value be (si_job ivn) ''baseline:decision'' (JObj (decision_fields d @
        [(''strategy_candidates'', JList (map candidate_json (de_candidates d)))]))) (\<lambda>ref.
     b_lift (raise_if (cedg m \<and> lacks_support d) (contract ''SURVIVED CEDG decision lacks support'')
       (bind_result (post_reservation_charge (bk_provider_id bk) (si_operation_id ivn) (de_usage d) (bk_decision_call_reservation bk)) (\<lambda>c.
         Inr \<lparr>sr_events = decision_event be ivn tk m d # (if cedg m then decision_events ivn tk m d else []),
           sr_charges = [c], sr_checkpoint = artifact_checkpoint ref\<rparr>)))))"

lemma decide_handler_split:
  assumes "read_passages be (si_job ivn) ''baseline:support'' s = (Inr support, s)"
    and "read_passages be (si_job ivn) ''baseline:counter'' s = (Inr counter, s)"
    and "external_counter_retrieval m \<or> counter = []"
  shows "decide_handler be bk tk m ivn s = b_bind (reserve_backend_calls be (si_job ivn) (bk_provider_id bk)
     (si_operation_id ivn) (bk_decision_call_reservation bk)) (\<lambda>u. after_reservation be bk tk m ivn support counter) s"
  using assms by (auto simp: decide_handler_def after_reservation_def Let_def b_bind_def [of "read_passages _ _ _"])

lemma after_reservation_kept: "db_kept (after_reservation be bk tk m ivn support counter)"
  unfolding after_reservation_def by (intro db_kept_intros)

lemma after_reservation_charges:
  assumes "after_reservation be (structured_backend_of sb) tk m ivn support counter s = (Inr r, s')"
  shows "map ch_calls (sr_charges r) = [0]"
proof -
  from assms obtain d c where "sb_decide sb tk m support counter (si_operation_id ivn) = Inr d"
      "post_reservation_charge (route_id (sb_provenance sb)) (si_operation_id ivn) (de_usage d) 1 = Inr c" "sr_charges r = [c]"
    by (auto simp: after_reservation_def structured_backend_of_def b_bind_Inr_iff bind_result_Inr_iff)
  with sb_decideD(2) show ?thesis by (fastforce simp: post_reservation_charge_def call_charge_def)
qed

text \<open>
  With the structured model backend the decision stage books its model call before it asks the
  transport, whatever the transport does: when the reservation is refused (the budget is exceeded,
  the charge key is taken) the stage raises that refusal without depending on the transport; when
  it is granted the call stays booked even if the transport, the reading of the reply or a check
  of the decision raises.  A stage that succeeds charges no further call.
\<close>

theorem decision_calls_prepaid:
  assumes "read_passages be (si_job ivn) ''baseline:support'' s = (Inr support, s)"
    and "read_passages be (si_job ivn) ''baseline:counter'' s = (Inr counter, s)"
    and "external_counter_retrieval m \<or> counter = []"
  shows "case charge (job_id (si_job ivn)) (call_charge (si_operation_id ivn @ '':call-reservation'')
        (route_id (sb_provenance sb)) 1 0) (be_now be) (bn_db s) of
      Inl e \<Rightarrow> decide_handler be (structured_backend_of sb) tk m ivn s = (Inl e, s)
    | Inr (j, db) \<Rightarrow> (let (res, s') = decide_handler be (structured_backend_of sb) tk m ivn s in
        bn_db s' = db \<and> (\<forall>r. res = Inr r \<longrightarrow> map ch_calls (sr_charges r) = [0]))"
proof -
  let ?h = "decide_handler be (structured_backend_of sb) tk m ivn s"
    and ?k = "after_reservation be (structured_backend_of sb) tk m ivn support counter"
  have split: "?h = b_bind (store_charge be (si_job ivn) (call_charge (si_operation_id ivn @ '':call-reservation'')
      (route_id (sb_provenance sb)) 1 0)) (\<lambda>u. ?k) s"
    using decide_handler_split [OF assms] by (simp add: structured_backend_of_def reserve_backend_calls_def)
  have kept: "bn_db (snd (?k t)) = bn_db t" for t using after_reservation_kept by (simp add: db_kept_def)
  have one: "map ch_calls (sr_charges r) = [0]" if "fst (?k t) = Inr r" for t r
    using after_reservation_charges that by (metis prod.collapse)
  show ?thesis
  proof (cases "charge (job_id (si_job ivn)) (call_charge (si_operation_id ivn @ '':call-reservation'')
        (route_id (sb_provenance sb)) 1 0) (be_now be) (bn_db s)")
    case (Inl e)
    then show ?thesis unfolding split by (simp add: b_bind_def store_charge_def)
  next
    case (Inr p)
    then have "?h = ?k (s\<lparr>bn_db := snd p\<rparr>)" unfolding split
      by (simp add: b_bind_def store_charge_def split: prod.split)
    then show ?thesis using Inr kept [of "s\<lparr>bn_db := snd p\<rparr>"] one [of "s\<lparr>bn_db := snd p\<rparr>"]
      by (simp add: Let_def case_prod_unfold)
  qed
qed

definition prepaid_env :: bench_env where
  "prepaid_env = small_env\<lparr>be_loads := (\<lambda>s. Some (JObj [(''passages'', JList [])]))\<rparr>"

definition prepaid_bench :: bench where
  "prepaid_bench = \<lparr>bn_db = \<lparr>jobs = [new_job 0 ''j'' small_request], checkpoint_rows = [], usage_rows = []\<rparr>,
     bn_artifacts = \<lparr>artifact_rows = [\<lparr>art_ref = \<lparr>ref_tenant_id = ''t'', ref_job_id = ''j'', logical_key = ''baseline:support'',
       content_sha256 = replicate 64 (CHR ''a''), size_bytes = 1, media_type = ''application/json''\<rparr>, art_created_at = 0\<rparr>],
       blobs = (\<lambda>k. Some ''x'')\<rparr>\<rparr>"

text \<open>A transport that loses the connection.\<close>

definition lost_backend :: structured_backend where
  "lost_backend = \<lparr>sb_complete = (\<lambda>op system user schema. Inl (RuntimeError ''connection lost'')),
     sb_loads = (\<lambda>s. None), sb_float = (\<lambda>s. None), sb_provenance = \<lparr>route_id = ''r'', request_alias = ''a'',
       operator_declared_backend = ''b'', backend_independently_attested = False\<rparr>,
     sb_max_passages = 20, sb_max_context_chars = 60000\<rparr>"

lemma prepaid_reads:
  "read_passages prepaid_env (si_job (small_invocation ''o'')) ''baseline:support'' prepaid_bench = (Inr [], prepaid_bench)"
  "read_passages prepaid_env (si_job (small_invocation ''o'')) ''baseline:counter'' prepaid_bench = (Inr [], prepaid_bench)"
  by (simp_all add: read_passages_def get_value_def small_invocation_def new_job_def small_request_def prepaid_bench_def
      prepaid_env_def small_env_def get_ref_def find_ref_def row_by_def ref_key_def read_json_def read_bytes_def key_of_def)

theorem decision_calls_prepaid_witness:
  "\<exists>j. find_job ''j'' (bn_db (snd (decide_handler prepaid_env (structured_backend_of lost_backend) small_task
     (small_method True) (small_invocation ''o'') prepaid_bench))) = Some j \<and> used_calls j = 1"
proof -
  have "case charge ''j'' (call_charge ''o:call-reservation'' ''r'' 1 0) 1 (bn_db prepaid_bench) of
      Inl e \<Rightarrow> False | Inr (j, db) \<Rightarrow> find_job ''j'' db = Some j \<and> used_calls j = 1"
    by code_simp
  then obtain j db where c: "charge ''j'' (call_charge ''o:call-reservation'' ''r'' 1 0) 1 (bn_db prepaid_bench) = Inr (j, db)"
    and j: "find_job ''j'' db = Some j" "used_calls j = 1"
    by (auto split: sum.splits)
  have ids: "job_id (si_job (small_invocation ''o'')) = ''j''" "si_operation_id (small_invocation ''o'') = ''o''"
    "route_id (sb_provenance lost_backend) = ''r''" "be_now prepaid_env = 1"
    by (simp_all add: small_invocation_def new_job_def small_request_def lost_backend_def prepaid_env_def small_env_def)
  have "bn_db (snd (decide_handler prepaid_env (structured_backend_of lost_backend) small_task
     (small_method True) (small_invocation ''o'') prepaid_bench)) = db"
    using decision_calls_prepaid [OF prepaid_reads, of "small_method True" lost_backend small_task] c
    by (simp add: ids small_method_def Let_def case_prod_unfold)
  with j show ?thesis by simp
qed

end
