(* ===== verification/Sciverse_Filters.thy ===== *)
theory Sciverse_Filters
  imports Values Numbers
begin

text \<open>
  The request builders of the literature client (\<open>src/tools/sciverse.py\<close>, lines 106 to 359): the
  filter object of the semantic search, the filter list and the sort list of the metadata search.

  An optional string argument that the code tests by its truth is a string, empty when it is absent.
\<close>

definition MAX_DOC_ID_SCOPE :: nat where
  "MAX_DOC_ID_SCOPE = 1000"

definition FILTER_OPERATORS :: "string list" where
  "FILTER_OPERATORS = [''FILTER_OP_EQ'', ''FILTER_OP_NE'', ''FILTER_OP_GT'', ''FILTER_OP_GTE'', ''FILTER_OP_LT'',
     ''FILTER_OP_LTE'', ''FILTER_OP_IN'', ''FILTER_OP_NIN'', ''FILTER_OP_CONTAINS'', ''FILTER_OP_MATCH'',
     ''FILTER_OP_MATCH_PHRASE'']"

definition SORTABLE_FIELDS :: "string list" where
  "SORTABLE_FIELDS = [''citation_count'', ''citation_normalized_percentile.value'', ''cited_by_percentile_year.max'',
     ''cited_by_percentile_year.min'', ''concepts.score'', ''fwci'', ''influential_citation_count'',
     ''primary_topic.score'', ''publication_published_date'', ''publication_published_year'',
     ''reference_count'', ''topics.score'']"

section \<open>Semantic search\<close>

text \<open>\<open>_numeric_range\<close>: the empty list stands for \<open>None\<close>.\<close>

definition numeric_range :: "json option \<Rightarrow> json option \<Rightarrow> (string \<times> json) list" where
  "numeric_range lo hi = (case lo of None \<Rightarrow> [] | Some v \<Rightarrow> [(''gte'', v)]) @ (case hi of None \<Rightarrow> [] | Some v \<Rightarrow> [(''lte'', v)])"

fun collect_ids :: "string list \<Rightarrow> json list \<Rightarrow> string list result" where
  "collect_ids seen [] = Inr seen"
| "collect_ids seen (v # vs) = (let text = py_lower (strip (py_str v)) in
     raise_if (\<not> is_hex64 text) (SciverseError ''not a Sciverse doc_id (expect 64 hex characters)'')
     (collect_ids (if text \<in> set seen then seen else seen @ [text]) vs))"

definition normalise_doc_ids :: "json list \<Rightarrow> string list result" where
  "normalise_doc_ids vs = bind_result (collect_ids [] vs) (\<lambda>ids.
     raise_if (length ids > MAX_DOC_ID_SCOPE) (SciverseScopeTooLarge ''document ids exceed what the server accepts'') (Inr ids))"

record semantic_query =
  sq_lang :: string
  sq_year_from :: "json option"
  sq_year_to :: "json option"
  sq_published_from :: "json option"
  sq_published_to :: "json option"
  sq_domain :: string
  sq_topic :: string
  sq_topic_logic :: string
  sq_venue :: string
  sq_venue_type :: string
  sq_metadata_type :: string
  sq_min_citations :: "json option"
  sq_doc_ids :: "json list option"

definition no_filter :: semantic_query where
  "no_filter = \<lparr>sq_lang = [], sq_year_from = None, sq_year_to = None, sq_published_from = None, sq_published_to = None,
     sq_domain = [], sq_topic = [], sq_topic_logic = ''and'', sq_venue = [], sq_venue_type = [], sq_metadata_type = [],
     sq_min_citations = None, sq_doc_ids = None\<rparr>"

definition only_if :: "bool \<Rightarrow> 'a \<Rightarrow> 'a list" where
  "only_if c x = (if c then [x] else [])"

definition semantic_filters :: "semantic_query \<Rightarrow> json result" where
  "semantic_filters q =
     (let years = numeric_range (sq_year_from q) (sq_year_to q);
          dates = numeric_range (sq_published_from q) (sq_published_to q);
          dimensions = only_if (sq_topic q \<noteq> []) (''primary_topic'', JStr (sq_topic q)) @
            only_if (sq_domain q \<noteq> []) (''primary_topic_domain'', JStr (sq_domain q));
          built = only_if (sq_lang q \<noteq> []) (''lang'', JStr (sq_lang q)) @
            only_if (years \<noteq> []) (''publication_published_year'', JObj years) @
            only_if (dates \<noteq> []) (''publication_published_date'', JObj dates) @
            only_if (sq_venue q \<noteq> []) (''publication_venue_name_unified'', JStr (sq_venue q)) @
            only_if (sq_venue_type q \<noteq> []) (''publication_venue_type'', JStr (sq_venue_type q)) @
            only_if (sq_metadata_type q \<noteq> []) (''metadata_type'', JStr (sq_metadata_type q)) @
            (case sq_min_citations q of None \<Rightarrow> [] | Some n \<Rightarrow> [(''citation_count'', JObj [(''gte'', n)])]) @
            only_if (dimensions \<noteq> []) (''topics'', JObj [(''logic'', JStr (sq_topic_logic q)), (''dimensions'', JObj dimensions)])
      in case sq_doc_ids q of
           None \<Rightarrow> Inr (JObj built)
         | Some vs \<Rightarrow> bind_result (normalise_doc_ids vs) (\<lambda>ids. Inr (JObj (built @ [(''doc_id'', JList (map JStr ids))]))))"

section \<open>Metadata search\<close>

record metadata_query =
  mq_lang :: string
  mq_year_from :: "json option"
  mq_year_to :: "json option"
  mq_venue :: string
  mq_venue_type :: string
  mq_doi :: string
  mq_subjects :: "string list"
  mq_keywords :: "string list"
  mq_author :: string
  mq_min_citations :: "json option"
  mq_open_access :: "json option"
  mq_cites :: string
  mq_doc_ids :: "json list option"
  mq_require_full_text :: bool
  mq_extra :: "(string \<times> json) list list"

definition filter_item :: "string \<Rightarrow> json \<Rightarrow> string option \<Rightarrow> json" where
  "filter_item field v op = JObj ([(''field'', JStr field), (''value'', v)] @
     (case op of None \<Rightarrow> [] | Some k \<Rightarrow> [(''operator'', JStr k)]))"

definition filter_opt :: "string \<Rightarrow> json option \<Rightarrow> string option \<Rightarrow> json list" where
  "filter_opt field v op = (case v of None \<Rightarrow> [] | Some w \<Rightarrow> [filter_item field w op])"

fun extra_filters :: "(string \<times> json) list list \<Rightarrow> json list result" where
  "extra_filters [] = Inr []"
| "extra_filters (it # rest) = (case (map_of it ''field'', map_of it ''value'') of
     (Some f, Some v) \<Rightarrow>
       (let item = [(''field'', JStr (py_str f)), (''value'', v)] in
        bind_result (case map_of it ''operator'' of
            None \<Rightarrow> Inr (JObj item) | Some JNull \<Rightarrow> Inr (JObj item)
          | Some (JStr k) \<Rightarrow> raise_if (k \<notin> set FILTER_OPERATORS) (SciverseError ''unknown filter operator'')
              (Inr (JObj (item @ [(''operator'', JStr k)])))
          | Some w \<Rightarrow> Inl (SciverseError ''unknown filter operator'')) (\<lambda>x.
        bind_result (extra_filters rest) (\<lambda>xs. Inr (x # xs))))
   | _ \<Rightarrow> Inl (SciverseError ''a metadata filter needs field and value''))"

definition metadata_filters :: "metadata_query \<Rightarrow> json list result" where
  "metadata_filters q =
     (let head =
        only_if (mq_lang q \<noteq> []) (filter_item ''language'' (JStr (mq_lang q)) None) @
        filter_opt ''publication_published_year'' (mq_year_from q) (Some ''FILTER_OP_GTE'') @
        filter_opt ''publication_published_year'' (mq_year_to q) (Some ''FILTER_OP_LTE'') @
        only_if (mq_venue q \<noteq> []) (filter_item ''publication_venue_name_unified'' (JStr (mq_venue q)) None) @
        only_if (mq_venue_type q \<noteq> []) (filter_item ''publication_venue_type'' (JStr (mq_venue_type q)) None) @
        only_if (mq_doi q \<noteq> []) (filter_item ''doi'' (JStr (mq_doi q)) None) @
        only_if (mq_subjects q \<noteq> []) (filter_item ''subjects'' (JList (map JStr (mq_subjects q))) (Some ''FILTER_OP_IN'')) @
        only_if (mq_keywords q \<noteq> []) (filter_item ''keywords'' (JList (map JStr (mq_keywords q))) (Some ''FILTER_OP_IN'')) @
        only_if (mq_author q \<noteq> []) (filter_item ''author'' (JStr (mq_author q)) (Some ''FILTER_OP_MATCH'')) @
        filter_opt ''citation_count'' (mq_min_citations q) (Some ''FILTER_OP_GTE'') @
        filter_opt ''access_is_oa'' (mq_open_access q) None @
        only_if (mq_cites q \<noteq> []) (filter_item ''references_unique_id'' (JStr (mq_cites q)) None)
      in bind_result (case mq_doc_ids q of None \<Rightarrow> Inr []
           | Some vs \<Rightarrow> bind_result (normalise_doc_ids vs) (\<lambda>ids. Inr [filter_item ''doc_id'' (JList (map JStr ids)) (Some ''FILTER_OP_IN'')]))
         (\<lambda>scope. bind_result (extra_filters (mq_extra q)) (\<lambda>more_items.
           Inr (head @ scope @ only_if (mq_require_full_text q) (filter_item ''doc_id'' (JStr []) (Some ''FILTER_OP_NE'')) @ more_items))))"

fun metadata_sort :: "string list \<Rightarrow> json list result" where
  "metadata_sort [] = Inr []"
| "metadata_sort (f # fs) = (let name = dropWhile (\<lambda>c. c \<in> set ''+-'') f in
     raise_if (name \<notin> set SORTABLE_FIELDS) (SciverseError ''field is not sortable'')
     (bind_result (metadata_sort fs) (\<lambda>rest. Inr (JObj [(''field'', JStr name),
        (''order'', JStr (if starts_with ''-'' f then ''SORT_ORDER_DESC'' else ''SORT_ORDER_ASC''))] # rest))))"

section \<open>The scope of a search\<close>

lemma collect_ids_Inr:
  "collect_ids seen vs = Inr ids \<Longrightarrow> distinct seen \<Longrightarrow> list_all is_hex64 seen \<Longrightarrow>
   distinct ids \<and> list_all is_hex64 ids \<and> set ids = set seen \<union> set (map (\<lambda>v. py_lower (strip (py_str v))) vs)"
  by (induction vs arbitrary: seen) (force simp: Let_def split: if_splits)+

lemma normalise_doc_ids_Inr:
  "normalise_doc_ids vs = Inr ids \<Longrightarrow> distinct ids \<and> list_all is_hex64 ids \<and> length ids \<le> MAX_DOC_ID_SCOPE \<and>
   set ids = set (map (\<lambda>v. py_lower (strip (py_str v))) vs)"
  using collect_ids_Inr [of "[]" vs ids] by (auto simp: normalise_doc_ids_def bind_result_Inr_iff)

end
