(* ===== verification/Sciverse_Client.thy ===== *)
theory Sciverse_Client
  imports Sciverse_Filters
begin

text \<open>
  The client of the literature service (\<open>src/tools/sciverse.py\<close>, from line 362): the request loop
  with its retries and pauses, the evidence chain every call appends to, the endpoints, and the
  two loops that follow pages and document slices.

  The service is a parameter: what the n-th HTTP exchange of a client gives.  So are SHA-256,
  \<open>json.loads\<close>, and the time stamp, latency and \<open>uuid4\<close> of a record.  Loops carry fuel, the number of
  requests they may still make; running out of it is not an outcome of the code.
\<close>

section \<open>Exchanges\<close>

record http_request =
  rq_method :: string
  rq_path :: string
  rq_params :: "(string \<times> json) list"
  rq_body :: "json option"

datatype http_outcome =
    HttpOk string
  | HttpError int string string
  | UrlError string

record audit_draw =
  ad_ts :: string
  ad_uuid :: string
  ad_latency_ms :: json

record service =
  sv_reply :: "nat \<Rightarrow> http_request \<Rightarrow> http_outcome"
  sv_draw :: "nat \<Rightarrow> audit_draw"
  sv_loads :: "string \<Rightarrow> json option"
  sv_sha256 :: "string \<Rightarrow> string"

text \<open>The client: exchanges made, seconds slept, lines of the evidence chain.\<close>

record client =
  cn_exchanges :: nat
  cn_slept :: "nat list"
  cn_audit :: "json list"

type_synonym 'a client_act = "(client, 'a) process"

text \<open>\<open>v or w\<close>\<close>

definition py_or :: "json \<Rightarrow> json \<Rightarrow> json" where
  "py_or v w = (if truthy v then v else w)"

section \<open>Failures\<close>

text \<open>\<open>item.get('loc', [])[1:]\<close>, each part as text.\<close>

definition loc_parts :: "json \<Rightarrow> string list result" where
  "loc_parts item = (case jget item ''loc'' of
     None \<Rightarrow> Inr []
   | Some (JList xs) \<Rightarrow> Inr (map py_str (drop 1 xs))
   | Some (JStr s) \<Rightarrow> Inr (map (\<lambda>c. [c]) (drop 1 s))
   | _ \<Rightarrow> Inl (TypeError ''object is not subscriptable''))"

fun detail_texts :: "json list \<Rightarrow> string list result" where
  "detail_texts [] = Inr []"
| "detail_texts (d # ds) = (if \<not> is_dict d then detail_texts ds
     else bind_result (loc_parts d) (\<lambda>parts. bind_result (detail_texts ds) (\<lambda>rest.
       Inr ((join ''.'' parts @ '': '' @ py_str (get_null d ''msg'')) # rest))))"

text \<open>The class \<open>_ERROR_CLASSES.get(code, SciverseError)\<close>.\<close>

definition error_class :: "string \<Rightarrow> string \<Rightarrow> py_exn" where
  "error_class code m = (if code = ''EMPTY_RESULT'' then SciverseEmptyResult m
     else if code = ''CONTENT_NOT_FOUND'' then SciverseNotFound m
     else if code = ''SCOPE_TOO_LARGE'' then SciverseScopeTooLarge m else SciverseError m)"

text \<open>
  \<open>_failure\<close>: the exception to raise is a value; \<open>Inl\<close> is an exception raised while it is built.
  \<open>str.join\<close> takes strings only, and a code that is kept is joined as it is.
\<close>

definition failure :: "service \<Rightarrow> int \<Rightarrow> string \<Rightarrow> string \<Rightarrow> http_request \<Rightarrow> py_exn result" where
  "failure sv status raw reason rq =
     (let parsed = (if blank raw then JObj [] else case sv_loads sv raw of None \<Rightarrow> JObj [] | Some v \<Rightarrow> v);
          reply = (if is_dict parsed then parsed else JObj []);
          nested = (if is_dict (get_null reply ''error'') then get_null reply ''error'' else JObj []);
          code = py_or (get_null nested ''code'') (get_null reply ''code'');
          details = py_or (get_null reply ''details'') (get_null reply ''detail'');
          message = py_str (py_or (get_null nested ''message'') (py_or (get_null reply ''message'')
            (py_or (JStr (take 300 raw)) (JStr reason))))
      in bind_result (detail_texts (json_items details)) (\<lambda>texts.
         let shown = join ''; '' texts;
             message = (if is_json_list details \<and> truthy details \<and> shown \<noteq> [] then message @ '' ['' @ shown @ '']'' else message);
             start = ''HTTP '' @ show_int status @ '' on '' @ rq_method rq @ '' '' @ rq_path rq @ '':''
         in if \<not> truthy code then Inr (error_class (py_str code) (join '' '' (start # only_if (message \<noteq> []) message)))
            else (case code of
              JStr c \<Rightarrow> Inr (error_class c (join '' '' (start # c # only_if (message \<noteq> []) message)))
            | _ \<Rightarrow> Inl (TypeError ''sequence item: expected str instance''))))"

definition retry_status :: "int \<Rightarrow> bool" where
  "retry_status n \<longleftrightarrow> n \<in> set [500, 502, 503] \<or> n = 429"

section \<open>The request loop\<close>

definition exchange :: "service \<Rightarrow> http_request \<Rightarrow> client \<Rightarrow> http_outcome \<times> client" where
  "exchange sv rq c = (sv_reply sv (cn_exchanges c) rq, c\<lparr>cn_exchanges := Suc (cn_exchanges c)\<rparr>)"

definition sleep_for :: "nat \<Rightarrow> client \<Rightarrow> client" where
  "sleep_for n c = c\<lparr>cn_slept := cn_slept c @ [n]\<rparr>"

definition backoff :: "int \<Rightarrow> nat \<Rightarrow> nat" where
  "backoff status attempt = (if status = 429 then min (2 ^ attempt * 3) 30 else 2 ^ attempt)"

definition unreachable :: "http_request \<Rightarrow> string \<Rightarrow> py_exn" where
  "unreachable rq reason = SciverseError (rq_method rq @ '' '' @ rq_path rq @ '' unreachable: '' @ reason)"

text \<open>
  The loop over the attempts; the first argument counts the attempts left.  The reply body is not
  parsed here.  The statement after the loop is never reached: the last attempt raises.
\<close>

fun attempts_loop :: "nat \<Rightarrow> service \<Rightarrow> http_request \<Rightarrow> nat \<Rightarrow> string client_act" where
  "attempts_loop 0 sv rq attempt c = (Inl (SciverseError ''failed without a diagnosis''), c)"
| "attempts_loop (Suc left) sv rq attempt c =
     (case exchange sv rq c of
        (HttpOk body, c') \<Rightarrow> (Inr body, c')
      | (HttpError status raw reason, c') \<Rightarrow>
          (case failure sv status raw reason rq of
             Inl e \<Rightarrow> (Inl e, c')
           | Inr e \<Rightarrow> if \<not> retry_status status \<or> left = 0 then (Inl e, c')
               else attempts_loop left sv rq (Suc attempt) (sleep_for (backoff status attempt) c'))
      | (UrlError reason, c') \<Rightarrow>
          if left = 0 then (Inl (unreachable rq reason), c')
          else attempts_loop left sv rq (Suc attempt) (sleep_for (2 ^ attempt) c'))"

text \<open>\<open>_request\<close> with \<open>raw=True\<close>, and with the body parsed.\<close>

definition request_raw :: "service \<Rightarrow> int \<Rightarrow> http_request \<Rightarrow> string client_act" where
  "request_raw sv max_retries rq = attempts_loop (nat (max 1 max_retries)) sv rq 0"

definition parse_body :: "service \<Rightarrow> string \<Rightarrow> json result" where
  "parse_body sv body = (if blank body then Inr (JObj [])
     else case sv_loads sv body of None \<Rightarrow> Inl (ValueError ''Expecting value'') | Some v \<Rightarrow> Inr v)"

definition request_json :: "service \<Rightarrow> int \<Rightarrow> http_request \<Rightarrow> json client_act" where
  "request_json sv max_retries rq = b_bind (request_raw sv max_retries rq) (\<lambda>body. b_lift (parse_body sv body))"

text \<open>\<open>except SciverseEmptyResult: response = default\<close>\<close>

definition or_empty :: "json \<Rightarrow> json client_act \<Rightarrow> json client_act" where
  "or_empty d f c = (case f c of
     (Inl (SciverseEmptyResult m), c') \<Rightarrow> (Inr d, c')
   | r \<Rightarrow> r)"

section \<open>The evidence chain\<close>

text \<open>\<open>response.get(k)\<close> on something that is no dictionary raises.\<close>

definition field :: "json \<Rightarrow> string \<Rightarrow> json result" where
  "field v k = (if is_dict v then Inr (get_null v k) else Inl (AttributeError ''get''))"

text \<open>\<open>[x for x in (v or []) if isinstance(x, dict)]\<close>\<close>

definition dict_rows :: "json \<Rightarrow> json list result" where
  "dict_rows v = (if \<not> truthy v then Inr [] else case v of
     JList xs \<Rightarrow> Inr (filter is_dict xs)
   | JStr s \<Rightarrow> Inr []
   | JObj kvs \<Rightarrow> Inr []
   | _ \<Rightarrow> Inl (TypeError ''object is not iterable''))"

definition digest_json :: "service \<Rightarrow> json \<Rightarrow> string" where
  "digest_json sv v = sv_sha256 sv (render (sort_keys v))"

definition project_row :: "string list \<Rightarrow> json \<Rightarrow> json" where
  "project_row names row = JObj (concat (map (\<lambda>k. if get_null row k = JNull then [] else [(k, get_null row k)]) names))"

definition CHUNK_FIELDS :: "string list" where
  "CHUNK_FIELDS = [''doc_id'', ''chunk_id'', ''title'', ''offset'', ''page_no'', ''score'', ''lang'', ''recall_source'',
     ''model_name'', ''model_version'', ''publication_published_year'', ''publication_published_date'',
     ''publication_venue_name_unified'', ''citation_count'']"

definition PAPER_FIELDS :: "string list" where
  "PAPER_FIELDS = [''unique_id'', ''doc_id'', ''title'', ''doi'', ''publication_published_year'',
     ''publication_venue_name_unified'', ''citation_count'', ''relevance_score'', ''is_content_accessible'']"

text \<open>\<open>_audit\<close>: \<open>extra\<close> is computed from the latency of the call.\<close>

definition audit ::
  "service \<Rightarrow> string \<Rightarrow> json \<Rightarrow> json list \<Rightarrow> string list \<Rightarrow> (json \<Rightarrow> (string \<times> json) list) \<Rightarrow> unit client_act" where
  "audit sv tool rq rows names extra c =
     (let d = sv_draw sv (length (cn_audit c)); ex = extra (ad_latency_ms d);
          rid = (case map_of ex ''request_id'' of Some v \<Rightarrow> if truthy v then py_str v else ad_uuid d | None \<Rightarrow> ad_uuid d);
          base = [(''ts'', JStr (ad_ts d)), (''schema_version'', JInt 3), (''request_id'', JStr rid), (''tool'', JStr tool),
            (''request'', rq), (''n_hits'', JInt (int (length rows))), (''hits'', JList (map (project_row names) rows))]
      in (Inr (), c\<lparr>cn_audit := cn_audit c @ [JObj (fold (\<lambda>(k, v). AList.update k v) ex base)]\<rparr>))"

definition id_entry :: "string \<Rightarrow> (string \<times> json) list" where
  "id_entry request_id = only_if (request_id \<noteq> []) (''request_id'', JStr request_id)"

section \<open>Searches\<close>

definition MAX_QUERY_CHARS :: nat where "MAX_QUERY_CHARS = 4096"
definition MAX_TOP_K :: int where "MAX_TOP_K = 100"
definition SATURATION_TOP_K :: nat where "SATURATION_TOP_K = 50"
definition MAX_CONTENT_LIMIT :: int where "MAX_CONTENT_LIMIT = 16384"
definition MAX_PAGE_SIZE :: int where "MAX_PAGE_SIZE = 50"
definition MAX_RELATION_PAGE_SIZE :: int where "MAX_RELATION_PAGE_SIZE = 200"
definition RESULT_WINDOW :: int where "RESULT_WINDOW = 10000"

definition META_SEARCH_KEYS :: "string list" where
  "META_SEARCH_KEYS = [''query'', ''filters'', ''sort'', ''fields'', ''facets'', ''page'', ''page_size'', ''cursor'']"

definition post :: "string \<Rightarrow> json \<Rightarrow> http_request" where
  "post path body = \<lparr>rq_method = ''POST'', rq_path = path, rq_params = [], rq_body = Some body\<rparr>"

definition get :: "string \<Rightarrow> (string \<times> json) list \<Rightarrow> http_request" where
  "get path params = \<lparr>rq_method = ''GET'', rq_path = path, rq_params = filter (\<lambda>(k, v). v \<noteq> JNull) params, rq_body = None\<rparr>"

definition agentic_search ::
  "service \<Rightarrow> string \<Rightarrow> int \<Rightarrow> json \<Rightarrow> string \<Rightarrow> string list \<Rightarrow> string \<Rightarrow> int \<Rightarrow> json list client_act" where
  "agentic_search sv query top_k filters mode source_types request_id max_retries =
     (let text = take MAX_QUERY_CHARS query;
          body = JObj ([(''query'', JStr text), (''top_k'', JInt (clamp 1 MAX_TOP_K top_k))] @
            only_if (truthy filters) (''filters'', filters) @ only_if (mode \<noteq> []) (''mode'', JStr mode) @
            only_if (source_types \<noteq> []) (''source_types'', JList (map JStr source_types)))
      in if blank text then b_lift (Inl (SciverseError ''agentic-search needs a non-empty query''))
         else b_bind (or_empty (JObj [(''hits'', JList [])]) (request_json sv max_retries (post ''/agentic-search'' body))) (\<lambda>response.
           b_bind (b_lift (bind_result (field response ''hits'') dict_rows)) (\<lambda>hits.
           b_bind (audit sv ''agentic-search'' body hits CHUNK_FIELDS (\<lambda>latency. [(''latency_ms'', latency),
              (''response_sha256'', JStr (digest_json sv (JList hits))),
              (''saturated'', JBool (length hits \<ge> SATURATION_TOP_K))] @ id_entry request_id)) (\<lambda>u.
           b_lift (Inr hits)))))"

record meta_args =
  ma_filters :: "json list"
  ma_sort :: "json list"
  ma_fields :: "string list"
  ma_facets :: "json list"
  ma_request_id :: string
  ma_max_retries :: int

definition meta_body :: "meta_args \<Rightarrow> string \<Rightarrow> int \<Rightarrow> int \<Rightarrow> json \<Rightarrow> (string \<times> json) list" where
  "meta_body a query page sz cursor = [(''query'', JStr (take MAX_QUERY_CHARS query)), (''page'', JInt page),
     (''page_size'', JInt sz)] @ only_if (ma_filters a \<noteq> []) (''filters'', JList (ma_filters a)) @
     only_if (ma_sort a \<noteq> []) (''sort'', JList (ma_sort a)) @
     only_if (ma_fields a \<noteq> []) (''fields'', JList (map JStr (ma_fields a))) @
     only_if (ma_facets a \<noteq> []) (''facets'', JList (ma_facets a)) @ only_if (truthy cursor) (''cursor'', cursor)"

definition meta_search :: "service \<Rightarrow> meta_args \<Rightarrow> string \<Rightarrow> int \<Rightarrow> int \<Rightarrow> json \<Rightarrow> json client_act" where
  "meta_search sv a query page page_size cursor =
     (let sz = min page_size MAX_PAGE_SIZE; body = meta_body a query page sz cursor in
      if page < 1 \<or> page_size < 1 then b_lift (Inl (SciverseError ''meta-search page and page_size start at 1''))
      else if cursor = JNull \<and> page * sz > RESULT_WINDOW
      then b_lift (Inl (SciverseError ''page exceeds the result window''))
      else if \<not> list_all (\<lambda>(k, v). k \<in> set META_SEARCH_KEYS) body
      then b_lift (Inl (SciverseError ''meta-search rejects these keys outright''))
      else b_bind (or_empty (JObj [(''results'', JList []), (''total_count'', JInt 0), (''page'', JInt page), (''page_size'', JInt sz)])
          (request_json sv (ma_max_retries a) (post ''/meta-search'' (JObj body)))) (\<lambda>response.
        b_bind (b_lift (bind_result (field response ''results'') dict_rows)) (\<lambda>rows.
        b_bind (audit sv ''meta-search'' (JObj body) rows PAPER_FIELDS (\<lambda>latency. [(''latency_ms'', latency),
            (''response_sha256'', JStr (digest_json sv (JList rows))), (''total_count'', get_null response ''total_count''),
            (''total_count_saturated'', JBool (get_null response ''total_count'' \<in> set [JInt RESULT_WINDOW, JFloat ''10000.0'']))] @
            id_entry (ma_request_id a))) (\<lambda>u.
        b_lift (Inr (jput response ''results'' (JList rows)))))))"

text \<open>
  The generator: the rows it yields and how it stops.  \<open>OutOfFuel\<close> means that the loop would go on.
\<close>

datatype stream_end = Stopped | StreamRaised py_exn | OutOfFuel

text \<open>The rows up to the limit; \<open>produced\<close> rows were yielded before.\<close>

definition rows_to_limit :: "int option \<Rightarrow> nat \<Rightarrow> json list \<Rightarrow> json list \<times> bool" where
  "rows_to_limit limit produced rows = (case limit of
     None \<Rightarrow> (rows, False)
   | Some l \<Rightarrow> if rows \<noteq> [] \<and> int (produced + length rows) \<ge> l
       then (take (max 1 (nat (l - int produced))) rows, True) else (rows, False))"

fun cursor_hashable :: "json \<Rightarrow> bool" where
  "cursor_hashable (JList xs) = False"
| "cursor_hashable (JObj kvs) = False"
| "cursor_hashable v = True"

fun iter_pages ::
  "nat \<Rightarrow> service \<Rightarrow> meta_args \<Rightarrow> string \<Rightarrow> int \<Rightarrow> int option \<Rightarrow> nat \<Rightarrow> int \<Rightarrow> json \<Rightarrow> json list \<Rightarrow> client \<Rightarrow>
   (json list \<times> stream_end) \<times> client" where
  "iter_pages 0 sv a query sz limit produced page cursor seen c = (([], OutOfFuel), c)"
| "iter_pages (Suc n) sv a query sz limit produced page cursor seen c =
     (case meta_search sv a query page sz cursor c of
        (Inl e, c') \<Rightarrow> (([], StreamRaised e), c')
      | (Inr envelope, c') \<Rightarrow>
          (let rows = json_items (get_null envelope ''results''); (out, full) = rows_to_limit limit produced rows;
               next = get_null envelope ''next_cursor''; at_edge = (page + 1) * sz > RESULT_WINDOW
           in if full \<or> int (length rows) < sz then ((out, Stopped), c')
              else if at_edge \<and> truthy next \<and> \<not> cursor_hashable next
              then ((out, StreamRaised (TypeError ''unhashable type'')), c')
              else if at_edge \<and> (\<not> truthy next \<or> next \<in> set seen) then ((out, Stopped), c')
              else (case iter_pages n sv a query sz limit (produced + length rows) (page + 1)
                    (if at_edge then next else cursor) (if at_edge then next # seen else seen) c' of
                ((rest, e), c'') \<Rightarrow> ((out @ rest, e), c''))))"

definition iter_meta_search ::
  "nat \<Rightarrow> service \<Rightarrow> meta_args \<Rightarrow> string \<Rightarrow> int \<Rightarrow> int option \<Rightarrow> client \<Rightarrow> (json list \<times> stream_end) \<times> client" where
  "iter_meta_search fuel sv a query page_size limit =
     iter_pages fuel sv a query (min page_size MAX_PAGE_SIZE) limit 0 1 JNull []"

section \<open>Documents\<close>

text \<open>\<open>len(text.encode("utf-8"))\<close> of text below code point 256.\<close>

definition utf8_length :: "string \<Rightarrow> nat" where
  "utf8_length s = length s + length (filter (\<lambda>c. digit7 c) s)"

definition content_text :: "json \<Rightarrow> string" where
  "content_text response = py_str (get_or response ''text'' (JStr []))"

definition content :: "service \<Rightarrow> string \<Rightarrow> int \<Rightarrow> int \<Rightarrow> string \<Rightarrow> int \<Rightarrow> json client_act" where
  "content sv doc_id offset limit request_id max_retries =
     (let params = [(''doc_id'', JStr doc_id), (''offset'', JInt offset), (''limit'', JInt (clamp 1 MAX_CONTENT_LIMIT limit))] in
      if offset < 0 then b_lift (Inl (SciverseError ''content offset cannot be negative''))
      else b_bind (request_json sv max_retries (get ''/content'' params)) (\<lambda>response.
        b_bind (b_lift (field response ''text'')) (\<lambda>t.
        b_bind (audit sv ''content'' (JObj params) [] CHUNK_FIELDS (\<lambda>latency.
            [(''bytes'', JInt (int (utf8_length (content_text response)))), (''bytes_returned'', get_null response ''bytes_returned''),
             (''more'', get_null response ''more''), (''next_offset'', get_null response ''next_offset''), (''latency_ms'', latency),
             (''content_sha256'', JStr (sv_sha256 sv (content_text response)))] @ id_entry request_id)) (\<lambda>u.
        b_lift (Inr response)))))"

record document =
  dc_text :: string
  dc_pages :: nat
  dc_start_offset :: int
  dc_end_offset :: int
  dc_bytes :: nat
  dc_truncated :: bool
  dc_content_sha256 :: string

text \<open>
  The loop of \<open>read_document\<close>: the text so far, its bytes, the cursor, the furthest offset and
  the pages read.  \<open>None\<close> is the loop going on when the fuel ends.
\<close>

fun read_slices ::
  "nat \<Rightarrow> service \<Rightarrow> string \<Rightarrow> int option \<Rightarrow> int \<Rightarrow> string \<Rightarrow> int \<Rightarrow> string \<Rightarrow> int \<Rightarrow> int \<Rightarrow> int \<Rightarrow> nat \<Rightarrow> client \<Rightarrow>
   (string \<times> int \<times> nat \<times> bool) result option \<times> client" where
  "read_slices 0 sv doc_id max_bytes chunk_limit request_id max_retries text collected cursor reached pages c = (None, c)"
| "read_slices (Suc n) sv doc_id max_bytes chunk_limit request_id max_retries text collected cursor reached pages c =
     (let window = min chunk_limit MAX_CONTENT_LIMIT;
          window = (case max_bytes of None \<Rightarrow> window | Some m \<Rightarrow> min window (max 1 (m - collected)))
      in case content sv doc_id cursor window request_id max_retries c of
        (Inl e, c') \<Rightarrow> (Some (Inl e), c')
      | (Inr r, c') \<Rightarrow>
          (let text' = text @ content_text r; collected' = collected + int (utf8_length (content_text r));
               following = as_int (get_null r ''next_offset'');
               reached' = (case following of None \<Rightarrow> reached | Some k \<Rightarrow> max reached k)
           in case following of
                None \<Rightarrow> (Some (Inr (text', reached', Suc pages, False)), c')
              | Some k \<Rightarrow>
                  if \<not> truthy (get_null r ''more'') \<or> k \<le> cursor then (Some (Inr (text', reached', Suc pages, False)), c')
                  else if (case max_bytes of None \<Rightarrow> False | Some m \<Rightarrow> collected' \<ge> m)
                  then (Some (Inr (text', reached', Suc pages, True)), c')
                  else read_slices n sv doc_id max_bytes chunk_limit request_id max_retries text' collected' k reached' (Suc pages) c'))"

definition read_document ::
  "nat \<Rightarrow> service \<Rightarrow> string \<Rightarrow> int \<Rightarrow> int option \<Rightarrow> int \<Rightarrow> string \<Rightarrow> int \<Rightarrow> client \<Rightarrow> document result option \<times> client" where
  "read_document fuel sv doc_id offset max_bytes chunk_limit request_id max_retries c =
     (let start = max 0 offset in
      case read_slices fuel sv doc_id max_bytes chunk_limit request_id max_retries [] 0 start start 0 c of
        (None, c') \<Rightarrow> (None, c')
      | (Some (Inl e), c') \<Rightarrow> (Some (Inl e), c')
      | (Some (Inr (text, reached, pages, truncated)), c') \<Rightarrow>
          (Some (Inr \<lparr>dc_text = text, dc_pages = pages, dc_start_offset = start, dc_end_offset = reached,
             dc_bytes = utf8_length text, dc_truncated = truncated, dc_content_sha256 = sv_sha256 sv text\<rparr>), c'))"

section \<open>Introspection and the citation graph\<close>

definition field_names :: "string \<Rightarrow> json list \<Rightarrow> string list result" where
  "field_names flag entries = (let chosen = filter (\<lambda>e. truthy (get_null e flag)) entries in
     if list_ex (\<lambda>e. jget e ''name'' = None) chosen then Inl (KeyError ''name'')
     else if list_ex (\<lambda>e. \<forall>s. jget e ''name'' \<noteq> Some (JStr s)) chosen then Inl (TypeError ''not supported between instances'')
     else Inr (sort (map (\<lambda>e. json_str (jget e ''name'')) chosen)))"

definition meta_catalog :: "service \<Rightarrow> string \<Rightarrow> bool \<Rightarrow> bool \<Rightarrow> int \<Rightarrow> json client_act" where
  "meta_catalog sv collection samples stats max_retries =
     (if collection \<notin> set [''papers'', ''authors'', ''sources''] then b_lift (Inl (SciverseError ''unknown collection''))
      else b_bind (request_json sv max_retries (get ''/meta-catalog'' [(''collection'', JStr collection),
          (''include_sample_values'', if samples then JStr ''true'' else JNull),
          (''include_field_stats'', if stats then JStr ''true'' else JNull)])) (\<lambda>response.
        b_bind (b_lift (bind_result (field response ''fields'') dict_rows)) (\<lambda>entries.
        b_bind (b_lift (bind_result (field_names ''filterable'' entries) (\<lambda>f. bind_result (field_names ''sortable'' entries) (\<lambda>s. Inr (f, s)))))
          (\<lambda>(filterable, sortable).
        b_bind (audit sv ''meta-catalog'' (JObj [(''collection'', JStr collection)]) [] CHUNK_FIELDS (\<lambda>latency.
            [(''n_fields'', JInt (int (length entries))), (''filterable'', JList (map JStr filterable)),
             (''sortable'', JList (map JStr sortable))])) (\<lambda>u.
        b_lift (Inr response))))))"

definition paper_relations :: "service \<Rightarrow> string \<Rightarrow> string \<Rightarrow> int \<Rightarrow> int \<Rightarrow> int \<Rightarrow> json client_act" where
  "paper_relations sv unique_id rel page page_size max_retries =
     (let body = JObj [(''unique_id'', JStr unique_id), (''relation'', JStr rel), (''page'', JInt page), (''page_size'', JInt page_size)] in
      if rel \<notin> set [''CITATIONS'', ''REFERENCES'', ''RELATED_WORKS''] then b_lift (Inl (SciverseError ''unknown relation''))
      else if page < 1 \<or> page_size < 1 \<or> page_size > MAX_RELATION_PAGE_SIZE
      then b_lift (Inl (SciverseError ''relations paging is out of bounds''))
      else if page * page_size > RESULT_WINDOW then b_lift (Inl (SciverseError ''page exceeds the result window''))
      else b_bind (request_json sv max_retries (post ''/meta-paper-relations'' body)) (\<lambda>response.
        b_bind (b_lift (bind_result (field response ''items'') dict_rows)) (\<lambda>items.
        b_bind (audit sv ''meta-paper-relations'' body items [''id'', ''id_type'', ''title''] (\<lambda>latency. [(''latency_ms'', latency),
            (''total_count'', get_null response ''total_count''), (''total_pages'', get_null response ''total_pages'')])) (\<lambda>u.
        b_lift (Inr (jput response ''items'' (JList items)))))))"

text \<open>The parts of \<open>s.split("/")\<close>.\<close>

fun split_on :: "char \<Rightarrow> string \<Rightarrow> string list" where
  "split_on d [] = [[]]"
| "split_on d (c # cs) = (if c = d then [] # split_on d cs
     else case split_on d cs of [] \<Rightarrow> [[c]] | p # ps \<Rightarrow> (c # p) # ps)"

definition unsafe_resource :: "string \<Rightarrow> bool" where
  "unsafe_resource name \<longleftrightarrow> name = [] \<or> starts_with ''/'' name \<or> CHR 0x5C \<in> set name \<or> ''..'' \<in> set (split_on (CHR ''/'') name)"

definition resource :: "service \<Rightarrow> string \<Rightarrow> int \<Rightarrow> string client_act" where
  "resource sv name max_retries =
     (if unsafe_resource name then b_lift (Inl (SciverseError ''resource file_name must be relative''))
      else b_bind (request_raw sv max_retries (get ''/resource'' [(''file_name'', JStr name)])) (\<lambda>data.
        b_bind (audit sv ''resource'' (JObj [(''file_name'', JStr name)]) [] CHUNK_FIELDS (\<lambda>latency.
            [(''bytes'', JInt (int (length data))), (''content_sha256'', JStr (sv_sha256 sv data))])) (\<lambda>u.
        b_lift (Inr data))))"

end
