(* ===== verification/Sciverse_Laws.thy ===== *)
theory Sciverse_Laws
  imports Sciverse_Client
begin

text \<open>
  Lemmas on the literature client: the request loop against the list of its attempts, the page
  loop under a limit, and the slice loop against a service that serves a document.
\<close>

section \<open>The request loop\<close>

text \<open>The pause after an attempt that is worth repeating.\<close>

definition pause_after :: "service \<Rightarrow> http_request \<Rightarrow> nat \<Rightarrow> http_outcome \<Rightarrow> nat option" where
  "pause_after sv rq attempt out = (case out of
     HttpOk body \<Rightarrow> None
   | HttpError status raw reason \<Rightarrow> (case failure sv status raw reason rq of
       Inl e \<Rightarrow> None | Inr e \<Rightarrow> if retry_status status then Some (backoff status attempt) else None)
   | UrlError reason \<Rightarrow> Some (2 ^ attempt))"

definition attempt_result :: "service \<Rightarrow> http_request \<Rightarrow> http_outcome \<Rightarrow> string result" where
  "attempt_result sv rq out = (case out of
     HttpOk body \<Rightarrow> Inr body
   | HttpError status raw reason \<Rightarrow> (case failure sv status raw reason rq of Inl e \<Rightarrow> Inl e | Inr e \<Rightarrow> Inl e)
   | UrlError reason \<Rightarrow> Inl (unreachable rq reason))"

text \<open>The attempts are numbered; the loop ends with the first that is the last one or not worth repeating.\<close>

definition last_attempt :: "(nat \<Rightarrow> nat option) \<Rightarrow> nat \<Rightarrow> nat" where
  "last_attempt pause n = (case find (\<lambda>k. pause k = None) [0..<n - 1] of Some k \<Rightarrow> k | None \<Rightarrow> n - 1)"

lemma last_attempt_unique:
  assumes "k < n" and "\<forall>i < k. pause i \<noteq> None" and "k = n - 1 \<or> pause k = None"
  shows "last_attempt pause n = k"
proof (cases "find (\<lambda>k. pause k = None) [0..<n - 1]")
  case None
  then have "\<forall>i < n - 1. pause i \<noteq> None" by (simp add: find_None_iff)
  with assms(1,3) have "k = n - 1" by (metis Suc_pred' diff_Suc_1 less_Suc_eq less_nat_zero_code not_gr_zero)
  with None show ?thesis by (simp add: last_attempt_def)
next
  case (Some i)
  then have "i < n - 1" "pause i = None" "\<forall>j < i. pause j \<noteq> None"
    by (auto simp: find_Some_iff)
  with assms have "i = k" by (metis linorder_neqE_nat)
  with Some show ?thesis by (simp add: last_attempt_def)
qed

lemma last_attempt_exists:
  assumes "0 < (n :: nat)"
  obtains k where "k < n" and "\<forall>i < k. pause i \<noteq> None" and "k = n - 1 \<or> pause k = None"
proof -
  let ?P = "\<lambda>k. k = n - 1 \<or> pause k = None"
  have last: "?P (n - 1)" by simp
  have "?P (LEAST k. ?P k)" using LeastI [of ?P, OF last] .
  moreover have "(LEAST k. ?P k) \<le> n - 1" using Least_le [of ?P, OF last] .
  moreover have "\<forall>i < (LEAST k. ?P k). \<not> ?P i" using not_less_Least [of _ ?P] by blast
  ultimately show thesis using assms by (intro that [of "LEAST k. ?P k"]) auto
qed

lemma attempts_loop_run:
  assumes "k < n" and "\<forall>i < k. pause_after sv rq (a + i) (sv_reply sv (cn_exchanges c + i) rq) \<noteq> None"
    and "k = n - 1 \<or> pause_after sv rq (a + k) (sv_reply sv (cn_exchanges c + k) rq) = None"
  shows "attempts_loop n sv rq a c = (attempt_result sv rq (sv_reply sv (cn_exchanges c + k) rq),
     c\<lparr>cn_exchanges := cn_exchanges c + Suc k,
       cn_slept := cn_slept c @ map (\<lambda>i. the (pause_after sv rq (a + i) (sv_reply sv (cn_exchanges c + i) rq))) [0..<k]\<rparr>)"
  using assms
proof (induction n arbitrary: a c k)
  case (Suc n)
  let ?out = "sv_reply sv (cn_exchanges c) rq"
  show ?case
  proof (cases k)
    case 0
    with Suc.prems(3) show ?thesis
      by (auto simp: exchange_def attempt_result_def pause_after_def split: http_outcome.splits sum.splits)
  next
    case (Suc j)
    let ?c = "c\<lparr>cn_exchanges := Suc (cn_exchanges c), cn_slept := cn_slept c @ [the (pause_after sv rq a ?out)]\<rparr>"
    have IH: "attempts_loop n sv rq (Suc a) ?c = (attempt_result sv rq (sv_reply sv (cn_exchanges ?c + j) rq),
     ?c\<lparr>cn_exchanges := cn_exchanges ?c + Suc j,
       cn_slept := cn_slept ?c @ map (\<lambda>i. the (pause_after sv rq (Suc a + i) (sv_reply sv (cn_exchanges ?c + i) rq))) [0..<j]\<rparr>)"
    proof (rule Suc.IH)
      show "\<forall>i<j. pause_after sv rq (Suc a + i) (sv_reply sv (cn_exchanges ?c + i) rq) \<noteq> None"
        using Suc.prems(2) \<open>k = Suc j\<close> by (metis Suc_less_eq add_Suc_right add_Suc_shift client.select_convs(1)
            client.surjective client.update_convs(1) client.update_convs(2))
    qed (use Suc.prems \<open>k = Suc j\<close> in auto)
    have "pause_after sv rq a ?out \<noteq> None" "n \<noteq> 0" using Suc.prems \<open>k = Suc j\<close> by auto
    then have "attempts_loop (Suc n) sv rq a c = attempts_loop n sv rq (Suc a) ?c"
      by (auto simp: exchange_def pause_after_def sleep_for_def split: http_outcome.splits sum.splits if_splits)
    moreover have "[0..<Suc j] = 0 # map Suc [0..<j]" by (simp add: map_Suc_upt upt_conv_Cons del: upt_Suc)
    ultimately show ?thesis using IH \<open>k = Suc j\<close> by (simp add: comp_def)
  qed
qed simp

section \<open>Following pages\<close>

lemma rows_to_limit_full:
  assumes "rows_to_limit (Some l) produced rows = (out, full)" and "0 \<le> l"
  shows "full \<Longrightarrow> int produced < l \<Longrightarrow> int (produced + length out) = l"
    and "\<not> full \<Longrightarrow> out = rows \<and> (rows = [] \<or> int (produced + length rows) < l)"
  using assms by (auto simp: rows_to_limit_def split: if_splits)

lemma iter_pages_limited:
  assumes "iter_pages n sv a query sz (Some l) produced page cursor seen c = ((out, e), c')"
    and "1 \<le> sz" and "int produced < l" and "nat (l - int produced) \<le> n"
  shows "e \<noteq> OutOfFuel \<and> int (produced + length out) \<le> l"
  using assms
proof (induction n arbitrary: produced page cursor seen c out e c')
  case (Suc n)
  show ?case
  proof (cases "meta_search sv a query page sz cursor c")
    case (Pair r c1)
    show ?thesis
    proof (cases r)
      case (Inl x)
      with Pair Suc.prems show ?thesis by auto
    next
      case (Inr envelope)
      let ?rows = "json_items (get_null envelope ''results'')"
      obtain o1 full where o1: "rows_to_limit (Some l) produced ?rows = (o1, full)" by (cases "rows_to_limit (Some l) produced ?rows")
      have facts: "full \<Longrightarrow> int (produced + length o1) = l" "\<not> full \<Longrightarrow> o1 = ?rows \<and> (?rows = [] \<or> int (produced + length ?rows) < l)"
        using rows_to_limit_full [OF o1] Suc.prems(3) by auto
      show ?thesis
      proof (cases "full \<or> int (length ?rows) < sz")
        case True
        then have "out = o1 \<and> e = Stopped" using Suc.prems(1) Pair Inr o1 by (simp add: Let_def)
        then show ?thesis using facts Suc.prems(3) by (cases full) auto
      next
        case False
        with Suc.prems(2) have big: "int (length ?rows) \<ge> 1" "\<not> full" by auto
        let ?next = "get_null envelope ''next_cursor''" and ?edge = "(page + 1) * sz > RESULT_WINDOW"
        have less: "int (produced + length ?rows) < l" using facts big by auto
        show ?thesis
        proof (cases "?edge \<and> (\<not> truthy ?next \<or> ?next \<in> set seen \<or> \<not> cursor_hashable ?next)")
          case True
          then have "out = o1 \<and> e \<noteq> OutOfFuel" using Suc.prems(1) Pair Inr o1 False
            by (auto simp: Let_def split: if_splits)
          then show ?thesis using facts big less by auto
        next
          case go: False
          obtain rest e1 c2 where rec: "iter_pages n sv a query sz (Some l) (produced + length ?rows) (page + 1)
              (if ?edge then ?next else cursor) (if ?edge then ?next # seen else seen) c1 = ((rest, e1), c2)"
            by (metis prod.collapse)
          have "out = o1 @ rest" "e = e1" using Suc.prems(1) Pair Inr o1 False go rec by (auto simp: Let_def split: if_splits)
          moreover have "e1 \<noteq> OutOfFuel \<and> int (produced + length ?rows + length rest) \<le> l"
            using Suc.IH [OF rec Suc.prems(2) less] big Suc.prems(4) by simp
          ultimately show ?thesis using facts big by simp
        qed
      qed
    qed
  qed
qed simp

section \<open>Reading a document\<close>

text \<open>A service that serves the document from its bytes, one slice per request.\<close>

definition slice_fields :: "string \<Rightarrow> int \<Rightarrow> int \<Rightarrow> (string \<times> json) list" where
  "slice_fields doc offset limit = [
     (''text'', JStr (take (nat limit) (drop (nat offset) doc))),
     (''next_offset'', JInt (min (offset + limit) (int (length doc)))),
     (''more'', JBool (offset + limit < int (length doc)))]"

text \<open>A service whose \<open>/content\<close> endpoint answers the request with a dictionary.\<close>

definition answers :: "service \<Rightarrow> string \<Rightarrow> (int \<Rightarrow> int \<Rightarrow> (string \<times> json) list) \<Rightarrow> bool" where
  "answers sv doc_id reply \<longleftrightarrow> (\<forall>n offset limit. 0 \<le> offset \<longrightarrow> 1 \<le> limit \<longrightarrow>
     (\<exists>body. sv_reply sv n (get ''/content'' [(''doc_id'', JStr doc_id), (''offset'', JInt offset), (''limit'', JInt limit)]) = HttpOk body
        \<and> \<not> blank body \<and> sv_loads sv body = Some (JObj (reply offset limit))))"

definition serves :: "service \<Rightarrow> string \<Rightarrow> string \<Rightarrow> bool" where
  "serves sv doc_id doc \<longleftrightarrow> answers sv doc_id (slice_fields doc)"

text \<open>A service that reports more text without giving any, one byte further each time.\<close>

definition stalls :: "service \<Rightarrow> string \<Rightarrow> bool" where
  "stalls sv doc_id \<longleftrightarrow> answers sv doc_id (\<lambda>offset limit. [(''text'', JStr []), (''next_offset'', JInt (offset + 1)), (''more'', JBool True)])"

lemma content_answered:
  assumes "answers sv doc_id reply" and "0 \<le> offset"
  shows "\<exists>c'. content sv doc_id offset limit rid mr c = (Inr (JObj (reply offset (clamp 1 MAX_CONTENT_LIMIT limit))), c')"
proof -
  let ?l = "clamp 1 MAX_CONTENT_LIMIT limit"
  let ?rq = "get ''/content'' [(''doc_id'', JStr doc_id), (''offset'', JInt offset), (''limit'', JInt ?l)]"
  have "1 \<le> ?l" by (simp add: clamp_def MAX_CONTENT_LIMIT_def)
  with assms obtain body where body: "sv_reply sv (cn_exchanges c) ?rq = HttpOk body" "\<not> blank body"
      "sv_loads sv body = Some (JObj (reply offset ?l))"
    unfolding answers_def by blast
  have "attempts_loop (nat (max 1 mr)) sv ?rq 0 c = (Inr body, c\<lparr>cn_exchanges := Suc (cn_exchanges c)\<rparr>)"
    using body(1) by (cases "nat (max 1 mr)") (auto simp: exchange_def)
  then have "request_json sv mr ?rq c = (Inr (JObj (reply offset ?l)), c\<lparr>cn_exchanges := Suc (cn_exchanges c)\<rparr>)"
    using body(2,3) by (simp add: request_json_def request_raw_def b_bind_def b_lift_def parse_body_def)
  then show ?thesis using assms(2)
    by (simp add: content_def Let_def b_bind_def b_lift_def field_def audit_def)
qed

lemma stalled_read_goes_on:
  assumes "stalls sv doc_id" and "0 \<le> cursor" and "case max_bytes of None \<Rightarrow> True | Some m \<Rightarrow> collected < m"
  shows "fst (read_slices n sv doc_id max_bytes chunk rid mr acc collected cursor reached pages c) = None"
  using assms
proof (induction n arbitrary: acc cursor reached pages c)
  case (Suc n)
  let ?window = "case max_bytes of None \<Rightarrow> min chunk MAX_CONTENT_LIMIT
    | Some m \<Rightarrow> min (min chunk MAX_CONTENT_LIMIT) (max 1 (m - collected))"
  obtain c1 where "content sv doc_id cursor ?window rid mr c =
      (Inr (JObj [(''text'', JStr []), (''next_offset'', JInt (cursor + 1)), (''more'', JBool True)]), c1)"
    using content_answered [of sv doc_id _ cursor ?window rid mr c] Suc.prems(1,2) by (fastforce simp: stalls_def)
  then show ?case using Suc.IH [of "cursor + 1"] Suc.prems
    by (auto simp: get_null_def content_text_def get_or_def utf8_length_def split: option.splits)
qed simp

definition ascii :: "string \<Rightarrow> bool" where
  "ascii s \<longleftrightarrow> list_all (\<lambda>c. \<not> digit7 c) s"

lemma utf8_ascii: "ascii s \<Longrightarrow> utf8_length s = length s"
  by (simp add: ascii_def utf8_length_def list_all_iff filter_empty_conv)

lemma ascii_slice: "ascii s \<Longrightarrow> ascii (take n (drop m s))"
  by (auto simp: ascii_def list_all_iff dest: in_set_takeD in_set_dropD)

lemma ascii_drop: "ascii s \<Longrightarrow> ascii (drop n s)"
  by (auto simp: ascii_def list_all_iff dest: in_set_dropD)

text \<open>The bytes that a bounded read still takes from the rest of the document.\<close>

definition wanted :: "int option \<Rightarrow> int \<Rightarrow> string \<Rightarrow> string" where
  "wanted max_bytes collected rest = (case max_bytes of None \<Rightarrow> rest | Some m \<Rightarrow> take (nat (max 1 (m - collected))) rest)"

lemma wanted_split:
  assumes "1 \<le> w" and "case max_bytes of None \<Rightarrow> True | Some m \<Rightarrow> collected + w < m"
  shows "wanted max_bytes collected rest = take (nat w) rest @ wanted max_bytes (collected + w) (drop (nat w) rest)"
proof (cases max_bytes)
  case (Some m)
  with assms have "nat (max 1 (m - collected)) = nat w + nat (max 1 (m - (collected + w)))" by auto
  then show ?thesis using Some by (simp add: wanted_def take_add)
qed (simp add: wanted_def)

lemma wanted_all: "case max_bytes of None \<Rightarrow> True | Some m \<Rightarrow> int (length rest) \<le> max 1 (m - collected) \<Longrightarrow>
   wanted max_bytes collected rest = rest"
  by (auto simp: wanted_def split: option.splits)

declare read_slices.simps(2) [simp del]

lemma read_slices_served:
  assumes "serves sv doc_id doc" and "ascii doc" and "0 \<le> cursor" and "1 \<le> chunk"
    and "nat (int (length doc) - cursor) < n"
  shows "\<exists>pages' c'. read_slices n sv doc_id max_bytes chunk rid mr acc collected cursor cursor pages c =
    (Some (Inr (acc @ wanted max_bytes collected (drop (nat cursor) doc),
      cursor + int (length (wanted max_bytes collected (drop (nat cursor) doc))), pages',
      wanted max_bytes collected (drop (nat cursor) doc) \<noteq> drop (nat cursor) doc)), c')"
  using assms
proof (induction n arbitrary: acc collected cursor pages c)
  case (Suc n)
  let ?w0 = "min chunk MAX_CONTENT_LIMIT"
  define w where "w = (case max_bytes of None \<Rightarrow> ?w0 | Some m \<Rightarrow> min ?w0 (max 1 (m - collected)))"
  have w: "1 \<le> w" "clamp 1 MAX_CONTENT_LIMIT w = w"
    using Suc.prems(4) by (auto simp: w_def clamp_def MAX_CONTENT_LIMIT_def split: option.split)
  let ?rest = "drop (nat cursor) doc" and ?r = "JObj (slice_fields doc cursor w)"
  obtain c1 where c1: "content sv doc_id cursor w rid mr c = (Inr ?r, c1)"
    using content_answered [OF Suc.prems(1) [unfolded serves_def] Suc.prems(3), of w rid mr c] w(2) by auto
  let ?slice = "take (nat w) ?rest"
  have slice: "content_text ?r = ?slice" "utf8_length ?slice = length ?slice"
    using utf8_ascii [OF ascii_slice [OF Suc.prems(2)]]
    by (auto simp: slice_fields_def content_text_def get_or_def)
  have reply: "get_null ?r ''next_offset'' = JInt (min (cursor + w) (int (length doc)))"
    "get_null ?r ''more'' = JBool (cursor + w < int (length doc))"
    by (simp_all add: slice_fields_def get_null_def)
  have step: "read_slices (Suc n) sv doc_id max_bytes chunk rid mr acc collected cursor cursor pages c =
      (if \<not> cursor + w < int (length doc) \<or> min (cursor + w) (int (length doc)) \<le> cursor
       then (Some (Inr (acc @ ?slice, max cursor (min (cursor + w) (int (length doc))), Suc pages, False)), c1)
       else if (case max_bytes of None \<Rightarrow> False | Some m \<Rightarrow> collected + int (length ?slice) \<ge> m)
       then (Some (Inr (acc @ ?slice, max cursor (min (cursor + w) (int (length doc))), Suc pages, True)), c1)
       else read_slices n sv doc_id max_bytes chunk rid mr (acc @ ?slice) (collected + int (length ?slice))
          (min (cursor + w) (int (length doc))) (max cursor (min (cursor + w) (int (length doc)))) (Suc pages) c1)"
    unfolding read_slices.simps(2) Let_def w_def [symmetric] c1 by (simp add: reply slice split: option.split)
  show ?case
  proof (cases "cursor + w < int (length doc)")
    case False
    have "wanted max_bytes collected ?rest = ?rest"
      by (rule wanted_all) (use False Suc.prems(3) in \<open>auto simp: w_def split: option.split\<close>)
    then show ?thesis using False Suc.prems(3) w(1) by (auto simp: step)
  next
    case True
    have len: "length ?slice = nat w" using True Suc.prems(3) by auto
    show ?thesis
    proof (cases "case max_bytes of None \<Rightarrow> False | Some m \<Rightarrow> collected + int (length ?slice) \<ge> m")
      case full: True
      then obtain m where m: "max_bytes = Some m" "collected + w \<ge> m" using len w(1) by (auto split: option.splits)
      have "w \<le> max 1 (m - collected)" using m(1) by (simp add: w_def)
      with m(2) w(1) have "w = max 1 (m - collected)" by linarith
      with m(1) have "wanted max_bytes collected ?rest = ?slice" by (simp add: wanted_def)
      moreover have "?slice \<noteq> ?rest"
      proof
        assume "?slice = ?rest"
        then have "length ?rest = nat w" using len by metis
        then have "int (length doc) - cursor = w" using w(1) Suc.prems(3) by simp
        then show False using True by simp
      qed
      ultimately show ?thesis unfolding step using True full w(1) len m by auto
    next
      case go: False
      then have split: "wanted max_bytes collected ?rest = ?slice @ wanted max_bytes (collected + w) (drop (nat w) ?rest)"
        using w(1) len by (intro wanted_split) (auto split: option.splits)
      have ahead: "drop (nat (cursor + w)) doc = drop (nat w) ?rest"
        using w(1) Suc.prems(3) by (simp add: nat_add_distrib add.commute)
      have fuel: "nat (int (length doc) - (cursor + w)) < n" using Suc.prems(5) True w(1) by linarith
      obtain pages' c' where IH: "read_slices n sv doc_id max_bytes chunk rid mr (acc @ ?slice) (collected + w) (cursor + w) (cursor + w) (Suc pages) c1 =
        (Some (Inr ((acc @ ?slice) @ wanted max_bytes (collected + w) (drop (nat w) ?rest),
          cursor + w + int (length (wanted max_bytes (collected + w) (drop (nat w) ?rest))), pages',
          wanted max_bytes (collected + w) (drop (nat w) ?rest) \<noteq> drop (nat w) ?rest)), c')"
        using Suc.IH [of "cursor + w" "acc @ ?slice" "collected + w" "Suc pages" c1] Suc.prems(1-4) fuel w(1) unfolding ahead by auto
      define tail where "tail = drop (nat w) ?rest"
      define got where "got = wanted max_bytes (collected + w) tail"
      have rest: "?rest = ?slice @ tail" unfolding tail_def by (rule append_take_drop_id [symmetric])
      have all: "wanted max_bytes collected ?rest = ?slice @ got" unfolding split got_def tail_def ..
      have trunc: "wanted max_bytes collected ?rest \<noteq> ?rest \<longleftrightarrow> got \<noteq> tail"
        unfolding all using rest by (metis same_append_eq)
      have "read_slices (Suc n) sv doc_id max_bytes chunk rid mr acc collected cursor cursor pages c =
          (Some (Inr ((acc @ ?slice) @ got, cursor + w + int (length got), pages', got \<noteq> tail)), c')"
        using IH go True w(1) len unfolding step tail_def [symmetric] got_def [symmetric] by simp
      moreover have "(acc @ ?slice) @ got = acc @ wanted max_bytes collected ?rest"
        "cursor + w + int (length got) = cursor + int (length (wanted max_bytes collected ?rest))"
        unfolding all using len w(1) by auto
      ultimately show ?thesis unfolding trunc by auto
    qed
  qed
qed simp

end
