(* ===== verification/Dates.thy ===== *)
theory Dates
  imports Values
begin

text \<open>
  Calendar dates and what \<open>float\<close> makes of text, as far as the code compares and prints them;
  \<open>date.fromisoformat\<close> and \<open>float\<close> are parameters.
\<close>

text \<open>A date is year, month and day.\<close>

type_synonym date = "int \<times> int \<times> int"

definition date_le :: "date \<Rightarrow> date \<Rightarrow> bool" where
  "date_le a b \<longleftrightarrow> (case (a, b) of ((y, m, d), (y', m', d')) \<Rightarrow>
     y < y' \<or> (y = y' \<and> (m < m' \<or> (m = m' \<and> d \<le> d'))))"

definition pad :: "nat \<Rightarrow> int \<Rightarrow> string" where
  "pad n i = (let s = show_int i in replicate (n - length s) (CHR ''0'') @ s)"

definition isoformat :: "date \<Rightarrow> string" where
  "isoformat t = (case t of (y, m, d) \<Rightarrow> pad 4 y @ ''-'' @ pad 2 m @ ''-'' @ pad 2 d)"

text \<open>What \<open>float(text)\<close> can give.\<close>

datatype float_value = FiniteFloat rat | Infinite | NotANumber

text \<open>\<open>int(x)\<close> of a float.\<close>

fun int_of_float :: "float_value \<Rightarrow> int result" where
  "int_of_float (FiniteFloat q) = Inr (if q < 0 then - \<lfloor>- q\<rfloor> else \<lfloor>q\<rfloor>)"
| "int_of_float Infinite = Inl (OverflowError ''cannot convert float infinity to integer'')"
| "int_of_float NotANumber = Inl (ValueError ''cannot convert float NaN to integer'')"

record date_env =
  dt_float :: "string \<Rightarrow> float_value option"
  dt_fromisoformat :: "string \<Rightarrow> date option"

lemma date_le_refl [simp]: "date_le a a"
  by (auto simp: date_le_def split: prod.split)

lemma date_le_trans: "date_le a b \<Longrightarrow> date_le b c \<Longrightarrow> date_le a c"
  by (auto simp: date_le_def split: prod.splits)

lemma date_le_total: "date_le a b \<or> date_le b a"
  by (auto simp: date_le_def split: prod.splits)

end
