(* ===== verification/Retriever.thy ===== *)
theory Retriever
  imports Stage_Handlers Sciverse_Client Dates
begin

text \<open>
  The benchmark retriever (\<open>SciverseBenchmarkRetriever\<close> in \<open>src/evaluation/literature_retriever.py\<close>):
  one search bounded by the year of the cutoff, then every hit is checked against the cutoff and
  its text is read again; each external call is reserved before it is made.

  The cached transport is a parameter, and so are \<open>float\<close> on text and \<open>date.fromisoformat\<close>.
\<close>

section \<open>Publication dates\<close>

text \<open>The number a candidate stands for: \<open>None\<close> skips it.\<close>

fun year_number :: "date_env \<Rightarrow> json \<Rightarrow> int result option" where
  "year_number env (JInt i) = Some (Inr i)"
| "year_number env (JFloat s) = map_option int_of_float (dt_float env s)"
| "year_number env (JNonFinite s) = map_option int_of_float (dt_float env s)"
| "year_number env (JStr s) = map_option int_of_float (dt_float env (strip s))"
| "year_number env v = None"

fun year_of :: "date_env \<Rightarrow> json list \<Rightarrow> int option result" where
  "year_of env [] = Inr None"
| "year_of env (v # vs) = (case year_number env v of
     None \<Rightarrow> year_of env vs
   | Some (Inl e) \<Rightarrow> Inl e
   | Some (Inr y) \<Rightarrow> if 1000 \<le> y \<and> y \<le> 9999 then Inr (Some y) else year_of env vs)"

text \<open>The first date key with a value decides; a malformed date there is no date.\<close>

definition publication_date :: "date_env \<Rightarrow> json \<Rightarrow> date option result" where
  "publication_date env hit =
     (case filter truthy (map (get_null hit) [''publication_date'', ''publication_published_date'', ''published_at'']) of
        v # vs \<Rightarrow> Inr (dt_fromisoformat env (take 10 (py_str v)))
      | [] \<Rightarrow> bind_result (year_of env [get_null hit ''publication_published_year'', get_null hit ''year''])
          (\<lambda>y. Inr (map_option (\<lambda>y. (y, 12, 31)) y)))"

section \<open>The search\<close>

record cached_transport =
  ct_search :: "string \<Rightarrow> string \<Rightarrow> int \<Rightarrow> json \<Rightarrow> json list result"
  ct_content :: "string \<Rightarrow> string \<Rightarrow> int \<Rightarrow> int \<Rightarrow> json result"

record search_setup =
  ss_transport :: cached_transport
  ss_env :: py_env
  ss_dates :: date_env
  ss_snapshot_id :: string
  ss_attested :: bool
  ss_top_k :: int
  ss_content_limit :: int

definition retriever_init :: "search_setup \<Rightarrow> search_setup result" where
  "retriever_init su = raise_if (blank (ss_snapshot_id su) \<or> ss_top_k su < 1 \<or> ss_top_k su > 20 \<or>
       ss_content_limit su < 256 \<or> ss_content_limit su > MAX_CONTENT_LIMIT)
     (ValueError ''retrieval snapshot identity or bounds are invalid'') (Inr su)"

definition retrieval_manifest :: "search_setup \<Rightarrow> json" where
  "retrieval_manifest su = JObj [(''provider'', JStr ''sciverse''), (''index_snapshot_id'', JStr (ss_snapshot_id su)),
     (''index_snapshot_attested'', JBool (ss_attested su)), (''publication_ready'', JBool (ss_attested su)),
     (''top_k'', JInt (ss_top_k su)), (''content_limit'', JInt (ss_content_limit su)),
     (''cutoff_policy'', JStr ''exact date when available; unknown same-year dates excluded'')]"

text \<open>The hit to read, \<open>None\<close> when it is skipped: document, offset, date.\<close>

definition usable_hit :: "search_setup \<Rightarrow> date \<Rightarrow> (string \<times> int) list \<Rightarrow> json \<Rightarrow> (string \<times> int \<times> date) option result" where
  "usable_hit su cutoff seen hit =
     (if \<not> is_dict hit then Inr None
      else let doc_id = strip (py_str (get_or hit ''doc_id'' (JStr []))) in
        bind_result (publication_date (ss_dates su) hit) (\<lambda>published.
          case (strict_int (get_null hit ''offset''), published) of
            (Some offset, Some t) \<Rightarrow> Inr (if doc_id = [] \<or> offset < 0 \<or> \<not> date_le t cutoff \<or> (doc_id, offset) \<in> set seen
               then None else Some (doc_id, offset, t))
          | _ \<Rightarrow> Inr None))"

definition suboperation :: "search_setup \<Rightarrow> nat \<Rightarrow> string \<Rightarrow> string" where
  "suboperation su index doc_id = ''content:'' @ show_nat index @ '':'' @ take 16 (sha256 (ss_env su) doc_id)"

definition passage_of :: "search_setup \<Rightarrow> string \<Rightarrow> string \<Rightarrow> int \<Rightarrow> date \<Rightarrow> string \<Rightarrow> retrieved_passage" where
  "passage_of su qid doc_id offset t body =
     (let digest = sha256 (ss_env su) body in
      \<lparr>rp_passage_id = ''obs-'' @ take 32 (sha256 (ss_env su) (qid @ ''|'' @ doc_id @ ''|'' @ show_int offset @ ''|'' @ digest)),
       rp_query_id = qid, rp_doc_id = doc_id, rp_text = body, rp_locator = [(''offset'', JInt offset)],
       rp_content_sha256 = digest, rp_publication_date = isoformat t\<rparr>)"

text \<open>The loop over the hits: the calls reserved, in order, and the passages or the exception.\<close>

fun scan_hits ::
  "search_setup \<Rightarrow> string \<Rightarrow> string \<Rightarrow> date \<Rightarrow> nat \<Rightarrow> (string \<times> int) list \<Rightarrow> json list \<Rightarrow> string list \<times> retrieved_passage list result" where
  "scan_hits su op qid cutoff index seen [] = ([], Inr [])"
| "scan_hits su op qid cutoff index seen (hit # hits) =
     (case usable_hit su cutoff seen hit of
        Inl e \<Rightarrow> ([], Inl e)
      | Inr None \<Rightarrow> scan_hits su op qid cutoff (Suc index) seen hits
      | Inr (Some (doc_id, offset, t)) \<Rightarrow>
          (let sub = suboperation su index doc_id in
           case ct_content (ss_transport su) (op @ '':'' @ sub) doc_id offset (ss_content_limit su) of
             Inl e \<Rightarrow> ([sub], Inl e)
           | Inr r \<Rightarrow>
               (let body = strip (content_text r);
                    (subs, ps) = scan_hits su op qid cutoff (Suc index) ((doc_id, offset) # seen) hits
                in (sub # subs, bind_result ps (\<lambda>ps.
                     Inr (if body = [] then ps else passage_of su qid doc_id offset t body # ps))))))"

definition year_filter :: "date \<Rightarrow> json result" where
  "year_filter cutoff = semantic_filters (no_filter\<lparr>sq_lang := ''en'', sq_year_to := Some (JInt (fst cutoff)),
     sq_domain := ''Physical Sciences''\<rparr>)"

definition benchmark_search ::
  "search_setup \<Rightarrow> string \<Rightarrow> string \<Rightarrow> string \<Rightarrow> json \<Rightarrow> string \<Rightarrow> string list \<times> retrieval_result result" where
  "benchmark_search su qid query intent cutoff_value op =
     (case (case cutoff_value of
         JStr s \<Rightarrow> (case dt_fromisoformat (ss_dates su) s of None \<Rightarrow> Inl (ValueError ''Invalid isoformat string'') | Some t \<Rightarrow> Inr t)
       | _ \<Rightarrow> Inl (TypeError ''fromisoformat: argument must be str'')) of
       Inl e \<Rightarrow> ([], Inl e)
     | Inr cutoff \<Rightarrow> (case year_filter cutoff of
         Inl e \<Rightarrow> ([], Inl e)
       | Inr filters \<Rightarrow> (case ct_search (ss_transport su) (op @ '':search'') query (ss_top_k su) filters of
           Inl e \<Rightarrow> ([''search''], Inl e)
         | Inr hits \<Rightarrow>
             (let (subs, ps) = scan_hits su op qid cutoff 0 [] (take (nat (ss_top_k su)) hits)
              in (''search'' # subs, bind_result ps (\<lambda>ps.
                   let r = \<lparr>rr_passages = ps, rr_usage = \<lparr>ug_calls = 1 + int (length subs), ug_tokens = 0\<rparr>\<rparr>
                   in bind_result (validate_retrieval (ss_env su) r) (\<lambda>u. Inr r)))))))"

definition benchmark_retriever :: "search_setup \<Rightarrow> retriever" where
  "benchmark_retriever su = \<lparr>rv_provider_id = ''sciverse:'' @ ss_snapshot_id su, rv_search = benchmark_search su\<rparr>"

section \<open>What a search returns\<close>

text \<open>A passage that was read within the cutoff.\<close>

definition within_cutoff :: "search_setup \<Rightarrow> string \<Rightarrow> date \<Rightarrow> retrieved_passage \<Rightarrow> bool" where
  "within_cutoff su qid cutoff p \<longleftrightarrow> rp_query_id p = qid \<and> rp_content_sha256 p = sha256 (ss_env su) (rp_text p) \<and>
     (\<exists>t. date_le t cutoff \<and> rp_publication_date p = isoformat t)"

lemma usable_hit_within: "usable_hit su cutoff seen hit = Inr (Some (doc_id, offset, t)) \<Longrightarrow> date_le t cutoff"
  by (auto simp: usable_hit_def Let_def bind_result_Inr_iff split: if_splits option.splits)

lemma scan_hits_facts:
  "scan_hits su op qid cutoff index seen hits = (subs, r) \<Longrightarrow> length subs \<le> length hits \<and>
   (\<forall>ps. r = Inr ps \<longrightarrow> length ps \<le> length subs \<and> (\<forall>p \<in> set ps. within_cutoff su qid cutoff p))"
proof (induction hits arbitrary: index seen subs r)
  case (Cons hit hits)
  show ?case
  proof (cases "usable_hit su cutoff seen hit")
    case (Inr u)
    show ?thesis
    proof (cases u)
      case None
      then show ?thesis using Cons Inr by (simp add: le_SucI)
    next
      case (Some x)
      obtain doc_id offset t where x: "x = (doc_id, offset, t)" by (cases x)
      have t: "date_le t cutoff" using Inr Some x usable_hit_within by metis
      let ?c = "ct_content (ss_transport su) (op @ '':'' @ suboperation su index doc_id) doc_id offset (ss_content_limit su)"
      show ?thesis
      proof (cases ?c)
        case (Inl e)
        then show ?thesis using Cons.prems Inr Some x by (auto simp: Let_def)
      next
        case c: (Inr v)
        obtain subs' r' where rec: "scan_hits su op qid cutoff (Suc index) ((doc_id, offset) # seen) hits = (subs', r')" by fastforce
        have "subs = suboperation su index doc_id # subs'"
          "r = bind_result r' (\<lambda>ps. Inr (if strip (content_text v) = [] then ps
             else passage_of su qid doc_id offset t (strip (content_text v)) # ps))"
          using Cons.prems Inr Some x c rec by (simp_all add: Let_def)
        moreover have "within_cutoff su qid cutoff (passage_of su qid doc_id offset t body)" for body
          unfolding within_cutoff_def using t by (intro conjI exI [of _ t]) (simp_all add: passage_of_def Let_def)
        ultimately show ?thesis using Cons.IH [OF rec] by (auto simp: bind_result_Inr_iff split: if_splits)
      qed
    qed
  qed (use Cons.prems in auto)
qed simp

text \<open>Every reservation of a search is one call of the transport, at most one per hit and one for the search.\<close>

lemma benchmark_search_facts:
  assumes "benchmark_search su qid query intent (JStr s) op = (subs, out)"
  shows "int (length subs) \<le> 1 + max 0 (ss_top_k su)"
    and "out = Inr r \<Longrightarrow> ug_calls (rr_usage r) = int (length subs) \<and> validate_retrieval (ss_env su) r = Inr () \<and>
      int (length (rr_passages r)) \<le> max 0 (ss_top_k su) \<and>
      (\<exists>cutoff. dt_fromisoformat (ss_dates su) s = Some cutoff \<and> (\<forall>p \<in> set (rr_passages r). within_cutoff su qid cutoff p))"
proof -
  let ?scan = "\<lambda>cutoff hits. scan_hits su op qid cutoff 0 [] (take (nat (ss_top_k su)) hits)"
  have scan: "int (length (fst (?scan cutoff hits))) \<le> max 0 (ss_top_k su)" for cutoff hits
  proof -
    have "length (fst (?scan cutoff hits)) \<le> length (take (nat (ss_top_k su)) hits)"
      using scan_hits_facts [of su op qid cutoff 0 "[]" "take (nat (ss_top_k su)) hits"] by (metis prod.collapse)
    also have "\<dots> \<le> nat (ss_top_k su)" by simp
    finally show ?thesis by linarith
  qed
  show "int (length subs) \<le> 1 + max 0 (ss_top_k su)"
  proof (cases "\<exists>cutoff hits. subs = ''search'' # fst (?scan cutoff hits)")
    case True
    then obtain cutoff hits where "subs = ''search'' # fst (?scan cutoff hits)" by blast
    with scan [of cutoff hits] show ?thesis by simp
  next
    case False
    then have "length subs \<le> 1" using assms
      by (auto simp: benchmark_search_def Let_def case_prod_unfold split: option.splits sum.splits)
    then show ?thesis by linarith
  qed
  assume r: "out = Inr r"
  have "\<exists>cutoff hits ps. dt_fromisoformat (ss_dates su) s = Some cutoff \<and> snd (?scan cutoff hits) = Inr ps \<and>
      subs = ''search'' # fst (?scan cutoff hits) \<and> validate_retrieval (ss_env su) r = Inr () \<and>
      r = \<lparr>rr_passages = ps, rr_usage = \<lparr>ug_calls = 1 + int (length (fst (?scan cutoff hits))), ug_tokens = 0\<rparr>\<rparr>"
    using assms r by (auto simp: benchmark_search_def Let_def case_prod_unfold bind_result_Inr_iff split: option.splits sum.splits)
  then obtain cutoff hits ps where c: "dt_fromisoformat (ss_dates su) s = Some cutoff" "snd (?scan cutoff hits) = Inr ps"
      "subs = ''search'' # fst (?scan cutoff hits)" "validate_retrieval (ss_env su) r = Inr ()"
      "r = \<lparr>rr_passages = ps, rr_usage = \<lparr>ug_calls = 1 + int (length (fst (?scan cutoff hits))), ug_tokens = 0\<rparr>\<rparr>"
    by blast
  have "length ps \<le> length (fst (?scan cutoff hits)) \<and> (\<forall>p \<in> set ps. within_cutoff su qid cutoff p)"
    using scan_hits_facts [of su op qid cutoff 0 "[]" "take (nat (ss_top_k su)) hits"] c(2) by (metis prod.collapse)
  with c scan [of cutoff hits]
  show "ug_calls (rr_usage r) = int (length subs) \<and> validate_retrieval (ss_env su) r = Inr () \<and>
      int (length (rr_passages r)) \<le> max 0 (ss_top_k su) \<and>
      (\<exists>cutoff. dt_fromisoformat (ss_dates su) s = Some cutoff \<and> (\<forall>p \<in> set (rr_passages r). within_cutoff su qid cutoff p))"
    by auto
qed

text \<open>A hit whose year has no integer stops the whole search.\<close>

definition endless_year :: "date_env \<Rightarrow> json \<Rightarrow> bool" where
  "endless_year env hit \<longleftrightarrow> is_dict hit \<and>
     list_all (\<lambda>k. \<not> truthy (get_null hit k)) [''publication_date'', ''publication_published_date'', ''published_at''] \<and>
     (case year_number env (get_null hit ''publication_published_year'') of Some (Inl e) \<Rightarrow> True | _ \<Rightarrow> False)"

lemma endless_year_raises: "endless_year (ss_dates su) hit \<Longrightarrow> \<exists>e. usable_hit su cutoff seen hit = Inl e"
  by (auto simp: endless_year_def usable_hit_def Let_def publication_date_def split: option.splits sum.splits)

lemma scan_hits_raises:
  "hit \<in> set hits \<Longrightarrow> endless_year (ss_dates su) hit \<Longrightarrow> \<exists>e. snd (scan_hits su op qid cutoff index seen hits) = Inl e"
proof (induction hits arbitrary: index seen)
  case (Cons h hits)
  show ?case
  proof (cases "usable_hit su cutoff seen h")
    case (Inr u)
    with Cons.prems endless_year_raises have "hit \<in> set hits" by (metis Inl_Inr_False set_ConsD)
    then show ?thesis using Inr Cons.IH [OF _ Cons.prems(2)]
      by (auto simp: Let_def split: option.split prod.split sum.split) (metis bind_result_simps(1) snd_conv)+
  qed simp
qed simp

end
