(* ===== verification/Literature_Properties.thy ===== *)
theory Literature_Properties
  imports Sciverse_Laws Retriever Benchmark_Properties
begin

text \<open>
  Properties of the literature client: what its retries amount to, that its page loop ends, that a
  read document is the document served; and two ways in which the service defeats it.
\<close>

section \<open>Retries\<close>

text \<open>
  \<open>_request\<close> makes \<open>max(1, max_retries)\<close> attempts at most and stops at the first that succeeds or is
  not worth repeating (a status other than 429, 500, 502, 503, or a failure that cannot be
  described).  Its result is the outcome of that attempt, and it has slept the pauses of the
  attempts before it: \<open>2\<^sup>k\<close> seconds, and \<open>min(3 \<cdot> 2\<^sup>k, 30)\<close> after a 429.
\<close>

theorem request_outcome_is_last_attempt:
  "let outcome = (\<lambda>k. sv_reply sv (cn_exchanges c + k) rq);
       pause = (\<lambda>k. pause_after sv rq k (outcome k));
       k = last_attempt pause (nat (max 1 max_retries))
   in request_raw sv max_retries rq c = (attempt_result sv rq (outcome k),
        c\<lparr>cn_exchanges := cn_exchanges c + Suc k, cn_slept := cn_slept c @ map (\<lambda>i. the (pause i)) [0..<k]\<rparr>) \<and>
      k < nat (max 1 max_retries) \<and> list_all (\<lambda>i. pause i \<noteq> None) [0..<k]"
proof -
  let ?n = "nat (max 1 max_retries)" and ?pause = "\<lambda>k. pause_after sv rq k (sv_reply sv (cn_exchanges c + k) rq)"
  obtain k where k: "k < ?n" "\<forall>i < k. ?pause i \<noteq> None" "k = ?n - 1 \<or> ?pause k = None"
    by (rule last_attempt_exists [of ?n ?pause]) (simp_all add: max_def)
  have "last_attempt ?pause ?n = k" by (rule last_attempt_unique [OF k])
  with attempts_loop_run [of k ?n sv rq 0 c] k show ?thesis by (simp add: Let_def request_raw_def list_all_iff)
qed

text \<open>
  An error reply whose \<open>code\<close> is a number makes the description of the failure itself raise a
  \<open>TypeError\<close>: the request is not retried although its status is worth it, and the server's diagnosis
  is lost.
\<close>

theorem numeric_error_code_hides_failure:
  assumes "sv_reply sv (cn_exchanges c) rq = HttpError st raw reason"
    and "\<not> blank raw" and "sv_loads sv raw = Some (JObj [(''code'', JInt n), (''message'', JStr m)])" and "n \<noteq> 0"
  shows "request_raw sv max_retries rq c = (Inl (TypeError ''sequence item: expected str instance''),
     c\<lparr>cn_exchanges := Suc (cn_exchanges c)\<rparr>)"
proof -
  have "failure sv st raw reason rq = Inl (TypeError ''sequence item: expected str instance'')"
    using assms(2-4) by (simp add: failure_def Let_def get_null_def py_or_def)
  then show ?thesis using assms(1)
    by (cases "nat (max 1 max_retries)") (auto simp: request_raw_def exchange_def)
qed

definition down_service :: service where
  "down_service = \<lparr>sv_reply = (\<lambda>n rq. HttpError 503 ''x'' ''Service Unavailable''), sv_draw = (\<lambda>n. \<lparr>ad_ts = [], ad_uuid = [], ad_latency_ms = JInt 0\<rparr>),
     sv_loads = (\<lambda>s. Some (JObj [(''code'', JInt 503), (''message'', JStr ''m'')])), sv_sha256 = id\<rparr>"

definition new_client :: client where
  "new_client = \<lparr>cn_exchanges = 0, cn_slept = [], cn_audit = []\<rparr>"

theorem numeric_error_code_hides_failure_witness:
  "retry_status 503 \<and> request_raw down_service 4 (get ''/content'' []) new_client =
     (Inl (TypeError ''sequence item: expected str instance''), new_client\<lparr>cn_exchanges := Suc 0\<rparr>)"
proof -
  have "\<not> blank ''x''" by code_simp
  then show ?thesis
    using numeric_error_code_hides_failure [of down_service new_client "get ''/content'' []" 503 "''x''"
        "''Service Unavailable''" 503 "''m''" 4]
    by (simp add: down_service_def new_client_def retry_status_def)
qed

section \<open>Loops over the service\<close>

text \<open>
  Under a limit the page loop ends whatever the service answers, after at most as many requests as
  the limit, and yields no more rows than the limit; a page size below one is refused.
\<close>

theorem page_loop_ends:
  assumes "1 \<le> limit"
    and "iter_meta_search (nat limit) sv a query page_size (Some limit) c = ((rows, e), c')"
  shows "e \<noteq> OutOfFuel \<and> int (length rows) \<le> limit"
proof (cases "1 \<le> page_size")
  case True
  then have "1 \<le> min page_size MAX_PAGE_SIZE" by (simp add: MAX_PAGE_SIZE_def)
  with iter_pages_limited [OF assms(2) [unfolded iter_meta_search_def]] assms(1) show ?thesis by simp
next
  case False
  then have "min page_size MAX_PAGE_SIZE < 1" by simp
  then have "meta_search sv a query 1 (min page_size MAX_PAGE_SIZE) JNull c =
      (Inl (SciverseError ''meta-search page and page_size start at 1''), c)"
    by (simp add: meta_search_def Let_def b_lift_def)
  with assms show ?thesis by (cases "nat limit") (auto simp: iter_meta_search_def)
qed

text \<open>A service that always has a full page of rows and a new cursor.\<close>

definition endless_service :: service where
  "endless_service = \<lparr>sv_reply = (\<lambda>n rq. HttpOk ''x''), sv_draw = (\<lambda>n. \<lparr>ad_ts = [], ad_uuid = [], ad_latency_ms = JInt 0\<rparr>),
     sv_loads = (\<lambda>s. Some (JObj [(''results'', JList [JObj []])])), sv_sha256 = id\<rparr>"

definition plain_args :: meta_args where
  "plain_args = \<lparr>ma_filters = [], ma_sort = [], ma_fields = [], ma_facets = [], ma_request_id = [], ma_max_retries = 1\<rparr>"

theorem page_loop_ends_witness:
  "let ((rows, e), c') = iter_meta_search 2 endless_service plain_args ''q'' 1 (Some 2) new_client in
   e \<noteq> OutOfFuel \<and> int (length rows) \<le> 2"
proof -
  obtain rows e c' where r: "iter_meta_search 2 endless_service plain_args ''q'' 1 (Some 2) new_client = ((rows, e), c')"
    by (metis prod.collapse)
  have "nat 2 = (2 :: nat)" by simp
  with page_loop_ends [of 2 endless_service plain_args "''q''" 1 new_client rows e c'] r show ?thesis by simp
qed

text \<open>
  Reading a document from a service that serves its bytes gives the bytes from the offset on, cut
  at \<open>max_bytes\<close> (one byte at least), with the end offset, the byte count and the digest of that
  text, marked truncated exactly when something was cut; as many requests as bytes, and one, are
  enough.  The text is taken to be ASCII, where bytes and characters agree.
\<close>

theorem read_document_complete:
  assumes "serves sv doc_id doc" and "ascii doc" and "1 \<le> chunk_limit"
  shows "\<exists>d c'. read_document (Suc (length doc)) sv doc_id offset max_bytes chunk_limit rid mr c = (Some (Inr d), c') \<and>
    dc_text d = wanted max_bytes 0 (drop (nat offset) doc) \<and> dc_bytes d = length (dc_text d) \<and>
    dc_start_offset d = max 0 offset \<and> dc_end_offset d = max 0 offset + int (dc_bytes d) \<and>
    (dc_truncated d \<longleftrightarrow> dc_text d \<noteq> drop (nat offset) doc) \<and> dc_content_sha256 d = sv_sha256 sv (dc_text d)"
proof -
  let ?text = "wanted max_bytes 0 (drop (nat offset) doc)"
  have "nat (max 0 offset) = nat offset" by simp
  moreover have "nat (int (length doc) - max 0 offset) < Suc (length doc)" by linarith
  ultimately obtain pages c' where "read_slices (Suc (length doc)) sv doc_id max_bytes chunk_limit rid mr [] 0 (max 0 offset) (max 0 offset) 0 c =
      (Some (Inr (?text, max 0 offset + int (length ?text), pages, ?text \<noteq> drop (nat offset) doc)), c')"
    using read_slices_served [OF assms(1,2) _ assms(3), of "max 0 offset" "Suc (length doc)" max_bytes rid mr "[]" 0 0 c] by auto
  moreover have "ascii ?text"
    using assms(2) by (auto simp: wanted_def ascii_drop ascii_slice split: option.split)
  then have "utf8_length ?text = length ?text" by (rule utf8_ascii)
  ultimately show ?thesis by (auto simp: read_document_def Let_def)
qed

text \<open>A service whose replies carry offset and limit in unary.\<close>

definition unary_service :: "(int \<Rightarrow> int \<Rightarrow> (string \<times> json) list) \<Rightarrow> service" where
  "unary_service reply = \<lparr>sv_reply = (\<lambda>n rq. case map snd (rq_params rq) of
       [d, JInt offset, JInt limit] \<Rightarrow> HttpOk (replicate (nat offset) (CHR ''o'') @ replicate (nat limit) (CHR ''l'')) | _ \<Rightarrow> UrlError []),
     sv_draw = (\<lambda>n. \<lparr>ad_ts = [], ad_uuid = [], ad_latency_ms = JInt 0\<rparr>),
     sv_loads = (\<lambda>s. Some (JObj (reply (int (length (filter (\<lambda>c. c = CHR ''o'') s))) (int (length (filter (\<lambda>c. c = CHR ''l'') s)))))),
     sv_sha256 = id\<rparr>"

lemma unary_answers: "answers (unary_service reply) ''d'' reply"
proof -
  have "\<not> py_space (CHR ''l'')" by code_simp
  then have "\<not> blank (replicate (nat offset) (CHR ''o'') @ replicate (nat limit) (CHR ''l''))" if "1 \<le> limit" for offset limit :: int
    using that by (auto simp: blank_iff)
  then show ?thesis by (auto simp: answers_def unary_service_def get_def)
qed

theorem read_document_complete_witness:
  "\<exists>d c'. read_document 6 (unary_service (slice_fields ''abcde'')) ''d'' 1 (Some 3) 2 [] 1 new_client = (Some (Inr d), c') \<and>
     dc_text d = ''bcd'' \<and> dc_truncated d"
proof -
  have "serves (unary_service (slice_fields ''abcde'')) ''d'' ''abcde''" unfolding serves_def by (rule unary_answers)
  moreover have "ascii ''abcde''" by code_simp
  moreover have "wanted (Some 3) 0 (drop (nat 1) ''abcde'') = ''bcd''" "drop (nat 1) ''abcde'' \<noteq> ''bcd''" by code_simp+
  ultimately show ?thesis
    using read_document_complete [of "unary_service (slice_fields ''abcde'')" "''d''" "''abcde''" 2 1 "Some 3" "[]" 1 new_client]
    by (auto simp: numeral_eq_Suc)
qed

text \<open>
  A service that reports more text while giving none, each time one byte further, keeps
  \<open>read_document\<close> reading for ever, even under \<open>max_bytes\<close>: no number of requests is enough.
\<close>

theorem read_document_can_spin:
  assumes "stalls sv doc_id" and "1 \<le> max_bytes"
  shows "fst (read_document fuel sv doc_id offset (Some max_bytes) chunk_limit rid mr c) = None"
proof -
  have "fst (read_slices fuel sv doc_id (Some max_bytes) chunk_limit rid mr [] 0 (max 0 offset) (max 0 offset) 0 c) = None"
    using assms by (intro stalled_read_goes_on) auto
  then show ?thesis by (auto simp: read_document_def Let_def split: prod.split option.split)
qed

theorem read_document_can_spin_witness:
  "fst (read_document 1000 (unary_service (\<lambda>offset limit. [(''text'', JStr []), (''next_offset'', JInt (offset + 1)), (''more'', JBool True)]))
     ''d'' 0 (Some 10) 4096 [] 1 new_client) = None"
  using unary_answers by (intro read_document_can_spin) (simp_all add: stalls_def)

section \<open>Retrieval under a cutoff\<close>


definition small_setup :: "json \<Rightarrow> search_setup" where
  "small_setup year = \<lparr>ss_transport = \<lparr>ct_search = (\<lambda>op q k filters. Inr [JObj [(''doc_id'', JStr ''d''), (''offset'', JInt 0),
       (''publication_published_year'', year)]]), ct_content = (\<lambda>op doc offset limit. Inr (JObj [(''text'', JStr '' x '')]))\<rparr>,
     ss_env = sample_env, ss_dates = \<lparr>dt_float = (\<lambda>s. if s = ''nan'' then Some NotANumber else None),
       dt_fromisoformat = (\<lambda>s. if s = ''2020-01-01'' then Some (2020, 1, 1) else None)\<rparr>,
     ss_snapshot_id = ''i'', ss_attested = True, ss_top_k = 1, ss_content_limit = 4000\<rparr>"

lemma small_retrieval:
  "case retrieve_one small_env (benchmark_retriever (small_setup (JInt 2019))) small_task (small_invocation ''o'') ''support'' 0 ''q'' {}
     prepaid_bench of (Inl e, s') \<Rightarrow> False | (Inr (ps, seen', c), s') \<Rightarrow> map rp_text ps = [''x'']"
  by code_simp


text \<open>
  A single hit with a year that is no finite number (the text \<open>inf\<close> or \<open>nan\<close>, or such a JSON literal)
  and no date voids the whole search: the conversion raises instead of treating the year as unknown.
\<close>

theorem nonfinite_year_voids_search:
  assumes "dt_fromisoformat (ss_dates su) text = Some cutoff" and "year_filter cutoff = Inr filters"
    and "ct_search (ss_transport su) (op @ '':search'') query (ss_top_k su) filters = Inr hits"
    and "hit \<in> set (take (nat (ss_top_k su)) hits)" and "endless_year (ss_dates su) hit"
  shows "\<exists>e. snd (benchmark_search su qid query intent (JStr text) op) = Inl e"
  using scan_hits_raises [OF assms(4,5), of op qid cutoff 0 "[]"] assms(1-3)
  by (auto simp: benchmark_search_def Let_def split: prod.split)

theorem nonfinite_year_voids_search_witness:
  "\<exists>e. snd (benchmark_search (small_setup (JStr ''nan'')) ''support-0'' ''q'' ''support'' (JStr ''2020-01-01'') ''o'') = Inl e"
proof -
  let ?su = "small_setup (JStr ''nan'')"
  let ?hit = "JObj [(''doc_id'', JStr ''d''), (''offset'', JInt 0), (''publication_published_year'', JStr ''nan'')]"
  have "dt_fromisoformat (ss_dates ?su) ''2020-01-01'' = Some (2020, 1, 1)" by (simp add: small_setup_def)
  moreover obtain filters where "year_filter (2020, 1, 1) = Inr filters"
    by (auto simp: year_filter_def semantic_filters_def no_filter_def Let_def)
  moreover have "ct_search (ss_transport ?su) (''o'' @ '':search'') ''q'' (ss_top_k ?su) filters = Inr [?hit]"
    by (simp add: small_setup_def)
  moreover have "?hit \<in> set (take (nat (ss_top_k ?su)) [?hit])" by (simp add: small_setup_def)
  moreover have "endless_year (ss_dates ?su) ?hit" by code_simp
  ultimately show ?thesis by (rule nonfinite_year_voids_search)
qed

end
