(* ===== verification/Challenge.thy ===== *)
theory Challenge
  imports Stage_Handlers Dates
begin

text \<open>
  The sealed challenge set and its scorer (\<open>src/evaluation/challenge.py\<close>): validation of the
  challenges with their gold evidence and of the evidence snapshots, validation of predictions and
  of the ledgers that commit to them, and the scores.

  Files are lists of JSON rows.  \<open>date.fromisoformat\<close>, float literals, SHA-256 and the resolution of
  a ledger path are parameters; probabilities and scores are rationals.
\<close>

section \<open>Rows\<close>

record score_env =
  se_env :: py_env
  se_dates :: date_env
  se_float :: "string \<Rightarrow> rat option"

definition bench_error :: "string \<Rightarrow> py_exn" where
  "bench_error m = BenchmarkError m"

definition COUNTER_RELATIONS :: "string list" where
  "COUNTER_RELATIONS = [''CONTRADICTS'', ''BOUNDS'', ''PRECEDENT_FOR'']"

definition SCORED_RELATIONS :: "string list" where
  "SCORED_RELATIONS = COUNTER_RELATIONS @ [''SUPPORTS'']"

text \<open>The lines of a JSONL file.\<close>

fun read_jsonl :: "(string \<Rightarrow> json option) \<Rightarrow> string list \<Rightarrow> json list result" where
  "read_jsonl loads [] = Inr []"
| "read_jsonl loads (l # ls) = (if blank l then read_jsonl loads ls
     else (case loads l of
       None \<Rightarrow> Inl (bench_error ''invalid JSON'')
     | Some v \<Rightarrow> raise_if (\<not> is_dict v) (bench_error ''row must be an object'')
         (bind_result (read_jsonl loads ls) (\<lambda>vs. Inr (v # vs)))))"

definition require :: "json \<Rightarrow> string list \<Rightarrow> 'a result \<Rightarrow> 'a result" where
  "require row names k = raise_if (list_ex (field_missing row) names) (bench_error ''missing fields'') k"

definition parse_date :: "score_env \<Rightarrow> json \<Rightarrow> date result" where
  "parse_date se v = (case dt_fromisoformat (se_dates se) (py_str v) of
     None \<Rightarrow> Inl (bench_error ''date must be YYYY-MM-DD'') | Some t \<Rightarrow> Inr t)"

definition is_sha256 :: "json \<Rightarrow> bool" where
  "is_sha256 v \<longleftrightarrow> is_hex64 (py_str v)"

definition locator_of :: "json \<Rightarrow> (string \<times> int) result" where
  "locator_of v = raise_if (\<not> is_dict v) (bench_error ''locator must be an object'')
     (case filter (\<lambda>(k, w). w \<noteq> JNull) (map (\<lambda>k. (k, get_null v k)) [''offset'', ''page_no'']) of
       [(name, w)] \<Rightarrow> (case strict_int w of
           None \<Rightarrow> Inl (bench_error ''locator must be a non-negative integer'')
         | Some i \<Rightarrow> raise_if (i < 0) (bench_error ''locator must be a non-negative integer'') (Inr (name, i)))
     | _ \<Rightarrow> Inl (bench_error ''locator requires exactly one of offset/page_no''))"

text \<open>\<open>v not in {...}\<close> as a guard.\<close>

definition check_in :: "json \<Rightarrow> string list \<Rightarrow> string \<Rightarrow> 'a result \<Rightarrow> 'a result" where
  "check_in v names m k = bind_result (json_in v names) (\<lambda>ok. raise_if (\<not> ok) (bench_error m) k)"

section \<open>Challenges\<close>

definition CHALLENGE_FIELDS :: "string list" where
  "CHALLENGE_FIELDS = [''schema_version'', ''challenge_id'', ''benchmark_track'', ''split'', ''task_family'',
     ''leakage_group'', ''prompt'', ''cutoff_date'', ''counterevidence_exists'', ''expected_decision'',
     ''accepted_evidence'', ''construction_provenance'']"

definition EVIDENCE_FIELDS :: "string list" where
  "EVIDENCE_FIELDS = [''evidence_id'', ''doc_id'', ''relation'', ''locator'', ''content_sha256'', ''publication_date'',
     ''oracle_scope'', ''snapshot_id'', ''source_url'', ''doi'', ''license_spdx'', ''source_locator'']"

definition AVAILABLE :: json where "AVAILABLE = JStr ''available_by_cutoff''"
definition POST_CUTOFF :: json where "POST_CUTOFF = JStr ''post_cutoff_validation''"

text \<open>One piece of gold evidence; \<open>seen\<close> are the evidence ids so far.\<close>

definition check_evidence :: "score_env \<Rightarrow> json \<Rightarrow> date \<Rightarrow> string list \<Rightarrow> json \<Rightarrow> string list result" where
  "check_evidence se track cutoff seen item =
     raise_if (\<not> is_dict item) (bench_error ''evidence must be an object'')
     (require item EVIDENCE_FIELDS
     (raise_if (\<not> has_exact_fields item EVIDENCE_FIELDS) (bench_error ''unexpected evidence fields'')
     (let eid = py_str (get_null item ''evidence_id''); scope = get_null item ''oracle_scope'' in
      raise_if (eid \<in> set seen) (bench_error ''duplicate evidence_id'')
     (check_in (get_null item ''relation'') SCORED_RELATIONS ''unsupported evidence relation''
     (bind_result (locator_of (get_null item ''locator'')) (\<lambda>l.
      raise_if (\<not> is_sha256 (get_null item ''content_sha256'')) (bench_error ''invalid content_sha256'')
     (raise_if (\<not> starts_with ''https://'' (py_str (get_null item ''source_url''))) (bench_error ''source_url must use HTTPS'')
     (raise_if (\<not> starts_with ''10.'' (py_lower (py_str (get_null item ''doi'')))) (bench_error ''invalid DOI'')
     (raise_if (get_null item ''license_spdx'' \<noteq> JStr ''CC-BY-4.0'') (bench_error ''unsupported evidence licence'')
     (bind_result (parse_date se (get_null item ''publication_date'')) (\<lambda>published.
      check_in scope [''available_by_cutoff'', ''post_cutoff_validation''] ''invalid oracle_scope''
     (raise_if (scope = AVAILABLE \<and> \<not> date_le published cutoff) (bench_error ''pre-cutoff evidence is dated after cutoff'')
     (raise_if (scope = POST_CUTOFF \<and> date_le published cutoff) (bench_error ''post-cutoff evidence is not after cutoff'')
     (raise_if (track = JStr ''known_answer'' \<and> scope \<noteq> AVAILABLE) (bench_error ''known-answer gold must be pre-cutoff'')
     (Inr (seen @ [eid]))))))))))))))))"

fun check_all_evidence :: "score_env \<Rightarrow> json \<Rightarrow> date \<Rightarrow> string list \<Rightarrow> json list \<Rightarrow> string list result" where
  "check_all_evidence se track cutoff seen [] = Inr seen"
| "check_all_evidence se track cutoff seen (it # rest) =
     bind_result (check_evidence se track cutoff seen it) (\<lambda>seen'. check_all_evidence se track cutoff seen' rest)"

definition available_evidence :: "json \<Rightarrow> json list" where
  "available_evidence row = filter (\<lambda>it. get_null it ''oracle_scope'' = AVAILABLE) (json_items (get_null row ''accepted_evidence''))"

definition has_relation :: "string list \<Rightarrow> json list \<Rightarrow> bool" where
  "has_relation names items \<longleftrightarrow> list_ex (\<lambda>it. get_null it ''relation'' \<in> JStr ` set names) items"

definition required_relation :: "json \<Rightarrow> string list" where
  "required_relation decision = (if decision = JStr ''SURVIVED'' then [''SUPPORTS'']
     else if decision = JStr ''NARROWED'' then [''BOUNDS'']
     else if decision = JStr ''REFUTED'' then [''CONTRADICTS'', ''PRECEDENT_FOR''] else [])"

text \<open>The checks on one row, after which its ids join the ones seen.\<close>

definition check_challenge :: "score_env \<Rightarrow> string list \<Rightarrow> string list \<Rightarrow> json \<Rightarrow> (string list \<times> string list) result" where
  "check_challenge se ids evidence_ids row =
     require row CHALLENGE_FIELDS
     (raise_if (\<not> has_exact_fields row CHALLENGE_FIELDS) (bench_error ''unexpected challenge fields'')
     (raise_if (\<not> equals_int (se_float se) 1 (get_null row ''schema_version'')) (bench_error ''unsupported schema version or track'')
     (check_in (get_null row ''benchmark_track'') [''known_answer'', ''temporal_holdout''] ''unsupported schema version or track''
     (check_in (get_null row ''split'') [''development'', ''test''] ''unsupported split or decision''
     (check_in (get_null row ''expected_decision'') DECISIONS ''unsupported split or decision''
     (raise_if (\<not> is_json_bool (get_null row ''counterevidence_exists'')) (bench_error ''counterevidence_exists must be boolean'')
     (let cid = py_str (get_null row ''challenge_id''); gold = get_null row ''accepted_evidence'';
          provenance = get_null row ''construction_provenance'' in
      raise_if (cid \<in> set ids) (bench_error ''duplicate challenge_id'')
     (bind_result (parse_date se (get_null row ''cutoff_date'')) (\<lambda>cutoff.
      raise_if (\<not> is_json_list gold) (bench_error ''accepted_evidence must be an array'')
     (bind_result (check_all_evidence se (get_null row ''benchmark_track'') cutoff evidence_ids (json_items gold)) (\<lambda>evidence_ids'.
      raise_if ((get_null row ''counterevidence_exists'' = JBool True) \<noteq> has_relation COUNTER_RELATIONS (available_evidence row))
        (bench_error ''label disagrees with available counterevidence gold'')
     (let needed = required_relation (get_null row ''expected_decision'') in
      raise_if (needed \<noteq> [] \<and> \<not> has_relation needed (available_evidence row))
        (bench_error ''expected decision lacks a compatible gold relation'')
     (raise_if (\<not> has_exact_fields provenance [''source'', ''curator'', ''status'']) (bench_error ''invalid construction provenance fields'')
     (check_in (get_null provenance ''status'') [''draft'', ''independently_checked'', ''frozen''] ''invalid curation status''
     (Inr (ids @ [cid], evidence_ids'))))))))))))))))"

fun check_challenges :: "score_env \<Rightarrow> string list \<Rightarrow> string list \<Rightarrow> json list \<Rightarrow> unit result" where
  "check_challenges se ids evidence_ids [] = Inr ()"
| "check_challenges se ids evidence_ids (row # rows) =
     bind_result (check_challenge se ids evidence_ids row) (\<lambda>(ids', evidence_ids'). check_challenges se ids' evidence_ids' rows)"

text \<open>Groups whose rows are in two splits.\<close>

definition group_split :: "json \<Rightarrow> string \<times> string" where
  "group_split row = (py_str (get_null row ''leakage_group''), py_str (get_null row ''split''))"

definition leaked_groups :: "json list \<Rightarrow> string list" where
  "leaked_groups rows = filter (\<lambda>g. length (remdups (map snd (filter (\<lambda>p. fst p = g) (map group_split rows)))) > 1)
     (sort (remdups (map (fst \<circ> group_split) rows)))"

definition validate_challenges :: "score_env \<Rightarrow> json list \<Rightarrow> unit result" where
  "validate_challenges se rows = bind_result (check_challenges se [] [] rows) (\<lambda>u.
     raise_if (leaked_groups rows \<noteq> []) (bench_error (''leakage groups cross development/test: '' @ join '', '' (leaked_groups rows)))
     (Inr ()))"

section \<open>Snapshots and the seal\<close>

definition SNAPSHOT_FIELDS :: "string list" where
  "SNAPSHOT_FIELDS = [''schema_version'', ''snapshot_id'', ''content'', ''content_sha256'', ''source_url'', ''doi'',
     ''source_locator'', ''retrieved_at'', ''license_spdx'', ''attribution'', ''normalization'', ''publication_date'']"

definition check_snapshot :: "score_env \<Rightarrow> (string \<times> json) list \<Rightarrow> json \<Rightarrow> (string \<times> json) list result" where
  "check_snapshot se indexed row =
     require row SNAPSHOT_FIELDS
     (raise_if (\<not> has_exact_fields row SNAPSHOT_FIELDS) (bench_error ''unexpected snapshot fields'')
     (raise_if (\<not> equals_int (se_float se) 1 (get_null row ''schema_version'')) (bench_error ''unsupported schema version'')
     (let sid = py_str (get_null row ''snapshot_id''); body = py_str (get_null row ''content'') in
      raise_if (sid \<in> fst ` set indexed) (bench_error ''duplicate snapshot_id'')
     (raise_if (blank body \<or> length (py_split body) > 120) (bench_error ''content must contain 1-120 words'')
     (raise_if (get_null row ''content_sha256'' \<noteq> JStr (sha256 (se_env se) body)) (bench_error ''content hash mismatch'')
     (raise_if (\<not> starts_with ''https://'' (py_str (get_null row ''source_url''))) (bench_error ''source_url must use HTTPS'')
     (raise_if (\<not> starts_with ''10.'' (py_lower (py_str (get_null row ''doi'')))) (bench_error ''invalid DOI'')
     (raise_if (get_null row ''license_spdx'' \<noteq> JStr ''CC-BY-4.0'') (bench_error ''only CC-BY-4.0 capsules are publishable'')
     (bind_result (parse_date se (get_null row ''publication_date'')) (\<lambda>t.
      case fromisoformat (se_env se) (replace_z (py_str (get_null row ''retrieved_at''))) of
        None \<Rightarrow> Inl (bench_error ''retrieved_at must be ISO-8601'')
      | Some aware \<Rightarrow> raise_if (\<not> aware) (bench_error ''retrieved_at must include a timezone'')
          (Inr (indexed @ [(sid, row)]))))))))))))"

fun check_snapshots :: "score_env \<Rightarrow> (string \<times> json) list \<Rightarrow> json list \<Rightarrow> (string \<times> json) list result" where
  "check_snapshots se indexed [] = Inr indexed"
| "check_snapshots se indexed (row # rows) = bind_result (check_snapshot se indexed row) (\<lambda>indexed'. check_snapshots se indexed' rows)"

definition CAPSULE_FIELDS :: "string list" where
  "CAPSULE_FIELDS = [''content_sha256'', ''source_url'', ''doi'', ''source_locator'', ''license_spdx'', ''publication_date'']"

definition match_snapshot :: "score_env \<Rightarrow> (string \<times> json) list \<Rightarrow> json \<Rightarrow> string result" where
  "match_snapshot se indexed item = (let sid = py_str (get_null item ''snapshot_id'') in
     case map_of indexed sid of
       None \<Rightarrow> Inl (bench_error ''missing snapshot'')
     | Some snapshot \<Rightarrow>
         raise_if (list_ex (\<lambda>k. \<not> py_equal (se_float se) (get_null item k) (get_null snapshot k)) CAPSULE_FIELDS)
           (bench_error ''snapshot disagrees'')
         (raise_if (\<not> py_equal (se_float se) (get_null item ''locator'') (JObj [(''offset'', JInt 0)]))
           (bench_error ''capsule locator must be offset 0'') (Inr sid)))"

definition validate_snapshots :: "score_env \<Rightarrow> json list \<Rightarrow> json list \<Rightarrow> (nat \<times> nat) result" where
  "validate_snapshots se rows challenges = bind_result (check_snapshots se [] rows) (\<lambda>indexed.
     bind_result (map_result (match_snapshot se indexed) (concat (map (\<lambda>c. json_items (get_null c ''accepted_evidence'')) challenges)))
       (\<lambda>used. raise_if (filter (\<lambda>k. k \<notin> set used) (map fst indexed) \<noteq> []) (bench_error ''unreferenced evidence snapshots'')
         (Inr (length indexed, length (remdups used)))))"

text \<open>\<open>sorted(Counter(keys).items())\<close>\<close>

definition counts_of :: "'a::linorder list \<Rightarrow> ('a \<times> nat) list" where
  "counts_of ks = map (\<lambda>k. (k, length (filter (\<lambda>x. x = k) ks))) (sort (remdups ks))"

definition curation_status :: "json \<Rightarrow> string" where
  "curation_status row = py_str (get_null (get_null row ''construction_provenance'') ''status'')"

text \<open>The seal, with the names and digests of both files and the creation time as arguments.\<close>

definition seal_benchmark ::
  "score_env \<Rightarrow> json list \<Rightarrow> string \<times> string \<Rightarrow> json list \<Rightarrow> string \<times> string \<Rightarrow> string \<Rightarrow> json result" where
  "seal_benchmark se rows cfile snapshots sfile created =
     raise_if (rows = []) (bench_error ''challenge set is empty'')
     (bind_result (validate_challenges se rows) (\<lambda>u.
      bind_result (validate_snapshots se snapshots rows) (\<lambda>(n, used). Inr (JObj [
        (''schema_version'', JInt 1), (''created_at'', JStr created), (''challenge_file'', JStr (fst cfile)),
        (''challenge_sha256'', JStr (snd cfile)), (''evidence_snapshot_file'', JStr (fst sfile)),
        (''evidence_snapshot_sha256'', JStr (snd sfile)), (''challenges'', JInt (int (length rows))),
        (''leakage_groups'', JInt (int (length (remdups (map (\<lambda>r. get_null r ''leakage_group'') rows))))),
        (''counts'', JObj (map (\<lambda>((track, split), n). (track @ '':'' @ split, JInt (int n)))
           (counts_of (map (\<lambda>r. (py_str (get_null r ''benchmark_track''), py_str (get_null r ''split''))) rows)))),
        (''curation_statuses'', JObj (map (\<lambda>(k, n). (k, JInt (int n))) (counts_of (map curation_status rows)))),
        (''publication_ready'', JBool (list_all (\<lambda>r. curation_status r = ''frozen'') rows)),
        (''snapshots'', JInt (int n)), (''referenced_snapshots'', JInt (int used))]))))"

end
