(* ===== verification/Scorer.thy ===== *)
theory Scorer
  imports Challenge
begin

text \<open>
  The scorer (\<open>src/evaluation/challenge.py\<close>, from line 310): predictions, the ledgers that commit
  to them, and the scores of one method against the sealed challenges.
\<close>

section \<open>Predictions\<close>

definition PREDICTION_FIELDS :: "string list" where
  "PREDICTION_FIELDS = [''schema_version'', ''challenge_id'', ''run_id'', ''method_id'', ''status'', ''predicted_decision'',
     ''counterevidence_probability'', ''evidence'', ''calls'', ''tokens'', ''ledger_head'', ''ledger_event_count'',
     ''ledger_relpath'', ''prediction_commitment_sha256'']"

type_synonym evidence_tuple = "string \<times> string \<times> string \<times> int \<times> string"

definition evidence_key :: "json \<Rightarrow> evidence_tuple result" where
  "evidence_key item =
     (let rel = (case jget item ''relation'' of None \<Rightarrow> [] | Some v \<Rightarrow> py_str v) in
      raise_if (\<not> is_dict item) (AttributeError ''get'')
      (raise_if (rel \<notin> set SCORED_RELATIONS) (bench_error ''unsupported evidence relation'')
      (raise_if (\<not> is_sha256 (get_null item ''content_sha256'')) (bench_error ''invalid content_sha256'')
      (bind_result (locator_of (get_null item ''locator'')) (\<lambda>(name, pos).
        Inr (py_lower (strip (case jget item ''doc_id'' of None \<Rightarrow> [] | Some v \<Rightarrow> py_str v)), rel, name, pos,
          py_str (get_null item ''content_sha256'')))))))"

fun hashable :: "json \<Rightarrow> bool" where
  "hashable (JList xs) = False"
| "hashable (JObj kvs) = False"
| "hashable v = True"

text \<open>\<open>set(item) == {...}\<close> of any JSON value.\<close>

definition keys_are :: "json \<Rightarrow> string list \<Rightarrow> bool result" where
  "keys_are v names = (case v of
     JObj kvs \<Rightarrow> Inr (has_exact_fields v names)
   | JList xs \<Rightarrow> raise_if (\<not> list_all hashable xs) (TypeError ''unhashable type'') (Inr (set xs = JStr ` set names))
   | JStr s \<Rightarrow> Inr (set (map (\<lambda>c. [c]) s) = set names)
   | _ \<Rightarrow> Inl (TypeError ''object is not iterable''))"

fun check_predicted :: "json list \<Rightarrow> unit result" where
  "check_predicted [] = Inr ()"
| "check_predicted (it # rest) = bind_result (keys_are it [''doc_id'', ''relation'', ''locator'', ''content_sha256'']) (\<lambda>ok.
     raise_if (\<not> ok) (bench_error ''unexpected fields'')
     (bind_result (evidence_key it) (\<lambda>k. check_predicted rest)))"

text \<open>The POSIX reading of \<open>Path(...)\<close>: absolute, with a parent step, or without the \<open>.jsonl\<close> suffix.\<close>

fun split_path :: "string \<Rightarrow> string list" where
  "split_path [] = [[]]"
| "split_path (c # cs) = (if c = CHR ''/'' then [] # split_path cs
     else case split_path cs of [] \<Rightarrow> [[c]] | p # ps \<Rightarrow> (c # p) # ps)"

definition path_parts :: "string \<Rightarrow> string list" where
  "path_parts s = filter (\<lambda>p. p \<noteq> [] \<and> p \<noteq> ''.'') (split_path s)"

definition unsafe_relpath :: "string \<Rightarrow> bool" where
  "unsafe_relpath s \<longleftrightarrow> starts_with ''/'' s \<or> ''..'' \<in> set (path_parts s) \<or> path_parts s = [] \<or>
     \<not> ends_with ''.jsonl'' (last (path_parts s)) \<or> length (last (path_parts s)) \<le> 6"

definition natural :: "json \<Rightarrow> bool" where
  "natural v \<longleftrightarrow> (case strict_int v of None \<Rightarrow> False | Some i \<Rightarrow> 0 \<le> i)"

definition neutral :: "score_env \<Rightarrow> json \<Rightarrow> bool" where
  "neutral se row \<longleftrightarrow> get_null row ''predicted_decision'' = JStr ''UNRESOLVED'' \<and>
     number_value (se_float se) (get_null row ''counterevidence_probability'') = Some (Some (1 / 2)) \<and>
     get_null row ''evidence'' = JList []"

definition validate_prediction :: "score_env \<Rightarrow> json \<Rightarrow> unit result" where
  "validate_prediction se row =
     require row PREDICTION_FIELDS
     (raise_if (\<not> has_exact_fields row PREDICTION_FIELDS) (bench_error ''unexpected prediction fields'')
     (raise_if (\<not> equals_int (se_float se) 1 (get_null row ''schema_version'')) (bench_error ''unsupported schema version or status'')
     (check_in (get_null row ''status'') [''completed'', ''failed''] ''unsupported schema version or status''
     (check_in (get_null row ''predicted_decision'') DECISIONS ''unsupported predicted_decision''
     (case number_value (se_float se) (get_null row ''counterevidence_probability'') of
       None \<Rightarrow> Inl (bench_error ''probability must be numeric'')
     | Some x \<Rightarrow>
      raise_if (\<not> in_unit x) (bench_error ''probability must be in [0,1]'')
     (raise_if (list_ex (\<lambda>k. \<not> natural (get_null row k)) [''calls'', ''tokens'', ''ledger_event_count''])
        (bench_error ''field must be a non-negative integer'')
     (raise_if (\<not> is_json_list (get_null row ''evidence'')) (bench_error ''evidence must be an array'')
     (bind_result (check_predicted (json_items (get_null row ''evidence''))) (\<lambda>u.
      raise_if (get_null row ''status'' = JStr ''failed'' \<and> \<not> neutral se row) (bench_error ''failed predictions must be neutral UNRESOLVED rows'')
     (raise_if (\<not> is_sha256 (get_null row ''ledger_head'')) (bench_error ''prediction requires ledger SHA-256 head'')
     (raise_if (\<not> is_sha256 (get_null row ''prediction_commitment_sha256'')) (bench_error ''invalid prediction commitment'')
     (raise_if (unsafe_relpath (py_str (get_null row ''ledger_relpath''))) (bench_error ''ledger_relpath must be a safe relative JSONL path'')
     (Inr ())))))))))))))"

section \<open>Ledgers\<close>

text \<open>What a relative path names below the ledger root.\<close>

datatype ledger_file = EscapesRoot | NoFile | LedgerFile "raw_line list"

definition commits :: "score_env \<Rightarrow> json \<Rightarrow> string \<Rightarrow> event \<Rightarrow> bool" where
  "commits se row commitment e \<longleftrightarrow> event_type e = ''benchmark.prediction_committed'' \<and>
     list_all (\<lambda>k. py_equal (se_float se) (get_null (payload e) k) (get_null row k)) [''challenge_id'', ''run_id'', ''method_id''] \<and>
     get_null (payload e) ''prediction_commitment_sha256'' = JStr commitment"

definition verify_prediction_ledger :: "score_env \<Rightarrow> (string \<Rightarrow> ledger_file) \<Rightarrow> json \<Rightarrow> unit result" where
  "verify_prediction_ledger se ledgers row =
     bind_result (prediction_commitment (se_env se) row) (\<lambda>c.
     raise_if (get_null row ''prediction_commitment_sha256'' \<noteq> JStr c) (bench_error ''prediction commitment does not match semantics'')
     (case ledgers (py_str (get_null row ''ledger_relpath'')) of
       EscapesRoot \<Rightarrow> Inl (bench_error ''ledger path escapes ledger root'')
     | NoFile \<Rightarrow> Inl (bench_error ''prediction ledger does not exist'')
     | LedgerFile lines \<Rightarrow>
       bind_result (ledger_verify (se_env se) lines) (\<lambda>receipt.
       raise_if (\<not> report_ok receipt) (bench_error ''invalid prediction ledger'')
       (raise_if (get_null row ''ledger_head'' \<noteq> JStr (report_head_hash receipt) \<or>
           get_null row ''ledger_event_count'' \<noteq> JInt (int (report_event_count receipt)))
         (bench_error ''prediction ledger receipt mismatch'')
       (bind_result (load_locked (se_env se) lines) (\<lambda>events.
        raise_if (length (filter (commits se row c) events) \<noteq> 1)
          (bench_error ''ledger must contain exactly one matching prediction commitment'') (Inr ())))))))"

section \<open>Scores\<close>

text \<open>The expected calibration error; \<open>None\<close> is \<open>nan\<close>.\<close>

definition bin_members :: "nat \<Rightarrow> nat \<Rightarrow> (rat \<times> rat) list \<Rightarrow> (rat \<times> rat) list" where
  "bin_members bins b rows = filter (\<lambda>(l, p). (of_nat b / of_nat bins \<le> p \<and> p < of_nat (b + 1) / of_nat bins) \<or>
     (b = bins - 1 \<and> p = 1)) rows"

definition ece :: "rat list \<Rightarrow> rat list \<Rightarrow> nat \<Rightarrow> rat option" where
  "ece labels probabilities bins = (if labels = [] then None else Some
     (let total = of_nat (length labels);
          rows = zip labels probabilities
      in sum_list (map (\<lambda>b. let members = bin_members bins b rows; n = of_nat (length members) in
           if members = [] then 0
           else n / total * \<bar>sum_list (map fst members) / n - sum_list (map snd members) / n\<bar>) [0..<bins])))"

record scored_item =
  it_challenge_id :: string
  it_benchmark_track :: json
  it_split :: json
  it_task_family :: json
  it_leakage_group :: json
  it_completed :: bool
  it_over_budget :: bool
  it_label :: bool
  it_detected :: bool
  it_true_positive :: bool
  it_false_positive :: bool
  it_decision_correct :: bool
  it_predicted_evidence :: nat
  it_matched_evidence :: nat
  it_replay_precision :: rat
  it_probability :: rat
  it_brier :: rat
  it_calls :: int
  it_tokens :: int

definition probability_of :: "score_env \<Rightarrow> json \<Rightarrow> rat" where
  "probability_of se row = (case number_value (se_float se) (get_null row ''counterevidence_probability'') of
     Some (Some q) \<Rightarrow> q | _ \<Rightarrow> 0)"

definition int_field :: "json \<Rightarrow> string \<Rightarrow> int" where
  "int_field row k = (case strict_int (get_null row k) of Some i \<Rightarrow> i | None \<Rightarrow> 0)"

definition is_counter :: "evidence_tuple \<Rightarrow> bool" where
  "is_counter k \<longleftrightarrow> fst (snd k) \<in> set COUNTER_RELATIONS"

text \<open>One challenge with its prediction; sets of keys are lists without repetition.\<close>

definition score_item :: "score_env \<Rightarrow> int \<Rightarrow> int \<Rightarrow> json \<Rightarrow> json \<Rightarrow> scored_item result" where
  "score_item se call_cap token_cap challenge row =
     bind_result (map_result evidence_key (available_evidence challenge)) (\<lambda>gold.
     bind_result (map_result evidence_key (json_items (get_null row ''evidence''))) (\<lambda>found.
       let predicted = remdups found; matched = filter (\<lambda>k. k \<in> set gold) predicted;
           label = (get_null challenge ''counterevidence_exists'' = JBool True); p = probability_of se row;
           completed = (get_null row ''status'' = JStr ''completed'');
           over = (int_field row ''calls'' > call_cap \<or> int_field row ''tokens'' > token_cap);
           hit = list_ex is_counter matched; claimed = list_ex is_counter predicted
       in Inr \<lparr>it_challenge_id = py_str (get_null challenge ''challenge_id''),
            it_benchmark_track = get_null challenge ''benchmark_track'', it_split = get_null challenge ''split'',
            it_task_family = get_null challenge ''task_family'', it_leakage_group = get_null challenge ''leakage_group'',
            it_completed = completed, it_over_budget = over, it_label = label,
            it_detected = (if label then hit else claimed), it_true_positive = (label \<and> hit \<and> completed \<and> \<not> over),
            it_false_positive = (\<not> label \<and> claimed),
            it_decision_correct = (get_null row ''predicted_decision'' = get_null challenge ''expected_decision'' \<and> completed \<and> \<not> over),
            it_predicted_evidence = length predicted, it_matched_evidence = length matched,
            it_replay_precision = (if predicted = [] then 1 else of_nat (length matched) / of_nat (length predicted)),
            it_probability = p, it_brier = (p - (if label then 1 else 0)) ^ 2,
            it_calls = int_field row ''calls'', it_tokens = int_field row ''tokens''\<rparr>))"

record score_summary =
  sm_method_id :: string
  sm_run_id :: string
  sm_n :: nat
  sm_completed_rate :: rat
  sm_budget_compliance_rate :: rat
  sm_counterevidence_recall :: "rat option"
  sm_false_positive_rate :: "rat option"
  sm_decision_accuracy :: rat
  sm_replay_precision :: "rat option"
  sm_brier_score :: rat
  sm_ece_10 :: "rat option"
  sm_total_calls :: int
  sm_total_tokens :: int

definition rate :: "('a \<Rightarrow> bool) \<Rightarrow> 'a list \<Rightarrow> rat" where
  "rate f xs = of_nat (length (filter f xs)) / of_nat (length xs)"

definition rate_opt :: "('a \<Rightarrow> bool) \<Rightarrow> 'a list \<Rightarrow> rat option" where
  "rate_opt f xs = (if xs = [] then None else Some (rate f xs))"

definition summarize :: "string \<Rightarrow> string \<Rightarrow> scored_item list \<Rightarrow> score_summary" where
  "summarize method run items =
     (let shown = sum_list (map it_predicted_evidence items) in
      \<lparr>sm_method_id = method, sm_run_id = run, sm_n = length items,
       sm_completed_rate = rate it_completed items, sm_budget_compliance_rate = 1 - rate it_over_budget items,
       sm_counterevidence_recall = rate_opt it_true_positive (filter it_label items),
       sm_false_positive_rate = rate_opt it_false_positive (filter (\<lambda>i. \<not> it_label i) items),
       sm_decision_accuracy = rate it_decision_correct items,
       sm_replay_precision = (if shown = 0 then None else Some (of_nat (sum_list (map it_matched_evidence items)) / of_nat shown)),
       sm_brier_score = sum_list (map it_brier items) / of_nat (length items),
       sm_ece_10 = ece (map (\<lambda>i. if it_label i then 1 else 0) items) (map it_probability items) 10,
       sm_total_calls = sum_list (map it_calls items), sm_total_tokens = sum_list (map it_tokens items)\<rparr>)"

text \<open>The predictions indexed by challenge, each checked with its ledger as it is read.\<close>

fun index_predictions ::
  "score_env \<Rightarrow> (string \<Rightarrow> ledger_file) \<Rightarrow> (string \<times> json) list \<Rightarrow> json list \<Rightarrow> (string \<times> json) list result" where
  "index_predictions se ledgers indexed [] = Inr indexed"
| "index_predictions se ledgers indexed (row # rows) =
     bind_result (validate_prediction se row) (\<lambda>u.
     bind_result (verify_prediction_ledger se ledgers row) (\<lambda>u.
     let cid = py_str (get_null row ''challenge_id'') in
     raise_if (cid \<in> fst ` set indexed) (bench_error ''duplicate prediction'')
     (index_predictions se ledgers (indexed @ [(cid, row)]) rows)))"

definition evaluate_predictions ::
  "score_env \<Rightarrow> (string \<Rightarrow> ledger_file) \<Rightarrow> json list \<Rightarrow> json list \<Rightarrow> int \<Rightarrow> int \<Rightarrow> (score_summary \<times> scored_item list) result" where
  "evaluate_predictions se ledgers challenges predictions call_cap token_cap =
     bind_result (validate_challenges se challenges) (\<lambda>u.
     bind_result (index_predictions se ledgers [] predictions) (\<lambda>indexed.
     let expected = map (\<lambda>c. py_str (get_null c ''challenge_id'')) challenges;
         methods = remdups (map (\<lambda>r. py_str (get_null r ''method_id'')) predictions);
         runs = remdups (map (\<lambda>r. py_str (get_null r ''run_id'')) predictions)
     in raise_if (fst ` set indexed \<noteq> set expected) (bench_error ''prediction coverage mismatch'')
       (raise_if (length methods \<noteq> 1 \<or> length runs \<noteq> 1) (bench_error ''one prediction file must contain exactly one method_id and run_id'')
       (bind_result (map_result (\<lambda>c. score_item se call_cap token_cap c
            (the (map_of indexed (py_str (get_null c ''challenge_id''))))) challenges) (\<lambda>items.
         Inr (summarize (hd methods) (hd runs) items, items))))))"

end
