(* ===== verification/Scorer_Laws.thy ===== *)
theory Scorer_Laws
  imports Scorer
begin

text \<open>
  Lemmas on the challenge set and its scores: what a validated set of challenges satisfies, and
  that every score is a proportion.
\<close>

section \<open>Guards\<close>

lemma require_Inr [simp]: "require row names k = Inr x \<longleftrightarrow> \<not> list_ex (field_missing row) names \<and> k = Inr x"
  by (simp add: require_def)

lemma check_in_Inr [simp]: "check_in v names m k = Inr x \<longleftrightarrow> (\<exists>s \<in> set names. v = JStr s) \<and> k = Inr x"
  by (cases v) (auto simp: check_in_def)

section \<open>Validated challenges\<close>

lemma check_evidenceD:
  assumes "check_evidence se track cutoff seen it = Inr seen'"
  shows "seen' = seen @ [py_str (get_null it ''evidence_id'')]" and "py_str (get_null it ''evidence_id'') \<notin> set seen"
    and "get_null it ''oracle_scope'' = AVAILABLE \<Longrightarrow>
      \<exists>t. parse_date se (get_null it ''publication_date'') = Inr t \<and> date_le t cutoff"
proof -
  note assms [unfolded check_evidence_def Let_def raise_if_Inr_iff require_Inr check_in_Inr bind_result_Inr_iff]
  then obtain t where *: "py_str (get_null it ''evidence_id'') \<notin> set seen" "Inr (seen @ [py_str (get_null it ''evidence_id'')]) = (Inr seen' :: string list result)"
      "parse_date se (get_null it ''publication_date'') = Inr t"
      "\<not> (get_null it ''oracle_scope'' = AVAILABLE \<and> \<not> date_le t cutoff)"
    by (elim conjE exE) (rule that; assumption)
  then show "seen' = seen @ [py_str (get_null it ''evidence_id'')]" "py_str (get_null it ''evidence_id'') \<notin> set seen"
    "get_null it ''oracle_scope'' = AVAILABLE \<Longrightarrow>
      \<exists>t. parse_date se (get_null it ''publication_date'') = Inr t \<and> date_le t cutoff"
    by simp_all
qed

lemma check_all_evidenceD:
  assumes "check_all_evidence se track cutoff seen items = Inr seen'"
  shows "seen' = seen @ map (\<lambda>it. py_str (get_null it ''evidence_id'')) items \<and> (distinct seen \<longrightarrow> distinct seen') \<and>
    (\<forall>it \<in> set items. get_null it ''oracle_scope'' = AVAILABLE \<longrightarrow>
      (\<exists>t. parse_date se (get_null it ''publication_date'') = Inr t \<and> date_le t cutoff))"
  using assms
proof (induction items arbitrary: seen)
  case (Cons it rest)
  then obtain s where s: "check_evidence se track cutoff seen it = Inr s" "check_all_evidence se track cutoff s rest = Inr seen'"
    by (auto simp: bind_result_Inr_iff)
  have "distinct seen \<longrightarrow> distinct s" using check_evidenceD(1,2) [OF s(1)] by simp
  with Cons.IH [OF s(2)] check_evidenceD(1,3) [OF s(1)] show ?case by (auto simp del: distinct_append)
qed simp

text \<open>What the checks on a row establish.\<close>

definition sound_challenge :: "score_env \<Rightarrow> json \<Rightarrow> bool" where
  "sound_challenge se row \<longleftrightarrow> (\<exists>cutoff. parse_date se (get_null row ''cutoff_date'') = Inr cutoff \<and>
     (\<forall>it \<in> set (available_evidence row). \<exists>t. parse_date se (get_null it ''publication_date'') = Inr t \<and> date_le t cutoff)) \<and>
     (get_null row ''counterevidence_exists'' = JBool True \<longleftrightarrow> has_relation COUNTER_RELATIONS (available_evidence row)) \<and>
     (required_relation (get_null row ''expected_decision'') \<noteq> [] \<longrightarrow>
        has_relation (required_relation (get_null row ''expected_decision'')) (available_evidence row))"

definition challenge_key :: "json \<Rightarrow> string" where
  "challenge_key row = py_str (get_null row ''challenge_id'')"

definition evidence_ids_of :: "json \<Rightarrow> string list" where
  "evidence_ids_of row = map (\<lambda>it. py_str (get_null it ''evidence_id'')) (json_items (get_null row ''accepted_evidence''))"

lemma check_challengeD:
  assumes "check_challenge se ids eids row = Inr (ids', eids')"
  shows "ids' = ids @ [challenge_key row]" and "challenge_key row \<notin> set ids" and "sound_challenge se row"
    and "eids' = eids @ evidence_ids_of row" and "distinct eids \<Longrightarrow> distinct eids'"
proof -
  from assms obtain cutoff where c: "parse_date se (get_null row ''cutoff_date'') = Inr cutoff"
    and e: "check_all_evidence se (get_null row ''benchmark_track'') cutoff eids (json_items (get_null row ''accepted_evidence'')) = Inr eids'"
    and r: "ids' = ids @ [challenge_key row]" "challenge_key row \<notin> set ids"
      "get_null row ''counterevidence_exists'' = JBool True \<longleftrightarrow> has_relation COUNTER_RELATIONS (available_evidence row)"
      "\<not> (required_relation (get_null row ''expected_decision'') \<noteq> [] \<and>
        \<not> has_relation (required_relation (get_null row ''expected_decision'')) (available_evidence row))"
    unfolding check_challenge_def Let_def raise_if_Inr_iff require_Inr check_in_Inr bind_result_Inr_iff challenge_key_def
    by auto
  note ev = check_all_evidenceD [OF e]
  show "ids' = ids @ [challenge_key row]" "challenge_key row \<notin> set ids" by (fact r)+
  show "eids' = eids @ evidence_ids_of row" "distinct eids \<Longrightarrow> distinct eids'"
    using ev by (auto simp: evidence_ids_of_def simp del: distinct_append)
  show "sound_challenge se row"
    using c r(3,4) ev by (auto simp: sound_challenge_def available_evidence_def)
qed

lemma check_challengesD:
  assumes "check_challenges se ids eids rows = Inr ()" and "distinct ids" and "distinct eids"
  shows "distinct (ids @ map challenge_key rows) \<and> distinct (eids @ concat (map evidence_ids_of rows)) \<and>
    (\<forall>row \<in> set rows. sound_challenge se row)"
  using assms
proof (induction rows arbitrary: ids eids)
  case (Cons row rows)
  then obtain ids' eids' where s: "check_challenge se ids eids row = Inr (ids', eids')" "check_challenges se ids' eids' rows = Inr ()"
    by (auto simp: bind_result_Inr_iff)
  note d = check_challengeD [OF s(1)]
  have "distinct ids'" "distinct eids'" using d Cons.prems by auto
  with Cons.IH [OF s(2)] d show ?case by auto
qed simp

lemma no_leaked_groups:
  assumes "leaked_groups rows = []" and "r \<in> set rows" and "s \<in> set rows" and "fst (group_split r) = fst (group_split s)"
  shows "snd (group_split r) = snd (group_split s)"
proof -
  let ?splits = "map snd (filter (\<lambda>p. fst p = fst (group_split r)) (map group_split rows))"
  have "fst (group_split r) \<in> set (sort (remdups (map (fst \<circ> group_split) rows)))" using assms(2) by simp
  with assms(1) have "\<not> length (remdups ?splits) > 1"
    unfolding leaked_groups_def filter_empty_conv by blast
  then have "card (set ?splits) \<le> Suc 0" by (simp only: length_remdups_card_conv)
  moreover have "snd (group_split r) \<in> set ?splits" using assms(2) by simp
  moreover have "snd (group_split s) \<in> set ?splits" using assms(3,4) by simp
  ultimately show ?thesis by (meson List.finite_set card_le_Suc0_iff_eq)
qed

lemma list_all2_image: "list_all2 P xs ys \<Longrightarrow> x \<in> set xs \<Longrightarrow> \<exists>y \<in> set ys. P x y"
  by (induction rule: list_all2_induct) auto

lemma list_all2_source: "list_all2 P xs ys \<Longrightarrow> y \<in> set ys \<Longrightarrow> \<exists>x \<in> set xs. P x y"
  by (induction rule: list_all2_induct) auto

section \<open>Proportions\<close>

definition proportion :: "rat \<Rightarrow> bool" where
  "proportion q \<longleftrightarrow> 0 \<le> q \<and> q \<le> 1"

lemma rate_proportion: "proportion (rate f xs)"
  by (cases "xs = []") (auto simp: proportion_def rate_def divide_le_eq_1 of_nat_0_less_iff)

lemma quotient_proportion: "a \<le> b \<Longrightarrow> proportion (of_nat a / of_nat b)"
  by (cases "b = 0") (auto simp: proportion_def divide_le_eq_1)

lemma mean_proportion:
  assumes "\<forall>x \<in> set xs. proportion x"
  shows "proportion (sum_list xs / of_nat (length xs))"
proof -
  have "0 \<le> sum_list xs \<and> sum_list xs \<le> of_nat (length xs)"
    using assms by (induction xs) (auto simp: proportion_def)
  then show ?thesis by (cases "xs = []") (auto simp: proportion_def divide_le_eq_1)
qed

lemma distance_proportion: "proportion a \<Longrightarrow> proportion b \<Longrightarrow> proportion \<bar>a - b\<bar>"
  by (auto simp: proportion_def)

text \<open>The bins are disjoint.\<close>

definition in_bin :: "nat \<Rightarrow> nat \<Rightarrow> rat \<Rightarrow> bool" where
  "in_bin bins b p \<longleftrightarrow> (of_nat b / of_nat bins \<le> p \<and> p < of_nat (b + 1) / of_nat bins) \<or> (b = bins - 1 \<and> p = 1)"

lemma in_bin_unique:
  assumes "in_bin bins a p" and "in_bin bins b p" and "a < bins" and "b < bins"
  shows "a = b"
proof -
  have pos: "0 < (of_nat bins :: rat)" using assms(3) by simp
  have bin: "(x = bins - 1 \<and> p = 1) \<or> (of_nat x \<le> p * of_nat bins \<and> p * of_nat bins < of_nat (x + 1))" if "in_bin bins x p" for x
    using that pos by (auto simp: in_bin_def divide_le_eq less_divide_eq)
  have one: "x = y" if "of_nat x \<le> p * of_nat bins" "p * of_nat bins < of_nat (x + 1)"
      "of_nat y \<le> p * of_nat bins" "p * of_nat bins < of_nat (y + 1)" for x y
  proof -
    have "(of_nat x :: rat) < of_nat (y + 1)" "(of_nat y :: rat) < of_nat (x + 1)" using that by linarith+
    then show ?thesis unfolding of_nat_less_iff by simp
  qed
  have top: "x \<noteq> x" if "p = 1" "p * of_nat bins < of_nat (x + 1)" "x < bins" for x
    using that by (metis Suc_eq_plus1 mult_1 not_less_eq of_nat_less_iff)
  from bin [OF assms(1)] bin [OF assms(2)] one top assms(3,4) show ?thesis by blast
qed

lemma indicator_sum: "(\<And>a b. P a \<Longrightarrow> P b \<Longrightarrow> a \<in> set xs \<Longrightarrow> b \<in> set xs \<Longrightarrow> a = b) \<Longrightarrow> distinct xs \<Longrightarrow>
   sum_list (map (\<lambda>b. if P b then 1 else 0) xs) \<le> (1 :: nat)"
proof (induction xs)
  case (Cons x xs)
  show ?case
  proof (cases "P x")
    case True
    then have "\<forall>b \<in> set xs. \<not> P b" using Cons.prems by auto
    then have "sum_list (map (\<lambda>b. if P b then 1 else 0) xs) = (0 :: nat)" by (simp add: sum_list_eq_0_iff)
    with True show ?thesis by simp
  next
    case False
    with Cons.IH Cons.prems show ?thesis by auto
  qed
qed simp

lemma bins_total: "sum_list (map (\<lambda>b. length (bin_members bins b rows)) [0..<bins]) \<le> length rows"
proof (induction rows)
  case (Cons r rows)
  have len: "length (bin_members bins b (r # rows)) = (if in_bin bins b (snd r) then 1 else 0) + length (bin_members bins b rows)" for b
    by (cases r) (auto simp: bin_members_def in_bin_def)
  have "sum_list (map (\<lambda>b. if in_bin bins b (snd r) then 1 else 0) [0..<bins]) \<le> (1 :: nat)"
    by (rule indicator_sum) (auto intro: in_bin_unique)
  with Cons show ?case by (simp add: len sum_list_addf)
qed (simp add: bin_members_def sum_list_eq_0_iff)

lemma sum_list_quotient:
  "sum_list (map (\<lambda>b. of_nat (f b) / t) xs) = of_nat (sum_list (map f xs)) / (t :: rat)"
  by (induction xs) (simp_all add: add_divide_distrib)

lemma ece_proportion:
  assumes "ece labels ps bins = Some e" and "\<forall>x \<in> set labels. proportion x" and "\<forall>x \<in> set ps. proportion x"
    and "length ps = length labels"
  shows "proportion e"
proof -
  let ?rows = "zip labels ps" and ?t = "of_nat (length labels) :: rat"
  let ?part = "\<lambda>b. let members = bin_members bins b ?rows; n = of_nat (length members) in
     if members = [] then 0 else n / ?t * \<bar>sum_list (map fst members) / n - sum_list (map snd members) / n\<bar>"
  have e: "e = sum_list (map ?part [0..<bins])" and t: "0 < ?t"
    using assms(1) by (auto simp: ece_def Let_def split: if_splits)
  have part: "0 \<le> ?part b \<and> ?part b \<le> of_nat (length (bin_members bins b ?rows)) / ?t" for b
  proof -
    let ?m = "bin_members bins b ?rows"
    have "set ?m \<subseteq> set ?rows" by (auto simp: bin_members_def)
    then have "\<forall>x \<in> set (map fst ?m). proportion x" "\<forall>x \<in> set (map snd ?m). proportion x"
      using assms(2,3) by (fastforce dest: set_zip_leftD set_zip_rightD)+
    then have "proportion \<bar>sum_list (map fst ?m) / of_nat (length ?m) - sum_list (map snd ?m) / of_nat (length ?m)\<bar>"
      using mean_proportion [of "map fst ?m"] mean_proportion [of "map snd ?m"] distance_proportion by simp
    then show ?thesis using t by (auto simp: Let_def proportion_def intro!: mult_left_le divide_right_mono)
  qed
  have "e \<le> sum_list (map (\<lambda>b. of_nat (length (bin_members bins b ?rows)) / ?t) [0..<bins])"
    unfolding e using part by (intro sum_list_mono) blast
  also have "\<dots> = of_nat (sum_list (map (\<lambda>b. length (bin_members bins b ?rows)) [0..<bins])) / ?t"
    by (simp add: sum_list_quotient)
  also have "\<dots> \<le> of_nat (length ?rows) / ?t"
    using bins_total [of bins ?rows] t by (intro divide_right_mono) auto
  also have "\<dots> \<le> 1" using assms(4) t by simp
  finally have "e \<le> 1" .
  moreover have "0 \<le> e" unfolding e using part by (intro sum_list_nonneg) auto
  ultimately show ?thesis by (simp add: proportion_def)
qed

section \<open>Predictions that were accepted\<close>

lemma validate_predictionD:
  assumes "validate_prediction se row = Inr ()"
  shows "proportion (probability_of se row)" and "check_predicted (json_items (get_null row ''evidence'')) = Inr ()"
proof -
  from assms obtain x where "number_value (se_float se) (get_null row ''counterevidence_probability'') = Some x" "in_unit x"
      and c: "check_predicted (json_items (get_null row ''evidence'')) = Inr ()"
    unfolding validate_prediction_def require_Inr raise_if_Inr_iff check_in_Inr
    by (auto simp: bind_result_Inr_iff split: option.splits simp del: json_items.simps)
  then show "proportion (probability_of se row)"
    by (auto simp: probability_of_def proportion_def in_unit_def split: option.splits)
  show "check_predicted (json_items (get_null row ''evidence'')) = Inr ()" by (fact c)
qed

text \<open>The ledger commits to the row: it verifies, its head is the head of the row, and one of its events names the semantics.\<close>

definition committed :: "score_env \<Rightarrow> (string \<Rightarrow> ledger_file) \<Rightarrow> json \<Rightarrow> bool" where
  "committed se ledgers row \<longleftrightarrow> (\<exists>lines events c. ledgers (py_str (get_null row ''ledger_relpath'')) = LedgerFile lines \<and>
     load_locked (se_env se) lines = Inr events \<and> get_null row ''ledger_head'' = JStr (head_hash events) \<and>
     get_null row ''ledger_event_count'' = JInt (int (length events)) \<and>
     prediction_commitment (se_env se) row = Inr c \<and> get_null row ''prediction_commitment_sha256'' = JStr c \<and>
     length (filter (commits se row c) events) = 1)"

lemma verify_prediction_ledger_iff: "verify_prediction_ledger se ledgers row = Inr () \<longleftrightarrow> committed se ledgers row"
proof (cases "ledgers (py_str (get_null row ''ledger_relpath''))")
  case (LedgerFile lines)
  show ?thesis
  proof (cases "load_locked (se_env se) lines")
    case (Inl e)
    with LedgerFile show ?thesis
      by (auto simp: verify_prediction_ledger_def committed_def bind_result_Inr_iff ledger_verify_def split: if_splits)
  next
    case (Inr events)
    with LedgerFile show ?thesis
      by (auto simp: verify_prediction_ledger_def committed_def bind_result_Inr_iff ledger_verify_def)
  qed
qed (auto simp: verify_prediction_ledger_def committed_def bind_result_Inr_iff)

lemma index_predictionsD:
  assumes "index_predictions se ledgers indexed rows = Inr result"
  shows "result = indexed @ map (\<lambda>r. (challenge_key r, r)) rows \<and>
    (\<forall>row \<in> set rows. validate_prediction se row = Inr () \<and> committed se ledgers row) \<and>
    (distinct (map fst indexed) \<longrightarrow> distinct (map fst result))"
  using assms
proof (induction rows arbitrary: indexed)
  case (Cons row rows)
  then have s: "validate_prediction se row = Inr ()" "committed se ledgers row" "challenge_key row \<notin> fst ` set indexed"
      "index_predictions se ledgers (indexed @ [(challenge_key row, row)]) rows = Inr result"
    by (auto simp: bind_result_Inr_iff verify_prediction_ledger_iff challenge_key_def Let_def)
  from s(3) have "distinct (map fst indexed) \<longrightarrow> distinct (map fst (indexed @ [(challenge_key row, row)]))" by simp
  then have "distinct (map fst indexed) \<longrightarrow> distinct (map fst result)" using Cons.IH [OF s(4)] by blast
  moreover have "result = indexed @ map (\<lambda>r. (challenge_key r, r)) (row # rows)" using Cons.IH [OF s(4)] by simp
  ultimately show ?case using Cons.IH [OF s(4)] s(1,2) by (simp only:) simp
qed simp

lemma map_result_Inr_iff: "map_result f xs = Inr ys \<longleftrightarrow> list_all2 (\<lambda>x y. f x = Inr y) xs ys"
proof (induction xs arbitrary: ys)
  case (Cons x xs)
  then show ?case by (auto simp: bind_result_Inr_iff list_all2_Cons1)
qed auto

lemma evaluateD:
  assumes "evaluate_predictions se ledgers challenges predictions call_cap token_cap = Inr (summary, items)"
  shows "validate_challenges se challenges = Inr ()"
    and "\<forall>row \<in> set predictions. validate_prediction se row = Inr () \<and> committed se ledgers row"
    and "distinct (map challenge_key predictions)" and "challenge_key ` set predictions = challenge_key ` set challenges"
    and "list_all2 (\<lambda>c i. score_item se call_cap token_cap c
      (the (map_of (map (\<lambda>r. (challenge_key r, r)) predictions) (challenge_key c))) = Inr i) challenges items"
    and "\<exists>m r. summary = summarize m r items" and "predictions \<noteq> []"
proof -
  from assms obtain indexed where i: "index_predictions se ledgers [] predictions = Inr indexed"
    and r: "validate_challenges se challenges = Inr ()" "fst ` set indexed = challenge_key ` set challenges"
      "list_all2 (\<lambda>c i. score_item se call_cap token_cap c (the (map_of indexed (challenge_key c))) = Inr i) challenges items"
      "\<exists>m r. summary = summarize m r items" "length (remdups (map (\<lambda>r. py_str (get_null r ''method_id'')) predictions)) = 1"
    by (auto simp: evaluate_predictions_def Let_def bind_result_Inr_iff map_result_Inr_iff challenge_key_def)
  note ix = index_predictionsD [OF i]
  show "validate_challenges se challenges = Inr ()" by (fact r)
  show "\<exists>m r. summary = summarize m r items" by (fact r)
  show "predictions \<noteq> []" using r(5) by auto
  show "\<forall>row \<in> set predictions. validate_prediction se row = Inr () \<and> committed se ledgers row" using ix by blast
  have indexed: "indexed = map (\<lambda>r. (challenge_key r, r)) predictions" using ix by simp
  show "distinct (map challenge_key predictions)" using ix by (auto simp: indexed comp_def)
  show "challenge_key ` set predictions = challenge_key ` set challenges" using r(2) by (simp add: indexed image_image)
  show "list_all2 (\<lambda>c i. score_item se call_cap token_cap c
      (the (map_of (map (\<lambda>r. (challenge_key r, r)) predictions) (challenge_key c))) = Inr i) challenges items"
    using r(3) by (simp add: indexed)
qed

text \<open>The prediction a challenge is scored with.\<close>

lemma indexed_prediction:
  assumes "distinct (map challenge_key predictions)" and "challenge_key c \<in> challenge_key ` set predictions"
  shows "\<exists>row \<in> set predictions. challenge_key row = challenge_key c \<and>
    map_of (map (\<lambda>r. (challenge_key r, r)) predictions) (challenge_key c) = Some row"
proof -
  from assms(2) obtain row where row: "row \<in> set predictions" "challenge_key row = challenge_key c" by force
  then have "(challenge_key c, row) \<in> set (map (\<lambda>r. (challenge_key r, r)) predictions)" by (auto simp: image_iff)
  with assms(1) row show ?thesis by (intro bexI [of _ row]) (auto simp: comp_def intro!: map_of_is_SomeI)
qed

lemma score_itemD:
  assumes "score_item se call_cap token_cap c row = Inr i" and "proportion (probability_of se row)"
  shows "it_challenge_id i = challenge_key c" and "proportion (it_probability i)" and "proportion (it_brier i)"
    and "it_matched_evidence i \<le> it_predicted_evidence i" and "proportion (it_replay_precision i)"
    and "it_true_positive i \<longrightarrow> it_label i" and "it_false_positive i \<longrightarrow> \<not> it_label i"
proof -
  from assms(1) obtain gold found where i: "map_result evidence_key (available_evidence c) = Inr gold"
      "map_result evidence_key (json_items (get_null row ''evidence'')) = Inr found"
    by (auto simp: score_item_def bind_result_Inr_iff)
  note d = assms(1) [unfolded score_item_def i bind_result_simps Let_def]
  show "it_challenge_id i = challenge_key c" "it_true_positive i \<longrightarrow> it_label i" "it_false_positive i \<longrightarrow> \<not> it_label i"
    using d by (auto simp: challenge_key_def)
  show "proportion (it_probability i)" using d assms(2) by auto
  have "it_brier i = (probability_of se row - (if it_label i then 1 else 0)) ^ 2" using d by auto
  moreover have "(p - 1) ^ 2 \<le> 1 \<and> p ^ 2 \<le> 1" if "proportion p" for p :: rat
    using that power_le_one [of p 2] power_le_one [of "1 - p" 2] by (simp add: proportion_def power2_commute [of p])
  ultimately show "proportion (it_brier i)" using assms(2) by (auto simp: proportion_def)
  have e: "it_predicted_evidence i = length (remdups found)"
      "it_matched_evidence i = length (filter (\<lambda>k. k \<in> set gold) (remdups found))"
      "it_replay_precision i = (if remdups found = [] then 1 else of_nat (it_matched_evidence i) / of_nat (it_predicted_evidence i))"
    using d by auto
  show m: "it_matched_evidence i \<le> it_predicted_evidence i" unfolding e(1,2) by (rule length_filter_le)
  show "proportion (it_replay_precision i)"
    unfolding e(3) using quotient_proportion [OF m] by (simp add: proportion_def)
qed

end
