(* ===== verification/Scorer_Properties.thy ===== *)
theory Scorer_Properties
  imports Scorer_Laws Benchmark_Properties Artifact_Laws
begin

text \<open>
  Properties of the challenge set and its scorer: what a validated set satisfies, that scores are
  proportions earned by committed predictions, and how the rows the runner writes fare.
\<close>

section \<open>A small challenge\<close>

definition small_score_env :: score_env where
  "small_score_env = \<lparr>se_env = sample_env, se_dates = \<lparr>dt_float = (\<lambda>s. None),
     dt_fromisoformat = (\<lambda>s. if s = ''2019-01-01'' then Some (2019, 1, 1) else Some (2020, 1, 1))\<rparr>,
     se_float = (\<lambda>s. if s = ''0.5'' then Some (1 / 2) else Some 0)\<rparr>"

definition small_hash :: json where
  "small_hash = JStr (replicate 64 (CHR ''a''))"

definition small_gold :: "string \<Rightarrow> string \<Rightarrow> json" where
  "small_gold i rel = JObj [(''evidence_id'', JStr i), (''doc_id'', JStr ''d''), (''relation'', JStr rel),
     (''locator'', JObj [(''offset'', JInt 0)]), (''content_sha256'', small_hash),
     (''publication_date'', JStr ''2019-01-01''), (''oracle_scope'', AVAILABLE), (''snapshot_id'', JStr ''s''),
     (''source_url'', JStr ''https://x''), (''doi'', JStr ''10.1/x''), (''license_spdx'', JStr ''CC-BY-4.0''),
     (''source_locator'', JStr ''p1'')]"

definition small_challenge :: "string \<Rightarrow> json list \<Rightarrow> json" where
  "small_challenge i gold = JObj [(''schema_version'', JInt 1), (''challenge_id'', JStr i),
     (''benchmark_track'', JStr ''known_answer''), (''split'', JStr ''test''), (''task_family'', JStr ''f''),
     (''leakage_group'', JStr ''g''), (''prompt'', JStr ''p''), (''cutoff_date'', JStr ''2020-01-01''),
     (''counterevidence_exists'', JBool True), (''expected_decision'', JStr ''REFUTED''),
     (''accepted_evidence'', JList gold),
     (''construction_provenance'', JObj [(''source'', JStr ''s''), (''curator'', JStr ''c''), (''status'', JStr ''frozen'')])]"

definition small_predicted :: "string \<Rightarrow> json" where
  "small_predicted rel = JObj [(''doc_id'', JStr ''d''), (''relation'', JStr rel), (''locator'', JObj [(''offset'', JInt 0)]),
     (''content_sha256'', small_hash)]"

definition small_prediction :: "json list \<Rightarrow> json" where
  "small_prediction evidence = JObj [(''schema_version'', JInt 1), (''challenge_id'', JStr ''c''), (''run_id'', JStr ''r''),
     (''method_id'', JStr ''m''), (''status'', JStr ''completed''), (''predicted_decision'', JStr ''REFUTED''),
     (''counterevidence_probability'', JFloat ''0.5''), (''evidence'', JList evidence), (''calls'', JInt 1),
     (''tokens'', JInt 1), (''ledger_head'', small_hash), (''ledger_event_count'', JInt 1),
     (''ledger_relpath'', JStr ''e.jsonl''), (''prediction_commitment_sha256'', small_hash)]"

definition small_ledgers :: "string \<Rightarrow> ledger_file" where
  "small_ledgers path = LedgerFile [event_line (sample_event ''e'' ''benchmark.prediction_committed''
     (JObj [(''challenge_id'', JStr ''c''), (''run_id'', JStr ''r''), (''method_id'', JStr ''m''),
       (''prediction_commitment_sha256'', small_hash)]))]"

section \<open>The challenge set\<close>

text \<open>
  A challenge set that passes validation is sound: challenge ids and evidence ids are unique over
  the whole set, the rows of one leakage group are all in one split, and in every row the evidence
  declared available by the cutoff is dated no later than the cutoff, the counterevidence label is
  true exactly when available evidence contradicts, bounds or precedes, and a terminal decision has
  available evidence of a relation that warrants it.
\<close>

theorem validated_challenges_sound:
  assumes "validate_challenges se rows = Inr ()"
  shows "distinct (map challenge_key rows) \<and> distinct (concat (map evidence_ids_of rows)) \<and>
    (\<forall>r \<in> set rows. \<forall>s \<in> set rows. fst (group_split r) = fst (group_split s) \<longrightarrow> snd (group_split r) = snd (group_split s)) \<and>
    (\<forall>row \<in> set rows. sound_challenge se row)"
proof -
  have v: "check_challenges se [] [] rows = Inr () \<and> leaked_groups rows = []"
    using assms unfolding validate_challenges_def by (cases "check_challenges se [] [] rows") simp_all
  have "\<forall>r \<in> set rows. \<forall>s \<in> set rows. fst (group_split r) = fst (group_split s) \<longrightarrow> snd (group_split r) = snd (group_split s)"
    by (intro ballI impI no_leaked_groups [OF conjunct2 [OF v]])
  moreover have "distinct (map challenge_key rows) \<and> distinct (concat (map evidence_ids_of rows)) \<and>
      (\<forall>row \<in> set rows. sound_challenge se row)"
    using check_challengesD [OF conjunct1 [OF v]] by simp
  ultimately show ?thesis by (elim conjE) (intro conjI)
qed

lemma small_challenges_valid:
  "validate_challenges small_score_env
     [small_challenge ''c'' [small_gold ''e1'' ''CONTRADICTS''], small_challenge ''c2'' [small_gold ''e2'' ''PRECEDENT_FOR'']] = Inr ()"
  "validate_challenges small_score_env [small_challenge ''c'' [small_gold ''e1'' ''CONTRADICTS'']] = Inr ()"
  by code_simp+

theorem validated_challenges_sound_witness:
  "sound_challenge small_score_env (small_challenge ''c2'' [small_gold ''e2'' ''PRECEDENT_FOR''])"
  using validated_challenges_sound [OF small_challenges_valid(1)] by simp

section \<open>The scores\<close>

text \<open>
  C27. Every score of an evaluation that succeeds is a proportion: the rates over all items, recall over
  the positives and the false positive rate over the negatives (absent when there are none), the
  replay precision, the Brier score and the calibration error, and each item's own scores.
\<close>

theorem scores_are_proportions:
  assumes "evaluate_predictions se ledgers challenges predictions call_cap token_cap = Inr (summary, items)"
  shows "proportion (sm_completed_rate summary) \<and> proportion (sm_budget_compliance_rate summary) \<and>
    pred_option proportion (sm_counterevidence_recall summary) \<and> pred_option proportion (sm_false_positive_rate summary) \<and>
    proportion (sm_decision_accuracy summary) \<and> pred_option proportion (sm_replay_precision summary) \<and>
    proportion (sm_brier_score summary) \<and> pred_option proportion (sm_ece_10 summary) \<and>
    (\<forall>i \<in> set items. proportion (it_brier i) \<and> proportion (it_replay_precision i))"
proof -
  note d = evaluateD [OF assms]
  obtain m r where s: "summary = summarize m r items" using d(6) by blast
  have item: "proportion (it_probability i) \<and> proportion (it_brier i) \<and> it_matched_evidence i \<le> it_predicted_evidence i \<and>
      proportion (it_replay_precision i)" if i: "i \<in> set items" for i
  proof -
    from list_all2_source [OF d(5) i] obtain c where c: "c \<in> set challenges" "score_item se call_cap token_cap c
        (the (map_of (map (\<lambda>r. (challenge_key r, r)) predictions) (challenge_key c))) = Inr i"
      by blast
    with d(3,4) obtain row where row: "row \<in> set predictions" "score_item se call_cap token_cap c row = Inr i"
      using indexed_prediction [of predictions c] by force
    with d(2) have "proportion (probability_of se row)" using validate_predictionD(1) by blast
    from score_itemD [OF row(2) this] show ?thesis by blast
  qed
  have "proportion (sm_brier_score summary)" using mean_proportion [of "map it_brier items"] item by (simp add: s summarize_def)
  moreover have "sum_list (map it_matched_evidence items) \<le> sum_list (map it_predicted_evidence items)"
    by (rule sum_list_mono) (use item in blast)
  then have "pred_option proportion (sm_replay_precision summary)"
    using quotient_proportion by (auto simp: s summarize_def Let_def)
  moreover have "pred_option proportion (sm_ece_10 summary)"
  proof (cases "sm_ece_10 summary")
    case (Some e)
    then have "ece (map (\<lambda>i. if it_label i then 1 else 0) items) (map it_probability items) 10 = Some e"
      by (simp add: s summarize_def Let_def)
    from ece_proportion [OF this] have "proportion e" using item by (fastforce simp: proportion_def)
    with Some show ?thesis by simp
  qed simp
  moreover have "proportion (1 - rate it_over_budget items)"
    using rate_proportion [of it_over_budget items] by (simp add: proportion_def)
  ultimately show ?thesis using item rate_proportion by (auto simp: s summarize_def rate_opt_def)
qed

lemma small_evaluation:
  "evaluate_predictions small_score_env small_ledgers [small_challenge ''c'' [small_gold ''e1'' ''CONTRADICTS'']]
     [small_prediction [small_predicted ''CONTRADICTS'']] 1 1 =
   (let i = \<lparr>it_challenge_id = ''c'', it_benchmark_track = JStr ''known_answer'', it_split = JStr ''test'',
      it_task_family = JStr ''f'', it_leakage_group = JStr ''g'', it_completed = True, it_over_budget = False,
      it_label = True, it_detected = True, it_true_positive = True, it_false_positive = False, it_decision_correct = True,
      it_predicted_evidence = 1, it_matched_evidence = 1, it_replay_precision = 1, it_probability = 1 / 2,
      it_brier = 1 / 4, it_calls = 1, it_tokens = 1\<rparr>
    in Inr (summarize ''m'' ''r'' [i], [i]))"
  by code_simp

theorem scores_are_proportions_witness:
  "\<exists>summary items. evaluate_predictions small_score_env small_ledgers [small_challenge ''c'' [small_gold ''e1'' ''CONTRADICTS'']]
     [small_prediction [small_predicted ''CONTRADICTS'']] 1 1 = Inr (summary, items) \<and> proportion (sm_brier_score summary)"
  using scores_are_proportions [OF small_evaluation [unfolded Let_def]] small_evaluation [unfolded Let_def] by blast

text \<open>
  C26. Nothing is scored that was not committed: when an evaluation succeeds there is exactly one item
  per challenge, in order, every challenge has exactly one prediction, and every prediction carries
  the SHA-256 of its own semantics, which exactly one event of a ledger that verifies (with the
  head and the length the row states) records for the row's challenge, run and method.
\<close>

theorem scored_predictions_are_committed:
  assumes "evaluate_predictions se ledgers challenges predictions call_cap token_cap = Inr (summary, items)"
  shows "map it_challenge_id items = map challenge_key challenges \<and>
    (\<forall>c \<in> set challenges. \<exists>!row. row \<in> set predictions \<and> challenge_key row = challenge_key c) \<and>
    (\<forall>row \<in> set predictions. committed se ledgers row)"
proof -
  note d = evaluateD [OF assms]
  have "list_all2 (\<lambda>c i. it_challenge_id i = challenge_key c) challenges items"
    using d(5) by (rule list_all2_mono) (auto simp: score_item_def challenge_key_def bind_result_Inr_iff Let_def)
  then have "map it_challenge_id items = map challenge_key challenges"
    by (induction rule: list_all2_induct) simp_all
  moreover have "\<exists>!row. row \<in> set predictions \<and> challenge_key row = challenge_key c" if "c \<in> set challenges" for c
  proof -
    from that d(4) obtain row where "row \<in> set predictions" "challenge_key row = challenge_key c" by (metis imageE imageI)
    moreover have "row' = row" if "row' \<in> set predictions" "challenge_key row' = challenge_key c" for row'
      using that calculation d(3) by (auto simp: distinct_map inj_on_def)
    ultimately show ?thesis by blast
  qed
  ultimately show ?thesis using d(2) by blast
qed

theorem scored_predictions_are_committed_witness:
  "committed small_score_env small_ledgers (small_prediction [small_predicted ''CONTRADICTS''])"
  using scored_predictions_are_committed [OF small_evaluation [unfolded Let_def]] by simp

section \<open>A relation the scorer refuses\<close>

lemma check_predictedD: "check_predicted items = Inr () \<Longrightarrow> it \<in> set items \<Longrightarrow> \<exists>k. evidence_key it = Inr k"
  by (induction items) (auto simp: bind_result_Inr_iff)

text \<open>
  C28. The relation CHECKED is one the decision contract accepts, and synthesis writes it into the
  prediction; the scorer refuses it.  So a single task whose backend cites a passage as CHECKED
  voids the evaluation of the whole run: whatever the challenges, the other predictions and the
  ledgers, evaluating a file that holds the row raises.
\<close>

theorem checked_evidence_voids_evaluation:
  assumes "map_result (selected_evidence ps) (map selection_json (de_evidence d)) = Inr selected"
    and "sel \<in> set (de_evidence d)" and "ev_relation sel = JStr ''CHECKED''"
    and "row \<in> set predictions" and "get_null row ''evidence'' = JList selected"
  shows "\<exists>e. evaluate_predictions se ledgers challenges predictions call_cap token_cap = Inl e"
proof (cases "evaluate_predictions se ledgers challenges predictions call_cap token_cap")
  case (Inr r)
  obtain summary items where "r = (summary, items)" by force
  with Inr assms(4) have "check_predicted selected = Inr ()"
    using evaluateD(2) validate_predictionD(2) assms(5) by (metis json_items.simps(1))
  moreover obtain it where it: "it \<in> set selected" "selected_evidence ps (selection_json sel) = Inr it"
    using list_all2_image [OF assms(1) [unfolded map_result_Inr_iff], of "selection_json sel"] assms(2) by auto
  ultimately obtain k where "evidence_key it = Inr k" using check_predictedD by blast
  moreover have "jget it ''relation'' = Some (JStr ''CHECKED'')"
    using it(2) assms(3) by (auto simp: selected_evidence_def selection_json_def key_of_def bind_result_Inr_iff split: option.splits)
  ultimately show ?thesis by (simp add: evidence_key_def SCORED_RELATIONS_def COUNTER_RELATIONS_def)
qed simp

theorem checked_evidence_voids_evaluation_witness:
  "validate_decision (be_float small_env) [''p-support-0''] (small_decision ''CHECKED'') = Inr () \<and>
   (\<exists>e. evaluate_predictions small_score_env small_ledgers [] [small_prediction [small_predicted ''CHECKED'']] 1 1 = Inl e)"
proof -
  have "validate_decision (be_float small_env) [''p-support-0''] (small_decision ''CHECKED'') = Inr ()" by code_simp
  moreover have "map_result (selected_evidence [small_passage ''p-support-0'' ''q''])
      (map selection_json (de_evidence (small_decision ''CHECKED''))) = Inr [small_predicted ''CHECKED'']" by code_simp
  moreover have "get_null (small_prediction [small_predicted ''CHECKED'']) ''evidence'' = JList [small_predicted ''CHECKED'']" by code_simp
  ultimately show ?thesis
    using checked_evidence_voids_evaluation [of "[small_passage ''p-support-0'' ''q'']" "small_decision ''CHECKED''"
      "[small_predicted ''CHECKED'']" "\<lparr>ev_passage_id = JStr ''p-support-0'', ev_relation = JStr ''CHECKED''\<rparr>"
      "small_prediction [small_predicted ''CHECKED'']" "[small_prediction [small_predicted ''CHECKED'']]"]
    by (simp add: small_decision_def)
qed

section \<open>From the runner to the scorer\<close>

lemma append_fresh:
  assumes "ledger_append env d r lines = Inr (e, lines')" and "load_locked env lines = Inr es"
    and "row_by ev_idempotency_key (req_idempotency_key r) es = None"
  shows "event_type e = req_event_type r" and "payload e = req_payload r"
  using assms build_event_InrD(8,9) by (force simp: ledger_append_def Let_def bind_result_Inr_iff split: if_splits)+

lemma py_equal_str [simp]: "py_equal fl (JStr s) (JStr t) \<longleftrightarrow> s = t"
  by (simp add: py_equal_def)

lemma get_null_obj: "get_null (JObj kvs) k = (case map_of kvs k of None \<Rightarrow> JNull | Some w \<Rightarrow> w)"
  by (simp add: get_null_def)

lemma get_null_sorted:
  "distinct (map fst kvs) \<Longrightarrow> get_null (sort_keys (JObj kvs)) k = (case map_of kvs k of None \<Rightarrow> JNull | Some w \<Rightarrow> sort_keys w)"
  by (simp add: get_null_def jget_sort_keys del: sort_keys.simps split: option.split)

text \<open>The finished row, with what the receipt adds.\<close>

definition finished_row :: "(string \<times> json) list \<Rightarrow> event list \<Rightarrow> job \<Rightarrow> string \<Rightarrow> json" where
  "finished_row row events j c = jput (jput (jput (jput (JObj row) ''ledger_head'' (JStr (head_hash events)))
     ''ledger_event_count'' (JInt (int (length events)))) ''ledger_relpath'' (JStr (ledger_relpath j)))
     ''prediction_commitment_sha256'' (JStr c)"

lemma finished_row_get:
  "get_null (finished_row row events j c) k =
    (if k = ''prediction_commitment_sha256'' then JStr c else if k = ''ledger_relpath'' then JStr (ledger_relpath j)
     else if k = ''ledger_event_count'' then JInt (int (length events)) else if k = ''ledger_head'' then JStr (head_hash events)
     else get_null (JObj row) k)"
  by (simp add: finished_row_def get_null_def jget_jput del: jput.simps)

definition outcome_key :: "blind_task \<Rightarrow> method_spec \<Rightarrow> string \<Rightarrow> string \<Rightarrow> string" where
  "outcome_key tk m run outcome = ''outcome:'' @ run @ '':'' @ method_id m @ '':'' @ challenge_id tk @ '':'' @ outcome"

lemma settled_row_committed:
  assumes "settled_prediction be tk m run code j s0 = (Inr (prediction_fields tk m run st dec p ev calls tokens, JStr c, outcome), s1)"
    and "settle_task be d tk m run code j lines s0 = (Inr (row, lines'), s')"
    and "load_locked (be_env be) lines = Inr es" and "id_unused (be_env be) (d, commitment_request tk m run j (JStr c) outcome) lines"
    and "\<forall>e \<in> set es. event_type e \<noteq> ''benchmark.prediction_committed'' \<and> ev_idempotency_key e \<noteq> outcome_key tk m run outcome"
    and "se_env se = be_env be" and "ledgers (ledger_relpath j) = LedgerFile lines'"
  shows "\<exists>events. row = finished_row (prediction_fields tk m run st dec p ev calls tokens) events j c \<and> events \<noteq> [] \<and>
    load_locked (be_env be) lines' = Inr events \<and> committed se ledgers row"
proof -
  let ?r = "commitment_request tk m run j (JStr c) outcome" and ?fields = "prediction_fields tk m run st dec p ev calls tokens"
  from assms(1,2) obtain e receipt c' where a: "ledger_append (be_env be) d ?r lines = Inr (e, lines')"
    and v: "ledger_verify (be_env be) lines' = Inr receipt" "report_ok receipt" "prediction_commitment (be_env be) row = Inr c'" "c' = c"
    and row: "row = fold (\<lambda>(k, v) d. jput d k v) [(''ledger_head'', JStr (report_head_hash receipt)),
            (''ledger_event_count'', JInt (int (report_event_count receipt))), (''ledger_relpath'', JStr (ledger_relpath j)),
            (''prediction_commitment_sha256'', JStr c)] (JObj ?fields)"
    by (auto simp: settle_task_def b_bind_def b_lift_def Let_def bind_result_Inr_iff simp del: fold_simps jput.simps)
  have "req_idempotency_key ?r = outcome_key tk m run outcome" by (simp add: commitment_request_def outcome_key_def)
  then have fresh: "row_by ev_idempotency_key (req_idempotency_key ?r) es = None" using assms(5) by (auto simp: row_by_None_iff)
  note e = append_fresh [OF a assms(3) fresh]
  have "e \<notin> set es" using e(1) assms(5) by (auto simp: commitment_request_def)
  with append_loads [OF a assms(3,4)] have load: "load_locked (be_env be) lines' = Inr (es @ [norm_event e])" by blast
  then have head: "report_head_hash receipt = head_hash (es @ [norm_event e])" "report_event_count receipt = length (es @ [norm_event e])"
    using v(1) by (auto simp: ledger_verify_def)
  have r: "row = finished_row ?fields (es @ [norm_event e]) j c"
    unfolding row head finished_row_def by simp
  have none: "filter (commits se row c) es = []" using assms(5) by (auto simp: commits_def filter_empty_conv)
  have "commits se row c (norm_event e)"
    unfolding r commits_def by (simp add: e commitment_request_def finished_row_get get_null_obj get_null_sorted prediction_fields_def
      del: sort_keys.simps(8))
  with none load r v(3,4) assms(6,7) have "committed se ledgers row"
    by (auto simp: committed_def finished_row_get)
  with r load show ?thesis by blast
qed

text \<open>A name that is one component of a path.\<close>

definition path_name :: "string \<Rightarrow> bool" where
  "path_name s \<longleftrightarrow> s \<notin> {[], ''.'', ''..''} \<and> CHR ''/'' \<notin> set s"

lemma split_path_component: "CHR ''/'' \<notin> set p \<Longrightarrow> split_path (p @ CHR ''/'' # rest) = p # split_path rest"
  by (induction p) auto

lemma ledger_relpath_safe:
  assumes "path_name (tenant_id j)" and "path_name (job_id j)"
  shows "\<not> unsafe_relpath (ledger_relpath j)"
proof -
  have "split_path ''events.jsonl'' = [''events.jsonl'']" by code_simp
  then have parts: "path_parts (ledger_relpath j) = [tenant_id j, job_id j, ''events.jsonl'']"
    using assms split_path_component [of "tenant_id j" "job_id j @ ''/events.jsonl''"]
      split_path_component [of "job_id j" "''events.jsonl''"]
    by (simp add: path_parts_def ledger_relpath_def path_name_def)
  obtain c cs where "tenant_id j = c # cs" "c \<noteq> CHR ''/''" using assms(1) by (cases "tenant_id j") (auto simp: path_name_def)
  then have "\<not> starts_with ''/'' (ledger_relpath j)" by (simp add: starts_with_def ledger_relpath_def)
  moreover have "ends_with ''.jsonl'' ''events.jsonl''" by code_simp
  moreover have "''..'' \<notin> {tenant_id j, job_id j}" using assms by (auto simp: path_name_def)
  ultimately show ?thesis by (simp add: unsafe_relpath_def parts)
qed

text \<open>
  A task whose job failed or was cancelled still reaches the score: the row the runner returns is
  one the scorer accepts (a neutral UNRESOLVED prediction with a safe ledger path), and the ledger
  it leaves verifies with the head and the length the row states and holds exactly one event that
  commits to the row.  This rests on SHA-256 being written as 64 hex digits, ids that are path
  components, a ledger that loaded before and did not yet commit, and a fresh event id.
\<close>

theorem failed_task_is_scored:
  assumes "\<And>t. is_hex64 (sha256 (be_env be) t)" and "status j = FAILED \<or> status j = CANCELLED"
    and "challenge_id tk \<noteq> []" and "method_id m \<noteq> []" and "run \<noteq> []"
    and "0 \<le> used_calls j" and "0 \<le> used_tokens j" and "path_name (tenant_id j)" and "path_name (job_id j)"
    and "settle_task be d tk m run code j lines s0 = (Inr (row, lines'), s')"
    and "load_locked (be_env be) lines = Inr es" and "new_uuid d \<notin> event_id ` set es"
    and "\<forall>e \<in> set es. event_type e \<noteq> ''benchmark.prediction_committed'' \<and> ev_idempotency_key e \<noteq> outcome_key tk m run ''failed''"
    and "se_env se = be_env be" and "se_float se ''0.5'' = Some (1 / 2)" and "ledgers (ledger_relpath j) = LedgerFile lines'"
  shows "validate_prediction se row = Inr () \<and> verify_prediction_ledger se ledgers row = Inr ()"
proof -
  let ?fields = "prediction_fields tk m run ''failed'' (JStr ''UNRESOLVED'') (JFloat ''0.5'') [] (used_calls j) (used_tokens j)"
  obtain c s1 where set: "settled_prediction be tk m run code j s0 = (Inr (?fields, JStr c, ''failed''), s1)" and c: "is_hex64 c"
  proof -
    from assms(10) obtain x s1 where x: "settled_prediction be tk m run code j s0 = (Inr x, s1)"
      by (auto simp: settle_task_def b_bind_Inr_iff)
    then obtain c where "x = (?fields, JStr c, ''failed'')" "prediction_commitment (be_env be) (JObj ?fields) = Inr c"
      using assms(2) by (auto simp: settled_prediction_def failed_prediction_def b_bind_Inr_iff Let_def split: if_splits)
    moreover from this(2) have "is_hex64 c" using assms(1) by (auto simp: prediction_commitment_def bind_result_Inr_iff)
    ultimately show thesis using x that by blast
  qed
  have "id_unused (be_env be) (d, commitment_request tk m run j (JStr c) ''failed'') lines"
    using assms(11,12) by (simp add: id_unused_def commitment_request_def or_else_def)
  from settled_row_committed [where ledgers = ledgers, OF set assms(10,11) this assms(13,14,16)]
  obtain events where row: "row = finished_row ?fields events j c" and events: "events \<noteq> []" "load_locked (be_env be) lines' = Inr events"
    and ok: "committed se ledgers row" by blast
  from events have "validate_event (be_env be) (last events) = Inr ()"
    by (meson chain_member_valid last_in_set load_locked_iff)
  then have head: "is_hex64 (head_hash events)" using events(1) by (simp add: validate_event_iff head_hash_def)
  have "row = JObj (?fields @ [(''ledger_head'', JStr (head_hash events)), (''ledger_event_count'', JInt (int (length events))),
      (''ledger_relpath'', JStr (ledger_relpath j)), (''prediction_commitment_sha256'', JStr c)])"
    unfolding row finished_row_def by (simp add: prediction_fields_def)
  then have exact: "has_exact_fields row PREDICTION_FIELDS" "\<not> list_ex (field_missing row) PREDICTION_FIELDS"
    using assms(3-5) head c by (auto simp: has_exact_fields_def PREDICTION_FIELDS_def field_missing_def prediction_fields_def
      is_hex64_def ledger_relpath_def)
  have get: "get_null row k = (if k = ''prediction_commitment_sha256'' then JStr c else if k = ''ledger_relpath'' then JStr (ledger_relpath j)
     else if k = ''ledger_event_count'' then JInt (int (length events)) else if k = ''ledger_head'' then JStr (head_hash events)
     else case map_of ?fields k of None \<Rightarrow> JNull | Some w \<Rightarrow> w)" for k
    unfolding row by (simp add: finished_row_get get_null_obj)
  have "validate_prediction se row = Inr ()"
    unfolding validate_prediction_def
    using exact head c ledger_relpath_safe [OF assms(8,9)] assms(6,7,15)
    by (simp add: get prediction_fields_def in_unit_def natural_def is_sha256_def neutral_def DECISIONS_def)
  with ok show ?thesis by (simp add: verify_prediction_ledger_iff)
qed

definition failed_job :: job where
  "failed_job = (new_job 0 ''j'' small_request)\<lparr>status := FAILED\<rparr>"

lemma put_value_empty:
  assumes "validate_durable_payload v ''artifact'' = Inr ()" and "canonical_json v = Inr text"
    and "validate_id (tenant_id j) = Inr ()" and "validate_id (job_id j) = Inr ()" and "validate_id key = Inr ()"
  obtains ref s' where "put_value be j key v small_bench = (Inr ref, s')"
proof -
  let ?r = "\<lparr>put_tenant_id = tenant_id j, put_job_id = job_id j, put_logical_key = key,
     put_content = utf8 (text @ [CHR 0x0A]), put_media_type = ''application/json''\<rparr>"
  have "store_ok (be_digest be) empty_artifacts" by (simp add: store_ok_def empty_artifacts_def)
  moreover have "\<not> blank ''application/json''" by code_simp
  then have "check_put ?r = Inr ()" using assms(3-5) by (simp add: check_put_def utf8_def Let_def)
  moreover have "find_ref (ref_key (ref_of (be_digest be) ?r)) empty_artifacts = None"
    by (simp add: find_ref_def empty_artifacts_def row_by_def)
  ultimately obtain s' where "put_bytes (be_digest be) (be_now be) ?r empty_artifacts = (Inr (ref_of (be_digest be) ?r), s')"
    by (rule put_bytes_new)
  then show thesis using assms(1,2) by (intro that) (simp add: put_value_def small_bench_def put_json_def)
qed

definition settled_hash :: string where
  "settled_hash = replicate 64 (CHR ''a'')"

definition failure_json :: json where
  "failure_json = JObj (failed_prediction small_task (small_method True) ''r'' failed_job @
     [(''prediction_commitment_sha256'', JStr settled_hash), (''failure_code'', JStr ''CANCELLED'')])"

lemma failed_job_facts:
  "(case canonical_json failure_json of Inl e \<Rightarrow> False | Inr t \<Rightarrow> True)"
  "validate_durable_payload failure_json ''artifact'' = Inr ()"
  "validate_id (tenant_id failed_job) = Inr ()" "validate_id (job_id failed_job) = Inr ()"
  "validate_id ''baseline:failure_prediction'' = Inr ()"
  "prediction_commitment sample_env (JObj (failed_prediction small_task (small_method True) ''r'' failed_job)) = Inr settled_hash"
  "path_name (tenant_id failed_job)" "path_name (job_id failed_job)"
  "0 \<le> used_calls failed_job" "0 \<le> used_tokens failed_job" "status failed_job = FAILED"
  "last_error_code failed_job = None"
  by code_simp+

definition settled_rows :: "(json \<times> raw_line list) result" where
  "settled_rows = bind_result (ledger_append sample_env (sample_draw ''u'')
       (commitment_request small_task (small_method True) ''r'' failed_job (JStr settled_hash) ''failed'') []) (\<lambda>(e, lines').
     bind_result (ledger_verify sample_env lines') (\<lambda>receipt.
       let row = fold (\<lambda>(k, v) d. jput d k v) [(''ledger_head'', JStr (report_head_hash receipt)),
            (''ledger_event_count'', JInt (int (report_event_count receipt))), (''ledger_relpath'', JStr (ledger_relpath failed_job)),
            (''prediction_commitment_sha256'', JStr settled_hash)] (JObj (failed_prediction small_task (small_method True) ''r'' failed_job))
       in if report_ok receipt \<and> prediction_commitment sample_env row = Inr settled_hash then Inr (row, lines') else Inl (contract [])))"

lemma settled_rows_exist: "(case settled_rows of Inl e \<Rightarrow> False | Inr r \<Rightarrow> True)"
  by code_simp

lemma failed_job_settles:
  obtains row lines' s' where "settle_task small_env (sample_draw ''u'') small_task (small_method True) ''r'' [] failed_job [] small_bench =
    (Inr (row, lines'), s')" "settled_rows = Inr (row, lines')"
proof -
  obtain rendered where "canonical_json failure_json = Inr rendered" using failed_job_facts(1) by (auto split: sum.splits)
  then obtain ref s' where put: "put_value small_env failed_job ''baseline:failure_prediction'' failure_json small_bench = (Inr ref, s')"
    using put_value_empty failed_job_facts(2-5) by blast
  have "first_code [] (last_error_code failed_job) = ''CANCELLED''" by (simp add: first_code_def failed_job_facts(12))
  with put have "settled_prediction small_env small_task (small_method True) ''r'' [] failed_job small_bench =
      (Inr (failed_prediction small_task (small_method True) ''r'' failed_job, JStr settled_hash, ''failed''), s')"
    by (simp add: settled_prediction_def failed_job_facts(6,11) b_bind_def b_lift_def Let_def small_env_def failure_json_def)
  moreover obtain row lines' where "settled_rows = Inr (row, lines')" using settled_rows_exist by (auto split: sum.splits)
  ultimately show thesis
    by (intro that [of row lines' s']) (auto simp: settle_task_def settled_rows_def b_bind_def b_lift_def Let_def small_env_def
      bind_result_Inr_iff simp del: fold_simps jput.simps split: if_splits)
qed

theorem failed_task_is_scored_witness:
  "\<exists>row lines'. settled_rows = Inr (row, lines') \<and> validate_prediction small_score_env row = Inr () \<and>
     verify_prediction_ledger small_score_env (\<lambda>path. LedgerFile lines') row = Inr ()"
proof -
  obtain row lines' s' where settled: "settle_task small_env (sample_draw ''u'') small_task (small_method True) ''r'' [] failed_job [] small_bench =
      (Inr (row, lines'), s')" "settled_rows = Inr (row, lines')"
    by (rule failed_job_settles)
  have "is_hex64 (sha256 (be_env small_env) t)" for t
    by (simp add: small_env_def sample_env_def is_hex64_def hex_digits_def list_all_iff)
  moreover have "load_locked (be_env small_env) [] = Inr []" by (simp add: load_locked_def)
  ultimately have "validate_prediction small_score_env row = Inr () \<and>
      verify_prediction_ledger small_score_env (\<lambda>path. LedgerFile lines') row = Inr ()"
    using settled(1) failed_job_facts(7-11)
    by (intro failed_task_is_scored [where be = small_env and j = failed_job and tk = small_task and m = "small_method True"
          and run = "''r''" and lines = "[]" and es = "[]" and d = "sample_draw ''u''" and code = "[]" and ?s0.0 = small_bench])
       (auto simp: small_task_def small_method_def small_score_env_def small_env_def)
  with settled(2) show ?thesis by blast
qed

end
