(* ===== verification/Survey_Records.thy ===== *)
theory Survey_Records
  imports Values Graph Numbers
begin

text \<open>
  The records of a literature survey (\<open>src/survey/records.py\<close>): topics, documents, queries,
  passages, extracted relations and gaps, the checks on each, and the corpus that joins them.

  A dictionary is the association list of its items in insertion order.  Fields hold values of the
  types the record declares.  \<open>casefold\<close> is modelled on the code points below 256, where it is
  \<open>lower\<close> except that sharp s becomes two letters; the micro sign, whose fold lies outside, stands
  for itself, as no other character folds to it.
\<close>

section \<open>Text and identifiers\<close>

definition survey_error :: "string \<Rightarrow> py_exn" where
  "survey_error m = SurveyContractError m"

definition py_casefold :: "string \<Rightarrow> string" where
  "py_casefold s = concat (map (\<lambda>c. if c = CHR 0xDF then ''ss'' else [py_lower_char c]) s)"

text \<open>Runs of whitespace become one space, and none is left at the ends.\<close>

definition normalise_quote :: "string \<Rightarrow> string" where
  "normalise_quote s = py_casefold (join '' '' (py_split s))"

fun occurs_in :: "string \<Rightarrow> string \<Rightarrow> bool" where
  "occurs_in n [] = (n = [])"
| "occurs_in n (c # cs) = (take (length n) (c # cs) = n \<or> occurs_in n cs)"

text \<open>\<open>canonical_json\<close> of a value in which no float is infinite or not a number.\<close>

definition canonical_text :: "json \<Rightarrow> string" where
  "canonical_text v = render (sort_keys v)"

definition digest_id :: "py_env \<Rightarrow> string \<Rightarrow> json list \<Rightarrow> string" where
  "digest_id env prefix parts = prefix @ ''-'' @ take 16 (sha256 env (canonical_text (JList parts)))"

definition require_text :: "string \<Rightarrow> string \<Rightarrow> 'a result \<Rightarrow> 'a result" where
  "require_text value name k = raise_if (blank value) (survey_error (name @ '' is required'')) k"

definition one_of :: "string \<Rightarrow> string list \<Rightarrow> string \<Rightarrow> 'a result \<Rightarrow> 'a result" where
  "one_of value allowed name k = raise_if (strip value \<notin> set allowed) (survey_error (name @ '' must be one of the vocabulary'')) k"

definition opt_int :: "int option \<Rightarrow> json" where
  "opt_int x = (case x of None \<Rightarrow> JNull | Some i \<Rightarrow> JInt i)"

definition texts :: "string list \<Rightarrow> json" where
  "texts ss = JList (map JStr ss)"

section \<open>Vocabularies\<close>

definition DATABASE_SCIVERSE :: string where
  "DATABASE_SCIVERSE = ''Sciverse''"

definition PROPERTIES :: "string list" where
  "PROPERTIES = [''ZT'', ''Seebeck coefficient'', ''electrical conductivity'', ''electrical resistivity'',
     ''thermal conductivity'', ''lattice thermal conductivity'', ''power factor'', ''carrier concentration'',
     ''carrier mobility'', ''band gap'', ''effective mass'', ''phonon lifetime'', ''thermal stability'', ''hardness'']"

definition SOLID_ELECTROLYTE_PROPERTIES :: "string list" where
  "SOLID_ELECTROLYTE_PROPERTIES = [''ionic conductivity'', ''activation energy'', ''critical current density'',
     ''electrochemical window'', ''interfacial resistance'', ''area specific resistance'', ''air stability'',
     ''moisture stability'', ''cycling stability'', ''capacity retention'', ''transference number'',
     ''electronic conductivity'', ''formation energy'', ''energy above hull'', ''band gap'', ''thermal stability'',
     ''density'', ''phase stability'']"

definition property_set :: "string \<Rightarrow> string list option" where
  "property_set v = (if v = ''thermoelectric'' then Some PROPERTIES
     else if v = ''solid_electrolyte'' then Some SOLID_ELECTROLYTE_PROPERTIES else None)"

definition DIRECTIONS :: "string list" where
  "DIRECTIONS = [''increase'', ''decrease'', ''non_monotonic'', ''unchanged'', ''unclear'']"

definition METHODS :: "string list" where
  "METHODS = [''experiment'', ''dft'', ''simulation'', ''review'', ''unspecified'']"

definition GAP_KINDS :: "string list" where
  "GAP_KINDS = [''unexplored_combination'', ''contradictory_evidence'', ''single_source'', ''missing_condition'',
     ''unvalidated_mechanism'']"

definition NOVELTY :: "string list" where
  "NOVELTY = [''new'', ''known'']"

section \<open>Topics, documents and queries\<close>

record survey_topic =
  tp_topic_id :: string
  tp_title :: string
  tp_seed_queries :: "string list"
  tp_probe_questions :: "string list"
  tp_year_from :: "int option"
  tp_year_to :: "int option"
  tp_language :: string
  tp_domain :: string

definition years_reversed :: "survey_topic \<Rightarrow> bool" where
  "years_reversed t \<longleftrightarrow> (case (tp_year_from t, tp_year_to t) of (Some a, Some b) \<Rightarrow> b < a | _ \<Rightarrow> False)"

definition validate_topic :: "survey_topic \<Rightarrow> unit result" where
  "validate_topic t =
     require_text (tp_topic_id t) ''topic_id''
     (require_text (tp_title t) ''title''
     (raise_if (tp_seed_queries t = []) (survey_error ''a topic needs at least one seed query'')
     (raise_if (tp_probe_questions t = []) (survey_error ''a topic needs at least one probe question'')
     (raise_if (list_ex blank (tp_seed_queries t @ tp_probe_questions t)) (survey_error ''a topic query cannot be blank'')
     (raise_if (years_reversed t) (survey_error ''year_from cannot exceed year_to'') (Inr ()))))))"

definition topic_fingerprint :: "py_env \<Rightarrow> survey_topic \<Rightarrow> string" where
  "topic_fingerprint env t = digest_id env ''topic'' [JObj [(''title'', JStr (tp_title t)),
     (''seed_queries'', texts (tp_seed_queries t)), (''probe_questions'', texts (tp_probe_questions t)),
     (''year_from'', opt_int (tp_year_from t)), (''year_to'', opt_int (tp_year_to t)),
     (''language'', JStr (tp_language t)), (''domain'', JStr (tp_domain t))]]"

record document_record =
  dr_doc_id :: string
  dr_unique_id :: string
  dr_title :: string
  dr_year :: "int option"
  dr_venue :: string
  dr_doi :: string
  dr_citation_count :: int
  dr_database :: string

text \<open>\<open>$\<close> also matches before a final line feed.\<close>

definition doc_id_pattern :: "string \<Rightarrow> bool" where
  "doc_id_pattern s \<longleftrightarrow> is_hex64 s \<or> (s \<noteq> [] \<and> last s = CHR 0x0A \<and> is_hex64 (butlast s))"

definition plausible_year :: "int \<Rightarrow> bool" where
  "plausible_year y \<longleftrightarrow> 1600 \<le> y \<and> y \<le> 2100"

definition validate_document :: "document_record \<Rightarrow> unit result" where
  "validate_document d =
     require_text (dr_title d) ''title''
     (require_text (dr_database d) ''database''
     (raise_if (dr_doc_id d = [] \<and> dr_unique_id d = []) (survey_error ''a document needs a doc_id or a unique_id'')
     (raise_if (dr_doc_id d \<noteq> [] \<and> \<not> doc_id_pattern (dr_doc_id d)) (survey_error ''doc_id must be 64 hex characters'')
     (raise_if (case dr_year d of None \<Rightarrow> False | Some y \<Rightarrow> \<not> plausible_year y) (survey_error ''implausible publication year'')
     (Inr ())))))"

definition is_citable :: "document_record \<Rightarrow> bool" where
  "is_citable d \<longleftrightarrow> \<not> blank (dr_title d) \<and>
     (\<not> blank (dr_doi d) \<or> (\<not> blank (dr_venue d) \<and> dr_year d \<noteq> None \<and> dr_year d \<noteq> Some 0))"

record query_record =
  qr_query_id :: string
  qr_text :: string
  qr_stage :: string
  qr_intent :: string
  qr_n_hits :: int
  qr_total_matched :: "int option"
  qr_filters_fingerprint :: string
  qr_saturated :: bool
  qr_database :: string

definition validate_query :: "query_record \<Rightarrow> unit result" where
  "validate_query q =
     require_text (qr_query_id q) ''query_id''
     (one_of (qr_stage q) [''metadata'', ''semantic''] ''stage''
     (require_text (qr_intent q) ''intent''
     (require_text (qr_database q) ''database''
     (raise_if (qr_n_hits q < 0) (survey_error ''n_hits cannot be negative'')
     (raise_if (case qr_total_matched q of None \<Rightarrow> False | Some t \<Rightarrow> t < qr_n_hits q)
        (survey_error ''a query read more rows than matched'')
     (raise_if (qr_stage q = ''semantic'' \<and> blank (qr_text q)) (survey_error ''a semantic query cannot be blank'')
     (Inr ())))))))"

section \<open>Passages\<close>

record survey_passage =
  sp_passage_id :: string
  sp_doc_id :: string
  sp_query_id :: string
  sp_text :: string
  sp_content_sha256 :: string
  sp_offset :: "int option"
  sp_page_no :: "int option"
  sp_score :: json
  sp_retrieved_by :: string
  sp_database :: string

definition build_passage ::
  "py_env \<Rightarrow> string \<Rightarrow> string \<Rightarrow> string \<Rightarrow> int option \<Rightarrow> int option \<Rightarrow> json \<Rightarrow> survey_passage" where
  "build_passage env doc query body offset page score =
     (let digest = sha256 env body in
      \<lparr>sp_passage_id = digest_id env ''psg'' [JStr doc, opt_int offset, JStr digest], sp_doc_id = doc, sp_query_id = query,
       sp_text = body, sp_content_sha256 = digest, sp_offset = offset, sp_page_no = page, sp_score = score,
       sp_retrieved_by = ''agentic-search'', sp_database = DATABASE_SCIVERSE\<rparr>)"

definition validate_survey_passage :: "py_env \<Rightarrow> survey_passage \<Rightarrow> unit result" where
  "validate_survey_passage env p =
     require_text (sp_passage_id p) ''passage_id''
     (require_text (sp_doc_id p) ''doc_id''
     (require_text (sp_query_id p) ''query_id''
     (require_text (sp_database p) ''database''
     (raise_if (blank (sp_text p)) (survey_error ''a passage with no text cannot support a claim'')
     (raise_if (sha256 env (sp_text p) \<noteq> sp_content_sha256 p) (survey_error ''passage digest does not match its text'')
     (raise_if (case sp_offset p of None \<Rightarrow> False | Some i \<Rightarrow> i < 0) (survey_error ''a passage offset cannot be negative'')
     (Inr ())))))))"

definition supports_quote :: "survey_passage \<Rightarrow> string \<Rightarrow> bool" where
  "supports_quote p quote \<longleftrightarrow> normalise_quote quote \<noteq> [] \<and> occurs_in (normalise_quote quote) (normalise_quote (sp_text p))"

definition as_graph_passage :: "survey_passage \<Rightarrow> passage" where
  "as_graph_passage p = \<lparr>pa_passage_id = sp_passage_id p, pa_doc_id = sp_doc_id p, pa_query_id = sp_query_id p,
     pa_content_sha256 = sp_content_sha256 p, pa_offset = sp_offset p, pa_page_no = sp_page_no p\<rparr>"

section \<open>Relations\<close>

record extracted_relation =
  er_relation_id :: string
  er_passage_id :: string
  er_material :: string
  er_structural_feature :: string
  er_property_name :: string
  er_direction :: string
  er_quote :: string
  er_composition :: string
  er_value :: string
  er_unit :: string
  er_temperature_k :: string
  er_method :: string
  er_vocabulary :: string

text \<open>\<open>ExtractedRelation.build\<close>: the identifier of a relation whose other fields are given.\<close>

definition build_relation :: "py_env \<Rightarrow> extracted_relation \<Rightarrow> extracted_relation" where
  "build_relation env r = r\<lparr>er_relation_id := digest_id env ''rel'' (map JStr [er_passage_id r, er_material r,
     er_composition r, er_structural_feature r, er_property_name r, er_direction r])\<rparr>"

definition validate_relation :: "extracted_relation \<Rightarrow> unit result" where
  "validate_relation r =
     require_text (er_relation_id r) ''relation_id''
     (require_text (er_passage_id r) ''passage_id''
     (require_text (er_material r) ''material''
     (require_text (er_structural_feature r) ''structural_feature''
     (require_text (er_quote r) ''quote''
     (case property_set (er_vocabulary r) of
        None \<Rightarrow> Inl (survey_error ''vocabulary must be one of the property sets'')
      | Some properties \<Rightarrow>
          one_of (er_property_name r) properties ''property_name''
          (one_of (er_direction r) DIRECTIONS ''direction''
          (one_of (er_method r) METHODS ''method''
          (raise_if (er_value r \<noteq> [] \<and> er_unit r = [] \<and> er_property_name r \<noteq> ''ZT'')
             (survey_error ''value needs a unit to be comparable'') (Inr ())))))))))"

definition coverage_key :: "extracted_relation \<Rightarrow> string \<times> string \<times> string" where
  "coverage_key r = (py_casefold (er_material r), py_casefold (er_structural_feature r), er_property_name r)"

section \<open>Gaps\<close>

record research_gap =
  rg_gap_id :: string
  rg_kind :: string
  rg_statement :: string
  rg_novelty :: string
  rg_novelty_basis :: string
  rg_supporting_passages :: "string list"
  rg_supporting_relations :: "string list"
  rg_novelty_quote :: string

text \<open>\<open>tuple(dict.fromkeys(xs))\<close>: the first occurrences.\<close>

fun first_seen :: "'a list \<Rightarrow> 'a list" where
  "first_seen [] = []"
| "first_seen (x # xs) = x # filter (\<lambda>y. y \<noteq> x) (first_seen xs)"

text \<open>Consecutive slices of a positive size.\<close>

function slices :: "nat \<Rightarrow> 'a list \<Rightarrow> 'a list list" where
  "slices n xs = (if xs = [] \<or> n = 0 then [] else take n xs # slices n (drop n xs))"
  by pat_completeness auto
termination by (relation "measure (\<lambda>(n, xs). length xs)") auto

declare slices.simps [simp del]

definition build_gap ::
  "py_env \<Rightarrow> string \<Rightarrow> string \<Rightarrow> string \<Rightarrow> string \<Rightarrow> string list \<Rightarrow> string list \<Rightarrow> string \<Rightarrow> research_gap" where
  "build_gap env kind statement novelty basis ps rs quote =
     \<lparr>rg_gap_id = digest_id env ''gap'' [JStr kind, JStr statement, texts (first_seen ps)], rg_kind = kind,
      rg_statement = statement, rg_novelty = novelty, rg_novelty_basis = basis,
      rg_supporting_passages = first_seen ps, rg_supporting_relations = first_seen rs, rg_novelty_quote = quote\<rparr>"

definition validate_gap :: "research_gap \<Rightarrow> unit result" where
  "validate_gap g =
     require_text (rg_gap_id g) ''gap_id''
     (require_text (rg_statement g) ''statement''
     (require_text (rg_novelty_basis g) ''novelty_basis''
     (one_of (rg_kind g) GAP_KINDS ''kind''
     (one_of (rg_novelty g) NOVELTY ''novelty''
     (raise_if (rg_supporting_passages g = []) (survey_error ''gap cites no passage'')
     (raise_if (rg_novelty g = ''known'' \<and> blank (rg_novelty_quote g)) (survey_error ''a known gap quotes nothing'')
     (raise_if (rg_novelty g = ''new'' \<and> \<not> blank (rg_novelty_quote g)) (survey_error ''a new gap quotes a source recognising it'')
     (Inr ()))))))))"

section \<open>The corpus\<close>

record survey_corpus =
  co_topic :: survey_topic
  co_documents :: "(string \<times> document_record) list"
  co_passages :: "(string \<times> survey_passage) list"
  co_queries :: "(string \<times> query_record) list"

definition empty_corpus :: "survey_topic \<Rightarrow> survey_corpus" where
  "empty_corpus t = \<lparr>co_topic = t, co_documents = [], co_passages = [], co_queries = []\<rparr>"

definition document_key :: "document_record \<Rightarrow> string" where
  "document_key d = (if dr_doc_id d \<noteq> [] then dr_doc_id d else dr_unique_id d)"

definition add_document :: "document_record \<Rightarrow> survey_corpus \<Rightarrow> survey_corpus result" where
  "add_document d c = bind_result (validate_document d) (\<lambda>u.
     Inr (c\<lparr>co_documents := AList.update (document_key d) d (co_documents c)\<rparr>))"

definition add_query :: "query_record \<Rightarrow> survey_corpus \<Rightarrow> survey_corpus result" where
  "add_query q c = bind_result (validate_query q) (\<lambda>u.
     Inr (c\<lparr>co_queries := AList.update (qr_query_id q) q (co_queries c)\<rparr>))"

definition add_passage :: "py_env \<Rightarrow> survey_passage \<Rightarrow> survey_corpus \<Rightarrow> survey_corpus result" where
  "add_passage env p c = bind_result (validate_survey_passage env p) (\<lambda>u.
     Inr (c\<lparr>co_passages := AList.update (sp_passage_id p) p (co_passages c)\<rparr>))"

definition document_for :: "survey_corpus \<Rightarrow> survey_passage \<Rightarrow> document_record option" where
  "document_for c p = map_of (co_documents c) (sp_doc_id p)"

fun check_passages :: "py_env \<Rightarrow> survey_corpus \<Rightarrow> survey_passage list \<Rightarrow> unit result" where
  "check_passages env c [] = Inr ()"
| "check_passages env c (p # ps) = bind_result (validate_survey_passage env p) (\<lambda>u.
     raise_if (sp_doc_id p \<notin> fst ` set (co_documents c)) (survey_error ''passage cites a document that was never recorded'')
     (raise_if (sp_query_id p \<notin> fst ` set (co_queries c)) (survey_error ''passage came from a query that was never recorded'')
     (check_passages env c ps)))"

definition validate_corpus :: "py_env \<Rightarrow> survey_corpus \<Rightarrow> unit result" where
  "validate_corpus env c = bind_result (validate_topic (co_topic c)) (\<lambda>u. check_passages env c (map snd (co_passages c)))"

definition citable_documents :: "survey_corpus \<Rightarrow> (string \<times> document_record) list" where
  "citable_documents c = filter (\<lambda>(k, d). is_citable d) (co_documents c)"

definition sorted_set :: "'a::linorder list \<Rightarrow> 'a list" where
  "sorted_set xs = sort (remdups xs)"

definition corpus_years :: "survey_corpus \<Rightarrow> int list" where
  "corpus_years c = sorted_set (concat (map (\<lambda>(k, d). case dr_year d of None \<Rightarrow> [] | Some y \<Rightarrow> if y = 0 then [] else [y])
     (co_documents c)))"

definition count_of :: "('a \<Rightarrow> bool) \<Rightarrow> 'a list \<Rightarrow> json" where
  "count_of f xs = JInt (int (length (filter f xs)))"

definition corpus_manifest :: "py_env \<Rightarrow> survey_corpus \<Rightarrow> (string \<times> json) list" where
  "corpus_manifest env c = (let years = corpus_years c; queries = map snd (co_queries c) in
     [(''topic_id'', JStr (tp_topic_id (co_topic c))), (''topic_fingerprint'', JStr (topic_fingerprint env (co_topic c))),
      (''databases'', texts (sorted_set (map (dr_database \<circ> snd) (co_documents c)))),
      (''n_queries'', JInt (int (length (co_queries c)))), (''n_documents'', JInt (int (length (co_documents c)))),
      (''n_citable_documents'', JInt (int (length (citable_documents c)))),
      (''n_passages'', JInt (int (length (co_passages c)))),
      (''n_empty_queries'', count_of (\<lambda>q. qr_n_hits q = 0) queries),
      (''n_saturated_queries'', count_of qr_saturated queries),
      (''year_span'', JList (if years = [] then [] else [JInt (hd years), JInt (last years)]))])"

end
