(* ===== verification/Survey_Corpus.thy ===== *)
theory Survey_Corpus
  imports Survey_Records Sciverse_Client Dates
begin

text \<open>
  Assembling a survey corpus (\<open>src/survey/corpus.py\<close>): a metadata stage that fixes the candidate
  documents, a semantic stage restricted to them, and probes per document, each query recorded.

  The literature source is a parameter (the client of theory \<open>Sciverse_Client\<close> is one): a process that may raise and change a state of its own.
  \<open>float\<close> of text, the text of \<open>float\<close> of an integer, and \<open>str.format\<close> are parameters too.
\<close>

section \<open>Rows\<close>

definition SCOPE_SHARD_SIZE :: int where "SCOPE_SHARD_SIZE = 25"
definition METADATA_PAGE_SIZE :: int where "METADATA_PAGE_SIZE = 50"

definition METADATA_FIELDS :: "string list" where
  "METADATA_FIELDS = [''unique_id'', ''doc_id'', ''title'', ''doi'', ''publication_published_year'',
     ''publication_venue_name_unified'', ''citation_count'']"

record 's source =
  so_meta_search :: "string \<Rightarrow> json list \<Rightarrow> string list \<Rightarrow> int \<Rightarrow> ('s, json) process"
  so_agentic_search :: "string \<Rightarrow> int \<Rightarrow> json \<Rightarrow> ('s, json list) process"

record 's builder =
  cb_source :: "'s source"
  cb_env :: py_env
  cb_float :: "string \<Rightarrow> float_value option"
  cb_float_text :: "int \<Rightarrow> string"
  cb_format :: "string \<Rightarrow> (string \<times> json) list \<Rightarrow> string result"
  cb_max_candidates :: int
  cb_semantic_top_k :: int
  cb_min_passage_chars :: int
  cb_scope_shard_size :: int
  cb_citation_floor :: int
  cb_templates :: "string list"

definition builder_init :: "'s builder \<Rightarrow> 's builder result" where
  "builder_init b =
     raise_if (cb_max_candidates b < 1) (survey_error ''a survey needs at least one candidate document'')
     (raise_if (cb_max_candidates b > int MAX_DOC_ID_SCOPE) (survey_error ''max_candidates exceeds the semantic scope'') (Inr b))"

text \<open>\<open>int(float(v))\<close>, with \<open>TypeError\<close> and \<open>ValueError\<close> read as no number.\<close>

definition int_of_text :: "(string \<Rightarrow> float_value option) \<Rightarrow> string \<Rightarrow> int option result" where
  "int_of_text fl s = (case fl s of None \<Rightarrow> Inr None
     | Some v \<Rightarrow> (case int_of_float v of Inr i \<Rightarrow> Inr (Some i) | Inl e \<Rightarrow> if is_value_error e then Inr None else Inl e))"

fun int_or_none :: "(string \<Rightarrow> float_value option) \<Rightarrow> json \<Rightarrow> int option result" where
  "int_or_none fl JNull = Inr None"
| "int_or_none fl (JBool b) = Inr (Some (if b then 1 else 0))"
| "int_or_none fl (JInt i) = Inr (Some i)"
| "int_or_none fl (JFloat s) = int_of_text fl s"
| "int_or_none fl (JNonFinite s) = int_of_text fl s"
| "int_or_none fl (JStr s) = int_of_text fl s"
| "int_or_none fl v = Inr None"

definition keep_if :: "(int \<Rightarrow> bool) \<Rightarrow> int option \<Rightarrow> int option" where
  "keep_if f x = (case x of None \<Rightarrow> None | Some i \<Rightarrow> if f i then Some i else None)"

definition year_or_none :: "(string \<Rightarrow> float_value option) \<Rightarrow> json \<Rightarrow> int option result" where
  "year_or_none fl v = bind_result (int_or_none fl v) (\<lambda>x. Inr (keep_if plausible_year x))"

definition non_negative :: "(string \<Rightarrow> float_value option) \<Rightarrow> json \<Rightarrow> int option result" where
  "non_negative fl v = bind_result (int_or_none fl v) (\<lambda>x. Inr (keep_if (\<lambda>i. 0 \<le> i) x))"

definition field_text :: "json \<Rightarrow> string" where
  "field_text v = (if v = JNull then [] else strip (py_str v))"

definition document_from_row :: "(string \<Rightarrow> float_value option) \<Rightarrow> json \<Rightarrow> document_record option result" where
  "document_from_row fl row =
     (let doc_id = field_text (get_null row ''doc_id'') in
      if doc_id = [] then Inr None
      else bind_result (year_or_none fl (get_null row ''publication_published_year'')) (\<lambda>year.
        bind_result (non_negative fl (get_null row ''citation_count'')) (\<lambda>cites.
          let d = \<lparr>dr_doc_id = doc_id, dr_unique_id = field_text (get_null row ''unique_id''),
            dr_title = field_text (get_null row ''title''), dr_year = year,
            dr_venue = field_text (get_null row ''publication_venue_name_unified''), dr_doi = field_text (get_null row ''doi''),
            dr_citation_count = (case cites of None \<Rightarrow> 0 | Some n \<Rightarrow> n), dr_database = DATABASE_SCIVERSE\<rparr>
          in Inr (case validate_document d of Inl e \<Rightarrow> None | Inr u \<Rightarrow> Some d))))"

section \<open>Candidates\<close>

definition metadata_scope :: "survey_topic \<Rightarrow> int option \<Rightarrow> metadata_query" where
  "metadata_scope t least = \<lparr>mq_lang = tp_language t, mq_year_from = map_option JInt (tp_year_from t),
     mq_year_to = map_option JInt (tp_year_to t), mq_venue = [], mq_venue_type = [], mq_doi = [], mq_subjects = [],
     mq_keywords = [], mq_author = [], mq_min_citations = map_option JInt least, mq_open_access = None, mq_cites = [],
     mq_doc_ids = None, mq_require_full_text = True, mq_extra = []\<rparr>"

definition metadata_passes :: "'s builder \<Rightarrow> survey_topic \<Rightarrow> (string \<times> json list) list result" where
  "metadata_passes b t = bind_result (metadata_filters (metadata_scope t None)) (\<lambda>coverage.
     if cb_citation_floor b > 0 then bind_result (metadata_filters (metadata_scope t (Some (cb_citation_floor b))))
       (\<lambda>seminal. Inr [(''coverage'', coverage), (''seminal'', seminal)])
     else Inr [(''coverage'', coverage)])"

text \<open>The loop over the rows of an answer, with its \<open>break\<close> when the candidate set is full.\<close>

fun admit_rows :: "'s builder \<Rightarrow> json list \<Rightarrow> survey_corpus \<Rightarrow> survey_corpus result" where
  "admit_rows b [] c = Inr c"
| "admit_rows b (row # rows) c = bind_result (document_from_row (cb_float b) row) (\<lambda>d. case d of
     None \<Rightarrow> admit_rows b rows c
   | Some d \<Rightarrow>
       if document_key d \<in> fst ` set (co_documents c) then admit_rows b rows c
       else if int (length (co_documents c)) \<ge> cb_max_candidates b then Inr c
       else bind_result (add_document d c) (admit_rows b rows))"

definition metadata_record :: "py_env \<Rightarrow> string \<Rightarrow> json list \<Rightarrow> string \<Rightarrow> int \<Rightarrow> int option \<Rightarrow> query_record" where
  "metadata_record env intent filters query n matched =
     (let fingerprint = digest_id env ''flt'' [JList filters] in
      \<lparr>qr_query_id = digest_id env ''qry'' [JStr ''metadata'', JStr intent, JStr query, JStr fingerprint], qr_text = query,
       qr_stage = ''metadata'', qr_intent = intent, qr_n_hits = n, qr_total_matched = matched,
       qr_filters_fingerprint = fingerprint, qr_saturated = False, qr_database = DATABASE_SCIVERSE\<rparr>)"

definition candidate_query :: "'s builder \<Rightarrow> string \<Rightarrow> json list \<Rightarrow> string \<Rightarrow> survey_corpus \<Rightarrow> ('s, survey_corpus) process" where
  "candidate_query b intent filters query c =
     b_bind (so_meta_search (cb_source b) query filters METADATA_FIELDS
       (min METADATA_PAGE_SIZE (cb_max_candidates b - int (length (co_documents c))))) (\<lambda>envelope.
     b_lift (bind_result (bind_result (field envelope ''results'') dict_rows) (\<lambda>rows.
       bind_result (admit_rows b rows c) (\<lambda>c'.
       bind_result (non_negative (cb_float b) (get_null envelope ''total_count'')) (\<lambda>matched.
       add_query (metadata_record (cb_env b) intent filters query (int (length rows)) matched) c')))))"

fun candidate_loop :: "'s builder \<Rightarrow> (string \<times> json list \<times> string) list \<Rightarrow> survey_corpus \<Rightarrow> ('s, survey_corpus) process" where
  "candidate_loop b [] c = b_lift (Inr c)"
| "candidate_loop b ((intent, filters, query) # qs) c =
     (if cb_max_candidates b - int (length (co_documents c)) \<le> 0 then b_lift (Inr c)
      else b_bind (candidate_query b intent filters query c) (candidate_loop b qs))"

definition candidate_stage :: "'s builder \<Rightarrow> survey_topic \<Rightarrow> survey_corpus \<Rightarrow> ('s, survey_corpus) process" where
  "candidate_stage b t c = b_bind (b_lift (metadata_passes b t)) (\<lambda>passes.
     candidate_loop b (concat (map (\<lambda>(intent, filters). map (\<lambda>q. (intent, filters, q)) (tp_seed_queries t)) passes)) c)"

section \<open>Evidence\<close>

definition shards :: "'s builder \<Rightarrow> string list \<Rightarrow> string list list" where
  "shards b scope = slices (nat (max 1 (cb_scope_shard_size b))) scope"

definition score_value :: "'s builder \<Rightarrow> json \<Rightarrow> json" where
  "score_value b v = (case v of
     JInt i \<Rightarrow> JFloat (cb_float_text b i)
   | JBool x \<Rightarrow> JFloat (cb_float_text b (if x then 1 else 0))
   | JFloat s \<Rightarrow> JFloat s
   | JNonFinite s \<Rightarrow> JNonFinite s
   | _ \<Rightarrow> JNull)"

definition hit_text :: "json \<Rightarrow> string" where
  "hit_text hit = field_text (let v = get_null hit ''chunk''; w = get_null hit ''text'' in
     if truthy v then v else if truthy w then w else get_null hit ''content'')"

text \<open>One hit: \<open>accepts\<close> is the test on its document.\<close>

definition admit_hit :: "'s builder \<Rightarrow> (string \<Rightarrow> bool) \<Rightarrow> string \<Rightarrow> json \<Rightarrow> survey_corpus \<Rightarrow> survey_corpus result" where
  "admit_hit b accepts qid hit c =
     raise_if (\<not> is_dict hit) (AttributeError ''get'')
     (let doc = field_text (get_null hit ''doc_id''); body = hit_text hit in
      if \<not> accepts doc \<or> int (length body) < cb_min_passage_chars b then Inr c
      else bind_result (non_negative (cb_float b) (get_null hit ''offset'')) (\<lambda>offset.
        bind_result (non_negative (cb_float b) (get_null hit ''page_no'')) (\<lambda>page.
        add_passage (cb_env b) (build_passage (cb_env b) doc qid body offset page (score_value b (get_null hit ''score''))) c)))"

fun admit_hits :: "'s builder \<Rightarrow> (string \<Rightarrow> bool) \<Rightarrow> string \<Rightarrow> json list \<Rightarrow> survey_corpus \<Rightarrow> survey_corpus result" where
  "admit_hits b accepts qid [] c = Inr c"
| "admit_hits b accepts qid (h # hs) c = bind_result (admit_hit b accepts qid h c) (admit_hits b accepts qid hs)"

definition semantic_record :: "py_env \<Rightarrow> string \<Rightarrow> string \<Rightarrow> string \<Rightarrow> json \<Rightarrow> nat \<Rightarrow> query_record" where
  "semantic_record env qid question intent scope n = \<lparr>qr_query_id = qid, qr_text = question, qr_stage = ''semantic'',
     qr_intent = intent, qr_n_hits = int n, qr_total_matched = None, qr_filters_fingerprint = digest_id env ''flt'' [scope],
     qr_saturated = (n \<ge> SATURATION_TOP_K), qr_database = DATABASE_SCIVERSE\<rparr>"

definition semantic_query_step ::
  "'s builder \<Rightarrow> string \<Rightarrow> string \<Rightarrow> string \<Rightarrow> string list \<Rightarrow> (string \<Rightarrow> bool) \<Rightarrow> survey_corpus \<Rightarrow> ('s, survey_corpus) process" where
  "semantic_query_step b qid intent question scope accepts c =
     b_bind (b_lift (semantic_filters (no_filter\<lparr>sq_doc_ids := Some (map JStr scope)\<rparr>))) (\<lambda>filters.
     b_bind (so_agentic_search (cb_source b) question (cb_semantic_top_k b) filters) (\<lambda>hits.
     b_lift (bind_result (admit_hits b accepts qid hits c)
       (add_query (semantic_record (cb_env b) qid question intent (texts scope) (length hits))))))"

fun evidence_loop :: "'s builder \<Rightarrow> (string \<times> string list) list \<Rightarrow> survey_corpus \<Rightarrow> ('s, survey_corpus) process" where
  "evidence_loop b [] c = b_lift (Inr c)"
| "evidence_loop b ((question, shard) # rest) c =
     b_bind (semantic_query_step b (digest_id (cb_env b) ''qry'' [JStr ''semantic'', JStr question, texts shard])
       ''evidence'' question shard (\<lambda>doc. doc \<in> fst ` set (co_documents c)) c) (evidence_loop b rest)"

definition corpus_scope :: "survey_corpus \<Rightarrow> string list" where
  "corpus_scope c = sort (map fst (co_documents c))"

definition evidence_stage :: "'s builder \<Rightarrow> survey_topic \<Rightarrow> survey_corpus \<Rightarrow> ('s, survey_corpus) process" where
  "evidence_stage b t c = evidence_loop b
     (concat (map (\<lambda>q. map (\<lambda>shard. (q, shard)) (shards b (corpus_scope c))) (tp_probe_questions t))) c"

definition template_fields :: "survey_topic \<Rightarrow> document_record \<Rightarrow> (string \<times> json) list" where
  "template_fields t d = [(''title'', JStr (dr_title d)),
     (''year'', case dr_year d of None \<Rightarrow> JStr [] | Some y \<Rightarrow> if y = 0 then JStr [] else JInt y),
     (''venue'', JStr (dr_venue d)), (''doi'', JStr (dr_doi d)), (''unique_id'', JStr (dr_unique_id d)),
     (''domain'', JStr (tp_domain t))]"

fun probe_loop :: "'s builder \<Rightarrow> survey_topic \<Rightarrow> (string \<times> string) list \<Rightarrow> survey_corpus \<Rightarrow> ('s, survey_corpus) process" where
  "probe_loop b t [] c = b_lift (Inr c)"
| "probe_loop b t ((doc, template) # rest) c =
     b_bind (b_lift (case map_of (co_documents c) doc of
        None \<Rightarrow> Inl (KeyError doc) | Some d \<Rightarrow> cb_format b template (template_fields t d))) (\<lambda>question.
     b_bind (semantic_query_step b (digest_id (cb_env b) ''qry'' [JStr ''semantic-document'', JStr question, JStr doc])
       ''document_evidence'' question [doc] (\<lambda>hit_doc. hit_doc = doc) c) (probe_loop b t rest))"

definition document_probe_stage :: "'s builder \<Rightarrow> survey_topic \<Rightarrow> survey_corpus \<Rightarrow> ('s, survey_corpus) process" where
  "document_probe_stage b t c = probe_loop b t
     (concat (map (\<lambda>doc. map (\<lambda>tm. (doc, tm)) (cb_templates b)) (corpus_scope c))) c"

definition build_corpus :: "'s builder \<Rightarrow> survey_topic \<Rightarrow> ('s, survey_corpus) process" where
  "build_corpus b t =
     b_bind (b_lift (validate_topic t)) (\<lambda>u.
     b_bind (candidate_stage b t (empty_corpus t)) (\<lambda>c1.
     b_bind (evidence_stage b t c1) (\<lambda>c2.
     b_bind (document_probe_stage b t c2) (\<lambda>c3.
     b_lift (bind_result (validate_corpus (cb_env b) c3) (\<lambda>u. Inr c3))))))"

section \<open>Coverage\<close>

definition documents_read :: "survey_corpus \<Rightarrow> string list" where
  "documents_read c = remdups (map (sp_doc_id \<circ> snd) (co_passages c))"

definition unread_documents :: "survey_corpus \<Rightarrow> string list" where
  "unread_documents c = filter (\<lambda>k. k \<notin> set (documents_read c)) (corpus_scope c)"

definition passages_per_document :: "survey_corpus \<Rightarrow> int list" where
  "passages_per_document c = map (\<lambda>doc. int (length (filter (\<lambda>(k, p). sp_doc_id p = doc) (co_passages c)))) (documents_read c)"

definition PROTOCOL :: "bool \<Rightarrow> int \<Rightarrow> json" where
  "PROTOCOL probed n = JObj [(''stage_one'', JStr ''relevance-ranked metadata search, hard filters, no sort''),
     (''stage_one_passes'', texts [''coverage'', ''seminal'']),
     (''anchoring_bias'', JStr (''the seminal pass applies a citation floor, so the corpus is not a uniform '' @
        ''sample of the field and leans towards work that has had time to be cited'')),
     (''stage_two'', JStr (''semantic search scoped to the candidate doc_ids in slices of '' @ show_int SCOPE_SHARD_SIZE @
        '', top_k='' @ show_int (int SATURATION_TOP_K) @ '' per slice'')),
     (''scope_is_enforced_server_side'', JBool True), (''document_probes'', JBool probed),
     (''document_probe_count'', JInt n)]"

definition coverage_report :: "py_env \<Rightarrow> survey_corpus \<Rightarrow> json result" where
  "coverage_report env c = bind_result (validate_corpus env c) (\<lambda>u.
     let counts = passages_per_document c; queries = map snd (co_queries c);
         probes = filter (\<lambda>q. qr_intent q = ''document_evidence'') queries in
     Inr (JObj (corpus_manifest env c @
       [(''n_documents_with_evidence'', JInt (int (length (documents_read c)))),
        (''n_documents_unread'', JInt (int (length (unread_documents c)))),
        (''unread_document_ids'', texts (unread_documents c)),
        (''passages_per_document'', JObj [(''min'', JInt (if counts = [] then 0 else Min (set counts))),
          (''max'', JInt (if counts = [] then 0 else Max (set counts)))]),
        (''queries_returning_nothing'', texts (sort (map qr_text (filter (\<lambda>q. qr_n_hits q = 0) queries)))),
        (''n_document_probes'', JInt (int (length probes))),
        (''n_empty_document_probes'', count_of (\<lambda>q. qr_n_hits q = 0) probes),
        (''protocol'', PROTOCOL (probes \<noteq> []) (int (length probes)))])))"

end
