(* ===== verification/Survey_Laws.thy ===== *)
theory Survey_Laws
  imports Survey_Gaps Survey_Corpus
begin

text \<open>
  Laws of the survey: the corpus stays closed under its own references through every step of the
  protocol, and the extraction admits only relations its gates accept.
\<close>

section \<open>Guards\<close>

lemma require_text_Inr_iff [simp]: "require_text v n k = Inr y \<longleftrightarrow> \<not> blank v \<and> k = Inr y"
  by (simp add: require_text_def raise_if_def)

lemma one_of_Inr_iff [simp]: "one_of v vs n k = Inr y \<longleftrightarrow> strip v \<in> set vs \<and> k = Inr y"
  by (simp add: one_of_def raise_if_def)

lemma set_first_seen [simp]: "set (first_seen xs) = set xs"
  by (induction xs) auto

lemma distinct_first_seen [simp]: "distinct (first_seen xs)"
  by (induction xs) auto

lemma set_sorted_set [simp]: "set (sorted_set xs) = set xs"
  by (simp add: sorted_set_def)

lemma distinct_sorted_set [simp]: "distinct (sorted_set xs)"
  by (simp add: sorted_set_def)

lemma concat_slices: "0 < n \<Longrightarrow> concat (slices n xs) = xs"
  by (induction n xs rule: slices.induct) (subst slices.simps, simp)

lemma slices_bounded: "b \<in> set (slices n xs) \<Longrightarrow> b \<noteq> [] \<and> length b \<le> n \<and> set b \<subseteq> set xs"
proof (induction n xs rule: slices.induct)
  case (1 n xs)
  then consider "b = take n xs" "xs \<noteq> []" "n \<noteq> 0" | "b \<in> set (slices n (drop n xs))" "xs \<noteq> []" "n \<noteq> 0"
    by (subst (asm) (3) slices.simps) (auto split: if_splits)
  then show ?case using 1(1) by cases (auto dest: in_set_takeD in_set_dropD)
qed

section \<open>A corpus closed under its references\<close>

definition document_ok :: "string \<times> document_record \<Rightarrow> bool" where
  "document_ok kd \<longleftrightarrow> fst kd = document_key (snd kd) \<and> validate_document (snd kd) = Inr ()"

definition query_record_ok :: "string \<times> query_record \<Rightarrow> bool" where
  "query_record_ok kq \<longleftrightarrow> fst kq = qr_query_id (snd kq) \<and> validate_query (snd kq) = Inr ()"

definition document_keys :: "survey_corpus \<Rightarrow> string set" where
  "document_keys c = fst ` set (co_documents c)"

definition query_keys :: "survey_corpus \<Rightarrow> string set" where
  "query_keys c = fst ` set (co_queries c)"

text \<open>Passages may cite the query under way before its record is written.\<close>

definition survey_passage_ok :: "py_env \<Rightarrow> string set \<Rightarrow> string set \<Rightarrow> string \<times> survey_passage \<Rightarrow> bool" where
  "survey_passage_ok env docs asked kp \<longleftrightarrow> fst kp = sp_passage_id (snd kp) \<and> validate_survey_passage env (snd kp) = Inr () \<and>
     sp_doc_id (snd kp) \<in> docs \<and> sp_query_id (snd kp) \<in> asked"

definition keys_distinct :: "survey_corpus \<Rightarrow> bool" where
  "keys_distinct c \<longleftrightarrow> distinct (map fst (co_documents c)) \<and> distinct (map fst (co_passages c)) \<and>
     distinct (map fst (co_queries c))"

definition corpus_ok :: "py_env \<Rightarrow> string set \<Rightarrow> survey_corpus \<Rightarrow> bool" where
  "corpus_ok env pending c \<longleftrightarrow> keys_distinct c \<and> list_all document_ok (co_documents c) \<and>
     list_all query_record_ok (co_queries c) \<and>
     list_all (survey_passage_ok env (document_keys c) (query_keys c \<union> pending)) (co_passages c)"

lemma keys_update: "fst ` set (AList.update k v al) = insert k (fst ` set al)"
  by (induction al) auto

lemma list_all_update: "list_all P al \<Longrightarrow> P (k, v) \<Longrightarrow> list_all P (AList.update k v al)"
  by (induction al) auto

lemma empty_corpus_ok: "corpus_ok env pending (empty_corpus t)"
  by (simp add: corpus_ok_def keys_distinct_def empty_corpus_def)

lemma passages_widen:
  "list_all (survey_passage_ok env docs asked) ps \<Longrightarrow> docs \<subseteq> docs2 \<Longrightarrow> asked \<subseteq> asked2 \<Longrightarrow>
     list_all (survey_passage_ok env docs2 asked2) ps"
  by (erule list.pred_mono_strong) (auto simp: survey_passage_ok_def)

lemma add_document_ok:
  assumes "corpus_ok env pending c" and "add_document d c = Inr c'"
  shows "corpus_ok env pending c'"
proof -
  have v: "validate_document d = Inr ()" and c': "c' = c\<lparr>co_documents := AList.update (document_key d) d (co_documents c)\<rparr>"
    using assms(2) by (auto simp: add_document_def)
  have "document_keys c \<subseteq> document_keys c'" "query_keys c' = query_keys c"
    by (auto simp: c' document_keys_def query_keys_def keys_update)
  with assms(1) v show ?thesis
    unfolding corpus_ok_def by (auto simp: c' keys_distinct_def document_ok_def distinct_update
      intro!: list_all_update elim!: passages_widen)
qed

lemma add_query_ok:
  assumes "corpus_ok env (insert (qr_query_id q) pending) c" and "add_query q c = Inr c'"
  shows "corpus_ok env pending c'"
proof -
  have v: "validate_query q = Inr ()" and c': "c' = c\<lparr>co_queries := AList.update (qr_query_id q) q (co_queries c)\<rparr>"
    using assms(2) by (auto simp: add_query_def)
  have "document_keys c' = document_keys c" "query_keys c \<union> insert (qr_query_id q) pending \<subseteq> query_keys c' \<union> pending"
    by (auto simp: c' document_keys_def query_keys_def keys_update)
  with assms(1) v show ?thesis
    unfolding corpus_ok_def by (auto simp: c' keys_distinct_def query_record_ok_def distinct_update
      intro!: list_all_update elim!: passages_widen)
qed

lemma add_passage_ok:
  assumes "corpus_ok env pending c" and "add_passage env p c = Inr c'"
    and "sp_doc_id p \<in> document_keys c" and "sp_query_id p \<in> pending"
  shows "corpus_ok env pending c'"
proof -
  have v: "validate_survey_passage env p = Inr ()"
    and c': "c' = c\<lparr>co_passages := AList.update (sp_passage_id p) p (co_passages c)\<rparr>"
    using assms(2) by (auto simp: add_passage_def)
  have "document_keys c' = document_keys c" "query_keys c' = query_keys c"
    by (auto simp: c' document_keys_def query_keys_def)
  with assms v show ?thesis
    unfolding corpus_ok_def by (auto simp: c' keys_distinct_def survey_passage_ok_def distinct_update intro!: list_all_update)
qed

lemma corpus_ok_pending: "corpus_ok env pending c \<Longrightarrow> pending \<subseteq> pending' \<Longrightarrow> corpus_ok env pending' c"
  unfolding corpus_ok_def by (blast intro: passages_widen)

lemma check_passages_Inr:
  "check_passages env c ps = Inr () \<longleftrightarrow> (\<forall>p \<in> set ps. validate_survey_passage env p = Inr () \<and>
     sp_doc_id p \<in> document_keys c \<and> sp_query_id p \<in> query_keys c)"
  unfolding document_keys_def query_keys_def by (induction ps) (simp_all add: bind_result_Inr_iff)

lemma corpus_ok_validates:
  assumes "corpus_ok env {} c" and "validate_topic (co_topic c) = Inr ()"
  shows "validate_corpus env c = Inr ()"
  using assms by (auto simp: validate_corpus_def check_passages_Inr corpus_ok_def survey_passage_ok_def list_all_iff)

section \<open>The protocol\<close>

definition corpus_at :: "'s builder \<Rightarrow> survey_topic \<Rightarrow> string set \<Rightarrow> survey_corpus \<Rightarrow> bool" where
  "corpus_at b t pending c \<longleftrightarrow> corpus_ok (cb_env b) pending c \<and> co_topic c = t \<and>
     int (length (co_documents c)) \<le> cb_max_candidates b \<and>
     list_all (\<lambda>kp. cb_min_passage_chars b \<le> int (length (sp_text (snd kp)))) (co_passages c)"

definition corpus_kept :: "'s builder \<Rightarrow> survey_topic \<Rightarrow> ('s, survey_corpus) process \<Rightarrow> bool" where
  "corpus_kept b t f \<longleftrightarrow> (\<forall>s c s'. f s = (Inr c, s') \<longrightarrow> corpus_at b t {} c)"

lemma update_new_key: "k \<notin> fst ` set al \<Longrightarrow> AList.update k v al = al @ [(k, v)]"
  by (induction al) auto

lemma corpus_kept_Inr: "(\<And>c. r = Inr c \<Longrightarrow> corpus_at b t {} c) \<Longrightarrow> corpus_kept b t (b_lift r)"
  by (auto simp: corpus_kept_def b_lift_def)

lemma corpus_kept_bind:
  "(\<And>s x s'. f s = (Inr x, s') \<Longrightarrow> corpus_kept b t (k x)) \<Longrightarrow> corpus_kept b t (b_bind f k)"
  by (fastforce simp: corpus_kept_def b_bind_def split: prod.splits sum.splits)

lemma corpus_keptD: "corpus_kept b t f \<Longrightarrow> f s = (Inr c, s') \<Longrightarrow> corpus_at b t {} c"
  unfolding corpus_kept_def by blast

lemma corpus_kept_done: "corpus_at b t {} c \<Longrightarrow> corpus_kept b t (b_lift (Inr c))"
  by (rule corpus_kept_Inr) simp

lemma corpus_kept_then:
  assumes "corpus_kept b t f" and "\<And>c. corpus_at b t {} c \<Longrightarrow> corpus_kept b t (k c)"
  shows "corpus_kept b t (b_bind f k)"
  by (rule corpus_kept_bind) (rule assms(2) [OF corpus_keptD [OF assms(1)]])

lemma add_query_at:
  assumes "corpus_at b t {qr_query_id q} c" and "add_query q c = Inr c'"
  shows "corpus_at b t {} c'"
  using assms add_query_ok [of "cb_env b" q "{}" c c'] by (auto simp: corpus_at_def add_query_def)

lemma corpus_at_pending: "corpus_at b t pending c \<Longrightarrow> pending \<subseteq> pending' \<Longrightarrow> corpus_at b t pending' c"
  by (auto simp: corpus_at_def intro: corpus_ok_pending)

lemma admit_document_at:
  assumes "corpus_at b t pending c" and "add_document d c = Inr c'"
    and "document_key d \<notin> document_keys c" and "\<not> cb_max_candidates b \<le> int (length (co_documents c))"
  shows "corpus_at b t pending c'"
  using assms add_document_ok [of "cb_env b" pending c d c']
  by (auto simp: corpus_at_def add_document_def update_new_key document_keys_def)

lemma admit_rows_ConsE:
  assumes "admit_rows b (row # rows) c = Inr c'"
  obtains (skip) "admit_rows b rows c = Inr c'" | (full) "c' = c"
    | (add) r c1 where "document_key r \<notin> document_keys c" "\<not> cb_max_candidates b \<le> int (length (co_documents c))"
        "add_document r c = Inr c1" "admit_rows b rows c1 = Inr c'"
proof -
  from assms obtain d where rest: "(case d of None \<Rightarrow> admit_rows b rows c | Some d \<Rightarrow>
       if document_key d \<in> fst ` set (co_documents c) then admit_rows b rows c
       else if int (length (co_documents c)) \<ge> cb_max_candidates b then Inr c
       else bind_result (add_document d c) (admit_rows b rows)) = Inr c'"
    unfolding admit_rows.simps by (elim bind_result_InrE) (rule that)
  show thesis
  proof (cases d)
    case None
    then show ?thesis using rest by (intro skip) simp
  next
    case (Some r)
    consider "admit_rows b rows c = Inr c'" | "Inr c = (Inr c' :: survey_corpus result)"
      | "document_key r \<notin> document_keys c" "\<not> cb_max_candidates b \<le> int (length (co_documents c))"
        "bind_result (add_document r c) (admit_rows b rows) = Inr c'"
      using rest unfolding Some option.case document_keys_def by (metis (no_types, lifting))
    then show ?thesis
    proof cases
      case 3
      from 3(3) show ?thesis by (rule bind_result_InrE) (rule add [OF 3(1,2)])
    qed (use skip full in auto)
  qed
qed

lemma admit_rows_at: "corpus_at b t pending c \<Longrightarrow> admit_rows b rows c = Inr c' \<Longrightarrow> corpus_at b t pending c'"
proof (induction rows arbitrary: c)
  case (Cons row rows)
  from Cons.prems(2) show ?case
  proof (cases rule: admit_rows_ConsE)
    case (add r c1)
    with Cons.IH admit_document_at [OF Cons.prems(1)] show ?thesis by blast
  qed (use Cons in auto)
qed simp

lemma candidate_query_kept:
  assumes "corpus_at b t {} c"
  shows "corpus_kept b t (candidate_query b intent filters query c)"
  unfolding candidate_query_def
proof (intro corpus_kept_bind corpus_kept_Inr, elim bind_result_InrE)
  fix envelope rows c1 matched c'
  assume "admit_rows b rows c = Inr c1"
    and q: "add_query (metadata_record (cb_env b) intent filters query (int (length rows)) matched) c1 = Inr c'"
  then have "corpus_at b t {} c1" using admit_rows_at [OF assms] by blast
  then show "corpus_at b t {} c'" by (rule add_query_at [OF corpus_at_pending q]) simp
qed

lemma candidate_loop_kept: "corpus_at b t {} c \<Longrightarrow> corpus_kept b t (candidate_loop b qs c)"
proof (induction qs arbitrary: c)
  case Nil
  then show ?case by (simp add: corpus_kept_done)
next
  case (Cons q qs)
  obtain intent filters query where q: "q = (intent, filters, query)" by (cases q)
  show ?case unfolding q candidate_loop.simps
    by (simp add: corpus_kept_done Cons.prems corpus_kept_then [OF candidate_query_kept [OF Cons.prems] Cons.IH])
qed

lemma build_passage_fields [simp]:
  "sp_doc_id (build_passage env doc qid body offset page score) = doc"
  "sp_query_id (build_passage env doc qid body offset page score) = qid"
  "sp_text (build_passage env doc qid body offset page score) = body"
  by (simp_all add: build_passage_def Let_def)

lemma admit_hit_at:
  assumes "corpus_at b t {qid} c" and "admit_hit b accepts qid hit c = Inr c'"
    and accepted: "\<And>doc. accepts doc \<Longrightarrow> doc \<in> document_keys c"
  shows "corpus_at b t {qid} c' \<and> co_documents c' = co_documents c"
proof (cases "c' = c")
  case True
  with assms(1) show ?thesis by simp
next
  case False
  with assms(2) obtain offset page where add: "accepts (field_text (get_null hit ''doc_id''))"
      "cb_min_passage_chars b \<le> int (length (hit_text hit))"
      "add_passage (cb_env b) (build_passage (cb_env b) (field_text (get_null hit ''doc_id'')) qid (hit_text hit) offset page
         (score_value b (get_null hit ''score''))) c = Inr c'"
    by (auto simp: admit_hit_def Let_def raise_if_def not_less split: if_splits)
  have "co_topic c' = co_topic c" "co_documents c' = co_documents c"
    using add(3) by (auto simp: add_passage_def)
  moreover have "list_all (\<lambda>kp. cb_min_passage_chars b \<le> int (length (sp_text (snd kp)))) (co_passages c')"
    using add(2,3) assms(1) by (auto simp: add_passage_def corpus_at_def intro!: list_all_update)
  moreover have "corpus_ok (cb_env b) {qid} c'"
    by (rule add_passage_ok [OF _ add(3)]) (use assms(1) accepted [OF add(1)] in \<open>simp_all add: corpus_at_def\<close>)
  ultimately show ?thesis using assms(1) by (simp add: corpus_at_def)
qed

lemma admit_hits_at:
  assumes "corpus_at b t {qid} c" and "admit_hits b accepts qid hits c = Inr c'"
    and "\<And>doc. accepts doc \<Longrightarrow> doc \<in> document_keys c"
  shows "corpus_at b t {qid} c'"
  using assms
proof (induction hits arbitrary: c)
  case (Cons h hs)
  then obtain c1 where "admit_hit b accepts qid h c = Inr c1" "admit_hits b accepts qid hs c1 = Inr c'" by auto
  with Cons.IH [of c1] Cons.prems admit_hit_at [of b t qid c accepts h c1] show ?case by (simp add: document_keys_def)
qed simp

lemma semantic_query_kept:
  assumes "corpus_at b t {} c" and "\<And>doc. accepts doc \<Longrightarrow> doc \<in> document_keys c"
  shows "corpus_kept b t (semantic_query_step b qid intent question scope accepts c)"
  unfolding semantic_query_step_def
proof (intro corpus_kept_bind corpus_kept_Inr)
  fix hits c'
  assume "bind_result (admit_hits b accepts qid hits c)
    (add_query (semantic_record (cb_env b) qid question intent (texts scope) (length hits))) = Inr c'"
  then obtain c1 where "admit_hits b accepts qid hits c = Inr c1"
    "add_query (semantic_record (cb_env b) qid question intent (texts scope) (length hits)) c1 = Inr c'" by auto
  moreover from this have "corpus_at b t {qid} c1"
    using admit_hits_at [of b t qid c accepts hits c1] corpus_at_pending [OF assms(1)] assms(2) by blast
  ultimately show "corpus_at b t {} c'" by (intro add_query_at) (simp_all add: semantic_record_def)
qed

lemma evidence_loop_kept: "corpus_at b t {} c \<Longrightarrow> corpus_kept b t (evidence_loop b qs c)"
proof (induction qs arbitrary: c)
  case Nil
  then show ?case by (simp add: corpus_kept_done)
next
  case (Cons q qs)
  obtain question shard where q: "q = (question, shard)" by (cases q)
  show ?case unfolding q evidence_loop.simps
    by (rule corpus_kept_then [OF semantic_query_kept [OF Cons.prems] Cons.IH]) (simp add: document_keys_def)
qed

lemma probe_loop_kept: "corpus_at b t {} c \<Longrightarrow> corpus_kept b t (probe_loop b t2 qs c)"
proof (induction qs arbitrary: c)
  case Nil
  then show ?case by (simp add: corpus_kept_done)
next
  case (Cons q qs)
  obtain doc template where q: "q = (doc, template)" by (cases q)
  show ?case unfolding q probe_loop.simps
  proof (rule corpus_kept_bind, rule corpus_kept_then [OF semantic_query_kept [OF Cons.prems] Cons.IH])
    fix s question s' hit_doc
    assume "b_lift (case map_of (co_documents c) doc of None \<Rightarrow> Inl (KeyError doc)
      | Some d \<Rightarrow> cb_format b template (template_fields t2 d)) s = (Inr question, s')" and "hit_doc = doc"
    then show "hit_doc \<in> document_keys c"
      by (auto simp: document_keys_def split: option.splits dest!: map_of_SomeD intro: rev_image_eqI)
  qed
qed

text \<open>The three stages of the protocol, without the validation that follows them.\<close>

definition protocol_stages :: "'s builder \<Rightarrow> survey_topic \<Rightarrow> ('s, survey_corpus) process" where
  "protocol_stages b t = b_bind (b_lift (validate_topic t)) (\<lambda>u.
     b_bind (candidate_stage b t (empty_corpus t)) (\<lambda>c1. b_bind (evidence_stage b t c1) (document_probe_stage b t)))"

lemma protocol_stages_kept:
  assumes "0 \<le> cb_max_candidates b"
  shows "corpus_kept b t (protocol_stages b t)"
proof -
  have "corpus_at b t {} (empty_corpus t)"
    using assms empty_corpus_ok by (simp add: corpus_at_def empty_corpus_def) 
  then have stages: "corpus_kept b t (candidate_stage b t (empty_corpus t))"
    "\<And>c. corpus_at b t {} c \<Longrightarrow> corpus_kept b t (evidence_stage b t c)"
    "\<And>c. corpus_at b t {} c \<Longrightarrow> corpus_kept b t (document_probe_stage b t c)"
    by (auto simp: candidate_stage_def evidence_stage_def document_probe_stage_def
      intro!: corpus_kept_bind candidate_loop_kept evidence_loop_kept probe_loop_kept)
  show ?thesis unfolding protocol_stages_def
    by (intro corpus_kept_bind [of "b_lift (validate_topic t)"] corpus_kept_then stages)
qed

section \<open>Admitted relations\<close>

definition number_backed :: "string \<Rightarrow> string \<Rightarrow> bool" where
  "number_backed number quote \<longleftrightarrow> number = [] \<or> numbers_are_backed number quote"

text \<open>What the gates promise of an admitted relation and its identifier.\<close>

definition relation_gated :: "extractor \<Rightarrow> survey_corpus \<Rightarrow> string \<times> extracted_relation \<Rightarrow> bool" where
  "relation_gated x c ir \<longleftrightarrow> (case ir of (i, r) \<Rightarrow> i = er_relation_id r \<and> r = build_relation (xt_env x) r \<and>
     er_vocabulary r = xt_vocabulary x \<and> validate_relation r = Inr () \<and>
     number_backed (er_value r) (er_quote r) \<and> number_backed (er_temperature_k r) (er_quote r) \<and>
     (case map_of (co_passages c) (er_passage_id r) of None \<Rightarrow> False | Some p \<Rightarrow> supports_quote p (er_quote r)))"

definition extraction_ok :: "extractor \<Rightarrow> survey_corpus \<Rightarrow> extraction_result \<Rightarrow> bool" where
  "extraction_ok x c r \<longleftrightarrow> distinct (map fst (ex_relations r)) \<and> list_all (relation_gated x c) (ex_relations r) \<and>
     list_all (\<lambda>j. rj_reason j \<in> set REJECTION_REASONS) (ex_rejections r)"

lemma proposed_relation_fields [simp]:
  "er_passage_id (proposed_relation x v) = proposed v ''passage_id''"
  "er_quote (proposed_relation x v) = proposed v ''quote''"
  "er_value (proposed_relation x v) = proposed v ''value''"
  "er_temperature_k (proposed_relation x v) = proposed v ''temperature_k''"
  "er_vocabulary (proposed_relation x v) = xt_vocabulary x"
  by (simp_all add: proposed_relation_def build_relation_def Let_def)

lemma build_relation_idem: "build_relation env (build_relation env r) = build_relation env r"
  by (simp add: build_relation_def)

lemma refusal_reasons: "refusal x v exposed r = Some why \<Longrightarrow> why \<in> set REJECTION_REASONS"
  by (auto simp: refusal_def REJECTION_REASONS_def Let_def split: option.splits sum.splits if_splits)

lemma refusal_NoneD:
  assumes "refusal x v exposed r = None"
  obtains p where "map_of exposed (proposed v ''passage_id'') = Some p" "supports_quote p (proposed v ''quote'')"
    "number_backed (proposed v ''value'') (proposed v ''quote'')"
    "number_backed (proposed v ''temperature_k'') (proposed v ''quote'')"
    "validate_relation (proposed_relation x v) = Inr ()"
    "er_relation_id (proposed_relation x v) \<notin> fst ` set (ex_relations r)"
  using assms by (cases "map_of exposed (proposed v ''passage_id'')")
    (auto simp: refusal_def number_backed_def Let_def simp del: image_iff split: sum.splits if_splits)

text \<open>The passages of a batch are passages of the corpus.\<close>

definition batch_of :: "survey_corpus \<Rightarrow> (string \<times> survey_passage) list \<Rightarrow> bool" where
  "batch_of c exposed \<longleftrightarrow> (\<forall>i p. map_of exposed i = Some p \<longrightarrow> map_of (co_passages c) i = Some p)"

lemma admit_proposal_ok:
  assumes "extraction_ok x c r" and "batch_of c exposed" and "admit_proposal x v exposed r = Inr r'"
  shows "extraction_ok x c r' \<and> n_proposed r' = Suc (n_proposed r)"
proof (cases "refusal x v exposed r")
  case None
  then obtain p where p: "map_of exposed (proposed v ''passage_id'') = Some p" "supports_quote p (proposed v ''quote'')"
    "number_backed (proposed v ''value'') (proposed v ''quote'')"
    "number_backed (proposed v ''temperature_k'') (proposed v ''quote'')"
    "validate_relation (proposed_relation x v) = Inr ()"
    "er_relation_id (proposed_relation x v) \<notin> fst ` set (ex_relations r)" by (rule refusal_NoneD)
  have "map_of (co_passages c) (proposed v ''passage_id'') = Some p"
    using assms(2) p(1) by (simp add: batch_of_def)
  moreover have "proposed_relation x v = build_relation (xt_env x) (proposed_relation x v)"
    by (simp add: proposed_relation_def build_relation_idem)
  ultimately have "relation_gated x c (er_relation_id (proposed_relation x v), proposed_relation x v)"
    using p by (simp add: relation_gated_def)
  with None p(6) assms(1,3) show ?thesis
    by (auto simp: admit_proposal_def extraction_ok_def n_proposed_def simp del: image_iff)
next
  case (Some why)
  with assms(1,3) refusal_reasons [OF Some] show ?thesis
    by (auto simp: admit_proposal_def extraction_ok_def n_proposed_def)
qed

lemma admit_all_ok:
  "extraction_ok x c r \<Longrightarrow> batch_of c exposed \<Longrightarrow> admit_all x vs exposed r = Inr r' \<Longrightarrow>
     extraction_ok x c r' \<and> n_proposed r' = n_proposed r + length vs"
proof (induction vs arbitrary: r)
  case (Cons v vs)
  from Cons.prems(3) obtain r1 where "admit_proposal x v exposed r = Inr r1" "admit_all x vs exposed r1 = Inr r'" by auto
  with Cons.IH [of r1] Cons.prems admit_proposal_ok [of x c r exposed v r1] show ?case by simp
qed simp

text \<open>The proposals the model makes for a batch, where its answer parses.\<close>

definition batch_proposals :: "extractor \<Rightarrow> survey_corpus \<Rightarrow> survey_passage list \<Rightarrow> json list" where
  "batch_proposals x c batch =
     (case xt_complete x (extraction_operation x c batch) extraction_system (extraction_payload x batch) RELATION_SCHEMA of
        Inl e \<Rightarrow> [] | Inr response \<Rightarrow> (case parse_proposals x (mr_text response) of Inl e \<Rightarrow> [] | Inr vs \<Rightarrow> vs))"

lemma extract_batch_ok:
  assumes "extraction_ok x c (fst st)" and "batch_of c (exposed_passages batch)" and "extract_batch x c batch st = Inr st'"
  shows "extraction_ok x c (fst st') \<and> n_proposed (fst st') = n_proposed (fst st) + length (batch_proposals x c batch) \<and>
     ug_calls (snd st') = ug_calls (snd st) + 1"
proof -
  from assms(3) obtain response u vs r where
    "xt_complete x (extraction_operation x c batch) extraction_system (extraction_payload x batch) RELATION_SCHEMA = Inr response"
    "response_usage response = Inr u" "parse_proposals x (mr_text response) = Inr vs"
    "admit_all x vs (exposed_passages batch) (fst st) = Inr r"
    "st' = (r, \<lparr>ug_calls = ug_calls (snd st) + ug_calls u, ug_tokens = ug_tokens (snd st) + ug_tokens u\<rparr>)"
    unfolding extract_batch_def by (elim bind_result_InrE) (rule that, assumption+, simp)
  with admit_all_ok [OF assms(1,2), of vs r] show ?thesis
    by (auto simp: batch_proposals_def response_usage_def)
qed

lemma extract_batches_ok:
  "extraction_ok x c (fst st) \<Longrightarrow> \<forall>b \<in> set bs. batch_of c (exposed_passages b) \<Longrightarrow> extract_batches x c bs st = Inr st' \<Longrightarrow>
     extraction_ok x c (fst st') \<and>
     n_proposed (fst st') = n_proposed (fst st) + length (concat (map (batch_proposals x c) bs)) \<and>
     ug_calls (snd st') = ug_calls (snd st) + int (length bs)"
proof (induction bs arbitrary: st)
  case (Cons b bs)
  from Cons.prems(3) obtain st1 where "extract_batch x c b st = Inr st1" "extract_batches x c bs st1 = Inr st'" by auto
  with Cons.IH [of st1] Cons.prems extract_batch_ok [of x c st b st1] show ?case by simp
qed simp

lemma batch_of_corpus:
  assumes "corpus_ok env pending c" and "set batch \<subseteq> set (passages_in_order c)"
  shows "batch_of c (exposed_passages batch)"
  unfolding batch_of_def
proof (intro allI impI)
  fix i p
  assume "map_of (exposed_passages batch) i = Some p"
  then have "p \<in> set batch" "i = sp_passage_id p" by (auto simp: exposed_passages_def dest!: map_of_SomeD)
  then obtain k where "(k, p) \<in> set (co_passages c)" using assms(2) by (auto simp: passages_in_order_def)
  moreover from this have "k = i" using assms(1) \<open>i = sp_passage_id p\<close>
    by (auto simp: corpus_ok_def list_all_iff survey_passage_ok_def)
  ultimately show "map_of (co_passages c) i = Some p"
    using assms(1) by (simp add: corpus_ok_def keys_distinct_def)
qed

end
