(* ===== verification/Survey_Gap_Laws.thy ===== *)
theory Survey_Gap_Laws
  imports Survey_Laws
begin

text \<open>
  Laws of gap finding: each detector finds exactly the holes of its kind, stated over the relation
  table rather than over cells; the bounded list loses only what it counts; and a narrated gap comes
  from a candidate.
\<close>

section \<open>Holes of the relation table\<close>

definition relation_set :: "extraction_result \<Rightarrow> extracted_relation set" where
  "relation_set r = snd ` set (ex_relations r)"

definition cell_relations :: "extraction_result \<Rightarrow> cell_key \<Rightarrow> extracted_relation set" where
  "cell_relations r k = {x \<in> relation_set r. coverage_key x = k}"

definition cell_documents :: "extraction_result \<Rightarrow> survey_corpus \<Rightarrow> cell_key \<Rightarrow> string set" where
  "cell_documents r c k = {d. \<exists>x \<in> cell_relations r k. \<exists>p. map_of (co_passages c) (er_passage_id x) = Some p \<and> sp_doc_id p = d}"

definition studied_features :: "extraction_result \<Rightarrow> string \<Rightarrow> string \<Rightarrow> string set" where
  "studied_features r m p = {f. cell_relations r (m, f, p) \<noteq> {}}"

definition studied_materials :: "extraction_result \<Rightarrow> string \<Rightarrow> string \<Rightarrow> string set" where
  "studied_materials r f p = {m. cell_relations r (m, f, p) \<noteq> {}}"

text \<open>What each kind of gap means for the relations extracted.\<close>

definition hole :: "extraction_result \<Rightarrow> survey_corpus \<Rightarrow> string \<Rightarrow> cell_key \<Rightarrow> bool" where
  "hole r c kind k \<longleftrightarrow>
     (let cell = cell_relations r k; docs = cell_documents r c k in
      if kind = ''contradictory_evidence'' then
        (\<exists>x \<in> cell. er_direction x = ''increase'') \<and> (\<exists>x \<in> cell. er_direction x = ''decrease'') \<and> 2 \<le> card docs
      else if kind = ''single_source'' then card docs = 1
      else if kind = ''missing_condition'' then (\<exists>x \<in> cell. \<not> blank (er_value x)) \<and> (\<forall>x \<in> cell. blank (er_temperature_k x))
      else if kind = ''unvalidated_mechanism'' then
        (\<exists>x \<in> cell. er_method x \<in> {''dft'', ''simulation'', ''review''}) \<and> (\<forall>x \<in> cell. er_method x \<noteq> ''experiment'')
      else if kind = ''unexplored_combination'' then
        (case k of (m, f, p) \<Rightarrow> cell = {} \<and> 2 \<le> card (studied_features r m p) \<and> 2 \<le> card (studied_materials r f p))
      else False)"

section \<open>Cells\<close>

lemma set_relations_in_order: "set (relations_in_order r) = relation_set r"
  by (simp add: relations_in_order_def relation_set_def)

definition cell_list :: "extraction_result \<Rightarrow> cell_key \<Rightarrow> extracted_relation list" where
  "cell_list r k = filter (\<lambda>x. coverage_key x = k) (relations_in_order r)"

lemma set_cell_list: "set (cell_list r k) = cell_relations r k"
  by (auto simp: cell_list_def cell_relations_def set_relations_in_order)

lemma coverage_matrix_eq:
  "coverage_matrix r c = map (\<lambda>k. (k, cell_of c k (cell_list r k))) (first_seen (map coverage_key (relations_in_order r)))"
  by (simp add: coverage_matrix_def Let_def cell_list_def)

lemma nonempty_fibres: "{k. {x \<in> R. f x = k} \<noteq> {}} = f ` R"
  by auto

lemma coverage_keys: "fst ` set (coverage_matrix r c) = {k. cell_relations r k \<noteq> {}}"
proof -
  have "fst ` set (coverage_matrix r c) = coverage_key ` relation_set r"
    by (simp add: coverage_matrix_eq image_image set_relations_in_order)
  then show ?thesis by (simp add: cell_relations_def nonempty_fibres del: Collect_empty_eq)
qed

lemma coverage_entry: "(k, x) \<in> set (coverage_matrix r c) \<Longrightarrow> x = cell_of c k (cell_list r k)"
  by (auto simp: coverage_matrix_eq)

lemma coverage_distinct: "distinct (map fst (coverage_matrix r c))"
  by (simp add: coverage_matrix_eq comp_def)

lemma set_documents_of: "set (documents_of c ps) = {d. \<exists>i \<in> set ps. \<exists>p. map_of (co_passages c) i = Some p \<and> sp_doc_id p = d}"
  by (auto simp: documents_of_def split: option.splits) (force split: option.splits)+

lemma cell_of_fields:
  "cc_key (cell_of c k xs) = k"
  "d \<in> set (cc_directions (cell_of c k xs)) \<longleftrightarrow> (\<exists>x \<in> set xs. er_direction x = d)"
  "d \<in> set (cc_methods (cell_of c k xs)) \<longleftrightarrow> (\<exists>x \<in> set xs. er_method x = d)"
  "cc_n_with_value (cell_of c k xs) = 0 \<longleftrightarrow> (\<forall>x \<in> set xs. blank (er_value x))"
  "cc_n_with_temperature (cell_of c k xs) = 0 \<longleftrightarrow> (\<forall>x \<in> set xs. blank (er_temperature_k x))"
  by (auto simp: cell_of_def Let_def filter_empty_conv)

lemma cell_of_documents: "length (cc_doc_ids (cell_of c k (cell_list r k))) = card (cell_documents r c k)"
proof -
  have "distinct (cc_doc_ids (cell_of c k (cell_list r k)))"
    by (simp add: cell_of_def Let_def documents_of_def)
  moreover have "set (cc_doc_ids (cell_of c k (cell_list r k))) = cell_documents r c k"
    by (auto simp: cell_of_def Let_def set_documents_of cell_documents_def set_cell_list)
  ultimately show ?thesis by (simp flip: distinct_card)
qed

text \<open>The cells in the order of their keys.\<close>

definition ordered_cells :: "extraction_result \<Rightarrow> survey_corpus \<Rightarrow> coverage_cell list" where
  "ordered_cells r c = map snd (sort_key fst (coverage_matrix r c))"

lemma ordered_cells_keys: "map cc_key (ordered_cells r c) = map fst (sort_key fst (coverage_matrix r c))"
  by (auto simp: ordered_cells_def cell_of_fields dest: coverage_entry)

lemma ordered_cells_distinct: "distinct (map cc_key (ordered_cells r c))"
  using coverage_distinct [of r c] by (simp add: ordered_cells_keys distinct_map)

lemma set_ordered_cells: "set (ordered_cells r c) = (\<lambda>k. cell_of c k (cell_list r k)) ` {k. cell_relations r k \<noteq> {}}"
proof -
  have "set (ordered_cells r c) = snd ` set (coverage_matrix r c)" by (simp add: ordered_cells_def)
  also have "\<dots> = (\<lambda>k. cell_of c k (cell_list r k)) ` fst ` set (coverage_matrix r c)"
    by (force dest: coverage_entry)
  finally show ?thesis by (simp add: coverage_keys)
qed

lemma detector_subjects:
  assumes "\<And>k. cell_relations r k \<noteq> {} \<Longrightarrow> f (cell_of c k (cell_list r k)) \<longleftrightarrow> hole r c kind k"
    and "\<And>k. hole r c kind k \<Longrightarrow> cell_relations r k \<noteq> {}"
    and batch: "batch = map (candidate_of_cell kind facts) (filter f (ordered_cells r c))"
  shows "distinct (map gc_subject batch) \<and> gc_subject ` set batch = {k. hole r c kind k} \<and> gc_kind ` set batch \<subseteq> {kind}"
proof -
  have subjects: "map gc_subject batch = map cc_key (filter f (ordered_cells r c))"
    by (simp add: batch candidate_of_cell_def comp_def)
  have "distinct (map gc_subject batch)"
    using ordered_cells_distinct [of r c] by (simp add: subjects distinct_map_filter)
  moreover have "gc_subject ` set batch = cc_key ` set (filter f (ordered_cells r c))"
    using arg_cong [OF subjects, of set] by simp
  moreover have "set (filter f (ordered_cells r c)) = (\<lambda>k. cell_of c k (cell_list r k)) ` {k. hole r c kind k}"
    using assms(1,2) unfolding set_filter set_ordered_cells by blast
  then have "cc_key ` set (filter f (ordered_cells r c)) = {k. hole r c kind k}"
    by (simp add: image_image cell_of_fields)
  moreover have "gc_kind ` set batch \<subseteq> {kind}" by (auto simp: batch candidate_of_cell_def)
  ultimately show ?thesis by simp
qed

section \<open>Combinations\<close>

lemma set_features_of: "set (features_of (coverage_matrix r c) p m) = studied_features r m p"
proof -
  have "set (features_of (coverage_matrix r c) p m) = {f. (m, f, p) \<in> fst ` set (coverage_matrix r c)}"
    by (force simp: features_of_def)
  then show ?thesis by (simp add: coverage_keys studied_features_def)
qed

lemma set_materials_of: "set (materials_of (coverage_matrix r c) p f) = studied_materials r f p"
proof -
  have "set (materials_of (coverage_matrix r c) p f) = {m. (m, f, p) \<in> fst ` set (coverage_matrix r c)}"
    by (force simp: materials_of_def)
  then show ?thesis by (simp add: coverage_keys studied_materials_def)
qed

lemma length_features_of: "length (features_of (coverage_matrix r c) p m) = card (studied_features r m p)"
  unfolding set_features_of [of r c p m, symmetric] by (simp add: distinct_card features_of_def del: set_sorted_set)

lemma length_materials_of: "length (materials_of (coverage_matrix r c) p f) = card (studied_materials r f p)"
  unfolding set_materials_of [of r c p f, symmetric] by (simp add: distinct_card materials_of_def del: set_sorted_set)

lemma set_supported_materials:
  "set (supported_materials (coverage_matrix r c) p) = {m. 2 \<le> card (studied_features r m p)}"
proof -
  have "m \<in> set (supported_materials (coverage_matrix r c) p) \<longleftrightarrow>
      (\<exists>f. (m, f, p) \<in> fst ` set (coverage_matrix r c)) \<and> 2 \<le> card (studied_features r m p)" for m
    by (force simp: supported_materials_def length_features_of MIN_AXIS_SUPPORT_def)
  then show ?thesis unfolding coverage_keys studied_features_def
    by (auto simp: card_eq_0_iff) (metis (mono_tags, lifting) card.empty empty_Collect_eq not_numeral_le_zero)
qed

lemma set_supported_features:
  "set (supported_features (coverage_matrix r c) p) = {f. 2 \<le> card (studied_materials r f p)}"
proof -
  have "f \<in> set (supported_features (coverage_matrix r c) p) \<longleftrightarrow>
      (\<exists>m. (m, f, p) \<in> fst ` set (coverage_matrix r c)) \<and> 2 \<le> card (studied_materials r f p)" for f
    by (force simp: supported_features_def length_materials_of MIN_AXIS_SUPPORT_def)
  then show ?thesis unfolding coverage_keys studied_materials_def
    by (auto simp: card_eq_0_iff) (metis (mono_tags, lifting) card.empty empty_Collect_eq not_numeral_le_zero)
qed

lemma combination_fields [simp]:
  "gc_subject (combination cells p m f) = (m, f, p)" "gc_kind (combination cells p m f) = ''unexplored_combination''"
  by (simp_all add: combination_def Let_def)

lemma distinct_concat_map:
  assumes "distinct xs" and "\<And>x. x \<in> set xs \<Longrightarrow> distinct (g x)"
    and "\<And>x y. y \<in> set (g x) \<Longrightarrow> tag y = x"
  shows "distinct (concat (map g xs))"
  using assms(1,2)
proof (induction xs)
  case (Cons x xs)
  have "set (g x) \<inter> (\<Union>y \<in> set xs. set (g y)) = {}"
  proof (rule equals0I)
    fix z
    assume "z \<in> set (g x) \<inter> (\<Union>y \<in> set xs. set (g y))"
    then obtain y where "y \<in> set xs" "z \<in> set (g x)" "z \<in> set (g y)" by blast
    then have "tag z = x" "tag z = y" using assms(3) by blast+
    then show False using \<open>y \<in> set xs\<close> Cons.prems(1) by simp
  qed
  with Cons show ?case by simp
qed simp

lemma combinations_subjects:
  "distinct (map gc_subject (unexplored_combinations (coverage_matrix r c))) \<and>
   gc_subject ` set (unexplored_combinations (coverage_matrix r c)) = {k. hole r c ''unexplored_combination'' k} \<and>
   gc_kind ` set (unexplored_combinations (coverage_matrix r c)) \<subseteq> {''unexplored_combination''}"
proof -
  let ?cells = "coverage_matrix r c"
  let ?features = "\<lambda>p m. filter (\<lambda>f. (m, f, p) \<notin> fst ` set ?cells) (supported_features ?cells p)"
  have subjects: "map gc_subject (unexplored_combinations ?cells) =
      concat (map (\<lambda>p. concat (map (\<lambda>m. map (\<lambda>f. (m, f, p)) (?features p m)) (supported_materials ?cells p)))
        (sorted_set (map (\<lambda>((m, f, p), x). p) ?cells)))"
    by (simp add: unexplored_combinations_def map_concat comp_def)
  have "distinct (map gc_subject (unexplored_combinations ?cells))" unfolding subjects
    by (rule distinct_concat_map [where tag = "snd \<circ> snd"], simp, rule distinct_concat_map [where tag = fst])
      (auto simp: supported_materials_def supported_features_def distinct_map inj_on_def)
  moreover have "k \<in> set (map gc_subject (unexplored_combinations ?cells)) \<longleftrightarrow> hole r c ''unexplored_combination'' k" for k
  proof (cases k)
    case (fields m f p)
    have "2 \<le> card (studied_features r m p) \<Longrightarrow> p \<in> (\<lambda>((m, f, p), x). p) ` set ?cells"
    proof -
      assume "2 \<le> card (studied_features r m p)"
      then have "studied_features r m p \<noteq> {}" by (metis card.empty not_numeral_le_zero)
      then obtain f' where "(m, f', p) \<in> fst ` set ?cells" by (auto simp: studied_features_def coverage_keys)
      then show ?thesis by force
    qed
    then show ?thesis unfolding subjects fields
      by (auto simp: set_supported_materials set_supported_features coverage_keys hole_def Let_def simp del: image_iff)
  qed
  moreover have "gc_kind ` set (unexplored_combinations ?cells) \<subseteq> {''unexplored_combination''}"
    by (auto simp: unexplored_combinations_def)
  ultimately show ?thesis by (metis (no_types, lifting) Collect_mem_eq Collect_cong set_map)
qed

section \<open>The bounded list\<close>

text \<open>A batch of one kind that names each of a set of holes once.\<close>

definition names_holes :: "(cell_key \<Rightarrow> bool) \<Rightarrow> string \<Rightarrow> gap_candidate list \<Rightarrow> bool" where
  "names_holes f kind batch \<longleftrightarrow> distinct (map gc_subject batch) \<and> gc_subject ` set batch = {k. f k} \<and> gc_kind ` set batch \<subseteq> {kind}"

lemma clashes_iff: "clashes x \<noteq> [] \<longleftrightarrow> ''increase'' \<in> set (cc_directions x) \<and> ''decrease'' \<in> set (cc_directions x)"
  by (simp add: clashes_def OPPOSED_def)

lemma cell_documents_empty: "cell_relations r k = {} \<Longrightarrow> cell_documents r c k = {}"
  by (simp add: cell_documents_def)

lemmas cell_facts = cell_of_fields cell_of_documents set_cell_list hole_def Let_def

lemma contradictions_holes:
  "names_holes (hole r c ''contradictory_evidence'') ''contradictory_evidence'' (contradictions (ordered_cells r c))"
  unfolding names_holes_def
  by (rule detector_subjects [OF _ _ contradictions_def]) (auto simp: cell_facts clashes_iff)

lemma single_source_holes:
  "names_holes (hole r c ''single_source'') ''single_source'' (single_source (ordered_cells r c))"
  unfolding names_holes_def
  by (rule detector_subjects [OF _ _ single_source_def]) (auto simp: cell_facts cell_documents_empty)

lemma missing_condition_holes:
  "names_holes (hole r c ''missing_condition'') ''missing_condition'' (missing_condition (ordered_cells r c))"
  unfolding names_holes_def
  by (rule detector_subjects [OF _ _ missing_condition_def]) (auto simp: cell_facts)

lemma unvalidated_mechanism_holes:
  "names_holes (hole r c ''unvalidated_mechanism'') ''unvalidated_mechanism'' (unvalidated_mechanism (ordered_cells r c))"
  unfolding names_holes_def
proof (rule detector_subjects [OF _ _ unvalidated_mechanism_def])
  show "(''experiment'' \<notin> set (cc_methods (cell_of c k (cell_list r k))) \<and>
      (\<exists>m \<in> set (cc_methods (cell_of c k (cell_list r k))). m \<in> set [''dft'', ''simulation'', ''review''])) \<longleftrightarrow>
    hole r c ''unvalidated_mechanism'' k" for k
    unfolding Bex_def [of "set (cc_methods _)"] cell_of_fields set_cell_list by (simp add: hole_def Let_def) blast
qed (auto simp: hole_def Let_def)

lemma unexplored_holes:
  "names_holes (hole r c ''unexplored_combination'') ''unexplored_combination'' (unexplored_combinations (coverage_matrix r c))"
  unfolding names_holes_def by (rule combinations_subjects)

lemma detected_eq:
  "detected r c = [(''contradictory_evidence'', contradictions (ordered_cells r c)),
     (''single_source'', single_source (ordered_cells r c)), (''missing_condition'', missing_condition (ordered_cells r c)),
     (''unvalidated_mechanism'', unvalidated_mechanism (ordered_cells r c)),
     (''unexplored_combination'', unexplored_combinations (coverage_matrix r c))]"
  by (simp add: detected_def Let_def ordered_cells_def)

lemma detected_holes: "(kind, batch) \<in> set (detected r c) \<Longrightarrow> names_holes (hole r c kind) kind batch"
  using contradictions_holes single_source_holes missing_condition_holes unvalidated_mechanism_holes unexplored_holes
  by (auto simp: detected_eq)

lemma detected_kinds: "distinct (map fst (detected r c))" "set (map fst (detected r c)) = set GAP_KINDS"
  by (simp_all add: detected_eq GAP_KINDS_def insert_commute)

definition kept_batch :: "(gap_candidate \<Rightarrow> 'k::linorder) \<Rightarrow> nat \<Rightarrow> gap_candidate list \<Rightarrow> gap_candidate list" where
  "kept_batch key cap batch = take cap (sort_key key batch)"

lemma kept_batch_subset: "set (kept_batch key cap batch) \<subseteq> set batch"
  using set_take_subset [of cap "sort_key key batch"] by (simp add: kept_batch_def)

lemma kept_batch_distinct: "distinct (map gc_subject batch) \<Longrightarrow> distinct (map gc_subject (kept_batch key cap batch))"
  by (simp add: kept_batch_def distinct_map take_map [symmetric] distinct_take inj_on_subset [OF _ set_take_subset])

definition tagged :: "gap_candidate \<Rightarrow> string \<times> cell_key" where
  "tagged g = (gc_kind g, gc_subject g)"

lemma kept_batches_tagged:
  assumes "distinct (map fst found)" and "\<And>kind batch. (kind, batch) \<in> set found \<Longrightarrow> \<exists>f. names_holes f kind batch"
  shows "distinct (map tagged (concat (map (\<lambda>(k, batch). kept_batch key cap batch) found)))"
  using assms
proof (induction found)
  case (Cons kb found)
  obtain kind batch where kb: "kb = (kind, batch)" by (cases kb)
  from Cons.prems(2) [of kind batch] obtain f where f: "names_holes f kind batch" by (auto simp: kb)
  have kinds: "g \<in> set (kept_batch key cap batch) \<Longrightarrow> gc_kind g = kind" for g
    using f kept_batch_subset [of key cap batch] by (auto simp: names_holes_def)
  have here: "distinct (map tagged (kept_batch key cap batch))"
    using kept_batch_distinct [of batch key cap] f
    by (auto simp: names_holes_def distinct_map tagged_def inj_on_def)
  have others: "gc_kind g \<noteq> kind"
    if found: "(kind', batch') \<in> set found" and g: "g \<in> set (kept_batch key cap batch')" for kind' batch' g
  proof -
    obtain f' where "names_holes f' kind' batch'" using Cons.prems(2) [of kind' batch'] found by auto
    then have "gc_kind g = kind'" using g kept_batch_subset [of key cap batch'] by (auto simp: names_holes_def)
    moreover have "kind \<noteq> kind'" using Cons.prems(1) found by (force simp: kb)
    ultimately show ?thesis by simp
  qed
  have "distinct (map tagged (concat (map (\<lambda>(k, batch). kept_batch key cap batch) found)))"
    using Cons by simp
  moreover have "tagged g \<noteq> tagged g'" if "g \<in> set (kept_batch key cap batch)"
    "g' \<in> set (concat (map (\<lambda>(k, batch). kept_batch key cap batch) found))" for g g'
    using kinds [OF that(1)] that(2) others by (fastforce simp: tagged_def)
  ultimately show ?case using here by (fastforce simp: kb simp del: set_concat)
qed simp

lemma kept_count:
  assumes "distinct (map fst found)" and "\<And>kind batch. (kind, batch) \<in> set found \<Longrightarrow> \<exists>f. names_holes f kind batch"
    and "(kind, batch) \<in> set found"
  shows "filter (\<lambda>g. gc_kind g = kind) (concat (map (\<lambda>(k, batch). kept_batch key cap batch) found)) = kept_batch key cap batch \<and>
     map_of (concat (map (\<lambda>(k, batch). if cap < length batch then [(k, length batch - cap)] else []) found)) kind =
       (if cap < length batch then Some (length batch - cap) else None)"
  using assms
proof (induction found)
  case (Cons kb found)
  obtain k0 b0 where kb: "kb = (k0, b0)" by (cases kb)
  from Cons.prems(2) [of k0 b0] obtain f where "names_holes f k0 b0" by (auto simp: kb)
  then have kinds: "\<forall>g \<in> set (kept_batch key cap b0). gc_kind g = k0"
    using kept_batch_subset [of key cap b0] by (auto simp: names_holes_def)
  show ?case
  proof (cases "kind = k0")
    case True
    have "k1 \<noteq> kind" if "(k1, b1) \<in> set found" for k1 b1 using Cons.prems(1) that by (force simp: kb True)
    moreover have "\<exists>f. names_holes f k1 b1" if "(k1, b1) \<in> set found" for k1 b1 using Cons.prems(2) that by simp
    ultimately have "\<forall>(k1, b1) \<in> set found. k1 \<noteq> kind \<and> (\<forall>g \<in> set (kept_batch key cap b1). gc_kind g \<noteq> kind)"
      using kept_batch_subset [of key cap] by (fastforce simp: names_holes_def)
    then have "filter (\<lambda>g. gc_kind g = kind) (concat (map (\<lambda>(k, batch). kept_batch key cap batch) found)) = []"
      "map_of (concat (map (\<lambda>(k, batch). if cap < length batch then [(k, length batch - cap)] else []) found)) kind = None"
      by (fastforce simp: filter_empty_conv map_of_eq_None_iff split: if_splits)+
    moreover have "batch = b0" using Cons.prems(1,3) by (force simp: kb True)
    ultimately show ?thesis using kinds by (simp add: kb True filter_id_conv)
  next
    case False
    then have "filter (\<lambda>g. gc_kind g = kind) (kept_batch key cap b0) = []"
      using kinds by (auto simp: filter_empty_conv)
    with False Cons show ?thesis by (simp add: kb map_add_def split: option.split)
  qed
qed simp

lemma find_candidates_eq:
  "find_candidates env cap r c =
     \<lparr>cs_candidates = sort_key (candidate_sort_key env) (concat (map (\<lambda>(k, batch). kept_batch (candidate_sort_key env) cap batch) (detected r c))),
      cs_suppressed = concat (map (\<lambda>(k, batch). if cap < length batch then [(k, length batch - cap)] else []) (detected r c))\<rparr>"
  by (simp add: find_candidates_def Let_def kept_batch_def)

definition suppressed_of :: "candidate_set \<Rightarrow> string \<Rightarrow> nat" where
  "suppressed_of cs kind = (case map_of (cs_suppressed cs) kind of None \<Rightarrow> 0 | Some n \<Rightarrow> n)"

lemma candidates_distinct: "distinct (map tagged (cs_candidates (find_candidates env cap r c)))"
proof -
  have "distinct (map tagged (concat (map (\<lambda>(k, batch). kept_batch (candidate_sort_key env) cap batch) (detected r c))))"
    by (rule kept_batches_tagged) (auto simp: detected_kinds intro: detected_holes)
  then show ?thesis by (simp add: find_candidates_eq distinct_map)
qed

lemma candidates_are_holes:
  assumes "g \<in> set (cs_candidates (find_candidates env cap r c))"
  shows "hole r c (gc_kind g) (gc_subject g)"
proof -
  from assms obtain kind batch where "(kind, batch) \<in> set (detected r c)" "g \<in> set batch"
    using kept_batch_subset by (fastforce simp: find_candidates_eq)
  with detected_holes [of kind batch r c] show ?thesis by (auto simp: names_holes_def)
qed

lemma candidates_count:
  assumes "kind \<in> set GAP_KINDS"
  shows "length (filter (\<lambda>g. gc_kind g = kind) (cs_candidates (find_candidates env cap r c))) +
     suppressed_of (find_candidates env cap r c) kind = card {k. hole r c kind k}"
proof -
  obtain batch where b: "(kind, batch) \<in> set (detected r c)" using assms detected_kinds(2) [of r c] by (metis (no_types, lifting) imageE list.set_map prod.collapse)
  let ?key = "candidate_sort_key env"
  have "filter (\<lambda>g. gc_kind g = kind) (concat (map (\<lambda>(k, batch). kept_batch ?key cap batch) (detected r c))) = kept_batch ?key cap batch \<and>
     map_of (concat (map (\<lambda>(k, batch). if cap < length batch then [(k, length batch - cap)] else []) (detected r c))) kind =
       (if cap < length batch then Some (length batch - cap) else None)"
    by (rule kept_count [OF _ _ b]) (auto simp: detected_kinds intro: detected_holes)
  moreover have "length (filter (\<lambda>g. gc_kind g = kind) (sort_key ?key xs)) = length (filter (\<lambda>g. gc_kind g = kind) xs)" for xs
    by (metis (no_types, lifting) filter_sort length_sort)
  moreover have "length batch = card {k. hole r c kind k}"
    using detected_holes [OF b] by (metis distinct_card length_map list.set_map names_holes_def)
  ultimately show ?thesis
    by (auto simp: find_candidates_eq suppressed_of_def kept_batch_def min_def)
qed

section \<open>Narration\<close>

text \<open>A gap that a candidate gives: its kind and citations, and a quote found in a cited passage.\<close>

definition drawn_from :: "survey_corpus \<Rightarrow> research_gap \<Rightarrow> gap_candidate \<Rightarrow> bool" where
  "drawn_from c gap g \<longleftrightarrow> rg_kind gap = gc_kind g \<and> rg_supporting_passages gap = first_seen (gc_passage_ids g) \<and>
     rg_supporting_relations gap = first_seen (gc_relation_ids g) \<and> cited_passages c gap \<noteq> [] \<and>
     (rg_novelty_quote gap = [] \<or> list_ex (\<lambda>p. supports_quote p (rg_novelty_quote gap)) (cited_passages c gap))"

definition gap_traced :: "survey_corpus \<Rightarrow> gap_candidate list \<Rightarrow> string \<times> research_gap \<Rightarrow> bool" where
  "gap_traced c gs ig \<longleftrightarrow> fst ig = rg_gap_id (snd ig) \<and> validate_gap (snd ig) = Inr () \<and> list_ex (drawn_from c (snd ig)) gs"

definition gaps_ok :: "survey_corpus \<Rightarrow> gap_candidate list \<Rightarrow> gap_result \<Rightarrow> bool" where
  "gaps_ok c gs r \<longleftrightarrow> distinct (map fst (gr_gaps r)) \<and> list_all (gap_traced c gs) (gr_gaps r)"

definition n_settled :: "gap_result \<Rightarrow> nat" where
  "n_settled r = length (gr_gaps r) + length (gr_refused r) + length (gr_dropped r)"

lemma n_settled_drop [simp]: "n_settled (drop_candidate env g why r) = Suc (n_settled r)"
  by (simp add: n_settled_def drop_candidate_def)

lemma n_settled_updates [simp]:
  "n_settled (r\<lparr>gr_gaps := gr_gaps r @ [x]\<rparr>) = Suc (n_settled r)"
  "n_settled (r\<lparr>gr_refused := gr_refused r @ [y]\<rparr>) = Suc (n_settled r)"
  by (simp_all add: n_settled_def)

lemma gaps_ok_drop [simp]: "gaps_ok c gs (drop_candidate env g why r) = gaps_ok c gs r"
  by (simp add: gaps_ok_def drop_candidate_def)

lemma expose_from_corpus:
  "(k, p) \<in> set (expose n c is chosen) \<Longrightarrow> (k, p) \<in> set chosen \<or> (k \<in> set is \<and> map_of (co_passages c) k = Some p)"
proof (induction "is" arbitrary: chosen)
  case (Cons i "is")
  show ?case
  proof (cases "int (length chosen) \<ge> na_max_passages n")
    case True
    with Cons.prems show ?thesis by simp
  next
    case False
    with Cons show ?thesis by (cases "map_of (co_passages c) i") (fastforce dest: set_updateD)+
  qed
qed simp

lemma narrated_gap_fields [simp]:
  "rg_kind (narrated_gap env g v) = gc_kind g"
  "rg_supporting_passages (narrated_gap env g v) = first_seen (gc_passage_ids g)"
  "rg_supporting_relations (narrated_gap env g v) = first_seen (gc_relation_ids g)"
  "rg_novelty_quote (narrated_gap env g v) = proposed v ''novelty_quote''"
  by (simp_all add: narrated_gap_def build_gap_def)

lemma set_cited_passages:
  "set (cited_passages c gap) = {p. \<exists>i \<in> set (rg_supporting_passages gap). map_of (co_passages c) i = Some p}"
  by (auto simp: cited_passages_def split: option.splits)

lemma exposed_are_cited:
  assumes "(k, p) \<in> set (expose n c (gc_passage_ids g) [])"
  shows "p \<in> set (cited_passages c (narrated_gap env g v))"
  using expose_from_corpus [OF assms] by (auto simp: set_cited_passages)

lemma narrated_gap_drawn:
  assumes "expose n c (gc_passage_ids g) [] \<noteq> []"
    and "proposed v ''novelty_quote'' \<noteq> [] \<Longrightarrow>
      list_ex (\<lambda>(k, p). supports_quote p (proposed v ''novelty_quote'')) (expose n c (gc_passage_ids g) [])"
  shows "drawn_from c (narrated_gap env g v) g"
proof -
  obtain k p where "(k, p) \<in> set (expose n c (gc_passage_ids g) [])"
    using assms(1) by (cases "expose n c (gc_passage_ids g) []") auto
  then have "cited_passages c (narrated_gap env g v) \<noteq> []"
    using exposed_are_cited [of k p n c g env v] by (metis empty_iff empty_set)
  moreover have "proposed v ''novelty_quote'' = [] \<or>
      list_ex (\<lambda>p. supports_quote p (proposed v ''novelty_quote'')) (cited_passages c (narrated_gap env g v))"
    using assms(2) exposed_are_cited [of _ _ n c g env v] by (fastforce simp: list_ex_iff)
  ultimately show ?thesis by (simp add: drawn_from_def)
qed

lemma admit_narration_ok:
  assumes "gaps_ok c gs r" and "g \<in> set gs" and exposed: "expose n c (gc_passage_ids g) [] \<noteq> []"
  shows "gaps_ok c gs (admit_narration n g v (expose n c (gc_passage_ids g) []) r) \<and>
    n_settled (admit_narration n g v (expose n c (gc_passage_ids g) []) r) = Suc (n_settled r)"
proof -
  let ?gap = "narrated_gap (na_env n) g v" and ?shown = "expose n c (gc_passage_ids g) []"
  let ?quote = "proposed v ''novelty_quote''"
  have kept: "gaps_ok c gs (r\<lparr>gr_gaps := gr_gaps r @ [(rg_gap_id ?gap, ?gap)]\<rparr>)"
    if "?quote \<noteq> [] \<Longrightarrow> list_ex (\<lambda>(k, p). supports_quote p ?quote) ?shown" "validate_gap ?gap = Inr ()"
      "rg_gap_id ?gap \<notin> fst ` set (gr_gaps r)"
    using assms narrated_gap_drawn [OF exposed that(1)] that(2,3)
    by (auto simp: gaps_ok_def gap_traced_def list_ex_iff simp del: image_iff)
  have refused: "gaps_ok c gs (r\<lparr>gr_refused := x\<rparr>)" for x using assms(1) by (simp add: gaps_ok_def)
  show ?thesis unfolding admit_narration_def Let_def
    using assms(1) kept refused by (auto split: sum.split)
qed

lemma narrate_one_ok:
  assumes "gaps_ok c gs (fst st)" and "g \<in> set gs" and "narrate_one n r c g st = Inr st'"
  shows "gaps_ok c gs (fst st') \<and> n_settled (fst st') = Suc (n_settled (fst st))"
proof (cases "expose n c (gc_passage_ids g) [] = []")
  case True
  with assms(1,3) show ?thesis by (auto simp: narrate_one_def Let_def)
next
  case False
  with assms(1,3) admit_narration_ok [OF assms(1,2) False] show ?thesis
    by (auto simp: narrate_one_def Let_def split: sum.splits)
qed

lemma narrate_all_ok:
  "gaps_ok c gs (fst st) \<Longrightarrow> set hs \<subseteq> set gs \<Longrightarrow> narrate_all n r c hs st = Inr st' \<Longrightarrow>
     gaps_ok c gs (fst st') \<and> n_settled (fst st') = n_settled (fst st) + length hs"
proof (induction hs arbitrary: st)
  case (Cons h hs)
  from Cons.prems(3) obtain st1 where "narrate_one n r c h st = Inr st1" "narrate_all n r c hs st1 = Inr st'" by auto
  with Cons.IH [of st1] Cons.prems narrate_one_ok [of c gs st h n r st1] show ?case by simp
qed simp

lemma narrate_ok:
  assumes "narrate n gs r c = Inr res"
  shows "gaps_ok c gs res \<and> n_settled res = length gs"
proof -
  from assms obtain st where st: "narrate_all n r c (sort_key (candidate_id (na_env n)) gs)
      (empty_gaps, \<lparr>ug_calls = 0, ug_tokens = 0\<rparr>) = Inr st" "res = (fst st)\<lparr>gr_usage := snd st\<rparr>"
    by (auto simp: narrate_def)
  have "gaps_ok c gs empty_gaps" by (simp add: gaps_ok_def empty_gaps_def)
  with narrate_all_ok [OF _ _ st(1), of gs] show ?thesis
    by (simp add: st(2) gaps_ok_def n_settled_def empty_gaps_def)
qed

lemma novelty_problem_None:
  assumes "gap_traced c gs (i, g)"
  shows "novelty_problem c g = None \<longleftrightarrow> rg_novelty g = ''known'' \<or> blank (rg_novelty_quote g)"
proof (cases "rg_novelty g = ''known''")
  case True
  with assms have "\<not> blank (rg_novelty_quote g)" by (auto simp: gap_traced_def validate_gap_def)
  then have "list_ex (\<lambda>p. supports_quote p (rg_novelty_quote g)) (cited_passages c g)"
    using assms by (auto simp: gap_traced_def drawn_from_def list_ex_iff)
  moreover from this have "normalise_quote (rg_novelty_quote g) \<noteq> []"
    by (auto simp: supports_quote_def list_ex_iff)
  ultimately show ?thesis using True by (simp add: novelty_problem_def)
next
  case False
  then show ?thesis by (simp add: novelty_problem_def)
qed

lemma audit_verified_iff:
  assumes "gaps_ok c gs r"
  shows "au_verified (novelty_audit r c) \<longleftrightarrow> list_all (\<lambda>(i, g). rg_novelty g = ''known'' \<or> blank (rg_novelty_quote g)) (gr_gaps r)"
proof -
  have "au_verified (novelty_audit r c) \<longleftrightarrow> (\<forall>(i, g) \<in> set (gr_gaps r). novelty_problem c g = None)"
    by (auto simp: novelty_audit_def Let_def split: option.splits)
  also have "\<dots> \<longleftrightarrow> (\<forall>(i, g) \<in> set (gr_gaps r). rg_novelty g = ''known'' \<or> blank (rg_novelty_quote g))"
    using assms novelty_problem_None [of c gs] by (fastforce simp: gaps_ok_def list_all_iff)
  finally show ?thesis by (simp add: list_all_iff)
qed

end
