(* ===== verification/Survey_Properties.thy ===== *)
theory Survey_Properties
  imports Survey_Gap_Laws
begin

text \<open>
  The survey's guarantees, from the protocol that assembles a corpus to the gap list: the corpus is
  closed, relations and gaps trace to it, the candidates are the holes of the relation table, and
  the tables can always be printed.
\<close>

section \<open>A small survey\<close>

definition survey_env :: py_env where
  "survey_env = \<lparr>sha256 = (\<lambda>s. replicate 64 (CHR ''a'')), fromisoformat = (\<lambda>s. None)\<rparr>"

definition survey_source :: "unit source" where
  "survey_source =
     \<lparr>so_meta_search = (\<lambda>q fs names n s. (Inr (JObj [(''results'',
        JList [JObj [(''doc_id'', JStr (replicate 64 (CHR ''b''))), (''title'', JStr ''T'')]])]), s)),
      so_agentic_search = (\<lambda>q k f s. (Inr [JObj [(''doc_id'', JStr (replicate 64 (CHR ''b''))), (''chunk'', JStr ''ZT rises'')]], s))\<rparr>"

definition survey_builder :: "unit builder" where
  "survey_builder = \<lparr>cb_source = survey_source, cb_env = survey_env, cb_float = (\<lambda>s. None), cb_float_text = (\<lambda>i. []),
     cb_format = (\<lambda>t vs. Inr t), cb_max_candidates = 1, cb_semantic_top_k = 5, cb_min_passage_chars = 1,
     cb_scope_shard_size = 25, cb_citation_floor = 0, cb_templates = []\<rparr>"

definition a_topic :: survey_topic where
  "a_topic = \<lparr>tp_topic_id = ''t'', tp_title = ''T'', tp_seed_queries = [''q''], tp_probe_questions = [''p''],
     tp_year_from = None, tp_year_to = None, tp_language = [], tp_domain = []\<rparr>"

definition a_passage :: survey_passage where
  "a_passage = build_passage survey_env (replicate 64 (CHR ''b'')) (''qry-'' @ replicate 16 (CHR ''a'')) ''ZT rises'' None None JNull"

definition a_corpus :: survey_corpus where
  "a_corpus = \<lparr>co_topic = a_topic,
     co_documents = [(replicate 64 (CHR ''b''), \<lparr>dr_doc_id = replicate 64 (CHR ''b''), dr_unique_id = [], dr_title = ''T'',
       dr_year = None, dr_venue = [], dr_doi = [], dr_citation_count = 0, dr_database = DATABASE_SCIVERSE\<rparr>)],
     co_passages = [(''psg-'' @ replicate 16 (CHR ''a''), a_passage)],
     co_queries = [(''qry-'' @ replicate 16 (CHR ''a''), semantic_record survey_env (''qry-'' @ replicate 16 (CHR ''a'')) ''p''
       ''evidence'' (texts [replicate 64 (CHR ''b'')]) 1)]\<rparr>"

definition an_answer :: model_response where
  "an_answer = \<lparr>mr_text = ''answer'', mr_input_tokens = 3, mr_output_tokens = 2, mr_request_id = ''r''\<rparr>"

definition a_proposal :: "string \<Rightarrow> string \<Rightarrow> json" where
  "a_proposal quote direction = JObj [(''passage_id'', JStr (''psg-'' @ replicate 16 (CHR ''a''))), (''material'', JStr ''SnSe''),
     (''structural_feature'', JStr ''doped''), (''property_name'', JStr ''ZT''), (''direction'', JStr direction),
     (''quote'', JStr quote), (''composition'', JStr []), (''value'', JStr []), (''unit'', JStr []),
     (''temperature_k'', JStr []), (''method'', JStr ''experiment'')]"

definition survey_extractor :: extractor where
  "survey_extractor = \<lparr>xt_complete = (\<lambda>op sys user schema. Inr an_answer),
     xt_loads = (\<lambda>s. Some (JObj [(''relations'', JList [a_proposal ''zt  rises'' ''increase'', a_proposal ''ZT falls'' ''decrease''])])),
     xt_env = survey_env, xt_batch_size = 6, xt_max_chars = 2000, xt_profile = ''p'', xt_vocabulary = ''thermoelectric''\<rparr>"

definition an_extraction :: extraction_result where
  "an_extraction = \<lparr>ex_relations = [(''rel-'' @ replicate 16 (CHR ''a''),
       proposed_relation survey_extractor (a_proposal ''zt  rises'' ''increase''))],
     ex_rejections = [\<lparr>rj_reason = ''quote_not_in_passage'', rj_passage_id = ''psg-'' @ replicate 16 (CHR ''a''),
       rj_payload = canonical_text (a_proposal ''ZT falls'' ''decrease'')\<rparr>],
     ex_usage = \<lparr>ug_calls = 1, ug_tokens = 5\<rparr>\<rparr>"

definition survey_narrator :: "string \<Rightarrow> narrator" where
  "survey_narrator label = \<lparr>na_complete = (\<lambda>op sys user schema. Inr an_answer),
     na_loads = (\<lambda>s. Some (JObj [(''verdict'', JStr ''gap''), (''statement'', JStr ''one paper''), (''novelty'', JStr label),
       (''novelty_quote'', JStr ''ZT rises''), (''novelty_basis'', JStr ''said so'')])),
     na_env = survey_env, na_max_passages = 8, na_max_chars = 2000, na_profile = ''p''\<rparr>"

definition the_candidates :: "gap_candidate list" where
  "the_candidates = cs_candidates (find_candidates survey_env 20 an_extraction a_corpus)"

definition a_gap_result :: "string \<Rightarrow> gap_result" where
  "a_gap_result label = \<lparr>gr_gaps = [(''gap-'' @ replicate 16 (CHR ''a''), build_gap survey_env ''single_source'' ''one paper'' label
       ''said so'' [''psg-'' @ replicate 16 (CHR ''a'')] [''rel-'' @ replicate 16 (CHR ''a'')] ''ZT rises'')],
     gr_refused = [], gr_dropped = [], gr_usage = \<lparr>ug_calls = 1, ug_tokens = 5\<rparr>\<rparr>"

lemma small_survey_valid:
  "builder_init survey_builder = Inr survey_builder" "extractor_init survey_extractor = Inr survey_extractor"
  by (simp_all add: builder_init_def survey_builder_def MAX_DOC_ID_SCOPE_def extractor_init_def survey_extractor_def
    property_set_def blank_iff py_space_code)

lemma small_survey_runs:
  "build_corpus survey_builder a_topic () = (Inr a_corpus, ())"
  "extract_relations survey_extractor a_corpus = Inr an_extraction"
  "narrate (survey_narrator ''known'') the_candidates an_extraction a_corpus = Inr (a_gap_result ''known'')"
  by code_simp+

lemmas small_survey = small_survey_valid(1) small_survey_runs(1) small_survey_valid(2) small_survey_runs(2)

section \<open>The corpus\<close>

lemma builder_bounded: "builder_init b = Inr b' \<Longrightarrow> 0 \<le> cb_max_candidates b"
  by (auto simp: builder_init_def)

lemma build_corpus_stages:
  "build_corpus b t = b_bind (protocol_stages b t) (\<lambda>c. b_lift (bind_result (validate_corpus (cb_env b) c) (\<lambda>u. Inr c)))"
  by (rule ext) (simp add: build_corpus_def protocol_stages_def b_bind_def split: prod.split sum.split)

lemma protocol_topic: "protocol_stages b t s = (Inr c, s') \<Longrightarrow> validate_topic t = Inr ()"
  by (auto simp: protocol_stages_def b_bind_Inr_iff)

lemma protocol_validates:
  assumes "builder_init b = Inr b'" and "protocol_stages b t s = (Inr c, s')"
  shows "validate_corpus (cb_env b) c = Inr ()"
  using corpus_keptD [OF protocol_stages_kept [OF builder_bounded [OF assms(1)]] assms(2)] protocol_topic [OF assms(2)]
  by (auto simp: corpus_at_def intro: corpus_ok_validates)

lemma build_corpus_at:
  assumes "builder_init b = Inr b'" and "build_corpus b t s = (Inr c, s')"
  shows "corpus_at b t {} c"
  using assms(2) corpus_keptD [OF protocol_stages_kept [OF builder_bounded [OF assms(1)]]]
  by (auto simp: build_corpus_stages b_bind_Inr_iff)

text \<open>
  C32. A corpus that \<open>CorpusBuilder.build\<close> returns is closed under its references: its documents,
  queries and passages are keyed by their identifiers without repetition, all satisfy their
  contracts, and each passage cites a recorded document and a recorded query.  It is bounded by
  \<open>max_candidates\<close> and no passage is shorter than \<open>min_passage_chars\<close>, whatever the source returns.
\<close>

theorem built_corpus_is_closed:
  assumes "builder_init b = Inr b'" and "build_corpus b t s = (Inr c, s')"
  shows "keys_distinct c \<and> list_all document_ok (co_documents c) \<and> list_all query_record_ok (co_queries c) \<and>
    list_all (survey_passage_ok (cb_env b) (document_keys c) (query_keys c)) (co_passages c) \<and> co_topic c = t \<and>
    int (length (co_documents c)) \<le> cb_max_candidates b \<and>
    list_all (\<lambda>kp. cb_min_passage_chars b \<le> int (length (sp_text (snd kp)))) (co_passages c)"
  using build_corpus_at [OF assms] by (simp add: corpus_at_def corpus_ok_def)

theorem built_corpus_is_closed_witness:
  "keys_distinct a_corpus \<and> list_all (survey_passage_ok survey_env (document_keys a_corpus) (query_keys a_corpus)) (co_passages a_corpus)"
  using built_corpus_is_closed [OF small_survey(1,2)] by (simp add: survey_builder_def)

text \<open>
  The \<open>corpus.validate()\<close> that ends \<open>build\<close> never raises: building is running the three stages,
  which keep the invariant it checks.
\<close>

theorem final_validation_is_redundant:
  assumes "builder_init b = Inr b'"
  shows "build_corpus b t s = protocol_stages b t s"
proof (cases "protocol_stages b t s")
  case (Pair out s')
  then show ?thesis using protocol_validates [OF assms]
    by (cases out) (simp_all add: build_corpus_stages b_bind_def b_lift_def)
qed

theorem final_validation_is_redundant_witness:
  "protocol_stages survey_builder a_topic () = (Inr a_corpus, ())"
  using final_validation_is_redundant [OF small_survey(1), of a_topic "()"] small_survey_runs(1) by simp

section \<open>The relations\<close>

lemma extract_relationsE:
  assumes "corpus_ok env {} c" and "extractor_init x = Inr x'" and "extract_relations x c = Inr r"
  shows "extraction_ok x c r \<and>
    n_proposed r = length (concat (map (batch_proposals x c) (slices (nat (xt_batch_size x)) (passages_in_order c)))) \<and>
    ug_calls (ex_usage r) = int (length (slices (nat (xt_batch_size x)) (passages_in_order c)))"
proof -
  let ?bs = "slices (nat (xt_batch_size x)) (passages_in_order c)"
  from assms(3) obtain st where st: "extract_batches x c ?bs (empty_extraction, \<lparr>ug_calls = 0, ug_tokens = 0\<rparr>) = Inr st"
    "r = (fst st)\<lparr>ex_usage := snd st\<rparr>" by (auto simp: extract_relations_def)
  have "extraction_ok x c empty_extraction" by (simp add: extraction_ok_def empty_extraction_def)
  moreover have "\<forall>b \<in> set ?bs. batch_of c (exposed_passages b)"
    using slices_bounded batch_of_corpus [OF assms(1)] by blast
  ultimately show ?thesis using extract_batches_ok [OF _ _ st(1)]
    by (auto simp: st(2) extraction_ok_def n_proposed_def empty_extraction_def)
qed

lemma map_result_total:
  "(\<And>x. x \<in> set xs \<Longrightarrow> \<exists>y. f x = Inr y) \<Longrightarrow> \<exists>ys. map_result f xs = Inr ys \<and> length ys = length xs"
  by (induction xs) (fastforce simp: bind_result_Inr_iff)+

lemma closed_document:
  assumes "corpus_ok env {} c" and "map_of (co_passages c) i = Some p"
  shows "\<exists>d. document_for c p = Some d"
proof -
  have "sp_doc_id p \<in> document_keys c"
    using assms map_of_SomeD [OF assms(2)] by (auto simp: corpus_ok_def list_all_iff survey_passage_ok_def)
  then show ?thesis by (simp add: document_for_def document_keys_def) (metis map_of_eq_None_iff not_None_eq)
qed

lemma relation_table_total:
  assumes "corpus_ok env {} c" and "extraction_ok x c r"
  shows "\<exists>rows. relation_table r c = Inr rows \<and> length rows = length (ex_relations r)"
proof -
  have "\<exists>row. relation_row c kr = Inr row" if "kr \<in> set (sort_key fst (ex_relations r))" for kr
  proof -
    obtain k x' where kr: "kr = (k, x')" by (cases kr)
    with that assms(2) obtain p where "map_of (co_passages c) (er_passage_id x') = Some p"
      by (auto simp: extraction_ok_def list_all_iff relation_gated_def split: option.splits dest!: bspec)
    with closed_document [OF assms(1)] show ?thesis by (fastforce simp: kr relation_row_def)
  qed
  then show ?thesis using map_result_total [of "sort_key fst (ex_relations r)" "relation_row c"] by (simp add: relation_table_def)
qed

text \<open>
  C29. On a corpus that \<open>build\<close> returned, whatever the model answers, every relation that
  \<open>RelationExtractor.extract\<close> admits satisfies its contract, is keyed by its content digest, and
  names a passage of the corpus in which its quote occurs; a reported value or temperature has all
  its numbers in that quote.  Every rejection carries a reason of the closed list, and
  \<open>relation_table\<close> prints a row for each relation without raising.
\<close>

theorem admitted_relations_are_traceable:
  assumes "builder_init b = Inr b'" and "build_corpus b t s = (Inr c, s')"
    and "extractor_init x = Inr x'" and "extract_relations x c = Inr r"
  shows "distinct (map fst (ex_relations r)) \<and> list_all (relation_gated x c) (ex_relations r) \<and>
    list_all (\<lambda>j. rj_reason j \<in> set REJECTION_REASONS) (ex_rejections r) \<and>
    (\<exists>rows. relation_table r c = Inr rows \<and> length rows = length (ex_relations r))"
proof -
  have c: "corpus_ok (cb_env b) {} c" using build_corpus_at [OF assms(1,2)] by (simp add: corpus_at_def)
  with relation_table_total [OF c] extract_relationsE [OF c assms(3,4)] show ?thesis
    by (auto simp: extraction_ok_def)
qed

theorem admitted_relations_are_traceable_witness:
  "list_all (relation_gated survey_extractor a_corpus) (ex_relations an_extraction)"
  using admitted_relations_are_traceable [OF small_survey] by simp

text \<open>
  Extraction shows each passage of the corpus exactly once, in identifier order, in batches of
  at most \<open>batch_size\<close>, with one model call per batch; and each proposal of the model is settled
  once, as a relation or as a rejection.
\<close>

theorem every_proposal_is_settled:
  assumes "builder_init b = Inr b'" and "build_corpus b t s = (Inr c, s')"
    and "extractor_init x = Inr x'" and "extract_relations x c = Inr r"
  shows "let batches = slices (nat (xt_batch_size x)) (passages_in_order c) in
    concat batches = passages_in_order c \<and> list_all (\<lambda>batch. batch \<noteq> [] \<and> int (length batch) \<le> xt_batch_size x) batches \<and>
    ug_calls (ex_usage r) = int (length batches) \<and>
    length (ex_relations r) + length (ex_rejections r) = length (concat (map (batch_proposals x c) batches))"
proof -
  have c: "corpus_ok (cb_env b) {} c" using build_corpus_at [OF assms(1,2)] by (simp add: corpus_at_def)
  have "0 < xt_batch_size x" using assms(3) by (auto simp: extractor_init_def)
  then show ?thesis using extract_relationsE [OF c assms(3,4)] slices_bounded
    by (fastforce simp: Let_def concat_slices list_all_iff n_proposed_def)
qed

theorem every_proposal_is_settled_witness:
  "length (ex_relations an_extraction) + length (ex_rejections an_extraction) =
     length (concat (map (batch_proposals survey_extractor a_corpus) (slices 6 (passages_in_order a_corpus))))"
  using every_proposal_is_settled [OF small_survey] by (simp add: Let_def survey_extractor_def)

section \<open>The gaps\<close>

text \<open>
  C30. \<open>find_candidates\<close> is the specification of the gap kinds over the relation table: each candidate
  is a hole of its kind, none is listed twice, and for every kind the candidates listed and those
  counted as suppressed by the cap make up all the holes there are.
\<close>

theorem candidates_are_exactly_the_holes:
  "let cs = find_candidates env cap r c in
     list_all (\<lambda>g. hole r c (gc_kind g) (gc_subject g)) (cs_candidates cs) \<and>
     distinct (map (\<lambda>g. (gc_kind g, gc_subject g)) (cs_candidates cs)) \<and>
     list_all (\<lambda>kind. length (filter (\<lambda>g. gc_kind g = kind) (cs_candidates cs)) + suppressed_of cs kind =
       card {k. hole r c kind k}) GAP_KINDS"
  using candidates_are_holes [of _ env cap r c] candidates_distinct [of env cap r c] candidates_count [of _ env cap r c]
  by (simp add: Let_def list_all_iff tagged_def [abs_def])

text \<open>
  C31. Whatever the model answers, \<open>GapNarrator.narrate\<close> cannot invent a gap: each gap it keeps takes
  its kind, passages and relations from a candidate, cites a passage of the corpus, satisfies its
  contract, and a quote it carries occurs in a passage it cites.  Every candidate is settled once, as
  a gap, a refusal or a drop.  \<open>novelty_audit\<close> then verifies the result unless a gap that carries a
  quote is not labelled exactly \<open>known\<close>.
\<close>

theorem narrator_cannot_invent:
  assumes "narrate n gs r c = Inr res"
  shows "list_all (gap_traced c gs) (gr_gaps res) \<and> distinct (map fst (gr_gaps res)) \<and>
    length (gr_gaps res) + length (gr_refused res) + length (gr_dropped res) = length gs \<and>
    au_verified (novelty_audit res c) =
      list_all (\<lambda>(i, g). rg_novelty g = ''known'' \<or> blank (rg_novelty_quote g)) (gr_gaps res)"
  using narrate_ok [OF assms] audit_verified_iff [of c gs res] by (simp add: gaps_ok_def n_settled_def)

theorem narrator_cannot_invent_witness:
  "list_all (gap_traced a_corpus the_candidates) (gr_gaps (a_gap_result ''known''))"
  using narrator_cannot_invent [OF small_survey_runs(3)] by simp

section \<open>The pipeline\<close>

lemma cell_passages: "set (cc_passage_ids (cell_of c k (cell_list r k))) \<subseteq> er_passage_id ` relation_set r"
  by (auto simp: cell_of_def Let_def set_cell_list cell_relations_def)

lemma detector_passages:
  assumes "g \<in> set (map (candidate_of_cell kind facts) (filter f (ordered_cells r c)))"
  shows "set (gc_passage_ids g) \<subseteq> er_passage_id ` relation_set r"
proof -
  from assms obtain x where x: "x \<in> set (ordered_cells r c)" "gc_passage_ids g = cc_passage_ids x"
    by (auto simp: candidate_of_cell_def)
  then obtain k where "x = cell_of c k (cell_list r k)" by (auto simp: set_ordered_cells)
  with x(2) cell_passages [of c k r] show ?thesis by simp
qed

lemma axis_cell:
  assumes "k \<in> fst ` set (coverage_matrix r c)"
  shows "the (map_of (coverage_matrix r c) k) = cell_of c k (cell_list r k)"
proof -
  from assms obtain x where "(k, x) \<in> set (coverage_matrix r c)" by auto
  with coverage_distinct [of r c] coverage_entry [of k x r c] show ?thesis by simp
qed

lemma combination_passages:
  "set (gc_passage_ids (combination (coverage_matrix r c) p m f)) \<subseteq> er_passage_id ` relation_set r"
proof -
  have "\<exists>k. x = cell_of c k (cell_list r k)" if "x \<in> set (axis_cells (coverage_matrix r c) p m f)" for x
  proof -
    from that consider g where "g \<in> studied_features r m p" "x = the (map_of (coverage_matrix r c) (m, g, p))"
      | g where "g \<in> studied_materials r f p" "x = the (map_of (coverage_matrix r c) (g, f, p))"
      by (auto simp: axis_cells_def set_features_of set_materials_of)
    then show ?thesis
      by cases (auto simp: studied_features_def studied_materials_def axis_cell coverage_keys)
  qed
  then show ?thesis using cell_passages by (fastforce simp: combination_def Let_def)
qed

lemma candidate_passages:
  assumes "g \<in> set (cs_candidates (find_candidates env cap r c))"
  shows "set (gc_passage_ids g) \<subseteq> er_passage_id ` relation_set r"
proof -
  from assms obtain kind batch where "(kind, batch) \<in> set (detected r c)" "g \<in> set batch"
    using kept_batch_subset by (fastforce simp: find_candidates_eq)
  then consider kind facts f where "g \<in> set (map (candidate_of_cell kind facts) (filter f (ordered_cells r c)))"
    | "g \<in> set (unexplored_combinations (coverage_matrix r c))"
    unfolding detected_eq contradictions_def single_source_def missing_condition_def unvalidated_mechanism_def by auto
  then show ?thesis
  proof cases
    case 1
    then show ?thesis by (rule detector_passages)
  next
    case 2
    then obtain p m f where "g = combination (coverage_matrix r c) p m f" by (auto simp: unexplored_combinations_def)
    then show ?thesis by (simp add: combination_passages)
  qed
qed

lemma gated_passages:
  assumes "extraction_ok x c r" and "i \<in> er_passage_id ` relation_set r"
  shows "\<exists>p. map_of (co_passages c) i = Some p"
proof -
  from assms(2) obtain k rel where "(k, rel) \<in> set (ex_relations r)" "i = er_passage_id rel"
    by (auto simp: relation_set_def)
  with assms(1) have "relation_gated x c (k, rel)" by (simp add: extraction_ok_def list_all_iff)
  with \<open>i = er_passage_id rel\<close> show ?thesis by (auto simp: relation_gated_def split: option.splits)
qed

lemma gap_table_total:
  assumes "corpus_ok env {} c" and "extraction_ok x c r"
    and "list_all (gap_traced c (cs_candidates (find_candidates env' cap r c))) (gr_gaps res)"
  shows "\<exists>rows. gap_table res cs c = Inr rows \<and> length rows = length (gr_gaps res)"
proof -
  have "\<exists>row. gap_row cs c kg = Inr row" if "kg \<in> set (sort_key fst (gr_gaps res))" for kg
  proof -
    obtain k g where kg: "kg = (k, g)" by (cases kg)
    with that assms(3) have "gap_traced c (cs_candidates (find_candidates env' cap r c)) (k, g)"
      by (simp add: list_all_iff)
    then obtain cand where "cand \<in> set (cs_candidates (find_candidates env' cap r c))" "drawn_from c g cand"
      unfolding gap_traced_def list_ex_iff snd_conv by blast
    then have "set (rg_supporting_passages g) \<subseteq> er_passage_id ` relation_set r"
      using candidate_passages by (auto simp: drawn_from_def)
    moreover have "\<exists>p. map_of (co_passages c) i = Some p" if "i \<in> er_passage_id ` relation_set r" for i
      using that gated_passages [OF assms(2)] by blast
    ultimately have found: "\<exists>p. map_of (co_passages c) i = Some p" if "i \<in> set (rg_supporting_passages g)" for i
      using that by blast
    have "\<exists>source. gap_source c i = Inr source" if "i \<in> set (rg_supporting_passages g)" for i
    proof -
      from found [OF that] obtain p where p: "map_of (co_passages c) i = Some p" by blast
      from closed_document [OF assms(1) p] obtain d where "document_for c p = Some d" by blast
      with p show ?thesis by (simp add: gap_source_def)
    qed
    then obtain sources where "map_result (gap_source c) (rg_supporting_passages g) = Inr sources"
      using map_result_total [of "rg_supporting_passages g" "gap_source c"] by blast
    then show ?thesis by (simp add: kg gap_row_def)
  qed
  then show ?thesis using map_result_total [of "sort_key fst (gr_gaps res)" "gap_row cs c"] by (simp add: gap_table_def)
qed

text \<open>
  The stages compose: when corpus building, extraction and narration return, over the candidates
  that \<open>find_candidates\<close> lists for any cap, \<open>gap_table\<close> prints a row for every gap with all its
  sources and raises none of its errors.
\<close>

theorem gap_list_can_be_printed:
  assumes "builder_init b = Inr b'" and "build_corpus b t s = (Inr c, s')"
    and "extractor_init x = Inr x'" and "extract_relations x c = Inr r"
    and "narrate n (cs_candidates (find_candidates env cap r c)) r c = Inr res"
  shows "\<exists>rows. gap_table res (find_candidates env cap r c) c = Inr rows \<and> length rows = length (gr_gaps res)"
proof -
  have c: "corpus_ok (cb_env b) {} c" using build_corpus_at [OF assms(1,2)] by (simp add: corpus_at_def)
  with extract_relationsE [OF c assms(3,4)] narrate_ok [OF assms(5)] show ?thesis
    by (intro gap_table_total) (auto simp: gaps_ok_def)
qed

theorem gap_list_can_be_printed_witness:
  "\<exists>rows. gap_table (a_gap_result ''known'') (find_candidates survey_env 20 an_extraction a_corpus) a_corpus = Inr rows \<and> length rows = 1"
  using gap_list_can_be_printed [OF small_survey small_survey_runs(3) [unfolded the_candidates_def]]
  by (simp add: a_gap_result_def)

section \<open>Labels with spaces around them\<close>

text \<open>
  The label checks strip the value they test but the record keeps it unstripped.  A gap labelled
  \<open>known\<close> with a space before it passes the gate, and the audit then rejects it.
\<close>

theorem padded_label_fails_audit:
  "narrate (survey_narrator '' known'') the_candidates an_extraction a_corpus = Inr (a_gap_result '' known'') \<and>
   \<not> au_verified (novelty_audit (a_gap_result '' known'') a_corpus)"
proof
  show "narrate (survey_narrator '' known'') the_candidates an_extraction a_corpus = Inr (a_gap_result '' known'')"
    by code_simp
  show "\<not> au_verified (novelty_audit (a_gap_result '' known'') a_corpus)" by code_simp
qed

text \<open>
  In the same way a direction with a space before it is admitted as a valid direction, and the
  contradiction it is part of is not found.
\<close>

definition opposed_relation :: "string \<Rightarrow> string \<Rightarrow> extracted_relation" where
  "opposed_relation i direction = \<lparr>er_relation_id = i, er_passage_id = i, er_material = ''SnSe'', er_structural_feature = ''doped'',
     er_property_name = ''ZT'', er_direction = direction, er_quote = ''q'', er_composition = [], er_value = [], er_unit = [],
     er_temperature_k = [], er_method = ''experiment'', er_vocabulary = ''thermoelectric''\<rparr>"

definition opposed_extraction :: "string \<Rightarrow> extraction_result" where
  "opposed_extraction direction = \<lparr>ex_relations = [(''r1'', opposed_relation ''r1'' ''increase''), (''r2'', opposed_relation ''r2'' direction)],
     ex_rejections = [], ex_usage = \<lparr>ug_calls = 1, ug_tokens = 1\<rparr>\<rparr>"

definition two_papers :: survey_corpus where
  "two_papers = a_corpus\<lparr>co_passages := [(''r1'', a_passage\<lparr>sp_doc_id := ''d1''\<rparr>), (''r2'', a_passage\<lparr>sp_doc_id := ''d2''\<rparr>)]\<rparr>"

theorem padded_direction_hides_contradiction:
  "validate_relation (opposed_relation ''r2'' '' decrease'') = Inr () \<and>
   map gc_kind (cs_candidates (find_candidates survey_env 20 (opposed_extraction ''decrease'') two_papers)) = [''contradictory_evidence''] \<and>
   cs_candidates (find_candidates survey_env 20 (opposed_extraction '' decrease'') two_papers) = []"
proof (intro conjI)
  show "validate_relation (opposed_relation ''r2'' '' decrease'') = Inr ()" by code_simp
  show "map gc_kind (cs_candidates (find_candidates survey_env 20 (opposed_extraction ''decrease'') two_papers)) = [''contradictory_evidence'']"
    by code_simp
  show "cs_candidates (find_candidates survey_env 20 (opposed_extraction '' decrease'') two_papers) = []" by code_simp
qed

end
