(* ===== verification/Experiment_Scoring.thy ===== *)
theory Experiment_Scoring
  imports Experiment_Oracle Dates
begin

text \<open>
  Scores of a method against the oracle and the statistics of the comparison
  (\<open>src/experiments/scoring.py\<close>).  Rates are rationals; a rate that the code leaves undefined (NaN or
  \<open>None\<close>) is \<open>None\<close>.  The draws of the permutation test are a parameter.
\<close>

section \<open>Agreement\<close>

definition AGREEMENT :: "((string \<times> string) \<times> rat) list" where
  "AGREEMENT = [((''ACCEPTED'', ''supported''), 1), ((''REFUTED'', ''contradicted''), 1), ((''NARROWED'', ''narrowed''), 1),
     ((''NARROWED'', ''supported''), 1 / 2), ((''UNRESOLVED'', ''unresolved''), 1)]"

definition agreement_score :: "string \<Rightarrow> string \<Rightarrow> rat" where
  "agreement_score label state = (case map_of AGREEMENT (label, state) of None \<Rightarrow> 0 | Some x \<Rightarrow> x)"

type_synonym oracle_states = "(string \<times> string) list"

definition state_of :: "oracle_states \<Rightarrow> verified_claim \<Rightarrow> string option" where
  "state_of truth p = map_of truth (ck_claim_id (vc_claim p))"

definition state_or_unresolved :: "oracle_states \<Rightarrow> verified_claim \<Rightarrow> string" where
  "state_or_unresolved truth p = (case state_of truth p of None \<Rightarrow> ''unresolved'' | Some s \<Rightarrow> s)"

definition agreement_of :: "oracle_states \<Rightarrow> verified_claim \<Rightarrow> rat" where
  "agreement_of truth p = agreement_score (vc_label p) (state_or_unresolved truth p)"

section \<open>Scores of a method\<close>

record method_scores =
  ms_method :: string
  ms_n_claims :: nat
  ms_decision_accuracy :: rat
  ms_counterevidence_recall :: "rat option"
  ms_overclaim_rate :: rat
  ms_n_contradicted :: nat
  ms_brier :: "rat option"
  ms_ece :: "rat option"
  ms_replay_precision :: rat
  ms_tokens :: int
  ms_tokens_per_valid :: "rat option"

definition share_of :: "('a \<Rightarrow> bool) \<Rightarrow> 'a list \<Rightarrow> rat" where
  "share_of f xs = of_nat (length (filter f xs)) / of_nat (length xs)"

definition replays :: "(string \<times> string) list \<Rightarrow> verified_claim \<Rightarrow> bool" where
  "replays snapshot p = occurs_in (normalise_quote (ck_quote (vc_claim p)))
     (normalise_quote (case map_of snapshot (ck_passage_id (vc_claim p)) of None \<Rightarrow> [] | Some s \<Rightarrow> s))"

definition replay_precision :: "verified_claim list \<Rightarrow> (string \<times> string) list \<Rightarrow> rat" where
  "replay_precision ps snapshot = (if ps = [] then 0 else share_of (replays snapshot) ps)"

definition mean_of :: "rat list \<Rightarrow> rat" where
  "mean_of xs = sum_list xs / of_nat (length xs)"

text \<open>The pairs of confidence and outcome, and the calibration bins.\<close>

definition decided_pairs :: "oracle_states \<Rightarrow> verified_claim list \<Rightarrow> (rat \<times> rat) list" where
  "decided_pairs truth ps = map (\<lambda>p. (vc_confidence p, if state_of truth p = Some ''contradicted'' then 0 else 1))
     (filter (\<lambda>p. state_of truth p = Some ''supported'' \<or> state_of truth p = Some ''contradicted'') ps)"

definition brier_score :: "(rat \<times> rat) list \<Rightarrow> rat option" where
  "brier_score pairs = (if pairs = [] then None else Some (mean_of (map (\<lambda>(p, y). (p - y) ^ 2) pairs)))"

definition truncated :: "rat \<Rightarrow> int" where
  "truncated q = (if q < 0 then - \<lfloor>- q\<rfloor> else \<lfloor>q\<rfloor>)"

definition calibration_bin :: "rat \<Rightarrow> int" where
  "calibration_bin p = min 9 (truncated (p * 10))"

definition calibration_error :: "(rat \<times> rat) list \<Rightarrow> rat option" where
  "calibration_error pairs = (if pairs = [] then None
     else Some (sum_list (map (\<lambda>k. let v = map (\<lambda>(p, y). y - p) (filter (\<lambda>(p, y). calibration_bin p = k) pairs) in
       of_nat (length v) / of_nat (length pairs) * \<bar>mean_of v\<bar>) (first_seen (map (calibration_bin \<circ> fst) pairs)))))"

definition score_method ::
  "string \<Rightarrow> verified_claim list \<Rightarrow> oracle_states \<Rightarrow> (string \<times> string) list \<Rightarrow> int \<Rightarrow> method_scores result" where
  "score_method m ps truth snapshot tokens =
     raise_if (ps = []) (survey_error ''method produced no predictions'')
     (let contra = filter (\<lambda>p. state_of truth p = Some ''contradicted'') ps;
          valid = length (filter (\<lambda>p. agreement_of truth p \<ge> 1) ps)
      in Inr \<lparr>ms_method = m, ms_n_claims = length ps, ms_decision_accuracy = mean_of (map (agreement_of truth) ps),
        ms_counterevidence_recall = (if contra = [] then None
          else Some (share_of (\<lambda>p. vc_label p = ''REFUTED'' \<or> vc_label p = ''NARROWED'') contra)),
        ms_overclaim_rate = share_of (\<lambda>p. vc_label p = ''ACCEPTED'' \<and> state_of truth p = Some ''contradicted'') ps,
        ms_n_contradicted = length contra, ms_brier = brier_score (decided_pairs truth ps),
        ms_ece = calibration_error (decided_pairs truth ps), ms_replay_precision = replay_precision ps snapshot,
        ms_tokens = tokens, ms_tokens_per_valid = (if valid = 0 then None else Some (of_int tokens / of_nat valid))\<rparr>)"

definition false_gap_rate :: "string list \<Rightarrow> string list \<Rightarrow> rat option" where
  "false_gap_rate novel addressed = (if novel = [] then None else Some (share_of (\<lambda>g. g \<in> set addressed) novel))"

section \<open>Statistics\<close>

text \<open>\<open>flips i j\<close>: whether draw \<open>i\<close> keeps the sign of difference \<open>j\<close>.\<close>

definition permuted_total :: "(nat \<Rightarrow> bool) \<Rightarrow> rat list \<Rightarrow> rat" where
  "permuted_total keep gaps = sum_list (map (\<lambda>(j, d). if keep j then d else - d) (zip [0..<length gaps] gaps))"

definition perm_p_value :: "(nat \<Rightarrow> nat \<Rightarrow> bool) \<Rightarrow> rat list \<Rightarrow> rat list \<Rightarrow> nat \<Rightarrow> rat option" where
  "perm_p_value flips left right n =
     (if length left \<noteq> length right \<or> left = [] then None
      else let gaps = map (\<lambda>(a, b). a - b) (zip left right); observed = mean_of gaps;
               extreme = length (filter (\<lambda>i. \<bar>permuted_total (flips i) gaps / of_nat (length gaps)\<bar> \<ge>
                 \<bar>observed\<bar> - 1 / 1000000000000) [0..<n])
           in Some (of_nat (extreme + 1) / of_nat (n + 1)))"

text \<open>The loop over the ranks: the running maximum, and the adjusted values by index.\<close>

fun holm_loop :: "rat list \<Rightarrow> nat \<Rightarrow> nat \<Rightarrow> nat list \<Rightarrow> rat \<Rightarrow> rat list \<Rightarrow> rat list" where
  "holm_loop ps m rank [] running adjusted = adjusted"
| "holm_loop ps m rank (i # order) running adjusted =
     (let v = min 1 (of_nat (m - rank) * ps ! i); r = max running v in
      holm_loop ps m (Suc rank) order r (adjusted[i := r]))"

definition holm_order :: "rat list \<Rightarrow> nat list" where
  "holm_order ps = sort_key (\<lambda>i. ps ! i) [0..<length ps]"

definition holm :: "rat list \<Rightarrow> rat list" where
  "holm ps = holm_loop ps (length ps) 0 (holm_order ps) 0 (replicate (length ps) 0)"

record comparison =
  pc_n_common :: nat
  pc_mean_left :: rat
  pc_mean_right :: rat
  pc_mean_delta :: rat
  pc_p_value :: "rat option"

text \<open>The last prediction of a claim counts on the right; no common claim gives no comparison.\<close>

definition claim_pairs :: "verified_claim list \<Rightarrow> verified_claim list \<Rightarrow> (verified_claim \<times> verified_claim) list" where
  "claim_pairs left right = concat (map (\<lambda>p. case map_of (rev (map (\<lambda>q. (ck_claim_id (vc_claim q), q)) right)) (ck_claim_id (vc_claim p)) of
     None \<Rightarrow> [] | Some q \<Rightarrow> [(p, q)]) left)"

definition paired_comparison ::
  "(nat \<Rightarrow> nat \<Rightarrow> bool) \<Rightarrow> verified_claim list \<Rightarrow> verified_claim list \<Rightarrow> oracle_states \<Rightarrow> comparison option" where
  "paired_comparison flips left right truth =
     (let pairs = claim_pairs left right in
      if pairs = [] then None
      else let l = map (agreement_of truth \<circ> fst) pairs;
               r = map (\<lambda>(p, q). agreement_score (vc_label q) (state_or_unresolved truth p)) pairs
           in Some \<lparr>pc_n_common = length pairs, pc_mean_left = py_round (mean_of l) 4, pc_mean_right = py_round (mean_of r) 4,
             pc_mean_delta = py_round (mean_of (map (\<lambda>(a, b). a - b) (zip l r))) 4,
             pc_p_value = map_option (\<lambda>p. py_round p 5) (perm_p_value flips l r 20000)\<rparr>)"

end
