(* ===== verification/Experiment_Laws.thy ===== *)
theory Experiment_Laws
  imports Experiment_Scoring Survey_Laws Pareto_Laws
begin

text \<open>
  Laws of the compared methods: what the gates let through, when the tree search accepts nothing,
  and the arithmetic of the scores.
\<close>

section \<open>A search whose gate never opens\<close>

primrec tree_all :: "(hypothesis \<Rightarrow> bool) \<Rightarrow> node \<Rightarrow> bool" where
  "tree_all P (Node i cs) \<longleftrightarrow> P (ni_hypothesis i) \<and> list_all (\<lambda>x. x) (map (tree_all P) cs)"

lemma tree_all_iff: "tree_all P n \<longleftrightarrow> P (ni_hypothesis (info n)) \<and> (\<forall>c \<in> set (children n). tree_all P c)"
  by (cases n) (simp add: list_all_iff)

lemma tree_all_root: "tree_all P n \<Longrightarrow> P (ni_hypothesis (info n))"
  by (cases n) simp

lemma tree_all_node_at: "tree_all P n \<Longrightarrow> valid_path p n \<Longrightarrow> tree_all P (node_at p n)"
proof (induction p arbitrary: n)
  case (Cons k p)
  then show ?case by (simp add: tree_all_iff [of P n])
qed simp

lemma tree_all_children:
  assumes "tree_all P n" and "k < length (children n)" and "tree_all P m"
  shows "tree_all P (Node (info n) ((children n)[k := m]))"
  using assms by (auto simp: tree_all_iff [of P n] list_all_iff dest!: set_update_subset_insert [THEN subsetD])

lemma tree_all_update_at:
  "tree_all P n \<Longrightarrow> valid_path p n \<Longrightarrow> tree_all P (f (node_at p n)) \<Longrightarrow> tree_all P (update_at p f n)"
proof (induction p arbitrary: n)
  case (Cons k p)
  then have "tree_all P (children n ! k)" by (simp add: tree_all_iff [of P n])
  with Cons.IH [of "children n ! k"] Cons.prems show ?case by (simp add: tree_all_children del: tree_all.simps)
qed simp

lemma tree_all_backpropagate: "tree_all P n \<Longrightarrow> valid_path p n \<Longrightarrow> tree_all P (backpropagate reward p n)"
proof (induction p arbitrary: n)
  case Nil
  then show ?case by (simp add: tree_all_iff [of P n] credit_info_def list_all_iff)
next
  case (Cons k p)
  then have "tree_all P (backpropagate reward p (children n ! k))" by (simp add: tree_all_iff [of P n])
  with Cons.prems have "tree_all P (Node (info n) ((children n)[k := backpropagate reward p (children n ! k)]))"
    by (simp add: tree_all_children del: tree_all.simps)
  then show ?case by (simp add: credit_info_def)
qed

lemma tree_all_expand:
  assumes "tree_all P n" and "\<forall>e \<in> set (expander cfg (ni_hypothesis (info n))). P (ex_hypothesis e)"
  shows "tree_all P (fst (expand_node env cfg it n))"
proof -
  obtain cs evs where a: "admit_proposals env cfg it (info n) (sorted_proposals cfg (ni_hypothesis (info n))) {} = (cs, evs)"
    by fastforce
  have "tree_all P c" if in_cs: "c \<in> set cs" for c
  proof -
    obtain p where p: "p \<in> set (sorted_proposals cfg (ni_hypothesis (info n)))"
      "c = new_node (ex_hypothesis p) (ex_action p) (ex_prior p) (ni_depth (info n) + 1)"
      using admit_proposals_children [of c env cfg it "info n" "sorted_proposals cfg (ni_hypothesis (info n))" "{}"] in_cs a by auto
    then have "P (ex_hypothesis p)" using assms(2) by (simp add: sorted_proposals_def)
    then show ?thesis by (simp add: p(2) new_node_def)
  qed
  with assms(1) a show ?thesis by (auto simp: expand_node_def Let_def tree_all_iff [of P n] list_all_iff)
qed

lemma tree_all_widen:
  assumes "tree_all P n" and "\<And>h. P h \<Longrightarrow> \<forall>e \<in> set (expander cfg h). P (ex_hypothesis e)"
    and "widen env cfg it w n = (path, tree, evs)"
  shows "tree_all P tree \<and> valid_path path tree"
proof -
  let ?path = "descend cfg w n"
  have valid: "valid_path ?path n" by (rule descend_valid)
  have at: "tree_all P (node_at ?path n)" by (rule tree_all_node_at [OF assms(1) valid])
  then have "P (ni_hypothesis (info (node_at ?path n)))" by (rule tree_all_root)
  from tree_all_expand [OF at assms(2) [OF this]] have expanded: "tree_all P (fst (expand_node env cfg it (node_at ?path n)))" .
  obtain n' evs' where e: "expand_node env cfg it (node_at ?path n) = (n', evs')" by fastforce
  have "tree_all P (update_at ?path (\<lambda>x. n') n)"
    using tree_all_update_at [OF assms(1) valid] expanded by (simp add: e)
  moreover have "valid_path ?path (update_at ?path (\<lambda>x. n') n)" by (rule valid_path_update [OF valid])
  moreover have "node_at ?path (update_at ?path (\<lambda>x. n') n) = n'" by (rule node_at_update [OF valid])
  ultimately have expanded_ok: "tree_all P (update_at ?path (\<lambda>x. n') n)" "valid_path ?path (update_at ?path (\<lambda>x. n') n)"
    "node_at ?path (update_at ?path (\<lambda>x. n') n) = n'" by blast+
  have selected: "valid_path (?path @ [select_child cfg w n']) (update_at ?path (\<lambda>x. n') n)" if "children n' \<noteq> []"
    using expanded_ok(2,3) select_child_less [OF that] by (simp add: valid_path_append)
  have widened: "widen env cfg it w n = (if ni_visits (info (node_at ?path n)) > 0 \<and> \<not> ni_expanded (info (node_at ?path n)) \<and>
        ni_depth (info (node_at ?path n)) < max_depth cfg
      then (if children n' \<noteq> [] then ?path @ [select_child cfg w n'] else ?path, update_at ?path (\<lambda>x. n') n, evs')
      else (?path, n, []))" by (simp add: widen_def Let_def e)
  show ?thesis
  proof (cases "path = ?path \<and> tree = n")
    case True
    then show ?thesis using assms(1) valid by simp
  next
    case False
    then have "tree = update_at ?path (\<lambda>x. n') n" "path = (if children n' \<noteq> [] then ?path @ [select_child cfg w n'] else ?path)"
      using assms(3) unfolding widened by (auto split: if_splits)
    then show ?thesis using expanded_ok(1,2) selected by simp
  qed
qed

lemma closed_gate_iteration:
  assumes "tree_all P (ss_root s) \<and> ss_archive s = []" and "\<And>h. P h \<Longrightarrow> \<forall>e \<in> set (expander cfg h). P (ex_hypothesis e)"
    and "\<And>h v. P h \<Longrightarrow> \<not> fst (gate cfg h v)"
  shows "tree_all P (ss_root (search_iteration env cfg it s)) \<and> ss_archive (search_iteration env cfg it s) = []"
proof -
  let ?w = "normalized_weights (WEIGHT_BANK ! (it mod length WEIGHT_BANK))"
  obtain path tree evs where w: "widen env cfg it ?w (ss_root s) = (path, tree, evs)" by (metis prod_cases3)
  have tree: "tree_all P tree" "valid_path path tree" using tree_all_widen [OF _ assms(2) w] assms(1) by auto
  let ?h = "ni_hypothesis (info (node_at path tree))"
  have "P ?h" by (rule tree_all_root [OF tree_all_node_at [OF tree]])
  then have "\<not> fst (snd (judge cfg ?h (evaluator cfg ?h)))"
    using assms(3) [of ?h] by (auto simp: judge_def Let_def split: prod.splits)
  moreover obtain b1 b2 why where "judge cfg ?h (evaluator cfg ?h) = (b1, b2, why)" by (metis prod_cases3)
  ultimately show ?thesis using assms(1) tree_all_backpropagate [OF tree]
    by (simp add: search_iteration_def Let_def w)
qed

lemma closed_gate_empty:
  assumes "P h" and "\<And>h. P h \<Longrightarrow> \<forall>e \<in> set (expander cfg h). P (ex_hypothesis e)"
    and "\<And>h v. P h \<Longrightarrow> \<not> fst (gate cfg h v)" and "search env cfg h n = Inr report"
  shows "pareto_archive report = []"
proof -
  have "tree_all P (ss_root (search_state_after env cfg h k)) \<and> ss_archive (search_state_after env cfg h k) = []" for k
  proof (induction k)
    case 0
    then show ?case using assms(1) by (simp add: search_state_after_def start_search_def new_node_def)
  next
    case (Suc k)
    then show ?case using closed_gate_iteration [OF Suc assms(2,3)] by (simp add: search_state_after_def)
  qed
  then show ?thesis using assms(4)
    by (auto simp: search_def Let_def pareto_front_def best_by_id_def split: if_splits)
qed

section \<open>The refinement search of a claim\<close>

definition unlocated :: "verdict list \<Rightarrow> bool" where
  "unlocated vs \<longleftrightarrow> list_all (\<lambda>v. CHR ''@'' \<notin> set (vd_ref v)) vs"

lemma not_located: "CHR ''@'' \<notin> set l \<Longrightarrow> \<not> locator_ok l"
proof -
  assume "CHR ''@'' \<notin> set l"
  then have none: "dropWhile (\<lambda>c. c \<noteq> CHR ''@'') l = []" by auto
  show ?thesis unfolding locator_ok_def none by simp
qed

lemma unlocated_gate:
  assumes "unlocated vs" and "support_evidence h = map vd_ref vs"
  shows "\<not> fst (default_acceptance_gate h v)"
proof (cases vs)
  case Nil
  with assms(2) show ?thesis by (simp add: default_acceptance_gate_def)
next
  case (Cons x xs)
  then have "\<not> list_all locator_ok (support_evidence h)" using assms not_located by (auto simp: unlocated_def)
  then show ?thesis by (simp add: default_acceptance_gate_def)
qed

lemma refinements_support:
  "e \<in> set (refinement_children c vs items) \<Longrightarrow> support_evidence (ex_hypothesis e) = map vd_ref vs"
  by (auto simp: refinement_children_def refinement_of_def refined_hypothesis_def)

text \<open>No candidate is accepted, so the root stays the best and the boundary is the one of the labels.\<close>

lemma mcts_refine_unlocated:
  assumes "unlocated vs" and "1 \<le> mx_iterations ctx"
  shows "mcts_refine ctx c vs db_state = Inr (cedg_label vs True)"
proof -
  let ?items = "refine ctx c vs" and ?root = "claim_root c vs"
  obtain report where r: "search (mx_env ctx) (refinement_search c vs db_state ?items) ?root (mx_iterations ctx) = Inr report"
    using assms(2) by (simp add: search_def Let_def)
  have "pareto_archive report = []"
  proof (rule closed_gate_empty [where P = "\<lambda>h. support_evidence h = map vd_ref vs", OF _ _ _ r])
    show "support_evidence ?root = map vd_ref vs" by (simp add: claim_root_def refined_hypothesis_def)
    show "\<forall>e \<in> set (expander (refinement_search c vs db_state ?items) h). support_evidence (ex_hypothesis e) = map vd_ref vs" for h
      using refinements_support by (auto simp: refinement_search_def)
    show "\<not> fst (gate (refinement_search c vs db_state ?items) h v)" if "support_evidence h = map vd_ref vs" for h v
      using unlocated_gate [OF assms(1) that] by (simp add: refinement_search_def)
  qed
  moreover have "hy_boundary ?root = []" by (simp add: claim_root_def refined_hypothesis_def)
  ultimately show ?thesis by (cases "cedg_label vs True") (simp add: mcts_refine_def Let_def r)
qed

section \<open>Verdicts\<close>

definition quoted_from :: "gathered list \<Rightarrow> verdict \<Rightarrow> bool" where
  "quoted_from ps v \<longleftrightarrow> list_ex (\<lambda>p. vd_ref v = ga_ref p \<and> occurs_in (normalise_quote (vd_quote v)) (normalise_quote (ga_text p))) ps"

lemma quoted_from_Cons: "quoted_from ps v \<Longrightarrow> quoted_from (p # ps) v"
  by (simp add: quoted_from_def)

lemma judge_passage_quoted: "judge_passage ctx c p = Inr (Inr v) \<Longrightarrow> quoted_from (p # ps) v"
  by (auto simp: judge_passage_def quoted_from_def Let_def split: sum.splits if_splits)

lemma judge_passages_ok:
  "judge_passages ctx c ps = Inr (vs, rs) \<Longrightarrow> list_all (quoted_from ps) vs \<and> length vs + length rs = length ps"
proof (induction ps arbitrary: vs rs)
  case (Cons p ps)
  then obtain out vs1 rs1 where s: "judge_passage ctx c p = Inr out" "judge_passages ctx c ps = Inr (vs1, rs1)"
    "(vs, rs) = (case out of Inl r \<Rightarrow> (vs1, r # rs1) | Inr v \<Rightarrow> (v # vs1, rs1))"
    by (auto simp: bind_result_Inr_iff)
  have "list_all (quoted_from (p # ps)) vs1"
    using Cons.IH [OF s(2)] quoted_from_Cons by (auto simp: list_all_iff)
  then show ?case using s Cons.IH [OF s(2)] judge_passage_quoted [of ctx c p] by (cases out) auto
qed simp

lemma take_hits_bound: "length ps < k \<Longrightarrow> length (fst (take_hits k hs ps)) \<le> k \<and> (\<not> snd (take_hits k hs ps) \<longrightarrow> length (fst (take_hits k hs ps)) < k)"
  by (induction k hs ps rule: take_hits.induct) (auto simp: Let_def)

lemma gather_from_bound:
  "length ps < k \<Longrightarrow> gather_from ctx c k ts ps n s = (Inr (qs, m), s') \<Longrightarrow> length qs \<le> k \<and> m \<le> n + length ts"
proof (induction ts arbitrary: ps n s)
  case (Cons t ts)
  then obtain hits s1 where "(case take_hits k hits ps of (ps', full) \<Rightarrow>
      if full then b_lift (Inr (ps', Suc n)) else gather_from ctx c k ts ps' (Suc n)) s1 = (Inr (qs, m), s')"
    by (auto simp: b_bind_Inr_iff)
  then show ?case using take_hits_bound [OF Cons.prems(1), of hits] Cons.IH
    by (fastforce split: prod.splits if_splits)
qed auto

section \<open>Confidence\<close>

lemma method_confidence_unit:
  assumes "0 \<le> prior" and "prior \<le> 1"
  shows "0 \<le> method_confidence vs n prior \<and> method_confidence vs n prior \<le> 1"
proof -
  let ?x = "max (1 / 10) (min 1 (1 - of_nat (length (filter contradicted vs)) / of_nat (max 1 n))) :: rat"
  have "0 \<le> ?x" "?x \<le> 1" by (simp_all add: le_max_iff_disj)
  then have "0 \<le> py_round ?x 4" "py_round ?x 4 \<le> 1"
    using py_round_mono [of ?x 1 4] by (auto intro: py_round_nonneg)
  with assms show ?thesis unfolding method_confidence_def by (cases "n = 0") simp_all
qed

end
