(* ===== verification/Experiment_Properties.thy ===== *)
theory Experiment_Properties
  imports Experiment_Laws
begin

text \<open>
  The compared methods: which of them compute the same labels, and what a label says about the
  passages read.
\<close>

section \<open>Methods that coincide\<close>

definition relabel :: "string \<Rightarrow> verified_claim \<Rightarrow> verified_claim" where
  "relabel m v = v\<lparr>vc_method := m\<rparr>"

definition map_outputs :: "('a \<Rightarrow> 'b) \<Rightarrow> 'a list result \<times> 's \<Rightarrow> 'b list result \<times> 's" where
  "map_outputs f out = (case out of (Inl e, s) \<Rightarrow> (Inl e, s) | (Inr xs, s) \<Rightarrow> (Inr (map f xs), s))"

lemma run_claims_map:
  assumes "\<And>c s. c \<in> set cs \<Longrightarrow> run_claim m' ctx c s = (case run_claim m ctx c s of (Inl e, s') \<Rightarrow> (Inl e, s') | (Inr v, s') \<Rightarrow> (Inr (f v), s'))"
  shows "run_claims m' ctx cs s = map_outputs f (run_claims m ctx cs s)"
  using assms
proof (induction cs arbitrary: s)
  case (Cons c cs)
  obtain out s1 where r: "run_claim m ctx c s = (out, s1)" by fastforce
  show ?case
  proof (cases out)
    case (Inl e)
    then show ?thesis using Cons.prems [of c s] by (simp add: r b_bind_def map_outputs_def)
  next
    case (Inr v)
    then show ?thesis using Cons.prems [of c s] Cons.IH [of s1] Cons.prems
      by (auto simp: r b_bind_def b_lift_def map_outputs_def split: prod.split sum.split)
  qed
qed (simp add: b_lift_def map_outputs_def)

text \<open>The outcome of a claim after the passages were read, for the methods with a state machine.\<close>

lemma run_claim_relabel:
  assumes "m \<in> {''A1-no-mcts'', ''A2-no-db''}"
  shows "run_claim m ctx c s = (case run_claim ''V2-dual-cedg'' ctx c s of
    (Inl e, s') \<Rightarrow> (Inl e, s') | (Inr v, s') \<Rightarrow> (Inr (relabel m v), s'))"
proof -
  have "decide_label m ctx c vs = decide_label ''V2-dual-cedg'' ctx c vs" for vs
    using assms by (auto simp: decide_label_def)
  moreover have "m \<noteq> ''V0-vanilla-rag'' \<and> m \<noteq> ''V1-dual-retrieval''" using assms by auto
  ultimately show ?thesis
    by (auto simp: run_claim_def b_bind_def b_lift_def relabel_def bind_result_def split: prod.splits sum.splits)
qed


section \<open>The full method\<close>

text \<open>The database entry of the full method, added to a result of \<open>V2-dual-cedg\<close>.\<close>

definition add_database :: "'s method_context \<Rightarrow> verified_claim \<Rightarrow> verified_claim" where
  "add_database ctx v = (let (checked, state) = db_check ctx (vc_claim v) in
     v\<lparr>vc_method := ''V3-full'', vc_db_checked := checked,
       vc_label := (if state = ''consistent'' \<and> vc_label v = ''UNRESOLVED'' then ''NARROWED'' else vc_label v),
       vc_notes := map (\<lambda>(k, x). (k, if k = ''db_state'' then JStr state else x)) (vc_notes v)\<rparr>)"

text \<open>Every hit of the client has a document id without an at sign.\<close>

definition plain_ids :: "json list \<Rightarrow> bool" where
  "plain_ids hits \<longleftrightarrow> list_all (\<lambda>h. proposed h ''doc_id'' \<noteq> [] \<and> CHR ''@'' \<notin> set (proposed h ''doc_id'')) hits"

definition plain_client :: "'s method_context \<Rightarrow> bool" where
  "plain_client ctx \<longleftrightarrow> (\<forall>q k fs s hits s'. mx_search ctx q k fs s = (Inr hits, s') \<longrightarrow> plain_ids hits)"

definition plain_refs :: "gathered list \<Rightarrow> bool" where
  "plain_refs ps \<longleftrightarrow> list_all (\<lambda>p. CHR ''@'' \<notin> set (ga_ref p)) ps"

lemma take_hits_plain: "plain_ids hs \<Longrightarrow> plain_refs ps \<Longrightarrow> plain_refs (fst (take_hits k hs ps))"
  by (induction k hs ps rule: take_hits.induct) (auto simp: plain_ids_def plain_refs_def Let_def)

lemma search_discovery_plain:
  assumes "plain_client ctx" and "search_discovery ctx q k s = (Inr hits, s')"
  shows "plain_ids hits"
proof -
  obtain fs where fs: "semantic_filters (no_filter\<lparr>sq_year_from := Some (JInt 1900), sq_year_to := Some (JInt (mx_year_to ctx))\<rparr>) = Inr fs"
    by (auto simp: semantic_filters_def no_filter_def Let_def)
  obtain out s1 where out: "mx_search ctx q k fs s = (out, s1)" by fastforce
  show ?thesis
  proof (cases out)
    case (Inl e)
    then show ?thesis using assms(2) by (simp add: search_discovery_def b_bind_def b_lift_def fs out plain_ids_def)
  next
    case (Inr hs)
    with assms(1) out have "plain_ids hs" unfolding plain_client_def by blast
    moreover have "hits = filter is_dict hs" using assms(2) Inr by (simp add: search_discovery_def b_bind_def b_lift_def fs out)
    ultimately show ?thesis by (auto simp: plain_ids_def list_all_iff)
  qed
qed

lemma gather_plain:
  assumes "plain_client ctx"
  shows "plain_refs ps \<Longrightarrow> gather_from ctx c k ts ps n s = (Inr (qs, m), s') \<Longrightarrow> plain_refs qs"
proof (induction ts arbitrary: ps n s)
  case (Cons t ts)
  then obtain hits s1 where h: "search_discovery ctx (mx_format ctx t (search_fragments c)) 3 s = (Inr hits, s1)"
    and r: "(case take_hits k hits ps of (ps', full) \<Rightarrow>
      if full then b_lift (Inr (ps', Suc n)) else gather_from ctx c k ts ps' (Suc n)) s1 = (Inr (qs, m), s')"
    by (auto simp: b_bind_Inr_iff)
  have "plain_refs (fst (take_hits k hits ps))"
    by (rule take_hits_plain [OF search_discovery_plain [OF assms h] Cons.prems(1)])
  then show ?case using r Cons.IH by (fastforce split: prod.splits if_splits)
qed auto

lemma judged_plain:
  assumes "plain_refs ps" and "judge_passages ctx c ps = Inr (vs, rs)"
  shows "unlocated vs"
  using judge_passages_ok [OF assms(2)] assms(1)
  by (auto simp: unlocated_def plain_refs_def list_all_iff quoted_from_def list_ex_iff)

lemma decide_label_full:
  assumes "unlocated vs" and "1 \<le> mx_iterations ctx"
  shows "decide_label ''V3-full'' ctx c vs = (case cedg_label vs True of (label, boundary) \<Rightarrow>
    case db_check ctx c of (checked, state) \<Rightarrow>
      Inr (if state = ''consistent'' \<and> label = ''UNRESOLVED'' then ''NARROWED'' else label, boundary, checked, Some state))"
  by (cases "db_check ctx c"; cases "cedg_label vs True"; cases "refine ctx c vs = []")
    (simp_all add: decide_label_def mcts_refine_unlocated [OF assms])

lemma decide_label_cedg:
  "decide_label ''V2-dual-cedg'' ctx c vs = (case cedg_label vs True of (label, boundary) \<Rightarrow> Inr (label, boundary, False, None))"
  by (simp add: decide_label_def split: prod.split)

lemma run_claim_full:
  assumes "plain_client ctx" and "1 \<le> mx_iterations ctx"
  shows "run_claim ''V3-full'' ctx c s = (case run_claim ''V2-dual-cedg'' ctx c s of
    (Inl e, s') \<Rightarrow> (Inl e, s') | (Inr v, s') \<Rightarrow> (Inr (add_database ctx v), s'))"
proof (cases "gather_counter_evidence ctx c s")
  case (Pair out s1)
  show ?thesis
  proof (cases out)
    case (Inl e)
    then show ?thesis by (simp add: run_claim_def b_bind_def Pair)
  next
    case (Inr pn)
    obtain ps n where pn: "pn = (ps, n)" by (cases pn)
    have "plain_refs []" by (simp add: plain_refs_def)
    moreover have "gather_from ctx c 3 COUNTEREVIDENCE_TEMPLATES [] 0 s = (Inr (ps, n), s1)"
      using Pair by (simp add: gather_counter_evidence_def Inr pn)
    ultimately have "plain_refs ps" by (rule gather_plain [OF assms(1)])
    then show ?thesis using judged_plain [of ps ctx c] decide_label_full [OF _ assms(2)]
      by (cases "judge_passages ctx c ps")
        (auto simp: run_claim_def b_bind_def b_lift_def Pair Inr pn decide_label_cedg add_database_def split: prod.split)
  qed
qed

section \<open>A small context\<close>

text \<open>One document, one model answer: the claim is contradicted, with a quote of the abstract.\<close>

definition sample_claim :: checked_claim where
  "sample_claim = \<lparr>ck_claim_id = ''c1'', ck_relation_id = ''r1'', ck_material = ''AlZn'', ck_structural_feature = ''zinc'',
     ck_property_name = ''hardness'', ck_direction = ''increases'', ck_quote = ''zinc hardens'', ck_passage_id = ''p1'',
     ck_composition = [], ck_value = [], ck_unit = []\<rparr>"

definition sample_answer :: json where
  "sample_answer = JObj [(''verdict'', JStr ''contradicted''), (''scope_limitation'', JBool False), (''quote'', JStr ''zinc softens''),
     (''refinements'', JList [JObj [(''boundary'', JStr ''below 300 K''), (''restated'', JStr ''zinc hardens below 300 K''),
       (''rationale'', JStr ''annealing'')]])]"

definition sample_context :: "unit method_context" where
  "sample_context = \<lparr>mx_search = (\<lambda>q k fs s. (Inr [JObj [(''doc_id'', JStr ''d1''), (''abstract'', JStr ''Zinc softens it'')]], s)),
     mx_complete = (\<lambda>op system user schema. Inr \<lparr>mr_text = ''answer'', mr_input_tokens = 3, mr_output_tokens = 2, mr_request_id = ''r''\<rparr>),
     mx_loads = (\<lambda>t. Inr sample_answer), mx_format = (\<lambda>t fs. t),
     mx_env = \<lparr>sha256 = (\<lambda>t. ''00''), fromisoformat = (\<lambda>t. None)\<rparr>, mx_year_to = 2015, mx_db = None, mx_iterations = 3\<rparr>"

lemma sample_plain: "plain_client sample_context"
  by (auto simp: plain_client_def plain_ids_def sample_context_def proposed_def get_null_def)

definition read_passage :: gathered where
  "read_passage = \<lparr>ga_ref = ''d1'', ga_text = ''Zinc softens it''\<rparr>"

definition sample_verdict :: verdict where
  "sample_verdict = \<lparr>vd_verdict = ''contradicted'', vd_scope = False, vd_quote = ''zinc softens'', vd_ref = ''d1''\<rparr>"

lemma cedg_search:
  "search_discovery sample_context q k s = (Inr [JObj [(''doc_id'', JStr ''d1''), (''abstract'', JStr ''Zinc softens it'')]], s)"
  by (simp add: search_discovery_def b_bind_def b_lift_def semantic_filters_def no_filter_def Let_def sample_context_def)

lemma cedg_gather:
  "gather_counter_evidence sample_context c s = (Inr (replicate 3 read_passage, 3), s)"
proof -
  have "strip ''Zinc softens it'' = ''Zinc softens it''" by code_simp
  then show ?thesis
    by (simp add: gather_counter_evidence_def COUNTEREVIDENCE_TEMPLATES_def cedg_search b_bind_def b_lift_def proposed_def
      get_null_def read_passage_def numeral_3_eq_3 Let_def)
qed

lemma cedg_judge: "judge_passage sample_context c read_passage = Inr (Inr sample_verdict)"
proof -
  have "occurs_in (normalise_quote ''zinc softens'') (normalise_quote ''Zinc softens it'')" by code_simp
  then show ?thesis
    by (simp add: judge_passage_def sample_context_def sample_answer_def read_passage_def sample_verdict_def raise_if_def
      proposed_def get_null_def Let_def)
qed

lemma cedg_run:
  "\<exists>v. run_claim ''V2-dual-cedg'' sample_context sample_claim () = (Inr v, ()) \<and> vc_label v = ''REFUTED''"
  by (simp add: run_claim_def b_bind_def b_lift_def cedg_gather numeral_3_eq_3 cedg_judge decide_label_def cedg_label_def
    contradicted_def sample_verdict_def)

section \<open>What the search of the full method adds\<close>



section \<open>What a label says\<close>

lemma cedg_label_cases:
  "fst (cedg_label vs True) = ''REFUTED'' \<longleftrightarrow> list_ex contradicted vs"
  "fst (cedg_label vs True) = ''ACCEPTED'' \<longrightarrow> \<not> list_ex contradicted vs \<and> list_ex (\<lambda>v. vd_verdict v = ''supported'') vs"
  "fst (cedg_label vs True) \<in> set LABELS"
  by (auto simp: cedg_label_def LABELS_def split: option.splits)

lemma mcts_refine_label: "mcts_refine ctx c vs d = Inr (label, boundary) \<Longrightarrow> label = fst (cedg_label vs True)"
  by (auto simp: mcts_refine_def Let_def split: prod.splits if_splits)

lemma decide_label_cases:
  assumes "decide_label m ctx c vs = Inr (label, boundary, checked, d)"
  shows "label = fst (cedg_label vs True) \<or> (fst (cedg_label vs True) = ''UNRESOLVED'' \<and> label = ''NARROWED'')"
proof -
  from assms obtain l bd where "(if m = ''V3-full'' \<or> m = ''A1-no-mcts'' then
       (let refinements = (if m = ''V3-full'' then refine ctx c vs else []) in
         if refinements \<noteq> [] \<and> m = ''V3-full'' then mcts_refine ctx c vs d else Inr (cedg_label vs True))
       else Inr (cedg_label vs True)) = Inr (l, bd)"
    "label = (if d = Some ''consistent'' \<and> l = ''UNRESOLVED'' then ''NARROWED'' else l)"
    by (auto simp: decide_label_def bind_result_Inr_iff split: prod.splits)
  moreover from this(1) have "l = fst (cedg_label vs True)"
    using mcts_refine_label by (auto simp: Let_def split: if_splits)
  ultimately show ?thesis by (auto split: if_splits)
qed



text \<open>
  The gate asks whether the folded quote occurs in the folded text, which an empty quote does: a
  verdict without a quote counts, although the prompt says it is invalid.
\<close>

theorem empty_quote_refutes:
  assumes "mx_complete ctx (''verify-'' @ ck_claim_id c @ ''-'' @ take 16 (ga_ref p)) verify_system
      (canonical_text (JObj [(''claim'', claim_dict c), (''passage'', JStr (take 4000 (ga_text p)))])) VERDICT_SCHEMA = Inr response"
    and "mx_loads ctx (mr_text response) = Inr (JObj [(''verdict'', JStr ''contradicted''), (''scope_limitation'', JBool False), (''quote'', JStr [])])"
  shows "judge_passages ctx c [p] =
    Inr ([\<lparr>vd_verdict = ''contradicted'', vd_scope = False, vd_quote = [], vd_ref = ga_ref p\<rparr>], [])"
proof -
  have "normalise_quote [] = []" by code_simp
  moreover have "occurs_in [] t" for t by (cases t) simp_all
  ultimately show ?thesis using assms
    by (simp add: judge_passage_def Let_def get_null_def proposed_def raise_if_def)
qed

end
