(* ===== verification/Oracle_Properties.thy ===== *)
theory Oracle_Properties
  imports Experiment_Properties
begin

text \<open>
  What the comparison of the methods is measured by: the answers of the oracle and their cache, the
  agreement of labels and states, the bounds of the scores and the correction of the tests.
\<close>

section \<open>The answers of the oracle\<close>

definition counted :: "claim_oracle_result \<Rightarrow> bool" where
  "counted r \<longleftrightarrow> list_all (\<lambda>v. validate_oracle_verdict v = Inr ()) (cq_verdicts r) \<and>
     length (cq_verdicts r) + length (cq_refused r) = cq_documents r"

definition sound_result :: "claim_oracle_result \<Rightarrow> bool" where
  "sound_result r \<longleftrightarrow> counted r \<and> cq_state r = oracle_state (cq_verdicts r) \<and> cq_searches r = length ORACLE_QUERY_TEMPLATES"

definition sound_world :: "'s oracle_world \<Rightarrow> bool" where
  "sound_world w \<longleftrightarrow> list_all (sound_result \<circ> snd) (ow_claims w)"

lemma judged_hit_ok:
  assumes "judged_hit ora c t ref body r = Inr r'"
  shows "cq_claim_id r' = cq_claim_id r \<and> cq_searches r' = cq_searches r \<and> cq_documents r' = cq_documents r \<and>
    (list_all (\<lambda>v. validate_oracle_verdict v = Inr ()) (cq_verdicts r) \<longrightarrow> list_all (\<lambda>v. validate_oracle_verdict v = Inr ()) (cq_verdicts r')) \<and>
    length (cq_verdicts r') + length (cq_refused r') = Suc (length (cq_verdicts r) + length (cq_refused r))"
  using assms by (auto simp: judged_hit_def refuse_hit_def Let_def bind_result_Inr_iff split: sum.splits if_splits)

definition on_track :: "checked_claim \<Rightarrow> nat \<Rightarrow> judging \<Rightarrow> bool" where
  "on_track c k j \<longleftrightarrow> counted (jg_result j) \<and> cq_claim_id (jg_result j) = ck_claim_id c \<and> cq_searches (jg_result j) = k"

lemma judge_hit_ok:
  assumes "judge_hit ora c t h j = Inr j'" and "on_track c k j"
  shows "on_track c k j'"
proof -
  let ?r = "(jg_result j)\<lparr>cq_documents := Suc (cq_documents (jg_result j))\<rparr>"
  consider "j' = j" | ref body where "judged_hit ora c t ref body ?r = Inr (jg_result j')"
    using assms(1) by (auto simp: judge_hit_def Let_def bind_result_Inr_iff split: if_splits)
  then show ?thesis
  proof cases
    case 2
    from judged_hit_ok [OF this] assms(2) show ?thesis by (simp add: on_track_def counted_def)
  qed (use assms(2) in simp)
qed

lemma judge_hits_ok: "judge_hits ora c t hs j = Inr j' \<Longrightarrow> on_track c k j \<Longrightarrow> on_track c k j'"
  by (induction hs arbitrary: j) (auto simp: bind_result_Inr_iff dest: judge_hit_ok)

lemma judge_templates_ok:
  "judge_templates ora c ts j s = (Inr j', s') \<Longrightarrow> on_track c k j \<Longrightarrow> on_track c (k + length ts) j'"
proof (induction ts arbitrary: j s k)
  case (Cons t ts)
  let ?j = "j\<lparr>jg_result := (jg_result j)\<lparr>cq_searches := Suc (cq_searches (jg_result j))\<rparr>\<rparr>"
  from Cons.prems(1) obtain hits j2 s2 where h: "judge_hits ora c t hits ?j = Inr j2" "judge_templates ora c ts j2 s2 = (Inr j', s')"
    by (auto simp: b_bind_Inr_iff Let_def)
  have "on_track c (Suc k) ?j" using Cons.prems(2) by (simp add: on_track_def counted_def)
  from Cons.IH [OF h(2) judge_hits_ok [OF h(1) this]] show ?case by simp
qed simp

lemma judge_claim_fresh:
  assumes "judge_claim ora c w = (Inr r, w')" and "map_of (ow_claims w) (claim_cache_key ora c) = None"
  shows "sound_result r \<and> cq_claim_id r = ck_claim_id c \<and> ow_claims w' = AList.update (claim_cache_key ora c) r (ow_claims w)"
proof -
  from assms obtain j s where j: "judge_templates ora c ORACLE_QUERY_TEMPLATES (unjudged c) (ow_client w) = (Inr j, s)"
    and r: "r = (jg_result j)\<lparr>cq_state := oracle_state (cq_verdicts (jg_result j))\<rparr>"
    and w: "ow_claims w' = AList.update (claim_cache_key ora c) r (ow_claims w)"
    by (auto simp: judge_claim_def Let_def split: prod.splits sum.splits)
  have "on_track c 0 (unjudged c)" by (simp add: on_track_def unjudged_def counted_def)
  from judge_templates_ok [OF j this] show ?thesis
    using w by (simp add: r on_track_def sound_result_def counted_def)
qed

lemma list_all_snd_update:
  "list_all (P \<circ> snd) xs \<Longrightarrow> P v \<Longrightarrow> list_all (P \<circ> snd) (AList.update k v xs)"
  by (induction xs) auto


definition sample_oracle :: "int \<Rightarrow> unit time_split" where
  "sample_oracle year = \<lparr>or_search = (\<lambda>q k fs s. (Inl (ValueError ''offline''), s)), or_complete = mx_complete sample_context,
     or_loads = mx_loads sample_context, or_format = (\<lambda>t fs. t), or_env = mx_env sample_context,
     or_year_from = year, or_year_to = year + 5, or_top_k = 5\<rparr>"

lemma sample_oracle_answer:
  "\<exists>r w'. judge_claim (sample_oracle 2016) sample_claim \<lparr>ow_client = (), ow_claims = [], ow_gaps = []\<rparr> = (Inr r, w') \<and> cq_state r = ''unresolved''"
  by (simp add: judge_claim_def ORACLE_QUERY_TEMPLATES_def b_bind_def b_lift_def oracle_search_def sample_oracle_def Let_def
    semantic_filters_def no_filter_def unjudged_def oracle_state_def)


section \<open>Agreement with the oracle\<close>

text \<open>The verdicts of the oracle read as verdicts of a method.\<close>

definition as_verdict :: "oracle_verdict \<Rightarrow> verdict" where
  "as_verdict v = \<lparr>vd_verdict = ov_verdict v, vd_scope = ov_scope v, vd_quote = ov_quote v, vd_ref = ov_passage_ref v\<rparr>"

text \<open>
  The label map of the methods and the state map of the oracle are the same decision: on the same
  verdicts the label agrees fully with the state.
\<close>

theorem label_and_state_maps_agree:
  "agreement_score (fst (cedg_label (map as_verdict vs) True)) (oracle_state vs) = 1"
proof -
  have maps: "list_ex contradicted (map as_verdict vs) = list_ex (\<lambda>v. ov_verdict v = ''contradicted'') vs"
    "list_ex (\<lambda>v. vd_verdict v = ''supported'') (map as_verdict vs) = list_ex (\<lambda>v. ov_verdict v = ''supported'') vs"
    by (simp_all add: list_ex_iff contradicted_def as_verdict_def)
  have bounded: "find bounded_support (map as_verdict vs) = None \<longleftrightarrow> \<not> list_ex (\<lambda>v. ov_scope v \<and> ov_verdict v = ''supported'') vs"
    by (auto simp: find_None_iff list_ex_iff bounded_support_def as_verdict_def)
  show ?thesis
    by (cases "find bounded_support (map as_verdict vs)")
      (use bounded in \<open>auto simp: cedg_label_def oracle_state_def maps agreement_score_def AGREEMENT_def\<close>)
qed

section \<open>Scores\<close>

lemma share_of_unit: "0 \<le> share_of f xs \<and> share_of f xs \<le> 1"
  by (cases "xs = []") (simp_all add: share_of_def divide_le_eq)

lemma mean_unit:
  assumes "\<And>x. x \<in> set xs \<Longrightarrow> 0 \<le> x \<and> x \<le> 1"
  shows "0 \<le> mean_of xs \<and> mean_of xs \<le> 1"
proof -
  have "0 \<le> sum_list xs" using assms by (intro sum_list_nonneg) auto
  moreover have "sum_list xs \<le> of_nat (length xs)" using assms
  proof (induction xs)
    case (Cons x xs)
    then show ?case by (simp add: add_mono)
  qed simp
  ultimately show ?thesis by (cases "xs = []") (simp_all add: mean_of_def divide_le_eq)
qed

lemma agreement_unit: "0 \<le> agreement_score l s \<and> agreement_score l s \<le> 1"
  by (simp add: agreement_score_def AGREEMENT_def)

lemma mean_abs:
  assumes "\<And>x. x \<in> set xs \<Longrightarrow> \<bar>x\<bar> \<le> 1"
  shows "\<bar>mean_of xs\<bar> \<le> 1"
proof -
  have "\<bar>sum_list xs\<bar> \<le> of_nat (length xs)" using assms
  proof (induction xs)
    case (Cons x xs)
    have "\<bar>x + sum_list xs\<bar> \<le> \<bar>x\<bar> + \<bar>sum_list xs\<bar>" by (rule abs_triangle_ineq)
    also have "\<dots> \<le> 1 + of_nat (length xs)" using Cons by (intro add_mono) auto
    finally show ?case by simp
  qed simp
  then show ?thesis by (cases "xs = []") (simp_all add: mean_of_def abs_divide divide_le_eq)
qed

lemma sum_length_fibres:
  assumes "finite A" and "f ` set xs \<subseteq> A"
  shows "(\<Sum>k \<in> A. length (filter (\<lambda>x. f x = k) xs)) = length xs"
  using assms(2)
proof (induction xs)
  case (Cons x xs)
  have "(\<Sum>k \<in> A. length (filter (\<lambda>x. f x = k) (x # xs))) =
      (\<Sum>k \<in> A. (if f x = k then 1 else 0) + length (filter (\<lambda>x. f x = k) xs))"
    by (rule sum.cong) simp_all
  also have "\<dots> = 1 + length xs" using Cons assms(1) by (simp add: sum.distrib)
  finally show ?case by simp
qed simp

text \<open>The bins partition the pairs, so their shares add up to one.\<close>

lemma bins_partition:
  "sum_list (map (\<lambda>k. of_nat (length (filter (\<lambda>x. f x = k) xs))) (first_seen (map f xs))) = (of_nat (length xs) :: rat)"
proof -
  have "sum_list (map (\<lambda>k. of_nat (length (filter (\<lambda>x. f x = k) xs))) (first_seen (map f xs))) =
      (\<Sum>k \<in> f ` set xs. of_nat (length (filter (\<lambda>x. f x = k) xs)) :: rat)"
    by (subst sum_list_distinct_conv_sum_set) simp_all
  also have "\<dots> = of_nat (\<Sum>k \<in> f ` set xs. length (filter (\<lambda>x. f x = k) xs))" by simp
  finally show ?thesis by (simp add: sum_length_fibres)
qed

definition unit_rate :: "rat option \<Rightarrow> bool" where
  "unit_rate x \<longleftrightarrow> (case x of None \<Rightarrow> True | Some q \<Rightarrow> 0 \<le> q \<and> q \<le> 1)"

lemma unit_rate_Some: "unit_rate (Some q) \<longleftrightarrow> 0 \<le> q \<and> q \<le> 1" and unit_rate_None: "unit_rate None"
  by (simp_all add: unit_rate_def)

definition confident :: "verified_claim list \<Rightarrow> bool" where
  "confident ps \<longleftrightarrow> list_all (\<lambda>p. 0 \<le> vc_confidence p \<and> vc_confidence p \<le> 1) ps"

lemma decided_pairs_unit:
  assumes "confident ps" and "(p, y) \<in> set (decided_pairs truth ps)"
  shows "\<bar>p - y\<bar> \<le> 1" and "\<bar>y - p\<bar> \<le> 1"
  using assms by (auto simp: decided_pairs_def confident_def list_all_iff)

lemma brier_unit:
  assumes "confident ps"
  shows "unit_rate (brier_score (decided_pairs truth ps))"
proof -
  have "0 \<le> (p - y) ^ 2 \<and> (p - y) ^ 2 \<le> 1" if "(p, y) \<in> set (decided_pairs truth ps)" for p y :: rat
    using decided_pairs_unit(1) [OF assms that] by (simp add: abs_square_le_1)
  then have "0 \<le> mean_of (map (\<lambda>(p, y). (p - y) ^ 2) (decided_pairs truth ps)) \<and>
      mean_of (map (\<lambda>(p, y). (p - y) ^ 2) (decided_pairs truth ps)) \<le> 1"
    by (intro mean_unit) auto
  then show ?thesis by (simp add: brier_score_def unit_rate_def)
qed

lemma calibration_unit:
  assumes "confident ps"
  shows "unit_rate (calibration_error (decided_pairs truth ps))"
proof (cases "decided_pairs truth ps = []")
  case False
  let ?ps = "decided_pairs truth ps" and ?f = "calibration_bin \<circ> fst"
  let ?v = "\<lambda>k. map (\<lambda>(p, y). y - p) (filter (\<lambda>(p, y). calibration_bin p = k) ?ps)"
  let ?share = "\<lambda>k. of_nat (length (?v k)) / of_nat (length ?ps) :: rat"
  have bin: "filter (\<lambda>(p, y). calibration_bin p = k) ?ps = filter (\<lambda>x. ?f x = k) ?ps" for k
    by (rule filter_cong) auto
  have part: "?share k * \<bar>mean_of (?v k)\<bar> \<le> ?share k" for k
  proof -
    have "\<bar>mean_of (?v k)\<bar> \<le> 1" using decided_pairs_unit(2) [OF assms] by (intro mean_abs) auto
    then have "?share k * \<bar>mean_of (?v k)\<bar> \<le> ?share k * 1" by (intro mult_left_mono) auto
    then show ?thesis by simp
  qed
  have "sum_list (map (\<lambda>k. ?share k * \<bar>mean_of (?v k)\<bar>) (first_seen (map ?f ?ps))) \<le> sum_list (map ?share (first_seen (map ?f ?ps)))"
    by (intro sum_list_mono part)
  also have "\<dots> = sum_list (map (\<lambda>k. of_nat (length (filter (\<lambda>x. ?f x = k) ?ps))) (first_seen (map ?f ?ps))) / of_nat (length ?ps)"
    by (simp add: divide_inverse sum_list_mult_const bin)
  also have "\<dots> = 1" unfolding bins_partition using False by simp
  finally have "sum_list (map (\<lambda>k. ?share k * \<bar>mean_of (?v k)\<bar>) (first_seen (map ?f ?ps))) \<le> 1" .
  moreover have "0 \<le> sum_list (map (\<lambda>k. ?share k * \<bar>mean_of (?v k)\<bar>) (first_seen (map ?f ?ps)))"
    by (intro sum_list_nonneg) auto
  ultimately show ?thesis using False by (simp add: calibration_error_def unit_rate_def Let_def)
qed (simp add: calibration_error_def unit_rate_def)

lemma filter_lengths_disjoint:
  assumes "\<And>x. x \<in> set xs \<Longrightarrow> \<not> (f x \<and> g x)"
  shows "length (filter f xs) + length (filter g xs) \<le> length xs"
  using assms
proof (induction xs)
  case (Cons x xs)
  then have "length (filter f xs) + length (filter g xs) \<le> length xs" by simp
  with Cons.prems [of x] show ?case by auto
qed simp

text \<open>
  Every rate of a method is a proportion.  When the confidences lie in the unit interval, so do the
  accuracy, the recall, the overclaim rate, the replay precision, the Brier score and the calibration
  error, and overclaimed and recalled claims together are at most the contradicted ones.
\<close>

theorem method_scores_are_proportions:
  assumes "score_method m ps truth snapshot tokens = Inr sc" and "confident ps"
  shows "list_all unit_rate [Some (ms_decision_accuracy sc), ms_counterevidence_recall sc, Some (ms_overclaim_rate sc),
      Some (ms_replay_precision sc), ms_brier sc, ms_ece sc] \<and>
    ms_overclaim_rate sc * of_nat (ms_n_claims sc) +
      (case ms_counterevidence_recall sc of None \<Rightarrow> 0 | Some q \<Rightarrow> q * of_nat (ms_n_contradicted sc)) \<le> of_nat (ms_n_contradicted sc)"
proof -
  let ?contra = "filter (\<lambda>p. state_of truth p = Some ''contradicted'') ps"
  let ?over = "\<lambda>p. vc_label p = ''ACCEPTED''" and ?found = "\<lambda>p. vc_label p = ''REFUTED'' \<or> vc_label p = ''NARROWED''"
  have ne: "ps \<noteq> []" using assms(1) by (auto simp: score_method_def raise_if_def)
  have sc: "ms_decision_accuracy sc = mean_of (map (agreement_of truth) ps)"
    "ms_counterevidence_recall sc = (if ?contra = [] then None else Some (share_of ?found ?contra))"
    "ms_overclaim_rate sc = share_of (\<lambda>p. vc_label p = ''ACCEPTED'' \<and> state_of truth p = Some ''contradicted'') ps"
    "ms_replay_precision sc = replay_precision ps snapshot" "ms_brier sc = brier_score (decided_pairs truth ps)"
    "ms_ece sc = calibration_error (decided_pairs truth ps)" "ms_n_claims sc = length ps" "ms_n_contradicted sc = length ?contra"
    using assms(1) by (auto simp: score_method_def raise_if_def Let_def)
  have "0 \<le> mean_of (map (agreement_of truth) ps) \<and> mean_of (map (agreement_of truth) ps) \<le> 1"
    using agreement_unit by (intro mean_unit) (auto simp: agreement_of_def)
  then have rates: "list_all unit_rate [Some (ms_decision_accuracy sc), ms_counterevidence_recall sc, Some (ms_overclaim_rate sc),
      Some (ms_replay_precision sc), ms_brier sc, ms_ece sc]"
    using brier_unit [OF assms(2)] calibration_unit [OF assms(2)]
    by (cases "?contra = []") (simp_all add: sc replay_precision_def unit_rate_Some unit_rate_None share_of_unit)
  have "length (filter ?over ?contra) + length (filter ?found ?contra) \<le> length ?contra"
    by (rule filter_lengths_disjoint) auto
  then have sum: "of_nat (length (filter ?over ?contra)) + of_nat (length (filter ?found ?contra)) \<le> (of_nat (length ?contra) :: rat)"
    by (simp only: of_nat_add [symmetric] of_nat_le_iff)
  have "filter ?over ?contra = filter (\<lambda>p. ?over p \<and> state_of truth p = Some ''contradicted'') ps"
    unfolding filter_filter by (rule filter_cong) auto
  with ne have over: "ms_overclaim_rate sc * of_nat (ms_n_claims sc) = of_nat (length (filter ?over ?contra))"
    unfolding sc(3,7) share_of_def by simp
  have "(case ms_counterevidence_recall sc of None \<Rightarrow> 0 | Some q \<Rightarrow> q * of_nat (ms_n_contradicted sc)) = of_nat (length (filter ?found ?contra))"
    unfolding sc(2,8) share_of_def by (cases "?contra = []") simp_all
  then show ?thesis using rates sum over by (simp only: sc(8))
qed

definition sample_prediction :: "string \<Rightarrow> rat \<Rightarrow> verified_claim" where
  "sample_prediction label confidence = (vanilla_result ''V2-dual-cedg'' sample_claim)\<lparr>vc_label := label, vc_confidence := confidence\<rparr>"

theorem method_scores_are_proportions_witness:
  "unit_rate (ms_ece (projr (score_method ''V2-dual-cedg'' [sample_prediction ''ACCEPTED'' (9 / 10), sample_prediction ''REFUTED'' 0]
     [(''c1'', ''contradicted'')] [] 10)))"
proof -
  let ?ps = "[sample_prediction ''ACCEPTED'' (9 / 10), sample_prediction ''REFUTED'' 0]"
  have "score_method ''V2-dual-cedg'' ?ps [(''c1'', ''contradicted'')] [] 10 =
      Inr (projr (score_method ''V2-dual-cedg'' ?ps [(''c1'', ''contradicted'')] [] 10))"
    by (simp add: score_method_def raise_if_def Let_def)
  moreover have "confident ?ps" by (simp add: confident_def sample_prediction_def)
  ultimately show ?thesis using method_scores_are_proportions [of "''V2-dual-cedg''" ?ps "[(''c1'', ''contradicted'')]" "[]" 10] by simp
qed

section \<open>The step-down correction\<close>

lemma holm_loop_keeps: "i \<notin> set order \<Longrightarrow> holm_loop ps m rank order running adj ! i = adj ! i"
  by (induction ps m rank order running adj rule: holm_loop.induct) (auto simp: Let_def)

lemma holm_loop_spec:
  assumes "distinct order" and "set order \<subseteq> {..<length adj}" and "j < length order" and "a < 1"
  shows "holm_loop ps m rank order running adj ! (order ! j) \<le> a \<longleftrightarrow>
    running \<le> a \<and> (\<forall>i \<le> j. of_nat (m - (rank + i)) * ps ! (order ! i) \<le> a)"
  using assms
proof (induction ps m rank order running adj arbitrary: j rule: holm_loop.induct)
  case (2 ps m rank i order running adj)
  let ?v = "of_nat (m - rank) * ps ! i"
  let ?r = "max running (min 1 ?v)"
  have v: "min 1 ?v \<le> a \<longleftrightarrow> ?v \<le> a" using 2(5) by (auto simp: min_le_iff_disj)
  show ?case
  proof (cases j)
    case 0
    have "i \<notin> set order" "i < length adj" using 2(2,3) by auto
    then show ?thesis using v by (simp add: 0 Let_def holm_loop_keeps)
  next
    case (Suc k)
    have all: "(\<forall>l \<le> Suc k. Q l) \<longleftrightarrow> Q 0 \<and> (\<forall>l \<le> k. Q (Suc l))" for Q :: "nat \<Rightarrow> bool"
      by (metis le0 not0_implies_Suc Suc_le_mono)
    show ?thesis using 2(1) [OF refl refl, of k] 2(2-5) by (simp add: Suc Let_def all v)
  qed
qed simp

lemma holm_order_perm: "distinct (holm_order ps)" "set (holm_order ps) = {..<length ps}" "length (holm_order ps) = length ps"
  by (auto simp: holm_order_def)

text \<open>
  The adjusted values decide as the step-down procedure of Holm does: at a level below one, the
  hypothesis of rank \<open>r\<close> is rejected exactly when each raw value up to that rank, times the number of
  the hypotheses not yet rejected before it, is within the level.
\<close>

theorem holm_is_step_down:
  assumes "0 \<le> a" and "a < 1" and "r < length ps"
  shows "holm ps ! (holm_order ps ! r) \<le> a \<longleftrightarrow> (\<forall>i \<le> r. of_nat (length ps - i) * ps ! (holm_order ps ! i) \<le> a)"
  unfolding holm_def
  using holm_loop_spec [of "holm_order ps" "replicate (length ps) 0" r a ps "length ps" 0 0] assms
  by (simp add: holm_order_perm)

theorem holm_is_step_down_witness:
  "holm [4 / 100, 1 / 100, 3 / 100] ! (holm_order [4 / 100, 1 / 100, 3 / 100] ! 1) \<le> 5 / 100 \<longleftrightarrow>
   (\<forall>i \<le> (1::nat). of_nat (3 - i) * [4 / 100, 1 / 100, 3 / 100] ! (holm_order [4 / 100, 1 / 100, 3 / 100] ! i) \<le> (5 / 100 :: rat))"
  using holm_is_step_down [of "5 / 100" 1 "[4 / 100, 1 / 100, 3 / 100]"] by simp

end
