(* ===== verification/Ordered_Runner.thy ===== *)
theory Ordered_Runner
  imports Stage_Handlers Outbox_Bridge Survey_Records Sciverse_Client
begin

text \<open>
  The ordered runner of the memory treatments (\<open>src/evaluation/ordered_runner.py\<close>): it binds the
  recalled strategies of each task before the task runs, injects them into the counter queries, and
  gives credit to their applications only from an external evaluator after the task.

  The task runner, the artifacts it leaves and the evaluator are parameters; the policy memory, its
  ledger and the ledgers of the tasks are the modelled ones.  A task family is text.
\<close>

section \<open>Injection\<close>

definition MEMORY_MARKER :: string where
  "MEMORY_MARKER = ''[RECALLED_FALSIFICATION_STRATEGY]''"

definition newline :: string where
  "newline = [CHR 0x0A]"

definition memory_text :: "strategy_score list \<Rightarrow> string" where
  "memory_text recalled = newline @ MEMORY_MARKER @ newline @
     join newline (map (\<lambda>s. ''- '' @ sc_kind s @ '': '' @ sc_pattern s) recalled)"

text \<open>What \<open>plan_queries\<close> makes of the plan of the wrapped backend.\<close>

definition inject_memory :: "strategy_score list \<Rightarrow> string \<Rightarrow> query_plan \<Rightarrow> query_plan result" where
  "inject_memory recalled intent p = bind_result (validate_query_plan p) (\<lambda>u.
     if intent \<noteq> ''counterevidence'' \<or> recalled = [] then Inr p
     else let injected = p\<lparr>qp_queries := map (\<lambda>q. q @ memory_text recalled) (qp_queries p)\<rparr> in
       bind_result (validate_query_plan injected) (\<lambda>u. Inr injected))"

section \<open>The world of a run\<close>

record credit_outcome =
  cr_evaluator_kind :: string
  cr_success :: bool
  cr_false_gap_avoided :: bool
  cr_valid_finding_delta :: py_float
  cr_evidence_ref :: string

record 's ordered_world =
  om_policy :: policy_db
  om_ledger :: "raw_line list"
  om_tasks :: "'s \<times> (string \<Rightarrow> raw_line list)"
  om_tick :: nat

type_synonym 's task_world = "'s \<times> (string \<Rightarrow> raw_line list)"

record 's ordered_env =
  oe_env :: py_env
  oe_float :: "string \<Rightarrow> rat option"
  oe_tenant :: string
  oe_exploration_period :: int
  oe_run_task :: "strategy_score list \<Rightarrow> json \<Rightarrow> method_spec \<Rightarrow> string \<Rightarrow> int \<Rightarrow> int \<Rightarrow> ('s task_world, (string \<times> json) list \<times> string) process"
  oe_artifact :: "string \<Rightarrow> string \<Rightarrow> 's task_world \<Rightarrow> json option result"
  oe_evaluate :: "(string \<Rightarrow> json \<Rightarrow> credit_outcome result) option"
  oe_min_evaluations :: int
  oe_activation_lower_bound :: rat
  oe_draw :: "nat \<Rightarrow> pdraw"
  oe_flush_draws :: "nat \<Rightarrow> nat \<Rightarrow> draw"
  oe_clock :: "nat \<Rightarrow> nat \<Rightarrow> time"

definition read_policy :: "(policy_db \<Rightarrow> 'a result) \<Rightarrow> ('s ordered_world, 'a) process" where
  "read_policy f w = (f (om_policy w), w)"

text \<open>One transaction of the policy store.\<close>

definition policy_act :: "'s ordered_env \<Rightarrow> (pdraw \<Rightarrow> policy_db \<Rightarrow> ('a \<times> policy_db) result) \<Rightarrow> ('s ordered_world, 'a) process" where
  "policy_act oe f w = (case transact (f (oe_draw oe (om_tick w))) (om_policy w) of
     (out, db) \<Rightarrow> (out, w\<lparr>om_policy := db, om_tick := Suc (om_tick w)\<rparr>))"

definition task_act :: "('s task_world, 'a) process \<Rightarrow> ('s ordered_world, 'a) process" where
  "task_act f w = (case f (om_tasks w) of (out, t) \<Rightarrow> (out, w\<lparr>om_tasks := t\<rparr>))"

section \<open>Selection\<close>

definition select_strategies :: "'s ordered_env \<Rightarrow> method_spec \<Rightarrow> string \<Rightarrow> int \<Rightarrow> policy_db \<Rightarrow> strategy_score list result" where
  "select_strategies oe m family index db =
     (if memory m = ''uncredited_replay'' then recall_uncredited (oe_tenant oe) family 2 db
      else let active = recall_active (oe_tenant oe) family 1 db in
        bind_result (recall_candidate_for_evaluation (oe_tenant oe) family db) (\<lambda>candidate. Inr (case candidate of
          Some c \<Rightarrow> if active = [] \<or> index mod oe_exploration_period oe = 0 then [c] else take 1 active
        | None \<Rightarrow> take 1 active)))"

section \<open>The ledger of the task\<close>

text \<open>The parts of a relative path, as \<open>pathlib\<close> gives them.\<close>

definition posix_parts :: "string \<Rightarrow> string list" where
  "posix_parts p = (if starts_with ''/'' p then [''/''] else []) @ filter (\<lambda>x. x \<noteq> [] \<and> x \<noteq> ''.'') (split_on (CHR ''/'') p)"

definition job_of_prediction :: "json \<Rightarrow> string result" where
  "job_of_prediction prediction = bind_result (key_of prediction ''ledger_relpath'') (\<lambda>v.
     case posix_parts (py_str v) of
       [a, job, file] \<Rightarrow> raise_if (file \<noteq> ''events.jsonl'') (contract ''unexpected benchmark ledger path'') (Inr job)
     | _ \<Rightarrow> Inl (contract ''unexpected benchmark ledger path''))"

definition policy_link :: "flush_report \<Rightarrow> string \<Rightarrow> string \<Rightarrow> string \<Rightarrow> string \<Rightarrow> append_request" where
  "policy_link report tenant job challenge run_id = \<lparr>req_tenant_id = tenant, req_job_id = job,
     req_aggregate_type = ''policy_audit'', req_aggregate_id = ''policy-memory'', req_event_type = ''policy.audit_linked'',
     req_payload = JObj [(''policy_ledger_head'', JStr (fl_ledger_head report)),
       (''policy_ledger_events'', JInt (int (fl_ledger_events report))),
       (''newly_dispatched'', JInt (int (fl_dispatched report))), (''challenge_id'', JStr challenge)],
     req_idempotency_key = ''policy-link:'' @ run_id @ '':'' @ challenge,
     req_event_id = None, req_occurred_at = None, req_expected_head = None\<rparr>"

text \<open>The flush of the policy outbox; it always returns.\<close>

definition flush_policy :: "'s ordered_env \<Rightarrow> string \<Rightarrow> ('s ordered_world, flush_report) process" where
  "flush_policy oe run_id w =
     (case flush (oe_env oe) (''policy:'' @ run_id) (oe_tenant oe) (oe_flush_draws oe (om_tick w)) (oe_clock oe (om_tick w)) 100
         (om_policy w) (om_ledger w) of
        None \<Rightarrow> (Inl (RuntimeError ''flush''), w)
      | Some (out, db, ls) \<Rightarrow> (out, w\<lparr>om_policy := db, om_ledger := ls, om_tick := Suc (om_tick w)\<rparr>))"

text \<open>The link in the ledger of the task, and the receipt of that ledger.\<close>

definition link_policy ::
  "'s ordered_env \<Rightarrow> flush_report \<Rightarrow> (string \<times> json) list \<Rightarrow> string \<Rightarrow> string \<Rightarrow> draw \<Rightarrow> ('s task_world, (string \<times> json) list) process" where
  "link_policy oe report prediction challenge run_id d s =
     (case key_of (JObj prediction) ''ledger_relpath'' of
        Inl e \<Rightarrow> (Inl e, s)
      | Inr path \<Rightarrow>
          let lines = snd s (py_str path) in
          (case bind_result (load_locked (oe_env oe) lines) (\<lambda>es.
              let links = filter (\<lambda>e. event_type e = ''policy.audit_linked'') es in
              raise_if (length links > 1) (contract ''task ledger has multiple policy audit links'')
              (if links = [] \<and> fl_ledger_events report \<noteq> 0
               then bind_result (job_of_prediction (JObj prediction)) (\<lambda>job.
                 bind_result (ledger_append (oe_env oe) d (policy_link report (oe_tenant oe) job challenge run_id) lines)
                   (\<lambda>(ev, lines'). Inr lines'))
               else Inr lines)) of
             Inl e \<Rightarrow> (Inl e, s)
           | Inr lines' \<Rightarrow>
               (bind_result (ledger_verify (oe_env oe) lines') (\<lambda>receipt.
                  raise_if (\<not> report_ok receipt) (contract ''ordered task ledger failed after policy link'')
                  (Inr (AList.update ''ledger_event_count'' (JInt (int (report_event_count receipt)))
                    (AList.update ''ledger_head'' (JStr (report_head_hash receipt)) prediction)))),
                (fst s, (snd s)(py_str path := lines')))))"

definition bind_policy_receipt ::
  "'s ordered_env \<Rightarrow> (string \<times> json) list \<Rightarrow> string \<Rightarrow> string \<Rightarrow> ('s ordered_world, (string \<times> json) list) process" where
  "bind_policy_receipt oe prediction challenge run_id =
     b_bind (flush_policy oe run_id) (\<lambda>report w.
       task_act (link_policy oe report prediction challenge run_id (oe_flush_draws oe (om_tick w) 0)) w)"

section \<open>One task\<close>

text \<open>The counter queries of the stored plan, and whether one of them carries the memory.\<close>

definition counter_queries_of :: "json option \<Rightarrow> string list result" where
  "counter_queries_of plan = (case plan of
     None \<Rightarrow> Inr []
   | Some v \<Rightarrow> if \<not> truthy v then Inr []
       else raise_if (\<not> is_dict v) (AttributeError ''get'')
         (case jget v ''counter_queries'' of None \<Rightarrow> Inr []
          | Some (JList items) \<Rightarrow> map_result text_of items
          | Some w \<Rightarrow> Inl (TypeError ''counter_queries'')))"

definition application_of :: "string \<Rightarrow> method_spec \<Rightarrow> string \<Rightarrow> int \<Rightarrow> string \<Rightarrow> string \<Rightarrow> string \<Rightarrow> strategy_score \<Rightarrow> application_request" where
  "application_of tenant m run_id index job family rendered s = \<lparr>aq_tenant_id = tenant, aq_strategy_id = sc_strategy_id s,
     aq_target_job_id = job, aq_target_task_family = family, aq_rendered_query = rendered,
     aq_idempotency_key = run_id @ '':'' @ method_id m @ '':'' @ show_int index @ '':'' @ sc_strategy_id s @ '':application'',
     aq_application_id = None\<rparr>"

fun for_each :: "('a \<Rightarrow> ('s, 'b) process) \<Rightarrow> 'a list \<Rightarrow> ('s, 'b list) process" where
  "for_each f [] = b_lift (Inr [])"
| "for_each f (x # xs) = b_bind (f x) (\<lambda>y. b_bind (for_each f xs) (\<lambda>ys. b_lift (Inr (y # ys))))"

definition count_field :: "(string \<times> json) list \<Rightarrow> string \<Rightarrow> int result" where
  "count_field kvs k = bind_result (key_of (JObj kvs) k) (\<lambda>v. case strict_int v of None \<Rightarrow> Inl (TypeError k) | Some i \<Rightarrow> Inr i)"

definition credit_request :: "string \<Rightarrow> (string \<times> json) list \<Rightarrow> credit_outcome \<Rightarrow> string \<Rightarrow> outcome_request result" where
  "credit_request tenant prediction c aid =
     bind_result (count_field prediction ''calls'') (\<lambda>calls.
     bind_result (count_field prediction ''tokens'') (\<lambda>tokens.
       Inr \<lparr>or_tenant_id = tenant, or_application_id = aid, or_evaluator_kind = cr_evaluator_kind c,
         or_success = cr_success c, or_false_gap_avoided = cr_false_gap_avoided c,
         or_valid_finding_delta = cr_valid_finding_delta c, or_calls = calls, or_tokens = tokens,
         or_evidence_ref = cr_evidence_ref c\<rparr>))"

definition run_thresholds :: "'s ordered_env \<Rightarrow> thresholds" where
  "run_thresholds oe = \<lparr>min_evaluations = oe_min_evaluations oe, activation_lower_bound = oe_activation_lower_bound oe,
     suspension_lower_bound = 5 / 100\<rparr>"

definition evaluate_task :: "'s ordered_env \<Rightarrow> string \<Rightarrow> (string \<times> json) list \<Rightarrow> credit_outcome result" where
  "evaluate_task oe challenge prediction = (case oe_evaluate oe of
     None \<Rightarrow> Inl (AttributeError ''evaluate'') | Some f \<Rightarrow> f challenge (JObj prediction))"

text \<open>Credit for the applications that have none, and the refresh of the statuses.\<close>

definition credit_applications ::
  "'s ordered_env \<Rightarrow> method_spec \<Rightarrow> string \<Rightarrow> (string \<times> json) list \<Rightarrow> string list \<Rightarrow> ('s ordered_world, unit) process" where
  "credit_applications oe m challenge prediction aids =
     (if memory m \<noteq> ''delayed_external_credit'' \<or> aids = [] then b_lift (Inr ())
      else b_bind (read_policy (\<lambda>db. Inr (filter (\<lambda>a. \<not> application_has_outcome (oe_tenant oe) a db) aids))) (\<lambda>pending.
        b_bind (if pending = [] then b_lift (Inr [])
            else b_bind (b_lift (evaluate_task oe challenge prediction)) (\<lambda>c.
              for_each (\<lambda>a. b_bind (b_lift (credit_request (oe_tenant oe) prediction c a))
                (\<lambda>r. policy_act oe (\<lambda>d. record_outcome (oe_env oe) d r))) pending)) (\<lambda>us.
        b_bind (policy_act oe (\<lambda>d. refresh_statuses (oe_env oe) d (oe_tenant oe) (run_thresholds oe))) (\<lambda>scs. b_lift (Inr ())))))"

definition candidate_request :: "string \<Rightarrow> string \<Rightarrow> string \<Rightarrow> json \<Rightarrow> propose_request result" where
  "candidate_request tenant job family v =
     bind_result (bind_result (key_of v ''kind'') text_of) (\<lambda>kind.
     bind_result (bind_result (key_of v ''pattern'') text_of) (\<lambda>pattern.
       Inr \<lparr>pr_tenant_id = tenant, pr_kind = kind, pr_pattern = pattern, pr_source_job_id = job,
         pr_source_task_family = family, pr_strategy_id = None\<rparr>))"

definition candidates_of :: "json \<Rightarrow> json list result" where
  "candidates_of decision = raise_if (\<not> is_dict decision) (AttributeError ''get'')
     (case jget decision ''strategy_candidates'' of None \<Rightarrow> Inr [] | Some (JList items) \<Rightarrow> Inr items
      | Some w \<Rightarrow> Inl (TypeError ''strategy_candidates''))"

definition propose_candidates ::
  "'s ordered_env \<Rightarrow> string \<Rightarrow> string \<Rightarrow> (string \<times> json) list \<Rightarrow> json option \<Rightarrow> ('s ordered_world, string list) process" where
  "propose_candidates oe job family prediction decision =
     b_bind (b_lift (key_of (JObj prediction) ''status'')) (\<lambda>st.
       case decision of None \<Rightarrow> b_lift (Inr []) | Some v \<Rightarrow>
         if st \<noteq> JStr ''completed'' then b_lift (Inr [])
         else b_bind (b_lift (candidates_of v)) (for_each (\<lambda>c. b_bind (b_lift (candidate_request (oe_tenant oe) job family c))
           (\<lambda>r. policy_act oe (\<lambda>d. propose_strategy (oe_env oe) d r)))))"

definition artifact_act :: "'s ordered_env \<Rightarrow> string \<Rightarrow> string \<Rightarrow> ('s ordered_world, json option) process" where
  "artifact_act oe job key = task_act (\<lambda>s. (oe_artifact oe job key s, s))"

text \<open>The strategies of a task: those bound to it before, or a new selection, which is then bound.\<close>

definition intervention_request ::
  "'s ordered_env \<Rightarrow> method_spec \<Rightarrow> string \<Rightarrow> string \<Rightarrow> int \<Rightarrow> string \<Rightarrow> strategy_score list \<Rightarrow> bind_request" where
  "intervention_request oe m run_id order index challenge proposal = \<lparr>bq_tenant_id = oe_tenant oe, bq_run_id = run_id,
     bq_method_id = method_id m, bq_sequence_index = index, bq_challenge_id = challenge, bq_order_sha256 = order,
     bq_memory_mode = memory m, bq_strategy_ids = map sc_strategy_id proposal\<rparr>"

definition bind_strategies ::
  "'s ordered_env \<Rightarrow> method_spec \<Rightarrow> string \<Rightarrow> string \<Rightarrow> int \<Rightarrow> string \<Rightarrow> string \<Rightarrow> ('s ordered_world, strategy_score list) process" where
  "bind_strategies oe m run_id order index challenge family =
     b_bind (read_policy (\<lambda>db. bind_result (sequence_intervention (oe_tenant oe) run_id (method_id m) index db) (\<lambda>persisted.
       case persisted of Some scs \<Rightarrow> Inr scs | None \<Rightarrow> select_strategies oe m family index db))) (\<lambda>proposal.
     policy_act oe (\<lambda>d. bind_sequence_intervention d (intervention_request oe m run_id order index challenge proposal)))"

text \<open>The applications of the selected strategies, when the stored plan carries the memory.\<close>

definition record_applications ::
  "'s ordered_env \<Rightarrow> method_spec \<Rightarrow> string \<Rightarrow> int \<Rightarrow> string \<Rightarrow> string \<Rightarrow> strategy_score list \<Rightarrow> json option \<Rightarrow>
   ('s ordered_world, bool \<times> string list) process" where
  "record_applications oe m run_id index job family selected plan =
     (if selected = [] then b_lift (Inr (False, []))
      else b_bind (b_lift (counter_queries_of plan)) (\<lambda>queries.
        if \<not> list_ex (occurs_in MEMORY_MARKER) queries then b_lift (Inr (False, []))
        else b_bind (for_each (\<lambda>s. policy_act oe (\<lambda>d. record_application (oe_env oe) d
            (application_of (oe_tenant oe) m run_id index job family (join (newline @ newline) queries) s))) selected)
          (\<lambda>aids. b_lift (Inr (True, aids)))))"

record ordered_step =
  os_sequence_index :: int
  os_challenge_id :: string
  os_task_family :: string
  os_strategy_ids :: "string list"
  os_strategy_applied :: bool
  os_application_ids :: "string list"
  os_proposed_strategy_ids :: "string list"
  os_worker_status :: string
  os_prediction_status :: json

definition ordered_task ::
  "'s ordered_env \<Rightarrow> method_spec \<Rightarrow> string \<Rightarrow> string \<Rightarrow> int \<Rightarrow> int \<Rightarrow> int \<times> json \<times> blind_task \<Rightarrow>
   ('s ordered_world, (string \<times> json) list \<times> ordered_step) process" where
  "ordered_task oe m run_id order call_limit token_limit it = (case it of (index, tv, tk) \<Rightarrow>
     b_bind (b_lift (text_of (task_family tk))) (\<lambda>family.
     b_bind (bind_strategies oe m run_id order index (challenge_id tk) family) (\<lambda>selected.
     b_bind (task_act (oe_run_task oe selected tv (m\<lparr>memory := ''none''\<rparr>) run_id call_limit token_limit)) (\<lambda>(prediction, worker).
     b_bind (b_lift (job_of_prediction (JObj prediction))) (\<lambda>job.
     b_bind (artifact_act oe job ''baseline:plan'') (\<lambda>plan.
     b_bind (record_applications oe m run_id index job family selected plan) (\<lambda>(applied, aids).
     b_bind (credit_applications oe m (challenge_id tk) prediction aids) (\<lambda>u.
     b_bind (artifact_act oe job ''baseline:decision'') (\<lambda>decision.
     b_bind (propose_candidates oe job family prediction decision) (\<lambda>ids.
     b_bind (bind_policy_receipt oe prediction (challenge_id tk) run_id) (\<lambda>done.
     b_lift (bind_result (key_of (JObj done) ''status'') (\<lambda>st. Inr (done,
       \<lparr>os_sequence_index = index, os_challenge_id = challenge_id tk, os_task_family = family,
         os_strategy_ids = map sc_strategy_id selected, os_strategy_applied = applied, os_application_ids = aids,
         os_proposed_strategy_ids = ids, os_worker_status = worker, os_prediction_status = st\<rparr>))))))))))))))"

section \<open>The run\<close>

record ordered_report =
  rp_run_id :: string
  rp_method_id :: string
  rp_memory_mode :: string
  rp_task_order_sha256 :: string
  rp_tasks :: nat
  rp_policy_ledger_head :: string
  rp_policy_ledger_events :: nat
  rp_policy_snapshot :: policy_snapshot
  rp_steps :: "ordered_step list"

definition check_run :: "'s ordered_env \<Rightarrow> method_spec \<Rightarrow> string \<Rightarrow> json list \<Rightarrow> blind_task list result" where
  "check_run oe m run_id values =
     raise_if (memory m \<noteq> ''uncredited_replay'' \<and> memory m \<noteq> ''delayed_external_credit'')
       (contract ''ordered runner requires a memory treatment'')
     (raise_if (\<not> cedg m \<or> \<not> external_counter_retrieval m) (contract ''memory treatments require CEDG and counter retrieval'')
     (raise_if ((memory m = ''delayed_external_credit'') \<noteq> (oe_evaluate oe \<noteq> None))
       (contract ''external evaluator is required only for delayed-credit treatment'')
     (raise_if (blank run_id \<or> values = []) (contract ''ordered run id and tasks are required'')
     (bind_result (map_result (blind_task_from_dict (oe_float oe)) values) (\<lambda>tasks.
       raise_if (\<not> distinct (map challenge_id tasks)) (contract ''ordered task list contains duplicate challenge ids'')
       (Inr tasks))))))"

definition task_order :: "py_env \<Rightarrow> blind_task list \<Rightarrow> string result" where
  "task_order env tasks = bind_result (canonical_json (JList (map (JStr \<circ> challenge_id) tasks))) (\<lambda>t. Inr (sha256 env t))"

definition ordered_run ::
  "'s ordered_env \<Rightarrow> json list \<Rightarrow> method_spec \<Rightarrow> string \<Rightarrow> int \<Rightarrow> int \<Rightarrow>
   ('s ordered_world, (string \<times> json) list list \<times> ordered_report) process" where
  "ordered_run oe values m run_id call_limit token_limit =
     b_bind (b_lift (check_run oe m run_id values)) (\<lambda>tasks.
     b_bind (b_lift (task_order (oe_env oe) tasks)) (\<lambda>order.
     b_bind (for_each (ordered_task oe m run_id order call_limit token_limit)
         (zip (map int [0..<length tasks]) (zip values tasks))) (\<lambda>rows w.
       (bind_result (ledger_verify (oe_env oe) (om_ledger w)) (\<lambda>receipt. Inr (map fst rows,
         \<lparr>rp_run_id = run_id, rp_method_id = method_id m, rp_memory_mode = memory m, rp_task_order_sha256 = order,
           rp_tasks = length tasks, rp_policy_ledger_head = report_head_hash receipt,
           rp_policy_ledger_events = report_event_count receipt,
           rp_policy_snapshot = audit_snapshot (oe_tenant oe) (om_policy w), rp_steps = map snd rows\<rparr>)), w))))"

definition ordered_init :: "'s ordered_env \<Rightarrow> 's ordered_env result" where
  "ordered_init oe = raise_if (oe_exploration_period oe < 1) (ValueError ''exploration_period must be positive'') (Inr oe)"

end
