(* ===== verification/Ordered_Laws.thy ===== *)
theory Ordered_Laws
  imports Ordered_Runner
begin

text \<open>
  Laws of the ordered runner: every step changes the policy memory only by operations of its store,
  and what those operations leave alone.
\<close>

section \<open>Processes that move a state along a relation\<close>

definition moves :: "('s \<Rightarrow> 's \<Rightarrow> bool) \<Rightarrow> ('s, 'a) process \<Rightarrow> bool" where
  "moves R f \<longleftrightarrow> (\<forall>s. R s (snd (f s)))"

lemma movesD: "moves R f \<Longrightarrow> f s = (out, s') \<Longrightarrow> R s s'"
  unfolding moves_def by (metis snd_conv)

locale state_order =
  fixes R :: "'s \<Rightarrow> 's \<Rightarrow> bool"
  assumes order_refl: "R s s"
    and order_trans: "R s t \<Longrightarrow> R t u \<Longrightarrow> R s u"
begin

lemma moves_lift: "moves R (b_lift r)"
  by (simp add: moves_def b_lift_def order_refl)

lemma moves_bind: "moves R f \<Longrightarrow> (\<And>x. moves R (k x)) \<Longrightarrow> moves R (b_bind f k)"
  unfolding moves_def b_bind_def by (auto split: prod.split sum.split) (metis order_trans snd_conv)+

lemma moves_for_each: "(\<And>x. moves R (f x)) \<Longrightarrow> moves R (for_each f xs)"
  by (induction xs) (simp_all add: moves_lift moves_bind)

end

section \<open>Runs of the policy store\<close>

definition policy_moved :: "py_env \<Rightarrow> (policy_op \<Rightarrow> bool) \<Rightarrow> 's ordered_world \<Rightarrow> 's ordered_world \<Rightarrow> bool" where
  "policy_moved env P w w' \<longleftrightarrow> (\<exists>ops. list_all P ops \<and> om_policy w' = run_ops (policy_step env) ops (om_policy w))"

lemma policy_moved_refl: "policy_moved env P w w"
  unfolding policy_moved_def by (rule exI [of _ "[]"]) simp

lemma policy_moved_trans: "policy_moved env P w1 w2 \<Longrightarrow> policy_moved env P w2 w3 \<Longrightarrow> policy_moved env P w1 w3"
  unfolding policy_moved_def by (metis list_all_append run_ops_append)

interpretation memory: state_order "policy_moved env P"
  by unfold_locales (rule policy_moved_refl, rule policy_moved_trans)

lemma policy_moved_weaken: "policy_moved env P w w' \<Longrightarrow> (\<And>op. P op \<Longrightarrow> Q op) \<Longrightarrow> policy_moved env Q w w'"
  unfolding policy_moved_def by (metis (mono_tags, lifting) list.pred_mono_strong)

lemma policy_act_moves:
  assumes "\<And>d. \<exists>op. P op \<and> (\<forall>db. exec_policy_op (oe_env oe) op db = drop_value (f d db))"
  shows "moves (policy_moved (oe_env oe) P) (policy_act oe f)"
proof -
  have "policy_moved (oe_env oe) P w (snd (policy_act oe f w))" for w
  proof -
    obtain op where op: "P op" "\<And>db. exec_policy_op (oe_env oe) op db = drop_value (f (oe_draw oe (om_tick w)) db)"
      using assms by blast
    have "om_policy (snd (policy_act oe f w)) = snd (policy_step (oe_env oe) op (om_policy w))"
      by (cases "f (oe_draw oe (om_tick w)) (om_policy w)")
        (simp_all add: policy_act_def policy_step_def transact_def drop_value_def op(2) case_prod_unfold)
    with op(1) show ?thesis unfolding policy_moved_def by (intro exI [of _ "[op]"]) simp
  qed
  then show ?thesis by (simp add: moves_def)
qed

lemma read_moves: "moves (policy_moved env P) (read_policy f)"
  by (simp add: moves_def read_policy_def policy_moved_refl)

lemma task_act_moves: "moves (policy_moved env P) (task_act f)"
proof -
  have "policy_moved env P w (snd (task_act f w))" for w
    unfolding policy_moved_def by (rule exI [of _ "[]"]) (simp add: task_act_def split: prod.split)
  then show ?thesis by (simp add: moves_def)
qed

lemma flush_batch_ops:
  "flush_batch env job tenant ds clock es (db, ls, n) = (out, (db', ls', n')) \<Longrightarrow>
   \<exists>ops. list_all (\<lambda>op. \<exists>now t i. op = MarkDispatched now t i) ops \<and> db' = run_ops (policy_step env) ops db"
proof (induction es arbitrary: db ls n)
  case Nil
  then show ?case by (intro exI [of _ "[]"]) simp
next
  case (Cons e es)
  show ?case
  proof (cases "ledger_append env (ds n) (dispatch_request job tenant e) ls")
    case (Inl x)
    with Cons.prems show ?thesis by (intro exI [of _ "[]"]) simp
  next
    case (Inr p)
    obtain ev ls1 where p: "p = (ev, ls1)" by (cases p)
    show ?thesis
    proof (cases "mark_dispatched (clock n) tenant (ob_event_id e) db")
      case (Inl x)
      with Cons.prems Inr show ?thesis by (intro exI [of _ "[]"]) (simp add: p)
    next
      case R: (Inr q)
      obtain db1 where q: "q = ((), db1)" by (cases q) simp
      with Cons.prems Inr R have "flush_batch env job tenant ds clock es (db1, ls1, Suc n) = (out, (db', ls', n'))" by (simp add: p)
      from Cons.IH [OF this] obtain ops where ops: "list_all (\<lambda>op. \<exists>now t i. op = MarkDispatched now t i) ops"
          "db' = run_ops (policy_step env) ops db1" by blast
      moreover have "snd (policy_step env (MarkDispatched (clock n) tenant (ob_event_id e)) db) = db1"
        by (simp add: policy_step_def drop_value_def transact_def R q)
      ultimately show ?thesis
        by (intro exI [of _ "MarkDispatched (clock n) tenant (ob_event_id e) # ops"]) simp
    qed
  qed
qed

lemma flush_loop_ops:
  "flush_loop env job tenant ds clock batch fuel (db, ls, n) = Some (out, (db', ls', n')) \<Longrightarrow>
   \<exists>ops. list_all (\<lambda>op. \<exists>now t i. op = MarkDispatched now t i) ops \<and> db' = run_ops (policy_step env) ops db"
proof (induction fuel arbitrary: db ls n)
  case (Suc fuel)
  show ?case
  proof (cases "pending_events tenant batch db = []")
    case True
    with Suc.prems show ?thesis by (intro exI [of _ "[]"]) simp
  next
    case False
    obtain o1 db1 ls1 n1 where b: "flush_batch env job tenant ds clock (pending_events tenant batch db) (db, ls, n) = (o1, (db1, ls1, n1))"
      by (cases "flush_batch env job tenant ds clock (pending_events tenant batch db) (db, ls, n)") auto
    obtain ops where ops: "list_all (\<lambda>op. \<exists>now t i. op = MarkDispatched now t i) ops" "db1 = run_ops (policy_step env) ops db"
      using flush_batch_ops [OF b] by blast
    show ?thesis
    proof (cases "isl o1 \<or> int (length (pending_events tenant batch db)) < batch")
      case True
      with Suc.prems False b have "db' = db1" by (cases o1) (auto simp: Let_def split: if_splits)
      with ops show ?thesis by blast
    next
      case more: False
      with Suc.prems False b have "flush_loop env job tenant ds clock batch fuel (db1, ls1, n1) = Some (out, (db', ls', n'))"
        by (cases o1) (auto simp: Let_def split: if_splits)
      from Suc.IH [OF this] obtain more where more: "list_all (\<lambda>op. \<exists>now t i. op = MarkDispatched now t i) more"
          "db' = run_ops (policy_step env) more db1" by blast
      then show ?thesis using ops by (intro exI [of _ "ops @ more"]) (simp add: run_ops_append)
    qed
  qed
qed simp

lemma flush_ops:
  assumes "flush env job tenant ds clock batch db ls = Some (out, db', ls')"
  shows "\<exists>ops. list_all (\<lambda>op. \<exists>now t i. op = MarkDispatched now t i) ops \<and> db' = run_ops (policy_step env) ops db"
proof (cases "blank job \<or> blank tenant \<or> batch < 1")
  case True
  with assms have "db' = db" by (auto simp: flush_def split: if_splits)
  then show ?thesis by (intro exI [of _ "[]"]) simp
next
  case False
  with assms obtain o1 ls1 n1 where "flush_loop env job tenant ds clock batch (Suc (undispatched tenant db)) (db, ls, 0) = Some (o1, (db', ls1, n1))"
    by (auto simp: flush_def split: option.splits sum.splits prod.splits if_splits)
  from flush_loop_ops [OF this] show ?thesis .
qed

section \<open>The parts of a task\<close>

lemma flush_policy_moves:
  assumes "\<And>now t i. P (MarkDispatched now t i)"
  shows "moves (policy_moved (oe_env oe) P) (flush_policy oe run_id)"
proof -
  have "policy_moved (oe_env oe) P w (snd (flush_policy oe run_id w))" for w
  proof (cases "flush (oe_env oe) (''policy:'' @ run_id) (oe_tenant oe) (oe_flush_draws oe (om_tick w)) (oe_clock oe (om_tick w)) 100
      (om_policy w) (om_ledger w)")
    case None
    then show ?thesis by (simp add: flush_policy_def policy_moved_refl)
  next
    case (Some r)
    obtain out db ls where r: "r = (out, db, ls)" by (cases r)
    from flush_ops [OF Some [unfolded r]] obtain ops where ops: "list_all (\<lambda>op. \<exists>now t i. op = MarkDispatched now t i) ops"
      "db = run_ops (policy_step (oe_env oe)) ops (om_policy w)" by blast
    moreover from ops(1) have "list_all P ops" by (rule list.pred_mono_strong) (use assms in auto)
    ultimately show ?thesis using Some by (auto simp: flush_policy_def r policy_moved_def)
  qed
  then show ?thesis by (simp add: moves_def)
qed

lemma receipt_moves:
  assumes "\<And>now t i. P (MarkDispatched now t i)"
  shows "moves (policy_moved (oe_env oe) P) (bind_policy_receipt oe prediction challenge run_id)"
proof -
  have "moves (policy_moved (oe_env oe) P) (\<lambda>w. task_act (f (om_tick w)) w)" for f :: "nat \<Rightarrow> ('a task_world, (string \<times> json) list) process"
    using task_act_moves unfolding moves_def by blast
  then show ?thesis unfolding bind_policy_receipt_def
    by (intro memory.moves_bind flush_policy_moves assms)
qed

lemma applications_moves:
  assumes "\<And>d r. P (RecordApplication d r)"
  shows "moves (policy_moved (oe_env oe) P) (record_applications oe m run_id index job family selected plan)"
proof -
  have "moves (policy_moved (oe_env oe) P) (policy_act oe (\<lambda>d. record_application (oe_env oe) d r))" for r
    by (rule policy_act_moves) (use assms in force)
  then show ?thesis unfolding record_applications_def
    by (auto intro!: memory.moves_bind memory.moves_lift memory.moves_for_each)
qed

lemma credit_moves:
  assumes "\<And>d r. memory m = ''delayed_external_credit'' \<Longrightarrow> P (RecordOutcome d r)"
    and "\<And>d t th. memory m = ''delayed_external_credit'' \<Longrightarrow> P (Refresh d t th)"
  shows "moves (policy_moved (oe_env oe) P) (credit_applications oe m challenge prediction aids)"
proof (cases "memory m = ''delayed_external_credit''")
  case True
  have "moves (policy_moved (oe_env oe) P) (policy_act oe (\<lambda>d. record_outcome (oe_env oe) d r))" for r
    by (rule policy_act_moves) (use assms(1) [OF True] in force)
  moreover have "moves (policy_moved (oe_env oe) P) (policy_act oe (\<lambda>d. refresh_statuses (oe_env oe) d t th))" for t th
    by (rule policy_act_moves) (use assms(2) [OF True] in force)
  ultimately show ?thesis unfolding credit_applications_def
    by (auto intro!: memory.moves_bind memory.moves_lift memory.moves_for_each read_moves)
qed (simp add: credit_applications_def memory.moves_lift)

lemma propose_moves:
  assumes "\<And>d r. P (Propose d r)"
  shows "moves (policy_moved (oe_env oe) P) (propose_candidates oe job family prediction decision)"
proof -
  have "moves (policy_moved (oe_env oe) P) (policy_act oe (\<lambda>d. propose_strategy (oe_env oe) d r))" for r
    by (rule policy_act_moves) (use assms in force)
  then show ?thesis unfolding propose_candidates_def
    by (auto intro!: memory.moves_bind memory.moves_lift memory.moves_for_each split: option.split)
qed

lemma bind_moves:
  assumes "\<And>d r. P (BindIntervention d r)"
  shows "moves (policy_moved (oe_env oe) P) (bind_strategies oe m run_id order index challenge family)"
proof -
  have "moves (policy_moved (oe_env oe) P) (policy_act oe (\<lambda>d. bind_sequence_intervention d r))" for r
    by (rule policy_act_moves) (use assms in force)
  then show ?thesis unfolding bind_strategies_def by (intro memory.moves_bind read_moves)
qed

text \<open>The operations of a run: credit is given only under the delayed treatment.\<close>

definition run_op :: "method_spec \<Rightarrow> policy_op \<Rightarrow> bool" where
  "run_op m op \<longleftrightarrow> (case op of RecordOutcome d r \<Rightarrow> memory m = ''delayed_external_credit''
     | Refresh d t th \<Rightarrow> memory m = ''delayed_external_credit'' | _ \<Rightarrow> True)"

text \<open>The operations after the strategies of a task are bound.\<close>

definition later_op :: "method_spec \<Rightarrow> policy_op \<Rightarrow> bool" where
  "later_op m op \<longleftrightarrow> run_op m op \<and> (case op of BindIntervention d r \<Rightarrow> False | _ \<Rightarrow> True)"

definition after_binding ::
  "'s ordered_env \<Rightarrow> method_spec \<Rightarrow> string \<Rightarrow> int \<Rightarrow> int \<Rightarrow> int \<Rightarrow> json \<Rightarrow> blind_task \<Rightarrow> string \<Rightarrow> strategy_score list \<Rightarrow>
   ('s ordered_world, (string \<times> json) list \<times> ordered_step) process" where
  "after_binding oe m run_id call_limit token_limit index tv tk family selected =
     b_bind (task_act (oe_run_task oe selected tv (m\<lparr>memory := ''none''\<rparr>) run_id call_limit token_limit)) (\<lambda>(prediction, worker).
     b_bind (b_lift (job_of_prediction (JObj prediction))) (\<lambda>job.
     b_bind (artifact_act oe job ''baseline:plan'') (\<lambda>plan.
     b_bind (record_applications oe m run_id index job family selected plan) (\<lambda>(applied, aids).
     b_bind (credit_applications oe m (challenge_id tk) prediction aids) (\<lambda>u.
     b_bind (artifact_act oe job ''baseline:decision'') (\<lambda>decision.
     b_bind (propose_candidates oe job family prediction decision) (\<lambda>ids.
     b_bind (bind_policy_receipt oe prediction (challenge_id tk) run_id) (\<lambda>done.
     b_lift (bind_result (key_of (JObj done) ''status'') (\<lambda>st. Inr (done,
       \<lparr>os_sequence_index = index, os_challenge_id = challenge_id tk, os_task_family = family,
         os_strategy_ids = map sc_strategy_id selected, os_strategy_applied = applied, os_application_ids = aids,
         os_proposed_strategy_ids = ids, os_worker_status = worker, os_prediction_status = st\<rparr>)))))))))))"

lemma ordered_task_eq:
  "ordered_task oe m run_id order call_limit token_limit (index, tv, tk) =
     b_bind (b_lift (text_of (task_family tk))) (\<lambda>family.
     b_bind (bind_strategies oe m run_id order index (challenge_id tk) family)
       (after_binding oe m run_id call_limit token_limit index tv tk family))"
  by (simp add: ordered_task_def after_binding_def [abs_def])

lemma after_binding_moves:
  "moves (policy_moved (oe_env oe) (later_op m)) (after_binding oe m run_id call_limit token_limit index tv tk family selected)"
  unfolding after_binding_def artifact_act_def
  by (intro memory.moves_bind memory.moves_lift task_act_moves)
    (auto simp: later_op_def run_op_def intro!: memory.moves_bind memory.moves_lift task_act_moves applications_moves credit_moves
      propose_moves receipt_moves)

lemma ordered_task_moves: "moves (policy_moved (oe_env oe) (run_op m)) (ordered_task oe m run_id order call_limit token_limit it)"
proof -
  obtain index tv tk where it: "it = (index, tv, tk)" by (cases it)
  have "moves (policy_moved (oe_env oe) (run_op m)) (after_binding oe m run_id call_limit token_limit index tv tk family selected)" for family selected
    using after_binding_moves [of oe m run_id call_limit token_limit index tv tk family selected]
    unfolding moves_def by (meson later_op_def policy_moved_weaken)
  then show ?thesis unfolding it ordered_task_eq
    by (intro memory.moves_bind memory.moves_lift bind_moves) (simp_all add: run_op_def)
qed

lemma ordered_run_moves: "moves (policy_moved (oe_env oe) (run_op m)) (ordered_run oe values m run_id call_limit token_limit)"
proof -
  have "moves (policy_moved (oe_env oe) (run_op m)) (\<lambda>w. (f w, w))" for f :: "'a ordered_world \<Rightarrow> ((string \<times> json) list list \<times> ordered_report) result"
    by (simp add: moves_def policy_moved_refl)
  then show ?thesis unfolding ordered_run_def
    by (intro memory.moves_bind memory.moves_lift memory.moves_for_each ordered_task_moves)
qed

end
