(* ===== verification/Ordered_Properties.thy ===== *)
theory Ordered_Properties
  imports Ordered_Laws
begin

text \<open>
  What the ordered runner does with the policy memory: it uses the store's operations only, it gives
  credit only under the delayed treatment, it never recalls a strategy into its own task family, and
  what is bound to a task stays bound.
\<close>

section \<open>What the operations leave\<close>

definition family_table :: "policy_db \<Rightarrow> (string \<times> string \<times> string) list" where
  "family_table db = map (\<lambda>s. (st_strategy_id s, st_tenant_id s, st_source_task_family s)) (strategies db)"

lemma family_table_status [simp]: "family_table (set_status t i target now db) = family_table db"
  by (simp add: family_table_def set_status_def)

lemma family_table_outbox [simp]: "family_table (db\<lparr>policy_outbox := rows\<rparr>) = family_table db"
  by (simp add: family_table_def)

definition kept :: "bool \<Rightarrow> bool \<Rightarrow> policy_db \<Rightarrow> policy_db \<Rightarrow> bool" where
  "kept credit binds db db' \<longleftrightarrow> (\<exists>xs. family_table db' = family_table db @ xs) \<and>
     (\<exists>ys. interventions db' = interventions db @ ys) \<and> (binds \<or> interventions db' = interventions db) \<and>
     (credit \<or> (outcomes db' = outcomes db \<and> (\<exists>zs. strategies db' = strategies db @ zs)))"

lemma kept_refl: "kept c b db db"
  by (simp add: kept_def)

lemma kept_trans: "kept c b x y \<Longrightarrow> kept c b y z \<Longrightarrow> kept c b x z"
  by (auto simp: kept_def)

lemma refresh_scores_kept:
  "refresh_scores env d k t th scs db = Inr db' \<Longrightarrow> kept True False db db'"
proof (induction scs arbitrary: k db)
  case (Cons sc scs)
  then consider "refresh_scores env d k t th scs db = Inr db'"
    | q db1 where "enqueue (pd_events d k) q (set_status t (sc_strategy_id sc) (target_status th sc) (pd_now d) db) = Inr db1"
      "refresh_scores env d (Suc k) t th scs db1 = Inr db'"
    by (auto simp: Let_def bind_result_Inr_iff split: if_splits)
  then show ?case
  proof cases
    case 2
    from enqueue_InrD(1) [OF 2(1)] have "kept True False db db1" by (simp add: kept_def)
    then show ?thesis using kept_trans Cons.IH [OF 2(2)] by blast
  qed (rule Cons.IH)
qed (simp add: kept_refl)

definition is_credit :: "policy_op \<Rightarrow> bool" where
  "is_credit op \<longleftrightarrow> (case op of RecordOutcome d r \<Rightarrow> True | Refresh d t th \<Rightarrow> True | _ \<Rightarrow> False)"

definition is_binding :: "policy_op \<Rightarrow> bool" where
  "is_binding op \<longleftrightarrow> (case op of BindIntervention d r \<Rightarrow> True | _ \<Rightarrow> False)"

lemma policy_step_kept: "kept (is_credit op) (is_binding op) db (snd (policy_step env op db))"
proof (cases "exec_policy_op env op db")
  case (Inl e)
  then show ?thesis by (simp add: policy_step_def transact_def kept_refl)
next
  case (Inr p)
  obtain db' where p: "p = ((), db')" by (cases p) simp
  have "kept (is_credit op) (is_binding op) db db'"
  proof (cases op)
    case (Propose d r)
    with Inr show ?thesis
      by (auto simp: p drop_value_def bind_result_Inr_iff propose_strategy_def Let_def kept_def is_credit_def family_table_def
        dest!: enqueue_InrD(1) split: if_splits option.splits)
  next
    case (RecordApplication d r)
    with Inr show ?thesis
      by (auto simp: p drop_value_def bind_result_Inr_iff record_application_def Let_def kept_def is_credit_def family_table_def
        dest!: enqueue_InrD(1) split: if_splits option.splits)
  next
    case (RecordOutcome d r)
    with Inr show ?thesis
      by (auto simp: p drop_value_def bind_result_Inr_iff record_outcome_def Let_def kept_def is_credit_def family_table_def
        dest!: enqueue_InrD(1) split: if_splits option.splits py_float.splits)
  next
    case (Refresh d t th)
    with Inr have "refresh_scores env d 0 t th (score_rows t db) db = Inr db'"
      by (auto simp: p drop_value_def bind_result_Inr_iff refresh_statuses_def split: if_splits)
    from refresh_scores_kept [OF this] Refresh show ?thesis by (simp add: is_credit_def is_binding_def)
  next
    case (BindIntervention d r)
    with Inr show ?thesis
      by (auto simp: p drop_value_def bind_result_Inr_iff bind_sequence_intervention_def Let_def kept_def is_credit_def is_binding_def
        family_table_def dest!: enqueue_InrD(1) split: if_splits option.splits)
  next
    case (MarkDispatched now t i)
    with Inr show ?thesis
      by (auto simp: p drop_value_def bind_result_Inr_iff mark_dispatched_def kept_def family_table_def split: if_splits)
  qed
  with Inr show ?thesis by (simp add: policy_step_def transact_def p)
qed

lemma kept_weaken: "kept c b x y \<Longrightarrow> (c \<Longrightarrow> c') \<Longrightarrow> (b \<Longrightarrow> b') \<Longrightarrow> kept c' b' x y"
  by (auto simp: kept_def)

lemma run_ops_kept:
  "list_all (\<lambda>op. (is_credit op \<longrightarrow> c) \<and> (is_binding op \<longrightarrow> b)) ops \<Longrightarrow> kept c b db (run_ops (policy_step env) ops db)"
proof (induction ops arbitrary: db)
  case (Cons op ops)
  then have "kept c b db (snd (policy_step env op db))" using kept_weaken [OF policy_step_kept] by fastforce
  then show ?case using Cons kept_trans by fastforce
qed (simp add: kept_refl)

lemma moved_kept:
  assumes "policy_moved env P w w'" and "\<And>op. P op \<Longrightarrow> (is_credit op \<longrightarrow> c) \<and> (is_binding op \<longrightarrow> b)"
  shows "kept c b (om_policy w) (om_policy w')"
proof -
  from assms(1) obtain ops where ops: "list_all P ops" "om_policy w' = run_ops (policy_step env) ops (om_policy w)"
    by (auto simp: policy_moved_def)
  have "list_all (\<lambda>op. (is_credit op \<longrightarrow> c) \<and> (is_binding op \<longrightarrow> b)) ops"
    using ops(1) by (rule list.pred_mono_strong) (use assms(2) in blast)
  then show ?thesis unfolding ops(2) by (rule run_ops_kept)
qed

lemma run_op_kinds: "run_op m op \<Longrightarrow> is_credit op \<longrightarrow> memory m = ''delayed_external_credit''"
  by (cases op) (auto simp: run_op_def is_credit_def)

lemma later_op_kinds: "later_op m op \<Longrightarrow> (is_credit op \<longrightarrow> memory m = ''delayed_external_credit'') \<and> \<not> is_binding op"
  by (cases op) (auto simp: later_op_def run_op_def is_credit_def is_binding_def)

section \<open>A small run\<close>

text \<open>One strategy of the family \<open>f\<close>, and one task of the family \<open>g\<close> that completes.\<close>

definition recalled_strategy :: strategy where
  "recalled_strategy = \<lparr>st_strategy_id = ''s'', st_tenant_id = ''t'', st_strategy_key = ''k'', st_kind = ''boundary_probe'',
     st_pattern = ''p'', st_source_job_id = ''j'', st_source_task_family = ''f'', st_status = CANDIDATE, st_created_at = 1,
     st_updated_at = 1\<rparr>"

definition replay_method :: method_spec where
  "replay_method = \<lparr>method_id = ''M'', support_retrieval = True, external_counter_retrieval = True, cedg = True,
     memory = ''uncredited_replay'', decision_mode = ''direct''\<rparr>"

definition replay_task :: json where
  "replay_task = JObj [(''schema_version'', JInt 1), (''challenge_id'', JStr ''c''), (''benchmark_track'', JStr ''known''),
     (''split'', JStr ''test''), (''task_family'', JStr ''g''), (''prompt'', JStr ''p''), (''cutoff_date'', JStr ''d'')]"

definition replay_env :: "unit ordered_env" where
  "replay_env = \<lparr>oe_env = \<lparr>sha256 = (\<lambda>t. replicate 64 (CHR ''a'')), fromisoformat = (\<lambda>t. Some True)\<rparr>, oe_float = (\<lambda>t. None),
     oe_tenant = ''t'', oe_exploration_period = 3,
     oe_run_task = (\<lambda>ss v m r c k s. (Inr ([(''ledger_relpath'', JStr ''t/j/events.jsonl''), (''status'', JStr ''completed'')], ''SUCCEEDED''), s)),
     oe_artifact = (\<lambda>j k s. Inr None), oe_evaluate = None, oe_min_evaluations = 3, oe_activation_lower_bound = 1 / 5,
     oe_draw = (\<lambda>n. \<lparr>pd_now = of_nat n, pd_uuid = ''u'', pd_events = (\<lambda>i. (''e'' @ show_nat n, of_nat n))\<rparr>),
     oe_flush_draws = (\<lambda>n i. \<lparr>now_iso = ''2026-01-01T00:00:00+00:00'', new_uuid = ''l'' @ show_nat (10 * n + i)\<rparr>), oe_clock = (\<lambda>n i. of_nat n)\<rparr>"

definition replay_world :: "unit ordered_world" where
  "replay_world = \<lparr>om_policy = empty_policy\<lparr>strategies := [recalled_strategy]\<rparr>, om_ledger = [], om_tasks = ((), \<lambda>p. []), om_tick = 0\<rparr>"

abbreviation replayed :: "((string \<times> json) list list \<times> ordered_report) result \<times> unit ordered_world" where
  "replayed \<equiv> ordered_run replay_env [replay_task] replay_method ''r'' 10 100 replay_world"

lemma replayed_ids: "(case fst replayed of Inl e \<Rightarrow> [] | Inr (ps, report) \<Rightarrow> map os_strategy_ids (rp_steps report)) = [[''s'']]"
  by code_simp

section \<open>The memory of a run\<close>

text \<open>
  C38. Whatever tasks, artifacts, evaluator and errors a run meets, it changes the policy memory only by
  a sequence of operations of the policy store, and the invariant of the memory holds afterwards.
  Outcomes and statuses change only under the delayed treatment.
\<close>

theorem ordered_run_refines_policy_store:
  assumes "policy_inv (om_policy w)"
  shows "(\<exists>ops. list_all (run_op m) ops \<and>
      om_policy (snd (ordered_run oe values m run_id call_limit token_limit w)) = run_ops (policy_step (oe_env oe)) ops (om_policy w)) \<and>
    policy_inv (om_policy (snd (ordered_run oe values m run_id call_limit token_limit w)))"
proof -
  have "policy_moved (oe_env oe) (run_op m) w (snd (ordered_run oe values m run_id call_limit token_limit w))"
    using ordered_run_moves unfolding moves_def by blast
  then show ?thesis using policy_machine.run_inv [OF assms] by (auto simp: policy_moved_def)
qed

theorem ordered_run_refines_policy_store_witness:
  "\<exists>ops. list_all (run_op replay_method) ops \<and>
     om_policy (snd (ordered_run replay_env [replay_task] replay_method ''r'' 10 100 (replay_world\<lparr>om_policy := empty_policy\<rparr>))) =
       run_ops (policy_step (oe_env replay_env)) ops empty_policy"
  using ordered_run_refines_policy_store [of "replay_world\<lparr>om_policy := empty_policy\<rparr>" replay_method replay_env] policy_inv_empty
  by simp

text \<open>
  Uncredited replay gives no credit: it records no outcome, and every strategy of the memory stays
  as it is, with its status; strategies are only added.
\<close>

theorem uncredited_replay_gives_no_credit:
  assumes "memory m = ''uncredited_replay''"
  shows "outcomes (om_policy (snd (ordered_run oe values m run_id call_limit token_limit w))) = outcomes (om_policy w) \<and>
    (\<exists>new. strategies (om_policy (snd (ordered_run oe values m run_id call_limit token_limit w))) = strategies (om_policy w) @ new)"
proof -
  have "policy_moved (oe_env oe) (run_op m) w (snd (ordered_run oe values m run_id call_limit token_limit w))"
    using ordered_run_moves unfolding moves_def by blast
  then have "kept False True (om_policy w) (om_policy (snd (ordered_run oe values m run_id call_limit token_limit w)))"
    by (rule moved_kept) (use run_op_kinds assms in fastforce)
  then show ?thesis by (simp add: kept_def)
qed

theorem uncredited_replay_gives_no_credit_witness:
  "outcomes (om_policy (snd replayed)) = [] \<and> recalled_strategy \<in> set (strategies (om_policy (snd replayed)))"
proof -
  have "memory replay_method = ''uncredited_replay''" by (simp add: replay_method_def)
  from uncredited_replay_gives_no_credit [OF this, of replay_env "[replay_task]" "''r''" 10 100 replay_world] show ?thesis
    by (auto simp: replay_world_def empty_policy_def)
qed

text \<open>
  The injected memory counts against the bound of a query: a valid plan with a long query makes the
  whole task fail when a strategy is recalled for it.
\<close>

theorem memory_overflows_plan:
  assumes "validate_query_plan p = Inr ()" and "q \<in> set (qp_queries p)" and "length q + length (memory_text recalled) > 1000"
    and "recalled \<noteq> []"
  shows "inject_memory recalled ''counterevidence'' p = Inl (contract ''query plan requires 1-8 bounded queries'')"
proof -
  from assms(1) have u: "validate_usage (qp_usage p) = Inr ()" by (auto simp: validate_query_plan_def bind_result_Inr_iff)
  have "list_ex (\<lambda>q. blank q \<or> length q > 1000) (map (\<lambda>q. q @ memory_text recalled) (qp_queries p))"
    using assms(2,3) by (force simp: list_ex_iff)
  then have "validate_query_plan (p\<lparr>qp_queries := map (\<lambda>q. q @ memory_text recalled) (qp_queries p)\<rparr>) =
      Inl (contract ''query plan requires 1-8 bounded queries'')"
    using u by (simp add: validate_query_plan_def raise_if_def)
  with assms(1,4) show ?thesis by (simp add: inject_memory_def)
qed

section \<open>Bindings are final\<close>

lemma scores_for_ids: "scores_for tenant ids db = Inr scs \<Longrightarrow> map sc_strategy_id scs = ids"
proof -
  have "those (map (\<lambda>i. row_by sc_strategy_id i xs) ids) = Some scs \<Longrightarrow> map sc_strategy_id scs = ids" for xs
    by (induction ids arbitrary: scs) (auto dest: row_by_SomeD split: option.splits)
  then show "scores_for tenant ids db = Inr scs \<Longrightarrow> map sc_strategy_id scs = ids"
    by (auto simp: scores_for_def split: option.splits)
qed

definition row_key :: "intervention \<Rightarrow> string \<times> string \<times> string \<times> int" where
  "row_key v = (iv_tenant_id v, iv_run_id v, iv_method_id v, iv_sequence_index v)"

definition bind_key :: "bind_request \<Rightarrow> string \<times> string \<times> string \<times> int" where
  "bind_key r = (bq_tenant_id r, bq_run_id r, bq_method_id r, bq_sequence_index r)"

lemma bind_interventionE:
  assumes "bind_sequence_intervention d r db = Inr (scs, db')"
  obtains "map sc_strategy_id scs = bq_strategy_ids r"
    and "\<exists>v. row_by row_key (bind_key r) (interventions db') = Some v \<and> same_intervention v r"
    and "\<forall>v \<in> set (interventions db'). v \<in> set (interventions db) \<or> row_key v = bind_key r"
    and "row_by row_key (bind_key r) (interventions db) \<noteq> None \<Longrightarrow> interventions db' = interventions db"
proof -
  have key: "(\<lambda>v. (iv_tenant_id v, iv_run_id v, iv_method_id v, iv_sequence_index v)) = row_key" by (simp add: row_key_def fun_eq_iff)
  from assms have ids: "map sc_strategy_id scs = bq_strategy_ids r"
    by (auto simp: bind_sequence_intervention_def bind_result_Inr_iff split: if_splits dest: scores_for_ids)
  show thesis
  proof (cases "row_by row_key (bind_key r) (interventions db)")
    case None
    define v where "v = \<lparr>iv_tenant_id = bq_tenant_id r, iv_run_id = bq_run_id r, iv_method_id = bq_method_id r,
      iv_sequence_index = bq_sequence_index r, iv_challenge_id = bq_challenge_id r, iv_order_sha256 = bq_order_sha256 r,
      iv_memory_mode = bq_memory_mode r, iv_strategy_ids = bq_strategy_ids r, iv_created_at = pd_now d\<rparr>"
    from assms None have "enqueue (pd_events d 0) (bound_event r) (db\<lparr>interventions := interventions db @ [v]\<rparr>) = Inr db'"
      by (auto simp: bind_sequence_intervention_def bind_result_Inr_iff key bind_key_def v_def split: if_splits)
    from enqueue_InrD(1) [OF this] have db': "interventions db' = interventions db @ [v]" by simp
    have v: "row_key v = bind_key r" "same_intervention v r" by (simp_all add: v_def row_key_def bind_key_def same_intervention_def)
    have "row_by row_key (bind_key r) (interventions db @ [v]) = Some v"
      using None v(1) by (simp add: row_by_append row_by_Cons)
    with ids db' v None show ?thesis by (intro that) auto
  next
    case (Some v)
    with assms have "same_intervention v r" "db' = db"
      by (auto simp: bind_sequence_intervention_def bind_result_Inr_iff key bind_key_def split: if_splits)
    with ids Some show ?thesis by (intro that) auto
  qed
qed

lemma bind_strategiesE:
  assumes "bind_strategies oe m run_id order index challenge family w = (Inr selected, w')"
  obtains proposal where "(case row_by row_key (oe_tenant oe, run_id, method_id m, index) (interventions (om_policy w)) of
      Some v \<Rightarrow> map sc_strategy_id proposal = iv_strategy_ids v
    | None \<Rightarrow> select_strategies oe m family index (om_policy w) = Inr proposal)"
    and "bind_sequence_intervention (oe_draw oe (om_tick w)) (intervention_request oe m run_id order index challenge proposal)
      (om_policy w) = Inr (selected, om_policy w')"
proof -
  have key: "(\<lambda>v. (iv_tenant_id v, iv_run_id v, iv_method_id v, iv_sequence_index v)) = row_key" by (simp add: row_key_def fun_eq_iff)
  from assms obtain proposal where p: "bind_result (sequence_intervention (oe_tenant oe) run_id (method_id m) index (om_policy w)) (\<lambda>persisted.
       case persisted of Some scs \<Rightarrow> Inr scs | None \<Rightarrow> select_strategies oe m family index (om_policy w)) = Inr proposal"
    and b: "policy_act oe (\<lambda>d. bind_sequence_intervention d (intervention_request oe m run_id order index challenge proposal)) w = (Inr selected, w')"
    by (auto simp: bind_strategies_def b_bind_Inr_iff read_policy_def)
  from b have "bind_sequence_intervention (oe_draw oe (om_tick w)) (intervention_request oe m run_id order index challenge proposal)
      (om_policy w) = Inr (selected, om_policy w')"
    by (auto simp: policy_act_def transact_def split: sum.splits prod.splits)
  moreover from p have "case row_by row_key (oe_tenant oe, run_id, method_id m, index) (interventions (om_policy w)) of
      Some v \<Rightarrow> map sc_strategy_id proposal = iv_strategy_ids v
    | None \<Rightarrow> select_strategies oe m family index (om_policy w) = Inr proposal"
    by (auto simp: sequence_intervention_def bind_result_Inr_iff key split: option.splits dest: scores_for_ids)
  ultimately show thesis by (intro that)
qed

lemma request_key: "bind_key (intervention_request oe m run_id order index challenge proposal) = (oe_tenant oe, run_id, method_id m, index)"
  by (simp add: bind_key_def intervention_request_def)

lemma request_ids: "bq_strategy_ids (intervention_request oe m run_id order index challenge proposal) = map sc_strategy_id proposal"
  by (simp add: intervention_request_def)

text \<open>
  C40. The strategies of a task are fixed before it runs and stay fixed.  Once they are bound, no run of
  any treatment changes the binding: binding the same position of the same run again, whatever was
  learnt in between, either raises or gives the same strategies for the same challenge, order and
  treatment, and changes no binding.
\<close>

theorem bound_strategies_are_final:
  assumes "bind_strategies oe m run_id order index challenge family w = (Inr selected, w1)"
    and "w2 = snd (ordered_run oe2 values m2 run2 call_limit token_limit w1)"
    and "bind_strategies oe m run_id order' index challenge' family' w2 = (Inr selected', w3)"
  shows "map sc_strategy_id selected' = map sc_strategy_id selected \<and> challenge' = challenge \<and> order' = order \<and>
    interventions (om_policy w3) = interventions (om_policy w2)"
proof -
  let ?k = "(oe_tenant oe, run_id, method_id m, index)"
  from assms(1) obtain proposal where "bind_sequence_intervention (oe_draw oe (om_tick w))
      (intervention_request oe m run_id order index challenge proposal) (om_policy w) = Inr (selected, om_policy w1)"
    by (rule bind_strategiesE)
  then obtain v where v: "row_by row_key ?k (interventions (om_policy w1)) = Some v"
    "same_intervention v (intervention_request oe m run_id order index challenge proposal)"
    "map sc_strategy_id selected = map sc_strategy_id proposal"
    by (rule bind_interventionE) (use that in \<open>auto simp: request_key request_ids\<close>)
  have "policy_moved (oe_env oe2) (run_op m2) w1 w2"
    unfolding assms(2) using ordered_run_moves unfolding moves_def by blast
  then have "kept True True (om_policy w1) (om_policy w2)" by (rule moved_kept) simp
  then have v2: "row_by row_key ?k (interventions (om_policy w2)) = Some v" using v(1) by (auto simp: kept_def row_by_append)
  from assms(3) obtain proposal' where p: "map sc_strategy_id proposal' = iv_strategy_ids v"
    and b: "bind_sequence_intervention (oe_draw oe (om_tick w2))
      (intervention_request oe m run_id order' index challenge' proposal') (om_policy w2) = Inr (selected', om_policy w3)"
    by (rule bind_strategiesE) (simp add: v2)
  from b obtain v' where v': "row_by row_key ?k (interventions (om_policy w3)) = Some v'"
    "same_intervention v' (intervention_request oe m run_id order' index challenge' proposal')"
    "map sc_strategy_id selected' = map sc_strategy_id proposal'" and same: "interventions (om_policy w3) = interventions (om_policy w2)"
    by (rule bind_interventionE) (use that in \<open>auto simp: request_key request_ids v2\<close>)
  from v' v2 same have "v' = v" by simp
  with v v' p same show ?thesis by (auto simp: same_intervention_def intervention_request_def)
qed

definition bound_world :: "unit ordered_world" where
  "bound_world = snd (bind_strategies replay_env replay_method ''r'' (replicate 64 (CHR ''a'')) 0 ''c'' ''g'' replay_world)"

definition rebound :: "strategy_score list result \<times> unit ordered_world" where
  "rebound = bind_strategies replay_env replay_method ''r'' (replicate 64 (CHR ''a'')) 0 ''c'' ''h''
     (snd (ordered_run replay_env [replay_task] replay_method ''r2'' 10 100 bound_world))"

theorem bound_strategies_are_final_witness:
  "\<exists>selected w3. rebound = (Inr selected, w3) \<and> map sc_strategy_id selected = [''s'']"
proof -
  let ?b = "bind_strategies replay_env replay_method ''r'' (replicate 64 (CHR ''a'')) 0 ''c'' ''g'' replay_world"
  have "(case fst ?b of Inl e \<Rightarrow> [] | Inr scs \<Rightarrow> map sc_strategy_id scs) = [''s'']" by code_simp
  then obtain selected where b: "?b = (Inr selected, bound_world)" "map sc_strategy_id selected = [''s'']"
    unfolding bound_world_def by (cases ?b) (auto split: sum.splits)
  have "\<not> isl (fst rebound)" by code_simp
  then obtain selected' where "fst rebound = Inr selected'" by (cases "fst rebound") auto
  then have r: "rebound = (Inr selected', snd rebound)" by (metis prod.collapse)
  from bound_strategies_are_final [OF b(1) refl r [unfolded rebound_def]] b(2) have ids: "map sc_strategy_id selected' = [''s'']" by simp
  show ?thesis by (intro exI conjI) (rule r, rule ids)
qed

section \<open>Recalled strategies come from other families\<close>

definition foreign :: "policy_db \<Rightarrow> string \<Rightarrow> string \<Rightarrow> string \<Rightarrow> bool" where
  "foreign db tenant family i \<longleftrightarrow> list_ex (\<lambda>(i', t', f'). i' = i \<and> t' = tenant \<and> f' \<noteq> family) (family_table db)"

lemma foreignI: "s \<in> set (strategies db) \<Longrightarrow> st_strategy_id s = i \<Longrightarrow> st_tenant_id s = t \<Longrightarrow> st_source_task_family s \<noteq> f \<Longrightarrow> foreign db t f i"
  by (auto simp: foreign_def family_table_def list_ex_iff)

lemma foreign_kept: "kept c b db db' \<Longrightarrow> foreign db t f i \<Longrightarrow> foreign db' t f i"
  by (auto simp: foreign_def kept_def)

definition recall_limit :: "method_spec \<Rightarrow> nat" where
  "recall_limit m = (if memory m = ''uncredited_replay'' then 2 else 1)"

lemma strategy_found: "find_strategy t i db = Some s \<Longrightarrow> s \<in> set (strategies db) \<and> st_strategy_id s = i \<and> st_tenant_id s = t"
  by (auto simp: find_strategy_def find_Some_iff)

lemma recalled_foreign:
  assumes "select_strategies oe m family index db = Inr scs"
  shows "list_all (foreign db (oe_tenant oe) family) (map sc_strategy_id scs) \<and> length scs \<le> recall_limit m"
proof (cases "memory m = ''uncredited_replay''")
  case True
  let ?ss = "take_limit 2 (sort_key (\<lambda>s. (- st_created_at s, st_strategy_id s))
    (filter (\<lambda>s. st_tenant_id s = oe_tenant oe \<and> st_status s \<noteq> RETIRED \<and> st_source_task_family s \<noteq> family) (strategies db)))"
  from assms True have "map sc_strategy_id scs = map st_strategy_id ?ss"
    by (simp add: select_strategies_def recall_uncredited_def scores_for_ids)
  moreover from arg_cong [OF this, of length] have "length scs = length ?ss" by simp
  moreover have "length ?ss \<le> 2" by (simp add: take_limit_def)
  moreover have "list_all (foreign db (oe_tenant oe) family) (map st_strategy_id ?ss)"
    by (auto simp: list_all_iff take_limit_def intro!: foreignI dest!: in_set_takeD)
  ultimately show ?thesis using True by (simp add: recall_limit_def)
next
  case False
  have active: "list_all (foreign db (oe_tenant oe) family) (map sc_strategy_id (recall_active (oe_tenant oe) family 1 db))"
  proof -
    have "foreign db (oe_tenant oe) family (sc_strategy_id sc)"
      if "case find_strategy (oe_tenant oe) (sc_strategy_id sc) db of None \<Rightarrow> False | Some s \<Rightarrow> st_source_task_family s \<noteq> family" for sc
      using that by (auto intro: foreignI dest: strategy_found split: option.splits)
    then show ?thesis by (auto simp: recall_active_def take_limit_def list_all_iff dest!: in_set_takeD)
  qed
  have candidate: "foreign db (oe_tenant oe) family (sc_strategy_id c)"
    if "recall_candidate_for_evaluation (oe_tenant oe) family db = Inr (Some c)" for c
  proof -
    let ?ss = "sort_key (\<lambda>s. (length (credited_outcomes s db), st_created_at s, st_strategy_id s))
         (filter (\<lambda>s. st_tenant_id s = oe_tenant oe \<and> st_status s = CANDIDATE \<and>
            st_source_task_family s \<noteq> family \<and> \<not> tried_in_family s family db) (strategies db))"
    from that obtain s rest scs where s: "?ss = s # rest" "scores_for (oe_tenant oe) [st_strategy_id s] db = Inr scs" "c = hd scs"
      by (auto simp: recall_candidate_for_evaluation_def bind_result_Inr_iff split: list.splits)
    from scores_for_ids [OF s(2)] s(3) have "sc_strategy_id c = st_strategy_id s" by auto
    moreover have "s \<in> set ?ss" unfolding s(1) by simp
    ultimately show ?thesis by (auto intro: foreignI)
  qed
  from assms False active candidate show ?thesis
    by (auto simp: select_strategies_def recall_limit_def bind_result_Inr_iff Let_def list_all_iff dest!: in_set_takeD
      split: option.splits if_splits)
qed

text \<open>The positions of a run that are still unbound.\<close>

definition unbound :: "'s ordered_env \<Rightarrow> method_spec \<Rightarrow> string \<Rightarrow> int set \<Rightarrow> policy_db \<Rightarrow> bool" where
  "unbound oe m run_id ks db \<longleftrightarrow> (\<forall>k \<in> ks. row_by row_key (oe_tenant oe, run_id, method_id m, k) (interventions db) = None)"

definition step_foreign :: "'s ordered_env \<Rightarrow> method_spec \<Rightarrow> policy_db \<Rightarrow> ordered_step \<Rightarrow> bool" where
  "step_foreign oe m db st \<longleftrightarrow> list_all (foreign db (oe_tenant oe) (os_task_family st)) (os_strategy_ids st) \<and>
     length (os_strategy_ids st) \<le> recall_limit m"

lemma step_foreign_kept: "kept c b db db' \<Longrightarrow> step_foreign oe m db st \<Longrightarrow> step_foreign oe m db' st"
  using foreign_kept by (fastforce simp: step_foreign_def list_all_iff)

lemma ordered_task_step:
  assumes "ordered_task oe m run_id order call_limit token_limit it w = (Inr (p, st), w')"
    and "unbound oe m run_id ks (om_policy w)" and "fst it \<in> ks"
  shows "step_foreign oe m (om_policy w') st \<and> unbound oe m run_id (ks - {fst it}) (om_policy w')"
proof -
  obtain index tv tk where it: "it = (index, tv, tk)" by (cases it)
  from assms(1) obtain family selected w1 where b: "bind_strategies oe m run_id order index (challenge_id tk) family w = (Inr selected, w1)"
    and a: "after_binding oe m run_id call_limit token_limit index tv tk family selected w1 = (Inr (p, st), w')"
    by (auto simp: it ordered_task_eq b_bind_Inr_iff)
  have st: "os_task_family st = family" "os_strategy_ids st = map sc_strategy_id selected"
    using a by (auto simp: after_binding_def b_bind_Inr_iff bind_result_Inr_iff)
  have free: "row_by row_key (oe_tenant oe, run_id, method_id m, index) (interventions (om_policy w)) = None"
    using assms(2,3) by (simp add: unbound_def it)
  from b obtain proposal where s: "select_strategies oe m family index (om_policy w) = Inr proposal"
    and i: "bind_sequence_intervention (oe_draw oe (om_tick w)) (intervention_request oe m run_id order index (challenge_id tk) proposal)
      (om_policy w) = Inr (selected, om_policy w1)"
    by (rule bind_strategiesE) (simp add: free)
  from i have ids: "map sc_strategy_id selected = map sc_strategy_id proposal"
    by (rule bind_interventionE) (simp add: request_ids)
  from i have new: "\<forall>v \<in> set (interventions (om_policy w1)). v \<in> set (interventions (om_policy w)) \<or>
      row_key v = (oe_tenant oe, run_id, method_id m, index)"
    by (rule bind_interventionE) (simp add: request_key)
  have k1: "kept True True (om_policy w) (om_policy w1)"
    using moved_kept [OF movesD [OF bind_moves [of "\<lambda>op. True"] b]] by simp
  have k2: "kept True False (om_policy w1) (om_policy w')"
    using moved_kept [OF movesD [OF after_binding_moves a], of True False] later_op_kinds by blast
  have "length selected = length proposal" using arg_cong [OF ids, of length] by simp
  then have "step_foreign oe m (om_policy w) st" using recalled_foreign [OF s] st ids by (simp add: step_foreign_def)
  then have "step_foreign oe m (om_policy w') st" using step_foreign_kept k1 k2 by blast
  moreover have "unbound oe m run_id (ks - {index}) (om_policy w')"
    using assms(2) new k2 by (fastforce simp: unbound_def row_by_None_iff kept_def)
  ultimately show ?thesis by (simp add: it)
qed

lemma ordered_tasks_steps:
  "for_each (ordered_task oe m run_id order call_limit token_limit) its w = (Inr rows, w') \<Longrightarrow>
   unbound oe m run_id (fst ` set its) (om_policy w) \<Longrightarrow> distinct (map fst its) \<Longrightarrow>
   list_all (step_foreign oe m (om_policy w')) (map snd rows) \<and> length rows = length its"
proof (induction its arbitrary: w rows)
  case (Cons it its)
  then obtain p st w1 rs where t: "ordered_task oe m run_id order call_limit token_limit it w = (Inr (p, st), w1)"
    and r: "for_each (ordered_task oe m run_id order call_limit token_limit) its w1 = (Inr rs, w')" "rows = (p, st) # rs"
    by (auto simp: b_bind_Inr_iff)
  have step: "step_foreign oe m (om_policy w1) st" "unbound oe m run_id (fst ` set (it # its) - {fst it}) (om_policy w1)"
    using ordered_task_step [OF t Cons.prems(2)] by simp_all
  have "policy_moved (oe_env oe) (run_op m) w1 w'"
    by (rule movesD [OF memory.moves_for_each [OF ordered_task_moves] r(1)])
  then have "kept True True (om_policy w1) (om_policy w')" by (rule moved_kept) simp
  then have "step_foreign oe m (om_policy w') st" using step(1) step_foreign_kept by blast
  moreover have "fst ` set (it # its) - {fst it} = fst ` set its" using Cons.prems(3) by auto
  ultimately show ?case using Cons.IH [OF r(1)] step(2) Cons.prems(3) r(2) by simp
qed simp

lemma map_result_length: "map_result f xs = Inr ys \<Longrightarrow> length ys = length xs"
  by (induction xs arbitrary: ys) (auto simp: bind_result_Inr_iff)

text \<open>
  C39. Memory never leaks within a task family.  In a run whose positions were not bound before, every
  task gets at most two strategies under uncredited replay and at most one under delayed credit, each
  produced by a task of another family than its own.
\<close>

theorem recalled_strategies_are_foreign:
  assumes "ordered_run oe values m run_id call_limit token_limit w = (Inr (predictions, report), w')"
    and "unbound oe m run_id UNIV (om_policy w)"
  shows "list_all (step_foreign oe m (om_policy w')) (rp_steps report) \<and> length (rp_steps report) = length values \<and>
    length predictions = length values"
proof -
  from assms(1) obtain tasks order rows w1 where c: "check_run oe m run_id values = Inr tasks"
    and f: "for_each (ordered_task oe m run_id order call_limit token_limit)
      (zip (map int [0..<length tasks]) (zip values tasks)) w = (Inr rows, w1)"
    and r: "predictions = map fst rows" "rp_steps report = map snd rows" "w' = w1"
    by (auto simp: ordered_run_def b_bind_Inr_iff bind_result_Inr_iff)
  have len: "length tasks = length values"
    using c by (auto simp: check_run_def raise_if_def bind_result_Inr_iff map_result_length split: if_splits)
  have "distinct (map fst (zip (map int [0..<length tasks]) (zip values tasks)))"
    by (simp add: map_fst_zip_take len distinct_map take_map)
  moreover have "unbound oe m run_id (fst ` set (zip (map int [0..<length tasks]) (zip values tasks))) (om_policy w)"
    using assms(2) by (simp add: unbound_def)
  ultimately show ?thesis using ordered_tasks_steps [OF f] len r by simp
qed

theorem recalled_strategies_are_foreign_witness:
  "\<exists>ps report w'. replayed = (Inr (ps, report), w') \<and> map os_strategy_ids (rp_steps report) = [[''s'']] \<and>
     list_all (step_foreign replay_env replay_method (om_policy w')) (rp_steps report)"
proof -
  from replayed_ids obtain ps report w' where r: "replayed = (Inr (ps, report), w')" "map os_strategy_ids (rp_steps report) = [[''s'']]"
    by (cases replayed) (auto split: sum.splits)
  moreover have "unbound replay_env replay_method ''r'' UNIV (om_policy replay_world)"
    by (simp add: unbound_def replay_world_def empty_policy_def)
  ultimately show ?thesis using recalled_strategies_are_foreign [OF r(1)] by simp
qed

end
