(* ===== verification/Spec2Isabelle.thy ===== *)
theory Spec2Isabelle
  imports Control_Properties Operations_Properties Memory_Properties Discovery_Properties Storage_Properties
    Benchmark_Properties Literature_Properties Scorer_Properties Survey_Properties Oracle_Properties Ordered_Properties
begin

text \<open>
  A verification development for VeriMat, an agent core that records claims, evidence and decisions.

  The program keeps four kinds of state, and the theories follow them.

  1. The evidence record.  Every step writes an event to an append-only ledger; a projection folds
  the events into a decision graph of claims, queries, passages and typed edges.
    \<open>Json\<close>, \<open>Contracts\<close>, \<open>Values\<close>, \<open>Numbers\<close>: JSON values, their canonical rendering, Python's text and
      number operations (\<open>src/core/events.py\<close>).
    \<open>Events\<close>: the event envelope, its construction, check, hash and decoding (\<open>src/core/events.py\<close>).
    \<open>Ledger\<close>: loading, appending, verifying (\<open>src/evidence/ledger.py\<close>).
    \<open>Graph\<close>: one handler per event type, the projection, transition guards and the publication gate
      (\<open>src/evidence/graph.py\<close>).
    Theorems in \<open>Evidence_Properties\<close>: appends extend the loadable ledger by one event and have an
    exactly-once effect, equal head hashes mean equal histories, lines round-trip, the graph is
    referentially closed, surviving claims have their evidence, decisions are final.

  2. Control.  Jobs, leases, checkpoints and charges live in one database; a worker claims a job, runs
  its stages, and finalizes it against the ledger.
    \<open>Job_Store\<close>, \<open>Job_Laws\<close>: the transactions of \<open>src/orchestration/job_store.py\<close> and their invariant.
    \<open>Runtime\<close>: \<open>ExecutionContext\<close> (\<open>src/orchestration/runtime.py\<close>).
    \<open>Worker\<close>, \<open>Worker_Laws\<close>: \<open>ExecutionWorker\<close> (\<open>src/orchestration/worker.py\<close>).
    \<open>Journal\<close>, \<open>Circuit\<close>, \<open>Transport\<close>: the durable journal of paid operations and its recovery, the
      circuit breaker, and the transports that use both (\<open>src/evaluation/operation_recovery.py\<close>,
      \<open>circuit_breaker.py\<close>, \<open>opencode_transport.py\<close>, \<open>literature_retriever.py\<close>).
    \<open>Policy\<close>, \<open>Policy_Laws\<close>, \<open>Outbox_Bridge\<close>, \<open>Policy_Sync\<close>: the policy memory, its outbox and the bridge
      to the audit ledger (\<open>src/learning/policy_store.py\<close>, \<open>src/learning/audit.py\<close>).
    Theorems in \<open>Control_Properties\<close>, \<open>Operations_Properties\<close>, \<open>Memory_Properties\<close>: a reported success is
    backed by checkpoints and a verified ledger, a claimed job is settled whatever raises, repeated
    runs finish, leases exclude, a paid request is sent at most once plus once per authorised retry,
    every outbox event reaches the ledger once under crashes and concurrency.

  3. Storage.  \<open>Artifacts\<close> and \<open>Artifact_Laws\<close> model content-addressed files and their index
  (\<open>src/orchestration/artifacts.py\<close>); \<open>Retention\<close>, \<open>Retention_Planning\<close>, \<open>Retention_Laws\<close> the planned
  deletion of old jobs (\<open>src/operations/retention.py\<close>).  Theorems in \<open>Storage_Properties\<close>: stored
  content reads back, retention keeps survivors readable, deletes exactly its targets, and changes
  nothing when it fails.  \<open>Pareto\<close> and \<open>Pareto_Laws\<close> model the multi-objective tree search
  (\<open>src/discovery/pareto_mcts.py\<close>), with theorems in \<open>Discovery_Properties\<close>.

  4. The research pipelines on top.
    \<open>Benchmark\<close>, \<open>Model_Backend\<close>, \<open>Stage_Handlers\<close>, \<open>Stage_Laws\<close>: the benchmark runner, its contracts
      and the handler of each stage (\<open>src/evaluation/baseline_runner.py\<close>, \<open>model_backend.py\<close>).
    \<open>Sciverse_Filters\<close>, \<open>Sciverse_Client\<close>, \<open>Sciverse_Laws\<close>, \<open>Dates\<close>, \<open>Retriever\<close>: the literature client
      and the benchmark's retrieval (\<open>src/tools/sciverse.py\<close>, \<open>src/evaluation/literature_retriever.py\<close>).
    \<open>Challenge\<close>, \<open>Scorer\<close>, \<open>Scorer_Laws\<close>: challenge sets, predictions and scores
      (\<open>src/evaluation/challenge.py\<close>).
    \<open>Survey_Records\<close>, \<open>Survey_Corpus\<close>, \<open>Survey_Extraction\<close>, \<open>Survey_Gaps\<close>, with \<open>Survey_Laws\<close> and
      \<open>Survey_Gap_Laws\<close>: the literature survey, from the corpus protocol through the extraction gates
      and the gap detectors to the narrated gap list (\<open>src/survey\<close>).
    Theorems in \<open>Benchmark_Properties\<close>, \<open>Literature_Properties\<close>, \<open>Scorer_Properties\<close>, \<open>Survey_Properties\<close>.
    \<open>Ordered_Runner\<close>, \<open>Ordered_Laws\<close>: the memory treatments, which recall strategies before a task and credit
      them after it (\<open>src/evaluation/ordered_runner.py\<close>), over the policy memory of part 2.  Theorems in
      \<open>Ordered_Properties\<close>: a run uses only operations of the policy store, recalls only strategies of other
      families, and never changes what it has bound.
    \<open>Experiment_Methods\<close>, \<open>Experiment_Oracle\<close>, \<open>Experiment_Scoring\<close>, with \<open>Experiment_Laws\<close>: the compared
      verification methods, the time-split oracle they are measured by, and the scores and tests
      (\<open>src/experiments/claims.py\<close>, \<open>methods.py\<close>, \<open>oracle.py\<close>, \<open>scoring.py\<close>).  Theorems in
      \<open>Experiment_Properties\<close> and \<open>Oracle_Properties\<close>: which methods compute the same labels, what a
      label says about the passages read, that oracle answers are sound and final, that the Holm
      correction is the step-down procedure.

  How the code is read.

  Text is a list of characters with code points below 256.  Integers are unbounded.  Floats that the
  code computes with are rationals without rounding; floats that only travel through JSON keep their
  text.  A raise is the left value of a result whose exception carries the class and the fixed part
  of the message.  A dictionary is an association list in insertion order.  Ledger lines are the
  values that \<open>json.loads\<close> gives.

  A file lock or a database transaction makes its body one atomic step, rolled back when it raises.
  Where the code works outside a lock (storing an artifact, flushing the outbox, using the journal)
  it is a step relation or a process whose steps interleave with those of others, and a crash is a
  prefix of the steps.  Workers are run against a schedule that inserts the transactions of other
  processes between their own; stage handlers are parameters there, and the benchmark's handlers are
  given as state transformers in \<open>Stage_Handlers\<close>.

  Parameters stand for what is not in the repository: SHA-256, the clock and fresh identifiers,
  parsing and printing of dates, floats and JSON text, \<open>str.format\<close>, path resolution, HTTP replies,
  the model transport (which answers one operation always alike, as its journal makes it do in the
  experiments), the draws of random tests.  Hypotheses about them are named where they are used; collision freedom is the
  only one about SHA-256.

  Locales: \<open>Contracts\<close> states the interfaces (an operation that preserves an invariant, a keyed store,
  a guarded state machine) and the component theories interpret them on the model.

  Fuel: flushing takes one step per undispatched event and one to see the outbox empty; a put
  of an artifact ends within five steps; a paged request and the reading of a document are bounded by
  the requests the caller's limit allows; the square root of the tree search is a truncated binary
  expansion of sixty places.  Other loops are structural or have a measure.

  Not modelled, with the reason.
    \<open>src/service\<close>: the HTTP service, TLS, metrics, tracing and rate limiting are glue around a web
      framework.
    \<open>src/operations/backup.py\<close>, \<open>migrations.py\<close>, \<open>runtime_migrations.py\<close>, \<open>slo.py\<close>: SQLite administration
      and file copies, except the schema, which the store models follow.
    \<open>src/core/portability.py\<close>: operating-system paths and locks.
    \<open>src/survey/report.py\<close>: LaTeX text for a report.
    \<open>src/tools/jsonl_ops.py\<close>, \<open>src/tools/audit_queries.py\<close>, \<open>scripts\<close>, \<open>examples\<close>: command-line tools.
    \<open>src/evaluation/claude_code_transport.py\<close>, \<open>model_router.py\<close>, \<open>evidence_drift.py\<close>,
      \<open>offline_sanity.py\<close>: drivers that start processes or wrap the modelled transports and runner.
    \<open>src/materials\<close>: access to databases of computed materials through third-party packages.
    \<open>src/evaluation/blinding.py\<close>, \<open>credit.py\<close>, \<open>statistics.py\<close>: small tools over files.
    \<open>src/experiments/discovery_pack.py\<close>, \<open>retrieval_cache.py\<close>, \<open>budget.py\<close> and the \<open>run\<close> scripts: they read
      and write the data files of one experiment.
    In the modelled files: opening databases and files, the command line of the literature client, the
      writing of plan, receipt and snapshot files, and \<open>bib_key\<close>, \<open>snapshot\<close> and \<open>from_snapshot\<close> of
      the survey records, the cache file of the oracle and the rounded dictionary of the scores.
\<close>

end
